(* ===== verification/Prelude.thy ===== *)
theory Prelude
  imports Main "HOL-Library.Word" "HOL-Library.Sublist" "HOL-Library.Code_Target_Nat"
begin

text \<open>
  Prelude of the GPUardian development: the parts of the Go language and its standard
  library that the sources use (strings, instants, slices updated in place, maps as
  association lists), and the generic lemmas on them that the component theories share.

  \<^item> A Go string is a byte sequence, a \<^typ>\<open>string\<close> here: \<^typ>\<open>char\<close> is a byte.
  \<^item> \<open>time.Time\<close> is the number of nanoseconds since Go's zero instant, an \<^typ>\<open>int\<close>; the
    zero instant (\<open>IsZero\<close>) is \<open>0\<close>, and \<open>UTC\<close> changes the presentation only.
  \<^item> \<open>strings.TrimSpace\<close> removes every byte sequence that is the UTF-8 encoding of a
    Unicode white space character, at both ends.
  \<^item> \<open>strings.ToLower\<close> and \<open>strings.EqualFold\<close> fold the ASCII letters; bytes above 127 are
    kept, so both are exact on ASCII text, which is what modes, hashes and identifiers are.
\<close>

section \<open>Collections of facts\<close>

named_theorems go_string_simps \<open>evaluation of the Go string functions\<close>
named_theorems scan_simps \<open>facts on the slice scans of the sources\<close>

section \<open>Integers and instants\<close>

type_synonym uint64 = "64 word"
type_synonym time = int
type_synonym duration = int

definition time_IsZero :: "time \<Rightarrow> bool" where
  "time_IsZero t \<longleftrightarrow> t = 0"

text \<open>\<open>time.Time.Sub\<close> saturates at the ends of the \<open>int64\<close> range.\<close>

definition time_Sub :: "time \<Rightarrow> time \<Rightarrow> duration" where
  "time_Sub t u = max (- (2 ^ 63)) (min (2 ^ 63 - 1) (t - u))"

abbreviation (input) nanosecond :: duration where "nanosecond \<equiv> 1"
abbreviation (input) second :: duration where "second \<equiv> 1000000000"
abbreviation (input) hour :: duration where "hour \<equiv> 3600 * second"

lemma time_Sub_le_iff:
  assumes "0 \<le> d" "d < 2 ^ 63 - 1"
  shows "time_Sub t u \<le> d \<longleftrightarrow> t - u \<le> d"
  using assms by (auto simp: time_Sub_def)

section \<open>Strings\<close>

subsection \<open>White space\<close>

definition is_space_seq :: "string \<Rightarrow> bool" where
  "is_space_seq s = (case map of_char s :: nat list of
     [a] \<Rightarrow> (9 \<le> a \<and> a \<le> 13) \<or> a = 32
   | [a, b] \<Rightarrow> a = 194 \<and> (b = 133 \<or> b = 160)
   | [a, b, c] \<Rightarrow>
       (a = 225 \<and> b = 154 \<and> c = 128) \<or>
       (a = 226 \<and> b = 128 \<and> ((128 \<le> c \<and> c \<le> 138) \<or> c = 168 \<or> c = 169 \<or> c = 175)) \<or>
       (a = 226 \<and> b = 129 \<and> c = 159) \<or>
       (a = 227 \<and> b = 128 \<and> c = 128)
   | _ \<Rightarrow> False)"

text \<open>Length of the white space character a string starts with, and ends with; 0 if none.\<close>

definition space_prefix_len :: "string \<Rightarrow> nat" where
  "space_prefix_len s =
     (if is_space_seq (take 1 s) then 1
      else if is_space_seq (take 2 s) then 2
      else if is_space_seq (take 3 s) then 3 else 0)"

definition take_last :: "nat \<Rightarrow> 'a list \<Rightarrow> 'a list" where
  "take_last k s = rev (take k (rev s))"

definition space_suffix_len :: "string \<Rightarrow> nat" where
  "space_suffix_len s =
     (if is_space_seq (take_last 1 s) then 1
      else if is_space_seq (take_last 2 s) then 2
      else if is_space_seq (take_last 3 s) then 3 else 0)"

lemma is_space_seq_Nil [simp]: "\<not> is_space_seq []"
  by (simp add: is_space_seq_def)

function trim_left :: "string \<Rightarrow> string" where
  "trim_left s = (if s = [] \<or> space_prefix_len s = 0 then s
     else trim_left (drop (space_prefix_len s) s))"
  by pat_completeness auto
termination
  by (relation "measure length") auto

function trim_right :: "string \<Rightarrow> string" where
  "trim_right s = (if s = [] \<or> space_suffix_len s = 0 then s
     else trim_right (take (length s - space_suffix_len s) s))"
  by pat_completeness auto
termination
  by (relation "measure length") auto

declare trim_left.simps [simp del] trim_right.simps [simp del]

definition TrimSpace :: "string \<Rightarrow> string" where
  "TrimSpace s = trim_right (trim_left s)"

lemma TrimSpace_Nil [simp]: "TrimSpace [] = []"
  by (simp add: TrimSpace_def trim_left.simps trim_right.simps)

lemma space_prefix_len_0:
  "space_prefix_len s = 0 \<longleftrightarrow> (\<forall>p. is_space_seq p \<longrightarrow> \<not> prefix p s)"
proof -
  have len: "length p \<in> {1, 2, 3}" if "is_space_seq p" for p
    using that by (auto simp: is_space_seq_def split: list.splits)
  have take: "p = take (length p) s" if "prefix p s" for p
    using that by (auto simp: prefix_def)
  show ?thesis
  proof
    assume z: "space_prefix_len s = 0"
    show "\<forall>p. is_space_seq p \<longrightarrow> \<not> prefix p s"
    proof (intro allI impI notI)
      fix p assume sp: "is_space_seq p" and pre: "prefix p s"
      from take [OF pre] sp have "is_space_seq (take (length p) s)" by simp
      with len [OF sp] z show False
        by (auto simp: space_prefix_len_def split: if_splits)
    qed
  next
    assume "\<forall>p. is_space_seq p \<longrightarrow> \<not> prefix p s"
    then show "space_prefix_len s = 0"
      by (auto simp: space_prefix_len_def dest: spec [of _ "take 1 s"] spec [of _ "take 2 s"]
        spec [of _ "take 3 s"] intro: take_is_prefix)
  qed
qed

lemma space_suffix_len_rev:
  "space_suffix_len s = 0 \<longleftrightarrow> (\<forall>p. is_space_seq p \<longrightarrow> \<not> suffix p s)"
proof -
  have len: "length p \<in> {1, 2, 3}" if "is_space_seq p" for p
    using that by (auto simp: is_space_seq_def split: list.splits)
  have take: "p = take_last (length p) s" if "suffix p s" for p
    using that by (auto simp: suffix_def take_last_def)
  have last: "suffix (take_last k s) s" for k
    by (metis suffix_to_prefix rev_rev_ident take_last_def take_is_prefix)
  show ?thesis
  proof
    assume z: "space_suffix_len s = 0"
    show "\<forall>p. is_space_seq p \<longrightarrow> \<not> suffix p s"
    proof (intro allI impI notI)
      fix p assume sp: "is_space_seq p" and suf: "suffix p s"
      from take [OF suf] sp have "is_space_seq (take_last (length p) s)" by simp
      with len [OF sp] z show False
        by (auto simp: space_suffix_len_def split: if_splits)
    qed
  next
    assume "\<forall>p. is_space_seq p \<longrightarrow> \<not> suffix p s"
    with last show "space_suffix_len s = 0"
      by (auto simp: space_suffix_len_def)
  qed
qed

lemma trim_left_no_space: "space_prefix_len (trim_left s) = 0"
proof (induction s rule: trim_left.induct)
  case (1 s)
  then show ?case
    by (cases "s = [] \<or> space_prefix_len s = 0")
      (auto simp: trim_left.simps [of s] space_prefix_len_def split: if_splits)
qed

lemma trim_right_no_space: "space_suffix_len (trim_right s) = 0"
proof (induction s rule: trim_right.induct)
  case (1 s)
  then show ?case
    by (cases "s = [] \<or> space_suffix_len s = 0")
      (auto simp: trim_right.simps [of s] space_suffix_len_def take_last_def split: if_splits)
qed

lemma trim_right_prefix: "prefix (trim_right s) s"
proof (induction s rule: trim_right.induct)
  case (1 s)
  then show ?case
    by (cases "s = [] \<or> space_suffix_len s = 0")
      (auto simp: trim_right.simps [of s] intro: prefix_order.trans take_is_prefix)
qed

lemma trim_left_id: "space_prefix_len s = 0 \<Longrightarrow> trim_left s = s"
  by (simp add: trim_left.simps)

lemma trim_right_id: "space_suffix_len s = 0 \<Longrightarrow> trim_right s = s"
  by (simp add: trim_right.simps)

text \<open>\<open>TrimSpace\<close> leaves no white space at either end, and trimming twice is trimming once.\<close>

lemma TrimSpace_no_leading: "space_prefix_len (TrimSpace s) = 0"
  unfolding TrimSpace_def space_prefix_len_0
  using trim_left_no_space [of s] trim_right_prefix [of "trim_left s"]
  by (auto simp: space_prefix_len_0 intro: prefix_order.trans)

lemma TrimSpace_idem [simp]: "TrimSpace (TrimSpace s) = TrimSpace s"
  using TrimSpace_no_leading [of s] trim_right_no_space [of "trim_left s"]
  by (simp add: TrimSpace_def trim_left_id trim_right_id)

lemma TrimSpace_fixed:
  "space_prefix_len s = 0 \<Longrightarrow> space_suffix_len s = 0 \<Longrightarrow> TrimSpace s = s"
  by (simp add: TrimSpace_def trim_left_id trim_right_id)

subsection \<open>Case folding\<close>

definition lower_char :: "char \<Rightarrow> char" where
  "lower_char c = (let n = of_char c :: nat in
     if 65 \<le> n \<and> n \<le> 90 then char_of (n + 32) else c)"

definition ToLower :: "string \<Rightarrow> string" where
  "ToLower s = map lower_char s"

definition EqualFold :: "string \<Rightarrow> string \<Rightarrow> bool" where
  "EqualFold s t \<longleftrightarrow> ToLower s = ToLower t"

lemma of_char_lower_char:
  "(of_char (lower_char c) :: nat) =
     (if 65 \<le> (of_char c :: nat) \<and> (of_char c :: nat) \<le> 90 then of_char c + 32 else of_char c)"
  by (simp add: lower_char_def Let_def)

lemma lower_char_idem [simp]: "lower_char (lower_char c) = lower_char c"
  by (simp add: lower_char_def Let_def)

lemma ToLower_Nil [simp]: "ToLower [] = []"
  by (simp add: ToLower_def)

lemma ToLower_idem [simp]: "ToLower (ToLower s) = ToLower s"
  by (simp add: ToLower_def)

lemma ToLower_eq_Nil [simp]: "ToLower s = [] \<longleftrightarrow> s = []"
  by (simp add: ToLower_def)

lemma length_ToLower [simp]: "length (ToLower s) = length s"
  by (simp add: ToLower_def)

lemma is_space_seq_ToLower [simp]: "is_space_seq (ToLower s) = is_space_seq s"
  unfolding is_space_seq_def ToLower_def map_map comp_def
  by (cases s; cases "tl s"; cases "tl (tl s)"; cases "tl (tl (tl s))")
    (auto simp: of_char_lower_char)

lemma take_ToLower: "take k (ToLower s) = ToLower (take k s)"
  by (simp add: ToLower_def take_map)

lemma drop_ToLower: "drop k (ToLower s) = ToLower (drop k s)"
  by (simp add: ToLower_def drop_map)

lemma space_len_ToLower [simp]:
  "space_prefix_len (ToLower s) = space_prefix_len s"
  "space_suffix_len (ToLower s) = space_suffix_len s"
proof -
  have l: "take_last k (ToLower s) = ToLower (take_last k s)" for k
    by (simp add: ToLower_def take_last_def rev_map take_map)
  show "space_prefix_len (ToLower s) = space_prefix_len s"
    by (simp add: space_prefix_len_def take_ToLower)
  show "space_suffix_len (ToLower s) = space_suffix_len s"
    by (simp add: space_suffix_len_def l)
qed

lemma trim_left_ToLower: "trim_left (ToLower s) = ToLower (trim_left s)"
proof (induction s rule: trim_left.induct)
  case (1 s)
  then show ?case
    by (cases "s = [] \<or> space_prefix_len s = 0")
      (auto simp: trim_left.simps [of s] trim_left.simps [of "ToLower s"] drop_ToLower)
qed

lemma trim_right_ToLower: "trim_right (ToLower s) = ToLower (trim_right s)"
proof (induction s rule: trim_right.induct)
  case (1 s)
  then show ?case
    by (cases "s = [] \<or> space_suffix_len s = 0")
      (auto simp: trim_right.simps [of s] trim_right.simps [of "ToLower s"] take_ToLower)
qed

lemma TrimSpace_ToLower: "TrimSpace (ToLower s) = ToLower (TrimSpace s)"
  by (simp add: TrimSpace_def trim_left_ToLower trim_right_ToLower)

definition TrimSuffix :: "string \<Rightarrow> string \<Rightarrow> string" where
  "TrimSuffix s suf = (if suffix suf s then take (length s - length suf) s else s)"

lemma TrimSuffix_append [simp]: "TrimSuffix (s @ suf) suf = s"
  by (auto simp: TrimSuffix_def suffix_def)

subsection \<open>Hexadecimal text\<close>

definition hex_digit :: "nat \<Rightarrow> char" where
  "hex_digit n = (if n < 10 then char_of (48 + n) else char_of (87 + n))"

definition hex_EncodeToString :: "string \<Rightarrow> string" where
  "hex_EncodeToString bs =
     concat (map (\<lambda>b. let n = of_char b in [hex_digit (n div 16), hex_digit (n mod 16)]) bs)"

definition is_hex_char :: "char \<Rightarrow> bool" where
  "is_hex_char c = (let n = of_char c :: nat in
     (48 \<le> n \<and> n \<le> 57) \<or> (97 \<le> n \<and> n \<le> 102) \<or> (65 \<le> n \<and> n \<le> 70))"

text \<open>Whether \<open>hex.DecodeString\<close> accepts the text.\<close>

definition hex_valid :: "string \<Rightarrow> bool" where
  "hex_valid s \<longleftrightarrow> even (length s) \<and> list_all is_hex_char s"

lemma is_hex_char_hex_digit: "n < 16 \<Longrightarrow> is_hex_char (hex_digit n)"
  by (auto simp: is_hex_char_def hex_digit_def Let_def)

lemma length_hex_EncodeToString [simp]: "length (hex_EncodeToString bs) = 2 * length bs"
  by (induction bs) (auto simp: hex_EncodeToString_def Let_def)

lemma hex_valid_EncodeToString [simp]: "hex_valid (hex_EncodeToString bs)"
proof -
  have "list_all is_hex_char (hex_EncodeToString bs)"
  proof (induction bs)
    case (Cons b bs)
    have "(of_char b :: nat) < 256" by (rule nat_of_char_less_256)
    then have "is_hex_char (hex_digit (of_char b div 16))" "is_hex_char (hex_digit (of_char b mod 16))"
      by (simp_all add: is_hex_char_hex_digit less_mult_imp_div_less)
    with Cons show ?case by (simp add: hex_EncodeToString_def Let_def)
  qed (simp add: hex_EncodeToString_def)
  then show ?thesis by (simp add: hex_valid_def)
qed

section \<open>Slices scanned and updated in place\<close>

text \<open>
  \<open>update_first P f xs\<close> is the loop that stops at the first element with \<open>P\<close> after
  writing it; \<open>update_where P f xs\<close> is the loop that writes every such element.
\<close>

fun update_first :: "('a \<Rightarrow> bool) \<Rightarrow> ('a \<Rightarrow> 'a) \<Rightarrow> 'a list \<Rightarrow> 'a list" where
  "update_first P f [] = []"
| "update_first P f (x # xs) = (if P x then f x # xs else x # update_first P f xs)"

definition update_where :: "('a \<Rightarrow> bool) \<Rightarrow> ('a \<Rightarrow> 'a) \<Rightarrow> 'a list \<Rightarrow> 'a list" where
  "update_where P f xs = map (\<lambda>x. if P x then f x else x) xs"

lemma length_update_first [simp]: "length (update_first P f xs) = length xs"
  by (induction xs) auto

lemma length_update_where [simp]: "length (update_where P f xs) = length xs"
  by (simp add: update_where_def)

lemma update_first_none: "\<not> (\<exists>x \<in> set xs. P x) \<Longrightarrow> update_first P f xs = xs"
  by (induction xs) auto

lemma update_first_split:
  assumes "\<exists>x \<in> set xs. P x"
  shows "\<exists>pre x post. xs = pre @ x # post \<and> P x \<and> (\<forall>y \<in> set pre. \<not> P y) \<and>
    update_first P f xs = pre @ f x # post"
  using assms
proof (induction xs)
  case (Cons a xs)
  show ?case
  proof (cases "P a")
    case True
    then show ?thesis by (intro exI [of _ "[]"]) auto
  next
    case False
    with Cons obtain pre x post where
      "xs = pre @ x # post" "P x" "\<forall>y \<in> set pre. \<not> P y"
      "update_first P f xs = pre @ f x # post" by auto
    with False show ?thesis by (intro exI [of _ "a # pre"]) auto
  qed
qed simp

lemma map_update_first:
  "(\<And>x. P x \<Longrightarrow> g (f x) = g x) \<Longrightarrow> map g (update_first P f xs) = map g xs"
  by (induction xs) auto

lemma map_update_where:
  "(\<And>x. P x \<Longrightarrow> g (f x) = g x) \<Longrightarrow> map g (update_where P f xs) = map g xs"
  by (simp add: update_where_def)

lemma set_update_first_subset: "set (update_first P f xs) \<subseteq> set xs \<union> f ` {x \<in> set xs. P x}"
  by (induction xs) auto

lemma set_update_where: "set (update_where P f xs) = (\<lambda>x. if P x then f x else x) ` set xs"
  by (simp add: update_where_def)

lemma ball_update_where:
  "(\<forall>x \<in> set (update_where P f xs). Q x) \<longleftrightarrow> (\<forall>x \<in> set xs. if P x then Q (f x) else Q x)"
  by (induction xs) (auto simp: update_where_def)

lemma list_all_update_first:
  "list_all Q xs \<Longrightarrow> (\<And>x. Q x \<Longrightarrow> P x \<Longrightarrow> Q (f x)) \<Longrightarrow> list_all Q (update_first P f xs)"
  by (induction xs) auto

lemma list_all_update_where:
  "list_all Q xs \<Longrightarrow> (\<And>x. Q x \<Longrightarrow> P x \<Longrightarrow> Q (f x)) \<Longrightarrow> list_all Q (update_where P f xs)"
  by (auto simp: list_all_iff update_where_def)

lemma list_all_filter: "list_all Q xs \<Longrightarrow> list_all Q (filter P xs)"
  by (auto simp: list_all_iff)

lemma find_SomeD: "find P xs = Some x \<Longrightarrow> x \<in> set xs \<and> P x"
  by (auto simp: find_Some_iff)

lemma find_ex:
  assumes "x \<in> set xs" "P x"
  obtains y where "find P xs = Some y" "y \<in> set xs" "P y"
proof (cases "find P xs")
  case None
  with assms show ?thesis by (auto simp: find_None_iff)
next
  case (Some y)
  with that find_SomeD [OF Some] show ?thesis by blast
qed

lemma find_append: "find P (xs @ ys) = (case find P xs of None \<Rightarrow> find P ys | Some x \<Rightarrow> Some x)"
  by (induction xs) auto

lemma length_filter_update_first_le:
  "(\<And>x. P x \<Longrightarrow> Q (f x) \<Longrightarrow> Q x) \<Longrightarrow>
     length (filter Q (update_first P f xs)) \<le> length (filter Q xs)"
  by (induction xs) auto

lemma length_filter_update_where_le:
  "(\<And>x. P x \<Longrightarrow> Q (f x) \<Longrightarrow> Q x) \<Longrightarrow>
     length (filter Q (update_where P f xs)) \<le> length (filter Q xs)"
  by (induction xs) (auto simp: update_where_def)

lemma length_filter_filter_le: "length (filter Q (filter P xs)) \<le> length (filter Q xs)"
  by (induction xs) auto

text \<open>
  Pairwise relations over a slice (\<open>sorted_wrt\<close> with a symmetric relation) survive every
  filtering and every pointwise update that weakens the elements.
\<close>

lemma sorted_wrt_map_mono:
  assumes "sorted_wrt R xs" "\<And>x y. x \<in> set xs \<Longrightarrow> y \<in> set xs \<Longrightarrow> R x y \<Longrightarrow> R (f x) (f y)"
  shows "sorted_wrt R (map f xs)"
  using assms by (induction xs) auto

lemma sorted_wrt_update_first_mono:
  assumes "sorted_wrt R xs"
    and "\<And>x y. P x \<Longrightarrow> R x y \<Longrightarrow> R (f x) y" and "\<And>x y. P y \<Longrightarrow> R x y \<Longrightarrow> R x (f y)"
  shows "sorted_wrt R (update_first P f xs)"
  using assms(1)
proof (induction xs)
  case (Cons a xs)
  then show ?case
    using assms(2,3) set_update_first_subset [of P f xs] by fastforce
qed simp

lemma sorted_wrt_update_where_mono:
  assumes "sorted_wrt R xs"
    and "\<And>x y. P x \<Longrightarrow> R x y \<Longrightarrow> R (f x) y" and "\<And>x y. P y \<Longrightarrow> R x y \<Longrightarrow> R x (f y)"
  shows "sorted_wrt R (update_where P f xs)"
  unfolding update_where_def
  by (rule sorted_wrt_map_mono [OF assms(1)]) (simp add: assms(2,3))

section \<open>Error values\<close>

text \<open>The first error of a sequence of fallible steps: the early returns of the sources.\<close>

fun first_error :: "'e option list \<Rightarrow> 'e option" where
  "first_error [] = None"
| "first_error (None # es) = first_error es"
| "first_error (Some e # es) = Some e"

lemma first_error_None_iff: "first_error es = None \<longleftrightarrow> (\<forall>e \<in> set es. e = None)"
  by (induction es rule: first_error.induct) auto

end
