(* ===== verification/Model.thy ===== *)
theory Model
  imports Prelude
begin

text \<open>
  The data model shared by the node daemon's components (\<open>internal/model/model.go\<close>): one
  record per struct, fields in the source's order with a prefix per struct, and the three
  predicates on reservation windows.
\<close>

section \<open>Constants\<close>

abbreviation ModeBare :: string where "ModeBare \<equiv> ''bare''"
abbreviation ModeDocker :: string where "ModeDocker \<equiv> ''docker''"
abbreviation ModeK8s :: string where "ModeK8s \<equiv> ''k8s''"
abbreviation ModeUser :: string where "ModeUser \<equiv> ''user''"
abbreviation TokenModeReserved :: string where "TokenModeReserved \<equiv> ''reserved''"
abbreviation TokenModeClaimed :: string where "TokenModeClaimed \<equiv> ''claimed''"
abbreviation TokenModeManaged :: string where "TokenModeManaged \<equiv> ''managed''"
abbreviation TokenKeyStatusStored :: string where "TokenKeyStatusStored \<equiv> ''stored''"
abbreviation TokenKeyStatusNotStored :: string where "TokenKeyStatusNotStored \<equiv> ''not_stored''"
abbreviation BypassPID :: string where "BypassPID \<equiv> ''pid''"
abbreviation BypassCommand :: string where "BypassCommand \<equiv> ''command''"

section \<open>Records\<close>

record GPUProcess =
  gp_GPU :: int
  gp_PID :: int
  gp_Name :: string
  gp_MemBytes :: uint64
  gp_MemBytesUnknown :: bool

record ProcInfo =
  pi_PID :: int
  pi_StartTime :: uint64
  pi_UID :: int
  pi_Username :: string
  pi_Cmdline :: "string list"
  pi_CommandPath :: string
  pi_Cgroup :: string
  pi_ContainerID :: string
  pi_StderrPath :: string

record Token =
  tk_ID :: string
  tk_Hash :: string
  tk_Secret :: string
  tk_Name :: string
  tk_Mode :: string
  tk_Version :: int
  tk_Managed :: bool
  tk_CreatedAt :: time
  tk_ExpiresAt :: time
  tk_Revoked :: bool

record Reservation =
  rs_ID :: string
  rs_GroupID :: string
  rs_ExternalSessionID :: string
  rs_GPU :: int
  rs_TokenHash :: string
  rs_Holder :: string
  rs_Purpose :: string
  rs_CreatedAt :: time
  rs_StartsAt :: time
  rs_ExpiresAt :: time
  rs_Active :: bool
  rs_Revoked :: bool

definition ReservationStartsAt :: "Reservation \<Rightarrow> time" where
  "ReservationStartsAt r = (if \<not> time_IsZero (rs_StartsAt r) then rs_StartsAt r else rs_CreatedAt r)"

definition ReservationActiveAt :: "Reservation \<Rightarrow> time \<Rightarrow> bool" where
  "ReservationActiveAt r now \<longleftrightarrow>
     rs_Active r \<and> \<not> rs_Revoked r \<and> \<not> now < ReservationStartsAt r \<and> now < rs_ExpiresAt r"

definition ReservationOverlaps :: "Reservation \<Rightarrow> time \<Rightarrow> time \<Rightarrow> bool" where
  "ReservationOverlaps r startsAt expiresAt =
     (if \<not> rs_Active r \<or> rs_Revoked r then False
      else ReservationStartsAt r < expiresAt \<and> startsAt < rs_ExpiresAt r)"

record Authorization =
  au_ID :: string
  au_Mode :: string
  au_TokenHash :: string
  au_TokenMode :: string
  au_TokenVersion :: int
  au_Holder :: string
  au_RunName :: string
  au_UID :: int
  au_GID :: int
  au_Username :: string
  au_Command :: "string list"
  au_RootPID :: int
  au_CgroupPath :: string
  au_CgroupRel :: string
  au_ContainerID :: string
  au_ContainerPattern :: string
  au_Namespace :: string
  au_CreatedAt :: time
  au_ExpiresAt :: time
  au_Active :: bool
  au_Revoked :: bool

record SoftClaim =
  sc_ID :: string
  sc_GPU :: int
  sc_TokenHash :: string
  sc_AuthorizationID :: string
  sc_Holder :: string
  sc_RuntimeContainerID :: string
  sc_RuntimeCgroup :: string
  sc_RuntimePID :: int
  sc_RuntimeStartTime :: uint64
  sc_CreatedAt :: time
  sc_UpdatedAt :: time

record Lease =
  ls_ID :: string
  ls_GPU :: int
  ls_Mode :: string
  ls_TokenHash :: string
  ls_Holder :: string
  ls_UID :: int
  ls_GID :: int
  ls_Command :: "string list"
  ls_RootPID :: int
  ls_CgroupPath :: string
  ls_CgroupRel :: string
  ls_ContainerID :: string
  ls_Namespace :: string
  ls_CreatedAt :: time
  ls_ExpiresAt :: time
  ls_Active :: bool

record BypassRule =
  br_ID :: string
  br_Type :: string
  br_PID :: int
  br_StartTime :: uint64
  br_BootID :: string
  br_Command :: string
  br_UID :: int
  br_Reason :: string
  br_CreatedAt :: time
  br_ExpiresAt :: time
  br_Revoked :: bool

record AuditEvent =
  ae_Time :: time
  ae_Kind :: string
  ae_Message :: string
  ae_GPU :: int
  ae_PID :: int
  ae_LeaseID :: string
  ae_User :: string

record State =
  ManagedKeys :: bool
  KeySnapshotID :: string
  ManagedKeyAuthority :: string
  Tokens :: "Token list"
  Reservations :: "Reservation list"
  Authorizations :: "Authorization list"
  SoftClaims :: "SoftClaim list"
  Leases :: "Lease list"
  Bypasses :: "BypassRule list"
  Audit :: "AuditEvent list"

text \<open>Go's zero values of the structs the sources build field by field.\<close>

definition empty_State :: State where
  "empty_State = \<lparr>ManagedKeys = False, KeySnapshotID = [], ManagedKeyAuthority = [], Tokens = [],
     Reservations = [], Authorizations = [], SoftClaims = [], Leases = [], Bypasses = [], Audit = []\<rparr>"

definition zero_Token :: Token where
  "zero_Token = \<lparr>tk_ID = [], tk_Hash = [], tk_Secret = [], tk_Name = [], tk_Mode = [],
     tk_Version = 0, tk_Managed = False, tk_CreatedAt = 0, tk_ExpiresAt = 0, tk_Revoked = False\<rparr>"

definition zero_Authorization :: Authorization where
  "zero_Authorization = \<lparr>au_ID = [], au_Mode = [], au_TokenHash = [], au_TokenMode = [],
     au_TokenVersion = 0, au_Holder = [], au_RunName = [], au_UID = 0, au_GID = 0,
     au_Username = [], au_Command = [], au_RootPID = 0, au_CgroupPath = [], au_CgroupRel = [],
     au_ContainerID = [], au_ContainerPattern = [], au_Namespace = [], au_CreatedAt = 0,
     au_ExpiresAt = 0, au_Active = False, au_Revoked = False\<rparr>"

definition zero_SoftClaim :: SoftClaim where
  "zero_SoftClaim = \<lparr>sc_ID = [], sc_GPU = 0, sc_TokenHash = [], sc_AuthorizationID = [],
     sc_Holder = [], sc_RuntimeContainerID = [], sc_RuntimeCgroup = [], sc_RuntimePID = 0,
     sc_RuntimeStartTime = 0, sc_CreatedAt = 0, sc_UpdatedAt = 0\<rparr>"

definition zero_Lease :: Lease where
  "zero_Lease = \<lparr>ls_ID = [], ls_GPU = 0, ls_Mode = [], ls_TokenHash = [], ls_Holder = [],
     ls_UID = 0, ls_GID = 0, ls_Command = [], ls_RootPID = 0, ls_CgroupPath = [],
     ls_CgroupRel = [], ls_ContainerID = [], ls_Namespace = [], ls_CreatedAt = 0,
     ls_ExpiresAt = 0, ls_Active = False\<rparr>"

definition zero_GPUProcess :: GPUProcess where
  "zero_GPUProcess = \<lparr>gp_GPU = 0, gp_PID = 0, gp_Name = [], gp_MemBytes = 0, gp_MemBytesUnknown = False\<rparr>"

definition zero_ProcInfo :: ProcInfo where
  "zero_ProcInfo = \<lparr>pi_PID = 0, pi_StartTime = 0, pi_UID = 0, pi_Username = [], pi_Cmdline = [],
     pi_CommandPath = [], pi_Cgroup = [], pi_ContainerID = [], pi_StderrPath = []\<rparr>"

section \<open>Reservation windows\<close>

text \<open>
  Two reservations conflict when some instant is inside both windows on one GPU. The overlap
  test of the source decides exactly that, for windows that are not empty.
\<close>

definition windows_conflict :: "Reservation \<Rightarrow> Reservation \<Rightarrow> bool" where
  "windows_conflict r q \<longleftrightarrow> rs_GPU r = rs_GPU q \<and>
     rs_Active r \<and> \<not> rs_Revoked r \<and> rs_Active q \<and> \<not> rs_Revoked q \<and>
     max (ReservationStartsAt r) (ReservationStartsAt q) < min (rs_ExpiresAt r) (rs_ExpiresAt q)"

lemma ReservationActiveAt_window:
  "ReservationActiveAt r t \<longleftrightarrow>
     rs_Active r \<and> \<not> rs_Revoked r \<and> ReservationStartsAt r \<le> t \<and> t < rs_ExpiresAt r"
  by (auto simp: ReservationActiveAt_def)

lemma windows_conflict_iff:
  "windows_conflict r q \<longleftrightarrow> rs_GPU r = rs_GPU q \<and>
     (\<exists>t. ReservationActiveAt r t \<and> ReservationActiveAt q t)"
proof
  assume "windows_conflict r q"
  then show "rs_GPU r = rs_GPU q \<and> (\<exists>t. ReservationActiveAt r t \<and> ReservationActiveAt q t)"
    by (auto simp: windows_conflict_def ReservationActiveAt_window
        intro!: exI [of _ "max (ReservationStartsAt r) (ReservationStartsAt q)"])
qed (auto simp: windows_conflict_def ReservationActiveAt_window)

lemma ReservationOverlaps_iff:
  assumes "startsAt < expiresAt" "ReservationStartsAt r < rs_ExpiresAt r"
  shows "ReservationOverlaps r startsAt expiresAt \<longleftrightarrow>
    (\<exists>t. startsAt \<le> t \<and> t < expiresAt \<and> ReservationActiveAt r t)"
proof
  assume "ReservationOverlaps r startsAt expiresAt"
  with assms show "\<exists>t. startsAt \<le> t \<and> t < expiresAt \<and> ReservationActiveAt r t"
    by (intro exI [of _ "max startsAt (ReservationStartsAt r)"])
      (auto simp: ReservationOverlaps_def ReservationActiveAt_def split: if_splits)
next
  assume "\<exists>t. startsAt \<le> t \<and> t < expiresAt \<and> ReservationActiveAt r t"
  then show "ReservationOverlaps r startsAt expiresAt"
    by (auto simp: ReservationOverlaps_def ReservationActiveAt_def)
qed

lemma not_overlaps_not_conflict:
  assumes "rs_GPU q = rs_GPU r \<Longrightarrow>
      \<not> ReservationOverlaps q (ReservationStartsAt r) (rs_ExpiresAt r)"
  shows "\<not> windows_conflict q r"
  using assms by (auto simp: windows_conflict_def ReservationOverlaps_def)

lemma windows_conflict_sym: "windows_conflict r q \<longleftrightarrow> windows_conflict q r"
  by (auto simp: windows_conflict_def)

end
