(* ===== verification/Store_Base.thy ===== *)
theory Store_Base
  imports Model
begin

text \<open>
  The node store's persistence layer (\<open>internal/store/store.go\<close>): limits, errors, the in-memory
  and committed states, the state file and the root key file, loading, validation and the atomic
  save with its rollback.

  The record \<open>Store\<close> holds what the Go struct holds (\<open>state\<close>, \<open>committed\<close>, \<open>loaded\<close>) and the two
  files the store owns. What the operating system and the external libraries answer during one
  call is the record \<open>StoreEnv\<close>: the error of each system call (\<open>None\<close>: it succeeded), the SHA-256
  function, the JSON codec, the duration parser and the random source. Every operation takes a
  \<open>Store\<close> and returns the new \<open>Store\<close> with a result, \<open>Inl\<close> an error.
\<close>

section \<open>Limits\<close>

abbreviation (input) DefaultTokenTTL :: duration where "DefaultTokenTTL \<equiv> 2 * hour"
abbreviation (input) MaxTokenTTL :: duration where "MaxTokenTTL \<equiv> 24 * hour"
abbreviation (input) DefaultHardTTL :: duration where "DefaultHardTTL \<equiv> 2 * hour"
abbreviation (input) MaxHardTTL :: duration where "MaxHardTTL \<equiv> 30 * 24 * hour"
abbreviation (input) NoTTLMaximum :: duration where "NoTTLMaximum \<equiv> 0"
abbreviation (input) maxAuditEvents :: nat where "maxAuditEvents \<equiv> 1000"
abbreviation (input) maxAuditLogBytes :: nat where "maxAuditLogBytes \<equiv> 10 * 2 ^ 20"
abbreviation (input) maxStateFileBytes :: nat where "maxStateFileBytes \<equiv> 64 * 2 ^ 20"
abbreviation (input) rootKeyHexBytes :: nat where "rootKeyHexBytes \<equiv> 32"
abbreviation (input) maxActiveTokensPerHolder :: nat where "maxActiveTokensPerHolder \<equiv> 8"
abbreviation (input) maxTotalTokens :: nat where "maxTotalTokens \<equiv> 4096"
abbreviation (input) maxTotalReservations :: nat where "maxTotalReservations \<equiv> 4096"
abbreviation (input) maxTotalAuthorizations :: nat where "maxTotalAuthorizations \<equiv> 4096"
abbreviation (input) maxTotalSoftClaims :: nat where "maxTotalSoftClaims \<equiv> 4096"
abbreviation (input) maxTotalLeases :: nat where "maxTotalLeases \<equiv> 4096"
abbreviation (input) maxTotalBypasses :: nat where "maxTotalBypasses \<equiv> 1024"
abbreviation (input) maxActiveAuthorizationsPerToken :: nat where "maxActiveAuthorizationsPerToken \<equiv> 64"
abbreviation (input) maxGPUIndex :: int where "maxGPUIndex \<equiv> 1023"
abbreviation (input) maxPersistedValueBytes :: nat where "maxPersistedValueBytes \<equiv> 4096"
abbreviation (input) maxPersistedCommandArgs :: nat where "maxPersistedCommandArgs \<equiv> 1024"
abbreviation (input) maxPersistedCommandBytes :: nat where "maxPersistedCommandBytes \<equiv> 256 * 2 ^ 10"
abbreviation (input) maxViewCommandArgs :: nat where "maxViewCommandArgs \<equiv> 128"
abbreviation (input) maxViewCommandBytes :: nat where "maxViewCommandBytes \<equiv> 16 * 2 ^ 10"
abbreviation (input) maxAuditMessageBytes :: nat where "maxAuditMessageBytes \<equiv> 16 * 2 ^ 10"

section \<open>Errors\<close>

datatype store_error =
    ErrInvalidRootKey
  | ErrTokenExpired
  | ErrTokenRevoked
  | ErrTokenNotFound
  | ErrAuthorizationLimit
  | ErrNotExist
  | ErrExist
  | ErrIO string
  | ErrMsg string
  | ErrCapacity string nat nat nat
  | ErrCount string nat nat
  | ErrValueTooLong string
  | ErrCommandArgs nat
  | ErrCommandBytes
  | ErrAuditMessage
  | ErrGPUIndex int
  | ErrWrapped string store_error
  | ErrInvalidState store_error
  | ErrStateTooLarge
  | ErrDuplicateGPU int
  | ErrOverlap int string
  | ErrTokenLimit string
  | ErrNotFound string

section \<open>The store and its environment\<close>

record StateFile =
  sf_data :: string
  sf_regular :: bool
  sf_perm :: nat

record Store =
  sto_state :: State
  sto_committed :: State
  sto_loaded :: bool
  sto_file :: "StateFile option"
  sto_rootKeyFile :: "StateFile option"
  sto_draws :: nat

definition New_store :: "StateFile option \<Rightarrow> StateFile option \<Rightarrow> Store" where
  "New_store file keyfile = \<lparr>sto_state = empty_State, sto_committed = empty_State,
     sto_loaded = False, sto_file = file, sto_rootKeyFile = keyfile, sto_draws = 0\<rparr>"

record StoreEnv =
  env_sha256 :: "string \<Rightarrow> string"
  env_ParseDuration :: "string \<Rightarrow> store_error + duration"
  env_Marshal :: "State \<Rightarrow> store_error + string"
  env_Unmarshal :: "string \<Rightarrow> State \<Rightarrow> State \<times> store_error option"
  env_rand :: "nat \<Rightarrow> nat \<Rightarrow> string"
  env_clock :: time
  env_openErr :: "store_error option"
  env_readErr :: "store_error option"
  env_mkdirErr :: "store_error option"
  env_createErr :: "store_error option"
  env_chmodErr :: "store_error option"
  env_writeErr :: "store_error option"
  env_fsyncErr :: "store_error option"
  env_closeErr :: "store_error option"
  env_renameErr :: "store_error option"
  env_syncDirErr :: "store_error option"
  env_keyOpenErr :: "store_error option"
  env_keyReadErr :: "store_error option"
  env_keyMkdirErr :: "store_error option"
  env_linkErr :: "store_error option"
  env_removeErr :: "store_error option"
  env_keySyncErr :: "store_error option"
  env_keyResyncErr :: "store_error option"
  env_rivalKeyFile :: "StateFile option"

type_synonym 'r result = "Store \<times> (store_error + 'r)"

text \<open>The \<open>k\<close>-th read of the random source, as hexadecimal text.\<close>

definition randomHex :: "StoreEnv \<Rightarrow> nat \<Rightarrow> Store \<Rightarrow> Store \<times> string" where
  "randomHex env bytes s =
     (s\<lparr>sto_draws := Suc (sto_draws s)\<rparr>, hex_EncodeToString (env_rand env (sto_draws s) bytes))"

definition HashToken :: "StoreEnv \<Rightarrow> string \<Rightarrow> string" where
  "HashToken env token = hex_EncodeToString (env_sha256 env token)"

section \<open>Validation\<close>

definition validatePersistedValues :: "string \<Rightarrow> string list \<Rightarrow> store_error option" where
  "validatePersistedValues kind values =
     first_error (map (\<lambda>v. if length v > maxPersistedValueBytes
       then Some (ErrValueTooLong kind) else None) values)"

fun command_bytes_error :: "nat \<Rightarrow> string list \<Rightarrow> store_error option" where
  "command_bytes_error used [] = None"
| "command_bytes_error used (a # as) =
     (if int (length a) > int maxPersistedCommandBytes - int used then Some ErrCommandBytes
      else command_bytes_error (used + length a) as)"

definition validatePersistedCommand :: "string list \<Rightarrow> store_error option" where
  "validatePersistedCommand command =
     (if length command > maxPersistedCommandArgs then Some (ErrCommandArgs (length command))
      else command_bytes_error 0 command)"

definition validateGPUIndex :: "int \<Rightarrow> store_error option" where
  "validateGPUIndex gpu = (if gpu < 0 \<or> gpu > maxGPUIndex then Some (ErrGPUIndex gpu) else None)"

definition wrap_error :: "string \<Rightarrow> store_error option \<Rightarrow> store_error option" where
  "wrap_error what e = map_option (ErrWrapped what) e"

definition count_error :: "string \<Rightarrow> nat \<Rightarrow> nat \<Rightarrow> store_error option" where
  "count_error kind current maximum =
     (if current > maximum then Some (ErrCount kind current maximum) else None)"

definition token_bounds :: "Token \<Rightarrow> store_error option" where
  "token_bounds t = validatePersistedValues ''token''
     [tk_ID t, tk_Hash t, tk_Secret t, tk_Name t, tk_Mode t]"

definition reservation_bounds :: "Reservation \<Rightarrow> store_error option" where
  "reservation_bounds r = first_error
     [wrap_error (''reservation '' @ rs_ID r) (validateGPUIndex (rs_GPU r)),
      validatePersistedValues ''reservation'' [rs_ID r, rs_GroupID r, rs_ExternalSessionID r,
        rs_TokenHash r, rs_Holder r, rs_Purpose r]]"

definition authorization_bounds :: "Authorization \<Rightarrow> store_error option" where
  "authorization_bounds a = first_error
     [validatePersistedValues ''authorization'' [au_ID a, au_Mode a, au_TokenHash a, au_TokenMode a,
        au_Holder a, au_RunName a, au_Username a, au_CgroupPath a, au_CgroupRel a,
        au_ContainerID a, au_ContainerPattern a, au_Namespace a],
      wrap_error (''authorization '' @ au_ID a) (validatePersistedCommand (au_Command a))]"

definition claim_bounds :: "SoftClaim \<Rightarrow> store_error option" where
  "claim_bounds c = first_error
     [wrap_error (''soft claim '' @ sc_ID c) (validateGPUIndex (sc_GPU c)),
      validatePersistedValues ''soft claim'' [sc_ID c, sc_TokenHash c, sc_AuthorizationID c,
        sc_Holder c, sc_RuntimeContainerID c, sc_RuntimeCgroup c]]"

definition lease_bounds :: "Lease \<Rightarrow> store_error option" where
  "lease_bounds l = first_error
     [wrap_error (''lease '' @ ls_ID l) (validateGPUIndex (ls_GPU l)),
      validatePersistedValues ''lease'' [ls_ID l, ls_Mode l, ls_TokenHash l, ls_Holder l,
        ls_CgroupPath l, ls_CgroupRel l, ls_ContainerID l, ls_Namespace l],
      wrap_error (''lease '' @ ls_ID l) (validatePersistedCommand (ls_Command l))]"

definition bypass_bounds :: "BypassRule \<Rightarrow> store_error option" where
  "bypass_bounds b = validatePersistedValues ''bypass''
     [br_ID b, br_Type b, br_BootID b, br_Command b, br_Reason b]"

definition audit_bounds :: "AuditEvent \<Rightarrow> store_error option" where
  "audit_bounds e = first_error
     [validatePersistedValues ''audit event'' [ae_Kind e, ae_LeaseID e, ae_User e],
      if length (ae_Message e) > maxAuditMessageBytes then Some ErrAuditMessage else None]"

definition validateStateBounds :: "State \<Rightarrow> store_error option" where
  "validateStateBounds st = first_error (
     [validatePersistedValues ''state'' [KeySnapshotID st, ManagedKeyAuthority st],
      count_error ''token'' (length (Tokens st)) maxTotalTokens,
      count_error ''reservation'' (length (Reservations st)) maxTotalReservations,
      count_error ''authorization'' (length (Authorizations st)) maxTotalAuthorizations,
      count_error ''soft claim'' (length (SoftClaims st)) maxTotalSoftClaims,
      count_error ''lease'' (length (Leases st)) maxTotalLeases,
      count_error ''bypass'' (length (Bypasses st)) maxTotalBypasses,
      count_error ''audit event'' (length (Audit st)) maxAuditEvents] @
     map token_bounds (Tokens st) @
     map reservation_bounds (Reservations st) @
     map authorization_bounds (Authorizations st) @
     map claim_bounds (SoftClaims st) @
     map lease_bounds (Leases st) @
     map bypass_bounds (Bypasses st) @
     map audit_bounds (Audit st))"

section \<open>Files\<close>

text \<open>
  A file readable by group or others (\<open>perm & 0077 \<noteq> 0\<close>: one of the six low permission bits)
  or not regular is refused.
\<close>

definition group_other_access :: "nat \<Rightarrow> bool" where
  "group_other_access perm \<longleftrightarrow> perm mod 64 \<noteq> 0"

definition mode0600 :: nat where "mode0600 = 384"

definition readStateFile :: "StoreEnv \<Rightarrow> Store \<Rightarrow> store_error + string" where
  "readStateFile env s = (case env_openErr env of Some e \<Rightarrow> Inl e | None \<Rightarrow>
     (case sto_file s of None \<Rightarrow> Inl ErrNotExist
      | Some f \<Rightarrow>
          if \<not> sf_regular f then Inl (ErrMsg ''state is not a regular file'')
          else if group_other_access (sf_perm f)
            then Inl (ErrMsg ''state permissions allow group or other access'')
          else (case env_readErr env of Some e \<Rightarrow> Inl e
            | None \<Rightarrow> if length (sf_data f) > maxStateFileBytes then Inl ErrStateTooLarge
                else Inr (sf_data f))))"

text \<open>
  \<open>writeSyncedTempFile\<close>: create, chmod, write, fsync and close the temporary file; the first
  failure is the result. The temporary file itself is removed on every failing path.
\<close>

definition writeSyncedTempFile :: "StoreEnv \<Rightarrow> store_error option" where
  "writeSyncedTempFile env = first_error [env_createErr env, env_chmodErr env, env_writeErr env,
     env_fsyncErr env, env_closeErr env]"

definition writeFileAtomically ::
  "StoreEnv \<Rightarrow> Store \<Rightarrow> string \<Rightarrow> nat \<Rightarrow> Store \<times> bool \<times> store_error option" where
  "writeFileAtomically env s data mode =
     (case writeSyncedTempFile env of Some e \<Rightarrow> (s, False, Some e)
      | None \<Rightarrow> (case env_renameErr env of Some e \<Rightarrow> (s, False, Some e)
         | None \<Rightarrow> (s\<lparr>sto_file := Some \<lparr>sf_data = data, sf_regular = True, sf_perm = mode\<rparr>\<rparr>,
             True, env_syncDirErr env)))"

section \<open>Load and save\<close>

definition loadLocked :: "StoreEnv \<Rightarrow> Store \<Rightarrow> Store \<times> store_error option" where
  "loadLocked env s =
     (if sto_loaded s then (s, None)
      else case readStateFile env s of
        Inl ErrNotExist \<Rightarrow>
          (s\<lparr>sto_state := empty_State, sto_committed := empty_State, sto_loaded := True\<rparr>, None)
      | Inl e \<Rightarrow> (s, Some e)
      | Inr data \<Rightarrow>
          (case (if length (TrimSpace data) = 0 then (empty_State, None)
                 else env_Unmarshal env data (sto_state s)) of
             (st, Some e) \<Rightarrow> (s\<lparr>sto_state := st\<rparr>, Some e)
           | (st, None) \<Rightarrow>
               (case validateStateBounds st of
                  Some e \<Rightarrow> (s\<lparr>sto_state := st\<rparr>, Some (ErrInvalidState e))
                | None \<Rightarrow> let st' = st\<lparr>Audit := []\<rparr> in
                    (s\<lparr>sto_state := st', sto_committed := st', sto_loaded := True\<rparr>, None))))"

definition newline :: string where "newline = [char_of (10::nat)]"

text \<open>On every error the in-memory state is reset to the committed one.\<close>

definition rollback :: "Store \<Rightarrow> store_error \<Rightarrow> Store \<times> store_error option" where
  "rollback s e = (s\<lparr>sto_state := sto_committed s\<rparr>, Some e)"

definition saveLocked :: "StoreEnv \<Rightarrow> Store \<Rightarrow> Store \<times> store_error option" where
  "saveLocked env s =
     (case validateStateBounds (sto_state s) of Some e \<Rightarrow> rollback s e
      | None \<Rightarrow> (case env_mkdirErr env of Some e \<Rightarrow> rollback s e
      | None \<Rightarrow> (case env_Marshal env (sto_state s) of Inl e \<Rightarrow> rollback s e
      | Inr data \<Rightarrow>
          if length data > maxStateFileBytes then rollback s ErrStateTooLarge
          else (case writeFileAtomically env s (data @ newline) mode0600 of
              (s1, committedToDisk, err) \<Rightarrow>
                let s2 = (if committedToDisk then s1\<lparr>sto_committed := sto_state s1\<rparr> else s1) in
                (case err of Some e \<Rightarrow> rollback s2 e | None \<Rightarrow> (s2, None))))))"

text \<open>The frame of an operation: load, or return the load error; save, or return the save error.\<close>

definition with_loaded :: "StoreEnv \<Rightarrow> Store \<Rightarrow> (Store \<Rightarrow> 'r result) \<Rightarrow> 'r result" where
  "with_loaded env s body = (case loadLocked env s of
     (s1, Some e) \<Rightarrow> (s1, Inl e) | (s1, None) \<Rightarrow> body s1)"

definition save_and_return :: "StoreEnv \<Rightarrow> Store \<Rightarrow> 'r \<Rightarrow> 'r result" where
  "save_and_return env s r = (case saveLocked env s of
     (s1, Some e) \<Rightarrow> (s1, Inl e) | (s1, None) \<Rightarrow> (s1, Inr r))"

abbreviation fail_with :: "Store \<Rightarrow> store_error \<Rightarrow> 'r result" where
  "fail_with s e \<equiv> (s, Inl e)"

definition Load :: "StoreEnv \<Rightarrow> Store \<Rightarrow> unit result" where
  "Load env s = with_loaded env s (\<lambda>s. (s, Inr ()))"

section \<open>The root key\<close>

definition readRootKeyFile :: "StoreEnv \<Rightarrow> Store \<Rightarrow> store_error + string" where
  "readRootKeyFile env s = (case env_keyOpenErr env of Some e \<Rightarrow> Inl e | None \<Rightarrow>
     (case sto_rootKeyFile s of None \<Rightarrow> Inl ErrNotExist
      | Some f \<Rightarrow>
          if \<not> sf_regular f then Inl (ErrMsg ''root key is not a regular file'')
          else if group_other_access (sf_perm f)
            then Inl (ErrMsg ''root key permissions allow group or other access'')
          else (case env_keyReadErr env of Some e \<Rightarrow> Inl e
            | None \<Rightarrow>
                if length (sf_data f) > 3 + rootKeyHexBytes * 2 + 1
                  then Inl (ErrMsg ''root key has invalid length'')
                else let key = TrimSuffix (sf_data f) newline in
                  if length key \<noteq> 3 + rootKeyHexBytes * 2 \<or> \<not> prefix ''rk_'' key
                    then Inl (ErrMsg ''root key has invalid format'')
                  else if \<not> hex_valid (drop 3 key) then Inl (ErrMsg ''root key has invalid format'')
                  else Inr key)))"

text \<open>
  The file is linked into place, so an existing file is never overwritten. When the link
  reports that the name exists, another process created the file meanwhile: its content is
  \<open>env_rivalKeyFile\<close>.
\<close>

definition createRootKeyFile :: "StoreEnv \<Rightarrow> Store \<Rightarrow> string \<Rightarrow> Store \<times> store_error option" where
  "createRootKeyFile env s data =
     (case writeSyncedTempFile env of Some e \<Rightarrow> (s, Some e)
      | None \<Rightarrow> (case env_linkErr env of
          Some e \<Rightarrow> (if e = ErrExist then s\<lparr>sto_rootKeyFile := env_rivalKeyFile env\<rparr> else s, Some e)
        | None \<Rightarrow>
            (s\<lparr>sto_rootKeyFile := Some \<lparr>sf_data = data, sf_regular = True, sf_perm = mode0600\<rparr>\<rparr>,
             first_error [env_keySyncErr env, env_removeErr env, env_keyResyncErr env])))"

definition ReadOrCreateRootKey :: "StoreEnv \<Rightarrow> Store \<Rightarrow> string result" where
  "ReadOrCreateRootKey env s =
     (case readRootKeyFile env s of
        Inr key \<Rightarrow> (s, Inr key)
      | Inl e \<Rightarrow>
          if e \<noteq> ErrNotExist then (s, Inl e)
          else case randomHex env rootKeyHexBytes s of (s1, hex) \<Rightarrow>
            let key = ''rk_'' @ hex in
            (case env_keyMkdirErr env of Some e \<Rightarrow> (s1, Inl e)
             | None \<Rightarrow> (case createRootKeyFile env s1 (key @ newline) of
                 (s2, Some e) \<Rightarrow> if e = ErrExist then (s2, readRootKeyFile env s2) else (s2, Inl e)
               | (s2, None) \<Rightarrow> (s2, Inr key))))"

definition ValidateRootKey :: "StoreEnv \<Rightarrow> string \<Rightarrow> Store \<Rightarrow> bool result" where
  "ValidateRootKey env candidate s =
     (case ReadOrCreateRootKey env s of
        (s1, Inl e) \<Rightarrow> (s1, Inl e)
      | (s1, Inr key) \<Rightarrow>
          let a = TrimSpace candidate; b = TrimSpace key in
          if length a \<noteq> length b then (s1, Inr False) else (s1, Inr (a = b)))"

definition with_root :: "StoreEnv \<Rightarrow> string \<Rightarrow> Store \<Rightarrow> (Store \<Rightarrow> 'r result) \<Rightarrow> 'r result" where
  "with_root env rootKey s body = (case ValidateRootKey env rootKey s of
     (s1, Inl e) \<Rightarrow> (s1, Inl e)
   | (s1, Inr ok) \<Rightarrow> if \<not> ok then (s1, Inl ErrInvalidRootKey) else body s1)"

text \<open>The two frames are unfolded when the definitions are evaluated.\<close>

declare with_root_def [code_unfold] with_loaded_def [code_unfold]

section \<open>Facts on validation\<close>

lemma validatePersistedValues_None:
  "validatePersistedValues kind vs = None \<longleftrightarrow> (\<forall>v \<in> set vs. length v \<le> maxPersistedValueBytes)"
  by (induction vs) (auto simp: validatePersistedValues_def)

lemma command_bytes_error_None:
  "command_bytes_error used as = None \<longleftrightarrow>
     as = [] \<or> used + length (concat as) \<le> maxPersistedCommandBytes"
proof (induction as arbitrary: used)
  case (Cons a as)
  have "int (length a) > int maxPersistedCommandBytes - int used \<longleftrightarrow> \<not> used + length a \<le> maxPersistedCommandBytes" by auto
  then show ?case using Cons.IH [of "used + length a"] by (cases as) (simp_all add: add.assoc)
qed simp

lemma validatePersistedCommand_None:
  "validatePersistedCommand c = None \<longleftrightarrow>
     length c \<le> maxPersistedCommandArgs \<and> length (concat c) \<le> maxPersistedCommandBytes"
  by (auto simp: validatePersistedCommand_def command_bytes_error_None)

lemma validateGPUIndex_None: "validateGPUIndex g = None \<longleftrightarrow> 0 \<le> g \<and> g \<le> maxGPUIndex"
  by (auto simp: validateGPUIndex_def)

lemma validateStateBounds_None:
  "validateStateBounds st = None \<longleftrightarrow>
     length (KeySnapshotID st) \<le> maxPersistedValueBytes \<and>
     length (ManagedKeyAuthority st) \<le> maxPersistedValueBytes \<and>
     length (Tokens st) \<le> maxTotalTokens \<and>
     length (Reservations st) \<le> maxTotalReservations \<and>
     length (Authorizations st) \<le> maxTotalAuthorizations \<and>
     length (SoftClaims st) \<le> maxTotalSoftClaims \<and>
     length (Leases st) \<le> maxTotalLeases \<and>
     length (Bypasses st) \<le> maxTotalBypasses \<and>
     length (Audit st) \<le> maxAuditEvents \<and>
     (\<forall>t \<in> set (Tokens st). token_bounds t = None) \<and>
     (\<forall>r \<in> set (Reservations st). reservation_bounds r = None) \<and>
     (\<forall>a \<in> set (Authorizations st). authorization_bounds a = None) \<and>
     (\<forall>c \<in> set (SoftClaims st). claim_bounds c = None) \<and>
     (\<forall>l \<in> set (Leases st). lease_bounds l = None) \<and>
     (\<forall>b \<in> set (Bypasses st). bypass_bounds b = None) \<and>
     (\<forall>e \<in> set (Audit st). audit_bounds e = None)"
  unfolding validateStateBounds_def first_error_None_iff
  by (auto simp: validatePersistedValues_None count_error_def not_less split: if_splits)

lemma validateStateBounds_empty [simp]: "validateStateBounds empty_State = None"
  by (simp add: validateStateBounds_None empty_State_def)

section \<open>Facts on load and save\<close>

text \<open>
  Between operations a loaded store is coherent: the in-memory state is the committed one, it
  is within the limits, and it carries no audit copy.
\<close>

definition coherent :: "Store \<Rightarrow> bool" where
  "coherent s \<longleftrightarrow> sto_loaded s \<longrightarrow>
     sto_state s = sto_committed s \<and> validateStateBounds (sto_state s) = None \<and>
     Audit (sto_state s) = []"

text \<open>Two stores that agree on everything but the root key file and the random source.\<close>

definition same_data :: "Store \<Rightarrow> Store \<Rightarrow> bool" where
  "same_data s t \<longleftrightarrow> sto_state t = sto_state s \<and> sto_committed t = sto_committed s \<and>
     sto_loaded t = sto_loaded s \<and> sto_file t = sto_file s"

lemma same_data_refl [simp, intro]: "same_data s s"
  by (simp add: same_data_def)

lemma same_data_trans: "same_data s t \<Longrightarrow> same_data t u \<Longrightarrow> same_data s u"
  by (simp add: same_data_def)

lemma same_data_draws [simp]: "same_data s (t\<lparr>sto_draws := n\<rparr>) = same_data s t"
  "same_data s (t\<lparr>sto_rootKeyFile := f\<rparr>) = same_data s t"
  "same_data (s\<lparr>sto_draws := n\<rparr>) t = same_data s t"
  by (simp_all add: same_data_def)

definition committed_store :: "Store \<Rightarrow> string \<Rightarrow> Store" where
  "committed_store s data = s\<lparr>sto_committed := sto_state s,
     sto_file := Some \<lparr>sf_data = data @ newline, sf_regular = True, sf_perm = mode0600\<rparr>\<rparr>"

text \<open>
  A save either leaves the file alone, restores the committed state and reports an error, or it
  is committed: memory, committed copy and file all hold the new state. A failed directory sync
  after the rename is an error of the second kind.
\<close>

lemma saveLocked_cases:
  "(\<exists>e. saveLocked env s = (s\<lparr>sto_state := sto_committed s\<rparr>, Some e)) \<or>
   (\<exists>data. saveLocked env s = (committed_store s data, env_syncDirErr env) \<and>
      validateStateBounds (sto_state s) = None \<and> env_Marshal env (sto_state s) = Inr data \<and>
      length data \<le> maxStateFileBytes)"
  by (auto simp: saveLocked_def rollback_def writeFileAtomically_def committed_store_def Let_def
      not_less split: option.splits sum.splits)

lemma saveLocked_state:
  assumes "saveLocked env s = (t, err)"
  shows "sto_state t = sto_committed t" "sto_loaded t = sto_loaded s"
    "sto_state t = sto_committed s \<or> sto_state t = sto_state s"
    "err = None \<Longrightarrow> sto_state t = sto_state s"
    "err = None \<Longrightarrow> validateStateBounds (sto_state t) = None"
  using saveLocked_cases [of env s] assms by (auto simp: committed_store_def)

lemma readRootKeyFile_draws [simp]:
  "readRootKeyFile env (s\<lparr>sto_draws := n\<rparr>) = readRootKeyFile env s"
  by (simp add: readRootKeyFile_def split: option.split)

lemma same_data_createRootKeyFile: "createRootKeyFile env s data = (t, r) \<Longrightarrow> same_data s t"
  by (auto simp: createRootKeyFile_def same_data_def split: option.splits if_splits)

lemma same_data_ReadOrCreateRootKey: "ReadOrCreateRootKey env s = (t, r) \<Longrightarrow> same_data s t"
  by (auto simp: ReadOrCreateRootKey_def randomHex_def Let_def
      dest!: same_data_createRootKeyFile split: option.splits sum.splits prod.splits if_splits)

lemma same_data_ValidateRootKey: "ValidateRootKey env k s = (t, r) \<Longrightarrow> same_data s t"
  by (auto simp: ValidateRootKey_def Let_def dest!: same_data_ReadOrCreateRootKey
      split: sum.splits prod.splits if_splits)

end
