(* ===== verification/Store_Register.thy ===== *)
theory Store_Register
  imports Store_Base
begin

text \<open>
  Registration of keys and reservations (\<open>internal/store/store.go\<close>): tokens and their validity,
  admission limits, claimed and reserved keys, scheduled and managed reservations with their
  overlap check and idempotent external sessions, and the synchronisation of managed user keys.
\<close>

section \<open>Tokens, holders and limits\<close>

definition timeIsSet :: "time \<Rightarrow> bool" where
  "timeIsSet t \<longleftrightarrow> \<not> time_IsZero t"

definition tokenExpired :: "Token \<Rightarrow> time \<Rightarrow> bool" where
  "tokenExpired t now \<longleftrightarrow> timeIsSet (tk_ExpiresAt t) \<and> \<not> now < tk_ExpiresAt t"

definition tokenActiveAt :: "Token \<Rightarrow> time \<Rightarrow> bool" where
  "tokenActiveAt t now \<longleftrightarrow> \<not> tk_Revoked t \<and> \<not> tokenExpired t now"

definition authorizationExpired :: "Authorization \<Rightarrow> time \<Rightarrow> bool" where
  "authorizationExpired a now \<longleftrightarrow> timeIsSet (au_ExpiresAt a) \<and> \<not> now < au_ExpiresAt a"

definition authorizationActiveAt :: "Authorization \<Rightarrow> time \<Rightarrow> bool" where
  "authorizationActiveAt a now \<longleftrightarrow> au_Active a \<and> \<not> au_Revoked a \<and> \<not> authorizationExpired a now"

definition NormalizeTokenMode :: "string \<Rightarrow> string" where
  "NormalizeTokenMode mode = (let m = TrimSpace (ToLower mode) in if m = [] then TokenModeClaimed else m)"

definition normalizeHolder :: "string \<Rightarrow> string" where
  "normalizeHolder holder = (let h = ToLower (TrimSpace holder) in if h = [] then ''anonymous'' else h)"

definition checkTotalCapacity :: "string \<Rightarrow> nat \<Rightarrow> nat \<Rightarrow> nat \<Rightarrow> store_error option" where
  "checkTotalCapacity kind current adding maximum =
     (if adding > maximum \<or> int current > int maximum - int adding
      then Some (ErrCapacity kind adding current maximum) else None)"

definition active_tokens_of :: "State \<Rightarrow> time \<Rightarrow> string \<Rightarrow> nat" where
  "active_tokens_of st now holder =
     length (filter (\<lambda>t. tokenActiveAt t now \<and> normalizeHolder (tk_Name t) = holder) (Tokens st))"

definition checkTokenCapacityLocked :: "State \<Rightarrow> Token \<Rightarrow> time \<Rightarrow> store_error option" where
  "checkTokenCapacityLocked st candidate now =
     (case checkTotalCapacity ''token'' (length (Tokens st)) 1 maxTotalTokens of Some e \<Rightarrow> Some e
      | None \<Rightarrow>
          if \<not> tokenActiveAt candidate now then None
          else let holder = normalizeHolder (tk_Name candidate) in
            if active_tokens_of st now holder \<ge> maxActiveTokensPerHolder
            then Some (ErrTokenLimit holder) else None)"

definition ParseTTL ::
  "StoreEnv \<Rightarrow> string \<Rightarrow> duration \<Rightarrow> duration \<Rightarrow> store_error + duration" where
  "ParseTTL env value def maximum =
     (if TrimSpace value = [] then Inr def
      else case env_ParseDuration env value of Inl e \<Rightarrow> Inl e
      | Inr ttl \<Rightarrow>
          if ttl \<le> 0 then Inl (ErrMsg ''ttl must be positive'')
          else if maximum > NoTTLMaximum \<and> ttl > maximum then Inl (ErrMsg ''ttl exceeds max'')
          else Inr ttl)"

definition newToken ::
  "StoreEnv \<Rightarrow> string \<Rightarrow> string \<Rightarrow> time \<Rightarrow> time \<Rightarrow> Store \<Rightarrow> Store \<times> string \<times> Token" where
  "newToken env mode name expiresAt now s =
     (case randomHex env 24 s of (s1, h1) \<Rightarrow>
      case randomHex env 8 s1 of (s2, h2) \<Rightarrow>
        let secret = ''gk_'' @ h1; trimmed = TrimSpace name in
        (s2, secret,
         \<lparr>tk_ID = ''tok_'' @ h2, tk_Hash = HashToken env secret, tk_Secret = secret,
          tk_Name = (if trimmed = [] then ''anonymous'' else trimmed),
          tk_Mode = NormalizeTokenMode mode, tk_Version = 0, tk_Managed = False,
          tk_CreatedAt = now, tk_ExpiresAt = (if time_IsZero expiresAt then 0 else expiresAt),
          tk_Revoked = False\<rparr>))"

section \<open>Key registration\<close>

definition append_token :: "StoreEnv \<Rightarrow> string \<Rightarrow> Token \<Rightarrow> time \<Rightarrow> Store \<Rightarrow> (string \<times> Token) result" where
  "append_token env secret token now s = with_loaded env s (\<lambda>s.
     case checkTokenCapacityLocked (sto_state s) token now of Some e \<Rightarrow> fail_with s e
     | None \<Rightarrow> save_and_return env
         (s\<lparr>sto_state := (sto_state s)\<lparr>Tokens := Tokens (sto_state s) @ [token]\<rparr>\<rparr>) (secret, token))"

definition RegisterSoftToken ::
  "StoreEnv \<Rightarrow> string \<Rightarrow> string \<Rightarrow> time \<Rightarrow> Store \<Rightarrow> (string \<times> Token) result" where
  "RegisterSoftToken env rootKey name now s = with_root env rootKey s (\<lambda>s.
     case newToken env TokenModeClaimed name 0 now s of (s, secret, token) \<Rightarrow>
       append_token env secret token now s)"

definition RegisterToken ::
  "StoreEnv \<Rightarrow> string \<Rightarrow> string \<Rightarrow> string \<Rightarrow> time \<Rightarrow> Store \<Rightarrow> (string \<times> Token) result" where
  "RegisterToken env rootKey name ttlText now s =
     (case ParseTTL env ttlText DefaultTokenTTL MaxTokenTTL of Inl e \<Rightarrow> fail_with s e
      | Inr ttl \<Rightarrow> with_root env rootKey s (\<lambda>s.
          case newToken env TokenModeClaimed name (now + ttl) now s of (s, secret, token) \<Rightarrow>
            append_token env secret token now s))"

section \<open>Scheduled reservations\<close>

fun gpu_list_error :: "int list \<Rightarrow> int list \<Rightarrow> store_error option" where
  "gpu_list_error seen [] = None"
| "gpu_list_error seen (gpu # gpus) =
     (if gpu < 0 then Some (ErrMsg ''gpu must be >= 0'')
      else if gpu \<in> set seen then Some (ErrDuplicateGPU gpu)
      else gpu_list_error (gpu # seen) gpus)"

fun draw_reservations ::
  "StoreEnv \<Rightarrow> (string \<Rightarrow> int \<Rightarrow> Reservation) \<Rightarrow> int list \<Rightarrow> Store \<Rightarrow> Store \<times> Reservation list" where
  "draw_reservations env build [] s = (s, [])"
| "draw_reservations env build (gpu # gpus) s =
     (case randomHex env 8 s of (s1, h) \<Rightarrow>
      case draw_reservations env build gpus s1 of (s2, rs) \<Rightarrow>
        (s2, build (''res_'' @ h) gpu # rs))"

definition sameReservationRequest ::
  "Reservation list \<Rightarrow> string \<Rightarrow> string \<Rightarrow> int list \<Rightarrow> time \<Rightarrow> time \<Rightarrow> bool" where
  "sameReservationRequest existing name purpose gpus startsAt expiresAt =
     (if length existing \<noteq> length gpus \<or> length existing = 0 then False
      else list_all (\<lambda>r. rs_GPU r \<in> set gpus \<and>
         EqualFold (TrimSpace (rs_Holder r)) (TrimSpace name) \<and>
         TrimSpace (rs_Purpose r) = TrimSpace purpose \<and>
         ReservationStartsAt r = startsAt \<and> rs_ExpiresAt r = expiresAt) existing)"

text \<open>The first existing reservation that overlaps one of the requested windows.\<close>

definition overlap_error ::
  "Reservation list \<Rightarrow> int list \<Rightarrow> time \<Rightarrow> time \<Rightarrow> store_error option" where
  "overlap_error existing gpus startsAt expiresAt =
     first_error (concat (map (\<lambda>gpu. map (\<lambda>r.
       if rs_GPU r = gpu \<and> ReservationOverlaps r startsAt expiresAt
       then Some (ErrOverlap gpu (rs_ID r)) else None) existing) gpus))"

text \<open>The part of the registration under the store's lock, on the loaded store.\<close>

definition scheduled_locked ::
  "StoreEnv \<Rightarrow> string \<Rightarrow> string \<Rightarrow> string \<Rightarrow> int list \<Rightarrow> time \<Rightarrow> time \<Rightarrow> time \<Rightarrow>
     string \<Rightarrow> Token \<Rightarrow> Reservation list \<Rightarrow> Store \<Rightarrow> (string \<times> Token \<times> Reservation list) result" where
  "scheduled_locked env name purpose session gpus startsAt expiresAt now secret token reservations s =
     (let st = sto_state s;
          existing = filter (\<lambda>r. rs_ExternalSessionID r = session) (Reservations st) in
      if session \<noteq> [] \<and> existing \<noteq> [] then
        (let hash = rs_TokenHash (hd existing);
             existingToken = (case find (\<lambda>t. tk_Hash t = hash) (Tokens st) of
               Some t \<Rightarrow> t | None \<Rightarrow> zero_Token) in
         if tk_ID existingToken = [] \<or> tk_Secret existingToken = []
           then fail_with s (ErrMsg ''existing reservation session has no recoverable key'')
         else if \<not> sameReservationRequest existing name purpose gpus startsAt expiresAt
           then fail_with s (ErrMsg ''external session id was already used for a different reservation'')
         else (s, Inr (tk_Secret existingToken, existingToken, existing)))
      else
        case checkTokenCapacityLocked st token now of Some e \<Rightarrow> fail_with s e
        | None \<Rightarrow>
        (case checkTotalCapacity ''reservation'' (length (Reservations st)) (length reservations)
            maxTotalReservations of Some e \<Rightarrow> fail_with s e
        | None \<Rightarrow>
        (case overlap_error (Reservations st) gpus startsAt expiresAt of Some e \<Rightarrow> fail_with s e
        | None \<Rightarrow> save_and_return env
            (s\<lparr>sto_state := st\<lparr>Tokens := Tokens st @ [token],
                              Reservations := Reservations st @ reservations\<rparr>\<rparr>)
            (secret, token, reservations))))"

definition scheduled_reservation ::
  "string \<Rightarrow> string \<Rightarrow> time \<Rightarrow> time \<Rightarrow> time \<Rightarrow> Token \<Rightarrow> string \<Rightarrow> int \<Rightarrow> Reservation" where
  "scheduled_reservation session purpose startsAt expiresAt now token ident gpu =
     \<lparr>rs_ID = ident, rs_GroupID = [], rs_ExternalSessionID = TrimSpace session,
      rs_GPU = gpu, rs_TokenHash = tk_Hash token, rs_Holder = tk_Name token,
      rs_Purpose = TrimSpace purpose, rs_CreatedAt = now, rs_StartsAt = startsAt,
      rs_ExpiresAt = expiresAt, rs_Active = True, rs_Revoked = False\<rparr>"

definition RegisterScheduledReservationsWithSession ::
  "StoreEnv \<Rightarrow> string \<Rightarrow> string \<Rightarrow> string \<Rightarrow> string \<Rightarrow> int list \<Rightarrow> time \<Rightarrow> time \<Rightarrow> time \<Rightarrow> Store \<Rightarrow>
     (string \<times> Token \<times> Reservation list) result" where
  "RegisterScheduledReservationsWithSession env rootKey name purpose externalSessionID gpus
       startsAt0 expiresAt now s =
     (let startsAt = (if time_IsZero startsAt0 then now else startsAt0) in
      if \<not> expiresAt > startsAt then fail_with s (ErrMsg ''reservation end must be after start'')
      else if \<not> expiresAt > now then fail_with s (ErrMsg ''reservation end must be in the future'')
      else if time_Sub expiresAt startsAt > MaxHardTTL
        then fail_with s (ErrMsg ''reservation duration exceeds max'')
      else if length gpus = 0 then fail_with s (ErrMsg ''at least one gpu is required'')
      else case checkTotalCapacity ''reservation'' 0 (length gpus) maxTotalReservations of
        Some e \<Rightarrow> fail_with s e
      | None \<Rightarrow>
      (case gpu_list_error [] gpus of Some e \<Rightarrow> fail_with s e
      | None \<Rightarrow> with_root env rootKey s (\<lambda>s.
        case newToken env TokenModeReserved name expiresAt now s of (s, secret, token) \<Rightarrow>
        case draw_reservations env
            (scheduled_reservation externalSessionID purpose startsAt expiresAt now token) gpus s of
          (s, reservations) \<Rightarrow>
        with_loaded env s (scheduled_locked env name purpose (TrimSpace externalSessionID) gpus
          startsAt expiresAt now secret token reservations))))"

definition RegisterScheduledReservations ::
  "StoreEnv \<Rightarrow> string \<Rightarrow> string \<Rightarrow> string \<Rightarrow> int list \<Rightarrow> time \<Rightarrow> time \<Rightarrow> time \<Rightarrow> Store \<Rightarrow>
     (string \<times> Token \<times> Reservation list) result" where
  "RegisterScheduledReservations env rootKey name purpose gpus startsAt expiresAt now s =
     RegisterScheduledReservationsWithSession env rootKey name purpose [] gpus startsAt expiresAt now s"

definition RegisterHardReservations ::
  "StoreEnv \<Rightarrow> string \<Rightarrow> string \<Rightarrow> int list \<Rightarrow> string \<Rightarrow> time \<Rightarrow> Store \<Rightarrow>
     (string \<times> Token \<times> Reservation list) result" where
  "RegisterHardReservations env rootKey name gpus ttlText now s =
     (case ParseTTL env ttlText DefaultHardTTL MaxHardTTL of Inl e \<Rightarrow> fail_with s e
      | Inr ttl \<Rightarrow> RegisterScheduledReservations env rootKey name [] gpus now (now + ttl) now s)"

section \<open>Managed reservations\<close>

fun managed_gpu_error :: "int list \<Rightarrow> int list \<Rightarrow> store_error option" where
  "managed_gpu_error seen [] = None"
| "managed_gpu_error seen (gpu # gpus) =
     (case validateGPUIndex gpu of Some e \<Rightarrow> Some e
      | None \<Rightarrow> if gpu \<in> set seen then Some (ErrDuplicateGPU gpu)
          else managed_gpu_error (gpu # seen) gpus)"

definition managed_reservation ::
  "string \<Rightarrow> string \<Rightarrow> string \<Rightarrow> time \<Rightarrow> time \<Rightarrow> time \<Rightarrow> Token \<Rightarrow> string \<Rightarrow> int \<Rightarrow> Reservation" where
  "managed_reservation groupID session purpose startsAt expiresAt now token ident gpu =
     \<lparr>rs_ID = ident, rs_GroupID = groupID, rs_ExternalSessionID = session,
      rs_GPU = gpu, rs_TokenHash = tk_Hash token, rs_Holder = tk_Name token,
      rs_Purpose = TrimSpace purpose, rs_CreatedAt = now, rs_StartsAt = startsAt,
      rs_ExpiresAt = expiresAt, rs_Active = True, rs_Revoked = False\<rparr>"

definition managed_locked ::
  "StoreEnv \<Rightarrow> string \<Rightarrow> string \<Rightarrow> string \<Rightarrow> int list \<Rightarrow> time \<Rightarrow> time \<Rightarrow> time \<Rightarrow> Store \<Rightarrow>
     (Token \<times> string \<times> Reservation list) result" where
  "managed_locked env userKeyID purpose session gpus startsAt expiresAt now s =
     (let st = sto_state s in
      if \<not> ManagedKeys st then fail_with s (ErrMsg ''managed user keys are not configured'')
      else
      let token = (case find (\<lambda>t. tk_ID t = TrimSpace userKeyID \<and> tk_Managed t \<and> \<not> tk_Revoked t)
            (Tokens st) of Some t \<Rightarrow> t | None \<Rightarrow> zero_Token);
          existing = filter (\<lambda>r. rs_ExternalSessionID r = session) (Reservations st) in
      if tk_ID token = [] then fail_with s ErrTokenNotFound
      else if session \<noteq> [] \<and> existing \<noteq> [] then
        (if rs_TokenHash (hd existing) \<noteq> tk_Hash token \<or>
            \<not> sameReservationRequest existing (tk_Name token) purpose gpus startsAt expiresAt
         then fail_with s (ErrMsg ''external session id was already used for a different reservation'')
         else (s, Inr (token, rs_GroupID (hd existing), existing)))
      else
        case checkTotalCapacity ''reservation'' (length (Reservations st)) (length gpus)
            maxTotalReservations of Some e \<Rightarrow> fail_with s e
        | None \<Rightarrow>
        (case overlap_error (Reservations st) gpus startsAt expiresAt of Some e \<Rightarrow> fail_with s e
        | None \<Rightarrow>
          case randomHex env 8 s of (s, h) \<Rightarrow>
          case draw_reservations env (managed_reservation (''grp_'' @ h) session purpose startsAt
              expiresAt now token) gpus s of (s, reservations) \<Rightarrow>
          save_and_return env
            (s\<lparr>sto_state := st\<lparr>Reservations := Reservations st @ reservations\<rparr>\<rparr>)
            (token, ''grp_'' @ h, reservations)))"

definition RegisterManagedReservations ::
  "StoreEnv \<Rightarrow> string \<Rightarrow> string \<Rightarrow> string \<Rightarrow> string \<Rightarrow> int list \<Rightarrow> time \<Rightarrow> time \<Rightarrow> time \<Rightarrow> Store \<Rightarrow>
     (Token \<times> string \<times> Reservation list) result" where
  "RegisterManagedReservations env rootKey userKeyID purpose externalSessionID gpus
       startsAt0 expiresAt now s = with_root env rootKey s (\<lambda>s.
     let startsAt = (if time_IsZero startsAt0 then now else startsAt0) in
     if \<not> expiresAt > startsAt \<or> \<not> expiresAt > now
       then fail_with s (ErrMsg ''reservation end must be after start and in the future'')
     else if time_Sub expiresAt startsAt > MaxHardTTL
       then fail_with s (ErrMsg ''reservation duration exceeds max'')
     else if length gpus = 0 then fail_with s (ErrMsg ''at least one gpu is required'')
     else case managed_gpu_error [] gpus of Some e \<Rightarrow> fail_with s e
     | None \<Rightarrow> with_loaded env s
         (managed_locked env userKeyID purpose (TrimSpace externalSessionID) gpus startsAt expiresAt now))"

end
