(* ===== verification/Store_Ops.thy ===== *)
theory Store_Ops
  imports Store_Register
begin

text \<open>
  The remaining mutations of the node store (\<open>internal/store/store.go\<close>): leases, reservations,
  authorizations with their per-token limit and activation, batched releases, soft claims, bypass
  rules and revocation.
\<close>

abbreviation put_state :: "Store \<Rightarrow> State \<Rightarrow> Store" where
  "put_state s st \<equiv> s\<lparr>sto_state := st\<rparr>"

section \<open>Leases and reservations\<close>

definition AddLease :: "StoreEnv \<Rightarrow> Lease \<Rightarrow> Store \<Rightarrow> unit result" where
  "AddLease env lease s = with_loaded env s (\<lambda>s. let st = sto_state s in
     save_and_return env (put_state s (st\<lparr>Leases := Leases st @ [lease]\<rparr>)) ())"

definition UpdateLease :: "StoreEnv \<Rightarrow> Lease \<Rightarrow> Store \<Rightarrow> unit result" where
  "UpdateLease env update s = with_loaded env s (\<lambda>s. let st = sto_state s in
     if \<exists>l \<in> set (Leases st). ls_ID l = ls_ID update then
       save_and_return env (put_state s
         (st\<lparr>Leases := update_first (\<lambda>l. ls_ID l = ls_ID update) (\<lambda>_. update) (Leases st)\<rparr>)) ()
     else fail_with s (ErrNotFound (ls_ID update)))"

definition ReleaseLease :: "StoreEnv \<Rightarrow> string \<Rightarrow> Store \<Rightarrow> unit result" where
  "ReleaseLease env ident s = with_loaded env s (\<lambda>s. let st = sto_state s in
     if \<exists>l \<in> set (Leases st). ls_ID l = ident then
       save_and_return env (put_state s (st\<lparr>Leases :=
         update_first (\<lambda>l. ls_ID l = ident) (\<lambda>l. l\<lparr>ls_Active := False\<rparr>) (Leases st)\<rparr>)) ()
     else (s, Inr ()))"

definition AddReservation :: "StoreEnv \<Rightarrow> Reservation \<Rightarrow> Store \<Rightarrow> unit result" where
  "AddReservation env r s = with_loaded env s (\<lambda>s. let st = sto_state s in
     case checkTotalCapacity ''reservation'' (length (Reservations st)) 1 maxTotalReservations of
       Some e \<Rightarrow> fail_with s e
     | None \<Rightarrow> save_and_return env (put_state s (st\<lparr>Reservations := Reservations st @ [r]\<rparr>)) ())"

definition ReleaseReservation :: "StoreEnv \<Rightarrow> string \<Rightarrow> Store \<Rightarrow> unit result" where
  "ReleaseReservation env ident s = with_loaded env s (\<lambda>s. let st = sto_state s in
     if \<exists>r \<in> set (Reservations st). rs_ID r = ident then
       save_and_return env (put_state s (st\<lparr>Reservations :=
         update_first (\<lambda>r. rs_ID r = ident) (\<lambda>r. r\<lparr>rs_Active := False\<rparr>) (Reservations st)\<rparr>)) ()
     else (s, Inr ()))"

section \<open>Authorizations\<close>

text \<open>
  Active authorizations of a token at an instant, without the row at \<open>excludeIndex\<close>
  (\<open>-1\<close>: none).
\<close>

definition active_authorizations_of :: "Authorization list \<Rightarrow> string \<Rightarrow> time \<Rightarrow> int \<Rightarrow> nat" where
  "active_authorizations_of as hash now excludeIndex =
     length (filter (\<lambda>(i, a). int i \<noteq> excludeIndex \<and> au_TokenHash a = hash \<and>
       authorizationActiveAt a now) (enumerate 0 as))"

definition checkActiveAuthorizationCapacityLocked ::
  "State \<Rightarrow> Authorization \<Rightarrow> time \<Rightarrow> int \<Rightarrow> store_error option" where
  "checkActiveAuthorizationCapacityLocked st candidate now excludeIndex =
     (if \<not> authorizationActiveAt candidate now then None
      else if active_authorizations_of (Authorizations st) (au_TokenHash candidate) now excludeIndex
          \<ge> maxActiveAuthorizationsPerToken
        then Some ErrAuthorizationLimit else None)"

definition AddAuthorization :: "StoreEnv \<Rightarrow> Authorization \<Rightarrow> Store \<Rightarrow> unit result" where
  "AddAuthorization env a s = with_loaded env s (\<lambda>s. let st = sto_state s in
     case checkTotalCapacity ''authorization'' (length (Authorizations st)) 1 maxTotalAuthorizations of
       Some e \<Rightarrow> fail_with s e
     | None \<Rightarrow>
     (case checkActiveAuthorizationCapacityLocked st a (env_clock env) (-1) of Some e \<Rightarrow> fail_with s e
     | None \<Rightarrow> save_and_return env
         (put_state s (st\<lparr>Authorizations := Authorizations st @ [a]\<rparr>)) ()))"

fun index_of :: "('a \<Rightarrow> bool) \<Rightarrow> 'a list \<Rightarrow> nat option" where
  "index_of P [] = None"
| "index_of P (x # xs) = (if P x then Some 0 else map_option Suc (index_of P xs))"

definition UpdateAuthorization :: "StoreEnv \<Rightarrow> Authorization \<Rightarrow> Store \<Rightarrow> unit result" where
  "UpdateAuthorization env update s = with_loaded env s (\<lambda>s. let st = sto_state s in
     case index_of (\<lambda>a. au_ID a = au_ID update) (Authorizations st) of
       None \<Rightarrow> fail_with s (ErrNotFound (au_ID update))
     | Some i \<Rightarrow>
       (case checkActiveAuthorizationCapacityLocked st update (env_clock env) (int i) of
          Some e \<Rightarrow> fail_with s e
        | None \<Rightarrow> save_and_return env
            (put_state s (st\<lparr>Authorizations := (Authorizations st)[i := update]\<rparr>)) ()))"

definition ActivateAuthorization :: "StoreEnv \<Rightarrow> string \<Rightarrow> int \<Rightarrow> Store \<Rightarrow> Authorization result" where
  "ActivateAuthorization env ident rootPID s =
     (if rootPID \<le> 0 then fail_with s (ErrMsg ''authorization root pid must be positive'')
      else with_loaded env s (\<lambda>s. let st = sto_state s in
        case find (\<lambda>a. au_ID a = ident) (Authorizations st) of
          None \<Rightarrow> fail_with s (ErrNotFound ident)
        | Some a \<Rightarrow>
            if \<not> au_Active a \<or> au_Revoked a
              then fail_with s (ErrMsg ''authorization was revoked before activation'')
            else if au_RootPID a \<noteq> 0 then fail_with s (ErrMsg ''authorization is already active'')
            else save_and_return env (put_state s (st\<lparr>Authorizations :=
                update_first (\<lambda>a. au_ID a = ident) (\<lambda>a. a\<lparr>au_RootPID := rootPID\<rparr>) (Authorizations st)\<rparr>))
              (a\<lparr>au_RootPID := rootPID\<rparr>)))"

definition ReleaseAuthorization :: "StoreEnv \<Rightarrow> string \<Rightarrow> Store \<Rightarrow> unit result" where
  "ReleaseAuthorization env ident s = with_loaded env s (\<lambda>s. let st = sto_state s in
     if \<exists>a \<in> set (Authorizations st). au_ID a = ident then
       save_and_return env (put_state s (st\<lparr>Authorizations :=
         update_first (\<lambda>a. au_ID a = ident) (\<lambda>a. a\<lparr>au_Active := False\<rparr>) (Authorizations st)\<rparr>)) ()
     else (s, Inr ()))"

definition ReleaseScopes ::
  "StoreEnv \<Rightarrow> string list \<Rightarrow> string list \<Rightarrow> string list \<Rightarrow> Store \<Rightarrow> unit result" where
  "ReleaseScopes env reservationIDs authorizationIDs leaseIDs s =
     (if length reservationIDs = 0 \<and> length authorizationIDs = 0 \<and> length leaseIDs = 0
      then (s, Inr ())
      else with_loaded env s (\<lambda>s.
        let st = sto_state s;
            selR = (\<lambda>r. rs_ID r \<in> set reservationIDs \<and> rs_Active r);
            selA = (\<lambda>a. au_ID a \<in> set authorizationIDs \<and> au_Active a);
            selL = (\<lambda>l. ls_ID l \<in> set leaseIDs \<and> ls_Active l);
            changed = ((\<exists>r \<in> set (Reservations st). selR r) \<or>
              (\<exists>a \<in> set (Authorizations st). selA a) \<or> (\<exists>l \<in> set (Leases st). selL l)) in
        if \<not> changed then (s, Inr ())
        else save_and_return env (put_state s (st\<lparr>
            Reservations := update_where selR (\<lambda>r. r\<lparr>rs_Active := False\<rparr>) (Reservations st),
            Authorizations := update_where selA (\<lambda>a. a\<lparr>au_Active := False\<rparr>) (Authorizations st),
            Leases := update_where selL (\<lambda>l. l\<lparr>ls_Active := False\<rparr>) (Leases st)\<rparr>)) ()))"

section \<open>Soft claims and bypass rules\<close>

definition UpsertSoftClaim :: "StoreEnv \<Rightarrow> SoftClaim \<Rightarrow> time \<Rightarrow> Store \<Rightarrow> unit result" where
  "UpsertSoftClaim env claim0 now s = with_loaded env s (\<lambda>s.
     case (if sc_ID claim0 = [] then
             (case randomHex env 8 s of (s1, h) \<Rightarrow> (s1, claim0\<lparr>sc_ID := ''claim_'' @ h\<rparr>))
           else (s, claim0)) of (s, claim1) \<Rightarrow>
     let st = sto_state s;
         claim = claim1\<lparr>sc_CreatedAt := (if time_IsZero (sc_CreatedAt claim1) then now
                         else sc_CreatedAt claim1), sc_UpdatedAt := now\<rparr>;
         same = (\<lambda>c. sc_GPU c = sc_GPU claim \<and> sc_TokenHash c = sc_TokenHash claim) in
     if \<exists>c \<in> set (SoftClaims st). same c then
       save_and_return env (put_state s (st\<lparr>SoftClaims := update_first same
         (\<lambda>c. claim\<lparr>sc_ID := sc_ID c, sc_CreatedAt := sc_CreatedAt c\<rparr>) (SoftClaims st)\<rparr>)) ()
     else save_and_return env (put_state s (st\<lparr>SoftClaims := SoftClaims st @ [claim]\<rparr>)) ())"

definition ReleaseSoftClaim :: "StoreEnv \<Rightarrow> string \<Rightarrow> Store \<Rightarrow> unit result" where
  "ReleaseSoftClaim env ident s = with_loaded env s (\<lambda>s. let st = sto_state s in
     if \<not> (\<exists>c \<in> set (SoftClaims st). sc_ID c = ident) then (s, Inr ())
     else save_and_return env
       (put_state s (st\<lparr>SoftClaims := filter (\<lambda>c. sc_ID c \<noteq> ident) (SoftClaims st)\<rparr>)) ())"

definition AddBypass :: "StoreEnv \<Rightarrow> BypassRule \<Rightarrow> Store \<Rightarrow> unit result" where
  "AddBypass env rule s = with_loaded env s (\<lambda>s. let st = sto_state s in
     case checkTotalCapacity ''bypass'' (length (Bypasses st)) 1 maxTotalBypasses of
       Some e \<Rightarrow> fail_with s e
     | None \<Rightarrow> save_and_return env (put_state s (st\<lparr>Bypasses := Bypasses st @ [rule]\<rparr>)) ())"

section \<open>Revocation\<close>

definition revoke_group_id :: "Reservation \<Rightarrow> string" where
  "revoke_group_id r = (if rs_GroupID r = [] then rs_ID r else rs_GroupID r)"

text \<open>The group of the first reservation of a managed key that the argument names; empty if none.\<close>

definition managed_group :: "State \<Rightarrow> string \<Rightarrow> string" where
  "managed_group st idOrToken =
     (case find (\<lambda>r. (\<exists>t \<in> set (Tokens st). tk_Managed t \<and> tk_Hash t = rs_TokenHash r) \<and>
          (rs_ID r = idOrToken \<or> revoke_group_id r = idOrToken)) (Reservations st) of
        Some r \<Rightarrow> revoke_group_id r | None \<Rightarrow> [])"

text \<open>The hash the argument stands for: a secret, a token identifier or a reservation identifier.\<close>

definition revoke_hash :: "StoreEnv \<Rightarrow> State \<Rightarrow> string \<Rightarrow> string" where
  "revoke_hash env st idOrToken =
     (let h0 = (if prefix ''gk_'' idOrToken then HashToken env idOrToken else []);
          h1 = (case find (\<lambda>t. tk_ID t = idOrToken \<or> (h0 \<noteq> [] \<and> tk_Hash t = h0)) (Tokens st) of
                  Some t \<Rightarrow> tk_Hash t | None \<Rightarrow> h0) in
      if h1 = [] then (case find (\<lambda>r. rs_ID r = idOrToken) (Reservations st) of
                         Some r \<Rightarrow> rs_TokenHash r | None \<Rightarrow> [])
      else h1)"

text \<open>
  The loop that revokes tokens rebinds the hash to the hash of each token it revokes, so the
  hash it ends with is threaded.
\<close>

fun revoke_tokens :: "string \<Rightarrow> string \<Rightarrow> Token list \<Rightarrow> string \<times> bool \<times> Token list" where
  "revoke_tokens ident h [] = (h, False, [])"
| "revoke_tokens ident h (t # ts) =
     (if tk_ID t = ident \<or> (h \<noteq> [] \<and> tk_Hash t = h)
      then (case revoke_tokens ident (tk_Hash t) ts of (h', _, ts') \<Rightarrow>
              (h', True, t\<lparr>tk_Revoked := True\<rparr> # ts'))
      else (case revoke_tokens ident h ts of (h', c, ts') \<Rightarrow> (h', c, t # ts')))"

text \<open>A row is named by its identifier, or by the hash when there is one.\<close>

definition named :: "string \<Rightarrow> string \<Rightarrow> string \<Rightarrow> string \<Rightarrow> bool" where
  "named ident hash rowID rowHash \<longleftrightarrow> rowID = ident \<or> (hash \<noteq> [] \<and> rowHash = hash)"

definition revoke_managed_group :: "State \<Rightarrow> string \<Rightarrow> State \<times> bool" where
  "revoke_managed_group st grp =
     (let sel = (\<lambda>r. revoke_group_id r = grp \<and> \<not> rs_Revoked r) in
      (st\<lparr>Reservations := update_where sel (\<lambda>r. r\<lparr>rs_Revoked := True\<rparr>) (Reservations st)\<rparr>,
       \<exists>r \<in> set (Reservations st). sel r))"

definition revoke_entitlement :: "StoreEnv \<Rightarrow> State \<Rightarrow> string \<Rightarrow> State \<times> bool" where
  "revoke_entitlement env st ident =
     (case revoke_tokens ident (revoke_hash env st ident) (Tokens st) of
        (hash, changedTokens, tokens) \<Rightarrow>
      let selR = (\<lambda>r. named ident hash (rs_ID r) (rs_TokenHash r));
          selA = (\<lambda>a. named ident hash (au_ID a) (au_TokenHash a));
          selL = (\<lambda>l. named ident hash (ls_ID l) (ls_TokenHash l));
          selB = (\<lambda>b. br_ID b = ident);
          changed = (changedTokens \<or> (\<exists>r \<in> set (Reservations st). selR r) \<or>
            (\<exists>a \<in> set (Authorizations st). selA a) \<or> (\<exists>l \<in> set (Leases st). selL l) \<or>
            (\<exists>b \<in> set (Bypasses st). selB b));
          scanClaims = (hash \<noteq> [] \<or> changed);
          changedClaims = (scanClaims \<and> (\<exists>c \<in> set (SoftClaims st). sc_ID c = ident)) in
      (st\<lparr>Tokens := tokens,
          Reservations := update_where selR (\<lambda>r. r\<lparr>rs_Revoked := True\<rparr>) (Reservations st),
          Authorizations := update_where selA (\<lambda>a. a\<lparr>au_Revoked := True\<rparr>) (Authorizations st),
          Leases := update_where selL (\<lambda>l. l\<lparr>ls_ExpiresAt := env_clock env\<rparr>) (Leases st),
          Bypasses := update_where selB (\<lambda>b. b\<lparr>br_Revoked := True\<rparr>) (Bypasses st),
          SoftClaims := (if scanClaims then filter (\<lambda>c. sc_ID c \<noteq> ident) (SoftClaims st)
                         else SoftClaims st)\<rparr>,
       changed \<or> changedClaims))"

definition Revoke :: "StoreEnv \<Rightarrow> string \<Rightarrow> Store \<Rightarrow> unit result" where
  "Revoke env idOrToken s = with_loaded env s (\<lambda>s.
     let ident = TrimSpace idOrToken; st = sto_state s; grp = managed_group st ident in
     if grp \<noteq> [] then
       (case revoke_managed_group st grp of (st', changed) \<Rightarrow>
          if \<not> changed then (s, Inr ()) else save_and_return env (put_state s st') ())
     else
       (case revoke_entitlement env st ident of (st', changed) \<Rightarrow>
          if \<not> changed then fail_with s (ErrNotFound ident)
          else save_and_return env (put_state s st') ()))"

end
