(* ===== verification/Store_Prune.thy ===== *)
theory Store_Prune
  imports Store_Ops
begin

text \<open>
  Pruning (\<open>internal/store/store.go\<close>): the removal of inactive, revoked and expired records, the
  narrow removal of finished managed scopes, and the removal of entitlements nothing refers to.
\<close>

section \<open>Expired records\<close>

definition liveReservationTokenHashes :: "Reservation list \<Rightarrow> time \<Rightarrow> string set" where
  "liveReservationTokenHashes rs now = rs_TokenHash ` set (filter (\<lambda>r.
     rs_Active r \<and> \<not> rs_Revoked r \<and> now < rs_ExpiresAt r \<and> rs_TokenHash r \<noteq> []) rs)"

definition prune_token :: "State \<Rightarrow> time \<Rightarrow> Token \<Rightarrow> bool" where
  "prune_token st now t \<longleftrightarrow>
     (let orphanReserved = (NormalizeTokenMode (tk_Mode t) = TokenModeReserved \<and>
            tk_Hash t \<notin> liveReservationTokenHashes (Reservations st) now) in
      tk_Revoked t \<or> tokenExpired t now \<or> orphanReserved)"

definition expiredTokenHashes :: "State \<Rightarrow> time \<Rightarrow> string set" where
  "expiredTokenHashes st now =
     tk_Hash ` set (filter (\<lambda>t. prune_token st now t \<and> tk_Hash t \<noteq> []) (Tokens st))"

definition prune_reservation :: "State \<Rightarrow> time \<Rightarrow> Reservation \<Rightarrow> bool" where
  "prune_reservation st now r \<longleftrightarrow> rs_Revoked r \<or> \<not> rs_Active r \<or> \<not> now < rs_ExpiresAt r \<or>
     rs_TokenHash r \<in> expiredTokenHashes st now"

definition prune_authorization :: "State \<Rightarrow> time \<Rightarrow> Authorization \<Rightarrow> bool" where
  "prune_authorization st now a \<longleftrightarrow> au_Revoked a \<or> \<not> au_Active a \<or> authorizationExpired a now \<or>
     au_TokenHash a \<in> expiredTokenHashes st now"

definition prune_lease :: "State \<Rightarrow> time \<Rightarrow> Lease \<Rightarrow> bool" where
  "prune_lease st now l \<longleftrightarrow> \<not> ls_Active l \<or> \<not> now < ls_ExpiresAt l \<or>
     ls_TokenHash l \<in> expiredTokenHashes st now"

definition prune_bypass :: "time \<Rightarrow> BypassRule \<Rightarrow> bool" where
  "prune_bypass now b \<longleftrightarrow> br_Revoked b \<or> \<not> now < br_ExpiresAt b"

definition prune_claim :: "State \<Rightarrow> time \<Rightarrow> SoftClaim \<Rightarrow> bool" where
  "prune_claim st now c \<longleftrightarrow> sc_TokenHash c \<in> expiredTokenHashes st now \<or>
     sc_AuthorizationID c \<notin>
       au_ID ` set (filter (\<lambda>a. \<not> prune_authorization st now a) (Authorizations st))"

text \<open>The new state, and whether anything was removed.\<close>

definition pruneExpiredLocked :: "State \<Rightarrow> time \<Rightarrow> State \<times> bool" where
  "pruneExpiredLocked st now =
     (let changed = ((\<exists>t \<in> set (Tokens st). prune_token st now t) \<or>
            (\<exists>r \<in> set (Reservations st). prune_reservation st now r) \<or>
            (\<exists>a \<in> set (Authorizations st). prune_authorization st now a) \<or>
            (\<exists>l \<in> set (Leases st). prune_lease st now l) \<or>
            (\<exists>b \<in> set (Bypasses st). prune_bypass now b));
          scanClaims = (expiredTokenHashes st now \<noteq> {} \<or> changed);
          changedClaims = (scanClaims \<and> (\<exists>c \<in> set (SoftClaims st). prune_claim st now c)) in
      (st\<lparr>Tokens := filter (\<lambda>t. \<not> prune_token st now t) (Tokens st),
          Reservations := filter (\<lambda>r. \<not> prune_reservation st now r) (Reservations st),
          Authorizations := filter (\<lambda>a. \<not> prune_authorization st now a) (Authorizations st),
          Leases := filter (\<lambda>l. \<not> prune_lease st now l) (Leases st),
          Bypasses := filter (\<lambda>b. \<not> prune_bypass now b) (Bypasses st),
          SoftClaims := (if scanClaims then filter (\<lambda>c. \<not> prune_claim st now c) (SoftClaims st)
                         else SoftClaims st)\<rparr>,
       changed \<or> changedClaims))"

definition Prune :: "StoreEnv \<Rightarrow> time \<Rightarrow> Store \<Rightarrow> unit result" where
  "Prune env now s = with_loaded env s (\<lambda>s.
     case pruneExpiredLocked (sto_state s) now of (st, changed) \<Rightarrow>
       if \<not> changed then (put_state s st, Inr ())
       else save_and_return env (put_state s st) ())"

section \<open>Finished managed scopes\<close>

definition PruneInactiveManagedScopes ::
  "StoreEnv \<Rightarrow> string list \<Rightarrow> string list \<Rightarrow> Store \<Rightarrow> unit result" where
  "PruneInactiveManagedScopes env authorizationIDs leaseIDs s =
     (if authorizationIDs = [] \<and> leaseIDs = [] then (s, Inr ())
      else with_loaded env s (\<lambda>s.
        let st = sto_state s;
            dropA = (\<lambda>a. au_ID a \<in> set authorizationIDs \<and> \<not> au_Active a \<and> au_CgroupPath a \<noteq> []);
            dropL = (\<lambda>l. ls_ID l \<in> set leaseIDs \<and> \<not> ls_Active l \<and> ls_CgroupPath l \<noteq> []) in
        if \<not> ((\<exists>a \<in> set (Authorizations st). dropA a) \<or> (\<exists>l \<in> set (Leases st). dropL l))
        then (s, Inr ())
        else save_and_return env (put_state s (st\<lparr>
            Authorizations := filter (\<lambda>a. \<not> dropA a) (Authorizations st),
            Leases := filter (\<lambda>l. \<not> dropL l) (Leases st)\<rparr>)) ()))"

section \<open>Unreferenced entitlements\<close>

definition referenced_hashes :: "State \<Rightarrow> string set" where
  "referenced_hashes st =
     au_TokenHash ` set (filter (\<lambda>a. au_CgroupPath a = [] \<and> au_TokenHash a \<noteq> []) (Authorizations st)) \<union>
     ls_TokenHash ` set (filter (\<lambda>l. ls_CgroupPath l = [] \<and> ls_TokenHash l \<noteq> []) (Leases st))"

text \<open>\<open>tokenValid\<close> maps a hash to the validity of the last token that has it.\<close>

definition tokenValid :: "State \<Rightarrow> time \<Rightarrow> string \<Rightarrow> bool" where
  "tokenValid st now hash = (case find (\<lambda>t. tk_Hash t = hash) (rev (Tokens st)) of
     Some t \<Rightarrow> \<not> tk_Revoked t \<and> (time_IsZero (tk_ExpiresAt t) \<or> now < tk_ExpiresAt t)
   | None \<Rightarrow> False)"

definition PruneUnreferencedInvalidEntitlements :: "StoreEnv \<Rightarrow> time \<Rightarrow> Store \<Rightarrow> unit result" where
  "PruneUnreferencedInvalidEntitlements env now s = with_loaded env s (\<lambda>s.
     let st = sto_state s; referenced = referenced_hashes st;
         dropR = (\<lambda>r. (\<not> rs_Active r \<or> rs_Revoked r \<or> \<not> now < rs_ExpiresAt r) \<and>
                   rs_TokenHash r \<notin> referenced);
         dropT = (\<lambda>t. \<not> tokenValid st now (tk_Hash t) \<and> tk_Hash t \<notin> referenced) in
     if \<not> ((\<exists>r \<in> set (Reservations st). dropR r) \<or> (\<exists>t \<in> set (Tokens st). dropT t)) then (s, Inr ())
     else save_and_return env (put_state s (st\<lparr>
         Reservations := filter (\<lambda>r. \<not> dropR r) (Reservations st),
         Tokens := filter (\<lambda>t. \<not> dropT t) (Tokens st)\<rparr>)) ())"

end
