(* ===== verification/Store_Sync.thy ===== *)
theory Store_Sync
  imports Store_Register
begin

text \<open>
  Managed user keys and key validation (\<open>internal/store/store.go\<close>, wire types of
  \<open>internal/protocol/protocol.go\<close>): the gateway pushes complete snapshots of the keys, the node
  replaces its tokens by them and re-attaches the reservations of each owner.
\<close>

record ManagedUserKey =
  mk_ID :: string
  mk_Owner :: string
  mk_Version :: int
  mk_Hash :: string

record ManagedUserKeySnapshot =
  ms_SnapshotID :: string
  ms_AuthorityID :: string
  ms_Keys :: "ManagedUserKey list"

record ManagedUserKeySyncResult =
  mr_SnapshotID :: string
  mr_Applied :: nat
  mr_Managed :: bool

text \<open>
  The validation loop. The maps \<open>ids\<close>, \<open>hashes\<close> and \<open>byOwner\<close> of the source hold exactly the
  identifiers, hashes and names of the tokens built so far, the accumulator.
\<close>

fun managed_tokens :: "time \<Rightarrow> Token list \<Rightarrow> ManagedUserKey list \<Rightarrow> store_error + Token list" where
  "managed_tokens now acc [] = Inr acc"
| "managed_tokens now acc (key # keys) =
     (let id = TrimSpace (mk_ID key); owner = normalizeHolder (mk_Owner key);
          hash = ToLower (TrimSpace (mk_Hash key)) in
      if id = [] \<or> owner = [] \<or> mk_Version key < 1 \<or> length hash \<noteq> 64
        then Inl (ErrMsg ''managed key id, owner, positive version, and SHA-256 hash are required'')
      else if \<not> hex_valid hash then Inl (ErrMsg ''managed key hash must be hexadecimal SHA-256'')
      else if id \<in> tk_ID ` set acc \<or> hash \<in> tk_Hash ` set acc
        then Inl (ErrMsg ''managed key ids and hashes must be unique'')
      else if owner \<in> tk_Name ` set acc then Inl (ErrMsg ''each owner may have only one managed key'')
      else managed_tokens now (acc @
        [\<lparr>tk_ID = id, tk_Hash = hash, tk_Secret = [], tk_Name = owner, tk_Mode = TokenModeManaged,
          tk_Version = mk_Version key, tk_Managed = True, tk_CreatedAt = now, tk_ExpiresAt = 0,
          tk_Revoked = False\<rparr>]) keys)"

text \<open>\<open>oldTokenIDs\<close>: a later token with the same hash overwrites an earlier one.\<close>

definition oldTokenID :: "Token list \<Rightarrow> string \<Rightarrow> string" where
  "oldTokenID tokens hash = (case find (\<lambda>t. tk_Hash t = hash) (rev tokens) of
     Some t \<Rightarrow> tk_ID t | None \<Rightarrow> [])"

definition byOwner :: "Token list \<Rightarrow> string \<Rightarrow> Token option" where
  "byOwner managed owner = find (\<lambda>t. tk_Name t = owner) managed"

fun relink_reservations ::
  "StoreEnv \<Rightarrow> Token list \<Rightarrow> Token list \<Rightarrow> Reservation list \<Rightarrow> Store \<Rightarrow> Store \<times> Reservation list" where
  "relink_reservations env old managed [] s = (s, [])"
| "relink_reservations env old managed (r # rs) s =
     (case (if rs_GroupID r = [] then
              (if oldTokenID old (rs_TokenHash r) = [] then
                 (case randomHex env 8 s of (s1, h) \<Rightarrow> (s1, ''grp_'' @ h))
               else (s, oldTokenID old (rs_TokenHash r)))
            else (s, rs_GroupID r)) of (s1, grp) \<Rightarrow>
      case relink_reservations env old managed rs s1 of (s2, rest) \<Rightarrow>
        (s2, (case byOwner managed (normalizeHolder (rs_Holder r)) of
            None \<Rightarrow> r\<lparr>rs_GroupID := grp\<rparr>
          | Some t \<Rightarrow> r\<lparr>rs_GroupID := grp, rs_TokenHash := tk_Hash t\<rparr>) # rest))"

definition sync_locked ::
  "StoreEnv \<Rightarrow> string \<Rightarrow> string \<Rightarrow> Token list \<Rightarrow> Store \<Rightarrow> ManagedUserKeySyncResult result" where
  "sync_locked env snapshotID authorityID managed s =
     (let st = sto_state s; authority = ManagedKeyAuthority st;
          res = \<lparr>mr_SnapshotID = snapshotID, mr_Applied = length managed, mr_Managed = True\<rparr> in
      if authority \<noteq> [] \<and> authorityID = []
        then fail_with s (ErrMsg ''managed key authority is required for this node'')
      else if authority \<noteq> [] \<and> authorityID \<noteq> authority
        then fail_with s (ErrMsg ''managed key authority does not match this node'')
      else
      let authorityChanged = (authority = [] \<and> authorityID \<noteq> []);
          st1 = (if authorityChanged then st\<lparr>ManagedKeyAuthority := authorityID\<rparr> else st) in
      if ManagedKeys st1 \<and> KeySnapshotID st1 = snapshotID then
        (if authorityChanged then save_and_return env (s\<lparr>sto_state := st1\<rparr>) res else (s, Inr res))
      else
        case relink_reservations env (Tokens st1) managed (Reservations st1) s of (s, rs) \<Rightarrow>
        save_and_return env (s\<lparr>sto_state := st1\<lparr>Reservations := rs, Tokens := managed,
          ManagedKeys := True, KeySnapshotID := snapshotID\<rparr>\<rparr>) res)"

definition SyncManagedUserKeys ::
  "StoreEnv \<Rightarrow> string \<Rightarrow> ManagedUserKeySnapshot \<Rightarrow> time \<Rightarrow> Store \<Rightarrow> ManagedUserKeySyncResult result" where
  "SyncManagedUserKeys env rootKey snapshot now s = with_root env rootKey s (\<lambda>s.
     let snapshotID = TrimSpace (ms_SnapshotID snapshot);
         authorityID = TrimSpace (ms_AuthorityID snapshot) in
     if snapshotID = [] then fail_with s (ErrMsg ''snapshot_id is required'')
     else case validatePersistedValues ''managed key snapshot'' [snapshotID, authorityID] of
       Some e \<Rightarrow> fail_with s e
     | None \<Rightarrow>
     if length (ms_Keys snapshot) > maxTotalTokens
       then fail_with s (ErrCount ''managed key'' (length (ms_Keys snapshot)) maxTotalTokens)
     else (case managed_tokens now [] (ms_Keys snapshot) of Inl e \<Rightarrow> fail_with s e
     | Inr managed \<Rightarrow> with_loaded env s (sync_locked env snapshotID authorityID managed)))"

definition ManagedKeysEnabled :: "StoreEnv \<Rightarrow> Store \<Rightarrow> bool result" where
  "ManagedKeysEnabled env s = with_loaded env s (\<lambda>s. (s, Inr (ManagedKeys (sto_state s))))"

definition ManagedTokenByID :: "StoreEnv \<Rightarrow> string \<Rightarrow> time \<Rightarrow> Store \<Rightarrow> Token result" where
  "ManagedTokenByID env ident now s = with_loaded env s (\<lambda>s.
     case find (\<lambda>t. tk_ID t = TrimSpace ident \<and> tk_Managed t \<and> \<not> tk_Revoked t \<and> \<not> tokenExpired t now)
       (Tokens (sto_state s)) of
       Some t \<Rightarrow> (s, Inr t) | None \<Rightarrow> (s, Inl ErrTokenNotFound))"

text \<open>
  \<open>ValidateToken\<close> decides on the first token with the hash; the error, if any, comes with the
  token and the hash, as in the source.
\<close>

definition ValidateToken ::
  "StoreEnv \<Rightarrow> string \<Rightarrow> time \<Rightarrow> Store \<Rightarrow> Store \<times> Token \<times> string \<times> store_error option" where
  "ValidateToken env secret now s =
     (let hash = HashToken env (TrimSpace secret) in
      case loadLocked env s of
        (s1, Some e) \<Rightarrow> (s1, zero_Token, hash, Some e)
      | (s1, None) \<Rightarrow>
          (case find (\<lambda>t. tk_Hash t = hash) (Tokens (sto_state s1)) of
             None \<Rightarrow> (s1, zero_Token, hash, Some ErrTokenNotFound)
           | Some t \<Rightarrow>
               if tk_Revoked t then (s1, t, hash, Some ErrTokenRevoked)
               else let t' = t\<lparr>tk_Mode := NormalizeTokenMode (tk_Mode t)\<rparr> in
                 if timeIsSet (tk_ExpiresAt t') \<and> \<not> now < tk_ExpiresAt t'
                 then (s1, t', hash, Some ErrTokenExpired)
                 else (s1, t', hash, None)))"

end
