(* ===== verification/Store_Views.thy ===== *)
theory Store_Views
  imports Store_Prune Store_Sync
begin

text \<open>
  Read operations of the node store (\<open>internal/store/store.go\<close>): snapshots for enforcement and
  the status views, which hide secrets and bound the command lines they show.
\<close>

section \<open>Views\<close>

record TokenView =
  tv_ID :: string
  tv_Key :: string
  tv_KeyStatus :: string
  tv_Name :: string
  tv_Mode :: string
  tv_Version :: int
  tv_Managed :: bool
  tv_CreatedAt :: time
  tv_ExpiresAt :: "time option"
  tv_Revoked :: bool

record ReservationView =
  rv_ID :: string
  rv_GroupID :: string
  rv_ExternalSessionID :: string
  rv_GPU :: int
  rv_Holder :: string
  rv_Purpose :: string
  rv_CreatedAt :: time
  rv_StartsAt :: time
  rv_ExpiresAt :: time
  rv_Active :: bool
  rv_Revoked :: bool

record AuthorizationView =
  av_ID :: string
  av_TokenID :: string
  av_Mode :: string
  av_TokenMode :: string
  av_Holder :: string
  av_RunName :: string
  av_UID :: int
  av_GID :: int
  av_Username :: string
  av_Command :: "string list"
  av_RootPID :: int
  av_ContainerID :: string
  av_ContainerPattern :: string
  av_Namespace :: string
  av_CreatedAt :: time
  av_ExpiresAt :: "time option"
  av_Active :: bool
  av_Revoked :: bool

record SoftClaimView =
  cv_ID :: string
  cv_GPU :: int
  cv_AuthorizationID :: string
  cv_Holder :: string
  cv_CreatedAt :: time
  cv_UpdatedAt :: time
  cv_RuntimeContainerID :: string
  cv_RuntimeCgroup :: string
  cv_RuntimePID :: int
  cv_RuntimeStartTime :: uint64

record Status =
  ss_Now :: time
  ss_Tokens :: "TokenView list"
  ss_Reservations :: "ReservationView list"
  ss_Authorizations :: "AuthorizationView list"
  ss_SoftClaims :: "SoftClaimView list"
  ss_Leases :: "Lease list"
  ss_Bypasses :: "BypassRule list"

record KeyStatus =
  ks_Now :: time
  ks_Tokens :: "TokenView list"
  ks_Reservations :: "ReservationView list"
  ks_Authorizations :: "AuthorizationView list"
  ks_Bypasses :: "BypassRule list"

definition timePtrIfSet :: "time \<Rightarrow> time option" where
  "timePtrIfSet t = (if time_IsZero t then None else Some t)"

fun view_args :: "nat \<Rightarrow> nat \<Rightarrow> string list \<Rightarrow> string list" where
  "view_args shown remaining [] = []"
| "view_args shown remaining (a # as) =
     (if shown \<ge> maxViewCommandArgs \<or> remaining \<le> 0 then []
      else let a' = (if length a > remaining then take remaining a else a) in
        a' # view_args (Suc shown) (remaining - length a') as)"

definition boundedViewCommand :: "string list \<Rightarrow> string list" where
  "boundedViewCommand command = view_args 0 maxViewCommandBytes command"

definition token_view :: "Token \<Rightarrow> TokenView" where
  "token_view t = \<lparr>tv_ID = tk_ID t, tv_Key = [], tv_KeyStatus = [], tv_Name = tk_Name t,
     tv_Mode = NormalizeTokenMode (tk_Mode t), tv_Version = tk_Version t, tv_Managed = tk_Managed t,
     tv_CreatedAt = tk_CreatedAt t, tv_ExpiresAt = timePtrIfSet (tk_ExpiresAt t),
     tv_Revoked = tk_Revoked t\<rparr>"

definition authorizationView :: "Authorization \<Rightarrow> string \<Rightarrow> AuthorizationView" where
  "authorizationView a tokenID = \<lparr>av_ID = au_ID a, av_TokenID = tokenID, av_Mode = au_Mode a,
     av_TokenMode = NormalizeTokenMode (au_TokenMode a), av_Holder = au_Holder a,
     av_RunName = au_RunName a, av_UID = au_UID a, av_GID = au_GID a, av_Username = au_Username a,
     av_Command = boundedViewCommand (au_Command a), av_RootPID = au_RootPID a,
     av_ContainerID = au_ContainerID a, av_ContainerPattern = au_ContainerPattern a,
     av_Namespace = au_Namespace a, av_CreatedAt = au_CreatedAt a,
     av_ExpiresAt = timePtrIfSet (au_ExpiresAt a), av_Active = au_Active a, av_Revoked = au_Revoked a\<rparr>"

text \<open>
  \<open>tokenIDsByHash\<close> over the tokens a view shows: the last one with the hash, empty if none.
\<close>

definition tokenIDsByHash :: "Token list \<Rightarrow> string \<Rightarrow> string" where
  "tokenIDsByHash shown hash = oldTokenID shown hash"

definition reservationGroupID :: "Reservation \<Rightarrow> (string \<Rightarrow> string) \<Rightarrow> string" where
  "reservationGroupID r ids = (if rs_GroupID r \<noteq> [] then rs_GroupID r else ids (rs_TokenHash r))"

definition reservation_view :: "(string \<Rightarrow> string) \<Rightarrow> Reservation \<Rightarrow> ReservationView" where
  "reservation_view ids r = \<lparr>rv_ID = rs_ID r, rv_GroupID = reservationGroupID r ids,
     rv_ExternalSessionID = rs_ExternalSessionID r, rv_GPU = rs_GPU r, rv_Holder = rs_Holder r,
     rv_Purpose = rs_Purpose r, rv_CreatedAt = rs_CreatedAt r, rv_StartsAt = ReservationStartsAt r,
     rv_ExpiresAt = rs_ExpiresAt r, rv_Active = rs_Active r, rv_Revoked = rs_Revoked r\<rparr>"

definition claim_view :: "SoftClaim \<Rightarrow> SoftClaimView" where
  "claim_view c = \<lparr>cv_ID = sc_ID c, cv_GPU = sc_GPU c, cv_AuthorizationID = sc_AuthorizationID c,
     cv_Holder = sc_Holder c, cv_CreatedAt = sc_CreatedAt c, cv_UpdatedAt = sc_UpdatedAt c,
     cv_RuntimeContainerID = sc_RuntimeContainerID c, cv_RuntimeCgroup = sc_RuntimeCgroup c,
     cv_RuntimePID = sc_RuntimePID c, cv_RuntimeStartTime = sc_RuntimeStartTime c\<rparr>"

section \<open>Snapshots\<close>

definition Snapshot :: "StoreEnv \<Rightarrow> Store \<Rightarrow> State result" where
  "Snapshot env s = with_loaded env s (\<lambda>s. (s, Inr (sto_state s)))"

definition cloneEnforcementState :: "State \<Rightarrow> State" where
  "cloneEnforcementState st = st\<lparr>
     Tokens := map (\<lambda>t. t\<lparr>tk_Secret := []\<rparr>) (Tokens st),
     Authorizations := map (\<lambda>a. a\<lparr>au_Command := []\<rparr>) (Authorizations st),
     Leases := map (\<lambda>l. l\<lparr>ls_Command := []\<rparr>) (Leases st),
     Audit := []\<rparr>"

definition EnforcementSnapshot :: "StoreEnv \<Rightarrow> Store \<Rightarrow> State result" where
  "EnforcementSnapshot env s = with_loaded env s (\<lambda>s. (s, Inr (cloneEnforcementState (sto_state s))))"

definition EnforcementSnapshotForToken :: "StoreEnv \<Rightarrow> string \<Rightarrow> Store \<Rightarrow> State result" where
  "EnforcementSnapshotForToken env tokenHash s =
     (if tokenHash = [] then fail_with s (ErrMsg ''token hash is required'')
      else with_loaded env s (\<lambda>s. let st = sto_state s;
          authorizations = filter (\<lambda>a. au_TokenHash a = tokenHash) (Authorizations st) in
        (s, Inr (empty_State\<lparr>
          Tokens := map (\<lambda>t. t\<lparr>tk_Secret := []\<rparr>) (filter (\<lambda>t. tk_Hash t = tokenHash) (Tokens st)),
          Reservations := filter (\<lambda>r. rs_TokenHash r = tokenHash) (Reservations st),
          Authorizations := map (\<lambda>a. a\<lparr>au_Command := []\<rparr>) authorizations,
          SoftClaims := filter (\<lambda>c. sc_TokenHash c = tokenHash \<and>
            sc_AuthorizationID c \<in> au_ID ` set authorizations) (SoftClaims st)\<rparr>))))"

definition TokenView_of :: "StoreEnv \<Rightarrow> string \<Rightarrow> time \<Rightarrow> Store \<Rightarrow> TokenView result" where
  "TokenView_of env secret now s = (case ValidateToken env secret now s of
     (s1, t, hash, Some e) \<Rightarrow> fail_with s1 e
   | (s1, t, hash, None) \<Rightarrow> (s1, Inr (token_view t)))"

section \<open>Status\<close>

definition token_shown :: "State \<Rightarrow> time \<Rightarrow> Token \<Rightarrow> bool" where
  "token_shown st now t \<longleftrightarrow> \<not> (tk_Revoked t \<or> tokenExpired t now) \<and>
     \<not> (NormalizeTokenMode (tk_Mode t) = TokenModeReserved \<and>
        tk_Hash t \<notin> liveReservationTokenHashes (Reservations st) now)"

definition reservation_shown :: "time \<Rightarrow> Reservation \<Rightarrow> bool" where
  "reservation_shown now r \<longleftrightarrow> rs_Active r \<and> \<not> rs_Revoked r \<and> now < rs_ExpiresAt r"

definition status_of :: "State \<Rightarrow> time \<Rightarrow> string \<Rightarrow> bool \<Rightarrow> Status" where
  "status_of st now allowedTokenHash showAll =
     (let tokens = filter (\<lambda>t. (showAll \<or> tk_Hash t = allowedTokenHash) \<and> token_shown st now t) (Tokens st);
          ids = tokenIDsByHash tokens;
          authorizations = filter (\<lambda>a. (showAll \<or> au_TokenHash a = allowedTokenHash) \<and>
            authorizationActiveAt a now) (Authorizations st) in
      \<lparr>ss_Now = now,
       ss_Tokens = map token_view tokens,
       ss_Reservations = map (reservation_view ids) (filter (\<lambda>r.
         (showAll \<or> rs_TokenHash r = allowedTokenHash) \<and> reservation_shown now r) (Reservations st)),
       ss_Authorizations = map (\<lambda>a. authorizationView a (ids (au_TokenHash a))) authorizations,
       ss_SoftClaims = map claim_view (filter (\<lambda>c. (showAll \<or> sc_TokenHash c = allowedTokenHash) \<and>
         sc_TokenHash c \<in> tk_Hash ` set tokens \<and>
         sc_AuthorizationID c \<in> au_ID ` set authorizations) (SoftClaims st)),
       ss_Leases = (if showAll then filter (\<lambda>l. ls_Active l \<and> now < ls_ExpiresAt l) (Leases st) else []),
       ss_Bypasses = (if showAll then
         filter (\<lambda>b. \<not> (br_Revoked b \<or> \<not> now < br_ExpiresAt b)) (Bypasses st) else [])\<rparr>)"

definition store_Status :: "StoreEnv \<Rightarrow> time \<Rightarrow> Store \<Rightarrow> Status result" where
  "store_Status env now s = with_loaded env s (\<lambda>s. (s, Inr (status_of (sto_state s) now [] True)))"

definition StatusForToken :: "StoreEnv \<Rightarrow> string \<Rightarrow> time \<Rightarrow> Store \<Rightarrow> Status result" where
  "StatusForToken env tokenHash now s =
     (if tokenHash = [] then fail_with s (ErrMsg ''token hash is required'')
      else with_loaded env s (\<lambda>s. (s, Inr (status_of (sto_state s) now tokenHash False))))"

definition store_KeyStatus :: "StoreEnv \<Rightarrow> string \<Rightarrow> time \<Rightarrow> Store \<Rightarrow> KeyStatus result" where
  "store_KeyStatus env rootKey now s = with_root env rootKey s (\<lambda>s. with_loaded env s (\<lambda>s.
     let st = sto_state s; tokens = filter (token_shown st now) (Tokens st);
         ids = tokenIDsByHash tokens in
     (s, Inr \<lparr>ks_Now = now,
        ks_Tokens = map (\<lambda>t. (token_view t)\<lparr>tv_Key := tk_Secret t,
          tv_KeyStatus := (if tk_Secret t \<noteq> [] then TokenKeyStatusStored else TokenKeyStatusNotStored)\<rparr>) tokens,
        ks_Reservations = map (reservation_view ids) (filter (reservation_shown now) (Reservations st)),
        ks_Authorizations = map (\<lambda>a. authorizationView a (ids (au_TokenHash a)))
          (filter (\<lambda>a. authorizationActiveAt a now) (Authorizations st)),
        ks_Bypasses = filter (\<lambda>b. \<not> (br_Revoked b \<or> \<not> now < br_ExpiresAt b)) (Bypasses st)\<rparr>)))"

end
