(* ===== verification/Store_Invariants.thy ===== *)
theory Store_Invariants
  imports Store_Views
begin

text \<open>
  The contract of the node store. The locale \<open>store_operation\<close> says what every operation does to a
  loaded store: it leaves the state alone, or it tries to save one new state that keeps the
  invariant. From it follow coherence, the invariant and the all-or-nothing behaviour of every
  operation; each operation of the store is an interpretation.
\<close>

section \<open>The invariant\<close>

definition no_double_booking :: "State \<Rightarrow> bool" where
  "no_double_booking st \<longleftrightarrow> sorted_wrt (\<lambda>r q. \<not> windows_conflict r q) (Reservations st)"

definition holder_limit :: "time \<Rightarrow> State \<Rightarrow> bool" where
  "holder_limit now st \<longleftrightarrow> (\<forall>now' \<ge> now. \<forall>h. active_tokens_of st now' h \<le> maxActiveTokensPerHolder)"

definition active_scopes :: "Authorization list \<Rightarrow> time \<Rightarrow> string \<Rightarrow> nat" where
  "active_scopes as now h =
     length (filter (\<lambda>a. au_TokenHash a = h \<and> authorizationActiveAt a now) as)"

definition scope_limit :: "time \<Rightarrow> State \<Rightarrow> bool" where
  "scope_limit now st \<longleftrightarrow>
     (\<forall>now' \<ge> now. \<forall>h. active_scopes (Authorizations st) now' h \<le> maxActiveAuthorizationsPerToken)"

definition store_inv :: "time \<Rightarrow> State \<Rightarrow> bool" where
  "store_inv now st \<longleftrightarrow>
     no_double_booking st \<and> holder_limit now st \<and> scope_limit now st \<and> Audit st = []"

lemma store_inv_later: "store_inv now st \<Longrightarrow> now \<le> now' \<Longrightarrow> store_inv now' st"
  by (auto simp: store_inv_def holder_limit_def scope_limit_def)

lemma store_inv_empty: "store_inv now empty_State"
  by (simp add: store_inv_def no_double_booking_def holder_limit_def scope_limit_def
      active_tokens_of_def active_scopes_def empty_State_def)

section \<open>The contract of an operation\<close>

definition txn_step :: "(State \<Rightarrow> bool) \<Rightarrow> StoreEnv \<Rightarrow> Store \<Rightarrow> Store \<Rightarrow> bool" where
  "txn_step good env s t \<longleftrightarrow> (\<exists>s0. same_data s s0 \<and>
     (t = s0 \<or> (\<exists>new. good new \<and> t = fst (saveLocked env (put_state s0 new)))))"

lemma txn_refl: "same_data s t \<Longrightarrow> txn_step good env s t"
  by (auto simp: txn_step_def)

lemma txn_self [simp, intro]: "txn_step good env s s"
  by (rule txn_refl) simp

lemma txn_same: "same_data s s1 \<Longrightarrow> txn_step good env s1 t \<Longrightarrow> txn_step good env s t"
  by (auto simp: txn_step_def intro: same_data_trans)

lemma fst_save_and_return: "fst (save_and_return env s r) = fst (saveLocked env s)"
  by (auto simp: save_and_return_def split: prod.splits option.splits)

lemma loaded_saveLocked [simp]: "sto_loaded (fst (saveLocked env s)) = sto_loaded s"
  using saveLocked_cases [of env s] by (auto simp: committed_store_def)

lemma txn_save:
  "same_data s s0 \<Longrightarrow> good new \<Longrightarrow>
     txn_step good env s (fst (save_and_return env (put_state s0 new) r))"
  by (auto simp: txn_step_def fst_save_and_return)

lemma txn_with_root:
  assumes "\<And>s1. same_data s s1 \<Longrightarrow> txn_step good env s1 (fst (body s1))"
  shows "txn_step good env s (fst (with_root env k s body))"
  by (auto simp: with_root_def split: prod.splits sum.splits
      intro: txn_refl txn_same assms dest: same_data_ValidateRootKey)

lemma with_loaded_loaded [simp]: "sto_loaded s \<Longrightarrow> with_loaded env s body = body s"
  by (simp add: with_loaded_def loadLocked_def)

lemma same_dataD:
  assumes "same_data s t"
  shows "sto_state t = sto_state s" "sto_committed t = sto_committed s"
    "sto_loaded t = sto_loaded s" "sto_file t = sto_file s"
  using assms by (simp_all add: same_data_def)

locale store_operation =
  fixes op :: "StoreEnv \<Rightarrow> Store \<Rightarrow> 'r result"
    and good :: "StoreEnv \<Rightarrow> State \<Rightarrow> bool"
  assumes op_txn: "sto_loaded s \<Longrightarrow> good env (sto_state s) \<Longrightarrow>
    txn_step (good env) env s (fst (op env s))"
begin

text \<open>The state after the operation is the old one or one that was committed to disk.\<close>

lemma op_state:
  assumes "sto_loaded s" "coherent s" "good env (sto_state s)"
  shows "sto_state (fst (op env s)) = sto_state s \<and> sto_file (fst (op env s)) = sto_file s \<or>
    (\<exists>data. env_Marshal env (sto_state (fst (op env s))) = Inr data \<and>
       length data \<le> maxStateFileBytes \<and> good env (sto_state (fst (op env s))) \<and>
       sto_file (fst (op env s)) =
         Some \<lparr>sf_data = data @ newline, sf_regular = True, sf_perm = mode0600\<rparr>)"
proof -
  from op_txn [OF assms(1,3)] obtain s0 where s0: "same_data s s0" and
    t: "fst (op env s) = s0 \<or> (\<exists>new. good env new \<and> fst (op env s) = fst (saveLocked env (put_state s0 new)))"
    by (auto simp: txn_step_def)
  from t show ?thesis
  proof
    assume "fst (op env s) = s0"
    with s0 show ?thesis by (simp add: same_data_def)
  next
    assume "\<exists>new. good env new \<and> fst (op env s) = fst (saveLocked env (put_state s0 new))"
    then obtain new where new: "good env new"
      and res: "fst (op env s) = fst (saveLocked env (put_state s0 new))" by blast
    show ?thesis
      using saveLocked_cases [of env "put_state s0 new"] res new s0 assms(1,2)
      by (auto simp: committed_store_def same_data_def coherent_def)
  qed
qed

lemma op_loaded: "sto_loaded s \<Longrightarrow> good env (sto_state s) \<Longrightarrow> sto_loaded (fst (op env s))"
  by (frule (1) op_txn) (auto simp: txn_step_def same_data_def)

lemma op_inv:
  assumes "sto_loaded s" "coherent s" "good env (sto_state s)"
  shows "good env (sto_state (fst (op env s)))"
  using op_state [OF assms] assms(3) by auto

end

text \<open>
  An operation whose invariant rules out audit copies keeps the whole store in order: loaded,
  coherent, within the invariant, and with a state file as soon as the state is not empty.
\<close>

definition backed :: "Store \<Rightarrow> bool" where
  "backed s \<longleftrightarrow> (case sto_file s of None \<Rightarrow> sto_committed s = empty_State
     | Some f \<Rightarrow> sf_regular f \<and> sf_perm f = mode0600)"

definition in_order :: "(State \<Rightarrow> bool) \<Rightarrow> Store \<Rightarrow> bool" where
  "in_order good s \<longleftrightarrow> sto_loaded s \<and> coherent s \<and> good (sto_state s) \<and> backed s"

text \<open>
  With the encoder \<open>m\<close> at work, the state file holds what \<open>m\<close> makes of the state in memory; without a
  file nothing has been stored yet.
\<close>

definition written :: "(State \<Rightarrow> store_error + string) \<Rightarrow> Store \<Rightarrow> bool" where
  "written m s \<longleftrightarrow> (case sto_file s of None \<Rightarrow> sto_state s = empty_State
     | Some f \<Rightarrow> (\<exists>data. m (sto_state s) = Inr data \<and> sf_data f = data @ newline))"

locale audited_operation = store_operation +
  assumes good_audit: "good env st \<Longrightarrow> Audit st = []"
begin

lemma op_in_order:
  assumes "in_order (good env) s"
  shows "in_order (good env) (fst (op env s))"
proof -
  have s: "sto_loaded s" "coherent s" "good env (sto_state s)" "backed s"
    using assms by (simp_all add: in_order_def)
  from op_txn [OF s(1,3)] obtain s0 where s0: "same_data s s0" and
    t: "fst (op env s) = s0 \<or> (\<exists>new. good env new \<and> fst (op env s) = fst (saveLocked env (put_state s0 new)))"
    by (auto simp: txn_step_def)
  from t show ?thesis
  proof
    assume "fst (op env s) = s0"
    with s0 s show ?thesis by (auto simp: in_order_def coherent_def same_data_def backed_def split: option.splits)
  next
    assume "\<exists>new. good env new \<and> fst (op env s) = fst (saveLocked env (put_state s0 new))"
    then obtain new where new: "good env new"
      and res: "fst (op env s) = fst (saveLocked env (put_state s0 new))" by blast
    show ?thesis
      using saveLocked_cases [of env "put_state s0 new"] res new s0 s good_audit [OF new]
      by (auto simp: committed_store_def same_data_def coherent_def in_order_def backed_def split: option.split)
  qed
qed

lemma op_written:
  assumes "in_order (good env) s" "written (env_Marshal env) s"
  shows "written (env_Marshal env) (fst (op env s))"
  using op_state [of s env] assms by (auto simp: written_def in_order_def split: option.splits)

end

section \<open>Pieces of the invariant\<close>

subsection \<open>Reservations\<close>

definition weaker :: "Reservation \<Rightarrow> Reservation \<Rightarrow> bool" where
  "weaker r' r \<longleftrightarrow> rs_GPU r' = rs_GPU r \<and> ReservationStartsAt r' = ReservationStartsAt r \<and>
     rs_ExpiresAt r' = rs_ExpiresAt r \<and> (rs_Active r' \<longrightarrow> rs_Active r) \<and>
     (rs_Revoked r \<longrightarrow> rs_Revoked r')"

lemma weaker_conflict: "weaker r' r \<Longrightarrow> windows_conflict r' q \<Longrightarrow> windows_conflict r q"
  "weaker r' r \<Longrightarrow> windows_conflict q r' \<Longrightarrow> windows_conflict q r"
  by (auto simp: weaker_def windows_conflict_def)

lemma weaker_updates [simp]:
  "weaker (r\<lparr>rs_Active := False\<rparr>) r" "weaker (r\<lparr>rs_Revoked := True\<rparr>) r"
  "weaker r r" "weaker (r\<lparr>rs_TokenHash := h\<rparr>) r"
  "weaker (r\<lparr>rs_GroupID := g\<rparr>) r" "weaker (r\<lparr>rs_GroupID := g, rs_TokenHash := h\<rparr>) r"
  by (simp_all add: weaker_def ReservationStartsAt_def)

abbreviation apart :: "Reservation \<Rightarrow> Reservation \<Rightarrow> bool" where
  "apart r q \<equiv> \<not> windows_conflict r q"

lemma apart_update_first:
  "sorted_wrt apart rs \<Longrightarrow> (\<And>r. weaker (f r) r) \<Longrightarrow> sorted_wrt apart (update_first P f rs)"
  by (rule sorted_wrt_update_first_mono) (auto dest: weaker_conflict)

lemma apart_update_where:
  "sorted_wrt apart rs \<Longrightarrow> (\<And>r. weaker (f r) r) \<Longrightarrow> sorted_wrt apart (update_where P f rs)"
  by (rule sorted_wrt_update_where_mono) (auto dest: weaker_conflict)

lemma apart_list_all2:
  assumes "sorted_wrt apart rs" "list_all2 (\<lambda>r r'. weaker r' r) rs rs'"
  shows "sorted_wrt apart rs'"
  using assms(2,1)
proof (induction rule: list_all2_induct)
  case (Cons r rs r' rs')
  have "apart r' q'" if "q' \<in> set rs'" for q'
  proof -
    from that Cons.hyps(2) obtain q where "q \<in> set rs" "weaker q' q"
      by (metis in_set_conv_nth list_all2_conv_all_nth)
    with Cons.hyps(1) Cons.prems show ?thesis by (auto dest: weaker_conflict)
  qed
  with Cons show ?case by simp
qed simp

subsection \<open>Tokens and authorizations expire\<close>

lemma tokenActiveAt_earlier: "tokenActiveAt t now' \<Longrightarrow> now \<le> now' \<Longrightarrow> tokenActiveAt t now"
  by (auto simp: tokenActiveAt_def tokenExpired_def)

lemma authorizationActiveAt_earlier:
  "authorizationActiveAt a now' \<Longrightarrow> now \<le> now' \<Longrightarrow> authorizationActiveAt a now"
  by (auto simp: authorizationActiveAt_def authorizationExpired_def)

lemma length_filter_mono:
  "(\<And>x. x \<in> set xs \<Longrightarrow> P x \<Longrightarrow> Q x) \<Longrightarrow> length (filter P xs) \<le> length (filter Q xs)"
  by (induction xs) (auto simp: le_SucI)

lemma active_tokens_of_earlier:
  "now \<le> now' \<Longrightarrow> active_tokens_of st now' h \<le> active_tokens_of st now h"
  unfolding active_tokens_of_def by (rule length_filter_mono) (auto dest: tokenActiveAt_earlier)

lemma active_scopes_earlier: "now \<le> now' \<Longrightarrow> active_scopes as now' h \<le> active_scopes as now h"
  unfolding active_scopes_def by (rule length_filter_mono) (auto dest: authorizationActiveAt_earlier)

lemma holder_limit_append:
  assumes "holder_limit now st" "checkTokenCapacityLocked st t now = None"
  shows "holder_limit now (st\<lparr>Tokens := Tokens st @ [t]\<rparr>)"
  unfolding holder_limit_def
proof (intro allI impI)
  fix now' h assume le: "now \<le> now'"
  let ?n = "active_tokens_of st now' h"
  have base: "?n \<le> maxActiveTokensPerHolder" using assms(1) le by (auto simp: holder_limit_def)
  have new: "active_tokens_of (st\<lparr>Tokens := Tokens st @ [t]\<rparr>) now' h =
      ?n + (if tokenActiveAt t now' \<and> normalizeHolder (tk_Name t) = h then 1 else 0)"
    by (simp add: active_tokens_of_def)
  show "active_tokens_of (st\<lparr>Tokens := Tokens st @ [t]\<rparr>) now' h \<le> maxActiveTokensPerHolder"
  proof (cases "tokenActiveAt t now' \<and> normalizeHolder (tk_Name t) = h")
    case True
    with le have "tokenActiveAt t now" by (auto dest: tokenActiveAt_earlier)
    with assms(2) True have "active_tokens_of st now h < maxActiveTokensPerHolder"
      by (auto simp: checkTokenCapacityLocked_def Let_def split: option.splits if_splits)
    with active_tokens_of_earlier [OF le, of st h] new True show ?thesis by simp
  next
    case False
    with base new show ?thesis by (simp only: if_False)
  qed
qed

lemma holder_limit_mono:
  assumes "holder_limit now st"
    and "\<And>now' h. active_tokens_of st' now' h \<le> active_tokens_of st now' h"
  shows "holder_limit now st'"
  unfolding holder_limit_def
  by (meson assms holder_limit_def le_trans)

lemma holder_limit_cong:
  "Tokens st' = Tokens st \<Longrightarrow> holder_limit now st' = holder_limit now st"
  by (simp add: holder_limit_def active_tokens_of_def)

lemma active_tokens_filter:
  "Tokens st' = filter P (Tokens st) \<Longrightarrow> active_tokens_of st' now h \<le> active_tokens_of st now h"
  by (simp only: active_tokens_of_def length_filter_filter_le)

lemma active_scopes_filter: "active_scopes (filter P as) now h \<le> active_scopes as now h"
  by (simp only: active_scopes_def length_filter_filter_le)

lemma active_scopes_update_where:
  assumes "\<And>a. au_TokenHash (f a) = au_TokenHash a"
    and "\<And>a. authorizationActiveAt (f a) now \<Longrightarrow> authorizationActiveAt a now"
  shows "active_scopes (update_where P f as) now h \<le> active_scopes as now h"
  unfolding active_scopes_def by (rule length_filter_update_where_le) (auto simp: assms)

lemma active_scopes_update_first:
  assumes "\<And>a. au_TokenHash (f a) = au_TokenHash a"
    and "\<And>a. authorizationActiveAt (f a) now \<Longrightarrow> authorizationActiveAt a now"
  shows "active_scopes (update_first P f as) now h \<le> active_scopes as now h"
  unfolding active_scopes_def by (rule length_filter_update_first_le) (auto simp: assms)

lemma authorizationActiveAt_updates [simp]:
  "\<not> authorizationActiveAt (a\<lparr>au_Active := False\<rparr>) now"
  "\<not> authorizationActiveAt (a\<lparr>au_Revoked := True\<rparr>) now"
  "authorizationActiveAt (a\<lparr>au_RootPID := p\<rparr>) now = authorizationActiveAt a now"
  by (auto simp: authorizationActiveAt_def authorizationExpired_def)

lemma scope_limit_mono:
  assumes "scope_limit now st"
    and "\<And>now' h. active_scopes (Authorizations st') now' h \<le> active_scopes (Authorizations st) now' h"
  shows "scope_limit now st'"
  unfolding scope_limit_def
  by (meson assms scope_limit_def le_trans)

text \<open>The count that leaves out one row, and the effect of writing that row.\<close>

lemma filter_enumerate_exclude:
  "i < length xs \<Longrightarrow>
     length (filter P (xs[i := u])) =
       length (filter (\<lambda>(j, x). int j \<noteq> int (n + i) \<and> P x) (enumerate n xs)) + (if P u then 1 else 0)"
proof (induction xs arbitrary: n i)
  case (Cons x xs)
  have rest: "length (filter (\<lambda>(j, y). int j \<noteq> int n \<and> P y) (enumerate (Suc n) xs)) =
      length (filter P xs)" for n
  proof -
    have "length (filter (\<lambda>(j, y). int j \<noteq> int k \<and> P y) (enumerate m xs)) = length (filter P xs)"
      if "k < m" for k m
      using that by (induction xs arbitrary: m) auto
    then show ?thesis by simp
  qed
  show ?case
  proof (cases i)
    case 0
    with rest [of n] show ?thesis by simp
  next
    case (Suc k)
    with Cons.prems Cons.IH [of k "Suc n"] show ?thesis by simp
  qed
qed simp

lemma filter_enumerate_all:
  "length (filter (\<lambda>(j, x). int j \<noteq> -1 \<and> P x) (enumerate n xs)) = length (filter P xs)"
  by (induction xs arbitrary: n) auto

lemma active_authorizations_of_all:
  "active_authorizations_of as h now (-1) = active_scopes as now h"
  using filter_enumerate_all [of "\<lambda>a. au_TokenHash a = h \<and> authorizationActiveAt a now" 0 as]
  by (simp add: active_authorizations_of_def active_scopes_def)

lemma active_scopes_list_update:
  assumes "i < length as"
  shows "active_scopes (as[i := u]) now h = active_authorizations_of as h now (int i) +
    (if au_TokenHash u = h \<and> authorizationActiveAt u now then 1 else 0)"
  using filter_enumerate_exclude [OF assms,
      of "\<lambda>a. au_TokenHash a = h \<and> authorizationActiveAt a now" u 0]
  by (simp add: active_authorizations_of_def active_scopes_def)

lemma active_authorizations_of_le:
  "active_authorizations_of as h now k \<le> active_scopes as now h"
proof -
  have "length (filter (\<lambda>(i, a). int i \<noteq> k \<and> Q a) (enumerate n as)) \<le> length (filter Q as)" for Q n
    by (induction as arbitrary: n) (auto simp: le_SucI)
  then show ?thesis by (simp add: active_authorizations_of_def active_scopes_def)
qed

lemma active_authorizations_of_earlier:
  "now \<le> now' \<Longrightarrow> active_authorizations_of as h now' k \<le> active_authorizations_of as h now k"
  unfolding active_authorizations_of_def
  by (rule length_filter_mono) (auto dest: authorizationActiveAt_earlier)

lemma scope_limit_add:
  assumes inv: "scope_limit now st"
    and check: "checkActiveAuthorizationCapacityLocked st u now k = None"
    and count: "\<And>now' h. active_scopes (Authorizations st') now' h =
      active_authorizations_of (Authorizations st) h now' k +
      (if au_TokenHash u = h \<and> authorizationActiveAt u now' then 1 else 0)"
  shows "scope_limit now st'"
  unfolding scope_limit_def
proof (intro allI impI)
  fix now' h assume le: "now \<le> now'"
  show "active_scopes (Authorizations st') now' h \<le> maxActiveAuthorizationsPerToken"
  proof (cases "au_TokenHash u = h \<and> authorizationActiveAt u now'")
    case True
    with le have "authorizationActiveAt u now" by (auto dest: authorizationActiveAt_earlier)
    with check True have "active_authorizations_of (Authorizations st) h now k
        < maxActiveAuthorizationsPerToken"
      by (auto simp: checkActiveAuthorizationCapacityLocked_def split: if_splits)
    with active_authorizations_of_earlier [OF le, of "Authorizations st" h k] count True
    show ?thesis by simp
  next
    case False
    with count have "active_scopes (Authorizations st') now' h \<le> active_scopes (Authorizations st) now' h"
      using active_authorizations_of_le [of "Authorizations st" h now' k] by (simp only: if_False)
    also from inv le have "\<dots> \<le> maxActiveAuthorizationsPerToken" by (auto simp: scope_limit_def)
    finally show ?thesis .
  qed
qed

end
