(* ===== verification/Store_Contract.thy ===== *)
theory Store_Contract
  imports Store_Invariants
begin

text \<open>
  Every operation the daemon calls on the node store meets the contract \<open>store_operation\<close> for the
  invariant \<open>store_inv\<close>: no double booking, the per-holder key limit, the per-key authorization
  limit. One interpretation per operation.
\<close>

section \<open>Keeping the invariant\<close>

lemma store_inv_weaken:
  assumes "store_inv now st" "sorted_wrt apart (Reservations st')"
    and "\<And>now' h. active_tokens_of st' now' h \<le> active_tokens_of st now' h"
    and "\<And>now' h. active_scopes (Authorizations st') now' h \<le> active_scopes (Authorizations st) now' h"
    and "Audit st' = Audit st"
  shows "store_inv now st'"
  using assms holder_limit_mono [of now st st'] scope_limit_mono [of now st st']
  by (simp add: store_inv_def no_double_booking_def)

lemma store_inv_apart: "store_inv now st \<Longrightarrow> sorted_wrt apart (Reservations st)"
  by (simp add: store_inv_def no_double_booking_def)

lemma active_tokens_same [simp]:
  "Tokens st' = Tokens st \<Longrightarrow> active_tokens_of st' now h \<le> active_tokens_of st now h"
  by (simp add: active_tokens_of_def)

lemmas inv_pieces = sorted_wrt_filter apart_update_first apart_update_where
  active_scopes_filter active_scopes_update_where active_scopes_update_first

section \<open>Releases, claims, leases and bypass rules\<close>

lemma txn_ReleaseReservation:
  "sto_loaded s \<Longrightarrow> store_inv now (sto_state s) \<Longrightarrow>
     txn_step (store_inv now) env s (fst (ReleaseReservation env ident s))"
  by (auto simp: ReleaseReservation_def Let_def store_inv_apart
      intro!: txn_save store_inv_weaken [of _ "sto_state s"] inv_pieces)

lemma txn_ReleaseAuthorization:
  "sto_loaded s \<Longrightarrow> store_inv now (sto_state s) \<Longrightarrow>
     txn_step (store_inv now) env s (fst (ReleaseAuthorization env ident s))"
  by (auto simp: ReleaseAuthorization_def Let_def store_inv_apart
      intro!: txn_save store_inv_weaken [of _ "sto_state s"] inv_pieces)

lemma txn_ReleaseScopes:
  "sto_loaded s \<Longrightarrow> store_inv now (sto_state s) \<Longrightarrow>
     txn_step (store_inv now) env s (fst (ReleaseScopes env rs as ls s))"
  by (auto simp: ReleaseScopes_def Let_def store_inv_apart
      intro!: txn_save store_inv_weaken [of _ "sto_state s"] inv_pieces)

lemma txn_AddLease:
  "sto_loaded s \<Longrightarrow> store_inv now (sto_state s) \<Longrightarrow>
     txn_step (store_inv now) env s (fst (AddLease env l s))"
  by (auto simp: AddLease_def Let_def store_inv_apart intro!: txn_save store_inv_weaken [of _ "sto_state s"])

lemma txn_UpdateLease:
  "sto_loaded s \<Longrightarrow> store_inv now (sto_state s) \<Longrightarrow>
     txn_step (store_inv now) env s (fst (UpdateLease env l s))"
  by (auto simp: UpdateLease_def Let_def store_inv_apart intro!: txn_save store_inv_weaken [of _ "sto_state s"])

lemma txn_ReleaseLease:
  "sto_loaded s \<Longrightarrow> store_inv now (sto_state s) \<Longrightarrow>
     txn_step (store_inv now) env s (fst (ReleaseLease env ident s))"
  by (auto simp: ReleaseLease_def Let_def store_inv_apart intro!: txn_save store_inv_weaken [of _ "sto_state s"])

lemma txn_AddBypass:
  "sto_loaded s \<Longrightarrow> store_inv now (sto_state s) \<Longrightarrow>
     txn_step (store_inv now) env s (fst (AddBypass env b s))"
  by (auto simp: AddBypass_def Let_def store_inv_apart split: option.split
      intro!: txn_save store_inv_weaken [of _ "sto_state s"])

lemma txn_ReleaseSoftClaim:
  "sto_loaded s \<Longrightarrow> store_inv now (sto_state s) \<Longrightarrow>
     txn_step (store_inv now) env s (fst (ReleaseSoftClaim env ident s))"
  by (auto simp: ReleaseSoftClaim_def Let_def store_inv_apart intro!: txn_save store_inv_weaken [of _ "sto_state s"])

lemma txn_UpsertSoftClaim:
  "sto_loaded s \<Longrightarrow> store_inv now (sto_state s) \<Longrightarrow>
     txn_step (store_inv now) env s (fst (UpsertSoftClaim env c t s))"
  by (auto simp: UpsertSoftClaim_def randomHex_def Let_def store_inv_apart split: if_split
      intro!: txn_save store_inv_weaken [of _ "sto_state s"])

lemma txn_ActivateAuthorization:
  "sto_loaded s \<Longrightarrow> store_inv now (sto_state s) \<Longrightarrow>
     txn_step (store_inv now) env s (fst (ActivateAuthorization env ident pid s))"
  by (auto simp: ActivateAuthorization_def Let_def store_inv_apart split: option.split
      intro!: txn_save store_inv_weaken [of _ "sto_state s"] inv_pieces)

section \<open>Pruning\<close>

lemma txn_PruneInactiveManagedScopes:
  "sto_loaded s \<Longrightarrow> store_inv now (sto_state s) \<Longrightarrow>
     txn_step (store_inv now) env s (fst (PruneInactiveManagedScopes env as ls s))"
  by (auto simp: PruneInactiveManagedScopes_def Let_def store_inv_apart
      intro!: txn_save store_inv_weaken [of _ "sto_state s"] inv_pieces)

lemma txn_PruneUnreferencedInvalidEntitlements:
  "sto_loaded s \<Longrightarrow> store_inv now (sto_state s) \<Longrightarrow>
     txn_step (store_inv now) env s (fst (PruneUnreferencedInvalidEntitlements env t s))"
  by (auto simp: PruneUnreferencedInvalidEntitlements_def Let_def store_inv_apart
      intro!: txn_save store_inv_weaken [of _ "sto_state s"] inv_pieces active_tokens_filter)

lemma pruneExpiredLocked_unchanged:
  "pruneExpiredLocked st now = (st', False) \<Longrightarrow> st' = st"
  by (auto simp: pruneExpiredLocked_def Let_def filter_id_conv)

lemma pruneExpiredLocked_inv:
  assumes "store_inv now st"
  shows "store_inv now (fst (pruneExpiredLocked st t))"
  unfolding pruneExpiredLocked_def Let_def fst_conv
proof (rule store_inv_weaken [OF assms], goal_cases)
  case 1
  show ?case by (simp add: sorted_wrt_filter store_inv_apart [OF assms])
next
  case (2 now' h)
  show ?case by (rule active_tokens_filter [where P = "\<lambda>x. \<not> prune_token st t x"]) simp
next
  case (3 now' h)
  show ?case by (simp add: active_scopes_filter)
qed simp

lemma txn_Prune:
  assumes "sto_loaded s" "store_inv now (sto_state s)"
  shows "txn_step (store_inv now) env s (fst (Prune env t s))"
proof (cases "pruneExpiredLocked (sto_state s) t")
  case (Pair st changed)
  show ?thesis
  proof (cases changed)
    case True
    with Pair assms pruneExpiredLocked_inv [OF assms(2), of t] show ?thesis
      by (simp add: Prune_def txn_save)
  next
    case False
    with Pair have "st = sto_state s" by (simp add: pruneExpiredLocked_unchanged)
    with False Pair assms(1) show ?thesis by (simp add: Prune_def)
  qed
qed

section \<open>Revocation\<close>

lemma revoke_tokens_list_all2:
  "revoke_tokens ident h ts = (h', c, ts') \<Longrightarrow>
     list_all2 (\<lambda>t t'. t' = t \<or> t' = t\<lparr>tk_Revoked := True\<rparr>) ts ts'"
  by (induction ident h ts arbitrary: h' c ts' rule: revoke_tokens.induct)
    (auto split: prod.splits if_splits)

lemma length_filter_list_all2:
  "list_all2 (\<lambda>x y. P y \<longrightarrow> Q x) xs ys \<Longrightarrow> length (filter P ys) \<le> length (filter Q xs)"
  by (induction rule: list_all2_induct) auto

lemma active_tokens_revoke:
  assumes "revoke_tokens ident h (Tokens st) = (h', c, Tokens st')"
  shows "active_tokens_of st' now k \<le> active_tokens_of st now k"
  unfolding active_tokens_of_def
  by (rule length_filter_list_all2, rule list_all2_mono [OF revoke_tokens_list_all2 [OF assms]])
    (auto simp: tokenActiveAt_def)

lemma revoke_managed_group_inv:
  "store_inv now st \<Longrightarrow> store_inv now (fst (revoke_managed_group st grp))"
  unfolding revoke_managed_group_def Let_def fst_conv
  by (rule store_inv_weaken) (auto simp: store_inv_apart intro!: apart_update_where)

lemma revoke_entitlement_inv:
  assumes "store_inv now st"
  shows "store_inv now (fst (revoke_entitlement env st ident))"
proof -
  obtain h c ts where r: "revoke_tokens ident (revoke_hash env st ident) (Tokens st) = (h, c, ts)"
    by (metis prod_cases3)
  show ?thesis
    unfolding revoke_entitlement_def Let_def r prod.case fst_conv
  proof (rule store_inv_weaken [OF assms], goal_cases)
    case 1
    show ?case by (simp add: apart_update_where store_inv_apart [OF assms])
  next
    case (2 now' k)
    show ?case
      by (rule active_tokens_revoke [where ident = ident and h = "revoke_hash env st ident"
            and h' = h and c = c]) (simp add: r)
  next
    case (3 now' k)
    show ?case by (simp, rule active_scopes_update_where) simp_all
  qed simp
qed

lemma txn_Revoke:
  assumes "sto_loaded s" "store_inv now (sto_state s)"
  shows "txn_step (store_inv now) env s (fst (Revoke env arg s))"
  using revoke_managed_group_inv [OF assms(2)] revoke_entitlement_inv [OF assms(2)]
  by (simp add: Revoke_def Let_def assms(1) case_prod_beta txn_save)

section \<open>Registration\<close>

lemma same_data_newToken: "newToken env mode name e now s = (t, r) \<Longrightarrow> same_data s t"
  by (auto simp: newToken_def randomHex_def Let_def)

lemma store_inv_append_token:
  assumes "store_inv now st" "checkTokenCapacityLocked st t now = None"
  shows "store_inv now (st\<lparr>Tokens := Tokens st @ [t]\<rparr>)"
  using assms holder_limit_append [of now st t]
  by (simp add: store_inv_def no_double_booking_def scope_limit_def)

lemma txn_append_token:
  assumes "sto_loaded s" "store_inv now (sto_state s)"
  shows "txn_step (store_inv now) env s (fst (append_token env secret t now s))"
  using assms by (auto simp: append_token_def split: option.split intro!: txn_save store_inv_append_token)

lemma txn_new_append_token:
  assumes "sto_loaded s" "store_inv now (sto_state s)" "same_data s s1"
  shows "txn_step (store_inv now) env s1
    (fst (case newToken env mode name e now s1 of (s2, secret, t) \<Rightarrow> append_token env secret t now s2))"
proof (cases "newToken env mode name e now s1")
  case (fields s2 secret t)
  then have "same_data s1 s2" by (rule same_data_newToken)
  with assms fields show ?thesis
    by (auto intro!: txn_same [of s1 s2] txn_append_token simp: same_dataD)
qed

lemma txn_RegisterSoftToken:
  assumes "sto_loaded s" "store_inv now (sto_state s)"
  shows "txn_step (store_inv now) env s (fst (RegisterSoftToken env k name now s))"
  unfolding RegisterSoftToken_def by (intro txn_with_root txn_new_append_token [OF assms])

lemma txn_RegisterToken:
  assumes "sto_loaded s" "store_inv now (sto_state s)"
  shows "txn_step (store_inv now) env s (fst (RegisterToken env k name ttl now s))"
  unfolding RegisterToken_def
  by (cases "ParseTTL env ttl DefaultTokenTTL MaxTokenTTL")
    (auto intro!: txn_with_root txn_new_append_token [OF assms])

subsection \<open>New reservations are apart\<close>

lemma gpu_list_error_distinct:
  "gpu_list_error seen gpus = None \<Longrightarrow> distinct gpus \<and> set gpus \<inter> set seen = {}"
  by (induction seen gpus rule: gpu_list_error.induct) (auto split: if_splits)

lemma managed_gpu_error_distinct:
  "managed_gpu_error seen gpus = None \<Longrightarrow> distinct gpus \<and> set gpus \<inter> set seen = {}"
  by (induction seen gpus rule: managed_gpu_error.induct) (auto split: if_splits option.splits)

lemma draw_reservations_shape:
  "draw_reservations env build gpus s = (t, rs) \<Longrightarrow>
     same_data s t \<and> list_all2 (\<lambda>g r. \<exists>i. r = build i g) gpus rs"
proof (induction gpus arbitrary: s t rs)
  case (Cons g gpus)
  then show ?case
    by (auto simp: randomHex_def split: prod.splits dest!: Cons.IH)
qed simp

lemma overlap_error_None:
  "overlap_error existing gpus startsAt expiresAt = None \<longleftrightarrow>
     (\<forall>r \<in> set existing. rs_GPU r \<in> set gpus \<longrightarrow> \<not> ReservationOverlaps r startsAt expiresAt)"
  unfolding overlap_error_def first_error_None_iff by (fastforce split: if_splits)

lemma apart_append_fresh:
  assumes "sorted_wrt apart rs" "distinct gpus"
    and "overlap_error rs gpus startsAt expiresAt = None"
    and "list_all2 (\<lambda>g r. \<exists>i. r = build i g) gpus fresh"
    and "\<And>i g. rs_GPU (build i g) = g" "\<And>i g. ReservationStartsAt (build i g) = startsAt"
      "\<And>i g. rs_ExpiresAt (build i g) = expiresAt"
  shows "sorted_wrt apart (rs @ fresh)"
proof -
  have gpus: "map rs_GPU fresh = gpus"
    using assms(4) by (induction rule: list_all2_induct) (auto simp: assms(5))
  have win: "ReservationStartsAt r = startsAt \<and> rs_ExpiresAt r = expiresAt" if "r \<in> set fresh" for r
    using assms(4) that by (induction rule: list_all2_induct) (auto simp: assms(6,7))
  have "sorted_wrt (\<lambda>r q. rs_GPU r \<noteq> rs_GPU q) fresh"
    using assms(2) by (simp add: distinct_map gpus [symmetric] sorted_wrt_map
        distinct_conv_nth sorted_wrt_iff_nth_less)
  then have "sorted_wrt apart fresh"
    by (rule sorted_wrt_mono_rel [rotated]) (auto simp: windows_conflict_def)
  moreover have "apart q r" if "q \<in> set rs" "r \<in> set fresh" for q r
  proof (rule not_overlaps_not_conflict)
    assume "rs_GPU q = rs_GPU r"
    with that gpus have "rs_GPU q \<in> set gpus" by (metis image_eqI set_map)
    with assms(3) that win [OF that(2)]
    show "\<not> ReservationOverlaps q (ReservationStartsAt r) (rs_ExpiresAt r)"
      by (simp add: overlap_error_None)
  qed
  ultimately show ?thesis using assms(1) by (simp add: sorted_wrt_append)
qed

lemma store_inv_append_reservations:
  assumes "store_inv now st" "sorted_wrt apart (Reservations st @ fresh)"
  shows "store_inv now (st\<lparr>Reservations := Reservations st @ fresh\<rparr>)"
  using assms by (auto intro!: store_inv_weaken [OF assms(1)])

lemma starts_scheduled:
  assumes "startsAt = (if time_IsZero startsAt0 then now else startsAt0)"
  shows "ReservationStartsAt (scheduled_reservation session purpose startsAt expiresAt now t i g) = startsAt"
    "ReservationStartsAt (managed_reservation grp session purpose startsAt expiresAt now t i g) = startsAt"
  using assms
  by (auto simp: scheduled_reservation_def managed_reservation_def ReservationStartsAt_def time_IsZero_def)

lemma txn_scheduled_locked:
  assumes "store_inv now (sto_state s)" "distinct gpus"
    and "startsAt = (if time_IsZero startsAt0 then now else startsAt0)"
    and "list_all2 (\<lambda>g r. \<exists>i. r = scheduled_reservation sess purpose startsAt expiresAt now tok i g) gpus rs"
  shows "txn_step (store_inv now) env s
    (fst (scheduled_locked env name purpose session gpus startsAt expiresAt now secret tok rs s))"
proof -
  have "store_inv now ((sto_state s)\<lparr>Tokens := Tokens (sto_state s) @ [tok],
      Reservations := Reservations (sto_state s) @ rs\<rparr>)"
    if "checkTokenCapacityLocked (sto_state s) tok now = None"
      "overlap_error (Reservations (sto_state s)) gpus startsAt expiresAt = None"
  proof -
    have "sorted_wrt apart (Reservations (sto_state s) @ rs)"
      by (rule apart_append_fresh [OF store_inv_apart [OF assms(1)] assms(2) that(2) assms(4)])
        (simp_all add: starts_scheduled(1) [OF assms(3)], simp_all add: scheduled_reservation_def)
    with store_inv_append_reservations [OF store_inv_append_token [OF assms(1) that(1)], of rs]
    show ?thesis by simp
  qed
  then show ?thesis
    by (auto simp: scheduled_locked_def Let_def split: option.split intro!: txn_save)
qed

lemma txn_RegisterScheduledReservationsWithSession:
  assumes "sto_loaded s" "store_inv now (sto_state s)"
  shows "txn_step (store_inv now) env s
    (fst (RegisterScheduledReservationsWithSession env k name purpose session gpus startsAt0 expiresAt now s))"
proof -
  define starts where "starts = (if time_IsZero startsAt0 then now else startsAt0)"
  have body: "txn_step (store_inv now) env s1
      (fst (case newToken env TokenModeReserved name expiresAt now s1 of (s, secret, token) \<Rightarrow>
        case draw_reservations env (scheduled_reservation session purpose starts expiresAt now token) gpus s of
          (s, rs) \<Rightarrow> with_loaded env s (scheduled_locked env name purpose (TrimSpace session) gpus
            starts expiresAt now secret token rs)))"
    if "gpu_list_error [] gpus = None" "same_data s s1" for s1
  proof -
    obtain s2 secret tok where n: "newToken env TokenModeReserved name expiresAt now s1 = (s2, secret, tok)"
      by (metis prod_cases3)
    obtain s3 rs where d:
      "draw_reservations env (scheduled_reservation session purpose starts expiresAt now tok) gpus s2 = (s3, rs)"
      by fastforce
    from same_data_newToken [OF n] draw_reservations_shape [OF d] that(2)
    have same: "same_data s1 s3" and s: "same_data s s3"
      by (blast intro: same_data_trans)+
    show ?thesis
      unfolding n d prod.case
      by (rule txn_same [OF same])
        (use assms s draw_reservations_shape [OF d] gpu_list_error_distinct [OF that(1)] in
          \<open>auto simp: same_dataD intro!: txn_scheduled_locked starts_def\<close>)
  qed
  show ?thesis
    unfolding RegisterScheduledReservationsWithSession_def Let_def
      starts_def [symmetric]
    by (auto split: option.split intro!: txn_with_root body)
qed

lemma txn_managed_locked:
  assumes "sto_loaded s" "store_inv now (sto_state s)" "distinct gpus"
    and "startsAt = (if time_IsZero startsAt0 then now else startsAt0)"
  shows "txn_step (store_inv now) env s
    (fst (managed_locked env userKeyID purpose session gpus startsAt expiresAt now s))"
proof -
  have fresh: "store_inv now ((sto_state s)\<lparr>Reservations := Reservations (sto_state s) @ rs\<rparr>) \<and> same_data s s2"
    if "overlap_error (Reservations (sto_state s)) gpus startsAt expiresAt = None"
      "draw_reservations env (managed_reservation grp session purpose startsAt expiresAt now tok) gpus
        (s\<lparr>sto_draws := n\<rparr>) = (s2, rs)" for grp tok n s2 rs
  proof -
    from draw_reservations_shape [OF that(2)] have same: "same_data s s2" and
      l: "list_all2 (\<lambda>g r. \<exists>i. r = managed_reservation grp session purpose startsAt expiresAt now tok i g) gpus rs"
      by auto
    have "sorted_wrt apart (Reservations (sto_state s) @ rs)"
      by (rule apart_append_fresh [OF store_inv_apart [OF assms(2)] assms(3) that(1) l])
        (simp_all add: starts_scheduled(2) [OF assms(4)], simp_all add: managed_reservation_def)
    with store_inv_append_reservations [OF assms(2), of rs] same show ?thesis by simp
  qed
  show ?thesis
    by (auto simp: managed_locked_def randomHex_def Let_def split: option.split prod.split
        intro!: txn_save dest: fresh)
qed

lemma txn_RegisterManagedReservations:
  assumes "sto_loaded s" "store_inv now (sto_state s)"
  shows "txn_step (store_inv now) env s
    (fst (RegisterManagedReservations env k userKeyID purpose session gpus startsAt0 expiresAt now s))"
  unfolding RegisterManagedReservations_def Let_def
  using assms
  by (auto split: option.split intro!: txn_with_root txn_managed_locked
      dest: managed_gpu_error_distinct simp: same_dataD)

section \<open>Authorizations\<close>

lemma store_inv_scopes:
  assumes "store_inv now st" "scope_limit now (st\<lparr>Authorizations := as\<rparr>)"
  shows "store_inv now (st\<lparr>Authorizations := as\<rparr>)"
  using assms by (simp add: store_inv_def no_double_booking_def holder_limit_def active_tokens_of_def)

lemma store_inv_scope_limit: "store_inv now st \<Longrightarrow> scope_limit now st"
  by (simp add: store_inv_def)

lemma txn_AddAuthorization:
  assumes "sto_loaded s" "store_inv (env_clock env) (sto_state s)"
  shows "txn_step (store_inv (env_clock env)) env s (fst (AddAuthorization env a s))"
proof -
  have "scope_limit (env_clock env) ((sto_state s)\<lparr>Authorizations := Authorizations (sto_state s) @ [a]\<rparr>)"
    if "checkActiveAuthorizationCapacityLocked (sto_state s) a (env_clock env) (-1) = None"
    by (rule scope_limit_add [OF store_inv_scope_limit [OF assms(2)] that])
      (simp add: active_authorizations_of_all, simp add: active_scopes_def)
  note scopes = store_inv_scopes [OF assms(2) this]
  show ?thesis
    using assms(1)
    by (simp add: AddAuthorization_def Let_def split: option.split)
      (intro conjI impI allI txn_save scopes same_data_refl)
qed

lemma index_of_less: "index_of P xs = Some i \<Longrightarrow> i < length xs \<and> P (xs ! i)"
  by (induction xs arbitrary: i) (auto split: if_splits)

lemma txn_UpdateAuthorization:
  assumes "sto_loaded s" "store_inv (env_clock env) (sto_state s)"
  shows "txn_step (store_inv (env_clock env)) env s (fst (UpdateAuthorization env a s))"
proof -
  have "scope_limit (env_clock env) ((sto_state s)\<lparr>Authorizations := (Authorizations (sto_state s))[i := a]\<rparr>)"
    if "checkActiveAuthorizationCapacityLocked (sto_state s) a (env_clock env) (int i) = None"
      "index_of (\<lambda>b. au_ID b = au_ID a) (Authorizations (sto_state s)) = Some i" for i
    by (rule scope_limit_add [OF store_inv_scope_limit [OF assms(2)] that(1)])
      (simp add: active_scopes_list_update index_of_less [OF that(2)])
  note scopes = store_inv_scopes [OF assms(2) this]
  show ?thesis
    using assms(1)
    by (simp add: UpdateAuthorization_def Let_def split: option.split)
      (intro conjI impI allI txn_save scopes same_data_refl)
qed

section \<open>Managed keys\<close>

lemma normalizeHolder_idem [simp]: "normalizeHolder (normalizeHolder h) = normalizeHolder h"
proof (cases "ToLower (TrimSpace h) = []")
  case True
  have "normalizeHolder ''anonymous'' = ''anonymous''" by code_simp
  with True show ?thesis by (simp add: normalizeHolder_def)
next
  case False
  then show ?thesis by (simp add: normalizeHolder_def Let_def TrimSpace_ToLower)
qed

definition managed_ok :: "Token list \<Rightarrow> bool" where
  "managed_ok ts \<longleftrightarrow> distinct (map tk_ID ts) \<and> distinct (map tk_Hash ts) \<and> distinct (map tk_Name ts) \<and>
     list_all (\<lambda>t. tk_ID t \<noteq> [] \<and> length (tk_Hash t) = 64 \<and> 1 \<le> tk_Version t \<and> tk_Managed t \<and>
       tk_Mode t = TokenModeManaged \<and> \<not> tk_Revoked t \<and> tk_ExpiresAt t = 0 \<and> tk_Secret t = [] \<and>
       normalizeHolder (tk_Name t) = tk_Name t) ts"

lemma managed_tokens_ok:
  "managed_tokens now acc keys = Inr ts \<Longrightarrow> managed_ok acc \<Longrightarrow> managed_ok ts"
proof (induction keys arbitrary: acc)
  case (Cons k ks)
  then show ?case by (auto simp: Let_def managed_ok_def split: if_splits)
qed simp

lemma distinct_map_filter_le_1:
  "distinct (map f xs) \<Longrightarrow> length (filter (\<lambda>x. P x \<and> f x = h) xs) \<le> 1"
proof (induction xs)
  case (Cons x xs)
  have "filter (\<lambda>y. P y \<and> f y = f x) xs = []"
    using Cons.prems by (auto simp: filter_empty_conv intro: rev_image_eqI)
  with Cons show ?case by auto
qed simp

lemma holder_limit_managed:
  assumes "managed_ok ts" "Tokens st = ts"
  shows "holder_limit now st"
proof -
  have "active_tokens_of st now' h \<le> 1" for now' h
  proof -
    have "filter (\<lambda>t. tokenActiveAt t now' \<and> normalizeHolder (tk_Name t) = h) ts =
        filter (\<lambda>t. tokenActiveAt t now' \<and> tk_Name t = h) ts"
      using assms(1) by (intro filter_cong) (auto simp: managed_ok_def list_all_iff)
    with assms distinct_map_filter_le_1 [of tk_Name ts "\<lambda>t. tokenActiveAt t now'" h] show ?thesis
      by (simp add: active_tokens_of_def managed_ok_def)
  qed
  then show ?thesis by (auto simp: holder_limit_def intro: le_trans [of _ "Suc 0"])
qed

lemma relink_reservations_shape:
  "relink_reservations env old managed rs s = (t, rs') \<Longrightarrow>
     same_data s t \<and> list_all2 (\<lambda>r r'. weaker r' r) rs rs'"
proof (induction rs arbitrary: s t rs')
  case (Cons r rs)
  then show ?case
    by (auto simp: randomHex_def split: prod.splits if_splits option.splits dest!: Cons.IH)
qed simp

lemma store_inv_relinked:
  assumes "store_inv now st" "managed_ok ts" "list_all2 (\<lambda>r r'. weaker r' r) (Reservations st) rs"
    and "Reservations st' = rs" "Tokens st' = ts" "Authorizations st' = Authorizations st"
      "Audit st' = Audit st"
  shows "store_inv now st'"
  using assms(1,4-) apart_list_all2 [OF store_inv_apart [OF assms(1)] assms(3)]
    holder_limit_managed [OF assms(2,5)]
  by (simp add: store_inv_def no_double_booking_def scope_limit_def)

lemma store_inv_authority [simp]:
  "store_inv now (st\<lparr>ManagedKeyAuthority := a\<rparr>) = store_inv now st"
  by (simp add: store_inv_def no_double_booking_def holder_limit_def scope_limit_def active_tokens_of_def)

lemma txn_sync_locked:
  assumes "store_inv now (sto_state s)" "managed_ok ts"
  shows "txn_step (store_inv now) env s (fst (sync_locked env k a ts s))"
proof -
  let ?full = "\<lambda>st rs. st\<lparr>Reservations := rs, Tokens := ts, ManagedKeys := True, KeySnapshotID := k\<rparr>"
  have relinked: "txn_step (store_inv now) env s (fst (case relink_reservations env (Tokens st1) ts
      (Reservations st1) s of (s, rs) \<Rightarrow> save_and_return env (put_state s (?full st1 rs)) r))"
    if "store_inv now st1" for st1 and r :: ManagedUserKeySyncResult
  proof -
    obtain s2 rs where l: "relink_reservations env (Tokens st1) ts (Reservations st1) s = (s2, rs)"
      by fastforce
    from relink_reservations_shape [OF l] show ?thesis
      by (auto simp: l intro!: txn_save store_inv_relinked [OF that assms(2), of rs])
  qed
  show ?thesis
    unfolding sync_locked_def Let_def
    using assms(1)
    by (simp add: relinked txn_save) (use relinked [of "(sto_state s)\<lparr>ManagedKeyAuthority := a\<rparr>"] in simp)
qed

lemma txn_SyncManagedUserKeys:
  assumes "sto_loaded s" "store_inv now (sto_state s)"
  shows "txn_step (store_inv now) env s (fst (SyncManagedUserKeys env k snapshot t s))"
  unfolding SyncManagedUserKeys_def Let_def using assms
  by (auto split: option.split sum.split intro!: txn_with_root txn_sync_locked
      dest!: managed_tokens_ok simp: same_dataD managed_ok_def)

end
