(* ===== verification/Store_Machine.thy ===== *)
theory Store_Machine
  imports Store_Contract
begin

text \<open>
  The node store as a state machine. Each operation of \<open>internal/store/store.go\<close> is shown to meet
  the contract of the locale \<open>audited_operation\<close>; the relation \<open>store_step\<close> is one operation with
  any arguments and any behaviour of the operating system, \<open>store_reach\<close> any sequence of them
  with a clock that does not run backwards, restarts of the process included. The invariant of
  reachable stores follows by rule induction.

  \<open>AddReservation\<close> is left out: it stores the reservation it is given without an overlap check,
  and nothing but tests calls it.
\<close>

section \<open>The operations meet the contract\<close>

lemma store_inv_audit: "store_inv now st \<Longrightarrow> Audit st = []"
  by (simp add: store_inv_def)

interpretation soft: audited_operation "\<lambda>env. RegisterSoftToken env k name now" "\<lambda>_. store_inv now"
  for k name now by unfold_locales (erule (1) txn_RegisterSoftToken, erule store_inv_audit)

interpretation ttl: audited_operation "\<lambda>env. RegisterToken env k name ttlText now" "\<lambda>_. store_inv now"
  for k name ttlText now by unfold_locales (erule (1) txn_RegisterToken, erule store_inv_audit)

interpretation scheduled: audited_operation
  "\<lambda>env. RegisterScheduledReservationsWithSession env k name purpose sess gpus startsAt expiresAt now"
  "\<lambda>_. store_inv now"
  for k name purpose sess gpus startsAt expiresAt now
  by unfold_locales (erule (1) txn_RegisterScheduledReservationsWithSession, erule store_inv_audit)

interpretation managed: audited_operation
  "\<lambda>env. RegisterManagedReservations env k ident purpose sess gpus startsAt expiresAt now"
  "\<lambda>_. store_inv now"
  for k ident purpose sess gpus startsAt expiresAt now
  by unfold_locales (erule (1) txn_RegisterManagedReservations, erule store_inv_audit)

interpretation sync: audited_operation "\<lambda>env. SyncManagedUserKeys env k snapshot t" "\<lambda>_. store_inv now"
  for k snapshot t now by unfold_locales (erule (1) txn_SyncManagedUserKeys, erule store_inv_audit)

interpretation add: audited_operation "\<lambda>env. AddAuthorization env a" "\<lambda>env. store_inv (env_clock env)"
  for a by unfold_locales (erule (1) txn_AddAuthorization, erule store_inv_audit)

interpretation update: audited_operation "\<lambda>env. UpdateAuthorization env a" "\<lambda>env. store_inv (env_clock env)"
  for a by unfold_locales (erule (1) txn_UpdateAuthorization, erule store_inv_audit)

interpretation activate: audited_operation "\<lambda>env. ActivateAuthorization env ident pid" "\<lambda>_. store_inv now"
  for ident pid now by unfold_locales (erule (1) txn_ActivateAuthorization, erule store_inv_audit)

interpretation release: audited_operation "\<lambda>env. ReleaseAuthorization env ident" "\<lambda>_. store_inv now"
  for ident now by unfold_locales (erule (1) txn_ReleaseAuthorization, erule store_inv_audit)

interpretation scopes: audited_operation "\<lambda>env. ReleaseScopes env rs as ls" "\<lambda>_. store_inv now"
  for rs as ls now by unfold_locales (erule (1) txn_ReleaseScopes, erule store_inv_audit)

interpretation upsert: audited_operation "\<lambda>env. UpsertSoftClaim env c t" "\<lambda>_. store_inv now"
  for c t now by unfold_locales (erule (1) txn_UpsertSoftClaim, erule store_inv_audit)

interpretation unclaim: audited_operation "\<lambda>env. ReleaseSoftClaim env ident" "\<lambda>_. store_inv now"
  for ident now by unfold_locales (erule (1) txn_ReleaseSoftClaim, erule store_inv_audit)

interpretation bypass: audited_operation "\<lambda>env. AddBypass env rule" "\<lambda>_. store_inv now"
  for rule now by unfold_locales (erule (1) txn_AddBypass, erule store_inv_audit)

interpretation revoke: audited_operation "\<lambda>env. Revoke env arg" "\<lambda>_. store_inv now"
  for arg now by unfold_locales (erule (1) txn_Revoke, erule store_inv_audit)

interpretation prune: audited_operation "\<lambda>env. Prune env t" "\<lambda>_. store_inv now"
  for t now by unfold_locales (erule (1) txn_Prune, erule store_inv_audit)

interpretation finished: audited_operation "\<lambda>env. PruneInactiveManagedScopes env as ls" "\<lambda>_. store_inv now"
  for as ls now by unfold_locales (erule (1) txn_PruneInactiveManagedScopes, erule store_inv_audit)

interpretation unreferenced: audited_operation
  "\<lambda>env. PruneUnreferencedInvalidEntitlements env t" "\<lambda>_. store_inv now"
  for t now
  by unfold_locales (erule (1) txn_PruneUnreferencedInvalidEntitlements, erule store_inv_audit)

interpretation unreserve: audited_operation "\<lambda>env. ReleaseReservation env ident" "\<lambda>_. store_inv now"
  for ident now by unfold_locales (erule (1) txn_ReleaseReservation, erule store_inv_audit)

interpretation lease: audited_operation "\<lambda>env. AddLease env l" "\<lambda>_. store_inv now"
  for l now by unfold_locales (erule (1) txn_AddLease, erule store_inv_audit)

interpretation relet: audited_operation "\<lambda>env. UpdateLease env l" "\<lambda>_. store_inv now"
  for l now by unfold_locales (erule (1) txn_UpdateLease, erule store_inv_audit)

interpretation unlease: audited_operation "\<lambda>env. ReleaseLease env ident" "\<lambda>_. store_inv now"
  for ident now by unfold_locales (erule (1) txn_ReleaseLease, erule store_inv_audit)

section \<open>Steps and reachable stores\<close>

text \<open>
  \<open>store_op env\<close> is one operation, with any arguments, under the behaviour \<open>env\<close> of the operating
  system and of the JSON codec; \<open>store_step\<close> leaves that behaviour open.
\<close>

inductive store_op :: "StoreEnv \<Rightarrow> time \<Rightarrow> Store \<Rightarrow> Store \<Rightarrow> bool" for env now where
  op_soft: "store_op env now s (fst (RegisterSoftToken env k name now s))"
| op_ttl: "store_op env now s (fst (RegisterToken env k name ttlText now s))"
| op_scheduled: "store_op env now s (fst (RegisterScheduledReservationsWithSession env k name purpose
    sess gpus startsAt expiresAt now s))"
| op_managed: "store_op env now s (fst (RegisterManagedReservations env k ident purpose
    sess gpus startsAt expiresAt now s))"
| op_sync: "store_op env now s (fst (SyncManagedUserKeys env k snapshot now s))"
| op_add: "env_clock env = now \<Longrightarrow> store_op env now s (fst (AddAuthorization env a s))"
| op_update: "env_clock env = now \<Longrightarrow> store_op env now s (fst (UpdateAuthorization env a s))"
| op_activate: "store_op env now s (fst (ActivateAuthorization env ident pid s))"
| op_release: "store_op env now s (fst (ReleaseAuthorization env ident s))"
| op_scopes: "store_op env now s (fst (ReleaseScopes env rs as ls s))"
| op_upsert: "store_op env now s (fst (UpsertSoftClaim env c now s))"
| op_unclaim: "store_op env now s (fst (ReleaseSoftClaim env ident s))"
| op_bypass: "store_op env now s (fst (AddBypass env rule s))"
| op_revoke: "store_op env now s (fst (Revoke env arg s))"
| op_prune: "store_op env now s (fst (Prune env now s))"
| op_finished: "store_op env now s (fst (PruneInactiveManagedScopes env as ls s))"
| op_unreferenced: "store_op env now s (fst (PruneUnreferencedInvalidEntitlements env now s))"
| op_unreserve: "store_op env now s (fst (ReleaseReservation env ident s))"
| op_lease: "store_op env now s (fst (AddLease env l s))"
| op_relet: "store_op env now s (fst (UpdateLease env l s))"
| op_unlease: "store_op env now s (fst (ReleaseLease env ident s))"

inductive_cases store_opE: "store_op env now s t"

definition store_step :: "time \<Rightarrow> Store \<Rightarrow> Store \<Rightarrow> bool" where
  "store_step now s t \<longleftrightarrow> (\<exists>env. store_op env now s t)"

lemma store_stepI: "store_op env now s t \<Longrightarrow> store_step now s t"
  by (auto simp: store_step_def)

text \<open>
  The JSON decoder, given what the state file holds, returns the state that was committed. It is
  needed for a restart only; \<open>store_run\<close> below derives it from the law of the codec.
\<close>

definition decodes :: "StoreEnv \<Rightarrow> Store \<Rightarrow> bool" where
  "decodes env s \<longleftrightarrow> (case sto_file s of None \<Rightarrow> True
     | Some f \<Rightarrow> TrimSpace (sf_data f) \<noteq> [] \<and>
         env_Unmarshal env (sf_data f) empty_State = (sto_committed s, None))"

text \<open>Opening an existing file succeeds, and reading an open file never reports that it is missing.\<close>

definition opens :: "StoreEnv \<Rightarrow> bool" where
  "opens env \<longleftrightarrow> env_openErr env = None \<and> env_readErr env \<noteq> Some ErrNotExist"

inductive store_reach :: "time \<Rightarrow> Store \<Rightarrow> bool" where
  start: "opens env \<Longrightarrow> Load env (New_store None keyfile) = (s, Inr ()) \<Longrightarrow> store_reach now s"
| step: "store_reach now s \<Longrightarrow> now \<le> now' \<Longrightarrow> store_step now' s t \<Longrightarrow> store_reach now' t"
| restart: "store_reach now s \<Longrightarrow> now \<le> now' \<Longrightarrow> opens env \<Longrightarrow> decodes env s \<Longrightarrow>
    Load env (New_store (sto_file s) keyfile) = (t, Inr ()) \<Longrightarrow> store_reach now' t"

lemma store_op_in_order:
  assumes "store_op env now s t" "in_order (store_inv now) s"
  shows "in_order (store_inv now) t"
  using assms
  by (elim store_opE)
    (auto intro: soft.op_in_order ttl.op_in_order scheduled.op_in_order managed.op_in_order
      sync.op_in_order add.op_in_order update.op_in_order activate.op_in_order release.op_in_order
      scopes.op_in_order upsert.op_in_order unclaim.op_in_order bypass.op_in_order
      revoke.op_in_order prune.op_in_order finished.op_in_order unreferenced.op_in_order
      unreserve.op_in_order lease.op_in_order relet.op_in_order unlease.op_in_order)

lemma store_step_in_order:
  "store_step now s t \<Longrightarrow> in_order (store_inv now) s \<Longrightarrow> in_order (store_inv now) t"
  by (auto simp: store_step_def intro: store_op_in_order)

lemma store_op_written:
  assumes "store_op env now s t" "in_order (store_inv now) s" "written (env_Marshal env) s"
  shows "written (env_Marshal env) t"
  using assms
  by (elim store_opE)
    (auto intro: soft.op_written ttl.op_written scheduled.op_written managed.op_written
      sync.op_written add.op_written update.op_written activate.op_written release.op_written
      scopes.op_written upsert.op_written unclaim.op_written bypass.op_written
      revoke.op_written prune.op_written finished.op_written unreferenced.op_written
      unreserve.op_written lease.op_written relet.op_written unlease.op_written)

text \<open>What a fresh process sees after loading: the committed state, without audit copies.\<close>

lemma Load_fresh:
  assumes "opens env" "Load env (New_store file keyfile) = (t, Inr ())"
  shows "sto_loaded t \<and> coherent t \<and> sto_file t = file \<and>
    sto_state t = (case file of None \<Rightarrow> empty_State
      | Some f \<Rightarrow> (if TrimSpace (sf_data f) = [] then empty_State
          else fst (env_Unmarshal env (sf_data f) empty_State))\<lparr>Audit := []\<rparr>)"
  using assms
  by (auto simp: Load_def with_loaded_def loadLocked_def readStateFile_def New_store_def coherent_def
      empty_State_def Let_def validateStateBounds_None opens_def
      split: option.splits sum.splits if_splits prod.splits store_error.splits)

lemma in_order_later: "in_order (store_inv now) s \<Longrightarrow> now \<le> now' \<Longrightarrow> in_order (store_inv now') s"
  by (auto simp: in_order_def dest: store_inv_later)

lemma restart_in_order:
  assumes "in_order (store_inv now) s" "opens env" "decodes env s"
    "Load env (New_store (sto_file s) keyfile) = (t, Inr ())"
  shows "in_order (store_inv now) t \<and> sto_state t = sto_state s"
proof -
  have audit: "(sto_committed s)\<lparr>Audit := []\<rparr> = sto_committed s"
    using assms(1) by (auto simp: in_order_def coherent_def)
  have "sto_state t = sto_state s"
    using Load_fresh [OF assms(2,4)] assms(1,3) audit
    by (auto simp: decodes_def in_order_def backed_def coherent_def split: option.splits)
  with Load_fresh [OF assms(2,4)] assms(1) show ?thesis
    by (auto simp: in_order_def backed_def coherent_def split: option.splits)
qed

lemma store_reach_in_order: "store_reach now s \<Longrightarrow> in_order (store_inv now) s"
proof (induction rule: store_reach.induct)
  case (start env keyfile s now)
  from Load_fresh [OF start] show ?case
    by (auto simp: in_order_def store_inv_empty backed_def coherent_def)
next
  case (step now s now' t)
  then show ?case by (blast intro: store_step_in_order in_order_later)
next
  case (restart now s now' env keyfile t)
  then show ?case by (blast dest: restart_in_order in_order_later)
qed

section \<open>Runs with one codec\<close>

text \<open>
  What encoding/json promises of a state it can represent: the text is not blank, and decoding the
  file made from it gives the state back. \<open>store_run m\<close> is a history in which every process writes
  with the encoder \<open>m\<close> and a restarted one reads with a decoder that inverts \<open>m\<close> on the state stored.
\<close>

definition inverts :: "(string \<Rightarrow> State \<Rightarrow> State \<times> store_error option) \<Rightarrow> (State \<Rightarrow> store_error + string) \<Rightarrow>
    State \<Rightarrow> bool" where
  "inverts u m st \<longleftrightarrow> (\<forall>data. m st = Inr data \<longrightarrow>
     TrimSpace (data @ newline) \<noteq> [] \<and> u (data @ newline) empty_State = (st, None))"

inductive store_run :: "(State \<Rightarrow> store_error + string) \<Rightarrow> time \<Rightarrow> Store \<Rightarrow> bool" for m where
  boot: "opens env \<Longrightarrow> Load env (New_store None keyfile) = (s, Inr ()) \<Longrightarrow> store_run m now s"
| called: "store_run m now s \<Longrightarrow> now \<le> now' \<Longrightarrow> env_Marshal env = m \<Longrightarrow> store_op env now' s t \<Longrightarrow>
    store_run m now' t"
| rebooted: "store_run m now s \<Longrightarrow> now \<le> now' \<Longrightarrow> opens env \<Longrightarrow>
    inverts (env_Unmarshal env) m (sto_state s) \<Longrightarrow>
    Load env (New_store (sto_file s) keyfile) = (t, Inr ()) \<Longrightarrow> store_run m now' t"

lemma written_decodes:
  assumes "in_order good s" "written m s" "inverts (env_Unmarshal env) m (sto_state s)"
  shows "decodes env s"
  using assms by (auto simp: decodes_def written_def inverts_def in_order_def coherent_def split: option.splits)

lemma store_run_written: "store_run m now s \<Longrightarrow> store_reach now s \<and> written m s"
proof (induction rule: store_run.induct)
  case (boot env keyfile s now)
  with Load_fresh [OF boot] show ?case
    by (auto simp: written_def intro: store_reach.start)
next
  case (called now s now' env t)
  then have "in_order (store_inv now') s" by (blast dest: store_reach_in_order in_order_later)
  with called store_op_written [of env now' s t] show ?case
    by (auto intro: store_reach.step store_stepI)
next
  case (rebooted now s now' env keyfile t)
  then have ord: "in_order (store_inv now) s" by (blast dest: store_reach_in_order)
  with rebooted have dec: "decodes env s" by (blast intro: written_decodes)
  from restart_in_order [OF ord rebooted(3) dec rebooted(5)] Load_fresh [OF rebooted(3,5)] rebooted dec
  show ?case by (auto simp: written_def intro: store_reach.restart split: option.splits)
qed

end
