(* ===== verification/Store_Theorems.thy ===== *)
theory Store_Theorems
  imports Store_Machine
begin

text \<open>
  What the node store guarantees: the invariant of every reachable store, the atomicity of a save,
  what survives a restart, and the exclusivity of reservations. The last section holds the
  concrete environment on which the properties are instantiated.
\<close>

section \<open>A concrete environment\<close>

text \<open>
  No system call fails; the hash is the text itself padded to 32 bytes, the random source returns
  the number of the draw, and the codec knows two states: the empty one and any other.
\<close>

definition example_sha256 :: "string \<Rightarrow> string" where
  "example_sha256 s = take 32 (s @ replicate 32 CHR 0x00)"

definition example_rand :: "nat \<Rightarrow> nat \<Rightarrow> string" where
  "example_rand k n = replicate n (char_of k)"

definition example_env :: StoreEnv where
  "example_env = \<lparr>env_sha256 = example_sha256,
     env_ParseDuration = (\<lambda>s. if s = ''1h'' then Inr hour else Inl (ErrMsg ''invalid duration'')),
     env_Marshal = (\<lambda>st. Inr ''{}''), env_Unmarshal = (\<lambda>data st. (empty_State, None)),
     env_rand = example_rand, env_clock = 1000,
     env_openErr = None, env_readErr = None, env_mkdirErr = None, env_createErr = None,
     env_chmodErr = None, env_writeErr = None, env_fsyncErr = None, env_closeErr = None,
     env_renameErr = None, env_syncDirErr = None, env_keyOpenErr = None, env_keyReadErr = None,
     env_keyMkdirErr = None, env_linkErr = None, env_removeErr = None, env_keySyncErr = None,
     env_keyResyncErr = None, env_rivalKeyFile = None\<rparr>"

text \<open>The root key a fresh node draws from \<open>example_rand\<close>.\<close>

definition example_root_key :: string where
  "example_root_key = ''rk_'' @ replicate 64 CHR ''0''"

definition example_store :: Store where
  "example_store = fst (Load example_env (New_store None None))"

definition example_booked :: Store where
  "example_booked = fst (RegisterScheduledReservationsWithSession example_env example_root_key
     ''alice'' ''training'' ''session-1'' [0, 1] 2000 3000 1000 example_store)"

text \<open>The booked store as a value, so that evaluations need not book again.\<close>

definition alice_hash :: string where
  "alice_hash = ''676b5f3031303130313031303130313031303130313031303130313031303130''"

definition alice_token :: Token where
  "alice_token = \<lparr>tk_ID = ''tok_0202020202020202'', tk_Hash = alice_hash,
     tk_Secret = ''gk_010101010101010101010101010101010101010101010101'', tk_Name = ''alice'', tk_Mode = TokenModeReserved,
     tk_Version = 0, tk_Managed = False, tk_CreatedAt = 1000, tk_ExpiresAt = 3000, tk_Revoked = False\<rparr>"

definition alice_reservation :: "string \<Rightarrow> int \<Rightarrow> Reservation" where
  "alice_reservation ident gpu = \<lparr>rs_ID = ident, rs_GroupID = [], rs_ExternalSessionID = ''session-1'', rs_GPU = gpu,
     rs_TokenHash = alice_hash, rs_Holder = ''alice'', rs_Purpose = ''training'', rs_CreatedAt = 1000, rs_StartsAt = 2000,
     rs_ExpiresAt = 3000, rs_Active = True, rs_Revoked = False\<rparr>"

definition booked_state :: State where
  "booked_state = empty_State\<lparr>Tokens := [alice_token],
     Reservations := [alice_reservation ''res_0303030303030303'' 0, alice_reservation ''res_0404040404040404'' 1]\<rparr>"

definition key_line :: string where
  "key_line = ''rk_0000000000000000000000000000000000000000000000000000000000000000'' @ [char_of (10 :: nat)]"

lemma example_booked_eval [code]:
  "example_booked = \<lparr>sto_state = booked_state, sto_committed = booked_state, sto_loaded = True,
     sto_file = Some \<lparr>sf_data = ''{}'' @ [char_of (10 :: nat)], sf_regular = True, sf_perm = 384\<rparr>,
     sto_rootKeyFile = Some \<lparr>sf_data = key_line, sf_regular = True, sf_perm = 384\<rparr>, sto_draws = 5\<rparr>"
  by code_simp

lemma example_store_reach: "store_reach 1000 example_store"
  by (rule store_reach.start [of example_env None])
    (simp_all add: opens_def example_env_def example_store_def Load_def with_loaded_def loadLocked_def
      readStateFile_def New_store_def)

lemma example_booked_reach: "store_reach 1000 example_booked"
  unfolding example_booked_def
  by (rule store_reach.step [OF example_store_reach order_refl]) (rule store_stepI, rule op_scheduled)

lemma example_booked_rows:
  "map rs_GPU (Reservations (sto_state example_booked)) = [0, 1]"
  "map rs_StartsAt (Reservations (sto_state example_booked)) = [2000, 2000]"
  "map rs_ExpiresAt (Reservations (sto_state example_booked)) = [3000, 3000]"
  by code_simp+

section \<open>Reachable stores\<close>

text \<open>
  no GPU is ever booked twice. In every store that any sequence of operations and restarts can
  produce, two different reservations of one GPU are never active at the same instant.
\<close>

theorem reachable_no_double_booking:
  assumes "store_reach now s" "i < j" "j < length (Reservations (sto_state s))"
    and "rs_GPU (Reservations (sto_state s) ! i) = rs_GPU (Reservations (sto_state s) ! j)"
  shows "\<not> (ReservationActiveAt (Reservations (sto_state s) ! i) t \<and>
             ReservationActiveAt (Reservations (sto_state s) ! j) t)"
proof -
  from store_reach_in_order [OF assms(1)]
  have "sorted_wrt apart (Reservations (sto_state s))"
    by (simp add: in_order_def store_inv_def no_double_booking_def)
  with assms(2,3) have "apart (Reservations (sto_state s) ! i) (Reservations (sto_state s) ! j)"
    by (auto simp: sorted_wrt_iff_nth_less)
  with assms(4) show ?thesis by (auto simp: windows_conflict_iff)
qed

theorem reachable_no_double_booking_witness:
  "rs_GPU (Reservations (sto_state example_booked) ! 0) = 0 \<and>
   \<not> (ReservationActiveAt (Reservations (sto_state
         (fst (RegisterScheduledReservationsWithSession example_env example_root_key ''bob'' [] [] [0]
           3000 4000 1000 example_booked))) ! 0) 2500 \<and>
      ReservationActiveAt (Reservations (sto_state
         (fst (RegisterScheduledReservationsWithSession example_env example_root_key ''bob'' [] [] [0]
           3000 4000 1000 example_booked))) ! 2) 2500)"
proof
  let ?s = "fst (RegisterScheduledReservationsWithSession example_env example_root_key ''bob'' [] [] [0]
    3000 4000 1000 example_booked)"
  show "rs_GPU (Reservations (sto_state example_booked) ! 0) = 0" by code_simp
  have "map rs_GPU (Reservations (sto_state ?s)) = [0, 1, 0]" by code_simp
  then have gpus: "length (Reservations (sto_state ?s)) = 3"
    "rs_GPU (Reservations (sto_state ?s) ! 0) = rs_GPU (Reservations (sto_state ?s) ! 2)"
    by (auto simp: map_eq_Cons_conv)
  have "store_reach 1000 ?s"
    by (rule store_reach.step [OF example_booked_reach order_refl]) (rule store_stepI, rule op_scheduled)
  from reachable_no_double_booking [OF this, of 0 2 2500] gpus
  show "\<not> (ReservationActiveAt (Reservations (sto_state ?s) ! 0) 2500 \<and>
    ReservationActiveAt (Reservations (sto_state ?s) ! 2) 2500)" by simp
qed

text \<open>
  C6: the limits hold at all times. In every reachable store a holder has at most eight valid
  keys, a key at most 64 active authorizations, now and at every later instant, and all rows are
  within the persistence bounds, so the next save cannot fail for being out of bounds.
\<close>

theorem reachable_limits:
  assumes "store_reach now s" "now \<le> now'"
  shows "active_tokens_of (sto_state s) now' h \<le> maxActiveTokensPerHolder \<and>
    active_scopes (Authorizations (sto_state s)) now' h' \<le> maxActiveAuthorizationsPerToken \<and>
    validateStateBounds (sto_state s) = None \<and> sto_state s = sto_committed s"
  using store_reach_in_order [OF assms(1)] assms(2)
  by (auto simp: in_order_def store_inv_def holder_limit_def scope_limit_def coherent_def)

theorem reachable_limits_witness:
  "active_tokens_of (sto_state example_booked) 1500 ''alice'' \<le> 8 \<and>
   validateStateBounds (sto_state example_booked) = None"
  using reachable_limits [OF example_booked_reach, of 1500 "''alice''"] by force

section \<open>Saving and restarting\<close>

text \<open>
  C5: a save is all or nothing. Either the state file and the committed copy keep the old state,
  memory is rolled back to it and the error is reported, or file, committed copy and memory all
  hold the new state, which is within the bounds; then the only error that can be reported is that
  of the directory sync that follows the rename.
\<close>

theorem saveLocked_atomic:
  "case saveLocked env s of (t, err) \<Rightarrow>
     sto_state t = sto_committed t \<and>
     ((err \<noteq> None \<and> sto_file t = sto_file s \<and> sto_committed t = sto_committed s) \<or>
      (\<exists>data. env_Marshal env (sto_state s) = Inr data \<and> err = env_syncDirErr env \<and>
         sto_file t = Some \<lparr>sf_data = data @ newline, sf_regular = True, sf_perm = mode0600\<rparr> \<and>
         sto_state t = sto_state s \<and> validateStateBounds (sto_state t) = None))"
  using saveLocked_cases [of env s] by (auto simp: committed_store_def)

text \<open>
  C13: a restart recovers the state. Take any history of a store whose processes write with one JSON
  encoder: a fresh process that opens the state file loads without error and sees exactly the
  state the old process had in memory, provided the file is within the read limit and the decoder
  inverts the encoder on that state, as encoding/json documents.
\<close>

theorem restart_recovers:
  assumes "store_run m now s" "opens env" "env_readErr env = None"
    and "inverts (env_Unmarshal env) m (sto_state s)"
    and "\<forall>f. sto_file s = Some f \<longrightarrow> length (sf_data f) \<le> maxStateFileBytes"
  shows "\<exists>t. Load env (New_store (sto_file s) keyfile) = (t, Inr ()) \<and> sto_state t = sto_state s \<and>
    store_run m now t"
proof -
  from store_run_written [OF assms(1)] have reach: "store_reach now s" and fw: "written m s" by simp_all
  from store_reach_in_order [OF reach] have s: "coherent s" "sto_loaded s" "backed s"
    by (simp_all add: in_order_def)
  from written_decodes [OF store_reach_in_order [OF reach] fw assms(4)] have dec: "decodes env s" .
  have "\<exists>t. Load env (New_store (sto_file s) keyfile) = (t, Inr ())"
    using s dec assms(2,3,5)
    by (auto simp: Load_def with_loaded_def loadLocked_def readStateFile_def New_store_def opens_def
        backed_def decodes_def coherent_def group_other_access_def mode0600_def Let_def
        split: option.split)
  then obtain t where t: "Load env (New_store (sto_file s) keyfile) = (t, Inr ())" by blast
  with restart_in_order [OF store_reach_in_order [OF reach] assms(2) dec t]
    store_run.rebooted [OF assms(1) order_refl assms(2,4) t] show ?thesis by blast
qed

text \<open>
  An encoder with a text of its own for the booked state, and the decoder of that text.
\<close>

definition example_codec_env :: StoreEnv where
  "example_codec_env = example_env\<lparr>
     env_Marshal := (\<lambda>st. Inr (if Tokens st = [] then ''{}'' else ''{tokens}'')),
     env_Unmarshal := (\<lambda>data st. if data = ''{tokens}'' @ newline then (booked_state, None)
       else (st, if data = ''{}'' @ newline then None else Some (ErrMsg ''syntax'')))\<rparr>"

definition example_saved :: Store where
  "example_saved = fst (RegisterScheduledReservationsWithSession example_codec_env example_root_key
     ''alice'' ''training'' ''session-1'' [0, 1] 2000 3000 1000 example_store)"

theorem restart_recovers_witness:
  "\<exists>t. Load example_codec_env (New_store (sto_file example_saved) None) = (t, Inr ()) \<and>
     sto_state t = booked_state \<and> map rs_GPU (Reservations (sto_state t)) = [0, 1]"
proof -
  have saved: "sto_state example_saved = booked_state"
    and disk: "map_option sf_data (sto_file example_saved) = Some (''{tokens}'' @ newline)"
    by code_simp+
  have "store_run (env_Marshal example_codec_env) 1000 example_store"
    by (rule store_run.boot [of example_env None])
      (simp_all add: opens_def example_env_def example_store_def Load_def with_loaded_def loadLocked_def
        readStateFile_def New_store_def)
  then have "store_run (env_Marshal example_codec_env) 1000 example_saved"
    unfolding example_saved_def
    by (rule store_run.called [OF _ order_refl refl op_scheduled])
  moreover have "opens example_codec_env" "env_readErr example_codec_env = None"
    by (simp_all add: opens_def example_codec_env_def example_env_def)
  moreover have "inverts (env_Unmarshal example_codec_env) (env_Marshal example_codec_env) booked_state"
    unfolding inverts_def by (auto simp: example_codec_env_def booked_state_def, code_simp+)
  moreover have "\<forall>f. sto_file example_saved = Some f \<longrightarrow> length (sf_data f) \<le> maxStateFileBytes"
    using disk by (auto simp: newline_def)
  ultimately obtain t where "Load example_codec_env (New_store (sto_file example_saved) None) = (t, Inr ())"
    "sto_state t = booked_state"
    using restart_recovers [of "env_Marshal example_codec_env" 1000 example_saved example_codec_env None]
    by (auto simp: saved)
  moreover have "map rs_GPU (Reservations booked_state) = [0, 1]" by code_simp
  ultimately show ?thesis by auto
qed

text \<open>
  the largest state a save accepts cannot be read back. The limit is checked before the
  trailing newline is added, so a state whose encoding has exactly the maximal length is saved
  without error and every later load of the file fails.
\<close>

theorem maximal_save_unreadable:
  assumes "saveLocked env s = (t, None)" "env_Marshal env (sto_state s) = Inr data"
    and "length data = maxStateFileBytes" "opens env'" "env_readErr env' = None"
  shows "snd (Load env' (New_store (sto_file t) keyfile)) = Inl ErrStateTooLarge"
proof -
  from saveLocked_cases [of env s] assms(1,2)
  have "sto_file t = Some \<lparr>sf_data = data @ newline, sf_regular = True, sf_perm = mode0600\<rparr>"
    by (auto simp: committed_store_def)
  with assms(3-) show ?thesis
    by (simp add: Load_def with_loaded_def loadLocked_def readStateFile_def New_store_def opens_def
        group_other_access_def mode0600_def newline_def)
qed

definition example_huge_env :: StoreEnv where
  "example_huge_env = example_env\<lparr>env_Marshal := (\<lambda>st. Inr (replicate maxStateFileBytes CHR ''x''))\<rparr>"

theorem maximal_save_unreadable_witness:
  "snd (saveLocked example_huge_env example_store) = None \<and>
   snd (Load example_env (New_store (sto_file (fst (saveLocked example_huge_env example_store))) None))
     = Inl ErrStateTooLarge"
proof -
  have "validateStateBounds (sto_state example_store) = None" by code_simp
  then have save: "\<exists>t. saveLocked example_huge_env example_store = (t, None)"
    by (simp add: saveLocked_def writeFileAtomically_def writeSyncedTempFile_def example_huge_env_def
        example_env_def)
  then obtain t where t: "saveLocked example_huge_env example_store = (t, None)" by blast
  have "env_Marshal example_huge_env st = Inr (replicate maxStateFileBytes CHR ''x'')" for st
    by (simp add: example_huge_env_def)
  from maximal_save_unreadable [OF t this length_replicate, of example_env None] t show ?thesis
    by (simp add: opens_def example_env_def)
qed

end
