(* ===== verification/Store_Keys.thy ===== *)
theory Store_Keys
  imports Store_Theorems
begin

text \<open>
  Keys of the node store: a registered key validates until it expires or is revoked, revocation
  reaches everything the key owns, a booking session can be replayed, and the root key survives.
\<close>

section \<open>Secrets are not changed by trimming\<close>

definition plain_char :: "char \<Rightarrow> bool" where
  "plain_char c \<longleftrightarrow> 33 \<le> (of_char c :: nat) \<and> (of_char c :: nat) < 128"

lemma plain_no_space:
  assumes "list_all plain_char s" "is_space_seq p"
  shows "\<not> prefix p s" "\<not> suffix p s"
proof -
  have "\<exists>c \<in> set p. \<not> plain_char c"
    using assms(2) by (auto simp: is_space_seq_def plain_char_def split: list.splits)
  with assms(1) show "\<not> prefix p s" "\<not> suffix p s"
    by (auto simp: list_all_iff prefix_def suffix_def)
qed

lemma TrimSpace_plain: "list_all plain_char s \<Longrightarrow> TrimSpace s = s"
  by (rule TrimSpace_fixed) (auto simp: space_prefix_len_0 space_suffix_len_rev dest: plain_no_space)

lemma hex_digit_plain: "n < 16 \<Longrightarrow> plain_char (hex_digit n)"
  by (auto simp: plain_char_def hex_digit_def)

lemma hex_EncodeToString_plain: "list_all plain_char (hex_EncodeToString bs)"
proof (induction bs)
  case (Cons b bs)
  have "(of_char b :: nat) < 256" by (rule nat_of_char_less_256)
  then have "plain_char (hex_digit (of_char b div 16))" "plain_char (hex_digit (of_char b mod 16))"
    by (simp_all add: hex_digit_plain less_mult_imp_div_less)
  with Cons show ?case by (simp add: hex_EncodeToString_def Let_def)
qed (simp add: hex_EncodeToString_def)

lemma TrimSpace_secret: "TrimSpace (''gk_'' @ hex_EncodeToString bs) = ''gk_'' @ hex_EncodeToString bs"
  by (rule TrimSpace_plain) (simp add: hex_EncodeToString_plain, simp add: plain_char_def)

lemma TrimSpace_root_key: "TrimSpace (''rk_'' @ hex_EncodeToString bs) = ''rk_'' @ hex_EncodeToString bs"
  by (rule TrimSpace_plain) (simp add: hex_EncodeToString_plain, simp add: plain_char_def)

section \<open>What a successful registration has done\<close>

lemma save_and_return_Inr:
  assumes "save_and_return env s r = (t, Inr r')"
  shows "r' = r \<and> sto_state t = sto_state s \<and> sto_loaded t = sto_loaded s"
  using assms saveLocked_cases [of env s]
  by (auto simp: save_and_return_def committed_store_def split: prod.splits option.splits)

lemma with_root_Inr:
  assumes "with_root env k s body = (t, Inr r)"
  obtains s1 where "ValidateRootKey env k s = (s1, Inr True)" "same_data s s1" "body s1 = (t, Inr r)"
  using assms
  by (auto simp: with_root_def split: prod.splits sum.splits if_splits dest: same_data_ValidateRootKey)

lemma newToken_fields:
  assumes "newToken env mode name e now s = (s1, secret, tok)"
  shows "same_data s s1" "TrimSpace secret = secret" "secret \<noteq> []" "tk_Secret tok = secret"
    "tk_Hash tok = HashToken env secret" "tk_Mode tok = NormalizeTokenMode mode" "\<not> tk_Revoked tok"
    "tk_ExpiresAt tok = e" "tk_ID tok \<noteq> []" "prefix ''gk_'' secret"
    "tk_Name tok = (if TrimSpace name = [] then ''anonymous'' else TrimSpace name)"
  using assms
  by (auto simp: newToken_def randomHex_def Let_def time_IsZero_def TrimSpace_secret
      simp del: append_Cons append_Nil)

lemma append_token_Inr:
  assumes "append_token env secret tok now s = (t, Inr (secret', tok'))" "sto_loaded s"
  shows "secret' = secret \<and> tok' = tok \<and> sto_loaded t \<and>
    sto_state t = (sto_state s)\<lparr>Tokens := Tokens (sto_state s) @ [tok]\<rparr>"
  using assms by (auto simp: append_token_def split: option.splits dest!: save_and_return_Inr)

lemma RegisterSoftToken_Inr:
  assumes "RegisterSoftToken env k name now s = (t, Inr (secret, tok))" "sto_loaded s"
  shows "sto_loaded t \<and> sto_state t = (sto_state s)\<lparr>Tokens := Tokens (sto_state s) @ [tok]\<rparr> \<and>
    (\<exists>s1 s2. newToken env TokenModeClaimed name 0 now s1 = (s2, secret, tok))"
proof -
  from assms(1) obtain s1 where root: "same_data s s1" and
    body: "(case newToken env TokenModeClaimed name 0 now s1 of
      (s2, secret, tok) \<Rightarrow> append_token env secret tok now s2) = (t, Inr (secret, tok))"
    by (auto simp: RegisterSoftToken_def elim!: with_root_Inr)
  obtain s2 sec tk where n: "newToken env TokenModeClaimed name 0 now s1 = (s2, sec, tk)"
    by (metis prod_cases3)
  have same: "same_data s s2" by (rule same_data_trans [OF root newToken_fields(1) [OF n]])
  with assms(2) body append_token_Inr [of env sec tk now s2 t secret tok] n show ?thesis
    by (auto simp: same_dataD)
qed

lemma NormalizeTokenMode_modes [simp]:
  "NormalizeTokenMode ''claimed'' = ''claimed''" "NormalizeTokenMode ''reserved'' = ''reserved''"
  "NormalizeTokenMode ''managed'' = ''managed''"
  by code_simp+

lemma ValidateToken_found:
  assumes "sto_loaded s" "find (\<lambda>t. tk_Hash t = HashToken env secret) (Tokens (sto_state s)) = Some t"
    and "TrimSpace secret = secret" "\<not> tk_Revoked t" "NormalizeTokenMode (tk_Mode t) = tk_Mode t"
  shows "ValidateToken env secret now s = (s, t, HashToken env secret,
    if tokenExpired t now then Some ErrTokenExpired else None)"
  using assms by (simp add: ValidateToken_def loadLocked_def tokenExpired_def Let_def)

lemma snd_not_isl: "\<not> isl (snd r) \<Longrightarrow> \<exists>t x. r = (t, Inr x)"
  by (cases r; cases "snd r") auto

text \<open>
  a claimed key works as soon as it is registered and does not expire. The secret returned
  by a successful registration validates, at every instant, as the token returned with it, unless
  an older key happens to have the same hash.
\<close>

theorem register_validate:
  assumes "RegisterSoftToken env k name now s = (t, Inr (secret, tok))" "sto_loaded s"
    and "\<forall>old \<in> set (Tokens (sto_state s)). tk_Hash old \<noteq> tk_Hash tok"
  shows "ValidateToken env secret now' t = (t, tok, tk_Hash tok, None)"
proof -
  from RegisterSoftToken_Inr [OF assms(1,2)] obtain s1 s2 where
    t: "sto_loaded t" "sto_state t = (sto_state s)\<lparr>Tokens := Tokens (sto_state s) @ [tok]\<rparr>"
    and n: "newToken env TokenModeClaimed name 0 now s1 = (s2, secret, tok)" by blast
  note tok = newToken_fields [OF n]
  have "find (\<lambda>x. tk_Hash x = tk_Hash tok) (Tokens (sto_state s)) = None"
    using assms(3) by (simp add: find_None_iff)
  with t(2) have "find (\<lambda>x. tk_Hash x = HashToken env secret) (Tokens (sto_state t)) = Some tok"
    by (simp add: find_append tok(5))
  from ValidateToken_found [OF t(1) this tok(2,7)] tok show ?thesis
    by (simp add: tokenExpired_def timeIsSet_def time_IsZero_def)
qed

theorem register_validate_witness:
  "\<exists>t secret tok. RegisterSoftToken example_env example_root_key ''alice'' 1000 example_store =
       (t, Inr (secret, tok)) \<and> ValidateToken example_env secret 99999 t = (t, tok, tk_Hash tok, None)"
proof -
  let ?r = "RegisterSoftToken example_env example_root_key ''alice'' 1000 example_store"
  have "\<not> isl (snd ?r)" by code_simp
  then obtain t secret tok where r: "?r = (t, Inr (secret, tok))" by (auto dest!: snd_not_isl)
  have "Tokens (sto_state example_store) = []" "sto_loaded example_store" by code_simp+
  with register_validate [OF r, of 99999] r show ?thesis by simp
qed

section \<open>Bookings\<close>

lemma draw_reservations_shape':
  assumes "draw_reservations env build gpus s = (t, rs)"
  shows "same_data s t" "list_all2 (\<lambda>g r. \<exists>i. r = build i g) gpus rs"
  using draw_reservations_shape [OF assms] by auto

lemma scheduled_locked_fresh:
  assumes "scheduled_locked env name purpose sess gpus startsAt expiresAt now secret tok rs s =
      (t, Inr (secret', tok', rs'))"
    and "\<forall>r \<in> set (Reservations (sto_state s)). sess = [] \<or> rs_ExternalSessionID r \<noteq> sess"
  shows "secret' = secret \<and> tok' = tok \<and> rs' = rs \<and> sto_loaded t = sto_loaded s \<and>
    sto_state t = (sto_state s)\<lparr>Tokens := Tokens (sto_state s) @ [tok],
      Reservations := Reservations (sto_state s) @ rs\<rparr>"
proof -
  have none: "sess = [] \<or> filter (\<lambda>r. rs_ExternalSessionID r = sess) (Reservations (sto_state s)) = []"
    using assms(2) by (auto simp: filter_empty_conv)
  with assms(1) show ?thesis
    by (auto simp: scheduled_locked_def Let_def split: option.splits if_splits dest!: save_and_return_Inr)
qed

lemma RegisterScheduled_fresh:
  assumes "RegisterScheduledReservationsWithSession env k name purpose sess gpus startsAt0 expiresAt now s =
      (t, Inr (secret, tok, rs))"
    and "sto_loaded s"
    and "\<forall>r \<in> set (Reservations (sto_state s)). TrimSpace sess = [] \<or> rs_ExternalSessionID r \<noteq> TrimSpace sess"
  obtains s1 s2 where "newToken env TokenModeReserved name expiresAt now s1 = (s2, secret, tok)"
    "list_all2 (\<lambda>g r. \<exists>i. r = scheduled_reservation sess purpose
       (if time_IsZero startsAt0 then now else startsAt0) expiresAt now tok i g) gpus rs"
    "sto_state t = (sto_state s)\<lparr>Tokens := Tokens (sto_state s) @ [tok],
       Reservations := Reservations (sto_state s) @ rs\<rparr>"
    "sto_loaded t" "gpus \<noteq> []" "distinct gpus"
    "(if time_IsZero startsAt0 then now else startsAt0) < expiresAt" "now < expiresAt"
    "time_Sub expiresAt (if time_IsZero startsAt0 then now else startsAt0) \<le> MaxHardTTL"
    "length gpus \<le> maxTotalReservations" "gpu_list_error [] gpus = None"
proof -
  let ?st = "if time_IsZero startsAt0 then now else startsAt0"
  let ?body = "\<lambda>s. case newToken env TokenModeReserved name expiresAt now s of (s, secret, token) \<Rightarrow>
    case draw_reservations env (scheduled_reservation sess purpose ?st expiresAt now token) gpus s of
      (s, reservations) \<Rightarrow> with_loaded env s (scheduled_locked env name purpose (TrimSpace sess) gpus
        ?st expiresAt now secret token reservations)"
  have pre: "?st < expiresAt" "now < expiresAt" "time_Sub expiresAt ?st \<le> MaxHardTTL" "gpus \<noteq> []"
    "checkTotalCapacity ''reservation'' 0 (length gpus) maxTotalReservations = None"
    "gpu_list_error [] gpus = None" "with_root env k s ?body = (t, Inr (secret, tok, rs))"
    using assms(1)
    by (auto simp: RegisterScheduledReservationsWithSession_def Let_def split: option.splits if_splits)
  obtain s1 where root: "same_data s s1" and body: "?body s1 = (t, Inr (secret, tok, rs))"
    using pre(7) by (rule with_root_Inr)
  obtain s2 sec tk where n: "newToken env TokenModeReserved name expiresAt now s1 = (s2, sec, tk)"
    by (metis prod_cases3)
  obtain s3 rs' where d: "draw_reservations env (scheduled_reservation sess purpose ?st expiresAt now tk)
      gpus s2 = (s3, rs')" by fastforce
  note draw = draw_reservations_shape' [OF d]
  have same: "same_data s s3"
    by (blast intro: same_data_trans root newToken_fields(1) [OF n] draw(1))
  have lock: "scheduled_locked env name purpose (TrimSpace sess) gpus ?st expiresAt now sec tk rs' s3 =
      (t, Inr (secret, tok, rs))"
    using body same assms(2) by (simp add: n d same_dataD)
  from scheduled_locked_fresh [OF this] assms(2,3) same
  have eqs: "secret = sec" "tok = tk" "rs = rs'" "sto_loaded t"
    "sto_state t = (sto_state s)\<lparr>Tokens := Tokens (sto_state s) @ [tk],
       Reservations := Reservations (sto_state s) @ rs'\<rparr>"
    by (auto simp: same_dataD)
  have len: "length gpus \<le> maxTotalReservations"
    using pre(5) by (auto simp: checkTotalCapacity_def split: if_splits)
  show ?thesis
    by (rule that) (use n draw(2) eqs pre len gpu_list_error_distinct [OF pre(6)] in auto)
qed

text \<open>
  what a booking is. A successful booking under a new session adds one key and, for each
  requested GPU in order, one active reservation of exactly the requested window, owned by that
  key; nothing else of the state changes, and the key validates until the window ends and is
  reported expired afterwards.
\<close>

theorem booking_result:
  assumes "RegisterScheduledReservationsWithSession env k name purpose sess gpus startsAt expiresAt now s =
      (t, Inr (secret, tok, rs))"
    and "sto_loaded s" "startsAt \<noteq> 0"
    and "\<forall>r \<in> set (Reservations (sto_state s)). TrimSpace sess = [] \<or> rs_ExternalSessionID r \<noteq> TrimSpace sess"
    and "\<forall>old \<in> set (Tokens (sto_state s)). tk_Hash old \<noteq> tk_Hash tok"
    and "expiresAt \<noteq> 0"
  shows "map rs_GPU rs = gpus \<and>
    (\<forall>r \<in> set rs. rs_TokenHash r = tk_Hash tok \<and>
       (\<forall>u. ReservationActiveAt r u \<longleftrightarrow> startsAt \<le> u \<and> u < expiresAt)) \<and>
    sto_state t = (sto_state s)\<lparr>Tokens := Tokens (sto_state s) @ [tok],
      Reservations := Reservations (sto_state s) @ rs\<rparr> \<and>
    ValidateToken env secret now' t =
      (t, tok, tk_Hash tok, if now' < expiresAt then None else Some ErrTokenExpired)"
proof -
  from assms(1,2,4) obtain s1 s2 where
    n: "newToken env TokenModeReserved name expiresAt now s1 = (s2, secret, tok)" and
    l: "list_all2 (\<lambda>g r. \<exists>i. r = scheduled_reservation sess purpose
       (if time_IsZero startsAt then now else startsAt) expiresAt now tok i g) gpus rs" and
    t: "sto_state t = (sto_state s)\<lparr>Tokens := Tokens (sto_state s) @ [tok],
       Reservations := Reservations (sto_state s) @ rs\<rparr>" "sto_loaded t"
    by (rule RegisterScheduled_fresh)
  note tok = newToken_fields [OF n]
  have "map rs_GPU rs = gpus"
    using l by (induction rule: list_all2_induct) (auto simp: scheduled_reservation_def)
  moreover have "rs_TokenHash r = tk_Hash tok \<and>
      (\<forall>u. ReservationActiveAt r u \<longleftrightarrow> startsAt \<le> u \<and> u < expiresAt)" if "r \<in> set rs" for r
    using l that assms(3)
    by (auto simp: list_all2_conv_all_nth in_set_conv_nth scheduled_reservation_def time_IsZero_def
        ReservationActiveAt_window ReservationStartsAt_def)
  moreover have "find (\<lambda>x. tk_Hash x = HashToken env secret) (Tokens (sto_state t)) = Some tok"
  proof -
    have "find (\<lambda>x. tk_Hash x = tk_Hash tok) (Tokens (sto_state s)) = None"
      using assms(5) by (simp add: find_None_iff)
    then show ?thesis by (simp add: t(1) find_append tok(5))
  qed
  from ValidateToken_found [OF t(2) this tok(2,7)] tok assms(6)
  have "ValidateToken env secret now' t =
      (t, tok, tk_Hash tok, if now' < expiresAt then None else Some ErrTokenExpired)"
    by (auto simp: tokenExpired_def timeIsSet_def time_IsZero_def)
  ultimately show ?thesis using t(1) by blast
qed

lemma example_booking:
  obtains secret tok rs where
    "RegisterScheduledReservationsWithSession example_env example_root_key ''alice'' ''training''
       ''session-1'' [0, 1] 2000 3000 1000 example_store = (example_booked, Inr (secret, tok, rs))"
proof -
  let ?r = "RegisterScheduledReservationsWithSession example_env example_root_key ''alice'' ''training''
    ''session-1'' [0, 1] 2000 3000 1000 example_store"
  have "\<not> isl (snd ?r)" by code_simp
  then obtain t secret tok rs where "?r = (t, Inr (secret, tok, rs))" by (auto dest!: snd_not_isl)
  then show ?thesis by (intro that [of secret tok rs]) (simp add: example_booked_def)
qed

lemma example_store_simps [simp]:
  "Reservations (sto_state example_store) = []" "Tokens (sto_state example_store) = []"
  "sto_loaded example_store" "sto_loaded example_booked"
  by code_simp+

theorem booking_result_witness:
  "\<exists>secret tok. ValidateToken example_env secret 2999 example_booked = (example_booked, tok, tk_Hash tok, None) \<and>
     map rs_GPU (Reservations (sto_state example_booked)) = [0, 1]"
proof -
  obtain secret tok rs where
    r: "RegisterScheduledReservationsWithSession example_env example_root_key ''alice'' ''training''
       ''session-1'' [0, 1] 2000 3000 1000 example_store = (example_booked, Inr (secret, tok, rs))"
    by (rule example_booking)
  from booking_result [OF r, of 2999] show ?thesis by auto
qed

lemma TrimSpace_anonymous: "TrimSpace ''anonymous'' = ''anonymous''"
  by code_simp

lemma sameReservationRequest_fresh:
  assumes "list_all2 (\<lambda>g r. \<exists>i. r = scheduled_reservation sess purpose startsAt expiresAt now tok i g) gpus rs"
    and "gpus \<noteq> []" "startsAt \<noteq> 0"
  shows "sameReservationRequest rs name purpose gpus startsAt expiresAt \<longleftrightarrow>
    EqualFold (TrimSpace (tk_Name tok)) (TrimSpace name)"
proof -
  have "length rs = length gpus" "rs \<noteq> []" using assms(1,2) by (auto dest: list_all2_lengthD)
  moreover have "\<exists>i g. g \<in> set gpus \<and> r = scheduled_reservation sess purpose startsAt expiresAt now tok i g"
    if "r \<in> set rs" for r
    using assms(1) that by (auto simp: list_all2_conv_all_nth in_set_conv_nth) metis
  then have "rs_GPU r \<in> set gpus \<and> rs_Holder r = tk_Name tok \<and> rs_Purpose r = TrimSpace purpose \<and>
      ReservationStartsAt r = startsAt \<and> rs_ExpiresAt r = expiresAt" if "r \<in> set rs" for r
    using that assms(3) by (force simp: scheduled_reservation_def ReservationStartsAt_def time_IsZero_def)
  ultimately show ?thesis
    by (cases rs) (auto simp: sameReservationRequest_def list_all_iff)
qed

lemma scheduled_session:
  assumes "list_all2 (\<lambda>g r. \<exists>i. r = scheduled_reservation sess purpose startsAt expiresAt now tok i g) gpus rs"
    and "r \<in> set rs"
  shows "rs_ExternalSessionID r = TrimSpace sess \<and> rs_TokenHash r = tk_Hash tok"
  using assms by (auto simp: list_all2_conv_all_nth in_set_conv_nth scheduled_reservation_def)

text \<open>The second request of a session meets the rows and the key of the first.\<close>

lemma scheduled_locked_replay:
  assumes st: "sto_state s = st\<lparr>Tokens := Tokens st @ [tok], Reservations := Reservations st @ rs\<rparr>"
    and shape: "list_all2 (\<lambda>g r. \<exists>i. r = scheduled_reservation sess purpose startsAt expiresAt now0 tok i g) gpus rs"
    and new: "\<forall>r \<in> set (Reservations st). rs_ExternalSessionID r \<noteq> TrimSpace sess"
      "\<forall>old \<in> set (Tokens st). tk_Hash old \<noteq> tk_Hash tok"
    and req: "gpus \<noteq> []" "startsAt \<noteq> 0" "TrimSpace sess \<noteq> []" "tk_ID tok \<noteq> []" "tk_Secret tok \<noteq> []"
  shows "scheduled_locked env name purpose (TrimSpace sess) gpus startsAt expiresAt now secret tok' rs' s =
    (if EqualFold (TrimSpace (tk_Name tok)) (TrimSpace name) then (s, Inr (tk_Secret tok, tok, rs))
     else fail_with s (ErrMsg ''external session id was already used for a different reservation''))"
proof -
  have "rs \<noteq> []" using shape req(1) by auto
  moreover have "filter (\<lambda>r. rs_ExternalSessionID r = TrimSpace sess) (Reservations (sto_state s)) = rs"
    using new(1) scheduled_session [OF shape] by (auto simp: st filter_empty_conv intro!: filter_True)
  moreover have "rs_TokenHash (hd rs) = tk_Hash tok"
    using scheduled_session [OF shape] \<open>rs \<noteq> []\<close> by simp
  moreover have "find (\<lambda>t. tk_Hash t = tk_Hash tok) (Tokens (sto_state s)) = Some tok"
  proof -
    have "find (\<lambda>t. tk_Hash t = tk_Hash tok) (Tokens st) = None" using new(2) by (simp add: find_None_iff)
    then show ?thesis by (simp add: st find_append)
  qed
  ultimately show ?thesis
    using req sameReservationRequest_fresh [OF shape req(1,2), of name]
    by (simp add: scheduled_locked_def Let_def)
qed

lemma RegisterScheduled_locked:
  assumes "ValidateRootKey env k s = (s1, Inr True)" "sto_loaded s"
    and "startsAt \<noteq> 0" "startsAt < expiresAt" "now < expiresAt" "time_Sub expiresAt startsAt \<le> MaxHardTTL"
      "gpus \<noteq> []" "length gpus \<le> maxTotalReservations" "gpu_list_error [] gpus = None"
  shows "\<exists>s3 secret tok rs. same_data s s3 \<and>
    RegisterScheduledReservationsWithSession env k name purpose sess gpus startsAt expiresAt now s =
      scheduled_locked env name purpose (TrimSpace sess) gpus startsAt expiresAt now secret tok rs s3"
proof -
  obtain s2 sec tk where n: "newToken env TokenModeReserved name expiresAt now s1 = (s2, sec, tk)"
    by (metis prod_cases3)
  obtain s3 rs where d: "draw_reservations env (scheduled_reservation sess purpose startsAt expiresAt now tk)
      gpus s2 = (s3, rs)" by fastforce
  have same: "same_data s s3"
    by (blast intro: same_data_trans same_data_ValidateRootKey [OF assms(1)] newToken_fields(1) [OF n]
        draw_reservations_shape' [OF d])
  have "RegisterScheduledReservationsWithSession env k name purpose sess gpus startsAt expiresAt now s =
      scheduled_locked env name purpose (TrimSpace sess) gpus startsAt expiresAt now sec tk rs s3"
    using assms same
    by (simp add: RegisterScheduledReservationsWithSession_def Let_def time_IsZero_def with_root_def n d
        checkTotalCapacity_def same_dataD)
  with same show ?thesis by blast
qed

lemma booking_again:
  assumes "RegisterScheduledReservationsWithSession env k name purpose sess gpus startsAt expiresAt now s =
      (t, Inr (secret, tok, rs))"
    and "sto_loaded s" "startsAt \<noteq> 0" "TrimSpace sess \<noteq> []"
    and "\<forall>r \<in> set (Reservations (sto_state s)). rs_ExternalSessionID r \<noteq> TrimSpace sess"
    and "\<forall>old \<in> set (Tokens (sto_state s)). tk_Hash old \<noteq> tk_Hash tok"
    and "snd (ValidateRootKey env' k t) = Inr True" "now' < expiresAt"
  shows "\<exists>u. same_data t u \<and>
    RegisterScheduledReservationsWithSession env' k name purpose sess gpus startsAt expiresAt now' t =
      (if TrimSpace name \<noteq> [] then (u, Inr (secret, tok, rs))
       else fail_with u (ErrMsg ''external session id was already used for a different reservation''))"
proof -
  have "\<forall>r \<in> set (Reservations (sto_state s)). TrimSpace sess = [] \<or> rs_ExternalSessionID r \<noteq> TrimSpace sess"
    using assms(5) by simp
  note fresh = RegisterScheduled_fresh [OF assms(1,2) this]
  have start: "(if time_IsZero startsAt then now else startsAt) = startsAt"
    using assms(3) by (simp add: time_IsZero_def)
  obtain s1 s2 where
    n: "newToken env TokenModeReserved name expiresAt now s1 = (s2, secret, tok)" and
    l: "list_all2 (\<lambda>g r. \<exists>i. r = scheduled_reservation sess purpose startsAt expiresAt now tok i g) gpus rs" and
    t: "sto_state t = (sto_state s)\<lparr>Tokens := Tokens (sto_state s) @ [tok],
       Reservations := Reservations (sto_state s) @ rs\<rparr>" "sto_loaded t" and
    pre: "gpus \<noteq> []" "startsAt < expiresAt" "time_Sub expiresAt startsAt \<le> MaxHardTTL"
      "length gpus \<le> maxTotalReservations" "gpu_list_error [] gpus = None"
    by (rule fresh [unfolded start])
  note tok = newToken_fields [OF n]
  obtain t1 where root: "ValidateRootKey env' k t = (t1, Inr True)" using assms(7) by (metis prod.collapse)
  obtain u sec' tok' rs' where same: "same_data t u" and
    eq: "RegisterScheduledReservationsWithSession env' k name purpose sess gpus startsAt expiresAt now' t =
      scheduled_locked env' name purpose (TrimSpace sess) gpus startsAt expiresAt now' sec' tok' rs' u"
    using RegisterScheduled_locked [OF root t(2) assms(3) pre(2) assms(8) pre(3,1,4,5)] by blast
  have "EqualFold (TrimSpace (tk_Name tok)) (TrimSpace name) \<longleftrightarrow> TrimSpace name \<noteq> []"
    using tok(11) by (auto simp: EqualFold_def TrimSpace_anonymous)
  with scheduled_locked_replay [OF _ l assms(5,6) pre(1) assms(3,4) tok(9), of u env' name now' sec' tok' rs']
    same t(1) tok(3,4) eq show ?thesis by (auto simp: same_dataD)
qed

text \<open>
  a booking session can be replayed. After a successful booking under a new session by a named
  holder, repeating the request with the same explicit window, at any time before its end, returns
  the same key and the same reservations and changes nothing, whatever the random source does.
\<close>

theorem booking_replay:
  assumes "RegisterScheduledReservationsWithSession env k name purpose sess gpus startsAt expiresAt now s =
      (t, Inr (secret, tok, rs))"
    and "sto_loaded s" "startsAt \<noteq> 0" "TrimSpace sess \<noteq> []" "TrimSpace name \<noteq> []"
    and "\<forall>r \<in> set (Reservations (sto_state s)). rs_ExternalSessionID r \<noteq> TrimSpace sess"
    and "\<forall>old \<in> set (Tokens (sto_state s)). tk_Hash old \<noteq> tk_Hash tok"
    and "snd (ValidateRootKey env' k t) = Inr True" "now' < expiresAt"
  shows "\<exists>u. RegisterScheduledReservationsWithSession env' k name purpose sess gpus startsAt expiresAt now' t =
      (u, Inr (secret, tok, rs)) \<and> same_data t u"
  using booking_again [OF assms(1-4,6-)] assms(5) by auto

theorem booking_replay_witness:
  "\<exists>u secret tok rs. RegisterScheduledReservationsWithSession example_env example_root_key ''alice''
       ''training'' ''session-1'' [0, 1] 2000 3000 1500 example_booked = (u, Inr (secret, tok, rs)) \<and>
     same_data example_booked u"
proof -
  obtain secret tok rs where
    r: "RegisterScheduledReservationsWithSession example_env example_root_key ''alice'' ''training''
       ''session-1'' [0, 1] 2000 3000 1000 example_store = (example_booked, Inr (secret, tok, rs))"
    by (rule example_booking)
  have root: "snd (ValidateRootKey example_env example_root_key example_booked) = Inr True" by code_simp
  have names: "TrimSpace ''session-1'' \<noteq> []" "TrimSpace ''alice'' \<noteq> []" by code_simp+
  from booking_replay [OF r _ _ names _ _ root, of 1500] show ?thesis by auto
qed

text \<open>
  the replay fails for an unnamed holder. A blank name is stored as \<open>anonymous\<close> but compared
  with the name as given, so the same request repeated is refused as a different reservation.
\<close>

theorem anonymous_replay_refused:
  assumes "RegisterScheduledReservationsWithSession env k name purpose sess gpus startsAt expiresAt now s =
      (t, Inr (secret, tok, rs))"
    and "sto_loaded s" "startsAt \<noteq> 0" "TrimSpace sess \<noteq> []" "TrimSpace name = []"
    and "\<forall>r \<in> set (Reservations (sto_state s)). rs_ExternalSessionID r \<noteq> TrimSpace sess"
    and "\<forall>old \<in> set (Tokens (sto_state s)). tk_Hash old \<noteq> tk_Hash tok"
    and "snd (ValidateRootKey env' k t) = Inr True" "now' < expiresAt"
  shows "snd (RegisterScheduledReservationsWithSession env' k name purpose sess gpus startsAt expiresAt now' t) =
      Inl (ErrMsg ''external session id was already used for a different reservation'')"
  using booking_again [OF assms(1-4,6-)] assms(5) by auto

theorem anonymous_replay_refused_witness:
  "\<exists>t x. RegisterScheduledReservationsWithSession example_env example_root_key [] ''training''
       ''session-1'' [0] 2000 3000 1000 example_store = (t, Inr x) \<and>
     snd (RegisterScheduledReservationsWithSession example_env example_root_key [] ''training''
       ''session-1'' [0] 2000 3000 1000 t) =
     Inl (ErrMsg ''external session id was already used for a different reservation'')"
proof -
  let ?r = "RegisterScheduledReservationsWithSession example_env example_root_key [] ''training''
    ''session-1'' [0] 2000 3000 1000 example_store"
  have "\<not> isl (snd ?r)" by code_simp
  then obtain t secret tok rs where r: "?r = (t, Inr (secret, tok, rs))" by (auto dest!: snd_not_isl)
  have "snd (ValidateRootKey example_env example_root_key (fst ?r)) = Inr True" by code_simp
  then have root: "snd (ValidateRootKey example_env example_root_key t) = Inr True" by (simp add: r)
  have "TrimSpace ''session-1'' \<noteq> []" by code_simp
  from anonymous_replay_refused [OF r _ _ this _ _ _ root, of 1000] r show ?thesis by auto
qed

section \<open>The root key\<close>

lemma hex_char_plain: "is_hex_char c \<Longrightarrow> plain_char c"
  by (auto simp: is_hex_char_def plain_char_def Let_def)

lemma readRootKeyFile_plain:
  assumes "readRootKeyFile env s = Inr key"
  shows "TrimSpace key = key"
proof -
  from assms have "prefix ''rk_'' key" "hex_valid (drop 3 key)"
    by (auto simp: readRootKeyFile_def Let_def split: option.splits if_splits)
  then obtain hex where "key = ''rk_'' @ hex" "list_all is_hex_char hex"
    by (auto simp: prefix_def hex_valid_def)
  moreover have "list_all plain_char ''rk_''" by (simp add: plain_char_def)
  ultimately show ?thesis
    by (intro TrimSpace_plain) (simp add: list_all_append list_all_iff hex_char_plain del: append_Cons)
qed

text \<open>
  The key that the root key file of a store holds: a private regular file whose only line is the key.
\<close>

definition root_key_on_file :: "Store \<Rightarrow> string \<Rightarrow> bool" where
  "root_key_on_file s key \<longleftrightarrow> (\<exists>f. sto_rootKeyFile s = Some f \<and> sf_regular f \<and>
     \<not> group_other_access (sf_perm f) \<and> (sf_data f = key \<or> sf_data f = key @ newline))"

lemma TrimSuffix_cases: "s = TrimSuffix s suf \<or> s = TrimSuffix s suf @ suf"
  by (auto simp: TrimSuffix_def suffix_def)

lemma readRootKeyFile_on_file: "readRootKeyFile env s = Inr key \<Longrightarrow> root_key_on_file s key"
  using TrimSuffix_cases [where suf = newline]
  by (auto simp: readRootKeyFile_def root_key_on_file_def Let_def split: option.splits if_splits)

lemma createRootKeyFile_on_file:
  "createRootKeyFile env s (key @ newline) = (t, None) \<Longrightarrow> root_key_on_file t key"
  by (auto simp: createRootKeyFile_def root_key_on_file_def group_other_access_def mode0600_def split: option.splits)

lemma ReadOrCreateRootKey_on_file:
  assumes "ReadOrCreateRootKey env s = (t, Inr key)"
  shows "root_key_on_file t key \<and> TrimSpace key = key"
proof (cases "readRootKeyFile env s")
  case (Inr k)
  with assms readRootKeyFile_on_file [of env s] readRootKeyFile_plain [of env s] show ?thesis
    by (auto simp: ReadOrCreateRootKey_def)
next
  case (Inl e)
  let ?key = "''rk_'' @ hex_EncodeToString (env_rand env (sto_draws s) rootKeyHexBytes)"
  obtain s2 r where c: "createRootKeyFile env (s\<lparr>sto_draws := Suc (sto_draws s)\<rparr>) (?key @ newline) = (s2, r)"
    by fastforce
  from Inl assms c have "r = None \<and> t = s2 \<and> key = ?key \<or> readRootKeyFile env t = Inr key"
    by (auto simp: ReadOrCreateRootKey_def randomHex_def Let_def simp del: append_Cons
        split: if_splits option.splits)
  with c show ?thesis
    using createRootKeyFile_on_file TrimSpace_root_key readRootKeyFile_on_file readRootKeyFile_plain by metis
qed

text \<open>Only the key in the file passes the test for the root key.\<close>

lemma ValidateRootKey_True:
  assumes "ValidateRootKey env c s = (t, Inr True)"
  shows "t = fst (ReadOrCreateRootKey env s) \<and> root_key_on_file t (TrimSpace c)"
proof -
  obtain t' r where r: "ReadOrCreateRootKey env s = (t', r)" by fastforce
  with assms obtain key where "r = Inr key" "t' = t" "TrimSpace c = TrimSpace key"
    by (auto simp: ValidateRootKey_def Let_def split: sum.splits if_splits)
  with r ReadOrCreateRootKey_on_file [of env s t key] show ?thesis by auto
qed

lemma readRootKeyFile_again:
  assumes "readRootKeyFile env s = Inr key" "env_keyOpenErr env' = None" "env_keyReadErr env' = None"
  shows "readRootKeyFile env' s = Inr key"
  using assms by (auto simp: readRootKeyFile_def Let_def split: option.splits if_splits)

lemma readRootKeyFile_written:
  assumes "env_keyOpenErr env = None" "env_keyReadErr env = None"
    and "sto_rootKeyFile s = Some \<lparr>sf_data = (''rk_'' @ hex_EncodeToString bs) @ newline,
      sf_regular = True, sf_perm = mode0600\<rparr>" "length bs = rootKeyHexBytes"
  shows "readRootKeyFile env s = Inr (''rk_'' @ hex_EncodeToString bs)"
proof -
  have "TrimSuffix ((''rk_'' @ hex_EncodeToString bs) @ newline) newline = ''rk_'' @ hex_EncodeToString bs"
    by (rule TrimSuffix_append)
  then show ?thesis
    using assms
    by (simp add: readRootKeyFile_def group_other_access_def mode0600_def Let_def newline_def)
qed

lemma ReadOrCreateRootKey_file:
  assumes "ReadOrCreateRootKey env s = (t, Inr key)" "\<forall>k n. length (env_rand env k n) = n"
    and "env_keyOpenErr env' = None" "env_keyReadErr env' = None"
  shows "readRootKeyFile env' t = Inr key"
proof (cases "readRootKeyFile env s")
  case (Inr k)
  with assms(1) have "t = s" "key = k" by (auto simp: ReadOrCreateRootKey_def)
  with Inr assms(3,4) readRootKeyFile_again show ?thesis by blast
next
  case (Inl e)
  let ?hex = "hex_EncodeToString (env_rand env (sto_draws s) rootKeyHexBytes)"
  let ?s1 = "s\<lparr>sto_draws := Suc (sto_draws s)\<rparr>"
  from Inl assms(1) have err: "e = ErrNotExist" "env_keyMkdirErr env = None" and
    made: "(case createRootKeyFile env ?s1 ((''rk_'' @ ?hex) @ newline) of
       (s2, Some e) \<Rightarrow> if e = ErrExist then (s2, readRootKeyFile env s2) else (s2, Inl e)
     | (s2, None) \<Rightarrow> (s2, Inr (''rk_'' @ ?hex))) = (t, Inr key)"
    by (auto simp: ReadOrCreateRootKey_def randomHex_def Let_def simp del: append_Cons
        split: if_splits option.splits)
  obtain s2 r where c: "createRootKeyFile env ?s1 ((''rk_'' @ ?hex) @ newline) = (s2, r)" by fastforce
  show ?thesis
  proof (cases r)
    case None
    with c have "sto_rootKeyFile s2 = Some \<lparr>sf_data = (''rk_'' @ ?hex) @ newline,
        sf_regular = True, sf_perm = mode0600\<rparr>"
      by (auto simp: createRootKeyFile_def split: option.splits)
    with readRootKeyFile_written [OF assms(3,4) this] made c None assms(2) show ?thesis
      by (simp del: append_Cons)
  next
    case (Some e')
    with made c have "readRootKeyFile env t = Inr key" by (auto split: if_splits)
    with assms(3,4) readRootKeyFile_again show ?thesis by blast
  qed
qed

text \<open>
  the root key is created once. Whichever way the first call obtained the key (an existing file,
  a new one, or one a rival process linked first), every later call returns the same key without
  writing, and a candidate is accepted exactly when it is that key, surrounding blanks aside.
\<close>

theorem root_key_stable:
  assumes "ReadOrCreateRootKey env s = (t, Inr key)" "\<forall>k n. length (env_rand env k n) = n"
    and "env_keyOpenErr env' = None" "env_keyReadErr env' = None"
  shows "ReadOrCreateRootKey env' t = (t, Inr key) \<and>
    ValidateRootKey env' candidate t = (t, Inr (TrimSpace candidate = key))"
proof -
  note read = ReadOrCreateRootKey_file [OF assms]
  have "ReadOrCreateRootKey env' t = (t, Inr key)" using read by (simp add: ReadOrCreateRootKey_def)
  then show ?thesis
    using readRootKeyFile_plain [OF read] by (auto simp: ValidateRootKey_def Let_def)
qed

theorem root_key_stable_witness:
  "ReadOrCreateRootKey example_env (fst (ReadOrCreateRootKey example_env (New_store None None))) =
     (fst (ReadOrCreateRootKey example_env (New_store None None)), Inr example_root_key)"
proof -
  have "snd (ReadOrCreateRootKey example_env (New_store None None)) = Inr example_root_key" by code_simp
  then have r: "ReadOrCreateRootKey example_env (New_store None None) =
      (fst (ReadOrCreateRootKey example_env (New_store None None)), Inr example_root_key)"
    by (metis prod.collapse)
  have "\<forall>k n. length (env_rand example_env k n) = n"
    by (simp add: example_env_def example_rand_def)
  from root_key_stable [OF r this, of example_env] show ?thesis
    by (simp add: example_env_def)
qed

text \<open>
  without the root key nothing changes. On a node whose root key is another one, registering a
  key, booking, syncing managed keys and listing keys all fail and leave the whole store untouched.
\<close>

theorem wrong_root_key_refused:
  assumes "readRootKeyFile env s = Inr key" "TrimSpace candidate \<noteq> key"
  shows "RegisterSoftToken env candidate name now s = (s, Inl ErrInvalidRootKey) \<and>
    RegisterManagedReservations env candidate ident purpose sess gpus startsAt expiresAt now s =
      (s, Inl ErrInvalidRootKey) \<and>
    SyncManagedUserKeys env candidate snapshot now s = (s, Inl ErrInvalidRootKey) \<and>
    store_KeyStatus env candidate now s = (s, Inl ErrInvalidRootKey) \<and>
    fst (RegisterScheduledReservationsWithSession env candidate name purpose sess gpus startsAt expiresAt now s) = s \<and>
    isl (snd (RegisterScheduledReservationsWithSession env candidate name purpose sess gpus startsAt expiresAt now s))"
proof -
  have root: "with_root env candidate s body = (s, Inl ErrInvalidRootKey)" for body :: "Store \<Rightarrow> 'r result"
    using assms readRootKeyFile_plain [OF assms(1)]
    by (auto simp: with_root_def ValidateRootKey_def ReadOrCreateRootKey_def Let_def)
  show ?thesis
    by (auto simp: RegisterSoftToken_def RegisterManagedReservations_def SyncManagedUserKeys_def
        store_KeyStatus_def RegisterScheduledReservationsWithSession_def root Let_def split: option.split)
qed

theorem wrong_root_key_refused_witness:
  "RegisterSoftToken example_env ''rk_guess'' ''eve'' 1000 example_booked =
     (example_booked, Inl ErrInvalidRootKey)"
proof -
  have "readRootKeyFile example_env example_booked = Inr example_root_key"
    "TrimSpace ''rk_guess'' \<noteq> example_root_key" by code_simp+
  from wrong_root_key_refused [OF this] show ?thesis by blast
qed

end
