(* ===== verification/Store_Lifecycle.thy ===== *)
theory Store_Lifecycle
  imports Store_Keys
begin

text \<open>
  The end of life of records in the node store: revocation reaches everything a key owns, a
  revoked or inactive authorization never becomes active, pruning removes the dead records and
  only those, releases are batched, and a managed key snapshot is a clean cut-over.
\<close>

section \<open>Revocation\<close>

lemma revoke_tokens_hash:
  assumes "h \<noteq> []" "\<forall>t \<in> set ts. tk_ID t = ident \<longrightarrow> tk_Hash t = h"
  shows "revoke_tokens ident h ts = (h, \<exists>t \<in> set ts. tk_Hash t = h,
    update_where (\<lambda>t. tk_Hash t = h) (\<lambda>t. t\<lparr>tk_Revoked := True\<rparr>) ts)"
  using assms(2)
proof (induction ts)
  case (Cons t ts)
  then show ?case using assms(1) by (auto simp: update_where_def)
qed (simp add: update_where_def)

lemma revoke_hash_key:
  assumes "tok \<in> set (Tokens st)" "tk_Hash tok = h" "h \<noteq> []"
    and "tk_ID tok = ident \<or> prefix ''gk_'' ident"
    and "prefix ''gk_'' ident \<longrightarrow> HashToken env ident = h"
    and "\<forall>x \<in> set (Tokens st). tk_ID x = ident \<longrightarrow> tk_Hash x = h"
  shows "revoke_hash env st ident = h"
proof -
  let ?h0 = "if prefix ''gk_'' ident then HashToken env ident else []"
  let ?P = "\<lambda>t. tk_ID t = ident \<or> ?h0 \<noteq> [] \<and> tk_Hash t = ?h0"
  have "?P tok" using assms by auto
  with assms(1) obtain x where x: "find ?P (Tokens st) = Some x" "x \<in> set (Tokens st)" "?P x"
    by (rule find_ex [of tok _ ?P])
  with assms(5,6) have "tk_Hash x = h" by (auto split: if_splits)
  with x(1) assms(3) show ?thesis by (simp add: revoke_hash_def Let_def)
qed

lemma Revoke_key_state:
  assumes "sto_loaded s" "TrimSpace ident = ident" "managed_group (sto_state s) ident = []"
    and "tok \<in> set (Tokens (sto_state s))" "tk_Hash tok = h" "h \<noteq> []"
    and "tk_ID tok = ident \<or> prefix ''gk_'' ident"
    and "prefix ''gk_'' ident \<longrightarrow> HashToken env ident = h"
    and "\<forall>x \<in> set (Tokens (sto_state s)). tk_ID x = ident \<longrightarrow> tk_Hash x = h"
  shows "\<exists>new. Revoke env ident s = save_and_return env (put_state s new) () \<and>
    Tokens new = update_where (\<lambda>t. tk_Hash t = h) (\<lambda>t. t\<lparr>tk_Revoked := True\<rparr>) (Tokens (sto_state s)) \<and>
    Reservations new = update_where (\<lambda>r. named ident h (rs_ID r) (rs_TokenHash r))
      (\<lambda>r. r\<lparr>rs_Revoked := True\<rparr>) (Reservations (sto_state s)) \<and>
    Authorizations new = update_where (\<lambda>a. named ident h (au_ID a) (au_TokenHash a))
      (\<lambda>a. a\<lparr>au_Revoked := True\<rparr>) (Authorizations (sto_state s))"
proof -
  have hash: "revoke_hash env (sto_state s) ident = h" by (rule revoke_hash_key [OF assms(4-)])
  note toks = revoke_tokens_hash [OF assms(6,9)]
  have "\<exists>t \<in> set (Tokens (sto_state s)). tk_Hash t = h" using assms(4,5) by blast
  then show ?thesis
    using assms(1-3) by (simp add: Revoke_def revoke_entitlement_def hash toks Let_def)
      (rule exI, intro conjI, rule refl, simp_all)
qed

text \<open>
  revoking a key closes everything it owns. When a revocation that names a key, by its
  identifier or by its secret, returns without error, every token with its hash is revoked, no
  reservation of the key is active at any instant, no authorization of it is active, and the
  secret no longer validates.
\<close>

theorem revoke_closes_key:
  assumes "Revoke env ident s = (t, Inr ())" "sto_loaded s" "TrimSpace ident = ident"
    and "managed_group (sto_state s) ident = []"
    and "tok \<in> set (Tokens (sto_state s))" "tk_Hash tok = h" "h \<noteq> []"
    and "tk_ID tok = ident \<or> prefix ''gk_'' ident"
    and "prefix ''gk_'' ident \<longrightarrow> HashToken env ident = h"
    and "\<forall>x \<in> set (Tokens (sto_state s)). tk_ID x = ident \<longrightarrow> tk_Hash x = h"
  shows "(\<forall>x \<in> set (Tokens (sto_state t)). tk_Hash x = h \<longrightarrow> tk_Revoked x) \<and>
    (\<forall>r \<in> set (Reservations (sto_state t)). rs_TokenHash r = h \<longrightarrow> \<not> ReservationActiveAt r now) \<and>
    (\<forall>a \<in> set (Authorizations (sto_state t)). au_TokenHash a = h \<longrightarrow> \<not> authorizationActiveAt a now) \<and>
    (\<forall>secret. HashToken env (TrimSpace secret) = h \<longrightarrow>
       snd (snd (snd (ValidateToken env secret now t))) = Some ErrTokenRevoked)"
proof -
  from Revoke_key_state [OF assms(2-)] obtain new where
    rev: "Revoke env ident s = save_and_return env (put_state s new) ()" and
    rows: "Tokens new = update_where (\<lambda>t. tk_Hash t = h) (\<lambda>t. t\<lparr>tk_Revoked := True\<rparr>) (Tokens (sto_state s))"
      "Reservations new = update_where (\<lambda>r. named ident h (rs_ID r) (rs_TokenHash r))
        (\<lambda>r. r\<lparr>rs_Revoked := True\<rparr>) (Reservations (sto_state s))"
      "Authorizations new = update_where (\<lambda>a. named ident h (au_ID a) (au_TokenHash a))
        (\<lambda>a. a\<lparr>au_Revoked := True\<rparr>) (Authorizations (sto_state s))" by blast
  have t: "sto_state t = new" "sto_loaded t"
    using save_and_return_Inr [OF assms(1) [unfolded rev]] assms(2) by simp_all
  have toks: "\<forall>x \<in> set (Tokens new). tk_Hash x = h \<longrightarrow> tk_Revoked x"
    by (simp add: rows ball_update_where)
  moreover have "\<exists>x. find (\<lambda>x. tk_Hash x = h) (Tokens new) = Some x \<and> tk_Revoked x"
  proof -
    have "tok\<lparr>tk_Revoked := True\<rparr> \<in> set (Tokens new)" "tk_Hash (tok\<lparr>tk_Revoked := True\<rparr>) = h"
      using assms(5,6) by (auto simp: rows set_update_where)
    then obtain x where "find (\<lambda>x. tk_Hash x = h) (Tokens new) = Some x"
      "x \<in> set (Tokens new)" "tk_Hash x = h" by (rule find_ex [of _ _ "\<lambda>x. tk_Hash x = h"])
    with toks show ?thesis by blast
  qed
  moreover have "\<forall>r \<in> set (Reservations new). rs_TokenHash r = h \<longrightarrow> rs_Revoked r"
    "\<forall>a \<in> set (Authorizations new). au_TokenHash a = h \<longrightarrow> au_Revoked a"
    using assms(7) by (simp_all add: rows ball_update_where named_def)
  ultimately show ?thesis
    by (auto simp: t ReservationActiveAt_def authorizationActiveAt_def ValidateToken_def loadLocked_def Let_def)
qed

definition example_token_id :: string where
  "example_token_id = tk_ID (hd (Tokens (sto_state example_booked)))"

lemma singleton_hd: "length xs = 1 \<Longrightarrow> xs = [hd xs]"
  by (cases xs) auto

theorem revoke_closes_key_witness:
  "list_all (\<lambda>r. \<not> ReservationActiveAt r 2500)
     (filter (\<lambda>r. rs_TokenHash r = tk_Hash (hd (Tokens (sto_state example_booked))))
       (Reservations (sto_state (fst (Revoke example_env example_token_id example_booked)))))"
proof -
  let ?tok = "hd (Tokens (sto_state example_booked))"
  have res: "snd (Revoke example_env example_token_id example_booked) = Inr ()" by code_simp
  have pre: "TrimSpace example_token_id = example_token_id"
    "managed_group (sto_state example_booked) example_token_id = []"
    "length (Tokens (sto_state example_booked)) = 1" "tk_Hash ?tok \<noteq> []"
    "\<not> prefix ''gk_'' example_token_id"
    by code_simp+
  from pre(3) have one: "Tokens (sto_state example_booked) = [?tok]" by (rule singleton_hd)
  have rev: "Revoke example_env example_token_id example_booked =
      (fst (Revoke example_env example_token_id example_booked), Inr ())" using res by (metis prod.collapse)
  have tok: "?tok \<in> set (Tokens (sto_state example_booked))"
    "\<forall>x \<in> set (Tokens (sto_state example_booked)). tk_ID x = example_token_id \<longrightarrow> tk_Hash x = tk_Hash ?tok"
    by (subst one, simp) (subst one, simp)
  have "tk_ID ?tok = example_token_id \<or> prefix ''gk_'' example_token_id"
    by (simp add: example_token_id_def)
  from revoke_closes_key [OF rev example_store_simps(4) pre(1,2) tok(1) refl pre(4) this _ tok(2), of 2500] pre(5)
  show ?thesis unfolding list_all_iff set_filter by blast
qed

text \<open>
  a revocation wins against an activation. Once a key has been revoked, activating any of its
  authorizations fails and changes nothing, so a launch that was pending when the key was revoked
  cannot become active afterwards.
\<close>

theorem revoke_blocks_activation:
  assumes "Revoke env ident s = (t, Inr ())" "sto_loaded s" "TrimSpace ident = ident"
    and "managed_group (sto_state s) ident = []"
    and "tok \<in> set (Tokens (sto_state s))" "tk_Hash tok = h" "h \<noteq> []"
    and "tk_ID tok = ident \<or> prefix ''gk_'' ident"
    and "prefix ''gk_'' ident \<longrightarrow> HashToken env ident = h"
    and "\<forall>x \<in> set (Tokens (sto_state s)). tk_ID x = ident \<longrightarrow> tk_Hash x = h"
    and "\<forall>b \<in> set (Authorizations (sto_state s)). au_ID b = au \<longrightarrow> au_TokenHash b = h"
  shows "fst (ActivateAuthorization env' au pid t) = t \<and> isl (snd (ActivateAuthorization env' au pid t))"
proof -
  from Revoke_key_state [OF assms(2-10)] obtain new where
    rev: "Revoke env ident s = save_and_return env (put_state s new) ()" and
    rows: "Authorizations new = update_where (\<lambda>a. named ident h (au_ID a) (au_TokenHash a))
        (\<lambda>a. a\<lparr>au_Revoked := True\<rparr>) (Authorizations (sto_state s))" by blast
  have t: "sto_state t = new" "sto_loaded t"
    using save_and_return_Inr [OF assms(1) [unfolded rev]] assms(2) by simp_all
  have "\<forall>b \<in> set (Authorizations new). au_ID b = au \<longrightarrow> au_Revoked b"
    using assms(7,11) by (simp add: rows ball_update_where named_def) blast
  then show ?thesis
    by (auto simp: ActivateAuthorization_def t Let_def dest: find_SomeD split: option.split)
qed

text \<open>A key with a pending launch, for the instances below.\<close>

definition example_authorization :: Authorization where
  "example_authorization = zero_Authorization\<lparr>au_ID := ''auth_1'', au_Mode := ModeBare,
     au_TokenHash := tk_Hash (hd (Tokens (sto_state example_booked))), au_Active := True\<rparr>"

definition example_pending :: Store where
  "example_pending = fst (AddAuthorization example_env example_authorization example_booked)"

lemma example_pending_facts:
  "sto_loaded example_pending" "Tokens (sto_state example_pending) = Tokens (sto_state example_booked)"
  "managed_group (sto_state example_pending) example_token_id = []"
  "snd (Revoke example_env example_token_id example_pending) = Inr ()"
  "Authorizations (sto_state example_pending) = [example_authorization]"
  by code_simp+

lemma example_key_facts:
  "hd (Tokens (sto_state example_booked)) \<in> set (Tokens (sto_state example_booked))"
  "\<forall>x \<in> set (Tokens (sto_state example_booked)). tk_ID x = example_token_id \<longrightarrow>
     tk_Hash x = tk_Hash (hd (Tokens (sto_state example_booked)))"
  "tk_Hash (hd (Tokens (sto_state example_booked))) \<noteq> []"
  "TrimSpace example_token_id = example_token_id" "\<not> prefix ''gk_'' example_token_id"
proof -
  have "length (Tokens (sto_state example_booked)) = 1" by code_simp
  then have one: "Tokens (sto_state example_booked) = [hd (Tokens (sto_state example_booked))]"
    by (rule singleton_hd)
  show "hd (Tokens (sto_state example_booked)) \<in> set (Tokens (sto_state example_booked))"
    by (subst (2) one) simp
  show "\<forall>x \<in> set (Tokens (sto_state example_booked)). tk_ID x = example_token_id \<longrightarrow>
      tk_Hash x = tk_Hash (hd (Tokens (sto_state example_booked)))"
    by (subst one) simp
  show "tk_Hash (hd (Tokens (sto_state example_booked))) \<noteq> []"
    "TrimSpace example_token_id = example_token_id" "\<not> prefix ''gk_'' example_token_id" by code_simp+
qed

theorem revoke_blocks_activation_witness:
  "isl (snd (ActivateAuthorization example_env ''auth_1'' 4242
     (fst (Revoke example_env example_token_id example_pending))))"
proof -
  let ?tok = "hd (Tokens (sto_state example_booked))"
  have rev: "Revoke example_env example_token_id example_pending =
      (fst (Revoke example_env example_token_id example_pending), Inr ())"
    using example_pending_facts(4) by (metis prod.collapse)
  have "tk_ID ?tok = example_token_id \<or> prefix ''gk_'' example_token_id"
    by (simp add: example_token_id_def)
  from revoke_blocks_activation [OF rev example_pending_facts(1) example_key_facts(4)
      example_pending_facts(3) _ refl example_key_facts(3) this, of "''auth_1''"]
    example_key_facts(1,2,5) show ?thesis
    by (simp add: example_pending_facts(2,5) example_authorization_def)
qed

text \<open>
  a soft claim cannot be revoked by its own identifier. The claims are searched only when the
  argument also names a key, a reservation, an authorization, a lease or a bypass rule, so for an
  identifier that only a claim has the claim stays and the answer is that nothing was found.
\<close>

theorem claim_not_revocable:
  assumes "sto_loaded s" "TrimSpace ident = ident" "\<not> prefix ''gk_'' ident"
    and "\<forall>t \<in> set (Tokens (sto_state s)). tk_ID t \<noteq> ident"
    and "\<forall>r \<in> set (Reservations (sto_state s)). rs_ID r \<noteq> ident \<and> rs_GroupID r \<noteq> ident"
    and "\<forall>a \<in> set (Authorizations (sto_state s)). au_ID a \<noteq> ident"
    and "\<forall>l \<in> set (Leases (sto_state s)). ls_ID l \<noteq> ident"
    and "\<forall>b \<in> set (Bypasses (sto_state s)). br_ID b \<noteq> ident"
    and "c \<in> set (SoftClaims (sto_state s))" "sc_ID c = ident"
  shows "Revoke env ident s = (s, Inl (ErrNotFound ident)) \<and>
    c \<in> set (SoftClaims (sto_state (fst (Revoke env ident s))))"
proof -
  let ?st = "sto_state s"
  have "find (\<lambda>r. (\<exists>t \<in> set (Tokens ?st). tk_Managed t \<and> tk_Hash t = rs_TokenHash r) \<and>
      (rs_ID r = ident \<or> revoke_group_id r = ident)) (Reservations ?st) = None"
    using assms(5) by (auto simp: find_None_iff revoke_group_id_def)
  then have grp: "managed_group ?st ident = []" by (simp add: managed_group_def)
  have "find (\<lambda>t. tk_ID t = ident) (Tokens ?st) = None" "find (\<lambda>r. rs_ID r = ident) (Reservations ?st) = None"
    using assms(4,5) by (auto simp: find_None_iff)
  then have hash: "revoke_hash env ?st ident = []" using assms(3) by (simp add: revoke_hash_def Let_def)
  have toks: "revoke_tokens ident [] ts = ([], False, ts)" if "\<forall>t \<in> set ts. tk_ID t \<noteq> ident" for ts
    using that by (induction ts) auto
  have "Revoke env ident s = (s, Inl (ErrNotFound ident))"
    using assms(1,2) grp
    by (simp add: Revoke_def revoke_entitlement_def hash toks [OF assms(4)] Let_def named_def assms(5-8))
  with assms(9) show ?thesis by simp
qed

definition example_claimed :: Store where
  "example_claimed = fst (UpsertSoftClaim example_env (zero_SoftClaim\<lparr>sc_ID := ''claim_1''\<rparr>) 1000 example_store)"

theorem claim_not_revocable_witness:
  "snd (Revoke example_env ''claim_1'' example_claimed) = Inl (ErrNotFound ''claim_1'')"
proof -
  have f: "sto_loaded example_claimed" "Tokens (sto_state example_claimed) = []"
    "Reservations (sto_state example_claimed) = []" "Authorizations (sto_state example_claimed) = []"
    "Leases (sto_state example_claimed) = []" "Bypasses (sto_state example_claimed) = []"
    "map sc_ID (SoftClaims (sto_state example_claimed)) = [''claim_1'']"
    "TrimSpace ''claim_1'' = ''claim_1''" by code_simp+
  then obtain c where "c \<in> set (SoftClaims (sto_state example_claimed))" "sc_ID c = ''claim_1''"
    by (auto simp: map_eq_Cons_conv)
  with claim_not_revocable [OF f(1,8), of c example_env] f(2-6) show ?thesis by simp
qed

end
