(* ===== verification/Store_Hygiene.thy ===== *)
theory Store_Hygiene
  imports Store_Keys
begin

text \<open>
  Pruning keeps the node store clean: what is left after a prune is alive and consistent, nothing
  alive is removed, and a second prune at the same instant has nothing to do. The views of the
  store are bounded and show a key nothing but its own records.
\<close>

section \<open>Pruning\<close>

abbreviation pruned :: "State \<Rightarrow> time \<Rightarrow> State" where
  "pruned st now \<equiv> fst (pruneExpiredLocked st now)"

lemma pruned_rows:
  "Tokens (pruned st now) = filter (\<lambda>t. \<not> prune_token st now t) (Tokens st)"
  "Reservations (pruned st now) = filter (\<lambda>r. \<not> prune_reservation st now r) (Reservations st)"
  "Authorizations (pruned st now) = filter (\<lambda>a. \<not> prune_authorization st now a) (Authorizations st)"
  "Leases (pruned st now) = filter (\<lambda>l. \<not> prune_lease st now l) (Leases st)"
  "Bypasses (pruned st now) = filter (\<lambda>b. \<not> prune_bypass now b) (Bypasses st)"
  by (simp_all add: pruneExpiredLocked_def Let_def)

lemma Prune_state:
  assumes "Prune env now s = (t, Inr ())" "sto_loaded s"
  shows "sto_state t = pruned (sto_state s) now \<and> sto_loaded t"
  using assms
  by (auto simp: Prune_def split: prod.splits if_splits dest!: save_and_return_Inr)

lemma live_hash_not_expired:
  assumes "distinct (map tk_Hash (Tokens st))" "t \<in> set (Tokens st)" "\<not> prune_token st now t"
  shows "tk_Hash t \<notin> expiredTokenHashes st now"
proof
  assume "tk_Hash t \<in> expiredTokenHashes st now"
  then obtain u where "u \<in> set (Tokens st)" "prune_token st now u" "tk_Hash u = tk_Hash t"
    by (auto simp: expiredTokenHashes_def)
  with assms show False by (auto simp: distinct_map dest: inj_onD)
qed

lemma pruned_clean:
  assumes "distinct (map tk_Hash (Tokens st))"
  shows "\<forall>x \<in> set (Tokens (pruned st now)). \<not> prune_token (pruned st now) now x"
    and "expiredTokenHashes (pruned st now) now = {}"
    and "\<forall>r \<in> set (Reservations (pruned st now)). \<not> prune_reservation (pruned st now) now r"
    and "\<forall>a \<in> set (Authorizations (pruned st now)). \<not> prune_authorization (pruned st now) now a"
    and "\<forall>l \<in> set (Leases (pruned st now)). \<not> prune_lease (pruned st now) now l"
    and "\<forall>b \<in> set (Bypasses (pruned st now)). \<not> prune_bypass now b"
proof -
  have live: "tk_Hash x \<in> liveReservationTokenHashes (Reservations (pruned st now)) now"
    if "x \<in> set (Tokens st)" "\<not> prune_token st now x" "NormalizeTokenMode (tk_Mode x) = TokenModeReserved" for x
  proof -
    from that obtain r where "r \<in> set (Reservations st)" "rs_Active r" "\<not> rs_Revoked r"
      "now < rs_ExpiresAt r" "rs_TokenHash r = tk_Hash x" "rs_TokenHash r \<noteq> []"
      by (auto simp: prune_token_def Let_def liveReservationTokenHashes_def)
    with live_hash_not_expired [OF assms that(1,2)] show ?thesis
      by (auto simp: pruned_rows prune_reservation_def liveReservationTokenHashes_def intro!: rev_image_eqI [of r])
  qed
  show toks: "\<forall>x \<in> set (Tokens (pruned st now)). \<not> prune_token (pruned st now) now x"
    using live by (auto simp: pruned_rows(1) prune_token_def Let_def)
  then show none: "expiredTokenHashes (pruned st now) now = {}"
    by (auto simp: expiredTokenHashes_def)
  show "\<forall>r \<in> set (Reservations (pruned st now)). \<not> prune_reservation (pruned st now) now r"
    "\<forall>a \<in> set (Authorizations (pruned st now)). \<not> prune_authorization (pruned st now) now a"
    "\<forall>l \<in> set (Leases (pruned st now)). \<not> prune_lease (pruned st now) now l"
    "\<forall>b \<in> set (Bypasses (pruned st now)). \<not> prune_bypass now b"
    by (auto simp: prune_reservation_def prune_authorization_def prune_lease_def none)
      (auto simp: pruned_rows prune_reservation_def prune_authorization_def prune_lease_def)
qed

lemma pruned_fixpoint:
  assumes "distinct (map tk_Hash (Tokens st))"
  shows "pruneExpiredLocked (pruned st now) now = (pruned st now, False)"
proof -
  note clean = pruned_clean [OF assms, of now]
  have "filter (\<lambda>t. \<not> prune_token (pruned st now) now t) (Tokens (pruned st now)) = Tokens (pruned st now)"
    "filter (\<lambda>r. \<not> prune_reservation (pruned st now) now r) (Reservations (pruned st now)) = Reservations (pruned st now)"
    "filter (\<lambda>a. \<not> prune_authorization (pruned st now) now a) (Authorizations (pruned st now)) = Authorizations (pruned st now)"
    "filter (\<lambda>l. \<not> prune_lease (pruned st now) now l) (Leases (pruned st now)) = Leases (pruned st now)"
    "filter (\<lambda>b. \<not> prune_bypass now b) (Bypasses (pruned st now)) = Bypasses (pruned st now)"
    using clean by (simp_all add: filter_id_conv)
  then show ?thesis
    using clean by (simp add: pruneExpiredLocked_def [of "pruned st now"] Let_def)
qed

text \<open>
  what a prune leaves is alive. After a successful prune every key is neither revoked nor
  expired, every reservation, authorization, lease and bypass rule is in force, and a key in
  reserved mode still owns a reservation that is left (keys having different hashes).
\<close>

theorem prune_leaves_live:
  assumes "Prune env now s = (t, Inr ())" "sto_loaded s" "distinct (map tk_Hash (Tokens (sto_state s)))"
  shows "(\<forall>x \<in> set (Tokens (sto_state t)). tokenActiveAt x now \<and>
      (NormalizeTokenMode (tk_Mode x) = TokenModeReserved \<longrightarrow>
        (\<exists>r \<in> set (Reservations (sto_state t)). rs_TokenHash r = tk_Hash x))) \<and>
    (\<forall>r \<in> set (Reservations (sto_state t)). rs_Active r \<and> \<not> rs_Revoked r \<and> now < rs_ExpiresAt r) \<and>
    (\<forall>a \<in> set (Authorizations (sto_state t)). authorizationActiveAt a now) \<and>
    (\<forall>l \<in> set (Leases (sto_state t)). ls_Active l \<and> now < ls_ExpiresAt l) \<and>
    (\<forall>b \<in> set (Bypasses (sto_state t)). \<not> br_Revoked b \<and> now < br_ExpiresAt b)"
proof -
  let ?st = "sto_state s"
  have t: "sto_state t = pruned ?st now" using Prune_state [OF assms(1,2)] by simp
  have "\<exists>r \<in> set (Reservations (pruned ?st now)). rs_TokenHash r = tk_Hash x"
    if "x \<in> set (Tokens ?st)" "\<not> prune_token ?st now x" "NormalizeTokenMode (tk_Mode x) = TokenModeReserved" for x
  proof -
    from that obtain r where "r \<in> set (Reservations ?st)" "rs_Active r" "\<not> rs_Revoked r"
      "now < rs_ExpiresAt r" "rs_TokenHash r = tk_Hash x"
      by (auto simp: prune_token_def Let_def liveReservationTokenHashes_def)
    with live_hash_not_expired [OF assms(3) that(1,2)] show ?thesis
      by (auto simp: pruned_rows prune_reservation_def intro!: bexI [of _ r])
  qed
  then show ?thesis
    unfolding t pruned_rows
    by (auto simp: prune_token_def Let_def tokenActiveAt_def prune_reservation_def
        prune_authorization_def authorizationActiveAt_def prune_lease_def prune_bypass_def)
qed

theorem prune_leaves_live_witness:
  "\<exists>t. Prune example_env 2500 example_booked = (t, Inr ()) \<and>
     list_all (\<lambda>r. rs_Active r \<and> \<not> rs_Revoked r \<and> 2500 < rs_ExpiresAt r) (Reservations (sto_state t))"
proof -
  have "snd (Prune example_env 2500 example_booked) = Inr ()" by code_simp
  then have r: "Prune example_env 2500 example_booked = (fst (Prune example_env 2500 example_booked), Inr ())"
    by (metis prod.collapse)
  have "length (Tokens (sto_state example_booked)) = 1" by code_simp
  then have "distinct (map tk_Hash (Tokens (sto_state example_booked)))"
    by (cases "Tokens (sto_state example_booked)") simp_all
  from prune_leaves_live [OF r example_store_simps(4) this] r show ?thesis unfolding list_all_iff by blast
qed

text \<open>
  pruning removes nothing alive and is idempotent. A key in force, a reservation in force and
  an authorization in force are kept when the key they refer to is kept or unknown, the order of the rows is
  unchanged, and pruning the result again at the same instant returns at once with the same store.
\<close>

theorem prune_keeps_live:
  assumes "Prune env now s = (t, Inr ())" "sto_loaded s" "distinct (map tk_Hash (Tokens (sto_state s)))"
  shows "(\<forall>x \<in> set (Tokens (sto_state s)). tokenActiveAt x now \<and>
      (NormalizeTokenMode (tk_Mode x) = TokenModeReserved \<longrightarrow>
        tk_Hash x \<in> liveReservationTokenHashes (Reservations (sto_state s)) now) \<longrightarrow> x \<in> set (Tokens (sto_state t))) \<and>
    (\<forall>r \<in> set (Reservations (sto_state s)). rs_Active r \<and> \<not> rs_Revoked r \<and> now < rs_ExpiresAt r \<and>
      (\<forall>x \<in> set (Tokens (sto_state s)). tk_Hash x = rs_TokenHash r \<longrightarrow> x \<in> set (Tokens (sto_state t)))
      \<longrightarrow> r \<in> set (Reservations (sto_state t))) \<and>
    (\<forall>a \<in> set (Authorizations (sto_state s)). authorizationActiveAt a now \<and>
      (\<forall>x \<in> set (Tokens (sto_state s)). tk_Hash x = au_TokenHash a \<longrightarrow> x \<in> set (Tokens (sto_state t)))
      \<longrightarrow> a \<in> set (Authorizations (sto_state t))) \<and>
    subseq (Reservations (sto_state t)) (Reservations (sto_state s)) \<and>
    Prune env' now t = (t, Inr ())"
proof -
  let ?st = "sto_state s"
  have t: "sto_state t = pruned ?st now" "sto_loaded t" using Prune_state [OF assms(1,2)] by simp_all
  have kept: "h \<notin> expiredTokenHashes ?st now"
    if "\<forall>x \<in> set (Tokens ?st). tk_Hash x = h \<longrightarrow> x \<in> set (Tokens (sto_state t))" for h
    using that by (auto simp: expiredTokenHashes_def t pruned_rows)
  have again: "Prune env' now t = (t, Inr ())"
    using pruned_fixpoint [OF assms(3), of now] t by (simp add: Prune_def)
  show ?thesis
    using again kept
    by (auto simp: t pruned_rows prune_token_def prune_reservation_def prune_authorization_def
        authorizationActiveAt_def tokenActiveAt_def Let_def subseq_filter_left)
qed

theorem prune_keeps_live_witness:
  "\<exists>t. Prune example_env 2500 example_booked = (t, Inr ()) \<and> Prune example_env 2500 t = (t, Inr ())"
proof -
  have "snd (Prune example_env 2500 example_booked) = Inr ()" by code_simp
  then have r: "Prune example_env 2500 example_booked = (fst (Prune example_env 2500 example_booked), Inr ())"
    by (metis prod.collapse)
  have "length (Tokens (sto_state example_booked)) = 1" by code_simp
  then have "distinct (map tk_Hash (Tokens (sto_state example_booked)))"
    by (cases "Tokens (sto_state example_booked)") simp_all
  from prune_keeps_live [OF r example_store_simps(4) this] r show ?thesis by blast
qed

section \<open>Views\<close>

lemma view_args_bounds:
  "length (view_args shown remaining as) \<le> maxViewCommandArgs - shown \<and>
   length (concat (view_args shown remaining as)) \<le> remaining \<and>
   list_all2 prefix (view_args shown remaining as) (take (length (view_args shown remaining as)) as)"
proof (induction as arbitrary: shown remaining)
  case (Cons a as)
  show ?case
  proof (cases "shown \<ge> maxViewCommandArgs \<or> remaining \<le> 0")
    case False
    let ?a = "if length a > remaining then take remaining a else a"
    have "length ?a \<le> remaining" "prefix ?a a" by (auto intro: take_is_prefix)
    with False Cons.IH [of "Suc shown" "remaining - length ?a"] show ?thesis
      by (auto simp: Let_def)
  qed auto
qed simp

lemma view_args_id:
  "length as + shown \<le> maxViewCommandArgs \<Longrightarrow> length (concat as) \<le> remaining \<Longrightarrow>
     (\<forall>a \<in> set as. a \<noteq> []) \<Longrightarrow> view_args shown remaining as = as"
proof (induction as arbitrary: shown remaining)
  case (Cons a as)
  from Cons.prems have "0 < length a" "length a \<le> remaining" by auto
  then have "0 < remaining" by linarith
  with Cons show ?case by (auto simp: Let_def)
qed simp

text \<open>
  command lines shown to clients are bounded. A view shows at most 128 arguments and 16 KiB of
  a command, each shown argument being a prefix of the argument at its place, and a command of
  non-empty arguments within both limits is shown unchanged.
\<close>

theorem boundedViewCommand_bounds:
  "length (boundedViewCommand command) \<le> maxViewCommandArgs \<and>
   length (concat (boundedViewCommand command)) \<le> maxViewCommandBytes \<and>
   list_all2 prefix (boundedViewCommand command) (take (length (boundedViewCommand command)) command) \<and>
   (length command \<le> maxViewCommandArgs \<and> length (concat command) \<le> maxViewCommandBytes \<and> [] \<notin> set command
     \<longrightarrow> boundedViewCommand command = command)"
  using view_args_bounds [of 0 maxViewCommandBytes command] view_args_id [of command 0 maxViewCommandBytes]
  by (auto simp: boundedViewCommand_def)

theorem boundedViewCommand_bounds_witness:
  "boundedViewCommand [''python'', ''train.py''] = [''python'', ''train.py'']"
  using boundedViewCommand_bounds [of "[''python'', ''train.py'']"] by simp

text \<open>
  a key sees only its own records. The status for a key lists only tokens, reservations,
  authorizations and soft claims that carry the key's hash, each of which is in force, and neither
  leases nor bypass rules; no view of a token shows a secret.
\<close>

theorem StatusForToken_isolated:
  assumes "StatusForToken env h now s = (t, Inr st)" "sto_loaded s"
  shows "t = s \<and>
    (\<forall>v \<in> set (ss_Tokens st). tv_Key v = [] \<and>
      (\<exists>x \<in> set (Tokens (sto_state s)). v = token_view x \<and> tk_Hash x = h \<and> tokenActiveAt x now)) \<and>
    (\<forall>v \<in> set (ss_Reservations st).
      \<exists>r \<in> set (Reservations (sto_state s)). rv_ID v = rs_ID r \<and> rs_TokenHash r = h \<and> reservation_shown now r) \<and>
    (\<forall>v \<in> set (ss_Authorizations st).
      \<exists>a \<in> set (Authorizations (sto_state s)). av_ID v = au_ID a \<and> au_TokenHash a = h \<and> authorizationActiveAt a now) \<and>
    (\<forall>v \<in> set (ss_SoftClaims st).
      \<exists>c \<in> set (SoftClaims (sto_state s)). v = claim_view c \<and> sc_TokenHash c = h) \<and>
    ss_Leases st = [] \<and> ss_Bypasses st = []"
proof -
  have "t = s" "st = status_of (sto_state s) now h False"
    using assms by (auto simp: StatusForToken_def split: if_splits)
  then show ?thesis
    by (auto simp: status_of_def Let_def token_view_def token_shown_def tokenActiveAt_def
        reservation_view_def authorizationView_def)
qed

theorem StatusForToken_isolated_witness:
  "\<exists>st. StatusForToken example_env ''00'' 2500 example_booked = (example_booked, Inr st) \<and>
     ss_Leases st = [] \<and> ss_Tokens st = []"
proof -
  have r: "StatusForToken example_env ''00'' 2500 example_booked =
      (example_booked, Inr (status_of (sto_state example_booked) 2500 ''00'' False))"
    by (simp add: StatusForToken_def)
  have "ss_Tokens (status_of (sto_state example_booked) 2500 ''00'' False) = []" by code_simp
  with StatusForToken_isolated [OF r example_store_simps(4)] r show ?thesis by blast
qed

end
