(* ===== verification/Store_Cutover.thy ===== *)
theory Store_Cutover
  imports Store_Keys
begin

text \<open>
  Managed user keys: a snapshot replaces every key of the node at once, keeps the reservations and
  re-attaches them to their owners' keys, and only the authority that configured the node can do it.
\<close>

section \<open>The tokens a snapshot stands for\<close>

lemma managed_tokens_rows:
  "managed_tokens now acc keys = Inr ts \<Longrightarrow>
     map tk_ID ts = map tk_ID acc @ map (\<lambda>k. TrimSpace (mk_ID k)) keys \<and>
     map tk_Name ts = map tk_Name acc @ map (\<lambda>k. normalizeHolder (mk_Owner k)) keys \<and>
     map tk_Hash ts = map tk_Hash acc @ map (\<lambda>k. ToLower (TrimSpace (mk_Hash k))) keys \<and>
     map tk_Version ts = map tk_Version acc @ map mk_Version keys"
proof (induction keys arbitrary: acc)
  case (Cons k ks)
  then show ?case by (auto simp: Let_def split: if_splits dest!: Cons.IH)
qed simp

text \<open>A reservation after a cut-over: same GPU, window, holder and flags; only the key changes.\<close>

definition reattached :: "Token list \<Rightarrow> Reservation \<Rightarrow> Reservation \<Rightarrow> bool" where
  "reattached managed r r' \<longleftrightarrow> (\<exists>grp. grp \<noteq> [] \<and> (rs_GroupID r \<noteq> [] \<longrightarrow> grp = rs_GroupID r) \<and>
     r' = r\<lparr>rs_GroupID := grp, rs_TokenHash := (case byOwner managed (normalizeHolder (rs_Holder r)) of
       Some t \<Rightarrow> tk_Hash t | None \<Rightarrow> rs_TokenHash r)\<rparr>)"

lemma relink_reattaches:
  "relink_reservations env old managed rs s = (t, rs') \<Longrightarrow> list_all2 (reattached managed) rs rs'"
proof (induction rs arbitrary: s t rs')
  case (Cons r rs)
  then show ?case
    by (auto simp: randomHex_def reattached_def split: prod.splits if_splits option.splits dest!: Cons.IH)
qed simp

lemma sync_locked_Inr:
  assumes "sync_locked env k a ts s = (t, Inr res)"
  shows "(ManagedKeyAuthority (sto_state s) = [] \<or> ManagedKeyAuthority (sto_state s) = a) \<and>
    sto_loaded t = sto_loaded s \<and>
    (if ManagedKeys (sto_state s) \<and> KeySnapshotID (sto_state s) = k
     then sto_state t = (sto_state s)\<lparr>ManagedKeyAuthority := a\<rparr>
     else \<exists>rs. list_all2 (reattached ts) (Reservations (sto_state s)) rs \<and>
       sto_state t = (sto_state s)\<lparr>ManagedKeyAuthority := a, Reservations := rs, Tokens := ts,
         ManagedKeys := True, KeySnapshotID := k\<rparr>)"
proof -
  have auth: "ManagedKeyAuthority (sto_state s) = [] \<or> ManagedKeyAuthority (sto_state s) = a"
    using assms by (auto simp: sync_locked_def Let_def split: if_splits)
  then have st1: "(if ManagedKeyAuthority (sto_state s) = [] \<and> a \<noteq> []
      then (sto_state s)\<lparr>ManagedKeyAuthority := a\<rparr> else sto_state s) = (sto_state s)\<lparr>ManagedKeyAuthority := a\<rparr>"
    by auto
  obtain s2 rs where l: "relink_reservations env (Tokens (sto_state s)) ts (Reservations (sto_state s)) s = (s2, rs)"
    by fastforce
  note shape = relink_reattaches [OF l] relink_reservations_shape [OF l]
  from auth show ?thesis
    using assms l shape
    by (auto simp: sync_locked_def Let_def st1 same_dataD split: if_splits dest!: save_and_return_Inr)
qed

lemma SyncManagedUserKeys_Inr:
  assumes "SyncManagedUserKeys env k snapshot now s = (t, Inr res)" "sto_loaded s"
  obtains ts s1 where "managed_tokens now [] (ms_Keys snapshot) = Inr ts" "same_data s s1"
    "sync_locked env (TrimSpace (ms_SnapshotID snapshot)) (TrimSpace (ms_AuthorityID snapshot)) ts s1 = (t, Inr res)"
proof -
  from assms(1) obtain s1 where root: "same_data s s1" and
    body: "(let snapshotID = TrimSpace (ms_SnapshotID snapshot); authorityID = TrimSpace (ms_AuthorityID snapshot) in
     if snapshotID = [] then fail_with s1 (ErrMsg ''snapshot_id is required'')
     else case validatePersistedValues ''managed key snapshot'' [snapshotID, authorityID] of
       Some e \<Rightarrow> fail_with s1 e
     | None \<Rightarrow>
     if length (ms_Keys snapshot) > maxTotalTokens
       then fail_with s1 (ErrCount ''managed key'' (length (ms_Keys snapshot)) maxTotalTokens)
     else (case managed_tokens now [] (ms_Keys snapshot) of Inl e \<Rightarrow> fail_with s1 e
     | Inr managed \<Rightarrow> with_loaded env s1 (sync_locked env snapshotID authorityID managed))) = (t, Inr res)"
    unfolding SyncManagedUserKeys_def by (rule with_root_Inr)
  have "sto_loaded s1" using root assms(2) by (simp add: same_dataD)
  with body root that show ?thesis
    by (auto simp: Let_def split: if_splits option.splits sum.splits)
qed

text \<open>
  a managed key snapshot is a clean cut-over. When a new snapshot is accepted, the node's keys
  are exactly the keys of the snapshot, with unique identifiers, hashes and owners; every
  reservation keeps its GPU, window, holder and flags, gets a group, and is attached to its
  owner's new key if there is one; authorizations are untouched; and every secret whose hash is
  not in the snapshot stops validating.
\<close>

theorem sync_cutover:
  assumes "SyncManagedUserKeys env k snapshot now s = (t, Inr res)" "sto_loaded s"
    and "\<not> (ManagedKeys (sto_state s) \<and> KeySnapshotID (sto_state s) = TrimSpace (ms_SnapshotID snapshot))"
  shows "managed_ok (Tokens (sto_state t)) \<and>
    map tk_ID (Tokens (sto_state t)) = map (\<lambda>k. TrimSpace (mk_ID k)) (ms_Keys snapshot) \<and>
    map tk_Hash (Tokens (sto_state t)) = map (\<lambda>k. ToLower (TrimSpace (mk_Hash k))) (ms_Keys snapshot) \<and>
    list_all2 (reattached (Tokens (sto_state t))) (Reservations (sto_state s)) (Reservations (sto_state t)) \<and>
    Authorizations (sto_state t) = Authorizations (sto_state s) \<and>
    (\<forall>secret now'. HashToken env (TrimSpace secret) \<notin> (\<lambda>k. ToLower (TrimSpace (mk_Hash k))) ` set (ms_Keys snapshot) \<longrightarrow>
       snd (snd (snd (ValidateToken env secret now' t))) = Some ErrTokenNotFound)"
proof -
  from assms(1,2) obtain ts s1 where toks: "managed_tokens now [] (ms_Keys snapshot) = Inr ts" and
    s1: "same_data s s1" and
    lock: "sync_locked env (TrimSpace (ms_SnapshotID snapshot)) (TrimSpace (ms_AuthorityID snapshot)) ts s1 = (t, Inr res)"
    by (rule SyncManagedUserKeys_Inr)
  from sync_locked_Inr [OF lock] assms(2,3) s1 obtain rs where
    rs: "list_all2 (reattached ts) (Reservations (sto_state s)) rs" and t: "sto_loaded t"
    "sto_state t = (sto_state s)\<lparr>ManagedKeyAuthority := TrimSpace (ms_AuthorityID snapshot), Reservations := rs,
       Tokens := ts, ManagedKeys := True, KeySnapshotID := TrimSpace (ms_SnapshotID snapshot)\<rparr>"
    by (auto simp: same_dataD split: if_splits)
  have ok: "managed_ok ts" by (rule managed_tokens_ok [OF toks]) (simp add: managed_ok_def)
  have rows: "map tk_ID ts = map (\<lambda>k. TrimSpace (mk_ID k)) (ms_Keys snapshot)"
    "map tk_Hash ts = map (\<lambda>k. ToLower (TrimSpace (mk_Hash k))) (ms_Keys snapshot)"
    using managed_tokens_rows [OF toks] by simp_all
  have hashes: "tk_Hash ` set ts = (\<lambda>k. ToLower (TrimSpace (mk_Hash k))) ` set (ms_Keys snapshot)"
    using arg_cong [OF rows(2), of set] by simp
  have "snd (snd (snd (ValidateToken env secret now' t))) = Some ErrTokenNotFound"
    if "HashToken env (TrimSpace secret) \<notin> (\<lambda>k. ToLower (TrimSpace (mk_Hash k))) ` set (ms_Keys snapshot)"
    for secret now'
  proof -
    have "find (\<lambda>x. tk_Hash x = HashToken env (TrimSpace secret)) ts = None"
      using that unfolding find_None_iff hashes [symmetric] by force
    then show ?thesis by (simp add: ValidateToken_def loadLocked_def t Let_def)
  qed
  with ok rows rs t show ?thesis by simp
qed

definition example_snapshot :: ManagedUserKeySnapshot where
  "example_snapshot = \<lparr>ms_SnapshotID = ''snap-1'', ms_AuthorityID = ''gateway-1'',
     ms_Keys = [\<lparr>mk_ID = ''key-1'', mk_Owner = ''Alice'', mk_Version = 1, mk_Hash = replicate 64 CHR ''a''\<rparr>]\<rparr>"

definition example_synced :: Store where
  "example_synced = fst (SyncManagedUserKeys example_env example_root_key example_snapshot 1500 example_booked)"

theorem sync_cutover_witness:
  "map tk_ID (Tokens (sto_state example_synced)) = [''key-1''] \<and>
   snd (snd (snd (ValidateToken example_env ''gk_old'' 2000 example_synced))) = Some ErrTokenNotFound"
proof -
  let ?r = "SyncManagedUserKeys example_env example_root_key example_snapshot 1500 example_booked"
  have "\<not> isl (snd ?r)" by code_simp
  then obtain res where r: "?r = (example_synced, Inr res)"
    by (auto simp: example_synced_def dest!: snd_not_isl)
  have new: "\<not> (ManagedKeys (sto_state example_booked) \<and>
      KeySnapshotID (sto_state example_booked) = TrimSpace (ms_SnapshotID example_snapshot))" by code_simp
  have facts: "TrimSpace ''key-1'' = ''key-1''"
    "HashToken example_env (TrimSpace ''gk_old'') \<noteq> ToLower (TrimSpace (replicate 64 CHR ''a''))" by code_simp+
  have keys: "ms_Keys example_snapshot =
      [\<lparr>mk_ID = ''key-1'', mk_Owner = ''Alice'', mk_Version = 1, mk_Hash = replicate 64 CHR ''a''\<rparr>]"
    by (simp add: example_snapshot_def)
  from sync_cutover [OF r example_store_simps(4) new] facts show ?thesis
    by (simp only: keys list.map list.set image_insert image_empty ManagedUserKey.simps) blast
qed

text \<open>
  only the node's authority can replace its keys. Once a node has an authority, a snapshot of
  another or of no authority is refused and changes nothing of the store's data; and a snapshot
  the node already has is acknowledged without changing its keys or reservations.
\<close>

theorem sync_authority:
  assumes "sto_loaded s" "ManagedKeyAuthority (sto_state s) \<noteq> []"
  shows "(TrimSpace (ms_AuthorityID snapshot) \<noteq> ManagedKeyAuthority (sto_state s) \<longrightarrow>
      isl (snd (SyncManagedUserKeys env k snapshot now s)) \<and>
      same_data s (fst (SyncManagedUserKeys env k snapshot now s))) \<and>
    (ManagedKeys (sto_state s) \<and> KeySnapshotID (sto_state s) = TrimSpace (ms_SnapshotID snapshot) \<longrightarrow>
      same_data s (fst (SyncManagedUserKeys env k snapshot now s)))"
proof -
  have lock: "isl (snd (sync_locked env snap a ts s1)) \<and> fst (sync_locked env snap a ts s1) = s1"
    if "same_data s s1" "a \<noteq> ManagedKeyAuthority (sto_state s)" for snap a ts s1
    using that assms(2) by (simp add: sync_locked_def Let_def same_dataD)
  have same: "fst (sync_locked env (KeySnapshotID (sto_state s)) a ts s1) = s1"
    if "same_data s s1" "ManagedKeys (sto_state s)" for a ts s1
    using that assms(2) by (simp add: sync_locked_def Let_def same_dataD)
  have root: "P (with_root env k s body)"
    if "\<And>e s1. same_data s s1 \<Longrightarrow> P (s1, Inl e)" "\<And>s1. same_data s s1 \<Longrightarrow> P (body s1)"
    for P and body :: "Store \<Rightarrow> ManagedUserKeySyncResult result"
    using that by (auto simp: with_root_def split: prod.split sum.split dest: same_data_ValidateRootKey)
  show ?thesis
    unfolding SyncManagedUserKeys_def Let_def
    by (intro conjI impI; rule root)
      (use assms(1) lock same in \<open>auto simp: same_dataD split: option.split sum.split\<close>)
qed

theorem sync_authority_witness:
  "isl (snd (SyncManagedUserKeys example_env example_root_key
     (example_snapshot\<lparr>ms_AuthorityID := ''gateway-2''\<rparr>) 1600 example_synced))"
proof -
  have "sto_loaded example_synced" "ManagedKeyAuthority (sto_state example_synced) = ''gateway-1''"
    "TrimSpace (ms_AuthorityID (example_snapshot\<lparr>ms_AuthorityID := ''gateway-2''\<rparr>)) \<noteq> ''gateway-1''" by code_simp+
  with sync_authority [of example_synced "example_snapshot\<lparr>ms_AuthorityID := ''gateway-2''\<rparr>"
      example_env example_root_key 1600] show ?thesis by simp
qed

end
