(* ===== verification/Match.thy ===== *)
theory Match
  imports Store_Register
begin

text \<open>
  The matchers of the enforcement engine (\<open>internal/enforce/enforce.go\<close>): wildcard patterns,
  container identifiers, cgroup paths, bypass rules and the runtime identity of a soft claim, with
  the parts of Go's \<open>strings\<close> and \<open>path\<close> packages they use.
\<close>

section \<open>Go text functions\<close>

text \<open>\<open>strings.Split\<close> with a separator of one byte.\<close>

fun Split :: "char \<Rightarrow> string \<Rightarrow> string list" where
  "Split c [] = [[]]"
| "Split c (x # xs) = (if x = c then [] # Split c xs
     else (case Split c xs of p # ps \<Rightarrow> (x # p) # ps | [] \<Rightarrow> [[x]]))"

text \<open>\<open>strings.Index\<close>: the first position at which the text occurs, if any.\<close>

fun Index :: "string \<Rightarrow> string \<Rightarrow> nat option" where
  "Index [] sub = (if sub = [] then Some 0 else None)"
| "Index (x # xs) sub = (if prefix sub (x # xs) then Some 0 else map_option Suc (Index xs sub))"

text \<open>\<open>strings.SplitN(s, sep, 3)\<close> with a separator of one byte: at most two cuts.\<close>

definition cut :: "char \<Rightarrow> string \<Rightarrow> string \<times> string option" where
  "cut c s = (takeWhile (\<lambda>x. x \<noteq> c) s,
     case dropWhile (\<lambda>x. x \<noteq> c) s of [] \<Rightarrow> None | _ # r \<Rightarrow> Some r)"

definition SplitN3 :: "char \<Rightarrow> string \<Rightarrow> string list" where
  "SplitN3 c s = (case cut c s of (a, None) \<Rightarrow> [a]
     | (a, Some r) \<Rightarrow> (case cut c r of (b, None) \<Rightarrow> [a, b] | (b, Some r') \<Rightarrow> [a, b, r']))"

text \<open>
  \<open>path.Clean\<close> of a rooted path: empty and \<open>.\<close> elements are dropped, \<open>..\<close> drops the element
  before it, and does nothing at the root.
\<close>

definition slash :: char where "slash = CHR ''/''"

fun clean_elements :: "string list \<Rightarrow> string list \<Rightarrow> string list" where
  "clean_elements stack [] = rev stack"
| "clean_elements stack (e # es) =
     (if e = [] \<or> e = ''.'' then clean_elements stack es
      else if e = ''..'' then clean_elements (tl stack) es
      else clean_elements (e # stack) es)"

definition join_path :: "string list \<Rightarrow> string" where
  "join_path es = (if es = [] then [slash] else concat (map (\<lambda>e. slash # e) es))"

definition path_Clean :: "string \<Rightarrow> string" where
  "path_Clean p = join_path (clean_elements [] (Split slash p))"

section \<open>Matchers\<close>

text \<open>The loop over the parts of the pattern after the first; \<open>None\<close> is its early return.\<close>

fun wildcard_scan :: "string \<Rightarrow> string list \<Rightarrow> string option" where
  "wildcard_scan rest [] = Some rest"
| "wildcard_scan rest (part # parts) =
     (if part = [] then wildcard_scan rest parts
      else case Index rest part of None \<Rightarrow> None
      | Some i \<Rightarrow> wildcard_scan (drop (i + length part) rest) parts)"

definition wildcardMatch :: "string \<Rightarrow> string \<Rightarrow> bool" where
  "wildcardMatch pattern0 value0 =
     (let pattern = TrimSpace pattern0; v = TrimSpace value0 in
      if pattern = [] then False
      else if CHR ''*'' \<notin> set pattern then pattern = v
      else if pattern = ''*'' then True
      else let parts = Split (CHR ''*'') pattern in
        if hd parts \<noteq> [] \<and> \<not> prefix (hd parts) v then False
        else (case wildcard_scan (drop (length (hd parts)) v) (tl parts) of
            None \<Rightarrow> False
          | Some _ \<Rightarrow> last parts = [] \<or> suffix (last parts) v))"

definition sameContainer :: "string \<Rightarrow> string \<Rightarrow> bool" where
  "sameContainer a0 b0 =
     (let a = ToLower (TrimSpace a0); b = ToLower (TrimSpace b0) in
      if a = [] \<or> b = [] then False
      else if a = b then True
      else let shorter = (if length a > length b then b else a);
               longer = (if length a > length b then a else b) in
        length shorter \<ge> 12 \<and> prefix shorter longer)"

definition normalizeCgroupPath :: "string \<Rightarrow> string" where
  "normalizeCgroupPath value0 = (let v = TrimSpace value0 in
     if v = [] then [] else path_Clean (if prefix [slash] v then v else slash # v))"

definition cgroup_mount :: string where "cgroup_mount = ''/sys/fs/cgroup''"

definition normalizeCgroupMountPath :: "string \<Rightarrow> string" where
  "normalizeCgroupMountPath value0 = (let v = TrimSpace value0 in
     if v = cgroup_mount then ''/''
     else normalizeCgroupPath (if prefix (cgroup_mount @ ''/'') v then drop (length cgroup_mount) v else v))"

definition cgroup_line :: "string \<Rightarrow> string" where
  "cgroup_line line = (let candidate = TrimSpace line; fields = SplitN3 (CHR '':'') candidate in
     normalizeCgroupPath (if length fields = 3 then fields ! 2 else candidate))"

definition bareCgroupMatches :: "string \<Rightarrow> string \<Rightarrow> string \<Rightarrow> bool" where
  "bareCgroupMatches raw relative absolute =
     (let targets = filter (\<lambda>t. t \<noteq> []) [normalizeCgroupPath relative, normalizeCgroupMountPath absolute] in
      list_ex (\<lambda>line. let actual = cgroup_line line in actual \<noteq> [] \<and>
        list_ex (\<lambda>target. actual = target \<or> prefix (target @ ''/'') actual \<or> target = ''/'') targets)
      (Split (char_of (10::nat)) raw))"

definition bypass_rule_matches :: "BypassRule \<Rightarrow> ProcInfo \<Rightarrow> string \<Rightarrow> bool" where
  "bypass_rule_matches rule info bootID =
     (if br_Type rule = BypassPID then
        bootID \<noteq> [] \<and> br_BootID rule = bootID \<and> br_PID rule = pi_PID info \<and>
        br_StartTime rule \<noteq> 0 \<and> br_StartTime rule = pi_StartTime info
      else if br_Type rule = BypassCommand then
        br_UID rule = 0 \<and> pi_UID info = 0 \<and> br_Command rule \<noteq> [] \<and> br_Command rule = pi_CommandPath info
      else False)"

definition BypassMatch :: "BypassRule list \<Rightarrow> ProcInfo \<Rightarrow> time \<Rightarrow> string \<Rightarrow> bool" where
  "BypassMatch rules info now bootID =
     list_ex (\<lambda>rule. \<not> (br_Revoked rule \<or> \<not> now < br_ExpiresAt rule) \<and>
       bypass_rule_matches rule info bootID) rules"

definition SoftClaimRuntimeMatches :: "SoftClaim \<Rightarrow> ProcInfo \<Rightarrow> bool" where
  "SoftClaimRuntimeMatches claim info =
     (if sc_RuntimeContainerID claim \<noteq> [] then sameContainer (sc_RuntimeContainerID claim) (pi_ContainerID info)
      else if sc_RuntimeCgroup claim \<noteq> [] then bareCgroupMatches (pi_Cgroup info) (sc_RuntimeCgroup claim) []
      else if sc_RuntimePID claim > 0 then
        (if sc_RuntimePID claim \<noteq> pi_PID info then False
         else sc_RuntimeStartTime claim = 0 \<or> sc_RuntimeStartTime claim = pi_StartTime info)
      else False)"

definition setSoftClaimRuntimeIdentity :: "SoftClaim \<Rightarrow> Authorization \<Rightarrow> ProcInfo \<Rightarrow> SoftClaim" where
  "setSoftClaimRuntimeIdentity claim a info =
     (let by_pid = claim\<lparr>sc_RuntimePID := pi_PID info, sc_RuntimeStartTime := pi_StartTime info\<rparr> in
      if au_Mode a = ModeDocker \<or> au_Mode a = ModeK8s then
        (if pi_ContainerID info \<noteq> [] then claim\<lparr>sc_RuntimeContainerID := pi_ContainerID info\<rparr> else by_pid)
      else if au_Mode a = ModeBare then
        (let target0 = normalizeCgroupPath (au_CgroupRel a);
             target = (if target0 = [] then normalizeCgroupMountPath (au_CgroupPath a) else target0) in
         if target \<noteq> [] \<and> bareCgroupMatches (pi_Cgroup info) target []
         then claim\<lparr>sc_RuntimeCgroup := target\<rparr> else by_pid)
      else by_pid)"

section \<open>Wildcards mean globs\<close>

text \<open>The declarative meaning of a pattern: a star stands for any text.\<close>

fun glob :: "string \<Rightarrow> string \<Rightarrow> bool" where
  "glob [] v = (v = [])"
| "glob (c # p) v = (if c = CHR ''*'' then \<exists>w \<in> set (suffixes v). glob p w
     else (case v of [] \<Rightarrow> False | x # v' \<Rightarrow> x = c \<and> glob p v'))"

text \<open>The same over the parts between the stars.\<close>

fun tail_parts :: "string list \<Rightarrow> string \<Rightarrow> bool" where
  "tail_parts [] v = False"
| "tail_parts [q] v = suffix q v"
| "tail_parts (q # qs) v = (\<exists>u w. v = u @ q @ w \<and> tail_parts qs w)"

lemma Split_nonempty [simp]: "Split c s \<noteq> []"
  by (induction s) (auto split: list.splits)

lemma Split_no_sep: "c \<notin> set s \<Longrightarrow> Split c s = [s]"
  by (induction s) auto

lemma Split_hd: "Split c s = hd (Split c s) # tl (Split c s)"
  by simp

lemma Split_tl_nonempty: "c \<in> set s \<Longrightarrow> tl (Split c s) \<noteq> []"
  by (induction s) (auto split: list.splits)

lemma tail_parts_extend: "tail_parts qs w \<Longrightarrow> tail_parts qs (u @ w)"
proof (induction qs w rule: tail_parts.induct)
  case (3 q q' qs w)
  then obtain u' w' where "w = u' @ q @ w'" "tail_parts (q' # qs) w'" by auto
  then have "u @ w = (u @ u') @ q @ w' \<and> tail_parts (q' # qs) w'" by simp
  then show ?case unfolding tail_parts.simps(3) by blast
qed (auto simp: suffix_def)

lemma glob_star: "glob (CHR ''*'' # p) v \<longleftrightarrow> (\<exists>u w. v = u @ w \<and> glob p w)"
  by (simp add: suffix_def Bex_def) blast

lemma glob_parts:
  "glob p v \<longleftrightarrow> (if tl (Split (CHR ''*'') p) = [] then v = p
     else \<exists>w. v = hd (Split (CHR ''*'') p) @ w \<and> tail_parts (tl (Split (CHR ''*'') p)) w)"
proof (induction p arbitrary: v)
  case (Cons c p)
  let ?s = "Split (CHR ''*'') p"
  show ?case
  proof (cases "c = CHR ''*''")
    case True
    have "glob (c # p) v \<longleftrightarrow> (\<exists>u w. v = u @ w \<and> glob p w)"
      unfolding True by (rule glob_star)
    also have "\<dots> \<longleftrightarrow> tail_parts ?s v"
    proof (cases "tl ?s = []")
      case tl: True
      then have "CHR ''*'' \<notin> set p" using Split_tl_nonempty by metis
      then have "?s = [p]" by (rule Split_no_sep)
      with Cons.IH show ?thesis by (auto simp: suffix_def)
    next
      case tl: False
      then obtain q qs where "tl ?s = q # qs" by (cases "tl ?s") auto
      then have s: "?s = hd ?s # q # qs" using Split_hd by metis
      have IH: "glob p w \<longleftrightarrow> (\<exists>w'. w = hd ?s @ w' \<and> tail_parts (q # qs) w')" for w
        using Cons.IH [of w] tl \<open>tl ?s = q # qs\<close> by simp
      have "tail_parts ?s v \<longleftrightarrow> (\<exists>u w. v = u @ hd ?s @ w \<and> tail_parts (q # qs) w)"
        by (subst s) simp
      then show ?thesis unfolding IH by blast
    qed
    finally show ?thesis using True by simp
  next
    case False
    obtain q qs where s: "?s = q # qs" by (cases ?s) auto
    with False Cons.IH show ?thesis
      by (cases v) auto
  qed
qed auto

lemma Index_Some:
  "Index s sub = Some i \<Longrightarrow> i + length sub \<le> length s \<and> s = take i s @ sub @ drop (i + length sub) s"
proof (induction s arbitrary: i)
  case (Cons x xs)
  show ?case
  proof (cases "prefix sub (x # xs)")
    case True
    with Cons.prems prefix_length_le [OF True] show ?thesis by (auto simp: prefix_def)
  next
    case False
    with Cons.prems obtain j where "i = Suc j" "Index xs sub = Some j" by auto
    with Cons.IH [of j] show ?thesis by simp
  qed
qed (auto split: if_splits)

lemma Index_leftmost:
  "s = u @ sub @ w \<Longrightarrow> \<exists>i. Index s sub = Some i \<and> i \<le> length u"
proof (induction s arbitrary: u)
  case (Cons x xs)
  show ?case
  proof (cases "prefix sub (x # xs)")
    case False
    with Cons.prems obtain u' where "u = x # u'" "xs = u' @ sub @ w" by (cases u) (auto simp: prefix_def)
    with Cons.IH [of u'] False show ?thesis by auto
  qed simp
qed auto

text \<open>Cutting at the first occurrence loses no match.\<close>

lemma tail_parts_leftmost:
  assumes "qs \<noteq> []"
  shows "tail_parts (q # qs) v \<longleftrightarrow>
    (case Index v q of None \<Rightarrow> False | Some i \<Rightarrow> tail_parts qs (drop (i + length q) v))"
proof
  obtain q' qs' where qs: "qs = q' # qs'" using assms by (cases qs) auto
  assume "tail_parts (q # qs) v"
  with qs obtain u w where v: "v = u @ q @ w" "tail_parts qs w" by auto
  with Index_leftmost obtain i where i: "Index v q = Some i" "i \<le> length u" by blast
  have "drop (i + length q) v = drop (i + length q) (u @ q) @ w"
    using v(1) i(2) by simp
  with v(2) tail_parts_extend i(1)
  show "case Index v q of None \<Rightarrow> False | Some i \<Rightarrow> tail_parts qs (drop (i + length q) v)"
    by (metis option.simps(5))
next
  obtain q' qs' where qs: "qs = q' # qs'" using assms by (cases qs) auto
  assume "case Index v q of None \<Rightarrow> False | Some i \<Rightarrow> tail_parts qs (drop (i + length q) v)"
  then obtain i where "Index v q = Some i" "tail_parts qs (drop (i + length q) v)"
    by (auto split: option.splits)
  with Index_Some [of v q i] qs show "tail_parts (q # qs) v" by auto
qed

lemma suffix_within: "suffix q v \<Longrightarrow> suffix w v \<Longrightarrow> length q \<le> length w \<Longrightarrow> suffix q w"
  by (metis suffix_length_suffix)

text \<open>The scan with the final test on the whole value decides the parts.\<close>

lemma wildcard_scan_parts:
  "qs \<noteq> [] \<Longrightarrow> suffix rest v \<Longrightarrow>
     (case wildcard_scan rest qs of None \<Rightarrow> False | Some _ \<Rightarrow> last qs = [] \<or> suffix (last qs) v)
       \<longleftrightarrow> tail_parts qs rest"
proof (induction qs arbitrary: rest)
  case (Cons q qs)
  have drop: "suffix (drop n rest) v" for n
    using Cons.prems(2) suffix_drop suffix_order.trans by blast
  show ?case
  proof (cases "qs = []")
    case True
    show ?thesis
    proof (cases "q = []")
      case False
      have "suffix q rest \<longleftrightarrow> Index rest q \<noteq> None \<and> suffix q v"
      proof
        assume a: "suffix q rest"
        then obtain u where "rest = u @ q @ []" by (auto simp: suffix_def)
        from Index_leftmost [OF this] a Cons.prems(2) show "Index rest q \<noteq> None \<and> suffix q v"
          using suffix_order.trans by auto
      next
        assume "Index rest q \<noteq> None \<and> suffix q v"
        then obtain i where "Index rest q = Some i" "suffix q v" by auto
        with Index_Some [of rest q i] suffix_within Cons.prems(2) show "suffix q rest"
          by (metis add_leD2)
      qed
      with True False show ?thesis by (auto split: option.splits)
    qed (use True in auto)
  next
    case False
    have last: "last (q # qs) = last qs" using False by simp
    show ?thesis
    proof (cases "q = []")
      case True
      have "Index rest [] = Some 0" by (cases rest) auto
      with True False tail_parts_leftmost [OF False, of q rest] Cons.IH [OF False Cons.prems(2)]
      show ?thesis unfolding last by simp
    next
      case q: False
      note leftmost = tail_parts_leftmost [OF False, of q rest]
      show ?thesis
      proof (cases "Index rest q")
        case None
        with q leftmost show ?thesis by simp
      next
        case (Some i)
        from Cons.IH [OF False drop [of "i + length q"]] leftmost Some q show ?thesis
          unfolding last by simp
      qed
    qed
  qed
qed simp

text \<open>
  wildcards mean globs. The scanner of the enforcement engine, which cuts at the first
  occurrence of each literal part and never backtracks, accepts exactly the values the pattern
  describes when every star stands for any text, surrounding blanks aside; an empty pattern
  accepts nothing.
\<close>

theorem wildcardMatch_glob:
  "wildcardMatch pattern v \<longleftrightarrow> TrimSpace pattern \<noteq> [] \<and> glob (TrimSpace pattern) (TrimSpace v)"
proof -
  let ?p = "TrimSpace pattern" and ?v = "TrimSpace v"
  let ?s = "Split (CHR ''*'') ?p"
  consider "?p = []" | "?p \<noteq> []" "CHR ''*'' \<notin> set ?p" | "?p = ''*''"
    | "?p \<noteq> []" "CHR ''*'' \<in> set ?p" "?p \<noteq> ''*''" by blast
  then show ?thesis
  proof cases
    case 2
    then show ?thesis by (simp add: wildcardMatch_def Let_def glob_parts Split_no_sep eq_commute)
  next
    case 3
    have "glob ''*'' ?v" by (auto simp: glob_star)
    with 3 show ?thesis by (simp add: wildcardMatch_def Let_def)
  next
    case 4
    note tl = Split_tl_nonempty [OF 4(2)]
    have last: "last ?s = last (tl ?s)" using tl by (metis Split_hd last_ConsR)
    have g: "glob ?p ?v \<longleftrightarrow> prefix (hd ?s) ?v \<and> tail_parts (tl ?s) (drop (length (hd ?s)) ?v)"
      using tl by (auto simp: glob_parts prefix_def)
    have "suffix (drop (length (hd ?s)) ?v) ?v" by (rule suffix_drop)
    from wildcard_scan_parts [OF tl this] g last 4 show ?thesis
      by (auto simp: wildcardMatch_def Let_def split: option.splits)
  qed (simp add: wildcardMatch_def)
qed

section \<open>Containers\<close>

lemma prefix_same_length:
  "prefix (ToLower x) (ToLower y) \<Longrightarrow> length x = length y \<Longrightarrow> ToLower x = ToLower y"
  by (auto simp: prefix_def ToLower_def dest: map_eq_imp_length_eq) (metis append_Nil2 append_eq_conv_conj length_map map_append take_all_iff order_refl)

text \<open>
  container identifiers. Two identifiers name the same container exactly when, blanks and
  letter case aside, they are equal and not empty, or the shorter has at least twelve characters
  and is a prefix of the longer; the relation is symmetric.
\<close>

theorem sameContainer_spec:
  "sameContainer a b = sameContainer b a \<and>
   (sameContainer a b \<longleftrightarrow> (let x = ToLower (TrimSpace a); y = ToLower (TrimSpace b) in
      x \<noteq> [] \<and> y \<noteq> [] \<and> (x = y \<or> (12 \<le> length x \<and> prefix x y) \<or> (12 \<le> length y \<and> prefix y x))))"
  by (auto simp: sameContainer_def Let_def not_less dest: prefix_length_le prefix_same_length)

section \<open>Control groups\<close>

definition path_elements :: "string \<Rightarrow> string list" where
  "path_elements p = filter (\<lambda>e. e \<noteq> []) (Split slash p)"

definition plain_elements :: "string list \<Rightarrow> bool" where
  "plain_elements es \<longleftrightarrow> (\<forall>e \<in> set es. e \<noteq> [] \<and> slash \<notin> set e)"

lemma Split_sep: "slash \<notin> set e \<Longrightarrow> Split slash (e @ slash # s) = e # Split slash s"
  by (induction e) auto

lemma Split_elements_no_sep: "e \<in> set (Split c s) \<Longrightarrow> c \<notin> set e"
  by (induction s arbitrary: e) (auto split: list.splits if_splits)

lemma path_elements_encode:
  "plain_elements es \<Longrightarrow> path_elements (concat (map (\<lambda>e. slash # e) es)) = es"
proof (induction es)
  case Nil
  then show ?case by (simp add: path_elements_def)
next
  case (Cons e es)
  then have e: "e \<noteq> []" "slash \<notin> set e" "plain_elements es" by (auto simp: plain_elements_def)
  let ?r = "concat (map (\<lambda>e. slash # e) es)"
  have "path_elements (slash # e @ ?r) = e # path_elements ?r"
  proof (cases es)
    case Nil
    with e show ?thesis by (simp add: path_elements_def Split_no_sep)
  next
    case (Cons e' es')
    with e show ?thesis by (simp add: path_elements_def Split_sep)
  qed
  with Cons.IH [OF e(3)] show ?case by simp
qed

lemma path_elements_join: "plain_elements es \<Longrightarrow> path_elements (join_path es) = es"
  using path_elements_encode [of es] by (auto simp: join_path_def path_elements_def)

lemma clean_elements_plain:
  "plain_elements stack \<Longrightarrow> \<forall>e \<in> set es. slash \<notin> set e \<Longrightarrow> plain_elements (clean_elements stack es)"
proof (induction stack es rule: clean_elements.induct)
  case (2 stack e es)
  have "plain_elements (tl stack)" using 2(4) by (cases stack) (auto simp: plain_elements_def)
  moreover have "plain_elements (e # stack)" if "e \<noteq> []"
    using 2(4,5) that by (simp add: plain_elements_def)
  moreover have "\<forall>e \<in> set es. slash \<notin> set e" using 2(5) by simp
  ultimately show ?case using 2(1-4) by simp
qed (simp add: plain_elements_def)

lemma takeWhile_plain: "slash \<notin> set a \<Longrightarrow> takeWhile (\<lambda>c. c \<noteq> slash) a = a"
  by (induction a) auto

lemma path_Clean_join: "\<exists>es. plain_elements es \<and> path_Clean p = join_path es"
  using clean_elements_plain [of "[]" "Split slash p"] Split_elements_no_sep
  by (auto simp: path_Clean_def plain_elements_def)

lemma normalizeCgroupPath_join:
  "normalizeCgroupPath v \<noteq> [] \<Longrightarrow> \<exists>es. plain_elements es \<and> normalizeCgroupPath v = join_path es"
  by (auto simp: normalizeCgroupPath_def Let_def path_Clean_join split: if_splits)

lemma normalizeCgroupMountPath_join:
  "normalizeCgroupMountPath v \<noteq> [] \<Longrightarrow> \<exists>es. plain_elements es \<and> normalizeCgroupMountPath v = join_path es"
  by (auto simp: normalizeCgroupMountPath_def Let_def dest!: normalizeCgroupPath_join split: if_splits)
    (auto simp: join_path_def slash_def plain_elements_def intro!: exI [of _ "[]"])

lemma encode_prefix:
  assumes "plain_elements ts" "plain_elements as"
  shows "prefix (concat (map (\<lambda>e. slash # e) ts) @ [slash]) (concat (map (\<lambda>e. slash # e) as)) \<longleftrightarrow>
    prefix ts as \<and> ts \<noteq> as"
proof
  let ?enc = "\<lambda>es. concat (map (\<lambda>e. slash # e) es)"
  show "prefix (?enc ts @ [slash]) (?enc as)" if "prefix ts as \<and> ts \<noteq> as"
  proof -
    from that obtain e es where "as = ts @ e # es" by (auto simp: prefix_def) (metis neq_Nil_conv)
    then show ?thesis by simp
  qed
  show "prefix ts as \<and> ts \<noteq> as" if "prefix (?enc ts @ [slash]) (?enc as)"
    using that assms
  proof (induction ts arbitrary: as)
    case Nil
    then show ?case by (cases as) auto
  next
    case (Cons t ts)
    from Cons.prems(1) obtain a as' where as: "as = a # as'" by (cases as) auto
    let ?x = "?enc ts @ [slash]"
    have plain: "slash \<notin> set t" "slash \<notin> set a" "plain_elements ts" "plain_elements as'"
      using Cons.prems as by (auto simp: plain_elements_def)
    from Cons.prems(1) as have p: "prefix (t @ ?x) (a @ ?enc as')" by simp
    obtain x' where x: "?x = slash # x'" by (cases ts) auto
    from p obtain z where z: "a @ ?enc as' = t @ slash # x' @ z" by (auto simp: x prefix_def)
    have "a = takeWhile (\<lambda>c. c \<noteq> slash) (a @ ?enc as')"
      using plain(2) by (cases as') (simp_all add: takeWhile_tail takeWhile_plain)
    also have "\<dots> = t"
      unfolding z using plain(1) by (simp add: takeWhile_tail takeWhile_plain)
    finally have "a = t" .
    with p Cons.IH [of as'] plain(3,4) as show ?case by simp
  qed
qed

lemma join_path_inside:
  assumes "plain_elements ts" "plain_elements as"
  shows "join_path as = join_path ts \<or> prefix (join_path ts @ ''/'') (join_path as) \<or> join_path ts = ''/''
    \<longleftrightarrow> prefix ts as"
proof (cases "ts = []")
  case False
  have "join_path as = join_path ts \<longleftrightarrow> as = ts"
    using path_elements_join [OF assms(1)] path_elements_join [OF assms(2)] by auto
  moreover have "join_path ts \<noteq> ''/''"
    using False assms(1) by (cases ts) (auto simp: join_path_def plain_elements_def slash_def)
  moreover have "prefix (join_path ts @ ''/'') (join_path as) \<longleftrightarrow> prefix ts as \<and> ts \<noteq> as"
  proof (cases "as = []")
    case True
    with False \<open>join_path ts \<noteq> ''/''\<close> show ?thesis
      by (auto simp: join_path_def prefix_Cons slash_def)
  next
    case as: False
    with False encode_prefix [OF assms] show ?thesis by (simp add: join_path_def slash_def)
  qed
  ultimately show ?thesis by auto
qed (simp add: join_path_def slash_def)

text \<open>
  a control group scope covers whole path elements. A process is inside a bare scope exactly
  when one of its cgroup lines names a path that, element by element, starts with the scope's
  relative or mounted path; \<open>/jobs/1\<close> never covers \<open>/jobs/10\<close>, and a scope without a path
  covers nothing.
\<close>

theorem bareCgroupMatches_elements:
  "bareCgroupMatches raw relative absolute \<longleftrightarrow>
     (\<exists>line \<in> set (Split (char_of (10::nat)) raw). cgroup_line line \<noteq> [] \<and>
       (\<exists>target \<in> {normalizeCgroupPath relative, normalizeCgroupMountPath absolute}.
          target \<noteq> [] \<and> prefix (path_elements target) (path_elements (cgroup_line line))))"
proof -
  have inside: "(actual = target \<or> prefix (target @ ''/'') actual \<or> target = ''/'') \<longleftrightarrow>
      prefix (path_elements target) (path_elements actual)"
    if "\<exists>es. plain_elements es \<and> actual = join_path es" "\<exists>es. plain_elements es \<and> target = join_path es"
    for actual target
  proof -
    from that obtain as ts where "plain_elements as" "actual = join_path as" "plain_elements ts" "target = join_path ts"
      by blast
    with join_path_inside [of ts as] show ?thesis by (simp add: path_elements_join)
  qed
  have line: "\<exists>es. plain_elements es \<and> cgroup_line l = join_path es" if "cgroup_line l \<noteq> []" for l
    using that normalizeCgroupPath_join unfolding cgroup_line_def Let_def by blast
  have target: "\<exists>es. plain_elements es \<and> t = join_path es"
    if "t \<in> {normalizeCgroupPath relative, normalizeCgroupMountPath absolute}" "t \<noteq> []" for t
    using that normalizeCgroupPath_join normalizeCgroupMountPath_join by blast
  show ?thesis
    unfolding bareCgroupMatches_def Let_def list_ex_iff
    using inside [OF line target] by (simp only: set_filter set_simps mem_Collect_eq) blast
qed

end
