(* ===== verification/Authorize.thy ===== *)
theory Authorize
  imports Match
begin

text \<open>
  Authorization of a process (\<open>internal/enforce/enforce.go\<close>): the authorizer with the interfaces
  it calls, the scope of an authorization and of a legacy lease, and the search for a matching
  authorization.

  The process reader, the container runtime, the user database and the context are not part of
  the engine: they are functions in the record \<open>Authorizer\<close> and the argument \<open>ctx\<close>. A context is
  polled between steps and may be cancelled at any of them, so \<open>ctx k\<close> is the answer of the
  \<open>k\<close>-th poll (\<open>None\<close>: not cancelled) and every function threads the number of polls. The
  errors that \<open>errors.Join\<close> combines are the list of them, and no error is the empty list.
\<close>

section \<open>Interfaces\<close>

datatype enf_error =
    ErrContext
  | ErrRuntimeNotFound
  | ErrRuntime string
  | ErrNoResolver string string
  | ErrUIDUnavailable string
  | ErrResolve string string enf_error
  | ErrProcNotExist
  | ErrProc string
  | ErrNoReader
  | ErrInspect int enf_error
  | ErrUnverifiable int
  | ErrIdentityChanged int
  | ErrIdentityRead int enf_error
  | ErrPidfd int enf_error
  | ErrNoSuchProcess
  | ErrSignal string
  | ErrRevalidate enf_error
  | ErrStillAlive int

record Resolver =
  res_DockerContainerName :: "string \<Rightarrow> enf_error + string"
  res_NamespaceForContainer :: "string \<Rightarrow> enf_error + string"

text \<open>
  \<open>kl_staged\<close> says whether the killer offers the staged steps; the other fields are its answers.
\<close>

record Killer =
  kl_staged :: bool
  kl_Kill :: "ProcInfo \<Rightarrow> enf_error option"
  kl_Terminate :: "ProcInfo \<Rightarrow> enf_error option"
  kl_ForceKill :: "ProcInfo \<Rightarrow> enf_error option"
  kl_GracePeriod :: duration

record Authorizer =
  az_Proc :: "(int \<Rightarrow> enf_error + ProcInfo) option"
  az_Exists :: "int \<Rightarrow> bool"
  az_Runtime :: "Resolver option"
  az_Killer :: "Killer option"
  az_BootID :: string
  az_ValidateKill :: "(GPUProcess \<Rightarrow> enf_error option) option"
  az_UsernameLookup :: "int \<Rightarrow> enf_error + string"
  az_Now :: time
  az_DryRun :: bool
  az_hasTerminations :: bool
  az_activeTokens :: "(string \<Rightarrow> Token option) option"
  az_errorText :: "enf_error \<Rightarrow> string"

type_synonym ctx = "nat \<Rightarrow> enf_error option"

definition usesGPUResources :: "GPUProcess \<Rightarrow> bool" where
  "usesGPUResources p \<longleftrightarrow> gp_MemBytesUnknown p \<or> gp_MemBytes p > 0"

text \<open>The map from hashes to tokens: a later token with the same hash overwrites an earlier one.\<close>

definition tokens_by_hash :: "Token list \<Rightarrow> string \<Rightarrow> Token option" where
  "tokens_by_hash tokens hash = find (\<lambda>t. tk_Hash t = hash) (rev tokens)"

definition activeTokenByHash :: "Token list \<Rightarrow> string \<Rightarrow> time \<Rightarrow> Token option" where
  "activeTokenByHash tokens hash now =
     (case find (\<lambda>t. tk_Hash t = hash \<and> \<not> tk_Revoked t \<and>
         \<not> (timeIsSet (tk_ExpiresAt t) \<and> \<not> now < tk_ExpiresAt t)) tokens of
        Some t \<Rightarrow> Some (t\<lparr>tk_Mode := NormalizeTokenMode (tk_Mode t)\<rparr>) | None \<Rightarrow> None)"

definition activeReservationsForGPU :: "Reservation list \<Rightarrow> int \<Rightarrow> time \<Rightarrow> Reservation list" where
  "activeReservationsForGPU rs gpu now = filter (\<lambda>r. rs_GPU r = gpu \<and> ReservationActiveAt r now) rs"

definition activeLeasesForGPU :: "Lease list \<Rightarrow> int \<Rightarrow> time \<Rightarrow> Lease list" where
  "activeLeasesForGPU ls gpu now = filter (\<lambda>l. ls_GPU l = gpu \<and> ls_Active l \<and> now < ls_ExpiresAt l) ls"

definition activeSoftClaimsForGPU :: "State \<Rightarrow> int \<Rightarrow> time \<Rightarrow> SoftClaim list" where
  "activeSoftClaimsForGPU st gpu now = filter (\<lambda>c. sc_GPU c = gpu \<and>
     (case activeTokenByHash (Tokens st) (sc_TokenHash c) now of None \<Rightarrow> False
      | Some t \<Rightarrow> NormalizeTokenMode (tk_Mode t) = TokenModeClaimed \<or>
                  NormalizeTokenMode (tk_Mode t) = TokenModeManaged)) (SoftClaims st)"

section \<open>Scopes\<close>

text \<open>\<open>ErrNotFound\<close> of the runtime means no match; every other error is reported.\<close>

definition runtime_scope ::
  "string \<Rightarrow> string \<Rightarrow> (enf_error + string) \<Rightarrow> (string \<Rightarrow> bool) \<Rightarrow> enf_error + bool" where
  "runtime_scope kind ident answer accept = (case answer of
     Inl e \<Rightarrow> if e = ErrRuntimeNotFound then Inr False else Inl (ErrResolve kind ident e)
   | Inr name \<Rightarrow> Inr (accept name))"

definition authorizationScopeMatchesForEviction ::
  "Authorizer \<Rightarrow> Authorization \<Rightarrow> ProcInfo \<Rightarrow> enf_error + bool" where
  "authorizationScopeMatchesForEviction a au info =
     (if au_Mode au = ModeBare then
        Inr (bareCgroupMatches (pi_Cgroup info) (au_CgroupRel au) (au_CgroupPath au))
      else if au_Mode au = ModeDocker then
        (if au_ContainerPattern au \<noteq> [] then
           (if pi_ContainerID info = [] then Inr False
            else case az_Runtime a of None \<Rightarrow> Inl (ErrNoResolver ''docker'' (au_ID au))
            | Some r \<Rightarrow> runtime_scope ''docker'' (au_ID au)
                (res_DockerContainerName r (pi_ContainerID info)) (wildcardMatch (au_ContainerPattern au)))
         else Inr (sameContainer (pi_ContainerID info) (au_ContainerID au)))
      else if au_Mode au = ModeK8s then
        (if pi_ContainerID info = [] then Inr False
         else case az_Runtime a of None \<Rightarrow> Inl (ErrNoResolver ''k8s'' (au_ID au))
         | Some r \<Rightarrow> runtime_scope ''k8s'' (au_ID au)
             (res_NamespaceForContainer r (pi_ContainerID info)) (wildcardMatch (au_Namespace au)))
      else if au_Mode au = ModeUser then
        (if pi_UID info < 0 then Inl (ErrUIDUnavailable (au_ID au))
         else if au_UID au \<ge> 0 then Inr (pi_UID info = au_UID au)
         else case (if pi_Username info = [] then az_UsernameLookup a (pi_UID info)
                    else Inr (pi_Username info)) of
           Inl e \<Rightarrow> Inl (ErrResolve ''user'' (au_ID au) e)
         | Inr username \<Rightarrow> Inr (au_Username au \<noteq> [] \<and> wildcardMatch (au_Username au) username))
      else Inr False)"

definition leaseScopeMatchesForEviction ::
  "Authorizer \<Rightarrow> Lease \<Rightarrow> ProcInfo \<Rightarrow> enf_error + bool" where
  "leaseScopeMatchesForEviction a l info =
     (if ls_Mode l = ModeBare then
        Inr (bareCgroupMatches (pi_Cgroup info) (ls_CgroupRel l) (ls_CgroupPath l))
      else if ls_Mode l = ModeDocker then Inr (sameContainer (pi_ContainerID info) (ls_ContainerID l))
      else if ls_Mode l = ModeK8s then
        (if pi_ContainerID info = [] then Inr False
         else case az_Runtime a of None \<Rightarrow> Inl (ErrNoResolver ''k8s'' (ls_ID l))
         | Some r \<Rightarrow> runtime_scope ''k8s'' (ls_ID l)
             (res_NamespaceForContainer r (pi_ContainerID info)) (\<lambda>ns. ns = ls_Namespace l))
      else Inr False)"

definition authorizationMatchesChecked ::
  "Authorizer \<Rightarrow> Authorization \<Rightarrow> ProcInfo \<Rightarrow> time \<Rightarrow> enf_error + bool" where
  "authorizationMatchesChecked a au info now =
     (if \<not> au_Active au \<or> au_Revoked au \<or> authorizationExpired au now then Inr False
      else authorizationScopeMatchesForEviction a au info)"

definition leaseMatchesChecked :: "Authorizer \<Rightarrow> Lease \<Rightarrow> ProcInfo \<Rightarrow> time \<Rightarrow> enf_error + bool" where
  "leaseMatchesChecked a l info now =
     (if \<not> ls_Active l \<or> \<not> now < ls_ExpiresAt l then Inr False
      else leaseScopeMatchesForEviction a l info)"

section \<open>The search\<close>

definition token_for :: "Authorizer \<Rightarrow> State \<Rightarrow> string \<Rightarrow> time \<Rightarrow> Token option" where
  "token_for a st hash now = (case az_activeTokens a of
     Some lookup \<Rightarrow> lookup hash | None \<Rightarrow> activeTokenByHash (Tokens st) hash now)"

text \<open>
  The guards of the loop over the authorizations: the token mode with which the authorization
  counts, or \<open>None\<close> when the loop goes on to the next. \<open>tokenFilter = None\<close> is the nil map.
\<close>

definition candidate_mode ::
  "Authorizer \<Rightarrow> State \<Rightarrow> string set option \<Rightarrow> string \<Rightarrow> time \<Rightarrow> Authorization \<Rightarrow> string option" where
  "candidate_mode a st tokenFilter tokenMode now au =
     (if \<not> au_Active au \<or> au_Revoked au \<or> authorizationExpired au now then None
      else if (case tokenFilter of None \<Rightarrow> False | Some hs \<Rightarrow> au_TokenHash au \<notin> hs) then None
      else case token_for a st (au_TokenHash au) now of None \<Rightarrow> None
      | Some t \<Rightarrow>
          if tk_Revoked t \<or> (timeIsSet (tk_ExpiresAt t) \<and> \<not> now < tk_ExpiresAt t) then None
          else if tk_Managed t \<and> au_TokenVersion au \<noteq> tk_Version t then None
          else let mode = NormalizeTokenMode (tk_Mode t) in
            if tokenMode \<noteq> [] \<and> mode \<noteq> tokenMode \<and>
               \<not> (tokenMode = TokenModeClaimed \<and> mode = TokenModeManaged) then None
            else Some mode)"

fun match_loop ::
  "Authorizer \<Rightarrow> ctx \<Rightarrow> State \<Rightarrow> ProcInfo \<Rightarrow> string set option \<Rightarrow> string \<Rightarrow> time \<Rightarrow>
     Authorization list \<Rightarrow> enf_error list \<Rightarrow> nat \<Rightarrow> nat \<times> Authorization option \<times> enf_error list" where
  "match_loop a ctx st info tokenFilter tokenMode now [] errs n = (n, None, errs)"
| "match_loop a ctx st info tokenFilter tokenMode now (au # aus) errs n =
     (case ctx n of Some e \<Rightarrow> (Suc n, None, errs @ [e])
      | None \<Rightarrow>
        (case candidate_mode a st tokenFilter tokenMode now au of
           None \<Rightarrow> match_loop a ctx st info tokenFilter tokenMode now aus errs (Suc n)
         | Some mode \<Rightarrow>
             (case authorizationMatchesChecked a (au\<lparr>au_TokenMode := mode\<rparr>) info now of
                Inl e \<Rightarrow> match_loop a ctx st info tokenFilter tokenMode now aus (errs @ [e]) (Suc n)
              | Inr matches \<Rightarrow>
                  if matches then (Suc n, Some (au\<lparr>au_TokenMode := mode\<rparr>), [])
                  else match_loop a ctx st info tokenFilter tokenMode now aus errs (Suc n))))"

definition matchAnyAuthorization ::
  "Authorizer \<Rightarrow> ctx \<Rightarrow> State \<Rightarrow> ProcInfo \<Rightarrow> string set option \<Rightarrow> string \<Rightarrow> time \<Rightarrow> nat \<Rightarrow>
     nat \<times> Authorization option \<times> enf_error list" where
  "matchAnyAuthorization a ctx st info tokenFilter tokenMode now n =
     match_loop a ctx st info tokenFilter tokenMode now (Authorizations st) [] n"

fun matchesAnyLease_loop ::
  "Authorizer \<Rightarrow> ctx \<Rightarrow> ProcInfo \<Rightarrow> time \<Rightarrow> Lease list \<Rightarrow> enf_error list \<Rightarrow> nat \<Rightarrow>
     nat \<times> string option \<times> enf_error list" where
  "matchesAnyLease_loop a ctx info now [] errs n = (n, None, errs)"
| "matchesAnyLease_loop a ctx info now (l # ls) errs n =
     (case ctx n of Some e \<Rightarrow> (Suc n, None, errs @ [e])
      | None \<Rightarrow>
        (case leaseMatchesChecked a l info now of
           Inl e \<Rightarrow> matchesAnyLease_loop a ctx info now ls (errs @ [e]) (Suc n)
         | Inr matches \<Rightarrow>
             if matches then (Suc n, Some (ls_ID l), [])
             else matchesAnyLease_loop a ctx info now ls errs (Suc n)))"

definition matchesAnyLease ::
  "Authorizer \<Rightarrow> ctx \<Rightarrow> Lease list \<Rightarrow> ProcInfo \<Rightarrow> time \<Rightarrow> nat \<Rightarrow> nat \<times> string option \<times> enf_error list" where
  "matchesAnyLease a ctx ls info now n = matchesAnyLease_loop a ctx info now ls [] n"

section \<open>What the search decides\<close>

text \<open>An authorization that lets the process use the GPU: in force, with a valid key, in scope.\<close>

definition entitles ::
  "Authorizer \<Rightarrow> State \<Rightarrow> string set option \<Rightarrow> string \<Rightarrow> time \<Rightarrow> ProcInfo \<Rightarrow> Authorization \<Rightarrow> bool" where
  "entitles a st tokenFilter tokenMode now info au \<longleftrightarrow>
     candidate_mode a st tokenFilter tokenMode now au \<noteq> None \<and>
     authorizationScopeMatchesForEviction a au info = Inr True"

lemma scope_ignores_mode [simp]:
  "authorizationScopeMatchesForEviction a (au\<lparr>au_TokenMode := m\<rparr>) info =
     authorizationScopeMatchesForEviction a au info"
  by (simp add: authorizationScopeMatchesForEviction_def cong: option.case_cong sum.case_cong)

lemma candidate_active:
  "candidate_mode a st tf tm now au = Some mode \<Longrightarrow>
     authorizationMatchesChecked a (au\<lparr>au_TokenMode := mode\<rparr>) info now =
       authorizationScopeMatchesForEviction a au info"
  by (auto simp: candidate_mode_def authorizationMatchesChecked_def authorizationExpired_def
      split: if_splits)

lemma match_loop_Some:
  "match_loop a ctx st info tf tm now aus errs n = (n', Some au', errs') \<Longrightarrow>
     errs' = [] \<and> (\<exists>au \<in> set aus. entitles a st tf tm now info au \<and> au_ID au' = au_ID au \<and>
       au_TokenHash au' = au_TokenHash au \<and> au_Holder au' = au_Holder au \<and> au_Mode au' = au_Mode au)"
proof (induction aus arbitrary: errs n)
  case (Cons au aus)
  then show ?case
    by (auto simp: entitles_def candidate_active split: option.splits sum.splits if_splits)
qed simp

lemma match_loop_None:
  "match_loop a ctx st info tf tm now aus errs n = (n', None, []) \<Longrightarrow>
     errs = [] \<and> (\<forall>au \<in> set aus. \<not> entitles a st tf tm now info au \<and>
       (candidate_mode a st tf tm now au \<noteq> None \<longrightarrow>
          authorizationScopeMatchesForEviction a au info = Inr False))"
proof (induction aus arbitrary: errs n)
  case (Cons au aus)
  from Cons.prems show ?case
    by (auto simp: entitles_def candidate_active split: option.splits sum.splits if_splits
        dest!: Cons.IH)
qed simp

lemma matchAnyAuthorization_Some:
  assumes "matchAnyAuthorization a ctx st info tf tm now n = (n', Some au', errs)"
  shows "errs = []" "\<exists>au \<in> set (Authorizations st). entitles a st tf tm now info au \<and> au_ID au' = au_ID au \<and>
    au_TokenHash au' = au_TokenHash au \<and> au_Holder au' = au_Holder au \<and> au_Mode au' = au_Mode au"
  using match_loop_Some [OF assms [unfolded matchAnyAuthorization_def]] by auto

lemma matchAnyAuthorization_None:
  assumes "matchAnyAuthorization a ctx st info tf tm now n = (n', None, [])"
  shows "\<forall>au \<in> set (Authorizations st). candidate_mode a st tf tm now au \<noteq> None \<longrightarrow>
    authorizationScopeMatchesForEviction a au info = Inr False"
  using match_loop_None [OF assms [unfolded matchAnyAuthorization_def]] by auto

lemma matchesAnyLease_None:
  "matchesAnyLease_loop a ctx info now ls errs n = (n', None, []) \<Longrightarrow>
     errs = [] \<and> (\<forall>l \<in> set ls. leaseMatchesChecked a l info now = Inr False)"
proof (induction ls arbitrary: errs n)
  case (Cons l ls)
  from Cons.prems show ?case
    by (auto split: option.splits sum.splits if_splits dest!: Cons.IH)
qed simp

end
