(* ===== verification/Enforce.thy ===== *)
theory Enforce
  imports Authorize "HOL-Library.Product_Lexorder"
begin

text \<open>
  The enforcement pass (\<open>internal/enforce/enforce.go\<close>): the sampled GPU processes are inspected,
  grouped by GPU and judged against reservations, legacy leases or soft claims; unauthorized
  processes are planned for termination and the plan is executed at the end.

  The record \<open>Pass\<close> holds what the Go functions share by reference during a pass: the decisions,
  the set of targeted process numbers, the planned kills (\<open>None\<close> is the nil slice pointer of a dry
  run), the audit events, the table of terminations under way and the number of context polls. Go
  ranges over the map of GPUs in an arbitrary order, which is the argument \<open>order\<close>.
\<close>

section \<open>Data\<close>

record processView =
  pv_Process :: GPUProcess
  pv_Info :: ProcInfo
  pv_Bypassed :: bool

record pendingKill =
  pk_view :: processView
  pk_reason :: string
  pk_leaseID :: string
  pk_authID :: string
  pk_holder :: string
  pk_tokenHash :: string
  pk_now :: time

record Decision =
  dc_Process :: GPUProcess
  dc_Info :: ProcInfo
  dc_Action :: string
  dc_Reason :: string
  dc_LeaseID :: string
  dc_AuthID :: string
  dc_ClaimID :: string
  dc_Holder :: string
  dc_TokenHash :: string
  dc_Claim :: SoftClaim

definition zero_Decision :: Decision where
  "zero_Decision = \<lparr>dc_Process = zero_GPUProcess, dc_Info = zero_ProcInfo, dc_Action = [], dc_Reason = [],
     dc_LeaseID = [], dc_AuthID = [], dc_ClaimID = [], dc_Holder = [], dc_TokenHash = [],
     dc_Claim = zero_SoftClaim\<rparr>"

record termination_entry =
  tm_pid :: int
  tm_startTime :: uint64
  tm_request :: pendingKill
  tm_deadline :: time
  tm_escalated :: bool

record Pass =
  ps_decisions :: "Decision list"
  ps_targeted :: "int list"
  ps_pending :: "pendingKill list option"
  ps_audits :: "AuditEvent list"
  ps_terms :: "termination_entry list"
  ps_polls :: nat

abbreviation (input) maxKillsPerEnforcementPass :: nat where "maxKillsPerEnforcementPass \<equiv> 8"

abbreviation view_PID :: "processView \<Rightarrow> int" where "view_PID v \<equiv> gp_PID (pv_Process v)"
abbreviation kill_PID :: "pendingKill \<Rightarrow> int" where "kill_PID r \<equiv> view_PID (pk_view r)"

section \<open>Messages\<close>

fun digits :: "nat \<Rightarrow> string" where
  "digits n = (if n < 10 then [char_of (48 + n)] else digits (n div 10) @ [char_of (48 + n mod 10)])"

declare digits.simps [simp del]

definition itoa :: "int \<Rightarrow> string" where
  "itoa i = (if i < 0 then CHR ''-'' # digits (nat (- i)) else digits (nat i))"

fun join_comma :: "string list \<Rightarrow> string" where
  "join_comma [] = []"
| "join_comma [p] = p"
| "join_comma (p # ps) = p @ '', '' @ join_comma ps"

definition holder_part :: "string \<Rightarrow> string \<Rightarrow> string \<Rightarrow> string" where
  "holder_part kind holder0 ident = (let h = TrimSpace holder0; holder = (if h = [] then ''unknown'' else h) in
     if ident \<noteq> [] then holder @ '' ('' @ kind @ ''='' @ ident @ '')'' else holder)"

definition reservationHolder :: "Reservation list \<Rightarrow> string" where
  "reservationHolder rs = (if rs = [] then ''unknown''
     else join_comma (map (\<lambda>r. holder_part ''reservation'' (rs_Holder r) (rs_ID r)) rs))"

definition leaseHolder :: "Lease list \<Rightarrow> string" where
  "leaseHolder ls = (if ls = [] then ''unknown''
     else join_comma (map (\<lambda>l. holder_part ''lease'' (ls_Holder l) (ls_ID l)) ls))"

definition firstReservationID :: "Reservation list \<Rightarrow> string" where
  "firstReservationID rs = (case rs of [] \<Rightarrow> [] | r # _ \<Rightarrow> rs_ID r)"

definition firstLeaseID :: "Lease list \<Rightarrow> string" where
  "firstLeaseID ls = (case ls of [] \<Rightarrow> [] | l # _ \<Rightarrow> ls_ID l)"

definition tokenHashForReservations :: "Reservation list \<Rightarrow> string" where
  "tokenHashForReservations rs = (case rs of [] \<Rightarrow> [] | r # _ \<Rightarrow> rs_TokenHash r)"

definition unauthorized_reason :: "int \<Rightarrow> int \<Rightarrow> string \<Rightarrow> string \<Rightarrow> string" where
  "unauthorized_reason gpu pid how holder =
     ''unauthorized GPU access on gpu='' @ itoa gpu @ '' pid='' @ itoa pid @ ''; gpu is '' @ how @ '' by '' @ holder"

section \<open>Kills\<close>

definition decide :: "Decision \<Rightarrow> Pass \<Rightarrow> Pass" where
  "decide d p = p\<lparr>ps_decisions := ps_decisions p @ [d]\<rparr>"

definition audit :: "AuditEvent \<Rightarrow> Pass \<Rightarrow> Pass" where
  "audit e p = p\<lparr>ps_audits := ps_audits p @ [e]\<rparr>"

definition stagedKiller :: "Authorizer \<Rightarrow> Killer option" where
  "stagedKiller a = (if az_DryRun a \<or> \<not> az_hasTerminations a then None
     else case az_Killer a of None \<Rightarrow> None | Some k \<Rightarrow> if kl_staged k then Some k else None)"

definition awaiting :: "termination_entry list \<Rightarrow> int \<Rightarrow> uint64 \<Rightarrow> bool" where
  "awaiting ts pid startTime \<longleftrightarrow> list_ex (\<lambda>t. tm_pid t = pid \<and> tm_startTime t = startTime) ts"

definition record_termination :: "termination_entry list \<Rightarrow> pendingKill \<Rightarrow> time \<Rightarrow> termination_entry list" where
  "record_termination ts request deadline =
     (let pid = kill_PID request; st = pi_StartTime (pv_Info (pk_view request));
          entry = \<lparr>tm_pid = pid, tm_startTime = st, tm_request = request, tm_deadline = deadline,
                   tm_escalated = False\<rparr> in
      filter (\<lambda>t. \<not> (tm_pid t = pid \<and> tm_startTime t = st)) ts @ [entry])"

definition performKill ::
  "Authorizer \<Rightarrow> pendingKill \<Rightarrow> termination_entry list \<Rightarrow> termination_entry list \<times> enf_error option" where
  "performKill a request ts =
     (if az_DryRun a then (ts, None)
      else case az_Killer a of None \<Rightarrow> (ts, None)
      | Some k \<Rightarrow>
        (case (case az_ValidateKill a of None \<Rightarrow> None
               | Some validate \<Rightarrow> validate (pv_Process (pk_view request))) of
           Some e \<Rightarrow> (ts, Some (ErrRevalidate e))
         | None \<Rightarrow>
           (case stagedKiller a of
              Some k' \<Rightarrow> (case kl_Terminate k' (pv_Info (pk_view request)) of
                 Some e \<Rightarrow> (ts, Some e)
               | None \<Rightarrow> (record_termination ts request (az_Now a + kl_GracePeriod k'), None))
            | None \<Rightarrow> (ts, kl_Kill k (pv_Info (pk_view request))))))"

definition kill_event :: "pendingKill \<Rightarrow> string \<Rightarrow> string \<Rightarrow> AuditEvent" where
  "kill_event request kind message = \<lparr>ae_Time = pk_now request, ae_Kind = kind, ae_Message = message,
     ae_GPU = gp_GPU (pv_Process (pk_view request)), ae_PID = kill_PID request,
     ae_LeaseID = pk_leaseID request, ae_User = pk_holder request\<rparr>"

definition auditKill :: "Authorizer \<Rightarrow> pendingKill \<Rightarrow> enf_error option \<Rightarrow> AuditEvent" where
  "auditKill a request killErr =
     (if az_DryRun a then kill_event request ''kill_dry_run'' (pk_reason request)
      else case killErr of
        Some e \<Rightarrow> kill_event request ''kill_failed'' (pk_reason request @ '': '' @ az_errorText a e)
      | None \<Rightarrow> if stagedKiller a \<noteq> None
          then kill_event request ''kill_term'' (pk_reason request @ '': SIGTERM sent'')
          else kill_event request ''kill'' (pk_reason request))"

definition error_list :: "enf_error option \<Rightarrow> enf_error list" where
  "error_list e = (case e of None \<Rightarrow> [] | Some e \<Rightarrow> [e])"

definition kill_decision ::
  "processView \<Rightarrow> string \<Rightarrow> string \<Rightarrow> string \<Rightarrow> string \<Rightarrow> string \<Rightarrow> Decision" where
  "kill_decision v reason leaseID authID holder tokenHash = zero_Decision\<lparr>dc_Process := pv_Process v,
     dc_Info := pv_Info v, dc_Action := ''kill'', dc_Reason := reason, dc_LeaseID := leaseID,
     dc_AuthID := authID, dc_Holder := holder, dc_TokenHash := tokenHash\<rparr>"

definition kill ::
  "Authorizer \<Rightarrow> processView \<Rightarrow> string \<Rightarrow> string \<Rightarrow> string \<Rightarrow> string \<Rightarrow> string \<Rightarrow> time \<Rightarrow> Pass \<Rightarrow>
     Pass \<times> enf_error list" where
  "kill a v reason leaseID authID holder tokenHash now p =
     (let decision = kill_decision v reason leaseID authID holder tokenHash;
          request = \<lparr>pk_view = v, pk_reason = reason, pk_leaseID = leaseID, pk_authID = authID,
                     pk_holder = holder, pk_tokenHash = tokenHash, pk_now = now\<rparr>;
          perform = (\<lambda>p. case performKill a request (ps_terms p) of (ts, err) \<Rightarrow>
            (audit (auditKill a request err) (p\<lparr>ps_terms := ts\<rparr>), error_list err)) in
      if stagedKiller a \<noteq> None \<and> awaiting (ps_terms p) (view_PID v) (pi_StartTime (pv_Info v))
        then (decide decision p, [])
      else case ps_pending p of
        Some pending \<Rightarrow>
          if \<not> az_DryRun a \<and> length pending \<ge> maxKillsPerEnforcementPass
            then (decide (decision\<lparr>dc_Action := ''skip'',
                   dc_Reason := ''kill budget exhausted; retry on next enforcement pass''\<rparr>) p, [])
          else if \<not> az_DryRun a then ((decide decision p)\<lparr>ps_pending := Some (pending @ [request])\<rparr>, [])
          else perform (decide decision p)
      | None \<Rightarrow> perform (decide decision p))"

definition skip_decision :: "processView \<Rightarrow> string \<Rightarrow> Decision" where
  "skip_decision v reason = zero_Decision\<lparr>dc_Process := pv_Process v, dc_Info := pv_Info v,
     dc_Action := ''skip'', dc_Reason := reason\<rparr>"

definition allow_decision :: "processView \<Rightarrow> string \<Rightarrow> Authorization \<Rightarrow> string \<Rightarrow> Decision" where
  "allow_decision v reason au claimID = zero_Decision\<lparr>dc_Process := pv_Process v, dc_Info := pv_Info v,
     dc_Action := ''allow'', dc_Reason := reason, dc_AuthID := au_ID au, dc_ClaimID := claimID,
     dc_Holder := au_Holder au, dc_TokenHash := au_TokenHash au\<rparr>"

definition killOnce ::
  "Authorizer \<Rightarrow> processView \<Rightarrow> string \<Rightarrow> string \<Rightarrow> string \<Rightarrow> string \<Rightarrow> string \<Rightarrow> time \<Rightarrow> Pass \<Rightarrow>
     Pass \<times> enf_error list" where
  "killOnce a v reason leaseID authID holder tokenHash now p =
     (if view_PID v \<in> set (ps_targeted p)
      then (decide (skip_decision v ''pid already targeted by enforcement'') p, [])
      else kill a v reason leaseID authID holder tokenHash now
        (p\<lparr>ps_targeted := view_PID v # ps_targeted p\<rparr>))"

section \<open>Reserved GPUs and legacy leases\<close>

fun hard_loop ::
  "Authorizer \<Rightarrow> ctx \<Rightarrow> State \<Rightarrow> int \<Rightarrow> Reservation list \<Rightarrow> time \<Rightarrow> processView list \<Rightarrow>
     Pass \<Rightarrow> enf_error list \<Rightarrow> Pass \<times> enf_error list" where
  "hard_loop a ctx st gpu rs now [] p errs = (p, errs)"
| "hard_loop a ctx st gpu rs now (v # vs) p errs =
     (let n = ps_polls p; p = p\<lparr>ps_polls := Suc n\<rparr> in
      case ctx n of Some e \<Rightarrow> (p, errs @ [e])
      | None \<Rightarrow>
      if pv_Bypassed v then hard_loop a ctx st gpu rs now vs p errs
      else case matchAnyAuthorization a ctx st (pv_Info v) (Some (rs_TokenHash ` set rs)) [] now (ps_polls p) of
        (n', found, es) \<Rightarrow> let p = p\<lparr>ps_polls := n'\<rparr> in
        if es \<noteq> [] then hard_loop a ctx st gpu rs now vs
            (decide (skip_decision v ''authorization resolution unavailable'') p) (errs @ es)
        else (case found of
          Some au \<Rightarrow> hard_loop a ctx st gpu rs now vs (decide (allow_decision v ''authorization'' au []) p) errs
        | None \<Rightarrow>
            (case killOnce a v (unauthorized_reason gpu (view_PID v) ''reserved'' (reservationHolder rs))
                (firstReservationID rs) [] (reservationHolder rs) (tokenHashForReservations rs) now p of
               (p, es) \<Rightarrow> hard_loop a ctx st gpu rs now vs p (errs @ es))))"

definition enforceHard where
  "enforceHard a ctx st gpu rs views now p = hard_loop a ctx st gpu rs now views p []"

fun lease_loop ::
  "Authorizer \<Rightarrow> ctx \<Rightarrow> int \<Rightarrow> Lease list \<Rightarrow> time \<Rightarrow> processView list \<Rightarrow>
     Pass \<Rightarrow> enf_error list \<Rightarrow> Pass \<times> enf_error list" where
  "lease_loop a ctx gpu ls now [] p errs = (p, errs)"
| "lease_loop a ctx gpu ls now (v # vs) p errs =
     (let n = ps_polls p; p = p\<lparr>ps_polls := Suc n\<rparr> in
      case ctx n of Some e \<Rightarrow> (p, errs @ [e])
      | None \<Rightarrow>
      if pv_Bypassed v then lease_loop a ctx gpu ls now vs p errs
      else case matchesAnyLease a ctx ls (pv_Info v) now (ps_polls p) of
        (n', found, es) \<Rightarrow> let p = p\<lparr>ps_polls := n'\<rparr> in
        if es \<noteq> [] then lease_loop a ctx gpu ls now vs
            (decide (skip_decision v ''lease resolution unavailable'') p) (errs @ es)
        else (case found of
          Some leaseID \<Rightarrow> lease_loop a ctx gpu ls now vs
            (decide (zero_Decision\<lparr>dc_Process := pv_Process v, dc_Info := pv_Info v, dc_Action := ''allow'',
               dc_Reason := ''lease'', dc_LeaseID := leaseID, dc_Holder := leaseHolder ls\<rparr>) p) errs
        | None \<Rightarrow>
            (case killOnce a v (unauthorized_reason gpu (view_PID v) ''held'' (leaseHolder ls))
                (firstLeaseID ls) [] (leaseHolder ls) [] now p of
               (p, es) \<Rightarrow> lease_loop a ctx gpu ls now vs p (errs @ es))))"

definition enforceLegacyLeases where
  "enforceLegacyLeases a ctx st gpu ls views now p = lease_loop a ctx gpu ls now views p []"

section \<open>Soft claims\<close>

fun claim_match_loop ::
  "Authorizer \<Rightarrow> ctx \<Rightarrow> State \<Rightarrow> SoftClaim \<Rightarrow> time \<Rightarrow> processView list \<Rightarrow> nat \<Rightarrow> nat \<times> (enf_error list + bool)" where
  "claim_match_loop a ctx st claim now [] n = (n, Inr False)"
| "claim_match_loop a ctx st claim now (v # vs) n =
     (case ctx n of Some e \<Rightarrow> (Suc n, Inl [e])
      | None \<Rightarrow>
      if pv_Bypassed v \<or> \<not> SoftClaimRuntimeMatches claim (pv_Info v)
        then claim_match_loop a ctx st claim now vs (Suc n)
      else case matchAnyAuthorization a ctx st (pv_Info v) (Some {sc_TokenHash claim}) TokenModeClaimed now (Suc n) of
        (n', found, es) \<Rightarrow>
          if es \<noteq> [] then (n', Inl es)
          else if found \<noteq> None then (n', Inr True)
          else claim_match_loop a ctx st claim now vs n')"

definition claimHasMatchingProcess ::
  "Authorizer \<Rightarrow> ctx \<Rightarrow> State \<Rightarrow> SoftClaim \<Rightarrow> processView list \<Rightarrow> time \<Rightarrow> nat \<Rightarrow> nat \<times> (enf_error list + bool)" where
  "claimHasMatchingProcess a ctx st claim views now n =
     (if sc_TokenHash claim = [] then (n, Inr False) else claim_match_loop a ctx st claim now views n)"

fun claimed_loop ::
  "Authorizer \<Rightarrow> ctx \<Rightarrow> State \<Rightarrow> int \<Rightarrow> SoftClaim \<Rightarrow> time \<Rightarrow> processView list \<Rightarrow>
     Pass \<Rightarrow> enf_error list \<Rightarrow> Pass \<times> enf_error list" where
  "claimed_loop a ctx st gpu claim now [] p errs = (p, errs)"
| "claimed_loop a ctx st gpu claim now (v # vs) p errs =
     (let n = ps_polls p; p = p\<lparr>ps_polls := Suc n\<rparr> in
      case ctx n of Some e \<Rightarrow> (p, errs @ [e])
      | None \<Rightarrow>
      if pv_Bypassed v then claimed_loop a ctx st gpu claim now vs p errs
      else case matchAnyAuthorization a ctx st (pv_Info v) (Some {sc_TokenHash claim}) TokenModeClaimed now (ps_polls p) of
        (n', found, es) \<Rightarrow> let p = p\<lparr>ps_polls := n'\<rparr> in
        if es \<noteq> [] then (p, es)
        else (case found of
          Some au \<Rightarrow> claimed_loop a ctx st gpu claim now vs (decide (allow_decision v ''claimed'' au (sc_ID claim)) p) errs
        | None \<Rightarrow>
            (case killOnce a v (unauthorized_reason gpu (view_PID v) ''claimed'' (sc_Holder claim))
                [] (sc_AuthorizationID claim) (sc_Holder claim) (sc_TokenHash claim) now p of
               (p, es) \<Rightarrow> claimed_loop a ctx st gpu claim now vs p (errs @ es))))"

fun split_loop ::
  "Authorizer \<Rightarrow> ctx \<Rightarrow> State \<Rightarrow> time \<Rightarrow> processView list \<Rightarrow> nat \<Rightarrow>
     nat \<times> (enf_error list + (processView \<times> Authorization) list \<times> processView list)" where
  "split_loop a ctx st now [] n = (n, Inr ([], []))"
| "split_loop a ctx st now (v # vs) n =
     (case ctx n of Some e \<Rightarrow> (Suc n, Inl [e])
      | None \<Rightarrow>
      if pv_Bypassed v then split_loop a ctx st now vs (Suc n)
      else case matchAnyAuthorization a ctx st (pv_Info v) None TokenModeClaimed now (Suc n) of
        (n', found, es) \<Rightarrow>
          if es \<noteq> [] then (n', Inl es)
          else (case split_loop a ctx st now vs n' of
              (n'', Inl e) \<Rightarrow> (n'', Inl e)
            | (n'', Inr (authorized, unauthorized)) \<Rightarrow>
                (n'', Inr (case found of Some au \<Rightarrow> ((v, au) # authorized, unauthorized)
                           | None \<Rightarrow> (authorized, v # unauthorized)))))"

definition claim_kill ::
  "Authorizer \<Rightarrow> int \<Rightarrow> Authorization \<Rightarrow> time \<Rightarrow> processView \<Rightarrow> Pass \<Rightarrow> Pass \<times> enf_error list" where
  "claim_kill a gpu au now v p = killOnce a v (unauthorized_reason gpu (view_PID v) ''claimed'' (au_Holder au))
     [] (au_ID au) (au_Holder au) (au_TokenHash au) now p"

fun settle_authorized ::
  "Authorizer \<Rightarrow> int \<Rightarrow> Authorization \<Rightarrow> time \<Rightarrow> (processView \<times> Authorization) list \<Rightarrow>
     Pass \<Rightarrow> enf_error list \<Rightarrow> Pass \<times> enf_error list" where
  "settle_authorized a gpu claimAuth now [] p errs = (p, errs)"
| "settle_authorized a gpu claimAuth now ((v, au) # items) p errs =
     (if au_TokenHash au = au_TokenHash claimAuth
      then settle_authorized a gpu claimAuth now items (decide (allow_decision v ''claimed'' au []) p) errs
      else case claim_kill a gpu claimAuth now v p of
        (p, es) \<Rightarrow> settle_authorized a gpu claimAuth now items p (errs @ es))"

fun settle_unauthorized ::
  "Authorizer \<Rightarrow> int \<Rightarrow> Authorization \<Rightarrow> time \<Rightarrow> processView list \<Rightarrow>
     Pass \<Rightarrow> enf_error list \<Rightarrow> Pass \<times> enf_error list" where
  "settle_unauthorized a gpu claimAuth now [] p errs = (p, errs)"
| "settle_unauthorized a gpu claimAuth now (v # vs) p errs =
     (case claim_kill a gpu claimAuth now v p of
        (p, es) \<Rightarrow> settle_unauthorized a gpu claimAuth now vs p (errs @ es))"

definition new_claim :: "int \<Rightarrow> Authorization \<Rightarrow> ProcInfo \<Rightarrow> time \<Rightarrow> SoftClaim" where
  "new_claim gpu au info now = setSoftClaimRuntimeIdentity
     (zero_SoftClaim\<lparr>sc_GPU := gpu, sc_TokenHash := au_TokenHash au, sc_AuthorizationID := au_ID au,
        sc_Holder := au_Holder au, sc_CreatedAt := now, sc_UpdatedAt := now\<rparr>) au info"

definition establish_claim ::
  "Authorizer \<Rightarrow> int \<Rightarrow> time \<Rightarrow> (processView \<times> Authorization) list \<Rightarrow> processView list \<Rightarrow>
     Pass \<Rightarrow> Pass \<times> enf_error list" where
  "establish_claim a gpu now authorized unauthorized p =
     (case authorized of
        [] \<Rightarrow> (fold (\<lambda>v. decide (skip_decision v ''gpu has no active claimed authorization'')) unauthorized p, [])
      | (v0, claimAuth) # _ \<Rightarrow>
          let p1 = decide (zero_Decision\<lparr>dc_Action := ''claim'', dc_Reason := ''claimed'', dc_AuthID := au_ID claimAuth,
                 dc_Holder := au_Holder claimAuth, dc_TokenHash := au_TokenHash claimAuth,
                 dc_Claim := new_claim gpu claimAuth (pv_Info v0) now\<rparr>) p;
              p2 = audit \<lparr>ae_Time = now, ae_Kind = ''claim'', ae_Message = ''GPU claimed'', ae_GPU = gpu,
                 ae_PID = 0, ae_LeaseID = [], ae_User = au_Holder claimAuth\<rparr> p1 in
          (case settle_authorized a gpu claimAuth now authorized p2 [] of
             (p3, errs) \<Rightarrow> settle_unauthorized a gpu claimAuth now unauthorized p3 errs))"

definition enforceSoft ::
  "Authorizer \<Rightarrow> ctx \<Rightarrow> State \<Rightarrow> int \<Rightarrow> processView list \<Rightarrow> time \<Rightarrow> Pass \<Rightarrow> Pass \<times> enf_error list" where
  "enforceSoft a ctx st gpu views now p =
     (case activeSoftClaimsForGPU st gpu now of
        claim # _ \<Rightarrow>
          (case claimHasMatchingProcess a ctx st claim views now (ps_polls p) of
             (n, Inl es) \<Rightarrow> (p\<lparr>ps_polls := n\<rparr>, es)
           | (n, Inr claimMatches) \<Rightarrow> let p = p\<lparr>ps_polls := n\<rparr> in
               if claimMatches then claimed_loop a ctx st gpu claim now views p []
               else (fold (\<lambda>v. decide (skip_decision v ''claimed runtime disappeared; releasing claim''))
                       (filter (\<lambda>v. \<not> pv_Bypassed v) views) p, []))
      | [] \<Rightarrow>
          (case split_loop a ctx st now views (ps_polls p) of
             (n, Inl es) \<Rightarrow> (p\<lparr>ps_polls := n\<rparr>, es)
           | (n, Inr (authorized, unauthorized)) \<Rightarrow>
               establish_claim a gpu now authorized unauthorized (p\<lparr>ps_polls := n\<rparr>)))"

section \<open>The pass\<close>

fun collect_views ::
  "Authorizer \<Rightarrow> ctx \<Rightarrow> State \<Rightarrow> time \<Rightarrow> GPUProcess list \<Rightarrow> Pass \<Rightarrow> processView list \<Rightarrow>
     Pass \<times> processView list \<times> enf_error option" where
  "collect_views a ctx st now [] p views = (p, views, None)"
| "collect_views a ctx st now (g # gs) p views =
     (let n = ps_polls p; p = p\<lparr>ps_polls := Suc n\<rparr>;
          skip = (\<lambda>reason. decide (zero_Decision\<lparr>dc_Process := g, dc_Action := ''skip'', dc_Reason := reason\<rparr>) p) in
      case ctx n of Some e \<Rightarrow> (p, views, Some e)
      | None \<Rightarrow>
      if \<not> usesGPUResources g then collect_views a ctx st now gs (skip ''no gpu resource usage'') views
      else case az_Proc a of None \<Rightarrow> collect_views a ctx st now gs (skip ''stale pid'') views
      | Some read \<Rightarrow>
        (case read (gp_PID g) of
           Inl e \<Rightarrow> collect_views a ctx st now gs
             (skip (if e = ErrProcNotExist \<or> \<not> az_Exists a (gp_PID g) then ''stale pid''
                    else ''proc info unavailable'')) views
         | Inr info \<Rightarrow>
             if BypassMatch (Bypasses st) info now (az_BootID a)
             then collect_views a ctx st now gs
               (decide (zero_Decision\<lparr>dc_Process := g, dc_Info := info, dc_Action := ''allow'', dc_Reason := ''bypass''\<rparr>) p)
               (views @ [\<lparr>pv_Process = g, pv_Info = info, pv_Bypassed = True\<rparr>])
             else collect_views a ctx st now gs p
               (views @ [\<lparr>pv_Process = g, pv_Info = info, pv_Bypassed = False\<rparr>])))"

definition enforce_gpu ::
  "Authorizer \<Rightarrow> ctx \<Rightarrow> State \<Rightarrow> int \<Rightarrow> processView list \<Rightarrow> time \<Rightarrow> Pass \<Rightarrow> Pass \<times> enf_error list" where
  "enforce_gpu a ctx st gpu views now p =
     (let rs = activeReservationsForGPU (Reservations st) gpu now; ls = activeLeasesForGPU (Leases st) gpu now in
      if rs \<noteq> [] then enforceHard a ctx st gpu rs views now p
      else if ls \<noteq> [] then enforceLegacyLeases a ctx st gpu ls views now p
      else enforceSoft a ctx st gpu views now p)"

definition views_of :: "processView list \<Rightarrow> int \<Rightarrow> processView list" where
  "views_of views gpu = filter (\<lambda>v. gp_GPU (pv_Process v) = gpu) views"

fun gpu_loop ::
  "Authorizer \<Rightarrow> ctx \<Rightarrow> State \<Rightarrow> time \<Rightarrow> processView list \<Rightarrow> int list \<Rightarrow> Pass \<Rightarrow> enf_error list \<Rightarrow>
     Pass \<times> enf_error list \<times> bool" where
  "gpu_loop a ctx st now views [] p errs = (p, errs, True)"
| "gpu_loop a ctx st now views (gpu # gpus) p errs =
     (let n = ps_polls p; p = p\<lparr>ps_polls := Suc n\<rparr> in
      case ctx n of Some e \<Rightarrow> (p, errs @ [e], False)
      | None \<Rightarrow> (case enforce_gpu a ctx st gpu (views_of views gpu) now p of
          (p, es) \<Rightarrow> gpu_loop a ctx st now views gpus p (errs @ es)))"

fun release_loop ::
  "Authorizer \<Rightarrow> ctx \<Rightarrow> State \<Rightarrow> time \<Rightarrow> processView list \<Rightarrow> SoftClaim list \<Rightarrow> Pass \<Rightarrow> enf_error list \<Rightarrow>
     Pass \<times> enf_error list" where
  "release_loop a ctx st now views [] p errs = (p, errs)"
| "release_loop a ctx st now views (claim # claims) p errs =
     (let n = ps_polls p; p = p\<lparr>ps_polls := Suc n\<rparr> in
      case ctx n of Some e \<Rightarrow> (p, errs @ [e])
      | None \<Rightarrow> (case claimHasMatchingProcess a ctx st claim (views_of views (sc_GPU claim)) now (ps_polls p) of
          (n', Inl es) \<Rightarrow> release_loop a ctx st now views claims (p\<lparr>ps_polls := n'\<rparr>) (errs @ es)
        | (n', Inr matching) \<Rightarrow> let p = p\<lparr>ps_polls := n'\<rparr> in
            if matching then release_loop a ctx st now views claims p errs
            else release_loop a ctx st now views claims
              (audit \<lparr>ae_Time = now, ae_Kind = ''claim_released'',
                 ae_Message = ''claimed GPU released after authorized process disappeared'',
                 ae_GPU = sc_GPU claim, ae_PID = 0, ae_LeaseID = [], ae_User = sc_Holder claim\<rparr>
              (decide (zero_Decision\<lparr>dc_Action := ''release_claim'', dc_ClaimID := sc_ID claim,
                 dc_Reason := ''claimed GPU has no matching process''\<rparr>) p)) errs))"

definition enforce ::
  "Authorizer \<Rightarrow> ctx \<Rightarrow> (int list \<Rightarrow> int list) \<Rightarrow> State \<Rightarrow> GPUProcess list \<Rightarrow> Pass \<Rightarrow> Pass \<times> enf_error list" where
  "enforce a ctx order st processes p =
     (let now = az_Now a in
      case collect_views a ctx st now processes p [] of
        (p, views, Some e) \<Rightarrow> (p, [e])
      | (p, views, None) \<Rightarrow>
          (case gpu_loop a ctx st now views (order (remdups (map (\<lambda>v. gp_GPU (pv_Process v)) views))) p [] of
             (p, errs, completed) \<Rightarrow>
               if completed then release_loop a ctx st now views (SoftClaims st) p errs else (p, errs)))"

text \<open>
  The execution of the plan. A context may be found cancelled before each kill: \<open>cancel i\<close> is the
  error then seen for the \<open>i\<close>-th request. Workers may run the requests in any order; each touches
  only its own process's entry, so the results are those of the sequential order.
\<close>

fun exec_loop ::
  "Authorizer \<Rightarrow> ctx \<Rightarrow> nat \<Rightarrow> pendingKill list \<Rightarrow> termination_entry list \<Rightarrow>
     termination_entry list \<times> enf_error option list" where
  "exec_loop a cancel i [] ts = (ts, [])"
| "exec_loop a cancel i (r # rs) ts =
     (case (case cancel i of Some e \<Rightarrow> (ts, Some e) | None \<Rightarrow> performKill a r ts) of
        (ts, res) \<Rightarrow> (case exec_loop a cancel (Suc i) rs ts of (ts, ress) \<Rightarrow> (ts, res # ress)))"

definition executePendingKills ::
  "Authorizer \<Rightarrow> ctx \<Rightarrow> pendingKill list \<Rightarrow> Pass \<Rightarrow> Pass \<times> enf_error list" where
  "executePendingKills a cancel pending p =
     (case exec_loop a cancel 0 pending (ps_terms p) of (ts, results) \<Rightarrow>
        (p\<lparr>ps_terms := ts, ps_audits := ps_audits p @ map (\<lambda>(r, res). auditKill a r res) (zip pending results)\<rparr>,
         concat (map error_list results)))"

definition start_pass :: "Authorizer \<Rightarrow> termination_entry list \<Rightarrow> Pass" where
  "start_pass a ts = \<lparr>ps_decisions = [], ps_targeted = [], ps_pending = (if az_DryRun a then None else Some []),
     ps_audits = [], ps_terms = ts, ps_polls = 0\<rparr>"

definition planner :: "Authorizer \<Rightarrow> State \<Rightarrow> Authorizer" where
  "planner a st = a\<lparr>az_activeTokens := Some (tokens_by_hash (Tokens st))\<rparr>"

definition plan :: "Authorizer \<Rightarrow> ctx \<Rightarrow> (int list \<Rightarrow> int list) \<Rightarrow> State \<Rightarrow> GPUProcess list \<Rightarrow>
    termination_entry list \<Rightarrow> Pass \<times> enf_error list" where
  "plan a ctx order st processes ts = enforce (planner a st) ctx order st processes (start_pass a ts)"

definition planned :: "Pass \<Rightarrow> pendingKill list" where
  "planned p = (case ps_pending p of None \<Rightarrow> [] | Some l \<Rightarrow> l)"

definition Enforce ::
  "Authorizer \<Rightarrow> ctx \<Rightarrow> (int list \<Rightarrow> int list) \<Rightarrow> ctx \<Rightarrow> State \<Rightarrow> GPUProcess list \<Rightarrow> termination_entry list \<Rightarrow>
     Pass \<times> enf_error list" where
  "Enforce a ctx order cancel st processes ts =
     (case plan a ctx order st processes ts of (p, errs) \<Rightarrow>
      case executePendingKills a cancel (planned p) p of (p', kerrs) \<Rightarrow> (p', errs @ kerrs))"

end
