(* ===== verification/Evict.thy ===== *)
theory Evict
  imports Enforce
begin

text \<open>
  Eviction of processes whose entitlement has ended (\<open>internal/enforce/enforce.go\<close>): the state of
  an authorization or lease on a GPU, the shortcut that skips the scan, the scan itself and the
  assessment of stale scopes that the daemon uses before it forgets them.

  The Go code caches the process information it reads within a pass; the reader is a function
  here, so reading twice gives the cached answer.
\<close>

section \<open>Entitlement on a GPU\<close>

type_synonym gpuTokenKey = "int \<times> string"

definition reservation_key :: "Reservation \<Rightarrow> gpuTokenKey" where
  "reservation_key r = (rs_GPU r, rs_TokenHash r)"

definition reservation_token_valid :: "State \<Rightarrow> time \<Rightarrow> Reservation \<Rightarrow> bool" where
  "reservation_token_valid st now r = (case tokens_by_hash (Tokens st) (rs_TokenHash r) of None \<Rightarrow> False
     | Some t \<Rightarrow> \<not> tk_Revoked t \<and> NormalizeTokenMode (tk_Mode t) = TokenModeReserved \<and>
         (\<not> timeIsSet (tk_ExpiresAt t) \<or> now < tk_ExpiresAt t))"

definition validReservations :: "State \<Rightarrow> time \<Rightarrow> gpuTokenKey list" where
  "validReservations st now = map reservation_key (filter (\<lambda>r. rs_TokenHash r \<noteq> [] \<and>
     reservation_token_valid st now r \<and> ReservationActiveAt r now) (Reservations st))"

definition staleReservations :: "State \<Rightarrow> time \<Rightarrow> gpuTokenKey list" where
  "staleReservations st now = map reservation_key (filter (\<lambda>r. rs_TokenHash r \<noteq> [] \<and>
     \<not> (reservation_token_valid st now r \<and> ReservationActiveAt r now) \<and>
     (\<not> reservation_token_valid st now r \<or> \<not> rs_Active r \<or> rs_Revoked r \<or> \<not> now < rs_ExpiresAt r))
     (Reservations st))"

text \<open>The first non-empty identifier of a reservation with the key.\<close>

definition reservationID_of :: "State \<Rightarrow> gpuTokenKey \<Rightarrow> string" where
  "reservationID_of st key = (case find (\<lambda>r. rs_TokenHash r \<noteq> [] \<and> reservation_key r = key \<and> rs_ID r \<noteq> [])
     (Reservations st) of Some r \<Rightarrow> rs_ID r | None \<Rightarrow> [])"

definition authorizationGloballyValid :: "Authorization \<Rightarrow> (string \<Rightarrow> Token option) \<Rightarrow> time \<Rightarrow> bool" where
  "authorizationGloballyValid au tokens now =
     (if \<not> au_Active au \<or> au_Revoked au \<or> authorizationExpired au now then False
      else case tokens (au_TokenHash au) of None \<Rightarrow> False
      | Some t \<Rightarrow> \<not> tk_Revoked t \<and> (\<not> tk_Managed t \<or> au_TokenVersion au = tk_Version t) \<and>
          (\<not> timeIsSet (tk_ExpiresAt t) \<or> now < tk_ExpiresAt t))"

definition authorizationEvictionMode :: "Authorization \<Rightarrow> (string \<Rightarrow> Token option) \<Rightarrow> string" where
  "authorizationEvictionMode au tokens = (case tokens (au_TokenHash au) of
     Some t \<Rightarrow> NormalizeTokenMode (tk_Mode t) | None \<Rightarrow> NormalizeTokenMode (au_TokenMode au))"

text \<open>The pair says whether the authorization entitles on the GPU and whether it is stale there.\<close>

definition authorizationEvictionState ::
  "Authorization \<Rightarrow> int \<Rightarrow> (string \<Rightarrow> Token option) \<Rightarrow> gpuTokenKey list \<Rightarrow> gpuTokenKey list \<Rightarrow> time \<Rightarrow> bool \<times> bool" where
  "authorizationEvictionState au gpu tokens valid stale now =
     (let globallyValid = authorizationGloballyValid au tokens now;
          mode = authorizationEvictionMode au tokens; key = (gpu, au_TokenHash au) in
      if mode = TokenModeReserved then
        (if globallyValid then (if key \<in> set valid then (True, False) else (False, key \<in> set stale))
         else (False, key \<in> set valid \<or> key \<in> set stale))
      else if mode = TokenModeClaimed then (globallyValid, \<not> globallyValid)
      else if mode = TokenModeManaged then
        (if key \<in> set valid then (globallyValid, \<not> globallyValid)
         else (globallyValid, \<not> globallyValid \<or> key \<in> set stale))
      else (False, False))"

definition leaseEntitledOnGPU :: "Lease \<Rightarrow> int \<Rightarrow> (string \<Rightarrow> Token option) \<Rightarrow> time \<Rightarrow> bool" where
  "leaseEntitledOnGPU l gpu tokens now =
     (if \<not> ls_Active l \<or> ls_GPU l \<noteq> gpu \<or> \<not> now < ls_ExpiresAt l then False
      else if ls_TokenHash l = [] then True
      else case tokens (ls_TokenHash l) of None \<Rightarrow> False
      | Some t \<Rightarrow> \<not> tk_Revoked t \<and> (\<not> timeIsSet (tk_ExpiresAt t) \<or> now < tk_ExpiresAt t))"

definition leaseEvictionState :: "Lease \<Rightarrow> int \<Rightarrow> (string \<Rightarrow> Token option) \<Rightarrow> time \<Rightarrow> bool \<times> bool" where
  "leaseEvictionState l gpu tokens now =
     (if ls_GPU l \<noteq> gpu then (False, False)
      else let entitled = leaseEntitledOnGPU l gpu tokens now in (entitled, \<not> entitled))"

definition tokenHasKnownReservation :: "gpuTokenKey list \<Rightarrow> string \<Rightarrow> bool" where
  "tokenHasKnownReservation keys hash = list_ex (\<lambda>k. snd k = hash) keys"

definition staleEvictionPossible ::
  "State \<Rightarrow> (string \<Rightarrow> Token option) \<Rightarrow> gpuTokenKey list \<Rightarrow> gpuTokenKey list \<Rightarrow> time \<Rightarrow> bool" where
  "staleEvictionPossible st tokens valid stale now \<longleftrightarrow>
     list_ex (\<lambda>au. let globallyValid = authorizationGloballyValid au tokens now;
         mode = authorizationEvictionMode au tokens; h = au_TokenHash au in
       if mode = TokenModeReserved then h \<in> snd ` set stale \<or> (\<not> globallyValid \<and> h \<in> snd ` set valid)
       else if mode = TokenModeClaimed then \<not> globallyValid
       else if mode = TokenModeManaged then \<not> globallyValid \<or> h \<in> snd ` set stale
       else False) (Authorizations st) \<or>
     list_ex (\<lambda>l. \<not> leaseEntitledOnGPU l (ls_GPU l) tokens now) (Leases st)"

section \<open>The assessment\<close>

record EvictionAssessment =
  ea_Authorizations :: "string \<Rightarrow> bool option"
  ea_Leases :: "string \<Rightarrow> bool option"

definition markEvictionAssessmentUncertain :: "EvictionAssessment \<Rightarrow> EvictionAssessment" where
  "markEvictionAssessmentUncertain e = \<lparr>
     ea_Authorizations = (\<lambda>i. map_option (\<lambda>_. False) (ea_Authorizations e i)),
     ea_Leases = (\<lambda>i. map_option (\<lambda>_. False) (ea_Leases e i))\<rparr>"

definition initial_assessment ::
  "State \<Rightarrow> (string \<Rightarrow> Token option) \<Rightarrow> gpuTokenKey list \<Rightarrow> gpuTokenKey list \<Rightarrow> time \<Rightarrow> EvictionAssessment" where
  "initial_assessment st tokens valid stale now = \<lparr>
     ea_Authorizations = (\<lambda>i. if list_ex (\<lambda>au. au_ID au = i \<and>
         \<not> (au_Mode au = ModeBare \<or> au_CgroupPath au \<noteq> [] \<or> authorizationGloballyValid au tokens now) \<and>
         (let mode = authorizationEvictionMode au tokens in
          mode = TokenModeClaimed \<or> mode = TokenModeManaged \<or>
          tokenHasKnownReservation stale (au_TokenHash au) \<or> tokenHasKnownReservation valid (au_TokenHash au)))
         (Authorizations st) then Some True else None),
     ea_Leases = (\<lambda>i. if list_ex (\<lambda>l. ls_ID l = i \<and>
         \<not> (ls_Mode l = ModeBare \<or> ls_CgroupPath l \<noteq> [] \<or> leaseEntitledOnGPU l (ls_GPU l) tokens now))
         (Leases st) then Some True else None)\<rparr>"

section \<open>The scan\<close>

record EvictState =
  es_pass :: Pass
  es_assessment :: EvictionAssessment
  es_killed :: "int list"
  es_errors :: "enf_error list"

definition uncertain :: "enf_error \<Rightarrow> EvictState \<Rightarrow> EvictState" where
  "uncertain e s = s\<lparr>es_assessment := markEvictionAssessmentUncertain (es_assessment s),
     es_errors := es_errors s @ [e]\<rparr>"

text \<open>
  The two loops over the scopes: \<open>Inl\<close> is a failed resolution or a cancelled context, \<open>Inr\<close> the
  stale scopes that cover the process and whether an entitling one does.
\<close>

fun evict_authorizations ::
  "Authorizer \<Rightarrow> ctx \<Rightarrow> (Authorization \<Rightarrow> bool \<times> bool) \<Rightarrow> ProcInfo \<Rightarrow> Authorization list \<Rightarrow>
     Authorization list \<Rightarrow> nat \<Rightarrow> nat \<times> (enf_error + Authorization list \<times> bool)" where
  "evict_authorizations a ctx state info [] invalid n = (n, Inr (invalid, False))"
| "evict_authorizations a ctx state info (au # aus) invalid n =
     (case ctx n of Some e \<Rightarrow> (Suc n, Inl e)
      | None \<Rightarrow> (case state au of (entitled, staleRelevant) \<Rightarrow>
          if \<not> entitled \<and> \<not> staleRelevant then evict_authorizations a ctx state info aus invalid (Suc n)
          else case authorizationScopeMatchesForEviction a au info of
            Inl e \<Rightarrow> (Suc n, Inl e)
          | Inr matches \<Rightarrow>
              if \<not> matches then evict_authorizations a ctx state info aus invalid (Suc n)
              else if entitled then (Suc n, Inr (invalid, True))
              else evict_authorizations a ctx state info aus (invalid @ [au]) (Suc n)))"

fun evict_leases ::
  "Authorizer \<Rightarrow> ctx \<Rightarrow> (Lease \<Rightarrow> bool \<times> bool) \<Rightarrow> ProcInfo \<Rightarrow> Lease list \<Rightarrow>
     Lease list \<Rightarrow> nat \<Rightarrow> nat \<times> (enf_error + Lease list \<times> bool)" where
  "evict_leases a ctx state info [] invalid n = (n, Inr (invalid, False))"
| "evict_leases a ctx state info (l # ls) invalid n =
     (case ctx n of Some e \<Rightarrow> (Suc n, Inl e)
      | None \<Rightarrow> (case state l of (entitled, staleRelevant) \<Rightarrow>
          if \<not> entitled \<and> \<not> staleRelevant then evict_leases a ctx state info ls invalid (Suc n)
          else case leaseScopeMatchesForEviction a l info of
            Inl e \<Rightarrow> (Suc n, Inl e)
          | Inr matches \<Rightarrow>
              if \<not> matches then evict_leases a ctx state info ls invalid (Suc n)
              else if entitled then (Suc n, Inr (invalid, True))
              else evict_leases a ctx state info ls (invalid @ [l]) (Suc n)))"

text \<open>Both loops; the leases are looked at only when no authorization entitles the process.\<close>

definition evict_scopes ::
  "Authorizer \<Rightarrow> ctx \<Rightarrow> State \<Rightarrow> time \<Rightarrow> int \<Rightarrow> ProcInfo \<Rightarrow> nat \<Rightarrow>
     nat \<times> (enf_error + Authorization list \<times> Lease list \<times> bool)" where
  "evict_scopes a ctx st now gpu info n =
     (let tokens = tokens_by_hash (Tokens st); valid = validReservations st now; stale = staleReservations st now in
      case evict_authorizations a ctx (\<lambda>au. authorizationEvictionState au gpu tokens valid stale now) info
          (Authorizations st) [] n of
        (n, Inl e) \<Rightarrow> (n, Inl e)
      | (n, Inr (invalid, True)) \<Rightarrow> (n, Inr (invalid, [], True))
      | (n, Inr (invalid, False)) \<Rightarrow>
          (case evict_leases a ctx (\<lambda>l. leaseEvictionState l gpu tokens now) info (Leases st) [] n of
             (n, Inl e) \<Rightarrow> (n, Inl e)
           | (n, Inr (invalidLeases, validMatch)) \<Rightarrow> (n, Inr (invalid, invalidLeases, validMatch))))"

definition not_quiescent :: "Authorization list \<Rightarrow> Lease list \<Rightarrow> EvictionAssessment \<Rightarrow> EvictionAssessment" where
  "not_quiescent aus ls e = \<lparr>
     ea_Authorizations = (\<lambda>i. if i \<in> au_ID ` set aus then Some False else ea_Authorizations e i),
     ea_Leases = (\<lambda>i. if i \<in> ls_ID ` set ls then Some False else ea_Leases e i)\<rparr>"

definition evict_kill ::
  "Authorizer \<Rightarrow> State \<Rightarrow> time \<Rightarrow> GPUProcess \<Rightarrow> ProcInfo \<Rightarrow> Authorization list \<Rightarrow> Lease list \<Rightarrow> EvictState \<Rightarrow> EvictState" where
  "evict_kill a st now g info aus ls s =
     (let au = (case aus of x # _ \<Rightarrow> x | [] \<Rightarrow> zero_Authorization);
          l = (case ls of x # _ \<Rightarrow> x | [] \<Rightarrow> zero_Lease);
          reason = ''GPU entitlement expired or was revoked on gpu='' @ itoa (gp_GPU g) @ '' pid='' @ itoa (gp_PID g);
          leaseID = (if au_ID au \<noteq> [] then reservationID_of st (gp_GPU g, au_TokenHash au) else ls_ID l);
          holder = (if au_ID au \<noteq> [] then au_Holder au else ls_Holder l);
          tokenHash = (if au_ID au \<noteq> [] then au_TokenHash au else ls_TokenHash l);
          view = \<lparr>pv_Process = g, pv_Info = info, pv_Bypassed = False\<rparr> in
      case kill a view reason leaseID (au_ID au) holder tokenHash now (es_pass s) of (p, errs) \<Rightarrow>
        (let s' = s\<lparr>es_pass := p, es_killed := gp_PID g # es_killed s\<rparr> in
         case errs of [] \<Rightarrow> s' | e # _ \<Rightarrow> uncertain e s'))"

definition evict_process ::
  "Authorizer \<Rightarrow> ctx \<Rightarrow> State \<Rightarrow> time \<Rightarrow> GPUProcess \<Rightarrow> EvictState \<Rightarrow> EvictState" where
  "evict_process a ctx st now g s =
     (if gp_PID g \<le> 0 \<or> gp_PID g \<in> set (es_killed s) then s
      else case az_Proc a of None \<Rightarrow> s
      | Some read \<Rightarrow>
        (case read (gp_PID g) of
           Inl e \<Rightarrow> if e = ErrProcNotExist then s else uncertain (ErrInspect (gp_PID g) e) s
         | Inr info \<Rightarrow>
             (case evict_scopes a ctx st now (gp_GPU g) info (ps_polls (es_pass s)) of
                (n, res) \<Rightarrow> let s = s\<lparr>es_pass := (es_pass s)\<lparr>ps_polls := n\<rparr>\<rparr> in
                (case res of
                   Inl e \<Rightarrow> uncertain e s
                 | Inr (aus, ls, validMatch) \<Rightarrow>
                     if validMatch \<or> (aus = [] \<and> ls = []) then s
                     else let s = s\<lparr>es_assessment := not_quiescent aus ls (es_assessment s)\<rparr> in
                       if BypassMatch (Bypasses st) info now (az_BootID a) then s
                       else evict_kill a st now g info aus ls s))))"

fun evict_loop ::
  "Authorizer \<Rightarrow> ctx \<Rightarrow> State \<Rightarrow> time \<Rightarrow> GPUProcess list \<Rightarrow> EvictState \<Rightarrow> EvictState" where
  "evict_loop a ctx st now [] s = s"
| "evict_loop a ctx st now (g # gs) s =
     (let n = ps_polls (es_pass s); s = s\<lparr>es_pass := (es_pass s)\<lparr>ps_polls := Suc n\<rparr>\<rparr> in
      case ctx n of Some e \<Rightarrow> uncertain e s
      | None \<Rightarrow> evict_loop a ctx st now gs (evict_process a ctx st now g s))"

definition evictExpiredReservedProcesses ::
  "Authorizer \<Rightarrow> ctx \<Rightarrow> State \<Rightarrow> GPUProcess list \<Rightarrow> Pass \<Rightarrow> EvictState" where
  "evictExpiredReservedProcesses a ctx st processes p =
     (let now = az_Now a; tokens = tokens_by_hash (Tokens st);
          valid = validReservations st now; stale = staleReservations st now;
          s = \<lparr>es_pass = p, es_assessment = \<lparr>ea_Authorizations = Map.empty, ea_Leases = Map.empty\<rparr>,
               es_killed = [], es_errors = []\<rparr> in
      if az_Proc a = None then s
      else let s = s\<lparr>es_assessment := initial_assessment st tokens valid stale now\<rparr> in
        if \<not> staleEvictionPossible st tokens valid stale now then s
        else evict_loop a ctx st now processes s)"

definition EvictExpiredReservedProcesses ::
  "Authorizer \<Rightarrow> ctx \<Rightarrow> ctx \<Rightarrow> State \<Rightarrow> GPUProcess list \<Rightarrow> termination_entry list \<Rightarrow> EvictState" where
  "EvictExpiredReservedProcesses a ctx cancel st processes ts =
     (let s = evictExpiredReservedProcesses a ctx st processes (start_pass a ts) in
      case executePendingKills a cancel (planned (es_pass s)) (es_pass s) of (p, killErrs) \<Rightarrow>
        s\<lparr>es_pass := p, es_errors := es_errors s @ killErrs,
          es_assessment := (if killErrs \<noteq> [] then markEvictionAssessmentUncertain (es_assessment s)
                            else es_assessment s)\<rparr>)"

end
