(* ===== verification/Enforce_Plan.thy ===== *)
theory Enforce_Plan
  imports Enforce
begin

text \<open>
  What an enforcement pass plans. Every routine of the pass only extends the plan, and only by
  processes it has reason to terminate; the locale \<open>plan_step\<close> is that contract, the routines for
  reserved GPUs, legacy leases and soft claims are its interpretations, and the properties of the
  whole pass follow.
\<close>

section \<open>Extending the plan\<close>

definition plan_ext :: "Authorizer \<Rightarrow> (processView \<Rightarrow> bool) \<Rightarrow> Pass \<Rightarrow> Pass \<Rightarrow> bool" where
  "plan_ext a J p q \<longleftrightarrow> (\<exists>new ds. planned q = planned p @ new \<and> ps_decisions q = ps_decisions p @ ds \<and>
     (\<forall>r \<in> set new. J (pk_view r) \<and> kill_PID r \<notin> set (ps_targeted p) \<and> kill_PID r \<in> set (ps_targeted q)) \<and>
     distinct (map kill_PID new) \<and> set (ps_targeted p) \<subseteq> set (ps_targeted q) \<and>
     (new \<noteq> [] \<longrightarrow> length (planned q) \<le> maxKillsPerEnforcementPass) \<and>
     (ps_pending q = None \<longleftrightarrow> ps_pending p = None) \<and>
     ((ps_pending p = None \<longrightarrow> az_DryRun a) \<longrightarrow> ps_terms q = ps_terms p))"

lemma plan_ext_refl [simp, intro]: "plan_ext a J p p"
  by (auto simp: plan_ext_def)

lemma plan_ext_trans [trans]:
  assumes "plan_ext a J p q" "plan_ext a J q r"
  shows "plan_ext a J p r"
proof -
  from assms(1) obtain n1 d1 where 1: "planned q = planned p @ n1" "ps_decisions q = ps_decisions p @ d1"
    "\<forall>r \<in> set n1. J (pk_view r) \<and> kill_PID r \<notin> set (ps_targeted p) \<and> kill_PID r \<in> set (ps_targeted q)"
    "distinct (map kill_PID n1)" "set (ps_targeted p) \<subseteq> set (ps_targeted q)"
    "n1 \<noteq> [] \<longrightarrow> length (planned q) \<le> maxKillsPerEnforcementPass"
    "ps_pending q = None \<longleftrightarrow> ps_pending p = None"
    "(ps_pending p = None \<longrightarrow> az_DryRun a) \<longrightarrow> ps_terms q = ps_terms p"
    unfolding plan_ext_def by (elim exE conjE) (rule that; assumption)
  from assms(2) obtain n2 d2 where 2: "planned r = planned q @ n2" "ps_decisions r = ps_decisions q @ d2"
    "\<forall>k \<in> set n2. J (pk_view k) \<and> kill_PID k \<notin> set (ps_targeted q) \<and> kill_PID k \<in> set (ps_targeted r)"
    "distinct (map kill_PID n2)" "set (ps_targeted q) \<subseteq> set (ps_targeted r)"
    "n2 \<noteq> [] \<longrightarrow> length (planned r) \<le> maxKillsPerEnforcementPass"
    "ps_pending r = None \<longleftrightarrow> ps_pending q = None"
    "(ps_pending q = None \<longrightarrow> az_DryRun a) \<longrightarrow> ps_terms r = ps_terms q"
    unfolding plan_ext_def by (elim exE conjE) (rule that; assumption)
  have "kill_PID ` set n1 \<inter> kill_PID ` set n2 = {}" using 1(3) 2(3) by auto
  then show ?thesis
    unfolding plan_ext_def
    using 1 2 by (intro exI [of _ "n1 @ n2"] exI [of _ "d1 @ d2"]) (cases "n2 = []"; auto)
qed

lemma plan_ext_mono: "plan_ext a J p q \<Longrightarrow> (\<And>v. J v \<Longrightarrow> J' v) \<Longrightarrow> plan_ext a J' p q"
  unfolding plan_ext_def by (elim exE conjE, intro exI conjI) auto

lemma plan_ext_polls [simp]:
  "plan_ext a J (p\<lparr>ps_polls := n\<rparr>) q = plan_ext a J p q" "plan_ext a J p (q\<lparr>ps_polls := n\<rparr>) = plan_ext a J p q"
  by (simp_all add: plan_ext_def planned_def)


lemma plan_ext_decideI: "plan_ext a J p q \<Longrightarrow> plan_ext a J p (decide d q)"
  by (rule plan_ext_trans) (auto simp: plan_ext_def planned_def decide_def)

lemma plan_ext_auditI: "plan_ext a J p q \<Longrightarrow> plan_ext a J p (audit e q)"
  by (rule plan_ext_trans) (auto simp: plan_ext_def planned_def audit_def)

lemma plan_ext_fold_decide: "plan_ext a J p (fold (\<lambda>v. decide (f v)) vs p)"
proof (induction vs arbitrary: p)
  case (Cons v vs)
  from plan_ext_trans [OF plan_ext_decideI [OF plan_ext_refl] Cons] show ?case by simp
qed simp

lemma performKill_dry: "az_DryRun a \<Longrightarrow> performKill a r ts = (ts, None)"
  by (simp add: performKill_def)

lemma kill_ext:
  assumes "J v" "view_PID v \<notin> set T"
  shows "plan_ext a J (p\<lparr>ps_targeted := T\<rparr>)
    (fst (kill a v reason leaseID authID holder tokenHash now (p\<lparr>ps_targeted := view_PID v # T\<rparr>)))"
  using assms
  by (auto simp: kill_def plan_ext_def planned_def decide_def audit_def Let_def performKill_dry
      split: option.split prod.split)

lemma killOnce_ext:
  assumes "J v"
  shows "plan_ext a J p (fst (killOnce a v reason leaseID authID holder tokenHash now p))"
proof (cases "view_PID v \<in> set (ps_targeted p)")
  case True
  then show ?thesis by (simp add: killOnce_def plan_ext_decideI)
next
  case False
  from kill_ext [of J v "ps_targeted p" a p] assms False show ?thesis by (simp add: killOnce_def)
qed

lemma killOnce_chain:
  assumes "J v" "plan_ext a J p q"
  shows "plan_ext a J p (fst (killOnce a v reason leaseID authID holder tokenHash now q))"
  using plan_ext_trans [OF assms(2)] killOnce_ext [of J v a, OF assms(1)] by blast

section \<open>The contract of a routine\<close>

locale plan_step =
  fixes a :: Authorizer and J :: "processView \<Rightarrow> bool" and run :: "Pass \<Rightarrow> Pass \<times> enf_error list"
  assumes run_ext: "plan_ext a J p (fst (run p))"
begin

lemma run_targets: "r \<in> set (planned (fst (run p))) \<Longrightarrow> r \<in> set (planned p) \<or> J (pk_view r)"
  using run_ext [of p] by (auto simp: plan_ext_def)

lemma run_dry: "ps_pending p = None \<Longrightarrow> planned (fst (run p)) = []"
  using run_ext [of p] by (auto simp: plan_ext_def planned_def)

lemma run_chain: "plan_ext a J q p \<Longrightarrow> plan_ext a J q (fst (run p))"
  using run_ext plan_ext_trans by blast

end

section \<open>Reserved GPUs\<close>

text \<open>Every authorization that counts has been resolved, and none covers the process.\<close>

definition unentitled :: "Authorizer \<Rightarrow> State \<Rightarrow> string set option \<Rightarrow> string \<Rightarrow> time \<Rightarrow> processView \<Rightarrow> bool" where
  "unentitled a st tokenFilter tokenMode now v \<longleftrightarrow>
     (\<forall>au \<in> set (Authorizations st). candidate_mode a st tokenFilter tokenMode now au \<noteq> None \<longrightarrow>
        authorizationScopeMatchesForEviction a au (pv_Info v) = Inr False)"

definition hard_target :: "Authorizer \<Rightarrow> State \<Rightarrow> Reservation list \<Rightarrow> processView list \<Rightarrow> time \<Rightarrow> processView \<Rightarrow> bool" where
  "hard_target a st rs views now v \<longleftrightarrow> v \<in> set views \<and> \<not> pv_Bypassed v \<and>
     unentitled a st (Some (rs_TokenHash ` set rs)) [] now v"

lemma hard_loop_ext:
  assumes "\<And>v n n'. v \<in> set vs \<Longrightarrow> \<not> pv_Bypassed v \<Longrightarrow>
    matchAnyAuthorization a ctx st (pv_Info v) (Some (rs_TokenHash ` set rs)) [] now n = (n', None, []) \<Longrightarrow> J v"
  shows "plan_ext a J p (fst (hard_loop a ctx st gpu rs now vs p errs))"
  using assms
proof (induction vs arbitrary: p errs)
  case (Cons v vs)
  let ?loop = "hard_loop a ctx st gpu rs now vs"
  have IH: "plan_ext a J q (fst (?loop q es))" for q es
    by (rule Cons.IH) (use Cons.prems in auto)
  have step: "plan_ext a J p q \<Longrightarrow> plan_ext a J p (fst (?loop q es))" for q es
    using IH plan_ext_trans by blast
  obtain n' found es where m: "matchAnyAuthorization a ctx st (pv_Info v) (Some (rs_TokenHash ` set rs)) []
      now (Suc (ps_polls p)) = (n', found, es)" by (metis prod_cases3)
  show ?case
  proof (cases "ctx (ps_polls p) \<noteq> None \<or> pv_Bypassed v \<or> es \<noteq> [] \<or> found \<noteq> None")
    case True
    then show ?thesis
      by (auto simp: Let_def m intro!: step plan_ext_decideI split: option.split)
  next
    case False
    with m have J: "J v" using Cons.prems [of v] by simp
    with False show ?thesis
      by (auto simp: Let_def m case_prod_beta intro!: step killOnce_chain)
  qed
qed simp

interpretation hard: plan_step a "hard_target a st rs views now" "enforceHard a ctx st gpu rs views now"
  for a st rs views now ctx gpu
  unfolding enforceHard_def
  by unfold_locales
    (auto simp: hard_target_def unentitled_def intro!: hard_loop_ext dest: matchAnyAuthorization_None)

section \<open>Legacy leases\<close>

definition lease_target :: "Authorizer \<Rightarrow> Lease list \<Rightarrow> processView list \<Rightarrow> time \<Rightarrow> processView \<Rightarrow> bool" where
  "lease_target a ls views now v \<longleftrightarrow> v \<in> set views \<and> \<not> pv_Bypassed v \<and>
     (\<forall>l \<in> set ls. leaseMatchesChecked a l (pv_Info v) now = Inr False)"

lemma lease_loop_ext:
  assumes "\<And>v n n'. v \<in> set vs \<Longrightarrow> \<not> pv_Bypassed v \<Longrightarrow>
    matchesAnyLease a ctx ls (pv_Info v) now n = (n', None, []) \<Longrightarrow> J v"
  shows "plan_ext a J p (fst (lease_loop a ctx gpu ls now vs p errs))"
  using assms
proof (induction vs arbitrary: p errs)
  case (Cons v vs)
  let ?loop = "lease_loop a ctx gpu ls now vs"
  have IH: "plan_ext a J q (fst (?loop q es))" for q es
    by (rule Cons.IH) (use Cons.prems in auto)
  have step: "plan_ext a J p q \<Longrightarrow> plan_ext a J p (fst (?loop q es))" for q es
    using IH plan_ext_trans by blast
  obtain n' found es where m: "matchesAnyLease a ctx ls (pv_Info v) now (Suc (ps_polls p)) = (n', found, es)"
    by (metis prod_cases3)
  show ?case
  proof (cases "ctx (ps_polls p) \<noteq> None \<or> pv_Bypassed v \<or> es \<noteq> [] \<or> found \<noteq> None")
    case True
    then show ?thesis
      by (auto simp: Let_def m intro!: step plan_ext_decideI split: option.split)
  next
    case False
    with m have J: "J v" using Cons.prems [of v] by simp
    with False show ?thesis
      by (auto simp: Let_def m case_prod_beta intro!: step killOnce_chain)
  qed
qed simp

interpretation lease: plan_step a "lease_target a ls views now" "enforceLegacyLeases a ctx st gpu ls views now"
  for a ls views now ctx st gpu
  unfolding enforceLegacyLeases_def
  by unfold_locales
    (auto simp: lease_target_def matchesAnyLease_def intro!: lease_loop_ext dest!: matchesAnyLease_None [THEN conjunct2])

section \<open>Soft claims\<close>

text \<open>
  Why a process may be terminated on a GPU that is neither reserved nor leased: the GPU has a
  claim and no authorization of the claim's key covers the process; or a claim is established by
  some process's authorization and the process has none, or the first that covers it is of
  another key.
\<close>

definition soft_target :: "Authorizer \<Rightarrow> State \<Rightarrow> int \<Rightarrow> processView list \<Rightarrow> time \<Rightarrow> processView \<Rightarrow> bool" where
  "soft_target a st gpu views now v \<longleftrightarrow> v \<in> set views \<and> \<not> pv_Bypassed v \<and>
     (case activeSoftClaimsForGPU st gpu now of
        claim # _ \<Rightarrow> unentitled a st (Some {sc_TokenHash claim}) TokenModeClaimed now v
      | [] \<Rightarrow> (\<exists>owner \<in> set (Authorizations st).
          (\<exists>v0 \<in> set views. \<not> pv_Bypassed v0 \<and> entitles a st None TokenModeClaimed now (pv_Info v0) owner) \<and>
          (unentitled a st None TokenModeClaimed now v \<or>
           (\<exists>au \<in> set (Authorizations st). entitles a st None TokenModeClaimed now (pv_Info v) au \<and>
              au_TokenHash au \<noteq> au_TokenHash owner))))"

lemma claimed_loop_ext:
  assumes "\<And>v n n'. v \<in> set vs \<Longrightarrow> \<not> pv_Bypassed v \<Longrightarrow>
    matchAnyAuthorization a ctx st (pv_Info v) (Some {sc_TokenHash claim}) TokenModeClaimed now n = (n', None, []) \<Longrightarrow> J v"
  shows "plan_ext a J p (fst (claimed_loop a ctx st gpu claim now vs p errs))"
  using assms
proof (induction vs arbitrary: p errs)
  case (Cons v vs)
  let ?loop = "claimed_loop a ctx st gpu claim now vs"
  have IH: "plan_ext a J q (fst (?loop q es))" for q es
    by (rule Cons.IH) (use Cons.prems in auto)
  have step: "plan_ext a J p q \<Longrightarrow> plan_ext a J p (fst (?loop q es))" for q es
    using IH plan_ext_trans by blast
  obtain n' found es where m: "matchAnyAuthorization a ctx st (pv_Info v) (Some {sc_TokenHash claim})
      TokenModeClaimed now (Suc (ps_polls p)) = (n', found, es)" by (metis prod_cases3)
  show ?case
  proof (cases "ctx (ps_polls p) \<noteq> None \<or> pv_Bypassed v \<or> es \<noteq> [] \<or> found \<noteq> None")
    case True
    then show ?thesis
      by (auto simp: Let_def m intro!: step plan_ext_decideI split: option.split)
  next
    case False
    with m have J: "J v" using Cons.prems [of v] by simp
    with False show ?thesis
      by (auto simp: Let_def m case_prod_beta intro!: step killOnce_chain)
  qed
qed simp

lemma split_loop_parts:
  "split_loop a ctx st now vs n = (n', Inr (au, un)) \<Longrightarrow>
     (\<forall>(v, x) \<in> set au. v \<in> set vs \<and> \<not> pv_Bypassed v \<and>
        (\<exists>y \<in> set (Authorizations st). entitles a st None TokenModeClaimed now (pv_Info v) y \<and>
           au_TokenHash x = au_TokenHash y)) \<and>
     (\<forall>v \<in> set un. v \<in> set vs \<and> \<not> pv_Bypassed v \<and> unentitled a st None TokenModeClaimed now v)"
proof (induction vs arbitrary: n n' au un)
  case (Cons v vs)
  obtain m found es where m: "matchAnyAuthorization a ctx st (pv_Info v) None TokenModeClaimed now (Suc n) =
      (m, found, es)" by (metis prod_cases3)
  show ?case
  proof (cases "pv_Bypassed v")
    case True
    with Cons.prems have "split_loop a ctx st now vs (Suc n) = (n', Inr (au, un))"
      by (auto split: option.splits)
    from Cons.IH [OF this] show ?thesis by auto
  next
    case False
    with Cons.prems m obtain n2 au' un' where rest: "split_loop a ctx st now vs m = (n2, Inr (au', un'))"
      and es: "es = []" and parts: "(au, un) = (case found of Some x \<Rightarrow> ((v, x) # au', un') | None \<Rightarrow> (au', v # un'))"
      by (auto split: option.splits if_splits prod.splits sum.splits)
    note IH = Cons.IH [OF rest]
    show ?thesis
    proof (cases found)
      case None
      with matchAnyAuthorization_None [of a ctx st "pv_Info v" None TokenModeClaimed now "Suc n" m] m es
      have "unentitled a st None TokenModeClaimed now v" by (simp add: unentitled_def)
      with IH parts None False show ?thesis by auto
    next
      case (Some x)
      with matchAnyAuthorization_Some(2) [of a ctx st "pv_Info v" None TokenModeClaimed now "Suc n" m x es] m
      have "\<exists>y \<in> set (Authorizations st). entitles a st None TokenModeClaimed now (pv_Info v) y \<and>
          au_TokenHash x = au_TokenHash y" by auto
      with IH parts Some False show ?thesis by auto
    qed
  qed
qed simp

lemma settle_authorized_ext:
  "(\<And>v x. (v, x) \<in> set items \<Longrightarrow> au_TokenHash x \<noteq> au_TokenHash c \<Longrightarrow> J v) \<Longrightarrow>
     plan_ext a J p (fst (settle_authorized a gpu c now items p errs))"
proof (induction items arbitrary: p errs)
  case (Cons item items)
  obtain v x where item: "item = (v, x)" by fastforce
  have step: "plan_ext a J p q \<Longrightarrow> plan_ext a J p (fst (settle_authorized a gpu c now items q es))" for q es
    using Cons.IH [of q es] Cons.prems plan_ext_trans by fastforce
  show ?case
    using Cons.prems [of v x]
    by (auto simp: item claim_kill_def case_prod_beta intro!: step plan_ext_decideI killOnce_chain)
qed simp

lemma settle_unauthorized_ext:
  "(\<And>v. v \<in> set vs \<Longrightarrow> J v) \<Longrightarrow> plan_ext a J p (fst (settle_unauthorized a gpu c now vs p errs))"
proof (induction vs arbitrary: p errs)
  case (Cons v vs)
  have step: "plan_ext a J p q \<Longrightarrow> plan_ext a J p (fst (settle_unauthorized a gpu c now vs q es))" for q es
    using Cons.IH [of q es] Cons.prems plan_ext_trans by fastforce
  show ?case
    using Cons.prems [of v]
    by (auto simp: claim_kill_def case_prod_beta intro!: step killOnce_chain)
qed simp

lemma establish_claim_ext:
  assumes "\<And>v x. (v, x) \<in> set au \<Longrightarrow> au_TokenHash x \<noteq> au_TokenHash (snd (hd au)) \<Longrightarrow> J v"
    and "\<And>v. au \<noteq> [] \<Longrightarrow> v \<in> set un \<Longrightarrow> J v"
  shows "plan_ext a J p (fst (establish_claim a gpu now au un p))"
proof (cases au)
  case Nil
  then show ?thesis by (simp add: establish_claim_def plan_ext_fold_decide)
next
  case (Cons item items)
  obtain v0 c where item: "item = (v0, c)" by fastforce
  have settle: "plan_ext a J q (fst (settle_authorized a gpu c now au q []))" for q
    by (rule settle_authorized_ext) (use assms(1) Cons item in auto)
  have rest: "plan_ext a J q (fst (settle_unauthorized a gpu c now un q es))" for q es
    by (rule settle_unauthorized_ext) (use assms(2) Cons in auto)
  show ?thesis
    unfolding establish_claim_def Cons item list.case prod.case Let_def case_prod_beta fst_conv snd_conv
    by (rule plan_ext_trans [OF _ rest], rule plan_ext_trans [OF _ settle [unfolded Cons item]])
      (intro plan_ext_auditI plan_ext_decideI plan_ext_refl)
qed

lemma enforceSoft_ext: "plan_ext a (soft_target a st gpu views now) p (fst (enforceSoft a ctx st gpu views now p))"
proof (cases "activeSoftClaimsForGPU st gpu now")
  case (Cons claim claims)
  have "plan_ext a (soft_target a st gpu views now) q (fst (claimed_loop a ctx st gpu claim now views q []))" for q
    by (rule claimed_loop_ext)
      (auto simp: soft_target_def Cons unentitled_def dest: matchAnyAuthorization_None)
  from this [of "p\<lparr>ps_polls := n\<rparr>" for n] show ?thesis
    using plan_ext_fold_decide [of a "soft_target a st gpu views now" "p\<lparr>ps_polls := n\<rparr>" for n]
    by (auto simp: enforceSoft_def Cons Let_def split: prod.split sum.split)
next
  case Nil
  have "plan_ext a (soft_target a st gpu views now) q (fst (establish_claim a gpu now au un q))"
    if "split_loop a ctx st now views n = (n', Inr (au, un))" for n n' au un q
  proof (rule establish_claim_ext)
    note parts = split_loop_parts [OF that]
    have owner: "\<exists>owner \<in> set (Authorizations st).
        (\<exists>v0 \<in> set views. \<not> pv_Bypassed v0 \<and> entitles a st None TokenModeClaimed now (pv_Info v0) owner) \<and>
        au_TokenHash (snd (hd au)) = au_TokenHash owner" if "au \<noteq> []"
      using parts that by (cases au) auto
    show "soft_target a st gpu views now v"
      if vx: "(v, x) \<in> set au" and ne: "au_TokenHash x \<noteq> au_TokenHash (snd (hd au))" for v x
    proof -
      from vx have "au \<noteq> []" by auto
      from owner [OF this] parts vx ne show ?thesis
        unfolding soft_target_def Nil list.case by (auto 4 4)
    qed
    show "soft_target a st gpu views now v" if "au \<noteq> []" "v \<in> set un" for v
      using owner [OF that(1)] parts that(2) unfolding soft_target_def Nil list.case by auto
  qed
  then show ?thesis
    by (auto simp: enforceSoft_def Nil split: prod.split sum.split)
      (metis plan_ext_polls(1))
qed

interpretation soft_step: plan_step a "soft_target a st gpu views now" "enforceSoft a ctx st gpu views now"
  for a st gpu views now ctx
  by unfold_locales (rule enforceSoft_ext)

section \<open>The whole pass\<close>

definition gpu_target :: "Authorizer \<Rightarrow> State \<Rightarrow> processView list \<Rightarrow> time \<Rightarrow> processView \<Rightarrow> bool" where
  "gpu_target a st views now v \<longleftrightarrow>
     (let gpu = gp_GPU (pv_Process v); rs = activeReservationsForGPU (Reservations st) gpu now;
          ls = activeLeasesForGPU (Leases st) gpu now in
      if rs \<noteq> [] then hard_target a st rs (views_of views gpu) now v
      else if ls \<noteq> [] then lease_target a ls (views_of views gpu) now v
      else soft_target a st gpu (views_of views gpu) now v)"

lemma enforce_gpu_ext:
  "plan_ext a (gpu_target a st views now) p (fst (enforce_gpu a ctx st gpu (views_of views gpu) now p))"
proof -
  let ?rs = "activeReservationsForGPU (Reservations st) gpu now" and ?ls = "activeLeasesForGPU (Leases st) gpu now"
  have gpu: "gp_GPU (pv_Process v) = gpu" if "v \<in> set (views_of views gpu)" for v
    using that by (simp add: views_of_def)
  consider "?rs \<noteq> []" | "?rs = []" "?ls \<noteq> []" | "?rs = []" "?ls = []" by blast
  then show ?thesis
  proof cases
    case 1
    from hard.run_ext [of a st ?rs "views_of views gpu" now p ctx gpu] show ?thesis
      by (simp add: enforce_gpu_def 1, elim plan_ext_mono)
        (use 1 gpu in \<open>auto simp: gpu_target_def hard_target_def Let_def\<close>)
  next
    case 2
    from lease.run_ext [of a ?ls "views_of views gpu" now p ctx st gpu] show ?thesis
      by (simp add: enforce_gpu_def 2, elim plan_ext_mono)
        (use 2 gpu in \<open>auto simp: gpu_target_def lease_target_def Let_def\<close>)
  next
    case 3
    from soft_step.run_ext [of a st gpu "views_of views gpu" now p ctx] show ?thesis
      by (simp add: enforce_gpu_def 3, elim plan_ext_mono)
        (use 3 gpu in \<open>auto simp: gpu_target_def soft_target_def Let_def\<close>)
  qed
qed

lemma gpu_loop_ext: "plan_ext a (gpu_target a st views now) p (fst (gpu_loop a ctx st now views gpus p errs))"
proof (induction gpus arbitrary: p errs)
  case (Cons gpu gpus)
  have step: "plan_ext a (gpu_target a st views now) p q \<Longrightarrow>
      plan_ext a (gpu_target a st views now) p (fst (gpu_loop a ctx st now views gpus q es))" for q es
    using Cons.IH plan_ext_trans by blast
  show ?case
    using enforce_gpu_ext [of a st views now "p\<lparr>ps_polls := Suc (ps_polls p)\<rparr>" ctx gpu]
    by (auto simp: Let_def case_prod_beta intro!: step split: option.split)
qed simp

lemma release_loop_ext: "plan_ext a J p (fst (release_loop a ctx st now views claims p errs))"
proof (induction claims arbitrary: p errs)
  case (Cons claim claims)
  have step: "plan_ext a J p q \<Longrightarrow> plan_ext a J p (fst (release_loop a ctx st now views claims q es))" for q es
    using Cons.IH plan_ext_trans by blast
  show ?case
    by (auto simp: Let_def intro!: step plan_ext_auditI plan_ext_decideI split: option.split prod.split sum.split)
qed simp

text \<open>What the collected views say about the processes.\<close>

definition faithful_view :: "Authorizer \<Rightarrow> State \<Rightarrow> time \<Rightarrow> GPUProcess list \<Rightarrow> processView \<Rightarrow> bool" where
  "faithful_view a st now gs v \<longleftrightarrow> pv_Process v \<in> set gs \<and> usesGPUResources (pv_Process v) \<and>
     (\<exists>read. az_Proc a = Some read \<and> read (view_PID v) = Inr (pv_Info v)) \<and>
     (pv_Bypassed v \<longleftrightarrow> BypassMatch (Bypasses st) (pv_Info v) now (az_BootID a))"

lemma collect_views_ext:
  "collect_views a ctx st now gs p views = (q, views', e) \<Longrightarrow>
     plan_ext a J p q \<and> planned q = planned p \<and>
     (\<forall>v \<in> set views'. v \<in> set views \<or> faithful_view a st now gs v)"
proof (induction gs arbitrary: p views)
  case (Cons g gs)
  have IH: "plan_ext a J p q \<and> planned q = planned p \<and>
      (\<forall>v \<in> set views'. v \<in> set views \<or> faithful_view a st now (g # gs) v)"
    if "collect_views a ctx st now gs p1 ws = (q, views', e)" "plan_ext a J p p1" "planned p1 = planned p"
      "\<forall>v \<in> set ws. v \<in> set views \<or> faithful_view a st now (g # gs) v" for p1 ws
    using Cons.IH [OF that(1)] that(2-) plan_ext_trans [of a J p p1 q]
    by (auto simp: faithful_view_def)
  let ?p = "p\<lparr>ps_polls := Suc (ps_polls p)\<rparr>"
  have plan: "planned ?p = planned p" "planned (decide d r) = planned r" for d r
    by (simp_all add: planned_def decide_def)
  show ?case
  proof (cases "ctx (ps_polls p)")
    case (Some x)
    with Cons.prems show ?thesis by (auto simp: Let_def plan)
  next
    case None
    show ?thesis
    proof (cases "usesGPUResources g \<and> (\<exists>read info. az_Proc a = Some read \<and> read (gp_PID g) = Inr info)")
      case False
      then consider "\<not> usesGPUResources g" | "usesGPUResources g" "az_Proc a = None"
        | read e where "usesGPUResources g" "az_Proc a = Some read" "read (gp_PID g) = Inl e"
        by (cases "az_Proc a") (auto, metis sum.exhaust)
      then have "\<exists>d. collect_views a ctx st now (g # gs) p views =
          collect_views a ctx st now gs (decide d ?p) views"
        by cases (simp_all add: Let_def None, blast+)
      then obtain d where "collect_views a ctx st now (g # gs) p views =
          collect_views a ctx st now gs (decide d ?p) views" by blast
      with Cons.prems have "collect_views a ctx st now gs (decide d ?p) views = (q, views', e)" by simp
      then show ?thesis by (rule IH) (auto intro!: plan_ext_decideI simp: plan)
    next
      case True
      then obtain read info where r: "usesGPUResources g" "az_Proc a = Some read" "read (gp_PID g) = Inr info"
        by blast
      let ?v = "\<lparr>pv_Process = g, pv_Info = info, pv_Bypassed = BypassMatch (Bypasses st) info now (az_BootID a)\<rparr>"
      have "\<exists>p1. collect_views a ctx st now (g # gs) p views = collect_views a ctx st now gs p1 (views @ [?v]) \<and>
          plan_ext a J p p1 \<and> planned p1 = planned p"
        using None r by (cases "BypassMatch (Bypasses st) info now (az_BootID a)")
          (auto simp: Let_def plan intro!: exI conjI plan_ext_decideI)
      then obtain p1 where "collect_views a ctx st now gs p1 (views @ [?v]) = (q, views', e)"
          "plan_ext a J p p1" "planned p1 = planned p" using Cons.prems by auto
      then show ?thesis by (rule IH) (use r in \<open>auto simp: faithful_view_def\<close>)
    qed
  qed
qed simp

lemma plan_views:
  assumes "plan a ctx order st processes ts = (p, errs)"
  obtains views where "\<forall>v \<in> set views. faithful_view a st (az_Now a) processes v"
    "plan_ext (planner a st) (gpu_target (planner a st) st views (az_Now a)) (start_pass a ts) p"
proof -
  let ?a = "planner a st"
  have a: "az_Now ?a = az_Now a" "az_Proc ?a = az_Proc a" "az_BootID ?a = az_BootID a" by (simp_all add: planner_def)
  obtain q views e where c: "collect_views ?a ctx st (az_Now a) processes (start_pass a ts) [] = (q, views, e)"
    by (metis prod_cases3)
  have cv: "plan_ext ?a J (start_pass a ts) q" "\<forall>v \<in> set views. faithful_view ?a st (az_Now a) processes v" for J
    using collect_views_ext [OF c, of J] by auto
  obtain q2 es ok where g: "gpu_loop ?a ctx st (az_Now a) views
      (order (remdups (map (\<lambda>v. gp_GPU (pv_Process v)) views))) q [] = (q2, es, ok)" by (metis prod_cases3)
  have q2: "plan_ext ?a (gpu_target ?a st views (az_Now a)) (start_pass a ts) q2"
    using plan_ext_trans [OF cv(1)] gpu_loop_ext [of ?a st views "az_Now a" q ctx] g by (metis fst_conv)
  have "plan_ext ?a (gpu_target ?a st views (az_Now a)) (start_pass a ts) p"
    using assms c g cv(1) q2 plan_ext_trans [OF q2 release_loop_ext]
    by (auto simp: plan_def enforce_def a Let_def split: option.splits if_splits dest!: arg_cong [of _ _ fst])
  with cv(2) show ?thesis by (intro that [of views]) (simp_all add: faithful_view_def a)
qed

end
