(* ===== verification/Terminations.thy ===== *)
theory Terminations
  imports Enforce
begin

text \<open>
  Staged termination (\<open>internal/enforce/terminations.go\<close> and the killer of
  \<open>internal/enforce/enforce.go\<close>): the table of processes that received SIGTERM, the escalation to
  SIGKILL on a later pass, and the killer that verifies a process's identity before each signal.

  The table of the Go code is a map keyed by process number and start time; here it is a list with
  one entry per key.
\<close>

section \<open>The killer\<close>

datatype signal = SIGTERM | SIGKILL

text \<open>What the kernel and the process reader answer while the killer runs.\<close>

record KillerEnv =
  ke_Grace :: duration
  ke_openPIDFD :: "int \<Rightarrow> enf_error option"
  ke_Info :: "int \<Rightarrow> enf_error + ProcInfo"
  ke_send :: "int \<Rightarrow> signal \<Rightarrow> enf_error option"

definition GracePeriod :: "KillerEnv \<Rightarrow> duration" where
  "GracePeriod k = (if ke_Grace k \<le> 0 then 2 * second else ke_Grace k)"

definition validateIdentity :: "KillerEnv \<Rightarrow> ProcInfo \<Rightarrow> enf_error option" where
  "validateIdentity k info =
     (if pi_PID info \<le> 0 \<or> pi_StartTime info = 0 then Some (ErrUnverifiable (pi_PID info))
      else case ke_Info k (pi_PID info) of
        Inl e \<Rightarrow> Some (ErrIdentityRead (pi_PID info) e)
      | Inr current \<Rightarrow>
          if pi_PID current \<noteq> pi_PID info \<or> pi_StartTime current = 0 \<or> pi_StartTime current \<noteq> pi_StartTime info
          then Some (ErrIdentityChanged (pi_PID info)) else None)"

text \<open>The result, and the signals handed to the kernel.\<close>

definition signalVerified :: "KillerEnv \<Rightarrow> ProcInfo \<Rightarrow> signal \<Rightarrow> enf_error option \<times> (int \<times> signal) list" where
  "signalVerified k info sig =
     (if pi_PID info \<le> 0 \<or> pi_StartTime info = 0 then (Some (ErrUnverifiable (pi_PID info)), [])
      else case ke_openPIDFD k (pi_PID info) of Some e \<Rightarrow> (Some (ErrPidfd (pi_PID info) e), [])
      | None \<Rightarrow>
        (case validateIdentity k info of Some e \<Rightarrow> (Some e, [])
         | None \<Rightarrow>
           (case ke_send k (pi_PID info) sig of
              None \<Rightarrow> (None, [(pi_PID info, sig)])
            | Some e \<Rightarrow> (if e = ErrNoSuchProcess then None else Some e, [(pi_PID info, sig)]))))"

definition Terminate :: "KillerEnv \<Rightarrow> ProcInfo \<Rightarrow> enf_error option \<times> (int \<times> signal) list" where
  "Terminate k info = signalVerified k info SIGTERM"

definition ForceKill :: "KillerEnv \<Rightarrow> ProcInfo \<Rightarrow> enf_error option \<times> (int \<times> signal) list" where
  "ForceKill k info = signalVerified k info SIGKILL"

text \<open>
  The blocking kill: SIGTERM, a wait for the exit, and SIGKILL if the process is still there.
  \<open>exited1\<close> and \<open>exited2\<close> are the outcomes of the two waits, \<open>k'\<close> the answers after the first.
\<close>

definition RealKiller_Kill ::
  "KillerEnv \<Rightarrow> KillerEnv \<Rightarrow> bool \<Rightarrow> bool \<Rightarrow> ProcInfo \<Rightarrow> enf_error option \<times> (int \<times> signal) list" where
  "RealKiller_Kill k k' exited1 exited2 info =
     (case signalVerified k info SIGTERM of
        (Some e, sent) \<Rightarrow> (Some e, sent)
      | (None, sent) \<Rightarrow>
          if exited1 then (None, sent)
          else (case validateIdentity k' info of Some e \<Rightarrow> (Some e, sent)
            | None \<Rightarrow>
              (case ke_send k' (pi_PID info) SIGKILL of
                 Some e \<Rightarrow> if e = ErrNoSuchProcess
                     then (if exited2 then None else Some (ErrStillAlive (pi_PID info)), sent @ [(pi_PID info, SIGKILL)])
                     else (Some e, sent @ [(pi_PID info, SIGKILL)])
               | None \<Rightarrow> (if exited2 then None else Some (ErrStillAlive (pi_PID info)),
                     sent @ [(pi_PID info, SIGKILL)]))))"

text \<open>The killer as the authorizer sees it.\<close>

definition staged_killer :: "KillerEnv \<Rightarrow> KillerEnv \<Rightarrow> bool \<Rightarrow> bool \<Rightarrow> Killer" where
  "staged_killer k k' exited1 exited2 = \<lparr>kl_staged = True,
     kl_Kill = (\<lambda>info. fst (RealKiller_Kill k k' exited1 exited2 info)),
     kl_Terminate = (\<lambda>info. fst (Terminate k info)), kl_ForceKill = (\<lambda>info. fst (ForceKill k info)),
     kl_GracePeriod = GracePeriod k\<rparr>"

section \<open>The table\<close>

definition term_key :: "termination_entry \<Rightarrow> int \<times> uint64" where
  "term_key t = (tm_pid t, tm_startTime t)"

definition Terminations_Len :: "termination_entry list \<Rightarrow> nat" where
  "Terminations_Len ts = length ts"

definition entries :: "termination_entry list \<Rightarrow> termination_entry list" where
  "entries ts = sort_key term_key ts"

definition remove_term :: "int \<times> uint64 \<Rightarrow> termination_entry list \<Rightarrow> termination_entry list" where
  "remove_term key ts = filter (\<lambda>t. term_key t \<noteq> key) ts"

definition markEscalated :: "int \<times> uint64 \<Rightarrow> termination_entry list \<Rightarrow> termination_entry list" where
  "markEscalated key ts = update_where (\<lambda>t. term_key t = key) (\<lambda>t. t\<lparr>tm_escalated := True\<rparr>) ts"

section \<open>Escalation\<close>

text \<open>Whether the signalled process is gone, with the information read.\<close>

definition terminationExited ::
  "(int \<Rightarrow> enf_error + ProcInfo) option \<Rightarrow> int \<times> uint64 \<Rightarrow> enf_error + (bool \<times> ProcInfo)" where
  "terminationExited reader key =
     (case reader of None \<Rightarrow> Inl ErrNoReader
      | Some read \<Rightarrow>
        (case read (fst key) of
           Inl e \<Rightarrow> if e = ErrProcNotExist then Inr (True, zero_ProcInfo) else Inl e
         | Inr info \<Rightarrow> Inr (pi_PID info \<noteq> fst key \<or> pi_StartTime info \<noteq> snd key, info)))"

definition auditTermination :: "pendingKill \<Rightarrow> string \<Rightarrow> string \<Rightarrow> time \<Rightarrow> AuditEvent" where
  "auditTermination request kind outcome now =
     (kill_event request kind (pk_reason request @ '': '' @ outcome))\<lparr>ae_Time := now\<rparr>"

text \<open>
  The state of the loop: table, audit events, errors, polls, and the entries on which the killer
  was asked to send SIGKILL.
\<close>

record EscState =
  ec_terms :: "termination_entry list"
  ec_audits :: "AuditEvent list"
  ec_errors :: "enf_error list"
  ec_polls :: nat
  ec_forced :: "termination_entry list"

definition forget :: "termination_entry \<Rightarrow> AuditEvent \<Rightarrow> EscState \<Rightarrow> EscState" where
  "forget t ev s = s\<lparr>ec_terms := remove_term (term_key t) (ec_terms s), ec_audits := ec_audits s @ [ev]\<rparr>"

definition report :: "enf_error \<Rightarrow> EscState \<Rightarrow> EscState" where
  "report e s = s\<lparr>ec_errors := ec_errors s @ [e]\<rparr>"

text \<open>\<open>reread\<close> is the process reader at the inspection that follows a failed SIGKILL.\<close>

definition escalate_entry ::
  "Authorizer \<Rightarrow> (int \<Rightarrow> enf_error + ProcInfo) option \<Rightarrow> State \<Rightarrow> (int \<times> uint64) set \<Rightarrow> time \<Rightarrow> Killer \<Rightarrow>
     termination_entry \<Rightarrow> EscState \<Rightarrow> EscState" where
  "escalate_entry a reread st allowed now k t s =
     (let request = tm_request t; event = (\<lambda>kind outcome. auditTermination request kind outcome now) in
      if term_key t \<in> allowed then forget t (event ''kill_cancelled'' ''SIGKILL cancelled; process is now authorized'') s
      else case terminationExited (az_Proc a) (term_key t) of
        Inl e \<Rightarrow> report (ErrInspect (tm_pid t) e) s
      | Inr (exited, info) \<Rightarrow>
          if exited then forget t (event ''kill'' ''process exited'') s
          else if BypassMatch (Bypasses st) info now (az_BootID a)
            then forget t (event ''kill_cancelled'' ''SIGKILL cancelled; process is now bypassed'') s
          else if tm_escalated t
            then report (ErrStillAlive (tm_pid t))
              (forget t (event ''kill_failed'' (az_errorText a (ErrStillAlive (tm_pid t)))) s)
          else if now < tm_deadline t then s
          else let s = s\<lparr>ec_forced := ec_forced s @ [t]\<rparr> in
            (case kl_ForceKill k (pv_Info (pk_view request)) of
               None \<Rightarrow> s\<lparr>ec_terms := markEscalated (term_key t) (ec_terms s),
                 ec_audits := ec_audits s @ [event ''kill_escalated'' ''SIGKILL sent after grace period'']\<rparr>
             | Some e \<Rightarrow>
                 (case terminationExited reread (term_key t) of
                    Inr (True, _) \<Rightarrow> forget t (event ''kill'' ''process exited'') s
                  | _ \<Rightarrow> report e (s\<lparr>ec_audits := ec_audits s @ [event ''kill_failed'' (az_errorText a e)]\<rparr>))))"

fun escalate_loop ::
  "Authorizer \<Rightarrow> ctx \<Rightarrow> (int \<Rightarrow> enf_error + ProcInfo) option \<Rightarrow> State \<Rightarrow> (int \<times> uint64) set \<Rightarrow> time \<Rightarrow> Killer \<Rightarrow>
     termination_entry list \<Rightarrow> EscState \<Rightarrow> EscState" where
  "escalate_loop a ctx reread st allowed now k [] s = s"
| "escalate_loop a ctx reread st allowed now k (t # ts) s =
     (let n = ec_polls s; s = s\<lparr>ec_polls := Suc n\<rparr> in
      case ctx n of Some e \<Rightarrow> report e s
      | None \<Rightarrow> escalate_loop a ctx reread st allowed now k ts (escalate_entry a reread st allowed now k t s))"

definition allowed_keys :: "Decision list \<Rightarrow> (int \<times> uint64) set" where
  "allowed_keys ds = (\<lambda>d. (gp_PID (dc_Process d), pi_StartTime (dc_Info d))) `
     set (filter (\<lambda>d. dc_Action d = ''allow'' \<and> gp_PID (dc_Process d) > 0) ds)"

definition EscalateTerminations ::
  "Authorizer \<Rightarrow> ctx \<Rightarrow> (int \<Rightarrow> enf_error + ProcInfo) option \<Rightarrow> State \<Rightarrow> Decision list \<Rightarrow>
     termination_entry list \<Rightarrow> EscState" where
  "EscalateTerminations a ctx reread st decisions ts =
     (let s = \<lparr>ec_terms = ts, ec_audits = [], ec_errors = [], ec_polls = 0, ec_forced = []\<rparr> in
      case stagedKiller a of None \<Rightarrow> s
      | Some k \<Rightarrow> if Terminations_Len ts = 0 then s
          else escalate_loop a ctx reread st (allowed_keys decisions) (az_Now a) k (entries ts) s)"

section \<open>Signals reach only the verified process\<close>

text \<open>
  C29: a signal reaches only the process it was meant for. Whatever the staged or the blocking killer
  hands to the kernel is addressed to the given process number, and each time the process reader
  had just reported that number with the recorded, non-zero start time; SIGKILL is sent by the
  blocking killer only after SIGTERM and a second verification.
\<close>

theorem signals_verified:
  "(\<forall>x \<in> set (snd (signalVerified k info sig)). x = (pi_PID info, sig) \<and>
      (\<exists>cur. ke_Info k (pi_PID info) = Inr cur \<and> pi_PID cur = pi_PID info \<and>
         pi_StartTime cur = pi_StartTime info \<and> pi_StartTime info \<noteq> 0 \<and> 0 < pi_PID info)) \<and>
   (\<exists>later. snd (RealKiller_Kill k k' e1 e2 info) = snd (signalVerified k info SIGTERM) @ later \<and>
      (later \<noteq> [] \<longrightarrow> later = [(pi_PID info, SIGKILL)] \<and> fst (signalVerified k info SIGTERM) = None \<and> \<not> e1 \<and>
         validateIdentity k' info = None))"
proof -
  have "validateIdentity k info = None \<Longrightarrow> \<exists>cur. ke_Info k (pi_PID info) = Inr cur \<and> pi_PID cur = pi_PID info \<and>
         pi_StartTime cur = pi_StartTime info \<and> pi_StartTime info \<noteq> 0 \<and> 0 < pi_PID info"
    by (auto simp: validateIdentity_def split: if_splits sum.splits)
  then have "\<forall>x \<in> set (snd (signalVerified k info sig)). x = (pi_PID info, sig) \<and>
      (\<exists>cur. ke_Info k (pi_PID info) = Inr cur \<and> pi_PID cur = pi_PID info \<and>
         pi_StartTime cur = pi_StartTime info \<and> pi_StartTime info \<noteq> 0 \<and> 0 < pi_PID info)"
    by (auto simp: signalVerified_def split: option.split)
  moreover have "\<exists>later. snd (RealKiller_Kill k k' e1 e2 info) = snd (signalVerified k info SIGTERM) @ later \<and>
      (later \<noteq> [] \<longrightarrow> later = [(pi_PID info, SIGKILL)] \<and> fst (signalVerified k info SIGTERM) = None \<and> \<not> e1 \<and>
         validateIdentity k' info = None)"
    by (auto simp: RealKiller_Kill_def split: prod.split option.split)
  ultimately show ?thesis ..
qed

definition example_info :: ProcInfo where
  "example_info = zero_ProcInfo\<lparr>pi_PID := 42, pi_StartTime := 7, pi_UID := 1000\<rparr>"

definition example_killer_env :: KillerEnv where
  "example_killer_env = \<lparr>ke_Grace = 0, ke_openPIDFD = (\<lambda>_. None),
     ke_Info = (\<lambda>pid. if pid = 42 then Inr example_info else Inl ErrProcNotExist), ke_send = (\<lambda>_ _. None)\<rparr>"

theorem signals_verified_witness:
  "snd (signalVerified example_killer_env example_info SIGTERM) = [(42, SIGTERM)] \<and>
   (\<exists>cur. ke_Info example_killer_env 42 = Inr cur \<and> pi_StartTime cur = 7)"
proof -
  have sent: "snd (signalVerified example_killer_env example_info SIGTERM) = [(42, SIGTERM)]" by code_simp
  have id: "pi_PID example_info = 42" "pi_StartTime example_info = 7" by code_simp+
  from signals_verified [of example_killer_env example_info SIGTERM example_killer_env True True] sent id
  show ?thesis by auto
qed

section \<open>Escalation is justified and happens once\<close>

definition sigkill_due ::
  "Authorizer \<Rightarrow> State \<Rightarrow> (int \<times> uint64) set \<Rightarrow> time \<Rightarrow> termination_entry \<Rightarrow> bool" where
  "sigkill_due a st allowed now t \<longleftrightarrow> \<not> tm_escalated t \<and> tm_deadline t \<le> now \<and> term_key t \<notin> allowed \<and>
     (\<exists>read info. az_Proc a = Some read \<and> read (tm_pid t) = Inr info \<and> pi_PID info = tm_pid t \<and>
        pi_StartTime info = tm_startTime t \<and> \<not> BypassMatch (Bypasses st) info now (az_BootID a))"

lemma escalate_entry_forced:
  "ec_forced (escalate_entry a reread st allowed now k t s) =
     ec_forced s @ (if sigkill_due a st allowed now t then [t] else [])"
  by (auto simp: escalate_entry_def sigkill_due_def terminationExited_def forget_def report_def Let_def
      term_key_def split: option.split sum.split prod.split bool.split)

lemma escalate_entry_keys:
  "term_key ` set (ec_terms (escalate_entry a reread st allowed now k t s)) \<subseteq> term_key ` set (ec_terms s)"
proof -
  have "term_key ` set (markEscalated key ts) = term_key ` set ts" for key ts
    by (induction ts) (auto simp: markEscalated_def update_where_def term_key_def)
  then show ?thesis
    by (auto simp: escalate_entry_def forget_def report_def remove_term_def Let_def
        split: option.split sum.split prod.split bool.split)
qed

lemma escalate_loop_forced:
  assumes "\<forall>t \<in> set (ec_forced s). Q t" "\<forall>t \<in> set ts. sigkill_due a st allowed now t \<longrightarrow> Q t"
  shows "\<forall>t \<in> set (ec_forced (escalate_loop a ctx reread st allowed now k ts s)). Q t"
  using assms
proof (induction ts arbitrary: s)
  case (Cons t ts)
  let ?s = "s\<lparr>ec_polls := Suc (ec_polls s)\<rparr>"
  have "\<forall>t \<in> set (ec_forced (escalate_entry a reread st allowed now k t ?s)). Q t"
    using Cons.prems by (auto simp: escalate_entry_forced)
  from Cons.IH [OF this] Cons.prems show ?case
    by (simp add: Let_def report_def split: option.split)
qed simp

lemma escalate_loop_keys:
  "term_key ` set (ec_terms (escalate_loop a ctx reread st allowed now k ts s)) \<subseteq> term_key ` set (ec_terms s)"
proof (induction ts arbitrary: s)
  case (Cons t ts)
  show ?case
    using Cons.IH [of "escalate_entry a reread st allowed now k t (s\<lparr>ec_polls := Suc (ec_polls s)\<rparr>)"]
      escalate_entry_keys [of a reread st allowed now k t "s\<lparr>ec_polls := Suc (ec_polls s)\<rparr>"]
    by (auto simp: Let_def report_def split: option.split)
qed simp

lemma escalation_due:
  "\<forall>t \<in> set (ec_forced (EscalateTerminations a ctx reread st decisions ts)).
     t \<in> set ts \<and> sigkill_due a st (allowed_keys decisions) (az_Now a) t"
proof (cases "stagedKiller a")
  case (Some k)
  have "\<forall>t \<in> set (ec_forced (escalate_loop a ctx reread st (allowed_keys decisions) (az_Now a) k (entries ts)
      \<lparr>ec_terms = ts, ec_audits = [], ec_errors = [], ec_polls = 0, ec_forced = []\<rparr>)).
      t \<in> set ts \<and> sigkill_due a st (allowed_keys decisions) (az_Now a) t"
    by (rule escalate_loop_forced) (auto simp: entries_def)
  with Some show ?thesis by (simp add: EscalateTerminations_def Let_def)
qed (simp add: EscalateTerminations_def Let_def)

lemma escalation_justified_keys:
  "g \<in> set (ec_forced (EscalateTerminations a ctx reread st decisions ts)) \<Longrightarrow> g \<in> set ts \<and> \<not> tm_escalated g"
  using escalation_due by (auto simp: sigkill_due_def)

text \<open>
  SIGKILL is sent only when it is due. Every entry on which a pass asks for SIGKILL was
  recorded by an earlier SIGTERM, its grace period is over, no SIGKILL was sent before, no decision
  of the pass allows the process, and the process reader has just shown the same process number and
  start time, without a bypass rule for it.
\<close>

theorem escalation_justified:
  "\<forall>t \<in> set (ec_forced (EscalateTerminations a ctx reread st decisions ts)).
     t \<in> set ts \<and> sigkill_due a st (allowed_keys decisions) (az_Now a) t"
  by (rule escalation_due)

definition example_request :: pendingKill where
  "example_request = \<lparr>pk_view = \<lparr>pv_Process = zero_GPUProcess\<lparr>gp_PID := 42, gp_MemBytes := 1\<rparr>,
     pv_Info = example_info, pv_Bypassed = False\<rparr>, pk_reason = ''r'', pk_leaseID = [], pk_authID = [],
     pk_holder = ''alice'', pk_tokenHash = ''h'', pk_now = 100\<rparr>"

definition example_entry :: termination_entry where
  "example_entry = \<lparr>tm_pid = 42, tm_startTime = 7, tm_request = example_request, tm_deadline = 200,
     tm_escalated = False\<rparr>"

definition example_authorizer :: Authorizer where
  "example_authorizer = \<lparr>az_Proc = Some (ke_Info example_killer_env), az_Exists = (\<lambda>pid. pid = 42),
     az_Runtime = None, az_Killer = Some (staged_killer example_killer_env example_killer_env False True),
     az_BootID = ''boot'', az_ValidateKill = None, az_UsernameLookup = (\<lambda>_. Inl (ErrProc ''lookup'')),
     az_Now = 300, az_DryRun = False, az_hasTerminations = True, az_activeTokens = None,
     az_errorText = (\<lambda>_. ''error'')\<rparr>"

theorem escalation_justified_witness:
  "ec_forced (EscalateTerminations example_authorizer (\<lambda>_. None) None empty_State [] [example_entry]) = [example_entry] \<and>
   sigkill_due example_authorizer empty_State {} 300 example_entry"
proof -
  have f: "ec_forced (EscalateTerminations example_authorizer (\<lambda>_. None) None empty_State [] [example_entry]) =
      [example_entry]" by code_simp
  from escalation_justified [of example_authorizer "\<lambda>_. None" None empty_State "[]" "[example_entry]"] f
  show ?thesis by (simp add: allowed_keys_def example_authorizer_def)
qed

lemma escalate_loop_removed:
  assumes "\<forall>n. ctx n = None" "t \<in> set ts"
    and "\<And>s. term_key t \<notin> term_key ` set (ec_terms (escalate_entry a reread st allowed now k t s))"
  shows "term_key t \<notin> term_key ` set (ec_terms (escalate_loop a ctx reread st allowed now k ts s))"
  using assms(2)
proof (induction ts arbitrary: s)
  case (Cons u ts)
  show ?case
  proof (cases "t \<in> set ts")
    case True
    with Cons.IH assms(1) show ?thesis by (simp add: Let_def)
  next
    case False
    with Cons.prems have "u = t" by simp
    with assms(1,3) escalate_loop_keys show ?thesis by (fastforce simp: Let_def)
  qed
qed simp

lemma escalate_entry_settled:
  assumes "term_key t \<in> allowed \<or> (\<exists>read. az_Proc a = Some read \<and>
      (read (tm_pid t) = Inl ErrProcNotExist \<or>
       (\<exists>info. read (tm_pid t) = Inr info \<and> (pi_StartTime info \<noteq> tm_startTime t \<or> tm_escalated t))))"
  shows "term_key t \<notin> term_key ` set (ec_terms (escalate_entry a reread st allowed now k t s))"
  using assms
  by (auto simp: escalate_entry_def terminationExited_def forget_def report_def remove_term_def Let_def term_key_def
      split: if_splits)

text \<open>
  C38: terminations are settled. A pass whose context is not cancelled forgets every signalled
  process that it allowed, that has exited, whose number now belongs to another process, or that
  is still there after the SIGKILL of an earlier pass; the table never gains an entry.
\<close>

theorem escalation_settles:
  assumes "\<forall>n. ctx n = None" "stagedKiller a \<noteq> None" "t \<in> set ts"
    and "term_key t \<in> allowed_keys decisions \<or> (\<exists>read. az_Proc a = Some read \<and>
      (read (tm_pid t) = Inl ErrProcNotExist \<or>
       (\<exists>info. read (tm_pid t) = Inr info \<and> (pi_StartTime info \<noteq> tm_startTime t \<or> tm_escalated t))))"
  shows "term_key t \<notin> term_key ` set (ec_terms (EscalateTerminations a ctx reread st decisions ts)) \<and>
    term_key ` set (ec_terms (EscalateTerminations a ctx reread st decisions ts)) \<subseteq> term_key ` set ts"
proof -
  from assms(2) obtain k where k: "stagedKiller a = Some k" by blast
  let ?s = "\<lparr>ec_terms = ts, ec_audits = [], ec_errors = [], ec_polls = 0, ec_forced = []\<rparr>"
  have "ts \<noteq> []" using assms(3) by auto
  then have e: "EscalateTerminations a ctx reread st decisions ts =
      escalate_loop a ctx reread st (allowed_keys decisions) (az_Now a) k (entries ts) ?s"
    by (simp add: EscalateTerminations_def k Terminations_Len_def)
  have "t \<in> set (entries ts)" using assms(3) by (simp add: entries_def)
  from escalate_loop_removed [OF assms(1) this escalate_entry_settled [OF assms(4)]]
    escalate_loop_keys [of a ctx reread st "allowed_keys decisions" "az_Now a" k "entries ts" ?s]
  show ?thesis unfolding e by simp
qed

theorem escalation_settles_witness:
  "term_key (example_entry\<lparr>tm_escalated := True\<rparr>) \<notin> term_key ` set (ec_terms
     (EscalateTerminations example_authorizer (\<lambda>_. None) None empty_State [] [example_entry\<lparr>tm_escalated := True\<rparr>]))"
proof -
  have staged: "stagedKiller example_authorizer \<noteq> None" by code_simp
  have "ke_Info example_killer_env 42 = Inr example_info" by (simp add: example_killer_env_def)
  then have "\<exists>read. az_Proc example_authorizer = Some read \<and>
      (\<exists>info. read (tm_pid (example_entry\<lparr>tm_escalated := True\<rparr>)) = Inr info \<and> tm_escalated (example_entry\<lparr>tm_escalated := True\<rparr>))"
    by (simp add: example_authorizer_def example_entry_def)
  with escalation_settles [of "\<lambda>_. None" example_authorizer "example_entry\<lparr>tm_escalated := True\<rparr>"
      "[example_entry\<lparr>tm_escalated := True\<rparr>]" "[]" None empty_State] staged
  show ?thesis by auto
qed

section \<open>At most one SIGKILL\<close>

lemma markEscalated_marks: "\<forall>u \<in> set (markEscalated key ts). term_key u = key \<longrightarrow> tm_escalated u"
  by (simp add: markEscalated_def ball_update_where term_key_def)

lemma marked_stays:
  assumes "\<forall>u \<in> set (ec_terms s). term_key u = key \<longrightarrow> tm_escalated u"
  shows "\<forall>u \<in> set (ec_terms (escalate_entry a reread st allowed now k t s)). term_key u = key \<longrightarrow> tm_escalated u"
proof -
  have "\<forall>u \<in> set (markEscalated key' ts). term_key u = key \<longrightarrow> tm_escalated u"
    if "\<forall>u \<in> set ts. term_key u = key \<longrightarrow> tm_escalated u" for key' ts
    using that by (simp add: markEscalated_def ball_update_where term_key_def)
  with assms show ?thesis
    by (auto simp: escalate_entry_def forget_def report_def remove_term_def Let_def
        split: option.split sum.split prod.split bool.split)
qed

lemma marked_stays_loop:
  "\<forall>u \<in> set (ec_terms s). term_key u = key \<longrightarrow> tm_escalated u \<Longrightarrow>
     \<forall>u \<in> set (ec_terms (escalate_loop a ctx reread st allowed now k ts s)). term_key u = key \<longrightarrow> tm_escalated u"
proof (induction ts arbitrary: s)
  case (Cons t ts)
  let ?s = "s\<lparr>ec_polls := Suc (ec_polls s)\<rparr>"
  have "\<forall>u \<in> set (ec_terms (escalate_entry a reread st allowed now k t ?s)). term_key u = key \<longrightarrow> tm_escalated u"
    by (rule marked_stays) (use Cons.prems in simp)
  from Cons.IH [OF this] Cons.prems show ?case
    by (simp add: Let_def report_def split: option.split)
qed simp

lemma forced_marked:
  assumes "sigkill_due a st allowed now t" "kl_ForceKill k (pv_Info (pk_view (tm_request t))) = None"
  shows "\<forall>u \<in> set (ec_terms (escalate_entry a reread st allowed now k t s)). term_key u = term_key t \<longrightarrow> tm_escalated u"
  using assms markEscalated_marks [of "term_key t" "ec_terms s"]
  by (auto simp: escalate_entry_def sigkill_due_def terminationExited_def Let_def term_key_def)

lemma escalate_loop_marks:
  assumes "\<forall>t \<in> set ts. kl_ForceKill k (pv_Info (pk_view (tm_request t))) = None"
    and "\<forall>f \<in> set (ec_forced s). \<forall>u \<in> set (ec_terms s). term_key u = term_key f \<longrightarrow> tm_escalated u"
  shows "\<forall>f \<in> set (ec_forced (escalate_loop a ctx reread st allowed now k ts s)).
    \<forall>u \<in> set (ec_terms (escalate_loop a ctx reread st allowed now k ts s)). term_key u = term_key f \<longrightarrow> tm_escalated u"
  using assms
proof (induction ts arbitrary: s)
  case (Cons t ts)
  let ?s = "s\<lparr>ec_polls := Suc (ec_polls s)\<rparr>"
  let ?e = "escalate_entry a reread st allowed now k t ?s"
  have old: "\<forall>u \<in> set (ec_terms ?e). term_key u = term_key f \<longrightarrow> tm_escalated u" if "f \<in> set (ec_forced s)" for f
    by (rule marked_stays) (use Cons.prems(2) that in simp)
  have new: "\<forall>u \<in> set (ec_terms ?e). term_key u = term_key t \<longrightarrow> tm_escalated u"
    if "sigkill_due a st allowed now t"
    by (rule forced_marked [OF that]) (use Cons.prems(1) in simp)
  have "\<forall>f \<in> set (ec_forced ?e). \<forall>u \<in> set (ec_terms ?e). term_key u = term_key f \<longrightarrow> tm_escalated u"
    using old new by (auto simp: escalate_entry_forced)
  from Cons.IH [OF _ this] Cons.prems show ?case
    by (simp add: Let_def report_def split: option.split)
qed simp

text \<open>
  SIGKILL is sent at most once per recorded termination. When the killer reported success for
  the entries of a pass, no entry of the table it leaves that has the key of an entry forced in that
  pass is forced again by the next pass, whatever the next pass decides.
\<close>

theorem sigkill_at_most_once:
  assumes "stagedKiller a = Some k" "\<forall>t \<in> set ts. kl_ForceKill k (pv_Info (pk_view (tm_request t))) = None"
    and "f \<in> set (ec_forced (EscalateTerminations a ctx reread st decisions ts))"
    and "g \<in> set (ec_forced (EscalateTerminations a' ctx' reread' st' decisions'
        (ec_terms (EscalateTerminations a ctx reread st decisions ts))))"
  shows "term_key g \<noteq> term_key f"
proof
  assume same: "term_key g = term_key f"
  let ?s = "\<lparr>ec_terms = ts, ec_audits = [], ec_errors = [], ec_polls = 0, ec_forced = []\<rparr>"
  let ?pass = "EscalateTerminations a ctx reread st decisions ts"
  have ne: "ts \<noteq> []" using assms(3) by (auto simp: EscalateTerminations_def Let_def Terminations_Len_def assms(1))
  then have e: "?pass = escalate_loop a ctx reread st (allowed_keys decisions) (az_Now a) k (entries ts) ?s"
    by (simp add: EscalateTerminations_def assms(1) Terminations_Len_def)
  have "\<forall>f \<in> set (ec_forced ?pass). \<forall>u \<in> set (ec_terms ?pass). term_key u = term_key f \<longrightarrow> tm_escalated u"
    unfolding e by (rule escalate_loop_marks) (use assms(2) in \<open>auto simp: entries_def\<close>)
  moreover have "g \<in> set (ec_terms ?pass)" "\<not> tm_escalated g"
    using escalation_justified_keys [OF assms(4)] by auto
  ultimately show False using assms(3) same by blast
qed

theorem sigkill_at_most_once_witness:
  "\<not> (\<exists>g \<in> set (ec_forced (EscalateTerminations example_authorizer (\<lambda>_. None) None empty_State []
        (ec_terms (EscalateTerminations example_authorizer (\<lambda>_. None) None empty_State [] [example_entry])))).
      term_key g = (42, 7))"
proof -
  have f: "ec_forced (EscalateTerminations example_authorizer (\<lambda>_. None) None empty_State [] [example_entry]) =
      [example_entry]" by code_simp
  obtain k where k: "stagedKiller example_authorizer = Some k" "kl_ForceKill k example_info = None"
  proof -
    have "stagedKiller example_authorizer = Some (staged_killer example_killer_env example_killer_env False True)"
      by (simp add: stagedKiller_def example_authorizer_def staged_killer_def)
    moreover have "kl_ForceKill (staged_killer example_killer_env example_killer_env False True) example_info = None"
      by code_simp
    ultimately show ?thesis using that by blast
  qed
  have key: "term_key example_entry = (42, 7)" by (simp add: term_key_def example_entry_def)
  have "\<forall>t \<in> set [example_entry]. kl_ForceKill k (pv_Info (pk_view (tm_request t))) = None"
    using k(2) by (simp add: example_entry_def example_request_def)
  from sigkill_at_most_once [OF k(1) this, of example_entry "\<lambda>_. None" None empty_State "[]"
      _ example_authorizer "\<lambda>_. None" None empty_State "[]"] f key
  show ?thesis by auto
qed

end
