(* ===== verification/Enforce_Theorems.thy ===== *)
theory Enforce_Theorems
  imports Enforce_Plan Terminations
begin

text \<open>
  The guarantees of an enforcement pass: whom it may terminate and why, how much it may do, and
  that it does decide about every process on a reserved GPU.
\<close>

section \<open>A concrete pass\<close>

definition example_gpu_process :: GPUProcess where
  "example_gpu_process = zero_GPUProcess\<lparr>gp_GPU := 0, gp_PID := 42, gp_MemBytes := 1\<rparr>"

definition example_reservation :: Reservation where
  "example_reservation = \<lparr>rs_ID = ''res_1'', rs_GroupID = [], rs_ExternalSessionID = [], rs_GPU = 0,
     rs_TokenHash = ''h1'', rs_Holder = ''bob'', rs_Purpose = [], rs_CreatedAt = 100, rs_StartsAt = 100,
     rs_ExpiresAt = 1000, rs_Active = True, rs_Revoked = False\<rparr>"

definition example_state :: State where
  "example_state = empty_State\<lparr>Reservations := [example_reservation]\<rparr>"

abbreviation example_plan :: "Pass \<times> enf_error list" where
  "example_plan \<equiv> plan example_authorizer (\<lambda>_. None) (\<lambda>gpus. gpus) example_state [example_gpu_process] []"

definition example_kill :: pendingKill where
  "example_kill = hd (planned (fst example_plan))"

lemma example_kill_planned: "example_kill \<in> set (planned (fst example_plan))"
proof -
  have "planned (fst example_plan) \<noteq> []" by code_simp
  then show ?thesis by (simp add: example_kill_def)
qed

section \<open>Whom a pass may terminate\<close>

lemma planned_target:
  assumes "r \<in> set (planned (fst (plan a ctx order st processes ts)))"
  obtains views where "\<forall>v \<in> set views. faithful_view a st (az_Now a) processes v"
    "gpu_target (planner a st) st views (az_Now a) (pk_view r)" "pk_view r \<in> set views"
    "\<not> pv_Bypassed (pk_view r)"
proof -
  obtain p errs where p: "plan a ctx order st processes ts = (p, errs)" by fastforce
  from plan_views [OF p] obtain views where v: "\<forall>v \<in> set views. faithful_view a st (az_Now a) processes v"
    and e: "plan_ext (planner a st) (gpu_target (planner a st) st views (az_Now a)) (start_pass a ts) p" .
  from e assms p have t: "gpu_target (planner a st) st views (az_Now a) (pk_view r)"
    by (auto simp: plan_ext_def start_pass_def planned_def split: if_splits)
  then have "pk_view r \<in> set views" "\<not> pv_Bypassed (pk_view r)"
    by (auto simp: gpu_target_def hard_target_def lease_target_def soft_target_def views_of_def Let_def
        split: if_splits)
  with v t show ?thesis by (rule that)
qed

text \<open>
  C23: a pass plans to terminate only processes it has seen. Every planned kill is for a sampled process
  that uses GPU memory, carries the identity the process reader reported for its number, and is
  covered by no bypass rule.
\<close>

theorem kills_seen_and_not_bypassed:
  assumes "r \<in> set (planned (fst (plan a ctx order st processes ts)))"
  shows "pv_Process (pk_view r) \<in> set processes \<and> usesGPUResources (pv_Process (pk_view r)) \<and>
    (\<exists>read. az_Proc a = Some read \<and> read (kill_PID r) = Inr (pv_Info (pk_view r))) \<and>
    \<not> BypassMatch (Bypasses st) (pv_Info (pk_view r)) (az_Now a) (az_BootID a)"
  using assms by (rule planned_target) (auto simp: faithful_view_def)

theorem kills_seen_and_not_bypassed_witness:
  "pv_Process (pk_view example_kill) \<in> set [example_gpu_process] \<and>
   \<not> BypassMatch (Bypasses example_state) (pv_Info (pk_view example_kill)) (az_Now example_authorizer)
       (az_BootID example_authorizer)"
  using kills_seen_and_not_bypassed [OF example_kill_planned] by blast

text \<open>
  C4: on a reserved GPU only outsiders are terminated. When a planned kill is on a GPU with an
  active reservation, every authorization in force whose key is valid and holds an active
  reservation of that GPU was resolved and does not cover the process; a scope that could not be
  resolved never leads to a kill.
\<close>

theorem reserved_kills_are_outsiders:
  assumes "r \<in> set (planned (fst (plan a ctx order st processes ts)))"
    and "rs = activeReservationsForGPU (Reservations st) (gp_GPU (pv_Process (pk_view r))) (az_Now a)" "rs \<noteq> []"
    and "au \<in> set (Authorizations st)"
    and "candidate_mode (planner a st) st (Some (rs_TokenHash ` set rs)) [] (az_Now a) au \<noteq> None"
  shows "authorizationScopeMatchesForEviction (planner a st) au (pv_Info (pk_view r)) = Inr False"
  using assms(1)
  by (rule planned_target)
    (use assms(2-) in \<open>auto simp: gpu_target_def hard_target_def unentitled_def Let_def\<close>)

definition example_other_authorization :: Authorization where
  "example_other_authorization = zero_Authorization\<lparr>au_ID := ''auth_1'', au_Mode := ModeUser, au_UID := 2000,
     au_TokenHash := ''h1'', au_Active := True\<rparr>"

definition example_guarded_state :: State where
  "example_guarded_state = example_state\<lparr>Authorizations := [example_other_authorization],
     Tokens := [zero_Token\<lparr>tk_ID := ''tok_1'', tk_Hash := ''h1'', tk_Mode := ''reserved''\<rparr>]\<rparr>"

theorem reserved_kills_are_outsiders_witness:
  "\<exists>r \<in> set (planned (fst (plan example_authorizer (\<lambda>_. None) (\<lambda>gpus. gpus) example_guarded_state
       [example_gpu_process] []))).
     authorizationScopeMatchesForEviction (planner example_authorizer example_guarded_state)
       example_other_authorization (pv_Info (pk_view r)) = Inr False"
proof -
  let ?l = "planned (fst (plan example_authorizer (\<lambda>_. None) (\<lambda>gpus. gpus) example_guarded_state
    [example_gpu_process] []))"
  have "?l \<noteq> []" by code_simp
  then have r: "hd ?l \<in> set ?l" by simp
  have rs: "activeReservationsForGPU (Reservations example_guarded_state)
      (gp_GPU (pv_Process (pk_view (hd ?l)))) (az_Now example_authorizer) = [example_reservation]" by code_simp
  have "candidate_mode (planner example_authorizer example_guarded_state) example_guarded_state
      (Some {''h1''}) [] (az_Now example_authorizer) example_other_authorization = Some ''reserved''" by code_simp
  with reserved_kills_are_outsiders [OF r rs [symmetric], of example_other_authorization] r show ?thesis
    by (auto simp: example_guarded_state_def example_reservation_def intro!: bexI [of _ "hd ?l"])
qed

text \<open>
  nobody is terminated on a GPU that nobody holds. A planned kill is on a GPU that has, at that
  instant, an active reservation, an active lease or a soft claim of a valid key, or on which a
  sampled process that is not bypassed is covered by an authorization in force of a valid claimed
  or managed key.
\<close>

theorem kills_only_on_held_gpus:
  assumes "r \<in> set (planned (fst (plan a ctx order st processes ts)))"
  shows "let gpu = gp_GPU (pv_Process (pk_view r)); now = az_Now a in
    activeReservationsForGPU (Reservations st) gpu now \<noteq> [] \<or> activeLeasesForGPU (Leases st) gpu now \<noteq> [] \<or>
    activeSoftClaimsForGPU st gpu now \<noteq> [] \<or>
    (\<exists>g \<in> set processes. gp_GPU g = gpu \<and> (\<exists>info. \<exists>au \<in> set (Authorizations st).
       \<not> BypassMatch (Bypasses st) info now (az_BootID a) \<and>
       entitles (planner a st) st None TokenModeClaimed now info au))"
proof -
  let ?gpu = "gp_GPU (pv_Process (pk_view r))" and ?now = "az_Now a"
  from assms obtain views where
    v: "\<forall>v \<in> set views. faithful_view a st ?now processes v" and
    t: "gpu_target (planner a st) st views ?now (pk_view r)" and
    "pk_view r \<in> set views" "\<not> pv_Bypassed (pk_view r)" by (rule planned_target)
  show ?thesis
  proof (cases "activeReservationsForGPU (Reservations st) ?gpu ?now \<noteq> [] \<or> activeLeasesForGPU (Leases st) ?gpu ?now \<noteq> [] \<or>
      activeSoftClaimsForGPU st ?gpu ?now \<noteq> []")
    case False
    with t obtain v0 owner where o: "v0 \<in> set (views_of views ?gpu)" "\<not> pv_Bypassed v0" "owner \<in> set (Authorizations st)"
      "entitles (planner a st) st None TokenModeClaimed ?now (pv_Info v0) owner"
      by (simp add: gpu_target_def soft_target_def Let_def) blast
    then have "v0 \<in> set views" "gp_GPU (pv_Process v0) = ?gpu"
      by (simp_all add: views_of_def)
    with v have "pv_Process v0 \<in> set processes"
      "pv_Bypassed v0 = BypassMatch (Bypasses st) (pv_Info v0) ?now (az_BootID a)"
      by (simp_all add: faithful_view_def)
    with o \<open>gp_GPU (pv_Process v0) = ?gpu\<close> show ?thesis
      unfolding Let_def by blast
  qed (auto simp: Let_def)
qed

theorem kills_only_on_held_gpus_witness:
  "activeReservationsForGPU (Reservations example_state) (gp_GPU (pv_Process (pk_view example_kill))) 300 \<noteq> []"
proof -
  have "activeLeasesForGPU (Leases example_state) gpu now = []" "activeSoftClaimsForGPU example_state gpu now = []"
    "Authorizations example_state = []" for gpu now
    by (simp_all add: example_state_def empty_State_def activeLeasesForGPU_def activeSoftClaimsForGPU_def)
  with kills_only_on_held_gpus [OF example_kill_planned] show ?thesis
    by (simp add: Let_def example_authorizer_def)
qed

section \<open>How much a pass may do\<close>

text \<open>
  the kill budget. A pass plans at most eight kills and at most one per process number, however
  many GPUs a process is on and whatever the order in which the GPUs are visited.
\<close>

theorem kill_budget:
  "length (planned (fst (plan a ctx order st processes ts))) \<le> maxKillsPerEnforcementPass \<and>
   distinct (map kill_PID (planned (fst (plan a ctx order st processes ts))))"
proof -
  obtain p errs where p: "plan a ctx order st processes ts = (p, errs)" by fastforce
  obtain views where "plan_ext (planner a st) (gpu_target (planner a st) st views (az_Now a)) (start_pass a ts) p"
    using plan_views [OF p] by blast
  moreover have "planned (start_pass a ts) = []" by (simp add: start_pass_def planned_def)
  ultimately obtain new where "planned p = new" "distinct (map kill_PID new)"
    "new \<noteq> [] \<longrightarrow> length (planned p) \<le> maxKillsPerEnforcementPass"
    by (auto simp: plan_ext_def)
  with p show ?thesis by (cases "new = []") auto
qed

text \<open>
  a dry run harms nobody. In dry-run mode a pass plans no kill, executes none, leaves the table of
  terminations as it was and reports no kill error.
\<close>

theorem dry_run_harmless:
  assumes "az_DryRun a"
  shows "planned (fst (plan a ctx order st processes ts)) = [] \<and>
    ps_terms (fst (Enforce a ctx order cancel st processes ts)) = ts \<and>
    snd (Enforce a ctx order cancel st processes ts) = snd (plan a ctx order st processes ts)"
proof -
  obtain p errs where p: "plan a ctx order st processes ts = (p, errs)" by fastforce
  obtain views where e: "plan_ext (planner a st) (gpu_target (planner a st) st views (az_Now a)) (start_pass a ts) p"
    using plan_views [OF p] by blast
  have s: "ps_pending (start_pass a ts) = None" "ps_terms (start_pass a ts) = ts" "az_DryRun (planner a st)"
    using assms by (simp_all add: start_pass_def planner_def)
  from e s have "ps_pending p = None" "ps_terms p = ts" unfolding plan_ext_def by auto
  then show ?thesis
    by (simp add: p planned_def Enforce_def executePendingKills_def)
qed

theorem dry_run_harmless_witness:
  "planned (fst (plan (example_authorizer\<lparr>az_DryRun := True\<rparr>) (\<lambda>_. None) (\<lambda>gpus. gpus) example_state
     [example_gpu_process] [])) = []"
  using dry_run_harmless [of "example_authorizer\<lparr>az_DryRun := True\<rparr>"] by simp

end
