(* ===== verification/Evict_Theorems.thy ===== *)
theory Evict_Theorems
  imports Evict Enforce_Theorems
begin

text \<open>
  The guarantees of the eviction of expired entitlements: whom it may terminate, when a stale scope
  may be forgotten, and that the shortcut which skips the scan loses nothing.
\<close>

section \<open>The two scope loops\<close>

definition stale_authorization ::
  "Authorizer \<Rightarrow> State \<Rightarrow> time \<Rightarrow> int \<Rightarrow> ProcInfo \<Rightarrow> Authorization \<Rightarrow> bool" where
  "stale_authorization a st now gpu info au \<longleftrightarrow>
     authorizationEvictionState au gpu (tokens_by_hash (Tokens st)) (validReservations st now)
       (staleReservations st now) now = (False, True) \<and>
     authorizationScopeMatchesForEviction a au info = Inr True"

definition stale_lease :: "Authorizer \<Rightarrow> State \<Rightarrow> time \<Rightarrow> int \<Rightarrow> ProcInfo \<Rightarrow> Lease \<Rightarrow> bool" where
  "stale_lease a st now gpu info l \<longleftrightarrow>
     leaseEvictionState l gpu (tokens_by_hash (Tokens st)) now = (False, True) \<and>
     leaseScopeMatchesForEviction a l info = Inr True"

definition entitled_authorization :: "State \<Rightarrow> time \<Rightarrow> int \<Rightarrow> Authorization \<Rightarrow> bool" where
  "entitled_authorization st now gpu au \<longleftrightarrow>
     fst (authorizationEvictionState au gpu (tokens_by_hash (Tokens st)) (validReservations st now)
       (staleReservations st now) now)"

definition entitled_lease :: "State \<Rightarrow> time \<Rightarrow> int \<Rightarrow> Lease \<Rightarrow> bool" where
  "entitled_lease st now gpu l \<longleftrightarrow> fst (leaseEvictionState l gpu (tokens_by_hash (Tokens st)) now)"

lemma evict_authorizations_Inr:
  "evict_authorizations a ctx state info aus old n = (n', Inr (old', m)) \<Longrightarrow>
     (m \<longrightarrow> (\<exists>au \<in> set aus. fst (state au) \<and> authorizationScopeMatchesForEviction a au info = Inr True)) \<and>
     (\<not> m \<longrightarrow> (\<forall>au \<in> set aus. fst (state au) \<longrightarrow> authorizationScopeMatchesForEviction a au info = Inr False) \<and>
        set old' = set old \<union> {au \<in> set aus. state au = (False, True) \<and>
          authorizationScopeMatchesForEviction a au info = Inr True})"
proof (induction aus arbitrary: old n)
  case (Cons au aus)
  from Cons.prems show ?case
    by (cases "state au") (auto split: option.splits sum.splits if_splits dest!: Cons.IH)
qed simp

lemma evict_leases_Inr:
  "evict_leases a ctx state info ls old n = (n', Inr (old', m)) \<Longrightarrow>
     (m \<longrightarrow> (\<exists>l \<in> set ls. fst (state l) \<and> leaseScopeMatchesForEviction a l info = Inr True)) \<and>
     (\<not> m \<longrightarrow> (\<forall>l \<in> set ls. fst (state l) \<longrightarrow> leaseScopeMatchesForEviction a l info = Inr False) \<and>
        set old' = set old \<union> {l \<in> set ls. state l = (False, True) \<and> leaseScopeMatchesForEviction a l info = Inr True})"
proof (induction ls arbitrary: old n)
  case (Cons l ls)
  from Cons.prems show ?case
    by (cases "state l") (auto split: option.splits sum.splits if_splits dest!: Cons.IH)
qed simp

definition entitled_cover :: "Authorizer \<Rightarrow> State \<Rightarrow> time \<Rightarrow> int \<Rightarrow> ProcInfo \<Rightarrow> bool" where
  "entitled_cover a st now gpu info \<longleftrightarrow>
     (\<exists>au \<in> set (Authorizations st). entitled_authorization st now gpu au \<and>
        authorizationScopeMatchesForEviction a au info = Inr True) \<or>
     (\<exists>l \<in> set (Leases st). entitled_lease st now gpu l \<and> leaseScopeMatchesForEviction a l info = Inr True)"

definition entitled_resolved :: "Authorizer \<Rightarrow> State \<Rightarrow> time \<Rightarrow> int \<Rightarrow> ProcInfo \<Rightarrow> bool" where
  "entitled_resolved a st now gpu info \<longleftrightarrow>
     (\<forall>au \<in> set (Authorizations st). entitled_authorization st now gpu au \<longrightarrow>
        authorizationScopeMatchesForEviction a au info = Inr False) \<and>
     (\<forall>l \<in> set (Leases st). entitled_lease st now gpu l \<longrightarrow> leaseScopeMatchesForEviction a l info = Inr False)"

lemma evict_scopes_Inr:
  assumes "evict_scopes a ctx st now gpu info n = (n', Inr (aus, ls, m))"
  shows "m \<longrightarrow> entitled_cover a st now gpu info"
    and "\<not> m \<longrightarrow> entitled_resolved a st now gpu info \<and>
      set aus = {au \<in> set (Authorizations st). stale_authorization a st now gpu info au} \<and>
      set ls = {l \<in> set (Leases st). stale_lease a st now gpu info l}"
proof -
  have "(m \<longrightarrow> entitled_cover a st now gpu info) \<and> (\<not> m \<longrightarrow> entitled_resolved a st now gpu info \<and>
      set aus = {au \<in> set (Authorizations st). stale_authorization a st now gpu info au} \<and>
      set ls = {l \<in> set (Leases st). stale_lease a st now gpu info l})"
    using assms
    by (auto simp: evict_scopes_def Let_def entitled_cover_def entitled_resolved_def entitled_authorization_def
        entitled_lease_def stale_authorization_def stale_lease_def
        split: prod.splits sum.splits bool.splits dest!: evict_authorizations_Inr evict_leases_Inr)
  then show "m \<longrightarrow> entitled_cover a st now gpu info"
    and "\<not> m \<longrightarrow> entitled_resolved a st now gpu info \<and>
      set aus = {au \<in> set (Authorizations st). stale_authorization a st now gpu info au} \<and>
      set ls = {l \<in> set (Leases st). stale_lease a st now gpu info l}"
    by blast+
qed

section \<open>One sampled process\<close>

text \<open>What the eviction of one sampled process may do to the state of the scan.\<close>

definition evict_target :: "Authorizer \<Rightarrow> State \<Rightarrow> time \<Rightarrow> processView \<Rightarrow> bool" where
  "evict_target a st now v \<longleftrightarrow> view_PID v > 0 \<and>
     (\<exists>read. az_Proc a = Some read \<and> read (view_PID v) = Inr (pv_Info v)) \<and>
     \<not> BypassMatch (Bypasses st) (pv_Info v) now (az_BootID a) \<and>
     entitled_resolved a st now (gp_GPU (pv_Process v)) (pv_Info v) \<and>
     ((\<exists>au \<in> set (Authorizations st). stale_authorization a st now (gp_GPU (pv_Process v)) (pv_Info v) au) \<or>
      (\<exists>l \<in> set (Leases st). stale_lease a st now (gp_GPU (pv_Process v)) (pv_Info v) l))"

lemma kill_planned:
  "planned (fst (kill a v reason leaseID authID holder tokenHash now p)) \<in>
     {planned p, planned p @ [\<lparr>pk_view = v, pk_reason = reason, pk_leaseID = leaseID, pk_authID = authID,
        pk_holder = holder, pk_tokenHash = tokenHash, pk_now = now\<rparr>]}"
  by (simp add: kill_def Let_def planned_def decide_def audit_def split: option.split prod.split)

definition certain :: "EvictState \<Rightarrow> bool" where
  "certain s \<longleftrightarrow> (\<exists>i. ea_Authorizations (es_assessment s) i = Some True \<or> ea_Leases (es_assessment s) i = Some True)"

definition evict_ext :: "EvictState \<Rightarrow> EvictState \<Rightarrow> bool" where
  "evict_ext s t \<longleftrightarrow>
     (\<forall>i. ea_Authorizations (es_assessment t) i = Some True \<longrightarrow> ea_Authorizations (es_assessment s) i = Some True) \<and>
     (\<forall>i. ea_Leases (es_assessment t) i = Some True \<longrightarrow> ea_Leases (es_assessment s) i = Some True) \<and>
     (certain t \<longrightarrow> es_errors t = es_errors s) \<and> set (es_killed s) \<subseteq> set (es_killed t)"

lemma evict_ext_refl [simp, intro]: "evict_ext s s"
  by (simp add: evict_ext_def)

lemma evict_ext_trans: "evict_ext s t \<Longrightarrow> evict_ext t u \<Longrightarrow> evict_ext s u"
  by (auto simp: evict_ext_def certain_def)

lemma evict_ext_pass [simp]:
  "evict_ext (s\<lparr>es_pass := p\<rparr>) t = evict_ext s t" "evict_ext s (t\<lparr>es_pass := p\<rparr>) = evict_ext s t"
  by (simp_all add: evict_ext_def certain_def)

lemma not_certain_uncertain [simp]: "\<not> certain (uncertain e s)"
  by (auto simp: certain_def uncertain_def markEvictionAssessmentUncertain_def)

lemma evict_ext_uncertain: "evict_ext s (uncertain e s)"
  using not_certain_uncertain [of e s] unfolding evict_ext_def certain_def by (simp add: uncertain_def)

lemma evict_kill_ext: "evict_ext s (evict_kill a st now g info aus ls s)"
proof -
  have *: "evict_ext s (t\<lparr>es_pass := p, es_killed := x # es_killed t\<rparr>)" if "t = s" for t p x
    using that by (auto simp: evict_ext_def certain_def)
  from evict_ext_trans [OF * [OF refl] evict_ext_uncertain] * [OF refl] show ?thesis
    by (auto simp: evict_kill_def Let_def split: prod.splits list.splits)
qed

lemma evict_kill_killed: "gp_PID g \<in> set (es_killed (evict_kill a st now g info aus ls s))"
  by (auto simp: evict_kill_def Let_def uncertain_def split: prod.splits list.splits)

lemma es_pass_settled:
  "es_pass (case errs of [] \<Rightarrow> s\<lparr>es_pass := p, es_killed := k\<rparr> |
     e # _ \<Rightarrow> uncertain e (s\<lparr>es_pass := p, es_killed := k\<rparr>)) = p"
  by (cases errs) (simp_all add: uncertain_def)

lemma evict_kill_pass:
  "\<exists>reason leaseID authID holder tokenHash. es_pass (evict_kill a st now g info aus ls s) =
     fst (kill a \<lparr>pv_Process = g, pv_Info = info, pv_Bypassed = False\<rparr> reason leaseID authID holder tokenHash
       now (es_pass s))"
  unfolding evict_kill_def Let_def split_beta es_pass_settled by blast

lemma evict_kill_planned:
  "planned (es_pass (evict_kill a st now g info aus ls s)) = planned (es_pass s) \<or>
     (\<exists>r. pv_Process (pk_view r) = g \<and> pv_Info (pk_view r) = info \<and>
       planned (es_pass (evict_kill a st now g info aus ls s)) = planned (es_pass s) @ [r])"
proof -
  let ?v = "\<lparr>pv_Process = g, pv_Info = info, pv_Bypassed = False\<rparr>"
  obtain reason leaseID authID holder tokenHash where
    "es_pass (evict_kill a st now g info aus ls s) =
       fst (kill a ?v reason leaseID authID holder tokenHash now (es_pass s))"
    using evict_kill_pass by blast
  with kill_planned [of a ?v reason leaseID authID holder tokenHash now "es_pass s"] show ?thesis
    by (auto intro!: exI)
qed

lemma evict_process_ext: "evict_ext s (evict_process a ctx st now g s)"
proof -
  have nq: "evict_ext s (s\<lparr>es_pass := p, es_assessment := not_quiescent aus ls (es_assessment s)\<rparr>)" for aus ls p
    by (auto simp: evict_ext_def certain_def not_quiescent_def)
  show ?thesis
    by (auto simp: evict_process_def Let_def nq split: option.split sum.split prod.split
        intro: evict_ext_uncertain evict_ext_trans [OF _ evict_ext_uncertain] evict_ext_trans [OF _ evict_kill_ext])
qed

lemma evict_process_planned:
  assumes "r \<in> set (planned (es_pass (evict_process a ctx st now g s)))"
  shows "r \<in> set (planned (es_pass s)) \<or> pv_Process (pk_view r) = g \<and> evict_target a st now (pk_view r)"
proof (cases "planned (es_pass (evict_process a ctx st now g s)) = planned (es_pass s)")
  case False
  have polls: "planned (p\<lparr>ps_polls := n\<rparr>) = planned p" for p n by (simp add: planned_def)
  have unc: "es_pass (uncertain e t) = es_pass t" for e t by (simp add: uncertain_def)
  from False obtain read info n aus ls where
    read: "gp_PID g > 0" "az_Proc a = Some read" "read (gp_PID g) = Inr info" and
    sc: "evict_scopes a ctx st now (gp_GPU g) info (ps_polls (es_pass s)) = (n, Inr (aus, ls, False))" and
    some: "aus \<noteq> [] \<or> ls \<noteq> []" and byp: "\<not> BypassMatch (Bypasses st) info now (az_BootID a)"
    by (auto simp: evict_process_def Let_def polls unc split: if_splits option.splits sum.splits prod.splits)
  let ?s = "s\<lparr>es_pass := (es_pass s)\<lparr>ps_polls := n\<rparr>, es_assessment := not_quiescent aus ls (es_assessment s)\<rparr>"
  have ev: "evict_process a ctx st now g s = evict_kill a st now g info aus ls ?s"
    using False read sc some byp by (auto simp: evict_process_def Let_def)
  from evict_scopes_Inr(2) [OF sc] have res: "entitled_resolved a st now (gp_GPU g) info"
    "set aus = {au \<in> set (Authorizations st). stale_authorization a st now (gp_GPU g) info au}"
    "set ls = {l \<in> set (Leases st). stale_lease a st now (gp_GPU g) info l}" by auto
  from some res(2,3) have st: "(\<exists>au \<in> set (Authorizations st). stale_authorization a st now (gp_GPU g) info au) \<or>
      (\<exists>l \<in> set (Leases st). stale_lease a st now (gp_GPU g) info l)"
    by (metis (mono_tags, lifting) empty_Collect_eq set_empty)
  from evict_kill_planned [of a st now g info aus ls ?s] assms ev
  have "r \<in> set (planned (es_pass s)) \<or> pv_Process (pk_view r) = g \<and> pv_Info (pk_view r) = info"
    by (auto simp: polls)
  with read byp res(1) st show ?thesis by (auto simp: evict_target_def)
qed (use assms in simp)

lemma evict_process_quiescent:
  assumes "gp_PID g > 0" "az_Proc a = Some read" "read (gp_PID g) = Inr info"
    and "certain (evict_process a ctx st now g s)"
  shows "gp_PID g \<in> set (es_killed (evict_process a ctx st now g s)) \<or> entitled_cover a st now (gp_GPU g) info \<or>
    (\<forall>au \<in> set (Authorizations st). stale_authorization a st now (gp_GPU g) info au \<longrightarrow>
       ea_Authorizations (es_assessment (evict_process a ctx st now g s)) (au_ID au) \<noteq> Some True) \<and>
    (\<forall>l \<in> set (Leases st). stale_lease a st now (gp_GPU g) info l \<longrightarrow>
       ea_Leases (es_assessment (evict_process a ctx st now g s)) (ls_ID l) \<noteq> Some True)"
proof (cases "gp_PID g \<in> set (es_killed s)")
  case True
  then show ?thesis by (simp add: evict_process_def)
next
  case False
  obtain n res where sc: "evict_scopes a ctx st now (gp_GPU g) info (ps_polls (es_pass s)) = (n, res)" by fastforce
  from assms(4) sc obtain aus ls m where res: "res = Inr (aus, ls, m)"
    using assms(1-3) False by (cases res) (auto simp: evict_process_def Let_def)
  note scopes = evict_scopes_Inr [OF sc [unfolded res]]
  let ?s = "s\<lparr>es_pass := (es_pass s)\<lparr>ps_polls := n\<rparr>, es_assessment := not_quiescent aus ls (es_assessment s)\<rparr>"
  consider "m" | "\<not> m" "aus = []" "ls = []" | "\<not> m" "aus \<noteq> [] \<or> ls \<noteq> []" by blast
  then show ?thesis
  proof cases
    case 3
    then have "evict_process a ctx st now g s = ?s \<or>
        evict_process a ctx st now g s = evict_kill a st now g info aus ls ?s"
      using assms False sc res by (auto simp: evict_process_def Let_def)
    moreover have "?thesis" if "evict_process a ctx st now g s = ?s"
      using that scopes 3 by (auto simp: not_quiescent_def)
    moreover have "?thesis" if "evict_process a ctx st now g s = evict_kill a st now g info aus ls ?s"
      using evict_kill_killed that by simp
    ultimately show ?thesis by blast
  qed (use scopes in auto)
qed

section \<open>The scan\<close>

lemma evict_loop_ext: "evict_ext s (evict_loop a ctx st now gs s)"
proof (induction gs arbitrary: s)
  case (Cons g gs)
  then show ?case
    by (auto simp: Let_def split: option.split intro: evict_ext_trans [OF _ Cons]
        evict_ext_trans [OF _ evict_ext_uncertain])
      (metis evict_ext_pass(1) evict_ext_trans evict_process_ext Cons)
qed simp

lemma evict_loop_planned:
  "r \<in> set (planned (es_pass (evict_loop a ctx st now gs s))) \<Longrightarrow>
     r \<in> set (planned (es_pass s)) \<or> pv_Process (pk_view r) \<in> set gs \<and> evict_target a st now (pk_view r)"
proof (induction gs arbitrary: s)
  case (Cons g gs)
  have polls: "planned (p\<lparr>ps_polls := n\<rparr>) = planned p" for p n by (simp add: planned_def)
  from Cons.prems show ?case
    by (auto simp: Let_def polls uncertain_def split: option.splits dest!: Cons.IH evict_process_planned)
qed simp

lemma evict_loop_quiescent:
  assumes "g \<in> set gs" "gp_PID g > 0" "az_Proc a = Some read" "read (gp_PID g) = Inr info"
    and "certain (evict_loop a ctx st now gs s)" and "t = evict_loop a ctx st now gs s"
  shows "gp_PID g \<in> set (es_killed t) \<or> entitled_cover a st now (gp_GPU g) info \<or>
    (\<forall>au \<in> set (Authorizations st). stale_authorization a st now (gp_GPU g) info au \<longrightarrow>
       ea_Authorizations (es_assessment t) (au_ID au) \<noteq> Some True) \<and>
    (\<forall>l \<in> set (Leases st). stale_lease a st now (gp_GPU g) info l \<longrightarrow>
       ea_Leases (es_assessment t) (ls_ID l) \<noteq> Some True)"
  using assms(1,5,6)
proof (induction gs arbitrary: s)
  case (Cons x xs)
  let ?n = "ps_polls (es_pass s)"
  let ?s = "s\<lparr>es_pass := (es_pass s)\<lparr>ps_polls := Suc ?n\<rparr>\<rparr>"
  have c: "ctx ?n = None" using Cons.prems(2) by (auto simp: Let_def split: option.splits)
  then have t: "t = evict_loop a ctx st now xs (evict_process a ctx st now x ?s)"
    using Cons.prems(3) by (simp add: Let_def)
  have ext: "evict_ext (evict_process a ctx st now x ?s) t" unfolding t by (rule evict_loop_ext)
  show ?case
  proof (cases "g \<in> set xs")
    case True
    with Cons.IH [OF True _ t] Cons.prems(2) c show ?thesis by (simp add: Let_def t)
  next
    case False
    with Cons.prems(1) have g: "x = g" by simp
    have "certain (evict_process a ctx st now g ?s)"
      using ext Cons.prems(2,3) g unfolding evict_ext_def certain_def by blast
    from evict_process_quiescent [OF assms(2-4) this] ext g show ?thesis
      unfolding evict_ext_def by blast
  qed
qed simp

section \<open>The shortcut\<close>

lemma nothing_stale:
  assumes "\<not> staleEvictionPossible st tokens valid stale now"
  shows "au \<in> set (Authorizations st) \<Longrightarrow> \<not> snd (authorizationEvictionState au gpu tokens valid stale now)"
    and "l \<in> set (Leases st) \<Longrightarrow> \<not> snd (leaseEvictionState l gpu tokens now)"
  using assms
  by (force simp: staleEvictionPossible_def list_ex_iff authorizationEvictionState_def Let_def split: if_splits)
    (use assms in \<open>auto simp: staleEvictionPossible_def list_ex_iff leaseEvictionState_def Let_def split: if_splits\<close>)

definition idle :: "EvictState \<Rightarrow> EvictState \<Rightarrow> bool" where
  "idle s t \<longleftrightarrow> ps_decisions (es_pass t) = ps_decisions (es_pass s) \<and> ps_pending (es_pass t) = ps_pending (es_pass s) \<and>
     ps_terms (es_pass t) = ps_terms (es_pass s) \<and> ps_audits (es_pass t) = ps_audits (es_pass s) \<and>
     es_killed t = es_killed s \<and> (\<exists>es. es_errors t = es_errors s @ es \<and> (es = [] \<longrightarrow> es_assessment t = es_assessment s))"

lemma idle_trans: "idle s t \<Longrightarrow> idle t u \<Longrightarrow> idle s u"
  by (auto simp: idle_def)

lemma idle_polls: "idle s (s\<lparr>es_pass := (es_pass s)\<lparr>ps_polls := n\<rparr>\<rparr>)"
  by (simp add: idle_def)

lemma idle_uncertain: "idle s (uncertain e s)"
  by (simp add: idle_def uncertain_def)

lemma evict_process_idle:
  assumes "\<not> staleEvictionPossible st (tokens_by_hash (Tokens st)) (validReservations st now) (staleReservations st now) now"
  shows "idle s (evict_process a ctx st now g s)"
proof -
  have none: "m \<or> aus = [] \<and> ls = []" if "evict_scopes a ctx st now gpu info n = (n', Inr (aus, ls, m))"
    for gpu info n n' aus ls m
  proof (cases m)
    case False
    with evict_scopes_Inr(2) [OF that] have rows:
      "set aus = {au \<in> set (Authorizations st). stale_authorization a st now gpu info au}"
      "set ls = {l \<in> set (Leases st). stale_lease a st now gpu info l}" by simp_all
    have "\<not> stale_authorization a st now gpu info au" if "au \<in> set (Authorizations st)" for au
      using nothing_stale(1) [OF assms that, of gpu] by (auto simp: stale_authorization_def)
    moreover have "\<not> stale_lease a st now gpu info l" if "l \<in> set (Leases st)" for l
      using nothing_stale(2) [OF assms that, of gpu] by (auto simp: stale_lease_def)
    ultimately have "set aus = {}" "set ls = {}" unfolding rows by simp_all
    then show ?thesis by simp
  qed simp
  have polled: "idle s (uncertain e (s\<lparr>es_pass := (es_pass s)\<lparr>ps_polls := n\<rparr>\<rparr>))" for e n
    by (rule idle_trans [OF idle_polls idle_uncertain])
  have refl: "idle s s" by (simp add: idle_def)
  show ?thesis
  proof (cases "gp_PID g \<le> 0 \<or> gp_PID g \<in> set (es_killed s) \<or> az_Proc a = None")
    case False
    then obtain read where r: "\<not> (gp_PID g \<le> 0 \<or> gp_PID g \<in> set (es_killed s))" "az_Proc a = Some read" by auto
    show ?thesis
    proof (cases "read (gp_PID g)")
      case (Inl e)
      with r refl show ?thesis by (simp add: evict_process_def idle_uncertain)
    next
      case (Inr info)
      obtain n res where sc: "evict_scopes a ctx st now (gp_GPU g) info (ps_polls (es_pass s)) = (n, res)" by fastforce
      show ?thesis
      proof (cases res)
        case (Inl e)
        with r Inr sc show ?thesis by (simp add: evict_process_def Let_def polled)
      next
        case res: (Inr q)
        obtain aus ls m where q: "q = (aus, ls, m)" by (cases q)
        from none [OF sc [unfolded res q]] r Inr sc res q show ?thesis
          by (simp add: evict_process_def Let_def idle_polls)
      qed
    qed
  qed (auto simp: evict_process_def refl)
qed

lemma evict_loop_idle:
  assumes "\<not> staleEvictionPossible st (tokens_by_hash (Tokens st)) (validReservations st now) (staleReservations st now) now"
  shows "idle s (evict_loop a ctx st now gs s)"
proof (induction gs arbitrary: s)
  case (Cons g gs)
  show ?case
  proof (cases "ctx (ps_polls (es_pass s))")
    case None
    then show ?thesis
      by (simp add: Let_def) (rule idle_trans [OF idle_trans [OF idle_polls evict_process_idle [OF assms]] Cons])
  next
    case (Some e)
    then show ?thesis by (simp add: Let_def) (rule idle_trans [OF idle_polls idle_uncertain])
  qed
qed (simp add: idle_def)

section \<open>The guarantees\<close>

definition example_outlived_state :: State where
  "example_outlived_state = example_guarded_state\<lparr>Reservations := [example_reservation\<lparr>rs_ExpiresAt := 200\<rparr>],
     Authorizations := [example_other_authorization\<lparr>au_UID := pi_UID example_info\<rparr>]\<rparr>"

abbreviation evict_plan :: "Authorizer \<Rightarrow> ctx \<Rightarrow> State \<Rightarrow> GPUProcess list \<Rightarrow> termination_entry list \<Rightarrow> EvictState" where
  "evict_plan a ctx st processes ts \<equiv> evictExpiredReservedProcesses a ctx st processes (start_pass a ts)"

text \<open>
  When a scope has outlived its entitlement, said of the rows of the store alone. A key with the hash
  \<open>h\<close> is in force when there is one and none with that hash is revoked, expired or, if the gateway
  manages it, of another version. A reservation is over when it was released or revoked or its
  window has passed.
\<close>

definition key_in_force :: "State \<Rightarrow> time \<Rightarrow> string \<Rightarrow> (Token \<Rightarrow> bool) \<Rightarrow> bool" where
  "key_in_force st now h ok \<longleftrightarrow> (\<exists>t \<in> set (Tokens st). tk_Hash t = h) \<and>
     (\<forall>t \<in> set (Tokens st). tk_Hash t = h \<longrightarrow>
        \<not> tk_Revoked t \<and> (tk_ExpiresAt t = 0 \<or> now < tk_ExpiresAt t) \<and> ok t)"

definition scope_open :: "State \<Rightarrow> time \<Rightarrow> Authorization \<Rightarrow> bool" where
  "scope_open st now au \<longleftrightarrow> au_Active au \<and> \<not> au_Revoked au \<and> (au_ExpiresAt au = 0 \<or> now < au_ExpiresAt au) \<and>
     key_in_force st now (au_TokenHash au) (\<lambda>t. tk_Managed t \<longrightarrow> au_TokenVersion au = tk_Version t)"

definition holds_gpu :: "State \<Rightarrow> time \<Rightarrow> int \<Rightarrow> string \<Rightarrow> bool" where
  "holds_gpu st now gpu h \<longleftrightarrow>
     (\<exists>r \<in> set (Reservations st). rs_GPU r = gpu \<and> rs_TokenHash r = h \<and> ReservationActiveAt r now)"

definition outlived_authorization :: "State \<Rightarrow> time \<Rightarrow> int \<Rightarrow> Authorization \<Rightarrow> bool" where
  "outlived_authorization st now gpu au \<longleftrightarrow> \<not> scope_open st now au \<or>
     (\<exists>r \<in> set (Reservations st). rs_GPU r = gpu \<and> rs_TokenHash r = au_TokenHash au \<and>
        (\<not> rs_Active r \<or> rs_Revoked r \<or> rs_ExpiresAt r \<le> now)) \<and> \<not> holds_gpu st now gpu (au_TokenHash au)"

definition authorized_now :: "State \<Rightarrow> time \<Rightarrow> int \<Rightarrow> Authorization \<Rightarrow> bool" where
  "authorized_now st now gpu au \<longleftrightarrow> au_TokenHash au \<noteq> [] \<and> scope_open st now au \<and>
     (\<forall>t \<in> set (Tokens st). tk_Hash t = au_TokenHash au \<longrightarrow>
        NormalizeTokenMode (tk_Mode t) \<in> {TokenModeClaimed, TokenModeManaged} \<or>
        NormalizeTokenMode (tk_Mode t) = TokenModeReserved \<and> holds_gpu st now gpu (au_TokenHash au))"

definition lease_in_force :: "State \<Rightarrow> time \<Rightarrow> Lease \<Rightarrow> bool" where
  "lease_in_force st now l \<longleftrightarrow> ls_Active l \<and> now < ls_ExpiresAt l \<and>
     (ls_TokenHash l = [] \<or> key_in_force st now (ls_TokenHash l) (\<lambda>_. True))"

lemma tokens_by_hash_Some: "tokens_by_hash ts h = Some t \<Longrightarrow> t \<in> set ts \<and> tk_Hash t = h"
  by (auto simp: tokens_by_hash_def dest: find_SomeD)

lemma tokens_by_hash_None: "tokens_by_hash ts h = None \<longleftrightarrow> (\<forall>t \<in> set ts. tk_Hash t \<noteq> h)"
  by (auto simp: tokens_by_hash_def find_None_iff)

lemma key_in_force_lookup:
  "key_in_force st now h ok \<Longrightarrow> \<exists>t. tokens_by_hash (Tokens st) h = Some t \<and> t \<in> set (Tokens st) \<and> tk_Hash t = h \<and>
     \<not> tk_Revoked t \<and> (tk_ExpiresAt t = 0 \<or> now < tk_ExpiresAt t) \<and> ok t"
  by (cases "tokens_by_hash (Tokens st) h") (auto simp: key_in_force_def tokens_by_hash_None dest: tokens_by_hash_Some)

lemma scope_open_valid:
  "scope_open st now au \<Longrightarrow> authorizationGloballyValid au (tokens_by_hash (Tokens st)) now"
  by (auto simp: scope_open_def authorizationGloballyValid_def authorizationExpired_def timeIsSet_def time_IsZero_def
      dest!: key_in_force_lookup)

lemma held_reservation_valid:
  assumes "holds_gpu st now gpu h" "h \<noteq> []" "tokens_by_hash (Tokens st) h = Some t"
    and "\<not> tk_Revoked t" "tk_ExpiresAt t = 0 \<or> now < tk_ExpiresAt t"
    and "NormalizeTokenMode (tk_Mode t) = TokenModeReserved"
  shows "(gpu, h) \<in> set (validReservations st now)"
  using assms
  by (auto simp: holds_gpu_def validReservations_def reservation_key_def reservation_token_valid_def timeIsSet_def
      time_IsZero_def image_iff)

lemma authorized_now_entitled:
  assumes "authorized_now st now gpu au"
  shows "entitled_authorization st now gpu au"
proof -
  let ?h = "au_TokenHash au"
  from assms have o: "scope_open st now au" and h: "?h \<noteq> []" by (simp_all add: authorized_now_def)
  from o key_in_force_lookup [of st now ?h] obtain t where
    t: "tokens_by_hash (Tokens st) ?h = Some t" "t \<in> set (Tokens st)" "tk_Hash t = ?h" "\<not> tk_Revoked t"
      "tk_ExpiresAt t = 0 \<or> now < tk_ExpiresAt t" unfolding scope_open_def by blast
  from assms t(2,3) consider (plain) "NormalizeTokenMode (tk_Mode t) \<in> {TokenModeClaimed, TokenModeManaged}"
    | (held) "NormalizeTokenMode (tk_Mode t) = TokenModeReserved" "holds_gpu st now gpu ?h"
    unfolding authorized_now_def by blast
  then show ?thesis
  proof cases
    case plain
    with t(1) scope_open_valid [OF o] show ?thesis
      by (auto simp: entitled_authorization_def authorizationEvictionState_def authorizationEvictionMode_def Let_def)
  next
    case held
    with t(1) scope_open_valid [OF o] held_reservation_valid [OF held(2) h t(1,4,5) held(1)] show ?thesis
      by (simp add: entitled_authorization_def authorizationEvictionState_def authorizationEvictionMode_def Let_def)
  qed
qed

lemma stale_outlived:
  assumes "stale_authorization a st now gpu info au"
  shows "outlived_authorization st now gpu au"
proof (rule ccontr)
  let ?h = "au_TokenHash au"
  assume n: "\<not> outlived_authorization st now gpu au"
  then have o: "scope_open st now au" by (simp add: outlived_authorization_def)
  from o key_in_force_lookup [of st now ?h] obtain t where
    t: "tokens_by_hash (Tokens st) ?h = Some t" "\<not> tk_Revoked t" "tk_ExpiresAt t = 0 \<or> now < tk_ExpiresAt t"
    unfolding scope_open_def by blast
  from assms scope_open_valid [OF o] t(1) have m: "NormalizeTokenMode (tk_Mode t) = TokenModeReserved"
    and k: "(gpu, ?h) \<notin> set (validReservations st now)" "(gpu, ?h) \<in> set (staleReservations st now)"
    by (auto simp: stale_authorization_def authorizationEvictionState_def authorizationEvictionMode_def Let_def
        split: if_splits)
  from k(2) obtain r where r: "r \<in> set (Reservations st)" "rs_GPU r = gpu" "rs_TokenHash r = ?h" "?h \<noteq> []"
    "\<not> reservation_token_valid st now r \<or> \<not> rs_Active r \<or> rs_Revoked r \<or> \<not> now < rs_ExpiresAt r"
    by (auto simp: staleReservations_def reservation_key_def)
  from r(3) t m have "reservation_token_valid st now r"
    by (auto simp: reservation_token_valid_def timeIsSet_def time_IsZero_def)
  with r n have "holds_gpu st now gpu ?h" by (auto simp: outlived_authorization_def not_less)
  with held_reservation_valid [OF _ r(4) t m] k(1) show False by blast
qed

lemma lease_in_force_entitled:
  "lease_in_force st now l \<Longrightarrow> leaseEntitledOnGPU l (ls_GPU l) (tokens_by_hash (Tokens st)) now"
  by (auto simp: lease_in_force_def leaseEntitledOnGPU_def timeIsSet_def time_IsZero_def dest!: key_in_force_lookup)

lemma stale_lease_over: "stale_lease a st now gpu info l \<Longrightarrow> ls_GPU l = gpu \<and> \<not> lease_in_force st now l"
  using lease_in_force_entitled [of st now l]
  by (auto simp: stale_lease_def leaseEvictionState_def Let_def split: if_splits)

text \<open>
  C28: eviction hits only those who have outlived their entitlement. A process whose eviction is
  planned was sampled, was identified by the process reader and is covered by no bypass rule. It
  is in the scope of an authorization that is over on this GPU (released, revoked or expired itself, its
  key gone, revoked, expired or replaced, or the reservation of the GPU over and no other one held), or
  of a legacy lease of the GPU that is over; and the scope of every authorization and every lease that is
  still in force there was resolved and does not cover it.
\<close>

theorem evictions_justified:
  assumes "r \<in> set (planned (es_pass (evict_plan a ctx st processes ts)))"
  defines "gpu \<equiv> gp_GPU (pv_Process (pk_view r))" and "info \<equiv> pv_Info (pk_view r)" and "now \<equiv> az_Now a"
  shows "pv_Process (pk_view r) \<in> set processes \<and> view_PID (pk_view r) > 0 \<and>
    (\<exists>read. az_Proc a = Some read \<and> read (view_PID (pk_view r)) = Inr info) \<and>
    \<not> BypassMatch (Bypasses st) info now (az_BootID a) \<and>
    ((\<exists>au \<in> set (Authorizations st). outlived_authorization st now gpu au \<and>
        authorizationScopeMatchesForEviction a au info = Inr True) \<or>
     (\<exists>l \<in> set (Leases st). ls_GPU l = gpu \<and> \<not> lease_in_force st now l \<and> leaseScopeMatchesForEviction a l info = Inr True)) \<and>
    (\<forall>au \<in> set (Authorizations st). authorized_now st now gpu au \<longrightarrow>
       authorizationScopeMatchesForEviction a au info = Inr False) \<and>
    (\<forall>l \<in> set (Leases st). ls_GPU l = gpu \<and> lease_in_force st now l \<longrightarrow> leaseScopeMatchesForEviction a l info = Inr False)"
proof -
  have "planned (start_pass a ts) = []" by (simp add: planned_def start_pass_def)
  with assms(1) have t: "pv_Process (pk_view r) \<in> set processes" "evict_target a st now (pk_view r)"
    by (auto simp: evictExpiredReservedProcesses_def Let_def now_def split: if_splits dest!: evict_loop_planned)
  from t(2) have res: "entitled_resolved a st now gpu info" by (simp add: evict_target_def gpu_def info_def)
  have au: "authorizationScopeMatchesForEviction a au info = Inr False"
    if "au \<in> set (Authorizations st)" "authorized_now st now gpu au" for au
    using res that authorized_now_entitled by (auto simp: entitled_resolved_def)
  have l: "leaseScopeMatchesForEviction a l info = Inr False"
    if "l \<in> set (Leases st)" "ls_GPU l = gpu" "lease_in_force st now l" for l
    using res that lease_in_force_entitled [of st now l]
    by (auto simp: entitled_resolved_def entitled_lease_def leaseEvictionState_def Let_def)
  have "(\<exists>au \<in> set (Authorizations st). outlived_authorization st now gpu au \<and>
        authorizationScopeMatchesForEviction a au info = Inr True) \<or>
     (\<exists>l \<in> set (Leases st). ls_GPU l = gpu \<and> \<not> lease_in_force st now l \<and> leaseScopeMatchesForEviction a l info = Inr True)"
    using t(2) stale_outlived stale_lease_over unfolding evict_target_def gpu_def info_def stale_authorization_def stale_lease_def
    by blast
  with t au l show ?thesis by (auto simp: evict_target_def info_def)
qed

theorem evictions_justified_witness:
  "\<exists>r. r \<in> set (planned (es_pass (evict_plan example_authorizer (\<lambda>_. None) example_outlived_state [example_gpu_process] []))) \<and>
     (\<exists>au \<in> set (Authorizations example_outlived_state).
        outlived_authorization example_outlived_state (az_Now example_authorizer) (gp_GPU (pv_Process (pk_view r))) au)"
proof -
  let ?l = "planned (es_pass (evict_plan example_authorizer (\<lambda>_. None) example_outlived_state [example_gpu_process] []))"
  have "?l \<noteq> []" by code_simp
  then have r: "hd ?l \<in> set ?l" by simp
  have "Leases example_outlived_state = []" by code_simp
  with evictions_justified [OF r] r show ?thesis by auto
qed

text \<open>
  a stale scope is forgotten only when it is safe. If an eviction pass assesses an authorization
  as quiescent, the pass met no error at all, and every sampled process that could be read and that
  the authorization covers on a GPU where it is stale is a target of this very pass or is entitled
  to the GPU by another scope.
\<close>

theorem quiescent_scope_unused:
  assumes "s = EvictExpiredReservedProcesses a ctx cancel st processes ts"
    and "ea_Authorizations (es_assessment s) (au_ID au) = Some True" "au \<in> set (Authorizations st)"
  shows "es_errors s = [] \<and>
    (\<forall>g \<in> set processes. \<forall>read info. gp_PID g > 0 \<and> az_Proc a = Some read \<and> read (gp_PID g) = Inr info \<and>
       stale_authorization a st (az_Now a) (gp_GPU g) info au \<longrightarrow>
       gp_PID g \<in> set (es_killed s) \<or> entitled_cover a st (az_Now a) (gp_GPU g) info)"
proof -
  let ?now = "az_Now a" and ?tokens = "tokens_by_hash (Tokens st)"
  let ?e = "evict_plan a ctx st processes ts"
  obtain p errs where x: "executePendingKills a cancel (planned (es_pass ?e)) (es_pass ?e) = (p, errs)" by fastforce
  have errs: "errs = []" using assms(1,2) x
    by (auto simp: EvictExpiredReservedProcesses_def Let_def markEvictionAssessmentUncertain_def split: if_splits)
  with assms(1) x have s: "s = ?e\<lparr>es_pass := p\<rparr>" by (simp add: EvictExpiredReservedProcesses_def Let_def)
  have cert: "certain ?e" using assms(2) s by (auto simp: certain_def)
  let ?s0 = "\<lparr>es_pass = start_pass a ts, es_assessment = initial_assessment st ?tokens (validReservations st ?now)
      (staleReservations st ?now) ?now, es_killed = [], es_errors = []\<rparr>"
  have proc: "az_Proc a \<noteq> None"
    using assms(2) s by (auto simp: evictExpiredReservedProcesses_def Let_def split: if_splits)
  show ?thesis
  proof (cases "staleEvictionPossible st ?tokens (validReservations st ?now) (staleReservations st ?now) ?now")
    case True
    then have e: "?e = evict_loop a ctx st ?now processes ?s0"
      using proc by (auto simp: evictExpiredReservedProcesses_def Let_def)
    from evict_loop_ext [of ?s0 a ctx st ?now processes] cert e have "es_errors s = []"
      by (simp add: evict_ext_def s)
    moreover have "gp_PID g \<in> set (es_killed s) \<or> entitled_cover a st ?now (gp_GPU g) info"
      if "g \<in> set processes" "gp_PID g > 0" "az_Proc a = Some read" "read (gp_PID g) = Inr info"
        "stale_authorization a st ?now (gp_GPU g) info au" for g read info
      using evict_loop_quiescent [OF that(1-4) cert [unfolded e] refl] that(5) assms(2,3) s e by auto
    ultimately show ?thesis by blast
  next
    case False
    then have "\<not> stale_authorization a st ?now gpu info au" for gpu info
      using nothing_stale(1) [OF False assms(3)] by (simp add: stale_authorization_def) (metis snd_conv)
    moreover have "es_errors ?e = []" using False proc by (auto simp: evictExpiredReservedProcesses_def Let_def)
    ultimately show ?thesis by (simp add: s)
  qed
qed

definition example_idle_sample :: GPUProcess where
  "example_idle_sample = example_gpu_process\<lparr>gp_PID := 7\<rparr>"

theorem quiescent_scope_unused_witness:
  "es_errors (EvictExpiredReservedProcesses example_authorizer (\<lambda>_. None) (\<lambda>_. None)
     (example_outlived_state\<lparr>Authorizations := [example_other_authorization\<lparr>au_Revoked := True\<rparr>]\<rparr>) [example_idle_sample] []) = []"
proof -
  let ?au = "example_other_authorization\<lparr>au_Revoked := True\<rparr>"
  let ?st = "example_outlived_state\<lparr>Authorizations := [?au]\<rparr>"
  have "ea_Authorizations (es_assessment (EvictExpiredReservedProcesses example_authorizer (\<lambda>_. None) (\<lambda>_. None)
      ?st [example_idle_sample] [])) (au_ID ?au) = Some True" by code_simp
  from quiescent_scope_unused [OF refl this] show ?thesis by simp
qed

text \<open>
  skipping the scan loses nothing. When the shortcut finds that no scope can be stale, the full
  scan, from any state and over any sample, would decide nothing, plan, perform and record no kill
  and write no audit event, and it would leave the assessment as it is unless it met an error.
\<close>

theorem shortcut_lossless:
  assumes "\<not> staleEvictionPossible st (tokens_by_hash (Tokens st)) (validReservations st now) (staleReservations st now) now"
    and "t = evict_loop a ctx st now processes s"
  shows "ps_decisions (es_pass t) = ps_decisions (es_pass s) \<and> ps_pending (es_pass t) = ps_pending (es_pass s) \<and>
    ps_terms (es_pass t) = ps_terms (es_pass s) \<and> ps_audits (es_pass t) = ps_audits (es_pass s) \<and>
    es_killed t = es_killed s \<and> (es_errors t = es_errors s \<longrightarrow> es_assessment t = es_assessment s)"
proof -
  have "idle s t" unfolding assms(2) by (rule evict_loop_idle [OF assms(1)])
  then show ?thesis by (auto simp: idle_def)
qed

theorem shortcut_lossless_witness:
  "ps_decisions (es_pass (evict_loop example_authorizer (\<lambda>_. None) example_guarded_state (az_Now example_authorizer)
     [example_gpu_process] (evict_plan example_authorizer (\<lambda>_. None) example_guarded_state [] []))) = []"
proof -
  let ?st = example_guarded_state and ?now = "az_Now example_authorizer"
  have "\<not> staleEvictionPossible ?st (tokens_by_hash (Tokens ?st)) (validReservations ?st ?now) (staleReservations ?st ?now) ?now"
    by code_simp
  moreover have "ps_decisions (es_pass (evict_plan example_authorizer (\<lambda>_. None) ?st [] [])) = []" by code_simp
  ultimately show ?thesis using shortcut_lossless [OF _ refl, of ?st ?now] by metis
qed

end
