(* ===== verification/Admission.thy ===== *)
theory Admission
  imports Prelude "HOL-Library.Multiset"
begin

text \<open>
  Admission control: the listener of \<open>internal/netlimit/listener.go\<close> that bounds accepted
  connections, and the connection table of the daemon (\<open>acquireConnection\<close>, \<open>releaseConnection\<close> of
  \<open>internal/daemon/server.go\<close>), which bounds connections in total, per user and for all users
  but root. Both are pools of slots; the locale \<open>bounded_pool\<close> is what they have in common.

  The goroutines that accept and close connections interleave freely, so the listener is a
  transition relation. A step of the listener is one channel operation or one \<open>sync.Once\<close> body.
\<close>

section \<open>Pools\<close>

locale bounded_pool =
  fixes step :: "'s \<Rightarrow> 's \<Rightarrow> bool" and start :: "'s \<Rightarrow> bool" and ok :: "'s \<Rightarrow> bool"
    and held :: "'s \<Rightarrow> nat" and limit :: "'s \<Rightarrow> nat"
  assumes start_ok: "start s \<Longrightarrow> ok s"
    and step_ok: "step s t \<Longrightarrow> ok s \<Longrightarrow> ok t"
    and step_limit: "step s t \<Longrightarrow> limit t = limit s"
    and ok_held: "ok s \<Longrightarrow> held s \<le> limit s"
begin

lemma reach_ok: "step\<^sup>*\<^sup>* s t \<Longrightarrow> start s \<Longrightarrow> ok t"
  by (induction rule: rtranclp_induct) (auto intro: start_ok step_ok)

lemma reach_limit: "step\<^sup>*\<^sup>* s t \<Longrightarrow> limit t = limit s"
  by (induction rule: rtranclp_induct) (simp_all add: step_limit)

lemma reach_held: "step\<^sup>*\<^sup>* s t \<Longrightarrow> start s \<Longrightarrow> held t \<le> limit s"
  using ok_held [OF reach_ok] reach_limit by metis

end

section \<open>The listener\<close>

text \<open>
  \<open>ll_slots\<close> is the number of elements in the channel, \<open>ll_waiting\<close> the number of calls of \<open>Accept\<close>
  that hold a slot and are inside the underlying \<open>Accept\<close>. A connection is its position in
  \<open>ll_conns\<close>, which holds whether its \<open>closeOnce\<close> has run; its underlying \<open>Close\<close> result is not
  kept.
\<close>

record limitedListener =
  ll_maximum :: nat
  ll_slots :: nat
  ll_waiting :: nat
  ll_done :: bool
  ll_conns :: "bool list"

definition NewListener :: "int \<Rightarrow> limitedListener option" where
  "NewListener maximum = (if maximum \<le> 0 then None
     else Some \<lparr>ll_maximum = nat maximum, ll_slots = 0, ll_waiting = 0, ll_done = False, ll_conns = []\<rparr>)"

datatype listener_op = Enter | Leave_closed | Accepted | Accept_failed | Close_conn nat | Close_listener

text \<open>
  One step; \<open>None\<close> when the goroutine blocks. \<open>Enter\<close> and \<open>Leave_closed\<close> are the two cases of the
  first \<open>select\<close>: when both channels are ready Go chooses freely.
\<close>

definition receive_slot :: "limitedListener \<Rightarrow> limitedListener option" where
  "receive_slot l = (if ll_slots l = 0 then None else Some (l\<lparr>ll_slots := ll_slots l - 1\<rparr>))"

fun listener_run :: "listener_op \<Rightarrow> limitedListener \<Rightarrow> limitedListener option" where
  "listener_run Enter l = (if ll_slots l < ll_maximum l
     then Some (l\<lparr>ll_slots := Suc (ll_slots l), ll_waiting := Suc (ll_waiting l)\<rparr>) else None)"
| "listener_run Leave_closed l = (if ll_done l then Some l else None)"
| "listener_run Accepted l = (if ll_waiting l = 0 then None
     else Some (l\<lparr>ll_waiting := ll_waiting l - 1, ll_conns := ll_conns l @ [False]\<rparr>))"
| "listener_run Accept_failed l = (if ll_waiting l = 0 then None
     else receive_slot (l\<lparr>ll_waiting := ll_waiting l - 1\<rparr>))"
| "listener_run (Close_conn i) l = (if i \<ge> length (ll_conns l) then None
     else if ll_conns l ! i then Some l
     else receive_slot (l\<lparr>ll_conns := (ll_conns l)[i := True]\<rparr>))"
| "listener_run Close_listener l = Some (l\<lparr>ll_done := True\<rparr>)"

definition open_conns :: "limitedListener \<Rightarrow> nat" where
  "open_conns l = length (filter Not (ll_conns l))"

definition listener_ok :: "limitedListener \<Rightarrow> bool" where
  "listener_ok l \<longleftrightarrow> ll_slots l = ll_waiting l + open_conns l \<and> ll_slots l \<le> ll_maximum l"

definition listener_step :: "limitedListener \<Rightarrow> limitedListener \<Rightarrow> bool" where
  "listener_step l m \<longleftrightarrow> (\<exists>op. listener_run op l = Some m)"

lemma open_conns_close:
  assumes "i < length cs" "\<not> cs ! i"
  shows "length (filter Not cs) = Suc (length (filter Not (cs[i := True])))"
proof -
  have cs: "cs = take i cs @ cs ! i # drop (Suc i) cs" by (rule id_take_nth_drop [OF assms(1)])
  have "length (filter Not cs) = length (filter Not (take i cs)) + Suc (length (filter Not (drop (Suc i) cs)))"
    by (subst cs) (simp add: assms(2))
  moreover have "cs[i := True] = take i cs @ True # drop (Suc i) cs"
    by (rule upd_conv_take_nth_drop [OF assms(1)])
  ultimately show ?thesis by simp
qed

lemma listener_run_ok:
  assumes "listener_run op l = Some m" "listener_ok l"
  shows "listener_ok m \<and> ll_maximum m = ll_maximum l"
proof (cases op)
  case (Close_conn i)
  with assms open_conns_close [of i "ll_conns l"] show ?thesis
    by (auto simp: listener_ok_def open_conns_def receive_slot_def split: if_splits)
qed (use assms in \<open>auto simp: listener_ok_def open_conns_def receive_slot_def split: if_splits\<close>)

interpretation net: bounded_pool listener_step "\<lambda>l. \<exists>n. NewListener n = Some l" listener_ok open_conns ll_maximum
proof
  show "listener_ok l" if "\<exists>n. NewListener n = Some l" for l
    using that by (auto simp: NewListener_def listener_ok_def open_conns_def split: if_splits)
  show "listener_ok m" if "listener_step l m" "listener_ok l" for l m
    using that listener_run_ok by (auto simp: listener_step_def)
  show "ll_maximum m = ll_maximum l" if "listener_step l m" for l m
  proof -
    from that obtain op where "listener_run op l = Some m" by (auto simp: listener_step_def)
    then show ?thesis by (cases op) (auto simp: receive_slot_def split: if_splits)
  qed
qed (simp add: listener_ok_def)

lemma release_never_blocks:
  assumes "listener_ok l"
  shows "ll_waiting l > 0 \<Longrightarrow> listener_run Accept_failed l \<noteq> None"
    and "i < length (ll_conns l) \<Longrightarrow> listener_run (Close_conn i) l \<noteq> None"
  using assms open_conns_close [of i "ll_conns l"]
  by (auto simp: listener_ok_def receive_slot_def open_conns_def)

text \<open>
  the listener bounds the connections. Whatever the interleaving of accepting, failing and
  closing, a listener for at most \<open>n\<close> never has more than \<open>n\<close> open connections; giving a slot back
  never blocks; closing a connection again gives back nothing; and when a connection is closed a
  waiting caller of \<open>Accept\<close> can go on.
\<close>

theorem listener_bounded:
  assumes "NewListener n = Some l" "listener_step\<^sup>*\<^sup>* l m"
  shows "int (open_conns m) \<le> n \<and>
    (i < length (ll_conns m) \<and> \<not> ll_conns m ! i \<longrightarrow> (\<exists>m'. listener_run (Close_conn i) m = Some m' \<and>
       listener_run (Close_conn i) m' = Some m' \<and> listener_run Enter m' \<noteq> None)) \<and>
    (ll_waiting m > 0 \<longrightarrow> listener_run Accept_failed m \<noteq> None)"
proof -
  have ok: "listener_ok m" using net.reach_ok [OF assms(2)] assms(1) by blast
  have "open_conns m \<le> ll_maximum l" using net.reach_held [OF assms(2)] assms(1) by blast
  then have "int (open_conns m) \<le> n" using assms(1) by (auto simp: NewListener_def split: if_splits)
  moreover have "\<exists>m'. listener_run (Close_conn i) m = Some m' \<and> listener_run (Close_conn i) m' = Some m' \<and>
      listener_run Enter m' \<noteq> None" if "i < length (ll_conns m)" "\<not> ll_conns m ! i"
  proof -
    have "ll_slots m > 0" "ll_slots m \<le> ll_maximum m"
      using ok open_conns_close [OF that] by (auto simp: listener_ok_def open_conns_def)
    with that show ?thesis by (auto simp: receive_slot_def)
  qed
  moreover have "ll_waiting m > 0 \<longrightarrow> listener_run Accept_failed m \<noteq> None"
    using release_never_blocks(1) [OF ok] by blast
  ultimately show ?thesis by blast
qed

definition example_listener :: limitedListener where
  "example_listener = \<lparr>ll_maximum = 1, ll_slots = 1, ll_waiting = 0, ll_done = False, ll_conns = [False]\<rparr>"

theorem listener_bounded_witness:
  "int (open_conns example_listener) \<le> 1 \<and> listener_run Enter example_listener = None"
proof -
  let ?l = "\<lparr>ll_maximum = 1, ll_slots = 0, ll_waiting = 0, ll_done = False, ll_conns = []\<rparr>"
  let ?m = "\<lparr>ll_maximum = 1, ll_slots = 1, ll_waiting = 1, ll_done = False, ll_conns = []\<rparr>"
  have "listener_run Enter ?l = Some ?m" "listener_run Accepted ?m = Some example_listener"
    by (simp_all add: example_listener_def)
  then have "listener_step ?l ?m" "listener_step ?m example_listener" unfolding listener_step_def by blast+
  then have "listener_step\<^sup>*\<^sup>* ?l example_listener" by auto
  moreover have "NewListener 1 = Some ?l" by (simp add: NewListener_def)
  ultimately have "int (open_conns example_listener) \<le> 1" using listener_bounded by blast
  then show ?thesis by (simp add: example_listener_def)
qed

section \<open>The connection table of the daemon\<close>

abbreviation (input) maxRPCConnections :: int where "maxRPCConnections \<equiv> 256"
abbreviation (input) maxRPCConnectionsUID :: int where "maxRPCConnectionsUID \<equiv> 32"
abbreviation (input) reservedRootRPCConnections :: int where "reservedRootRPCConnections \<equiv> 16"

text \<open>The three counters of the server; reading an absent key of the Go map gives zero.\<close>

record ConnTable =
  ct_uidConnections :: "int \<rightharpoonup> int"
  ct_connections :: int
  ct_nonRootConnections :: int

definition uid_count :: "ConnTable \<Rightarrow> int \<Rightarrow> int" where
  "uid_count t uid = (case ct_uidConnections t uid of None \<Rightarrow> 0 | Some n \<Rightarrow> n)"

definition acquireConnection :: "int \<Rightarrow> ConnTable \<Rightarrow> ConnTable \<times> bool" where
  "acquireConnection uid t =
     (if ct_connections t \<ge> maxRPCConnections then (t, False)
      else if uid \<noteq> 0 \<and> (ct_nonRootConnections t \<ge> maxRPCConnections - reservedRootRPCConnections \<or>
          uid_count t uid \<ge> maxRPCConnectionsUID) then (t, False)
      else (t\<lparr>ct_uidConnections := (ct_uidConnections t)(uid \<mapsto> uid_count t uid + 1),
              ct_connections := ct_connections t + 1,
              ct_nonRootConnections := (if uid \<noteq> 0 then ct_nonRootConnections t + 1 else ct_nonRootConnections t)\<rparr>,
            True))"

definition releaseConnection :: "int \<Rightarrow> ConnTable \<Rightarrow> ConnTable" where
  "releaseConnection uid t =
     (if uid_count t uid \<le> 0 then t
      else t\<lparr>ct_uidConnections := (if uid_count t uid \<le> 1 then (ct_uidConnections t)(uid := None)
               else (ct_uidConnections t)(uid \<mapsto> uid_count t uid - 1)),
             ct_connections := ct_connections t - 1,
             ct_nonRootConnections := (if uid \<noteq> 0 then ct_nonRootConnections t - 1 else ct_nonRootConnections t)\<rparr>)"

definition empty_table :: ConnTable where
  "empty_table = \<lparr>ct_uidConnections = Map.empty, ct_connections = 0, ct_nonRootConnections = 0\<rparr>"

text \<open>
  The specification: the multiset of the users of the open connections. A user other than root may
  connect while the total, its own share and the share of all such users allow it.
\<close>

definition non_root :: "int multiset \<Rightarrow> int multiset" where
  "non_root M = filter_mset (\<lambda>u. u \<noteq> 0) M"

definition may_connect :: "int multiset \<Rightarrow> int \<Rightarrow> bool" where
  "may_connect M uid \<longleftrightarrow> size M < 256 \<and> (uid \<noteq> 0 \<longrightarrow> size (non_root M) < 240 \<and> count M uid < 32)"

definition conn_rel :: "ConnTable \<Rightarrow> int multiset \<Rightarrow> bool" where
  "conn_rel t M \<longleftrightarrow> (\<forall>u. ct_uidConnections t u = (if u \<in># M then Some (int (count M u)) else None)) \<and>
     ct_connections t = int (size M) \<and> ct_nonRootConnections t = int (size (non_root M))"

lemma conn_rel_count: "conn_rel t M \<Longrightarrow> uid_count t u = int (count M u)"
  by (simp add: conn_rel_def uid_count_def not_in_iff)

lemma conn_rel_empty: "conn_rel empty_table {#}"
  by (simp add: conn_rel_def empty_table_def non_root_def)

lemma acquire_refines:
  assumes "conn_rel t M"
  shows "snd (acquireConnection u t) \<longleftrightarrow> may_connect M u"
    and "conn_rel (fst (acquireConnection u t)) (if may_connect M u then add_mset u M else M)"
  using assms conn_rel_count [OF assms]
  by (auto simp: acquireConnection_def may_connect_def conn_rel_def non_root_def)

lemma release_refines:
  assumes "conn_rel t M"
  shows "conn_rel (releaseConnection u t) (M - {#u#})"
proof (cases "u \<in># M")
  case False
  then have "count M u = 0" by (simp add: not_in_iff)
  with conn_rel_count [OF assms, of u] assms False show ?thesis
    by (simp add: releaseConnection_def diff_single_trivial)
next
  case True
  have sizes: "int (size (M - {#u#})) = int (size M) - 1"
    "int (size (non_root (M - {#u#}))) = (if u \<noteq> 0 then int (size (non_root M)) - 1 else int (size (non_root M)))"
    using size_Suc_Diff1 [OF True] size_Suc_Diff1 [of u "non_root M"] True by (auto simp: non_root_def)
  have "count M u > 0" using True by simp
  moreover have "v \<in># M - {#u#} \<longleftrightarrow> (if v = u then count M u > 1 else v \<in># M)" for v
    by (auto simp: in_diff_count)
  ultimately show ?thesis
    using assms conn_rel_count [OF assms] sizes
    by (auto simp: releaseConnection_def conn_rel_def not_le count_eq_zero_iff)
qed

definition shares_ok :: "int multiset \<Rightarrow> bool" where
  "shares_ok M \<longleftrightarrow> size M \<le> 256 \<and> size (non_root M) \<le> 240 \<and> (\<forall>u. u \<noteq> 0 \<longrightarrow> count M u \<le> 32)"

lemma shares_connect: "shares_ok M \<Longrightarrow> may_connect M u \<Longrightarrow> shares_ok (add_mset u M)"
  by (auto simp: shares_ok_def may_connect_def non_root_def)

lemma shares_disconnect:
  assumes "shares_ok M"
  shows "shares_ok (M - {#u#})"
proof -
  have "size (M - {#u#}) \<le> size M" "size (non_root (M - {#u#})) \<le> size (non_root M)"
    by (intro size_mset_mono; simp add: non_root_def multiset_filter_mono)+
  with assms show ?thesis
    by (auto simp: shares_ok_def intro: le_trans [OF diff_le_self])
qed

text \<open>What connections do to the table, and to the multiset that specifies it.\<close>

datatype conn_op = Connect int | Disconnect int

fun table_op :: "conn_op \<Rightarrow> ConnTable \<Rightarrow> ConnTable" where
  "table_op (Connect u) t = fst (acquireConnection u t)"
| "table_op (Disconnect u) t = releaseConnection u t"

fun spec_op :: "conn_op \<Rightarrow> int multiset \<Rightarrow> int multiset" where
  "spec_op (Connect u) M = (if may_connect M u then add_mset u M else M)"
| "spec_op (Disconnect u) M = M - {#u#}"

lemma table_op_refines: "conn_rel t M \<Longrightarrow> conn_rel (table_op op t) (spec_op op M)"
  by (cases op) (simp_all only: table_op.simps spec_op.simps acquire_refines release_refines)

lemma spec_op_ok: "shares_ok M \<Longrightarrow> shares_ok (spec_op op M)"
  by (cases op) (simp_all add: shares_connect shares_disconnect)

interpretation rpc: bounded_pool "\<lambda>t t'. \<exists>op. t' = table_op op t" "\<lambda>t. t = empty_table"
  "\<lambda>t. \<exists>M. conn_rel t M \<and> shares_ok M" "\<lambda>t. nat (ct_connections t)" "\<lambda>_. 256"
proof
  show "\<exists>M. conn_rel t M \<and> shares_ok M" if "t = empty_table" for t
    using that conn_rel_empty by (auto simp: shares_ok_def non_root_def)
  show "\<exists>M. conn_rel t' M \<and> shares_ok M" if "\<exists>op. t' = table_op op t" "\<exists>M. conn_rel t M \<and> shares_ok M" for t t'
    using that table_op_refines spec_op_ok by blast
qed (auto simp: conn_rel_def shares_ok_def)

lemma fold_refines: "conn_rel t M \<Longrightarrow> shares_ok M \<Longrightarrow>
    conn_rel (fold table_op ops t) (fold spec_op ops M) \<and> shares_ok (fold spec_op ops M)"
proof (induction ops arbitrary: t M)
  case (Cons op ops)
  from Cons.IH [OF table_op_refines [OF Cons.prems(1)] spec_op_ok [OF Cons.prems(2)]] show ?case by simp
qed simp

text \<open>
  C37: the connection table of the daemon refines its specification. After any sequence of
  connections and disconnections its three counters are the counts of the multiset of the users
  that are connected, it admits a user exactly when the shares allow it, at most 256 connections
  are open, at most 240 of users other than root and at most 32 of one such user; so root is
  refused only when at least 16 of the connections are its own.
\<close>

theorem connection_table_refines:
  "let M = fold spec_op ops {#}; t = fold table_op ops empty_table in
     conn_rel t M \<and> (\<forall>u. snd (acquireConnection u t) \<longleftrightarrow> may_connect M u) \<and>
     size M \<le> 256 \<and> size (non_root M) \<le> 240 \<and> (\<forall>u. count M u \<le> 32 \<or> u = 0) \<and>
     (snd (acquireConnection 0 t) \<or> count M 0 \<ge> 16)"
proof -
  let ?M = "fold spec_op ops {#}" and ?t = "fold table_op ops empty_table"
  have r: "conn_rel ?t ?M" "shares_ok ?M"
    using fold_refines [OF conn_rel_empty, of ops] by (simp_all add: shares_ok_def non_root_def)
  have "size ?M = size (non_root ?M) + count ?M 0"
    unfolding non_root_def
    by (subst multiset_partition [of _ "\<lambda>u. u = 0"]) (simp add: filter_eq_replicate_mset)
  with r acquire_refines(1) [OF r(1)] show ?thesis
    unfolding Let_def by (auto simp: shares_ok_def may_connect_def)
qed

end
