(* ===== verification/Memo.thy ===== *)
theory Memo
  imports Authorize "HOL-Library.AList"
begin

text \<open>
  The memo over the process reader (\<open>internal/proc/memo.go\<close>), which serves all reads of a pass. The
  process table changes while a pass runs, so the underlying reader answers its \<open>n\<close>-th call by
  \<open>rd n\<close>; the memo makes of these answers one function, which is what the model of the enforcement
  engine takes for a reader. The methods of one pass run in one goroutine; the mutex is not needed
  for that and is not modelled.
\<close>

section \<open>The memo\<close>

abbreviation (input) maxMemoEntries :: nat where "maxMemoEntries \<equiv> 65536"

text \<open>The two Go maps are association lists with distinct keys; \<open>mm_calls\<close> counts the calls of the reader.\<close>

record Memo =
  mm_infos :: "(int \<times> (enf_error + ProcInfo)) list"
  mm_exists :: "(int \<times> bool) list"
  mm_calls :: nat

record Reader =
  rd_Info :: "nat \<Rightarrow> int \<Rightarrow> enf_error + ProcInfo"
  rd_Exists :: "nat \<Rightarrow> int \<Rightarrow> bool"

definition NewMemo :: Memo where
  "NewMemo = \<lparr>mm_infos = [], mm_exists = [], mm_calls = 0\<rparr>"

definition cloneProcInfo :: "ProcInfo \<Rightarrow> ProcInfo" where
  "cloneProcInfo info = info\<lparr>pi_Cmdline := [] @ pi_Cmdline info\<rparr>"

definition Memo_Info :: "Reader \<Rightarrow> int \<Rightarrow> Memo \<Rightarrow> Memo \<times> (enf_error + ProcInfo)" where
  "Memo_Info rd pid m = (case map_of (mm_infos m) pid of
     Some cached \<Rightarrow> (m, map_sum id cloneProcInfo cached)
   | None \<Rightarrow>
       let res = rd_Info rd (mm_calls m) pid; m = m\<lparr>mm_calls := Suc (mm_calls m)\<rparr> in
       (if length (mm_infos m) < maxMemoEntries
        then m\<lparr>mm_infos := AList.update pid (map_sum id cloneProcInfo res) (mm_infos m)\<rparr> else m, res))"

definition Memo_Exists :: "Reader \<Rightarrow> int \<Rightarrow> Memo \<Rightarrow> Memo \<times> bool" where
  "Memo_Exists rd pid m = (case map_of (mm_infos m) pid of
     Some (Inr _) \<Rightarrow> (m, True)
   | _ \<Rightarrow> (case map_of (mm_exists m) pid of
       Some e \<Rightarrow> (m, e)
     | None \<Rightarrow>
         let e = rd_Exists rd (mm_calls m) pid; m = m\<lparr>mm_calls := Suc (mm_calls m)\<rparr> in
         (if length (mm_exists m) < maxMemoEntries
          then m\<lparr>mm_exists := AList.update pid e (mm_exists m)\<rparr> else m, e)))"

fun Memo_Infos :: "Reader \<Rightarrow> int list \<Rightarrow> Memo \<Rightarrow> Memo \<times> (enf_error + ProcInfo) list" where
  "Memo_Infos rd [] m = (m, [])"
| "Memo_Infos rd (p # ps) m = (case Memo_Info rd p m of (m, r) \<Rightarrow>
     case Memo_Infos rd ps m of (m, rs) \<Rightarrow> (m, r # rs))"

section \<open>The memo is a function\<close>

lemma cloneProcInfo_id [simp]: "cloneProcInfo = (\<lambda>info. info)"
  by (rule ext) (simp add: cloneProcInfo_def)

lemma map_sum_ident [simp]: "map_sum id (\<lambda>x. x) r = r"
  by (cases r) simp_all

lemma length_update_new: "map_of xs k = None \<Longrightarrow> length (AList.update k v xs) = Suc (length xs)"
  by (induction xs) auto

lemma Memo_Info_cases:
  "map_of (mm_infos m) pid = Some r \<Longrightarrow> Memo_Info rd pid m = (m, r)"
  "map_of (mm_infos m) pid = None \<Longrightarrow> length (mm_infos m) < maxMemoEntries \<Longrightarrow>
     \<exists>r. Memo_Info rd pid m = (m\<lparr>mm_calls := Suc (mm_calls m), mm_infos := AList.update pid r (mm_infos m)\<rparr>, r) \<and>
       r = rd_Info rd (mm_calls m) pid"
  by (simp_all add: Memo_Info_def Let_def)

definition memo_bounded :: "Memo \<Rightarrow> int set \<Rightarrow> bool" where
  "memo_bounded m P \<longleftrightarrow> finite P \<and> card P \<le> maxMemoEntries \<and> distinct (map fst (mm_infos m)) \<and>
     fst ` set (mm_infos m) \<subseteq> P"

lemma memo_bounded_room:
  assumes "memo_bounded m P" "map_of (mm_infos m) pid = None" "pid \<in> P"
  shows "length (mm_infos m) < maxMemoEntries"
proof -
  have "pid \<notin> fst ` set (mm_infos m)" using assms(2) by (simp add: map_of_eq_None_iff)
  then have "fst ` set (mm_infos m) \<subset> P" using assms by (auto simp: memo_bounded_def)
  then have "card (fst ` set (mm_infos m)) < card P"
    using assms(1) by (auto simp: memo_bounded_def intro: psubset_card_mono)
  moreover have "length (mm_infos m) = card (fst ` set (mm_infos m))"
    using assms(1) distinct_card [of "map fst (mm_infos m)"] by (simp add: memo_bounded_def)
  ultimately show ?thesis using assms(1) by (simp add: memo_bounded_def)
qed

lemma Memo_Infos_function:
  assumes "memo_bounded m P" "set pids \<subseteq> P" "Memo_Infos rd pids m = (m', rs)"
  shows "memo_bounded m' P \<and> map_of (mm_infos m) \<subseteq>\<^sub>m map_of (mm_infos m') \<and>
    rs = map (\<lambda>p. the (map_of (mm_infos m') p)) pids \<and> set pids \<subseteq> fst ` set (mm_infos m') \<and>
    mm_calls m' = mm_calls m + (length (mm_infos m') - length (mm_infos m)) \<and>
    length (mm_infos m) \<le> length (mm_infos m')"
  using assms
proof (induction pids arbitrary: m rs)
  case (Cons p ps)
  show ?case
  proof (cases "map_of (mm_infos m) p")
    case (Some r)
    obtain rs' where 1: "Memo_Infos rd ps m = (m', rs')" and rs: "rs = r # rs'"
      using Cons.prems(3) Some by (auto simp: Memo_Info_cases split: prod.splits)
    from Cons.IH [OF Cons.prems(1) _ 1] Cons.prems(2) have IH: "memo_bounded m' P"
      "map_of (mm_infos m) \<subseteq>\<^sub>m map_of (mm_infos m')" "rs' = map (\<lambda>p. the (map_of (mm_infos m') p)) ps"
      "set ps \<subseteq> fst ` set (mm_infos m')"
      "mm_calls m' = mm_calls m + (length (mm_infos m') - length (mm_infos m))"
      "length (mm_infos m) \<le> length (mm_infos m')" by auto
    have "map_of (mm_infos m') p = Some r" using IH(2) Some by (metis domI map_le_def)
    with IH rs show ?thesis by (auto dest: map_of_SomeD intro: rev_image_eqI)
  next
    case None
    from Cons.prems(1,2) None have room: "length (mm_infos m) < maxMemoEntries"
      by (intro memo_bounded_room) auto
    let ?r = "rd_Info rd (mm_calls m) p"
    let ?m = "m\<lparr>mm_calls := Suc (mm_calls m), mm_infos := AList.update p ?r (mm_infos m)\<rparr>"
    have i: "Memo_Info rd p m = (?m, ?r)" using Memo_Info_cases(2) [OF None room] by auto
    then obtain rs' where 1: "Memo_Infos rd ps ?m = (m', rs')" and rs: "rs = ?r # rs'"
      using Cons.prems(3) by (auto split: prod.splits)
    have b: "memo_bounded ?m P"
      using Cons.prems(1,2) by (auto simp: memo_bounded_def distinct_update dom_update)
    from Cons.IH [OF b _ 1] Cons.prems(2) have IH: "memo_bounded m' P"
      "map_of (mm_infos ?m) \<subseteq>\<^sub>m map_of (mm_infos m')" "rs' = map (\<lambda>p. the (map_of (mm_infos m') p)) ps"
      "set ps \<subseteq> fst ` set (mm_infos m')"
      "mm_calls m' = mm_calls ?m + (length (mm_infos m') - length (mm_infos ?m))"
      "length (mm_infos ?m) \<le> length (mm_infos m')" by auto
    have p: "map_of (mm_infos m') p = Some ?r"
      using IH(2) by (auto simp: map_le_def update_conv' dom_def)
    have le: "map_of (mm_infos m) \<subseteq>\<^sub>m map_of (mm_infos m')"
      using IH(2) None by (auto simp: map_le_def update_conv' dom_def split: if_splits)
    have "length (mm_infos ?m) = Suc (length (mm_infos m))" using length_update_new [OF None] by simp
    with IH p le rs show ?thesis by (auto dest: map_of_SomeD intro: rev_image_eqI)
  qed
qed (simp add: map_le_def)

text \<open>
  within a pass the memo is a function. However the process table changes between the reads, a
  fresh memo answers any sequence of reads of at most 65536 different process numbers by one
  function of the number, and reads each number from the process table exactly once.
\<close>

theorem memo_snapshot:
  assumes "card (set pids) \<le> maxMemoEntries" "Memo_Infos rd pids NewMemo = (m, rs)"
  shows "(\<exists>f. rs = map f pids) \<and> mm_calls m = card (set pids)"
proof -
  have b: "memo_bounded NewMemo (set pids)" using assms(1) by (simp add: memo_bounded_def NewMemo_def)
  from Memo_Infos_function [OF b subset_refl assms(2)]
  have f: "rs = map (\<lambda>p. the (map_of (mm_infos m) p)) pids" "set pids = fst ` set (mm_infos m)"
    "distinct (map fst (mm_infos m))" "mm_calls m = length (mm_infos m)"
    by (auto simp: memo_bounded_def NewMemo_def)
  with distinct_card [OF f(3)] show ?thesis by auto
qed

definition example_reader :: Reader where
  "example_reader = \<lparr>rd_Info = (\<lambda>n pid. if n = 0 then Inr (zero_ProcInfo\<lparr>pi_PID := pid\<rparr>) else Inl ErrProcNotExist),
     rd_Exists = (\<lambda>_ _. False)\<rparr>"

theorem memo_snapshot_witness:
  "mm_calls (fst (Memo_Infos example_reader [7, 7, 9, 7] NewMemo)) = 2"
proof -
  obtain m rs where r: "Memo_Infos example_reader [7, 7, 9, 7] NewMemo = (m, rs)" by fastforce
  have c: "card (set [7, 7, 9, 7 :: int]) = 2" by (simp add: card_insert_if)
  then have "mm_calls m = 2" using memo_snapshot [OF _ r] by simp
  with r show ?thesis by simp
qed

end
