(* ===== verification/Utf8.thy ===== *)
theory Utf8
  imports Prelude
begin

text \<open>
  UTF-8 as Go's \<open>unicode/utf8\<close> reads it, and the two library functions on it that the daemon uses
  to make a command line presentable: \<open>utf8.ValidString\<close> and \<open>strings.ToValidUTF8\<close> with the
  replacement \<open>?\<close>.
\<close>

section \<open>One rune\<close>

definition cont :: "nat \<Rightarrow> bool" where
  "cont b \<longleftrightarrow> 128 \<le> b \<and> b \<le> 191"

text \<open>The number of bytes of the rune a text starts with; 0 when it starts with an invalid byte.\<close>

definition two_bytes :: "nat \<Rightarrow> nat list \<Rightarrow> bool" where
  "two_bytes a bs \<longleftrightarrow> 194 \<le> a \<and> a \<le> 223 \<and> 1 \<le> length bs \<and> cont (bs ! 0)"

definition three_bytes :: "nat \<Rightarrow> nat list \<Rightarrow> bool" where
  "three_bytes a bs \<longleftrightarrow> 224 \<le> a \<and> a \<le> 239 \<and> 2 \<le> length bs \<and> cont (bs ! 0) \<and> cont (bs ! 1) \<and>
     (a = 224 \<longrightarrow> 160 \<le> bs ! 0) \<and> (a = 237 \<longrightarrow> bs ! 0 \<le> 159)"

definition four_bytes :: "nat \<Rightarrow> nat list \<Rightarrow> bool" where
  "four_bytes a bs \<longleftrightarrow> 240 \<le> a \<and> a \<le> 244 \<and> 3 \<le> length bs \<and> cont (bs ! 0) \<and> cont (bs ! 1) \<and> cont (bs ! 2) \<and>
     (a = 240 \<longrightarrow> 144 \<le> bs ! 0) \<and> (a = 244 \<longrightarrow> bs ! 0 \<le> 143)"

fun rune_bytes :: "nat list \<Rightarrow> nat" where
  "rune_bytes (a # bs) = (if a < 128 then 1 else if two_bytes a bs then 2 else if three_bytes a bs then 3
     else if four_bytes a bs then 4 else 0)"
| "rune_bytes [] = 0"

lemma two_bytes_take: "two_bytes a bs \<Longrightarrow> 1 \<le> k \<Longrightarrow> two_bytes a (take k bs @ cs)"
  by (auto simp: two_bytes_def nth_append)

lemma three_bytes_take: "three_bytes a bs \<Longrightarrow> 2 \<le> k \<Longrightarrow> three_bytes a (take k bs @ cs)"
  by (auto simp: three_bytes_def nth_append)

lemma four_bytes_take: "four_bytes a bs \<Longrightarrow> 3 \<le> k \<Longrightarrow> four_bytes a (take k bs @ cs)"
  by (auto simp: four_bytes_def nth_append)

lemma bytes_exclusive: "three_bytes a bs \<Longrightarrow> \<not> two_bytes a cs" "four_bytes a bs \<Longrightarrow> \<not> two_bytes a cs"
  "four_bytes a bs \<Longrightarrow> \<not> three_bytes a cs"
  by (simp_all add: two_bytes_def three_bytes_def four_bytes_def)

definition rune_len :: "string \<Rightarrow> nat" where
  "rune_len s = rune_bytes (map of_char s)"

lemma rune_len_Nil [simp]: "rune_len [] = 0"
  by (simp add: rune_len_def)

lemma rune_bytes_le: "rune_bytes bs \<le> length bs"
  by (cases bs) (auto simp: two_bytes_def three_bytes_def four_bytes_def)

lemma rune_len_le: "rune_len s \<le> length s"
  using rune_bytes_le [of "map of_char s"] by (simp add: rune_len_def)

text \<open>A rune is recognised by its own bytes alone.\<close>

lemma rune_bytes_take:
  assumes "0 < rune_bytes bs" "rune_bytes bs \<le> k"
  shows "rune_bytes (take k bs @ cs) = rune_bytes bs"
proof (cases bs)
  case (Cons a r)
  from assms(1) obtain j where k: "k = Suc j" using assms(2) by (cases k) auto
  consider "a < 128" | "\<not> a < 128" "two_bytes a r" | "\<not> a < 128" "three_bytes a r" | "\<not> a < 128" "four_bytes a r"
    using assms(1) by (auto simp: Cons split: if_splits)
  then show ?thesis
  proof cases
    case 2
    with assms(2) show ?thesis by (simp add: Cons k two_bytes_take)
  next
    case 3
    with assms(2) show ?thesis by (simp add: Cons k three_bytes_take bytes_exclusive)
  next
    case 4
    with assms(2) show ?thesis by (simp add: Cons k four_bytes_take bytes_exclusive)
  qed (simp add: Cons k)
qed (use assms in simp)

lemma rune_len_rune: "0 < rune_len s \<Longrightarrow> rune_len (take (rune_len s) s @ t) = rune_len s"
  using rune_bytes_take [of "map of_char s" "rune_len s" "map of_char t"] by (simp add: rune_len_def take_map)

section \<open>Texts\<close>

function ValidString :: "string \<Rightarrow> bool" where
  "ValidString s = (if s = [] then True else if rune_len s = 0 then False else ValidString (drop (rune_len s) s))"
  by pat_completeness auto
termination
  by (relation "measure length") auto

text \<open>Whether the previous byte was invalid: a run of invalid bytes gives one replacement.\<close>

function to_valid :: "bool \<Rightarrow> string \<Rightarrow> string" where
  "to_valid invalid s =
     (if s = [] then []
      else if rune_len s = 0 then (if invalid then [] else ''?'') @ to_valid True (drop 1 s)
      else take (rune_len s) s @ to_valid False (drop (rune_len s) s))"
  by pat_completeness auto
termination
  by (relation "measure (length \<circ> snd)") auto

definition ToValidUTF8 :: "string \<Rightarrow> string" where
  "ToValidUTF8 s = to_valid False s"

declare ValidString.simps [simp del] to_valid.simps [simp del]

lemma ValidString_Nil [simp]: "ValidString []"
  by (simp add: ValidString.simps)

lemma ValidString_rune: "0 < rune_len s \<Longrightarrow> ValidString t \<Longrightarrow> ValidString (take (rune_len s) s @ t)"
  using rune_len_rune [of s t] rune_len_le [of s] by (subst ValidString.simps) auto

lemma rune_len_question [simp]: "rune_len (CHR ''?'' # t) = 1"
  by (simp add: rune_len_def)

lemma ValidString_to_valid: "ValidString (to_valid invalid s)"
proof (induction invalid s rule: to_valid.induct)
  case (1 invalid s)
  show ?case
  proof (cases "s = []")
    case False
    show ?thesis
    proof (cases "rune_len s = 0")
      case True
      with False 1(1) have "ValidString (to_valid True (drop 1 s))" by simp
      with False True show ?thesis
        by (simp add: to_valid.simps [of invalid s] ValidString.simps [of "CHR ''?'' # _"])
    next
      case n: False
      with False 1(2) have "ValidString (to_valid False (drop (rune_len s) s))" by simp
      with False n ValidString_rune show ?thesis by (simp add: to_valid.simps [of invalid s])
    qed
  qed (simp add: to_valid.simps)
qed

lemma ValidString_ToValidUTF8: "ValidString (ToValidUTF8 s)"
  by (simp add: ToValidUTF8_def ValidString_to_valid)

lemma to_valid_id: "ValidString s \<Longrightarrow> to_valid invalid s = s"
proof (induction s arbitrary: invalid rule: ValidString.induct)
  case (1 s)
  show ?case
  proof (cases "s = []")
    case False
    with 1(2) have "0 < rune_len s" "ValidString (drop (rune_len s) s)"
      by (simp_all add: ValidString.simps [of s] split: if_splits)
    with False 1(1) show ?thesis by (simp add: to_valid.simps [of invalid s])
  qed (simp add: to_valid.simps)
qed

lemma ToValidUTF8_id: "ValidString s \<Longrightarrow> ToValidUTF8 s = s"
  by (simp add: ToValidUTF8_def to_valid_id)

section \<open>Truncation\<close>

text \<open>\<open>for !utf8.ValidString(s) { s = s[:len(s)-1] }\<close>: the empty text is valid, so the loop ends.\<close>

function strip_invalid :: "string \<Rightarrow> string" where
  "strip_invalid s = (if ValidString s then s else strip_invalid (butlast s))"
  by pat_completeness auto
termination
proof (relation "measure length", simp, clarsimp)
  fix s assume "\<not> ValidString s"
  then have "s \<noteq> []" by auto
  then show "length s - Suc 0 < length s" by simp
qed

declare strip_invalid.simps [simp del]

lemma ValidString_strip_invalid: "ValidString (strip_invalid s)"
  by (induction s rule: strip_invalid.induct) (subst strip_invalid.simps, auto)

lemma strip_invalid_prefix: "prefix (strip_invalid s) s"
proof (induction s rule: strip_invalid.induct)
  case (1 s)
  then show ?case
    by (cases "ValidString s") (auto simp: strip_invalid.simps [of s] intro: prefix_order.trans prefixeq_butlast)
qed

end
