(* ===== verification/Jobs.thy ===== *)
theory Jobs
  imports Enforce Utf8 "HOL-Library.Char_ord" "HOL-Library.List_Lexorder" "HOL-Library.Multiset"
begin

text \<open>
  The daemon's job telemetry (\<open>internal/daemon/telemetry.go\<close>, \<open>internal/telemetry/telemetry.go\<close>):
  the table of jobs started through the daemon (\<open>runJobs\<close>), the table of jobs seen on a GPU
  (\<open>observedJobs\<close>) and the events that report a job's start, change and end.

  The two Go maps are association lists; Go ranges over them in an arbitrary order, which is the
  order of the list. Instants behind a pointer are options. The process identifier hash is the
  parameter \<open>je_sha256\<close>, the container runtime the parameter \<open>je_Runtime\<close>.
\<close>

section \<open>Data\<close>

record RuntimeContext =
  rc_UID :: "int option"
  rc_Username :: string
  rc_ContainerID :: string
  rc_DockerContainerName :: string
  rc_KubernetesNamespace :: string
  rc_KubernetesPodName :: string
  rc_KubernetesContainerName :: string

record JobEvent =
  je_ExecutionID :: string
  je_AuthorizationID :: string
  je_GroupID :: string
  je_GroupIDs :: "string list"
  je_TokenMode :: string
  je_Source :: string
  je_Mode :: string
  je_Holder :: string
  je_RunName :: string
  je_PID :: int
  je_ProcStartTicks :: uint64
  je_Command :: "string list"
  je_GPUs :: "int list"
  je_StartedAt :: "time option"
  je_RootExitedAt :: "time option"
  je_FinishedAt :: "time option"
  je_StartPrecision :: string
  je_FinishPrecision :: string
  je_ExitCode :: "int option"
  je_Reason :: string
  je_RuntimeContext :: "RuntimeContext option"

datatype job_kind = JobStarted | JobUpdated | JobFinished

text \<open>A batch event: its type, its payload (copied when it is queued) and when it occurred.\<close>

type_synonym job_event = "job_kind \<times> JobEvent \<times> time"

definition jobBatchEvent :: "job_kind \<Rightarrow> JobEvent \<Rightarrow> time \<Rightarrow> job_event" where
  "jobBatchEvent kind event at = (kind, event, at)"

record observedTelemetryJob =
  oj_event :: JobEvent
  oj_lastSeen :: time
  oj_missed :: int

record pendingRuntimeContext =
  pc_key :: string
  pc_mode :: string
  pc_containerID :: string

record Jobs =
  jb_enabled :: bool
  jb_observed :: "(string \<times> observedTelemetryJob) list"
  jb_run :: "(string \<times> JobEvent) list"
  jb_pending :: "pendingRuntimeContext list"

abbreviation (input) maxPendingRuntimeContexts :: nat where "maxPendingRuntimeContexts \<equiv> 256"

record KubernetesWorkload =
  kw_Namespace :: string
  kw_PodName :: string
  kw_ContainerName :: string

text \<open>The resolver of container metadata; the two option fields are the interfaces it may implement.\<close>

record CachedLookup =
  cl_DockerContainerName :: "string \<Rightarrow> string \<times> bool"
  cl_KubernetesWorkload :: "string \<Rightarrow> KubernetesWorkload \<times> bool"

record RuntimeMeta =
  rm_cache :: "CachedLookup option"
  rm_DockerContainerName :: "string \<Rightarrow> string"
  rm_Workload :: "(string \<Rightarrow> enf_error + KubernetesWorkload) option"
  rm_NamespaceForContainer :: "string \<Rightarrow> string"

record JobEnv =
  je_bootID :: string
  je_sha256 :: "string \<Rightarrow> string"
  je_LookupUsername :: "int \<Rightarrow> string"
  je_Runtime :: "RuntimeMeta option"

section \<open>Small helpers\<close>

text \<open>The new slice and whether the value was added.\<close>

definition addString :: "string \<Rightarrow> string list \<Rightarrow> string list \<times> bool" where
  "addString v vs = (if v \<in> set vs then (vs, False) else (vs @ [v], True))"

definition addGPU :: "int \<Rightarrow> int list \<Rightarrow> int list \<times> bool" where
  "addGPU g gs = (if g \<in> set gs then (gs, False) else (sort (gs @ [g]), True))"

fun telemetry_args :: "nat \<Rightarrow> nat \<Rightarrow> string list \<Rightarrow> string list" where
  "telemetry_args shown remaining [] = []"
| "telemetry_args shown remaining (a # as) =
     (if shown \<ge> 128 \<or> remaining = 0 then []
      else let v = ToValidUTF8 a; w = (if length v > remaining then strip_invalid (take remaining v) else v) in
        w # telemetry_args (Suc shown) (remaining - length w) as)"

definition boundedTelemetryCommand :: "string list \<Rightarrow> string list" where
  "boundedTelemetryCommand command = telemetry_args 0 16384 command"

definition reservationTelemetryGroup :: "Reservation \<Rightarrow> string \<Rightarrow> string" where
  "reservationTelemetryGroup r fallback = (if rs_GroupID r \<noteq> [] then rs_GroupID r else fallback)"

definition claimedTelemetryGroup :: "JobEvent \<Rightarrow> string" where
  "claimedTelemetryGroup e =
     (if je_ExecutionID e = [] \<or> je_GroupID e \<noteq> [] \<or> je_GroupIDs e \<noteq> [] then []
      else if je_TokenMode e \<noteq> TokenModeClaimed \<and> je_TokenMode e \<noteq> TokenModeManaged then []
      else if je_AuthorizationID e \<noteq> [] then ''claimed-auth:'' @ je_AuthorizationID e
      else ''claimed:'' @ je_ExecutionID e)"

fun group_scan :: "string \<Rightarrow> int \<Rightarrow> time \<Rightarrow> Reservation list \<Rightarrow> string list \<Rightarrow> string list" where
  "group_scan hash gpu at [] groups = groups"
| "group_scan hash gpu at (r # rs) groups =
     (if rs_TokenHash r \<noteq> hash \<or> (gpu \<ge> 0 \<and> rs_GPU r \<noteq> gpu) \<or> \<not> ReservationActiveAt r at
      then group_scan hash gpu at rs groups
      else group_scan hash gpu at rs (if rs_GroupID r \<noteq> [] then fst (addString (rs_GroupID r) groups) else groups))"

definition reservationGroupsForToken :: "Reservation list \<Rightarrow> string \<Rightarrow> int \<Rightarrow> time \<Rightarrow> string list" where
  "reservationGroupsForToken rs hash gpu at = sort (group_scan hash gpu at rs [])"

definition utoa :: "uint64 \<Rightarrow> string" where
  "utoa w = itoa (uint w)"

text \<open>\<open>UnixNano\<close> is a signed 64-bit count from 1970.\<close>

definition UnixNano :: "time \<Rightarrow> int" where
  "UnixNano t = sint (word_of_int (t - 62135596800 * second) :: 64 word)"

definition NUL :: char where "NUL = char_of (0 :: nat)"

definition observedExecutionID :: "JobEnv \<Rightarrow> string \<Rightarrow> int \<Rightarrow> uint64 \<Rightarrow> string" where
  "observedExecutionID env authID pid start = ''exec_'' @ hex_EncodeToString (take 12 (je_sha256 env
     (je_bootID env @ [NUL] @ authID @ [NUL] @ itoa pid @ [NUL] @ utoa start)))"

definition observedContinuationExecutionID :: "JobEnv \<Rightarrow> string \<Rightarrow> int \<Rightarrow> uint64 \<Rightarrow> time \<Rightarrow> string" where
  "observedContinuationExecutionID env authID pid start at = ''exec_'' @ hex_EncodeToString (take 12 (je_sha256 env
     (je_bootID env @ [NUL] @ authID @ [NUL] @ itoa pid @ [NUL] @ utoa start @ [NUL] @ itoa (UnixNano at))))"

section \<open>Runtime context\<close>

definition resolveRuntimeMetadata :: "JobEnv \<Rightarrow> string \<Rightarrow> RuntimeContext \<Rightarrow> RuntimeContext" where
  "resolveRuntimeMetadata env mode v = (case je_Runtime env of None \<Rightarrow> v
     | Some rt \<Rightarrow>
       if rc_ContainerID v = [] then v
       else if mode = ModeDocker then v\<lparr>rc_DockerContainerName := rm_DockerContainerName rt (rc_ContainerID v)\<rparr>
       else if mode = ModeK8s then (case rm_Workload rt of
           Some resolve \<Rightarrow> (case resolve (rc_ContainerID v) of Inl _ \<Rightarrow> v
             | Inr k \<Rightarrow> v\<lparr>rc_KubernetesNamespace := kw_Namespace k, rc_KubernetesPodName := kw_PodName k,
                 rc_KubernetesContainerName := kw_ContainerName k\<rparr>)
         | None \<Rightarrow> v\<lparr>rc_KubernetesNamespace := rm_NamespaceForContainer rt (rc_ContainerID v)\<rparr>)
       else v)"

definition buildJobRuntimeContext :: "JobEnv \<Rightarrow> ProcInfo \<Rightarrow> string \<Rightarrow> bool \<Rightarrow> RuntimeContext option \<times> bool" where
  "buildJobRuntimeContext env info mode cachedOnly =
     (let user = (if pi_UID info \<ge> 0
            then (if TrimSpace (pi_Username info) \<noteq> [] then TrimSpace (pi_Username info)
                  else je_LookupUsername env (pi_UID info)) else []);
          v = \<lparr>rc_UID = (if pi_UID info \<ge> 0 then Some (pi_UID info) else None), rc_Username = user,
               rc_ContainerID = TrimSpace (pi_ContainerID info), rc_DockerContainerName = [],
               rc_KubernetesNamespace = [], rc_KubernetesPodName = [], rc_KubernetesContainerName = []\<rparr>;
          (v, lookupPending) = (case je_Runtime env of None \<Rightarrow> (v, False)
            | Some rt \<Rightarrow>
              if rc_ContainerID v = [] then (v, False)
              else (case (if cachedOnly then rm_cache rt else None) of
                 Some cache \<Rightarrow>
                   if mode = ModeDocker then (case cl_DockerContainerName cache (rc_ContainerID v) of
                       (name, ok) \<Rightarrow> (v\<lparr>rc_DockerContainerName := name\<rparr>, \<not> ok))
                   else if mode = ModeK8s then (case cl_KubernetesWorkload cache (rc_ContainerID v) of
                       (k, ok) \<Rightarrow> (v\<lparr>rc_KubernetesNamespace := kw_Namespace k, rc_KubernetesPodName := kw_PodName k,
                         rc_KubernetesContainerName := kw_ContainerName k\<rparr>, \<not> ok))
                   else (resolveRuntimeMetadata env mode v, False)
               | None \<Rightarrow> (resolveRuntimeMetadata env mode v, False)))
      in if rc_UID v = None \<and> rc_Username v = [] \<and> rc_ContainerID v = [] \<and> rc_DockerContainerName v = [] \<and>
           rc_KubernetesNamespace v = [] \<and> rc_KubernetesPodName v = [] \<and> rc_KubernetesContainerName v = []
         then (None, False) else (Some v, lookupPending))"

definition jobRuntimeContext :: "JobEnv \<Rightarrow> ProcInfo \<Rightarrow> string \<Rightarrow> RuntimeContext option" where
  "jobRuntimeContext env info mode = fst (buildJobRuntimeContext env info mode False)"

section \<open>Jobs started through the daemon\<close>

definition first_or_empty :: "string list \<Rightarrow> string" where
  "first_or_empty vs = (case vs of v # _ \<Rightarrow> v | [] \<Rightarrow> [])"

text \<open>\<open>snapshot\<close> is the state read from the store, \<open>None\<close> when that fails.\<close>

definition new_run_job ::
  "JobEnv \<Rightarrow> State option \<Rightarrow> Token \<Rightarrow> Authorization \<Rightarrow> int \<Rightarrow> string list \<Rightarrow> time \<Rightarrow> JobEvent" where
  "new_run_job env snapshot token au pid command at =
     (let groupIDs = (case snapshot of Some st \<Rightarrow> reservationGroupsForToken (Reservations st) (tk_Hash token) (-1) at
            | None \<Rightarrow> []);
          groupIDs = (if groupIDs = [] \<and> tk_Mode token = TokenModeReserved then [tk_ID token] else groupIDs) in
      \<lparr>je_ExecutionID = ''exec_'' @ au_ID au, je_AuthorizationID = au_ID au, je_GroupID = first_or_empty groupIDs,
       je_GroupIDs = groupIDs, je_TokenMode = au_TokenMode au, je_Source = ''gpuardian_run'', je_Mode = au_Mode au,
       je_Holder = au_Holder au, je_RunName = au_RunName au, je_PID = pid, je_ProcStartTicks = 0,
       je_Command = boundedTelemetryCommand command, je_GPUs = [], je_StartedAt = Some at, je_RootExitedAt = None,
       je_FinishedAt = None, je_StartPrecision = ''exact'', je_FinishPrecision = [], je_ExitCode = None,
       je_Reason = [], je_RuntimeContext = jobRuntimeContext env (zero_ProcInfo\<lparr>pi_UID := au_UID au,
         pi_Username := au_Username au, pi_ContainerID := au_ContainerID au\<rparr>) (au_Mode au)\<rparr>)"

definition put :: "'k \<Rightarrow> 'v \<Rightarrow> ('k \<times> 'v) list \<Rightarrow> ('k \<times> 'v) list" where
  "put k v m = (if k \<in> fst ` set m then update_first (\<lambda>e. fst e = k) (\<lambda>_. (k, v)) m else m @ [(k, v)])"

definition remove_key :: "'k \<Rightarrow> ('k \<times> 'v) list \<Rightarrow> ('k \<times> 'v) list" where
  "remove_key k m = filter (\<lambda>e. fst e \<noteq> k) m"

definition rememberRunJob ::
  "JobEnv \<Rightarrow> State option \<Rightarrow> Token \<Rightarrow> Authorization \<Rightarrow> int \<Rightarrow> string list \<Rightarrow> time \<Rightarrow> Jobs \<Rightarrow> Jobs \<times> job_event list" where
  "rememberRunJob env snapshot token au pid command at j =
     (let event = new_run_job env snapshot token au pid command at in
      if \<not> jb_enabled j then (j, [])
      else (j\<lparr>jb_run := put (au_ID au) event (jb_run j)\<rparr>, [jobBatchEvent JobStarted event at]))"

definition updateRunJobRootExit :: "string \<Rightarrow> int \<Rightarrow> time \<Rightarrow> Jobs \<Rightarrow> Jobs \<times> job_event list" where
  "updateRunJobRootExit authID exitCode at j =
     (if \<not> jb_enabled j then (j, [])
      else case map_of (jb_run j) authID of None \<Rightarrow> (j, [])
      | Some event \<Rightarrow> let event = event\<lparr>je_RootExitedAt := Some at, je_ExitCode := Some exitCode\<rparr> in
          (j\<lparr>jb_run := put authID event (jb_run j)\<rparr>, [jobBatchEvent JobUpdated event at]))"

definition takeFinishedRunJob :: "string \<Rightarrow> string \<Rightarrow> time \<Rightarrow> Jobs \<Rightarrow> Jobs \<times> job_event list" where
  "takeFinishedRunJob authID reason at j =
     (if \<not> jb_enabled j then (j, [])
      else case map_of (jb_run j) authID of None \<Rightarrow> (j, [])
      | Some event \<Rightarrow> (j\<lparr>jb_run := remove_key authID (jb_run j)\<rparr>,
          [jobBatchEvent JobFinished (event\<lparr>je_FinishedAt := Some at, je_FinishPrecision := ''exact'',
            je_Reason := reason\<rparr>) at]))"

definition finishRunJob :: "string \<Rightarrow> string \<Rightarrow> time \<Rightarrow> Jobs \<Rightarrow> Jobs \<times> job_event list" where
  "finishRunJob authID reason at j = takeFinishedRunJob authID reason at j"

section \<open>Jobs seen on a GPU\<close>

definition newObservedTelemetryJobEvent ::
  "JobEnv \<Rightarrow> Authorization \<Rightarrow> Decision \<Rightarrow> string list \<Rightarrow> time \<Rightarrow> string \<Rightarrow> JobEvent \<times> bool" where
  "newObservedTelemetryJobEvent env au d groupIDs at executionID =
     (case buildJobRuntimeContext env (dc_Info d) (au_Mode au) True of (runtimeContext, lookupPending) \<Rightarrow>
       (\<lparr>je_ExecutionID = executionID, je_AuthorizationID = au_ID au, je_GroupID = first_or_empty groupIDs,
         je_GroupIDs = groupIDs, je_TokenMode = au_TokenMode au, je_Source = ''authorized_process'',
         je_Mode = au_Mode au, je_Holder = au_Holder au, je_RunName = au_RunName au, je_PID = gp_PID (dc_Process d),
         je_ProcStartTicks = pi_StartTime (dc_Info d), je_Command = boundedTelemetryCommand (pi_Cmdline (dc_Info d)),
         je_GPUs = [gp_GPU (dc_Process d)], je_StartedAt = Some at, je_RootExitedAt = None, je_FinishedAt = None,
         je_StartPrecision = ''observed'', je_FinishPrecision = [], je_ExitCode = None, je_Reason = [],
         je_RuntimeContext = runtimeContext\<rparr>, lookupPending \<and> runtimeContext \<noteq> None))"

text \<open>What the pass over the decisions shares: the jobs, the keys seen, their groups, the events.\<close>

record Track =
  tr_jobs :: Jobs
  tr_seen :: "string list"
  tr_groups :: "string \<Rightarrow> string list"
  tr_events :: "job_event list"

definition authorizations_by_id :: "Authorization list \<Rightarrow> string \<Rightarrow> Authorization option" where
  "authorizations_by_id aus ident = find (\<lambda>a. au_ID a = ident) (rev aus)"

definition job_key :: "Authorization \<Rightarrow> Decision \<Rightarrow> string" where
  "job_key au d = au_ID au @ ''/'' @ itoa (gp_PID (dc_Process d)) @ ''/'' @ utoa (pi_StartTime (dc_Info d))"

definition add_groups :: "string list \<Rightarrow> string list \<Rightarrow> string list" where
  "add_groups new groups = fold (\<lambda>g gs. fst (addString g gs)) new groups"

definition track_run_gpu :: "string \<Rightarrow> int \<Rightarrow> time \<Rightarrow> Track \<Rightarrow> Track" where
  "track_run_gpu authID gpu now t = (case map_of (jb_run (tr_jobs t)) authID of None \<Rightarrow> t
     | Some job \<Rightarrow> (case addGPU gpu (je_GPUs job) of
         (gs, added) \<Rightarrow> if \<not> added then t
           else let job = job\<lparr>je_GPUs := gs\<rparr> in
             t\<lparr>tr_jobs := (tr_jobs t)\<lparr>jb_run := put authID job (jb_run (tr_jobs t))\<rparr>,
               tr_events := tr_events t @ [jobBatchEvent JobUpdated job now]\<rparr>))"

definition start_observed ::
  "JobEnv \<Rightarrow> Authorization \<Rightarrow> Decision \<Rightarrow> string list \<Rightarrow> time \<Rightarrow> string \<Rightarrow> Track \<Rightarrow> Track" where
  "start_observed env au d groupIDs now key t =
     (case newObservedTelemetryJobEvent env au d groupIDs now
         (observedExecutionID env (au_ID au) (gp_PID (dc_Process d)) (pi_StartTime (dc_Info d))) of
        (event, lookupPending) \<Rightarrow>
          let j = tr_jobs t;
              j = j\<lparr>jb_observed := put key \<lparr>oj_event = event, oj_lastSeen = now, oj_missed = 0\<rparr> (jb_observed j)\<rparr>;
              j = (if lookupPending \<and> length (jb_pending j) < maxPendingRuntimeContexts
                   then j\<lparr>jb_pending := jb_pending j @ [\<lparr>pc_key = key, pc_mode = au_Mode au,
                          pc_containerID = (case je_RuntimeContext event of Some r \<Rightarrow> rc_ContainerID r | None \<Rightarrow> [])\<rparr>]\<rparr>
                   else j) in
          t\<lparr>tr_jobs := j, tr_events := tr_events t @ [jobBatchEvent JobStarted event now]\<rparr>)"

definition refresh_observed ::
  "observedTelemetryJob \<Rightarrow> Decision \<Rightarrow> string list \<Rightarrow> time \<Rightarrow> string \<Rightarrow> Track \<Rightarrow> Track" where
  "refresh_observed job d groupIDs now key t =
     (let event = oj_event job; groups = add_groups groupIDs (je_GroupIDs event);
          groupsChanged = (groups \<noteq> je_GroupIDs event) in
      case addGPU (gp_GPU (dc_Process d)) (je_GPUs event) of (gpus, added) \<Rightarrow>
        let event = event\<lparr>je_GroupIDs := groups, je_GPUs := gpus\<rparr>; j = tr_jobs t;
            j = j\<lparr>jb_observed := put key \<lparr>oj_event = event, oj_lastSeen = now, oj_missed = 0\<rparr> (jb_observed j)\<rparr> in
        t\<lparr>tr_jobs := j, tr_events := tr_events t @
            (if added \<or> groupsChanged then [jobBatchEvent JobUpdated event now] else [])\<rparr>)"

definition track_decision :: "JobEnv \<Rightarrow> State \<Rightarrow> time \<Rightarrow> Decision \<Rightarrow> Track \<Rightarrow> Track" where
  "track_decision env st now d t =
     (if dc_Action d \<noteq> ''allow'' \<or> dc_Reason d = ''bypass'' \<or> dc_AuthID d = [] \<or> gp_PID (dc_Process d) \<le> 0 \<or>
         pi_StartTime (dc_Info d) = 0 then t
      else case authorizations_by_id (Authorizations st) (dc_AuthID d) of None \<Rightarrow> t
      | Some au \<Rightarrow>
        if au_TokenMode au \<noteq> TokenModeReserved \<and> au_TokenMode au \<noteq> TokenModeManaged \<and>
           au_TokenMode au \<noteq> TokenModeClaimed then t
        else if au_Mode au = ModeBare then track_run_gpu (au_ID au) (gp_GPU (dc_Process d)) now t
        else (case tokens_by_hash (Tokens st) (au_TokenHash au) of None \<Rightarrow> t
        | Some token \<Rightarrow>
          if tk_ID token = [] then t
          else let groupIDs = reservationGroupsForToken (Reservations st) (au_TokenHash au) (gp_GPU (dc_Process d)) now;
                   groupIDs = (if groupIDs = [] \<and> au_TokenMode au = TokenModeReserved then [tk_ID token] else groupIDs);
                   key = job_key au d;
                   t = t\<lparr>tr_groups := (tr_groups t)(key := add_groups groupIDs (tr_groups t key)),
                         tr_seen := key # tr_seen t\<rparr> in
            (case map_of (jb_observed (tr_jobs t)) key of
               None \<Rightarrow> start_observed env au d groupIDs now key t
             | Some job \<Rightarrow> refresh_observed job d groupIDs now key t)))"

text \<open>
  A job of a claimed or managed key that is still running when its last reservation ended is closed
  and continued under a new execution; a job not seen in two passes in a row has finished.
\<close>

definition continued_event :: "JobEnv \<Rightarrow> time \<Rightarrow> JobEvent \<Rightarrow> JobEvent" where
  "continued_event env now e = e\<lparr>je_ExecutionID := observedContinuationExecutionID env (je_AuthorizationID e)
       (je_PID e) (je_ProcStartTicks e) now, je_GroupID := [], je_GroupIDs := [], je_StartedAt := Some now,
     je_RootExitedAt := None, je_FinishedAt := None, je_StartPrecision := ''observed'', je_FinishPrecision := [],
     je_ExitCode := None, je_Reason := []\<rparr>"

definition finished_event :: "string \<Rightarrow> time \<Rightarrow> JobEvent \<Rightarrow> JobEvent" where
  "finished_event reason at e = e\<lparr>je_FinishedAt := Some at, je_FinishPrecision := ''observed'', je_Reason := reason\<rparr>"

definition outlives_reservation :: "string list \<Rightarrow> (string \<Rightarrow> string list) \<Rightarrow> string \<times> observedTelemetryJob \<Rightarrow> bool" where
  "outlives_reservation seen groups kj \<longleftrightarrow> (case kj of (key, job) \<Rightarrow> let e = oj_event job in
     \<not> (key \<notin> set seen \<or> groups key \<noteq> [] \<or> (je_GroupID e = [] \<and> je_GroupIDs e = []) \<or>
        (je_TokenMode e \<noteq> TokenModeClaimed \<and> je_TokenMode e \<noteq> TokenModeManaged)))"

fun continue_jobs ::
  "JobEnv \<Rightarrow> time \<Rightarrow> (string \<times> observedTelemetryJob \<Rightarrow> bool) \<Rightarrow> (string \<times> observedTelemetryJob) list \<Rightarrow>
     (string \<times> observedTelemetryJob) list \<times> job_event list" where
  "continue_jobs env now ended [] = ([], [])"
| "continue_jobs env now ended ((key, job) # js) = (case continue_jobs env now ended js of (js', es) \<Rightarrow>
     if \<not> ended (key, job) then ((key, job) # js', es)
     else let e = oj_event job; e' = continued_event env now e in
       ((key, \<lparr>oj_event = e', oj_lastSeen = now, oj_missed = 0\<rparr>) # js',
        jobBatchEvent JobFinished (finished_event ''reservation_ended'' now e) now #
        jobBatchEvent JobStarted e' now # es))"

fun forget_jobs ::
  "string list \<Rightarrow> (string \<times> observedTelemetryJob) list \<Rightarrow> (string \<times> observedTelemetryJob) list \<times> job_event list" where
  "forget_jobs seen [] = ([], [])"
| "forget_jobs seen ((key, job) # js) = (case forget_jobs seen js of (js', es) \<Rightarrow>
     if key \<in> set seen then ((key, job) # js', es)
     else if oj_missed job + 1 < 2 then ((key, job\<lparr>oj_missed := oj_missed job + 1\<rparr>) # js', es)
     else (js', jobBatchEvent JobFinished (finished_event ''process_gone'' (oj_lastSeen job) (oj_event job))
            (oj_lastSeen job) # es))"

definition trackObservedTelemetryJobs ::
  "JobEnv \<Rightarrow> State \<Rightarrow> Decision list \<Rightarrow> time \<Rightarrow> Jobs \<Rightarrow> Jobs \<times> job_event list" where
  "trackObservedTelemetryJobs env st decisions now j =
     (if \<not> jb_enabled j then (j, [])
      else let t = fold (track_decision env st now) decisions
                 \<lparr>tr_jobs = j, tr_seen = [], tr_groups = (\<lambda>_. []), tr_events = []\<rparr>;
               j = tr_jobs t in
        case continue_jobs env now (outlives_reservation (tr_seen t) (tr_groups t)) (jb_observed j) of (js, es1) \<Rightarrow>
        (case forget_jobs (tr_seen t) js of (js, es2) \<Rightarrow>
          (j\<lparr>jb_observed := js\<rparr>, tr_events t @ es1 @ es2)))"

section \<open>Runtime metadata that was not cached\<close>

definition fill :: "string \<Rightarrow> string \<Rightarrow> string" where
  "fill dst src = (if dst = [] \<and> src \<noteq> [] then src else dst)"

definition merge_context :: "RuntimeContext \<Rightarrow> RuntimeContext \<Rightarrow> RuntimeContext" where
  "merge_context m v = m\<lparr>
     rc_DockerContainerName := fill (rc_DockerContainerName m) (rc_DockerContainerName v),
     rc_KubernetesNamespace := fill (rc_KubernetesNamespace m) (rc_KubernetesNamespace v),
     rc_KubernetesPodName := fill (rc_KubernetesPodName m) (rc_KubernetesPodName v),
     rc_KubernetesContainerName := fill (rc_KubernetesContainerName m) (rc_KubernetesContainerName v)\<rparr>"

text \<open>\<open>resolved\<close> says whether the lookup of an item was made before the context was cancelled.\<close>

definition complete_item ::
  "JobEnv \<Rightarrow> (string \<times> string \<Rightarrow> bool) \<Rightarrow> time \<Rightarrow> pendingRuntimeContext \<Rightarrow> Jobs \<times> job_event list \<Rightarrow> Jobs \<times> job_event list" where
  "complete_item env resolved now item = (\<lambda>(j, es).
     if \<not> resolved (pc_mode item, pc_containerID item) then (j, es)
     else case map_of (jb_observed j) (pc_key item) of None \<Rightarrow> (j, es)
     | Some job \<Rightarrow> (case je_RuntimeContext (oj_event job) of None \<Rightarrow> (j, es)
       | Some m \<Rightarrow>
         if rc_ContainerID m \<noteq> pc_containerID item then (j, es)
         else let v = resolveRuntimeMetadata env (pc_mode item) \<lparr>rc_UID = None, rc_Username = [],
                    rc_ContainerID = pc_containerID item, rc_DockerContainerName = [], rc_KubernetesNamespace = [],
                    rc_KubernetesPodName = [], rc_KubernetesContainerName = []\<rparr>;
                  m' = merge_context m v in
           if m' = m then (j, es)
           else let e = (oj_event job)\<lparr>je_RuntimeContext := Some m'\<rparr> in
             (j\<lparr>jb_observed := put (pc_key item) (job\<lparr>oj_event := e\<rparr>) (jb_observed j)\<rparr>,
              es @ [jobBatchEvent JobUpdated e now])))"

definition completePendingRuntimeContexts ::
  "JobEnv \<Rightarrow> (string \<times> string \<Rightarrow> bool) \<Rightarrow> time \<Rightarrow> Jobs \<Rightarrow> Jobs \<times> job_event list" where
  "completePendingRuntimeContexts env resolved now j =
     (let pending = jb_pending j; j = j\<lparr>jb_pending := []\<rparr> in
      if pending = [] \<or> je_Runtime env = None then (j, [])
      else fold (complete_item env resolved now) pending (j, []))"

end
