(* ===== verification/Cgroup.thy ===== *)
theory Cgroup
  imports Match
begin

text \<open>
  The control groups the daemon manages (\<open>internal/daemon/server.go\<close>): which paths it may touch,
  whether a group is empty, how a group is stopped and removed.

  The file system is outside the daemon. Every access is recorded in a history, and the answers of the
  kernel may depend on the whole history before the access: \<open>cg_read fs h p\<close> is what reading
  \<open>cgroup.procs\<close> of \<open>p\<close> gives after \<open>h\<close>.
\<close>

section \<open>Accesses\<close>

datatype fs_error = FsNotExist | FsError string

datatype cgroup_op =
    ReadProcs string
  | WriteKill string
  | Remove string
  | RemoveControl string

type_synonym cgroup_history = "cgroup_op list"

record CgroupFS =
  cg_read :: "cgroup_history \<Rightarrow> string \<Rightarrow> fs_error + string"
  cg_kill :: "cgroup_history \<Rightarrow> string \<Rightarrow> fs_error option"
  cg_remove :: "cgroup_history \<Rightarrow> string \<Rightarrow> fs_error option"
  cg_removeControl :: "cgroup_history \<Rightarrow> string \<Rightarrow> fs_error option"
  cg_plainDirectory :: "cgroup_history \<Rightarrow> string \<Rightarrow> bool"

text \<open>
  \<open>cg_plainDirectory\<close> says that the path is known not to be on a cgroup2 file system and that its
  \<open>cgroup.procs\<close> is a regular file: the fallback for a directory that only looks like a group.
\<close>

section \<open>Operations\<close>

definition cgroupEmpty :: "CgroupFS \<Rightarrow> string \<Rightarrow> cgroup_history \<Rightarrow> cgroup_history \<times> bool" where
  "cgroupEmpty fs p h = (h @ [ReadProcs p], case cg_read fs h p of
     Inl FsNotExist \<Rightarrow> True | Inl (FsError _) \<Rightarrow> False | Inr data \<Rightarrow> TrimSpace data = [])"

definition removeCgroup :: "CgroupFS \<Rightarrow> string \<Rightarrow> cgroup_history \<Rightarrow> cgroup_history \<times> fs_error option" where
  "removeCgroup fs p h =
     (let err = cg_remove fs h p; h = h @ [Remove p] in
      if err = None \<or> err = Some FsNotExist then (h, err)
      else if \<not> cg_plainDirectory fs h p then (h, err)
      else let err' = cg_removeControl fs h p; h = h @ [RemoveControl p] in
        if err' \<noteq> None then (h, err) else (h @ [Remove p], cg_remove fs h p))"

text \<open>
  \<open>filepath.Abs\<close> of a cleaned path: a relative one is taken from the working directory. Cleaning the
  relative part first makes no difference.
\<close>

definition filepath_Abs :: "fs_error + string \<Rightarrow> string \<Rightarrow> fs_error + string" where
  "filepath_Abs cwd p = (if prefix [slash] p then Inr (path_Clean p)
     else case cwd of Inl e \<Rightarrow> Inl e | Inr d \<Rightarrow> Inr (path_Clean (d @ [slash] @ p)))"

text \<open>\<open>filepath.Rel\<close> of two cleaned rooted paths; it cannot fail on them.\<close>

fun strip_common :: "'a list \<Rightarrow> 'a list \<Rightarrow> 'a list \<times> 'a list" where
  "strip_common (b # bs) (t # ts) = (if b = t then strip_common bs ts else (b # bs, t # ts))"
| "strip_common bs ts = (bs, ts)"

fun join_slash :: "string list \<Rightarrow> string" where
  "join_slash [] = []"
| "join_slash [e] = e"
| "join_slash (e # es) = e @ [slash] @ join_slash es"

definition filepath_Rel :: "string \<Rightarrow> string \<Rightarrow> string" where
  "filepath_Rel base targ = (if targ = base then ''.''
     else case strip_common (path_elements base) (path_elements targ) of
       (bs, ts) \<Rightarrow> join_slash (replicate (length bs) ''..'' @ ts))"

definition cgroupPathWithinRoot :: "fs_error + string \<Rightarrow> string \<Rightarrow> string \<Rightarrow> fs_error + bool" where
  "cgroupPathWithinRoot cwd root candidate =
     (case filepath_Abs cwd root of Inl e \<Rightarrow> Inl e
      | Inr root \<Rightarrow> (case filepath_Abs cwd candidate of Inl e \<Rightarrow> Inl e
      | Inr candidate \<Rightarrow> let relative = filepath_Rel root candidate in
          Inr (relative \<noteq> ''.'' \<and> relative \<noteq> [] \<and> relative \<noteq> ''..'' \<and> \<not> prefix ''../'' relative)))"

text \<open>The settings the operations use: the managed root, the working directory, dry-run mode.\<close>

record CgroupCfg =
  cc_root :: string
  cc_cwd :: "fs_error + string"
  cc_dryRun :: bool

datatype cgroup_error = CgFs fs_error | CgOutside string | CgDryRun string | CgDraining string

definition stopAndRemoveManagedCgroup ::
  "CgroupCfg \<Rightarrow> CgroupFS \<Rightarrow> string \<Rightarrow> cgroup_history \<Rightarrow> cgroup_history \<times> cgroup_error option" where
  "stopAndRemoveManagedCgroup cfg fs p h =
     (case cgroupPathWithinRoot (cc_cwd cfg) (cc_root cfg) p of
        Inl e \<Rightarrow> (h, Some (CgFs e))
      | Inr managed \<Rightarrow>
        if \<not> managed then (h, Some (CgOutside p))
        else (case cgroupEmpty fs p h of (h, vacant) \<Rightarrow>
          if cc_dryRun cfg then
            (if vacant then (case removeCgroup fs p h of (h, err) \<Rightarrow> (h, map_option CgFs err))
             else (h, Some (CgDryRun p)))
          else
            (case (if vacant then (h, None)
                   else case cg_kill fs h p of
                     Some e \<Rightarrow> (h @ [WriteKill p], Some (CgFs e))
                   | None \<Rightarrow> (case cgroupEmpty fs p (h @ [WriteKill p]) of
                       (h, vacant) \<Rightarrow> (h, if vacant then None else Some (CgDraining p)))) of
               (h, Some e) \<Rightarrow> (h, Some e)
             | (h, None) \<Rightarrow> (case removeCgroup fs p h of
                 (h, err) \<Rightarrow> (h, if err = None \<or> err = Some FsNotExist then None else map_option CgFs err)))))"

definition inactiveManagedCgroupReadyForPrune ::
  "CgroupCfg \<Rightarrow> CgroupFS \<Rightarrow> string \<Rightarrow> cgroup_history \<Rightarrow> cgroup_history \<times> bool" where
  "inactiveManagedCgroupReadyForPrune cfg fs p h =
     (case cgroupPathWithinRoot (cc_cwd cfg) (cc_root cfg) p of
        Inl e \<Rightarrow> (h, False)
      | Inr managed \<Rightarrow>
        if \<not> managed then (h, False)
        else (case cgroupEmpty fs p h of (h, vacant) \<Rightarrow>
          if \<not> vacant then (h, False)
          else (case removeCgroup fs p h of (h, err) \<Rightarrow> (h, err = None \<or> err = Some FsNotExist))))"

text \<open>
  The group of a finished bare run, as the two clean-up loops treat it: it must be empty, inside the
  root and removable.
\<close>

definition finishedCgroup :: "CgroupCfg \<Rightarrow> CgroupFS \<Rightarrow> string \<Rightarrow> cgroup_history \<Rightarrow> cgroup_history \<times> bool" where
  "finishedCgroup cfg fs p h =
     (case cgroupEmpty fs p h of (h, vacant) \<Rightarrow>
        if \<not> vacant then (h, False)
        else if cgroupPathWithinRoot (cc_cwd cfg) (cc_root cfg) p \<noteq> Inr True then (h, False)
        else (case removeCgroup fs p h of (h, err) \<Rightarrow> (h, err = None \<or> err = Some FsNotExist)))"

section \<open>Inside the root\<close>

definition proper_elements :: "string list \<Rightarrow> bool" where
  "proper_elements es \<longleftrightarrow> plain_elements es \<and> ''.'' \<notin> set es \<and> ''..'' \<notin> set es"

lemma clean_elements_proper:
  "proper_elements stack \<Longrightarrow> \<forall>e \<in> set es. slash \<notin> set e \<Longrightarrow> proper_elements (clean_elements stack es)"
proof (induction stack es rule: clean_elements.induct)
  case (2 stack e es)
  have "proper_elements (tl stack)" using 2(4) by (cases stack) (auto simp: proper_elements_def plain_elements_def)
  moreover have "proper_elements (e # stack)" if "e \<noteq> []" "e \<noteq> ''.''" "e \<noteq> ''..''"
    using 2(4,5) that by (auto simp: proper_elements_def plain_elements_def)
  moreover have "\<forall>e \<in> set es. slash \<notin> set e" using 2(5) by simp
  ultimately show ?case using 2(1-4) by simp
qed (simp add: proper_elements_def plain_elements_def)

lemma path_Clean_proper: "\<exists>es. proper_elements es \<and> path_Clean p = join_path es"
  using clean_elements_proper [of "[]" "Split slash p"] Split_elements_no_sep
  by (auto simp: path_Clean_def proper_elements_def plain_elements_def)

lemma filepath_Abs_proper: "filepath_Abs cwd p = Inr a \<Longrightarrow> \<exists>es. proper_elements es \<and> a = join_path es"
  using path_Clean_proper by (auto simp: filepath_Abs_def split: if_splits sum.splits)

lemma strip_common_prefix: "fst (strip_common bs ts) = [] \<longleftrightarrow> prefix bs ts"
  by (induction bs ts rule: strip_common.induct) auto

lemma strip_common_rest: "prefix bs ts \<Longrightarrow> ts = bs @ snd (strip_common bs ts)"
  by (induction bs ts rule: strip_common.induct) auto

lemma strip_common_set: "set (snd (strip_common bs ts)) \<subseteq> set ts"
  by (induction bs ts rule: strip_common.induct) auto

text \<open>A path below the root does not look like a way up; a way up does.\<close>

lemma join_slash_down:
  assumes "proper_elements ts" "ts \<noteq> []"
  shows "join_slash ts \<noteq> ''.'' \<and> join_slash ts \<noteq> [] \<and> join_slash ts \<noteq> ''..'' \<and> \<not> prefix ''../'' (join_slash ts)"
proof -
  from assms(2) obtain e es where ts: "ts = e # es" by (cases ts) auto
  have e: "e \<noteq> []" "e \<noteq> ''.''" "e \<noteq> ''..''" "slash \<notin> set e"
    using assms(1) ts by (auto simp: proper_elements_def plain_elements_def)
  obtain r where j: "join_slash ts = e @ r" "r = [] \<or> hd r = slash" using ts by (cases es) auto
  have first: "takeWhile (\<lambda>c. c \<noteq> slash) (join_slash ts) = e"
    using j e(4) by (cases r) (auto simp: takeWhile_tail takeWhile_plain)
  have other: "takeWhile (\<lambda>c. c \<noteq> slash) x = x" if "x \<in> {''.'', ''..''}" for x :: string
    using that by (auto simp: slash_def)
  have climb: "takeWhile (\<lambda>c. c \<noteq> slash) x = ''..''" if "prefix ''../'' x" for x :: string
    using that by (auto simp: prefix_def slash_def)
  show ?thesis
  proof (intro conjI notI)
    assume "prefix ''../'' (join_slash ts)"
    from climb [OF this] first e(3) show False by simp
  next
    assume "join_slash ts = ''.''" with first e(2) other [of "''.''"] show False by simp
  next
    assume "join_slash ts = ''..''" with first e(3) other [of "''..''"] show False by simp
  next
    assume "join_slash ts = []" with j(1) e(1) show False by simp
  qed
qed

lemma join_slash_up: "0 < n \<Longrightarrow> join_slash (replicate n ''..'' @ ts) = ''..'' \<or> prefix ''../'' (join_slash (replicate n ''..'' @ ts))"
proof -
  assume "0 < n"
  then obtain m where "n = Suc m" by (cases n) auto
  then show ?thesis by (cases "replicate m ''..'' @ ts") (auto simp: slash_def)
qed

lemma within_root_prefix:
  assumes "filepath_Abs cwd root = Inr r" "filepath_Abs cwd candidate = Inr c"
  shows "cgroupPathWithinRoot cwd root candidate = Inr (strict_prefix (path_elements r) (path_elements c))"
proof -
  from filepath_Abs_proper [OF assms(1)] filepath_Abs_proper [OF assms(2)] obtain rs cs where
    p: "proper_elements rs" "r = join_path rs" "proper_elements cs" "c = join_path cs" by blast
  then have el: "path_elements r = rs" "path_elements c = cs" by (simp_all add: proper_elements_def path_elements_join)
  have eq: "c = r \<longleftrightarrow> cs = rs" using el p(2,4) by metis
  obtain bs ts where s: "strip_common rs cs = (bs, ts)" by fastforce
  note sc = strip_common_prefix [of rs cs] strip_common_rest [of rs cs] strip_common_set [of rs cs]
  define rel where "rel = filepath_Rel r c"
  have "(rel \<noteq> ''.'' \<and> rel \<noteq> [] \<and> rel \<noteq> ''..'' \<and> \<not> prefix ''../'' rel) \<longleftrightarrow> strict_prefix rs cs"
  proof (cases "cs = rs")
    case True
    with eq show ?thesis by (simp add: rel_def filepath_Rel_def)
  next
    case False
    then have rel: "rel = join_slash (replicate (length bs) ''..'' @ ts)"
      using eq by (simp add: rel_def filepath_Rel_def el s)
    show ?thesis
    proof (cases "bs = []")
      case True
      with s sc have pre: "prefix rs cs" "cs = rs @ ts" "set ts \<subseteq> set cs" by auto
      with False have "ts \<noteq> []" by auto
      moreover from pre(3) p(3) have "proper_elements ts" by (auto simp: proper_elements_def plain_elements_def)
      ultimately show ?thesis using join_slash_down pre(1) False rel True by (auto simp: strict_prefix_def)
    next
      case up: False
      with s sc(1) have "\<not> prefix rs cs" by simp
      with join_slash_up [of "length bs" ts] up rel show ?thesis by (auto simp: strict_prefix_def)
    qed
  qed
  with assms el show ?thesis by (simp add: cgroupPathWithinRoot_def rel_def Let_def)
qed

text \<open>
  the daemon manages exactly the control groups strictly below its configured root. The check on
  the relative path holds when, element by element, the cleaned absolute path extends the cleaned
  absolute root: the root itself, its siblings and every path that climbs out of it are refused.
\<close>

theorem within_root_strict_prefix:
  assumes "filepath_Abs cwd root = Inr r" "filepath_Abs cwd candidate = Inr c"
  shows "cgroupPathWithinRoot cwd root candidate = Inr (strict_prefix (path_elements r) (path_elements c))"
  using assms by (rule within_root_prefix)

theorem within_root_strict_prefix_witness:
  "cgroupPathWithinRoot (Inr ''/'') ''/sys/fs/cgroup/gpu'' ''/sys/fs/cgroup/gpu/../gpu/a'' = Inr True \<and>
   cgroupPathWithinRoot (Inr ''/'') ''/sys/fs/cgroup/gpu'' ''/sys/fs/cgroup/gpux/a'' = Inr False"
proof -
  have r: "filepath_Abs (Inr ''/'') ''/sys/fs/cgroup/gpu'' = Inr ''/sys/fs/cgroup/gpu''" by code_simp
  have a: "filepath_Abs (Inr ''/'') ''/sys/fs/cgroup/gpu/../gpu/a'' = Inr ''/sys/fs/cgroup/gpu/a''" by code_simp
  have b: "filepath_Abs (Inr ''/'') ''/sys/fs/cgroup/gpux/a'' = Inr ''/sys/fs/cgroup/gpux/a''" by code_simp
  have "strict_prefix (path_elements ''/sys/fs/cgroup/gpu'') (path_elements ''/sys/fs/cgroup/gpu/a'')" by code_simp
  moreover have "\<not> strict_prefix (path_elements ''/sys/fs/cgroup/gpu'') (path_elements ''/sys/fs/cgroup/gpux/a'')"
    by code_simp
  ultimately show ?thesis
    using within_root_strict_prefix [OF r a] within_root_strict_prefix [OF r b] by simp
qed

section \<open>Confinement\<close>

text \<open>
  An access is allowed when it only reads, or when its path is inside the root; a group is stopped
  only outside dry-run mode. The operations extend the history by allowed accesses.
\<close>

fun op_allowed :: "CgroupCfg \<Rightarrow> cgroup_op \<Rightarrow> bool" where
  "op_allowed cfg (ReadProcs p) = True"
| "op_allowed cfg (WriteKill p) = (\<not> cc_dryRun cfg \<and> cgroupPathWithinRoot (cc_cwd cfg) (cc_root cfg) p = Inr True)"
| "op_allowed cfg (Remove p) = (cgroupPathWithinRoot (cc_cwd cfg) (cc_root cfg) p = Inr True)"
| "op_allowed cfg (RemoveControl p) = (cgroupPathWithinRoot (cc_cwd cfg) (cc_root cfg) p = Inr True)"

definition confined :: "CgroupCfg \<Rightarrow> cgroup_history \<Rightarrow> cgroup_history \<Rightarrow> bool" where
  "confined cfg h h' \<longleftrightarrow> (\<exists>ops. h' = h @ ops \<and> list_all (op_allowed cfg) ops)"

lemma confined_refl [simp, intro]: "confined cfg h h"
  by (simp add: confined_def)

lemma confined_trans: "confined cfg h h' \<Longrightarrow> confined cfg h' h'' \<Longrightarrow> confined cfg h h''"
  by (auto simp: confined_def)

text \<open>An operation that only makes allowed accesses.\<close>

locale cgroup_operation =
  fixes cfg :: CgroupCfg and run :: "cgroup_history \<Rightarrow> cgroup_history \<times> 'r"
  assumes run_confined: "confined cfg h (fst (run h))"
begin

lemma run_chain: "confined cfg g h \<Longrightarrow> confined cfg g (fst (run h))"
  using run_confined confined_trans by blast

lemma all_allowed: "list_all (op_allowed cfg) h \<Longrightarrow> list_all (op_allowed cfg) (fst (run h))"
  using run_confined [of h] by (auto simp: confined_def)

end

lemma cgroupEmpty_confined: "confined cfg h (fst (cgroupEmpty fs p h))"
  by (simp add: confined_def cgroupEmpty_def)

lemma removeCgroup_confined:
  "cgroupPathWithinRoot (cc_cwd cfg) (cc_root cfg) p = Inr True \<Longrightarrow> confined cfg h (fst (removeCgroup fs p h))"
  by (simp add: confined_def removeCgroup_def Let_def)

interpretation finished_cg: cgroup_operation cfg "finishedCgroup cfg fs p"
proof
  fix h
  obtain h1 e where c: "cgroupEmpty fs p h = (h1, e)" by fastforce
  have 1: "confined cfg h h1" using cgroupEmpty_confined [of cfg h fs p] c by simp
  show "confined cfg h (fst (finishedCgroup cfg fs p h))"
    using 1 removeCgroup_confined [of cfg p h1 fs] confined_trans [OF 1]
    by (auto simp: finishedCgroup_def c split: prod.splits)
qed

interpretation prune_cg: cgroup_operation cfg "inactiveManagedCgroupReadyForPrune cfg fs p"
proof
  fix h
  obtain h1 e where c: "cgroupEmpty fs p h = (h1, e)" by fastforce
  have 1: "confined cfg h h1" using cgroupEmpty_confined [of cfg h fs p] c by simp
  show "confined cfg h (fst (inactiveManagedCgroupReadyForPrune cfg fs p h))"
    using 1 removeCgroup_confined [of cfg p h1 fs] confined_trans [OF 1]
    by (auto simp: inactiveManagedCgroupReadyForPrune_def c split: prod.splits sum.splits)
qed

interpretation stop_cg: cgroup_operation cfg "stopAndRemoveManagedCgroup cfg fs p"
proof
  fix h
  obtain h1 e where c: "cgroupEmpty fs p h = (h1, e)" by fastforce
  obtain h2 e2 where c2: "cgroupEmpty fs p (h1 @ [WriteKill p]) = (h2, e2)" by fastforce
  have 1: "confined cfg h h1" using cgroupEmpty_confined [of cfg h fs p] c by simp
  have 2: "confined cfg (h1 @ [WriteKill p]) h2" using cgroupEmpty_confined [of cfg "h1 @ [WriteKill p]" fs p] c2 by simp
  show "confined cfg h (fst (stopAndRemoveManagedCgroup cfg fs p h))"
  proof (cases "cgroupPathWithinRoot (cc_cwd cfg) (cc_root cfg) p = Inr True")
    case True
    note rm = removeCgroup_confined [OF True, of _ fs]
    have k: "\<not> cc_dryRun cfg \<Longrightarrow> confined cfg h1 (h1 @ [WriteKill p])" using True by (simp add: confined_def)
    have 3: "\<not> cc_dryRun cfg \<Longrightarrow> confined cfg h h2" using confined_trans [OF confined_trans [OF 1 k] 2] .
    show ?thesis
      using 1 k 3 confined_trans [OF 1] confined_trans [OF 3] rm [of h1] rm [of h2]
      by (auto simp: stopAndRemoveManagedCgroup_def True c c2 split: prod.splits option.splits)
  next
    case False
    then show ?thesis by (auto simp: stopAndRemoveManagedCgroup_def split: sum.splits)
  qed
qed

end
