(* ===== verification/Daemon_Base.thy ===== *)
theory Daemon_Base
  imports Store_Machine Evict Terminations Jobs Cgroup
begin

text \<open>
  The daemon's state, the world its handlers run in, and the checks on requests
  (\<open>internal/daemon/server.go\<close>). A handler is a function from a world and a node to a node and an
  answer. The world gives the answers of everything outside the node: \<open>wo_env k\<close> is the environment
  of the \<open>k\<close>-th call of the store, \<open>wo_now k\<close> the clock when it is read for the \<open>k\<close>-th time; the
  numbers in a handler follow the order of the source. Handlers that hold \<open>enforceMu\<close> exclude each
  other, so a handler runs on one node from start to end.

  The two streams a node writes besides its state are kept as lists: the telemetry events handed to
  the outbox and the events handed to the audit log.
\<close>

section \<open>State\<close>

datatype srv_error =
    SE_store store_error
  | SE_enf enf_error
  | SE_msg string
  | SE_too_long string
  | SE_gpu_range
  | SE_gpu_duplicate int
  | SE_gpu_inventory int int
  | SE_reserved int string
  | SE_leased int string
  | SE_busy int
  | SE_sample enf_error
  | SE_resolve enf_error
  | SE_identity int

datatype node_event =
    EmitReservation Token "Reservation list"
  | EmitAuthorization string Authorization
  | EmitAuthorizationEnded string string time
  | EmitReservationEnded string time string
  | EmitJob job_event

record Node =
  nd_store :: Store
  nd_evictionClean :: "string \<rightharpoonup> int"
  nd_terminations :: "termination_entry list"
  nd_lastKillError :: string
  nd_lastKillErrorAt :: time
  nd_lastGPUError :: string
  nd_lastGPUErrorAt :: time
  nd_jobs :: Jobs
  nd_cgroups :: cgroup_history
  nd_events :: "node_event list"
  nd_audits :: "AuditEvent list"

record World =
  wo_env :: "nat \<Rightarrow> StoreEnv"
  wo_now :: "nat \<Rightarrow> time"
  wo_GPUCount :: int
  wo_authorizer :: Authorizer
  wo_ctx :: ctx
  wo_FreshProcesses :: "enf_error + GPUProcess list"
  wo_Processes :: "enf_error + GPUProcess list"
  wo_newID :: string
  wo_ResolveDockerContainer :: "string \<Rightarrow> enf_error + string"
  wo_dockerBusy :: bool
  wo_DockerContainers :: "(enf_error + (string \<times> string list) list) option"
  wo_lookupUID :: "string \<Rightarrow> srv_error + int"
  wo_hasCrictl :: bool
  wo_hasKubectl :: bool
  wo_jobs :: JobEnv
  wo_cgroup :: CgroupCfg
  wo_fs :: CgroupFS

record peer =
  pr_PID :: int
  pr_UID :: int
  pr_GID :: int
  pr_Groups :: "nat list"

type_synonym 'r handler = "Node \<Rightarrow> Node \<times> (srv_error + 'r)"

section \<open>Control flow\<close>

text \<open>An early return with an error; a call of the store whose error is returned; the daemon's clock.\<close>

definition check :: "srv_error option \<Rightarrow> 'r handler \<Rightarrow> 'r handler" where
  "check e k n = (case e of Some e \<Rightarrow> (n, Inl e) | None \<Rightarrow> k n)"

definition store_call :: "(Store \<Rightarrow> 'a result) \<Rightarrow> ('a \<Rightarrow> 'r handler) \<Rightarrow> 'r handler" where
  "store_call f k n = (case f (nd_store n) of
     (s, Inl e) \<Rightarrow> (n\<lparr>nd_store := s\<rparr>, Inl (SE_store e)) | (s, Inr r) \<Rightarrow> k r (n\<lparr>nd_store := s\<rparr>))"

definition answer :: "'r \<Rightarrow> 'r handler" where
  "answer r n = (n, Inr r)"

definition refuse :: "srv_error \<Rightarrow> 'r handler" where
  "refuse e n = (n, Inl e)"

definition emit :: "node_event list \<Rightarrow> Node \<Rightarrow> Node" where
  "emit es n = n\<lparr>nd_events := nd_events n @ es\<rparr>"

definition append_audits :: "AuditEvent list \<Rightarrow> Node \<Rightarrow> Node" where
  "append_audits es n = n\<lparr>nd_audits := nd_audits n @ es\<rparr>"

text \<open>A handler succeeds exactly when every step of it does.\<close>

lemma check_Inr: "check e k n = (n', Inr r) \<longleftrightarrow> e = None \<and> k n = (n', Inr r)"
  by (cases e) (simp_all add: check_def)

lemma store_call_Inr: "store_call f k n = (n', Inr r) \<longleftrightarrow>
    (\<exists>s x. f (nd_store n) = (s, Inr x) \<and> k x (n\<lparr>nd_store := s\<rparr>) = (n', Inr r))"
  by (auto simp: store_call_def split: prod.splits sum.splits)

lemma answer_Inr: "answer x n = (n', Inr r) \<longleftrightarrow> n' = n \<and> r = x"
  by (auto simp: answer_def)

lemma refuse_Inr: "refuse e n \<noteq> (n', Inr r)"
  by (simp add: refuse_def)

lemmas handler_Inr = check_Inr store_call_Inr answer_Inr refuse_Inr
lemmas handler_defs = check_def store_call_def answer_def refuse_def

definition authorizer_at :: "World \<Rightarrow> nat \<Rightarrow> Authorizer" where
  "authorizer_at w k = (wo_authorizer w)\<lparr>az_Now := wo_now w k, az_activeTokens := None\<rparr>"

section \<open>Checks on requests\<close>

abbreviation (input) maxGPUsPerRequest :: nat where "maxGPUsPerRequest \<equiv> 64"
abbreviation (input) maxRequestValue :: nat where "maxRequestValue \<equiv> 4096"

definition validateRequestValue :: "string \<Rightarrow> string \<Rightarrow> srv_error option" where
  "validateRequestValue label v = (if length v > maxRequestValue then Some (SE_too_long label) else None)"

definition hasWildcard :: "string \<Rightarrow> bool" where
  "hasWildcard v \<longleftrightarrow> CHR ''*'' \<in> set v"

fun gpu_scan :: "int list \<Rightarrow> int list \<Rightarrow> srv_error option" where
  "gpu_scan seen [] = None"
| "gpu_scan seen (g # gs) =
     (if g < 0 \<or> g > maxGPUIndex then Some SE_gpu_range
      else if g \<in> set seen then Some (SE_gpu_duplicate g)
      else gpu_scan (g # seen) gs)"

definition validateGPUs :: "int list \<Rightarrow> srv_error option" where
  "validateGPUs gpus =
     (if gpus = [] then Some (SE_msg ''at least one gpu is required'')
      else if length gpus > maxGPUsPerRequest then Some (SE_msg ''at most 64 gpus may be requested'')
      else gpu_scan [] gpus)"

definition validateConfiguredGPUs :: "int \<Rightarrow> int list \<Rightarrow> srv_error option" where
  "validateConfiguredGPUs gpuCount gpus =
     (case validateGPUs gpus of Some e \<Rightarrow> Some e
      | None \<Rightarrow> if gpuCount > 0 then (case find (\<lambda>g. g \<ge> gpuCount) gpus of
            Some g \<Rightarrow> Some (SE_gpu_inventory g gpuCount) | None \<Rightarrow> None) else None)"

lemma gpu_scan_None: "gpu_scan seen gs = None \<longleftrightarrow> (\<forall>g \<in> set gs. 0 \<le> g \<and> g \<le> maxGPUIndex) \<and> distinct gs \<and>
    set gs \<inter> set seen = {}"
  by (induction gs arbitrary: seen) auto

lemma validateGPUs_None:
  "validateGPUs gpus = None \<longleftrightarrow> gpus \<noteq> [] \<and> length gpus \<le> maxGPUsPerRequest \<and> distinct gpus \<and>
     (\<forall>g \<in> set gpus. 0 \<le> g \<and> g \<le> maxGPUIndex)"
  by (auto simp: validateGPUs_def gpu_scan_None not_less)

lemma find_report_None: "(case find P xs of Some x \<Rightarrow> Some (f x) | None \<Rightarrow> None) = None \<longleftrightarrow> (\<forall>x \<in> set xs. \<not> P x)"
  by (induction xs) auto

lemma validateConfiguredGPUs_None:
  "validateConfiguredGPUs gpuCount gpus = None \<longleftrightarrow> gpus \<noteq> [] \<and> length gpus \<le> maxGPUsPerRequest \<and> distinct gpus \<and>
     (\<forall>g \<in> set gpus. 0 \<le> g \<and> g \<le> maxGPUIndex) \<and> (gpuCount > 0 \<longrightarrow> (\<forall>g \<in> set gpus. g < gpuCount))"
  using validateGPUs_None [of gpus]
  by (cases "validateGPUs gpus") (auto simp: validateConfiguredGPUs_def find_report_None not_le)

lemma validateRequestValue_None [simp]: "validateRequestValue label v = None \<longleftrightarrow> length v \<le> maxRequestValue"
  by (auto simp: validateRequestValue_def)

section \<open>Busy GPUs\<close>

definition busy_decision :: "GPUProcess \<Rightarrow> ProcInfo \<Rightarrow> Decision" where
  "busy_decision g info = zero_Decision\<lparr>dc_Process := g, dc_Info := info, dc_Action := ''busy'',
     dc_Reason := ''gpu already has non-bypassed process''\<rparr>"

fun BusyProcessesForGPU ::
  "Authorizer \<Rightarrow> ctx \<Rightarrow> State \<Rightarrow> GPUProcess list \<Rightarrow> int \<Rightarrow> nat \<Rightarrow> nat \<times> Decision list \<times> enf_error option" where
  "BusyProcessesForGPU a ctx st [] gpu n = (n, [], None)"
| "BusyProcessesForGPU a ctx st (g # gs) gpu n =
     (case ctx n of Some e \<Rightarrow> (Suc n, [], Some e)
      | None \<Rightarrow>
        (if gp_GPU g \<noteq> gpu \<or> \<not> usesGPUResources g then BusyProcessesForGPU a ctx st gs gpu (Suc n)
         else case az_Proc a of None \<Rightarrow> BusyProcessesForGPU a ctx st gs gpu (Suc n)
         | Some read \<Rightarrow>
           (case read (gp_PID g) of Inl _ \<Rightarrow> BusyProcessesForGPU a ctx st gs gpu (Suc n)
            | Inr info \<Rightarrow>
                if BypassMatch (Bypasses st) info (az_Now a) (az_BootID a)
                then BusyProcessesForGPU a ctx st gs gpu (Suc n)
                else (case BusyProcessesForGPU a ctx st gs gpu (Suc n) of
                        (n', busy, err) \<Rightarrow> (n', busy_decision g info # busy, err)))))"

text \<open>A process that keeps a GPU from being reserved now: it uses the GPU, is known and not bypassed.\<close>

definition occupies :: "Authorizer \<Rightarrow> State \<Rightarrow> int \<Rightarrow> GPUProcess \<Rightarrow> bool" where
  "occupies a st gpu g \<longleftrightarrow> gp_GPU g = gpu \<and> usesGPUResources g \<and>
     (\<exists>read info. az_Proc a = Some read \<and> read (gp_PID g) = Inr info \<and>
        \<not> BypassMatch (Bypasses st) info (az_Now a) (az_BootID a))"

lemma BusyProcessesForGPU_complete:
  "BusyProcessesForGPU a ctx st gs gpu n = (n', busy, None) \<Longrightarrow>
     map dc_Process busy = filter (occupies a st gpu) gs"
  by (induction gs arbitrary: n n' busy)
    (auto simp: occupies_def busy_decision_def split: option.splits if_splits sum.splits prod.splits)

fun BusyProcessesForLease ::
  "Authorizer \<Rightarrow> ctx \<Rightarrow> State \<Rightarrow> GPUProcess list \<Rightarrow> Lease \<Rightarrow> nat \<Rightarrow> nat \<times> Decision list \<times> enf_error option" where
  "BusyProcessesForLease a ctx st [] l n = (n, [], None)"
| "BusyProcessesForLease a ctx st (g # gs) l n =
     (case ctx n of Some e \<Rightarrow> (Suc n, [], Some e)
      | None \<Rightarrow>
        (if gp_GPU g \<noteq> ls_GPU l \<or> \<not> usesGPUResources g then BusyProcessesForLease a ctx st gs l (Suc n)
         else case az_Proc a of None \<Rightarrow> BusyProcessesForLease a ctx st gs l (Suc n)
         | Some read \<Rightarrow>
           (case read (gp_PID g) of Inl _ \<Rightarrow> BusyProcessesForLease a ctx st gs l (Suc n)
            | Inr info \<Rightarrow>
                if BypassMatch (Bypasses st) info (az_Now a) (az_BootID a)
                then BusyProcessesForLease a ctx st gs l (Suc n)
                else (case (if ls_Mode l \<noteq> [] then leaseMatchesChecked a l info (az_Now a) else Inr False) of
                  Inl e \<Rightarrow> (Suc n, [], Some e)
                | Inr matches \<Rightarrow>
                    if matches then BusyProcessesForLease a ctx st gs l (Suc n)
                    else (case BusyProcessesForLease a ctx st gs l (Suc n) of
                        (n', busy, err) \<Rightarrow> (n', busy_decision g info # busy, err))))))"

end
