(* ===== verification/Daemon_Register.thy ===== *)
theory Daemon_Register
  imports Daemon_Base
begin

text \<open>
  Registration of keys and reservations by the daemon: the \<open>register\<close> case of \<open>dispatch\<close> with the
  busy check it runs before it writes (\<open>internal/daemon/server.go\<close>).
\<close>

section \<open>May the window be reserved?\<close>

text \<open>The sample is taken before the lock, when the window is already open.\<close>

definition freshProcessSample ::
  "World \<Rightarrow> time \<Rightarrow> int list \<Rightarrow> time \<Rightarrow> time \<Rightarrow> (enf_error + GPUProcess list) option" where
  "freshProcessSample w requested gpus startsAt expiresAt =
     (if validateConfiguredGPUs (wo_GPUCount w) gpus \<noteq> None then None
      else let startsAt = (if time_IsZero startsAt then requested else startsAt) in
        if requested < startsAt \<or> \<not> requested < expiresAt then None else Some (wo_FreshProcesses w))"

definition reserved_conflict :: "State \<Rightarrow> int list \<Rightarrow> time \<Rightarrow> time \<Rightarrow> srv_error option" where
  "reserved_conflict st gpus startsAt expiresAt =
     (case find (\<lambda>r. rs_GPU r \<in> set gpus \<and> ReservationOverlaps r startsAt expiresAt) (Reservations st) of
        Some r \<Rightarrow> Some (SE_reserved (rs_GPU r) (rs_ID r)) | None \<Rightarrow> None)"

definition lease_conflict :: "State \<Rightarrow> int list \<Rightarrow> time \<Rightarrow> time \<Rightarrow> srv_error option" where
  "lease_conflict st gpus startsAt now =
     (case find (\<lambda>l. ls_GPU l \<in> set gpus \<and> ls_Active l \<and> now < ls_ExpiresAt l \<and> startsAt < ls_ExpiresAt l) (Leases st) of
        Some l \<Rightarrow> Some (SE_leased (ls_GPU l) (ls_ID l)) | None \<Rightarrow> None)"

fun busy_scan :: "World \<Rightarrow> nat \<Rightarrow> State \<Rightarrow> GPUProcess list \<Rightarrow> int list \<Rightarrow> nat \<Rightarrow> srv_error option" where
  "busy_scan w k st ps [] n = None"
| "busy_scan w k st ps (g # gs) n = (case BusyProcessesForGPU (authorizer_at w k) (wo_ctx w) st ps g n of
     (n', busy, Some e) \<Rightarrow> Some (SE_enf e)
   | (n', busy, None) \<Rightarrow> if busy \<noteq> [] then Some (SE_busy g) else busy_scan w (Suc k) st ps gs n')"

text \<open>Everything the check decides once it has the snapshot; \<open>k\<close> is the number of its clock read.\<close>

definition window_error ::
  "World \<Rightarrow> nat \<Rightarrow> int list \<Rightarrow> time \<Rightarrow> time \<Rightarrow> (enf_error + GPUProcess list) option \<Rightarrow> State \<Rightarrow> srv_error option" where
  "window_error w k gpus startsAt expiresAt presample st =
     (let now = wo_now w k in
      case reserved_conflict st gpus startsAt expiresAt of Some e \<Rightarrow> Some e
      | None \<Rightarrow>
      (case lease_conflict st gpus startsAt now of Some e \<Rightarrow> Some e
      | None \<Rightarrow>
        if now < startsAt \<or> \<not> now < expiresAt then None
        else (case (case presample of Some r \<Rightarrow> r | None \<Rightarrow> wo_Processes w) of
           Inl e \<Rightarrow> Some (SE_sample e)
         | Inr processes \<Rightarrow> busy_scan w (Suc k) st processes gpus 0)))"

definition ensureGPUsCanReserveWindowSampled ::
  "World \<Rightarrow> int list \<Rightarrow> time \<Rightarrow> time \<Rightarrow> (enf_error + GPUProcess list) option \<Rightarrow> 'r handler \<Rightarrow> 'r handler" where
  "ensureGPUsCanReserveWindowSampled w gpus startsAt0 expiresAt presample k =
     (let startsAt = (if time_IsZero startsAt0 then wo_now w 1 else startsAt0) in
      check (validateConfiguredGPUs (wo_GPUCount w) gpus)
      (check (if \<not> startsAt < expiresAt then Some (SE_msg ''reservation end must be after start'') else None)
      (check (if \<not> wo_now w 2 < expiresAt then Some (SE_msg ''reservation end must be in the future'') else None)
      (store_call (EnforcementSnapshot (wo_env w 1)) (\<lambda>st.
       check (window_error w 2 gpus startsAt expiresAt presample st) k)))))"

section \<open>The register request\<close>

record RegisterArgs =
  ra_RootKey :: string
  ra_Mode :: string
  ra_Name :: string
  ra_Purpose :: string
  ra_ExternalSessionID :: string
  ra_UserKeyID :: string
  ra_GPUs :: "int list"
  ra_TTL :: string
  ra_StartsAt :: "time option"
  ra_ExpiresAt :: "time option"

record RegisterResult =
  rr_Token :: string
  rr_TokenID :: string
  rr_GroupID :: string
  rr_Mode :: string
  rr_ReservationIDs :: "string list"
  rr_GPUs :: "int list"
  rr_StartsAt :: "time option"
  rr_ExpiresAt :: "time option"

definition register_window :: "World \<Rightarrow> RegisterArgs \<Rightarrow> srv_error + time \<times> time" where
  "register_window w args =
     (let now = wo_now w 0;
          startsAt = (case ra_StartsAt args of Some t \<Rightarrow> t | None \<Rightarrow> now);
          expiresAt = (case ra_ExpiresAt args of Some t \<Rightarrow> t | None \<Rightarrow> 0) in
      case (if time_IsZero expiresAt
            then (case ParseTTL (wo_env w 0) (ra_TTL args) DefaultHardTTL MaxHardTTL of
                    Inl e \<Rightarrow> Inl (SE_store e) | Inr ttl \<Rightarrow> Inr (startsAt + ttl))
            else Inr expiresAt) of
        Inl e \<Rightarrow> Inl e
      | Inr expiresAt \<Rightarrow>
          if \<not> now < expiresAt then Inl (SE_msg ''reservation end must be in the future'')
          else Inr (startsAt, expiresAt))"

definition reserved_result :: "string \<Rightarrow> Token \<Rightarrow> string \<Rightarrow> Reservation list \<Rightarrow> time \<Rightarrow> time \<Rightarrow> RegisterResult" where
  "reserved_result secret token groupID rs startsAt expiresAt = \<lparr>rr_Token = secret, rr_TokenID = tk_ID token,
     rr_GroupID = (if groupID = [] then tk_ID token else groupID), rr_Mode = tk_Mode token,
     rr_ReservationIDs = map rs_ID rs, rr_GPUs = map rs_GPU rs,
     rr_StartsAt = timePtrIfSet startsAt, rr_ExpiresAt = timePtrIfSet expiresAt\<rparr>"

definition emit_reservation :: "Token \<Rightarrow> Reservation list \<Rightarrow> node_event list" where
  "emit_reservation token rs = (if rs = [] then [] else [EmitReservation token rs])"

definition write_reservations :: "World \<Rightarrow> RegisterArgs \<Rightarrow> time \<Rightarrow> time \<Rightarrow> RegisterResult handler" where
  "write_reservations w args startsAt expiresAt =
     (if TrimSpace (ra_UserKeyID args) \<noteq> [] then
        store_call (RegisterManagedReservations (wo_env w 2) (ra_RootKey args) (ra_UserKeyID args) (ra_Purpose args)
            (ra_ExternalSessionID args) (ra_GPUs args) startsAt expiresAt (wo_now w 0))
          (\<lambda>(token, groupID, rs). \<lambda>n. (emit (emit_reservation token rs) n,
             Inr (reserved_result [] token groupID rs startsAt expiresAt)))
      else store_call (ManagedKeysEnabled (wo_env w 2)) (\<lambda>managed.
        if managed then refuse (SE_msg ''user_key_id is required; keys are managed by the web gateway'')
        else store_call (RegisterScheduledReservationsWithSession (wo_env w 3) (ra_RootKey args) (ra_Name args)
            (ra_Purpose args) (ra_ExternalSessionID args) (ra_GPUs args) startsAt expiresAt (wo_now w 0))
          (\<lambda>(secret, token, rs). \<lambda>n. (emit (emit_reservation token rs) n,
             Inr (reserved_result secret token [] rs startsAt expiresAt)))))"

definition register_reserved :: "World \<Rightarrow> RegisterArgs \<Rightarrow> RegisterResult handler" where
  "register_reserved w args =
     check (validateConfiguredGPUs (wo_GPUCount w) (ra_GPUs args))
     (case register_window w args of Inl e \<Rightarrow> refuse e
      | Inr (startsAt, expiresAt) \<Rightarrow>
        let presample = freshProcessSample w (wo_now w 0) (ra_GPUs args) startsAt expiresAt in
        ensureGPUsCanReserveWindowSampled w (ra_GPUs args) startsAt expiresAt presample
          (write_reservations w args startsAt expiresAt))"

definition register_claimed :: "World \<Rightarrow> RegisterArgs \<Rightarrow> RegisterResult handler" where
  "register_claimed w args =
     store_call (ManagedKeysEnabled (wo_env w 1)) (\<lambda>managed.
       if managed then refuse (SE_msg ''claim keys are managed by the web gateway'')
       else store_call (RegisterSoftToken (wo_env w 2) (ra_RootKey args) (ra_Name args) (wo_now w 0))
         (\<lambda>(secret, token). answer \<lparr>rr_Token = secret, rr_TokenID = [], rr_GroupID = [], rr_Mode = tk_Mode token,
            rr_ReservationIDs = [], rr_GPUs = [], rr_StartsAt = None, rr_ExpiresAt = None\<rparr>))"

definition dispatch_register :: "World \<Rightarrow> RegisterArgs \<Rightarrow> RegisterResult handler" where
  "dispatch_register w args =
     check (if TrimSpace (ra_Mode args) = [] then Some (SE_msg ''mode must be reserved or claimed'') else None)
     (check (validateRequestValue ''name'' (ra_Name args))
     (check (validateRequestValue ''purpose'' (ra_Purpose args))
     (check (validateRequestValue ''external session id'' (ra_ExternalSessionID args))
     (store_call (ValidateRootKey (wo_env w 0) (ra_RootKey args)) (\<lambda>ok.
       if \<not> ok then refuse (SE_store ErrInvalidRootKey)
       else let mode = NormalizeTokenMode (ra_Mode args) in
         if mode = TokenModeReserved then register_reserved w args
         else if mode = TokenModeClaimed then register_claimed w args
         else refuse (SE_msg ''mode must be reserved or claimed''))))))"

end
