(* ===== verification/Daemon_Allow.thy ===== *)
theory Daemon_Allow
  imports Daemon_Base
begin

text \<open>
  Authorizations, bypass rules and revocation in the daemon (\<open>internal/daemon/server.go\<close>), and the
  release of stale Docker authorizations when a key is at its limit
  (\<open>internal/daemon/authorization_reclaim.go\<close>).
\<close>

section \<open>Keys\<close>

definition validateToken :: "StoreEnv \<Rightarrow> string \<Rightarrow> time \<Rightarrow> (Token \<times> string \<Rightarrow> 'r handler) \<Rightarrow> 'r handler" where
  "validateToken env secret now k =
     (if TrimSpace secret = [] then refuse (SE_msg ''KEY token is required'')
      else store_call (\<lambda>s. case ValidateToken env secret now s of
          (s, t, h, Some e) \<Rightarrow> (s, Inl e) | (s, t, h, None) \<Rightarrow> (s, Inr (t, h))) k)"

definition ensureTokenCanAuthorize :: "StoreEnv \<Rightarrow> string \<Rightarrow> Token \<Rightarrow> time \<Rightarrow> 'r handler \<Rightarrow> 'r handler" where
  "ensureTokenCanAuthorize env tokenHash token now k =
     (if NormalizeTokenMode (tk_Mode token) \<noteq> TokenModeReserved then k
      else store_call (EnforcementSnapshot env) (\<lambda>st.
        if list_ex (\<lambda>r. rs_TokenHash r = tokenHash \<and> ReservationActiveAt r now) (Reservations st) then k
        else refuse (SE_msg ''reserved token has no valid reservation'')))"

section \<open>Reclaiming Docker authorizations\<close>

abbreviation (input) staleDockerAuthorizationAge :: duration where "staleDockerAuthorizationAge \<equiv> 600 * second"
abbreviation (input) maxReclaimedDockerAuthorizations :: nat where "maxReclaimedDockerAuthorizations \<equiv> 8"

definition reclaimable :: "State \<Rightarrow> string \<Rightarrow> time \<Rightarrow> Authorization \<Rightarrow> bool" where
  "reclaimable st tokenHash now au \<longleftrightarrow>
     \<not> (au_TokenHash au \<noteq> tokenHash \<or> au_Mode au \<noteq> ModeDocker \<or> \<not> au_Active au \<or> au_Revoked au \<or>
        authorizationExpired au now \<or> list_ex (\<lambda>c. sc_AuthorizationID c = au_ID au) (SoftClaims st) \<or>
        time_Sub now (au_CreatedAt au) < staleDockerAuthorizationAge) \<and>
     \<not> (au_ContainerID au = [] \<and> (au_ContainerPattern au = [] \<or> hasWildcard (au_ContainerPattern au)))"

definition reclaimableDockerAuthorizations :: "State \<Rightarrow> string \<Rightarrow> time \<Rightarrow> Authorization list" where
  "reclaimableDockerAuthorizations st tokenHash now = filter (reclaimable st tokenHash now) (Authorizations st)"

definition container_listed :: "(string \<times> string list) list \<Rightarrow> Authorization \<Rightarrow> bool" where
  "container_listed containers au =
     (if au_ContainerID au \<noteq> [] then ToLower (TrimSpace (au_ContainerID au)) \<in> fst ` set containers
      else TrimSpace (au_ContainerPattern au) \<in> (\<Union>c \<in> set containers. set (snd c)))"

text \<open>\<open>slices.SortFunc\<close> may order authorizations of one instant in any way; here they keep their order.\<close>

definition staleDockerAuthorizations :: "Authorization list \<Rightarrow> (string \<times> string list) list \<Rightarrow> Authorization list" where
  "staleDockerAuthorizations candidates containers =
     take maxReclaimedDockerAuthorizations
       (sort_key au_CreatedAt (filter (\<lambda>au. \<not> container_listed containers au) candidates))"

definition reclaimed_audit :: "time \<Rightarrow> Authorization \<Rightarrow> AuditEvent" where
  "reclaimed_audit now au = \<lparr>ae_Time = now, ae_Kind = ''authorization_released'',
     ae_Message = ''docker authorization released at the per-key limit: container no longer exists'',
     ae_GPU = 0, ae_PID = 0, ae_LeaseID = au_ID au, ae_User = au_Holder au\<rparr>"

definition reclaimStaleDockerAuthorizations :: "World \<Rightarrow> nat \<Rightarrow> string \<Rightarrow> Node \<Rightarrow> Node \<times> bool" where
  "reclaimStaleDockerAuthorizations w k tokenHash n =
     (case wo_DockerContainers w of None \<Rightarrow> (n, False)
      | Some listing \<Rightarrow>
        if tokenHash = [] then (n, False)
        else (case EnforcementSnapshot (wo_env w k) (nd_store n) of
          (s, Inl e) \<Rightarrow> (n\<lparr>nd_store := s\<rparr>, False)
        | (s, Inr st) \<Rightarrow>
          let n = n\<lparr>nd_store := s\<rparr> in
          if reclaimableDockerAuthorizations st tokenHash (wo_now w k) = [] then (n, False)
          else (case listing of Inl e \<Rightarrow> (n, False)
          | Inr containers \<Rightarrow>
            let now = wo_now w (k + 1) in
            (case EnforcementSnapshot (wo_env w (k + 1)) (nd_store n) of
               (s, Inl e) \<Rightarrow> (n\<lparr>nd_store := s\<rparr>, False)
             | (s, Inr st) \<Rightarrow>
               let n = n\<lparr>nd_store := s\<rparr>;
                   stale = staleDockerAuthorizations (reclaimableDockerAuthorizations st tokenHash now) containers in
               if stale = [] then (n, False)
               else (case ReleaseScopes (wo_env w (k + 2)) [] (map au_ID stale) [] (nd_store n) of
                  (s, Inl e) \<Rightarrow> (n\<lparr>nd_store := s\<rparr>, False)
                | (s, Inr _) \<Rightarrow>
                    (append_audits (map (reclaimed_audit now) stale)
                      (emit (map (\<lambda>au. EmitAuthorizationEnded (au_ID au) ''container_removed'' now) stale)
                        (n\<lparr>nd_store := s\<rparr>)), True))))))"

definition withAuthorizationCapacity ::
  "World \<Rightarrow> nat \<Rightarrow> string \<Rightarrow> (nat \<Rightarrow> 'r handler) \<Rightarrow> 'r handler" where
  "withAuthorizationCapacity w k tokenHash add n =
     (case add k n of
        (n, Inl e) \<Rightarrow>
          if e = SE_store ErrAuthorizationLimit then
            (case reclaimStaleDockerAuthorizations w (k + 5) tokenHash n of
               (n, True) \<Rightarrow> add (k + 10) n | (n, False) \<Rightarrow> (n, Inl e))
          else (n, Inl e)
      | r \<Rightarrow> r)"

section \<open>Storing an authorization\<close>

text \<open>Each answers the authorization as it was stored; \<open>k\<close> numbers the first clock read and store call.\<close>

definition addAuthorizationLocked :: "World \<Rightarrow> string \<Rightarrow> Authorization \<Rightarrow> nat \<Rightarrow> Authorization handler" where
  "addAuthorizationLocked w tokenSecret au k =
     (let now = wo_now w k in
      validateToken (wo_env w k) tokenSecret now (\<lambda>(token, tokenHash).
        check (if tokenHash \<noteq> au_TokenHash au then Some (SE_msg ''token identity changed during authorization'') else None)
        (ensureTokenCanAuthorize (wo_env w (k + 1)) tokenHash token now
          (let au = au\<lparr>au_TokenMode := NormalizeTokenMode (tk_Mode token), au_TokenVersion := tk_Version token,
                       au_Holder := tk_Name token, au_ExpiresAt := tk_ExpiresAt token\<rparr> in
           store_call (AddAuthorization (wo_env w (k + 2)) au)
             (\<lambda>_ n. (emit [EmitAuthorization (tk_ID token) au] n, Inr au))))))"

definition persistManagedAuthorization :: "World \<Rightarrow> Token \<Rightarrow> Authorization \<Rightarrow> nat \<Rightarrow> Authorization handler" where
  "persistManagedAuthorization w token au k =
     store_call (ManagedTokenByID (wo_env w k) (tk_ID token) (wo_now w k)) (\<lambda>current.
       check (if tk_Hash current \<noteq> tk_Hash token \<or> tk_Version current \<noteq> tk_Version token
              then Some (SE_msg ''managed key identity changed during authorization'') else None)
       (let au = au\<lparr>au_TokenHash := tk_Hash current, au_TokenMode := TokenModeManaged,
                    au_TokenVersion := tk_Version current, au_Holder := tk_Name current, au_ExpiresAt := 0\<rparr> in
        store_call (AddAuthorization (wo_env w (k + 2)) au)
          (\<lambda>_ n. (emit [EmitAuthorization (tk_ID current) au] n, Inr au))))"

definition addAuthorization :: "World \<Rightarrow> nat \<Rightarrow> string \<Rightarrow> Authorization \<Rightarrow> Authorization handler" where
  "addAuthorization w k tokenSecret au =
     withAuthorizationCapacity w k (au_TokenHash au) (addAuthorizationLocked w tokenSecret au)"

definition persistAuthorization :: "World \<Rightarrow> nat \<Rightarrow> string \<Rightarrow> Token \<Rightarrow> Authorization \<Rightarrow> Authorization handler" where
  "persistAuthorization w k tokenSecret token au =
     (if TrimSpace tokenSecret \<noteq> [] \<or> \<not> tk_Managed token then addAuthorization w k tokenSecret au
      else withAuthorizationCapacity w k (tk_Hash token) (persistManagedAuthorization w token au))"

section \<open>The three kinds of scope\<close>

definition new_authorization :: "World \<Rightarrow> time \<Rightarrow> string \<Rightarrow> Token \<Rightarrow> string \<Rightarrow> int \<Rightarrow> int \<Rightarrow> string \<Rightarrow> Authorization" where
  "new_authorization w now tokenHash token runName uid gid mode = zero_Authorization\<lparr>au_ID := wo_newID w,
     au_Mode := mode, au_TokenHash := tokenHash, au_TokenMode := NormalizeTokenMode (tk_Mode token),
     au_TokenVersion := tk_Version token, au_Holder := tk_Name token, au_RunName := runName, au_UID := uid,
     au_GID := gid, au_CreatedAt := now, au_ExpiresAt := tk_ExpiresAt token, au_Active := True\<rparr>"

text \<open>The container identifier and the pattern with which a Docker scope is stored.\<close>

definition docker_scope :: "World \<Rightarrow> string \<Rightarrow> srv_error + string \<times> string" where
  "docker_scope w container =
     (if hasWildcard container then Inr ([], container)
      else case wo_ctx w 0 of Some e \<Rightarrow> Inl (SE_enf e)
      | None \<Rightarrow> if wo_dockerBusy w then Inl (SE_msg ''docker resolver is busy; retry shortly'')
          else (case wo_ResolveDockerContainer w container of
             Inl e \<Rightarrow> if e = ErrRuntimeNotFound then Inr ([], container) else Inl (SE_resolve e)
           | Inr ident \<Rightarrow> Inr (ident, [])))"

definition createDockerAuthorization ::
  "World \<Rightarrow> string \<Rightarrow> Token \<Rightarrow> string \<Rightarrow> peer \<Rightarrow> string \<Rightarrow> string \<Rightarrow> Authorization handler" where
  "createDockerAuthorization w tokenSecret token tokenHash p container0 runName0 =
     ensureTokenCanAuthorize (wo_env w 1) tokenHash token (wo_now w 1)
     (let container = TrimSpace container0; runName = TrimSpace runName0 in
      check (if container = [] then Some (SE_msg ''container is required'') else None)
      (check (validateRequestValue ''container'' container)
      (check (validateRequestValue ''run name'' runName)
      (case docker_scope w container of Inl e \<Rightarrow> refuse e
       | Inr (containerID, containerPattern) \<Rightarrow>
           persistAuthorization w 3 tokenSecret token
             ((new_authorization w (wo_now w 2) tokenHash token runName (pr_UID p) (pr_GID p) ModeDocker)
               \<lparr>au_ContainerID := containerID, au_ContainerPattern := containerPattern\<rparr>)))))"

definition createK8sAuthorization ::
  "World \<Rightarrow> string \<Rightarrow> Token \<Rightarrow> string \<Rightarrow> peer \<Rightarrow> string \<Rightarrow> string \<Rightarrow> Authorization handler" where
  "createK8sAuthorization w tokenSecret token tokenHash p namespace runName0 =
     ensureTokenCanAuthorize (wo_env w 1) tokenHash token (wo_now w 1)
     (let runName = TrimSpace runName0 in
      check (if TrimSpace namespace = [] then Some (SE_msg ''namespace is required'') else None)
      (check (validateRequestValue ''namespace'' namespace)
      (check (validateRequestValue ''run name'' runName)
      (check (if hasWildcard namespace \<and> pr_UID p \<noteq> 0
              then Some (SE_msg ''wildcard authorization requires root/admin access'') else None)
      (check (if \<not> wo_hasCrictl w \<and> \<not> wo_hasKubectl w
              then Some (SE_msg ''k8s mode requires crictl or kubectl'') else None)
        (persistAuthorization w 3 tokenSecret token
          ((new_authorization w (wo_now w 2) tokenHash token runName (pr_UID p) (pr_GID p) ModeK8s)
            \<lparr>au_Namespace := TrimSpace namespace\<rparr>)))))))"

definition createUserAuthorization ::
  "World \<Rightarrow> string \<Rightarrow> Token \<Rightarrow> string \<Rightarrow> peer \<Rightarrow> string \<Rightarrow> string \<Rightarrow> Authorization handler" where
  "createUserAuthorization w tokenSecret token tokenHash p user0 runName0 =
     ensureTokenCanAuthorize (wo_env w 1) tokenHash token (wo_now w 1)
     (let username = TrimSpace user0; runName = TrimSpace runName0 in
      check (if username = [] then Some (SE_msg ''user is required'') else None)
      (check (validateRequestValue ''user'' username)
      (check (validateRequestValue ''run name'' runName)
      (check (if hasWildcard username \<and> pr_UID p \<noteq> 0
              then Some (SE_msg ''wildcard authorization requires root/admin access'') else None)
      (case (if hasWildcard username then Inr (-1) else wo_lookupUID w username) of
         Inl e \<Rightarrow> refuse e
       | Inr uid \<Rightarrow>
           persistAuthorization w 3 tokenSecret token
             ((new_authorization w (wo_now w 2) tokenHash token runName uid (pr_GID p) ModeUser)
               \<lparr>au_Username := username\<rparr>))))))"

definition releaseAuthorization :: "World \<Rightarrow> string \<Rightarrow> unit handler" where
  "releaseAuthorization w ident = store_call (ReleaseAuthorization (wo_env w 0) ident)
     (\<lambda>_ n. (emit [EmitAuthorizationEnded ident ''released'' (wo_now w 1)] n, Inr ()))"

section \<open>Bypass rules and revocation\<close>

record BypassAddArgs =
  ba_RootKey :: string
  ba_Type :: string
  ba_PID :: int
  ba_Command :: string
  ba_UID :: int
  ba_TTL :: string
  ba_Reason :: string

text \<open>The rule with the identity it is bound to, or the reason to refuse it.\<close>

definition bind_bypass :: "World \<Rightarrow> BypassRule \<Rightarrow> srv_error + BypassRule" where
  "bind_bypass w rule =
     (if br_Type rule = BypassPID then
        (if br_PID rule \<le> 0 then Inl (SE_msg ''pid bypass requires --pid'')
         else case az_Proc (wo_authorizer w) of None \<Rightarrow> Inl (SE_msg ''process identity reader is unavailable'')
         | Some read \<Rightarrow>
           (case read (br_PID rule) of Inl _ \<Rightarrow> Inl (SE_identity (br_PID rule))
            | Inr info \<Rightarrow>
                if pi_PID info \<noteq> br_PID rule \<or> pi_StartTime info = 0 then Inl (SE_identity (br_PID rule))
                else if az_BootID (wo_authorizer w) = []
                  then Inl (SE_msg ''cannot create pid bypass without a verified boot id'')
                else Inr (rule\<lparr>br_StartTime := pi_StartTime info, br_BootID := az_BootID (wo_authorizer w)\<rparr>)))
      else if br_Type rule = BypassCommand then
        (if br_Command rule = [] \<or> \<not> prefix ''/'' (br_Command rule)
           then Inl (SE_msg ''command bypass requires absolute --command'')
         else if br_UID rule \<noteq> 0
           then Inl (SE_msg ''command bypass is restricted to uid 0; use a PID bypass for non-root processes'')
         else Inr rule)
      else Inl (SE_msg ''bypass type must be pid or command''))"

definition addBypassLocked :: "World \<Rightarrow> BypassAddArgs \<Rightarrow> time \<Rightarrow> BypassRule handler" where
  "addBypassLocked w args now =
     check (if TrimSpace (ba_Reason args) = [] then Some (SE_msg ''bypass reason is required'') else None)
     (check (validateRequestValue ''reason'' (ba_Reason args))
     (check (if (ba_PID args > 0) = (TrimSpace (ba_Command args) \<noteq> [])
             then Some (SE_msg ''exactly one pid or command bypass selector is required'') else None)
     (case ParseTTL (wo_env w 1) (ba_TTL args) DefaultTokenTTL NoTTLMaximum of
        Inl e \<Rightarrow> refuse (SE_store e)
      | Inr ttl \<Rightarrow>
        (case bind_bypass w \<lparr>br_ID = wo_newID w, br_Type = ba_Type args, br_PID = ba_PID args, br_StartTime = 0,
             br_BootID = [], br_Command = ba_Command args, br_UID = ba_UID args, br_Reason = ba_Reason args,
             br_CreatedAt = now, br_ExpiresAt = now + ttl, br_Revoked = False\<rparr> of
           Inl e \<Rightarrow> refuse e
         | Inr rule \<Rightarrow> store_call (AddBypass (wo_env w 1) rule) (\<lambda>_. answer rule)))))"

definition with_root_key :: "World \<Rightarrow> string \<Rightarrow> 'r handler \<Rightarrow> 'r handler" where
  "with_root_key w rootKey k = store_call (ValidateRootKey (wo_env w 0) rootKey)
     (\<lambda>ok. if \<not> ok then refuse (SE_store ErrInvalidRootKey) else k)"

definition revoke :: "World \<Rightarrow> string \<Rightarrow> string handler" where
  "revoke w ident = store_call (Revoke (wo_env w 1) ident) (\<lambda>_. answer ident)"

end
