(* ===== verification/Daemon_Theorems.thy ===== *)
theory Daemon_Theorems
  imports Daemon_Register Daemon_Allow Store_Keys
begin

text \<open>
  The guarantees of the daemon's request handlers: what a stored authorization, reservation or bypass
  rule rests on, and that the release of stale Docker authorizations is safe.
\<close>

section \<open>Read-only store calls\<close>

lemma EnforcementSnapshot_loaded [simp]:
  "sto_loaded s \<Longrightarrow> EnforcementSnapshot env s = (s, Inr (cloneEnforcementState (sto_state s)))"
  by (simp add: EnforcementSnapshot_def)

lemma cloneEnforcementState_rows [simp]:
  "Reservations (cloneEnforcementState st) = Reservations st"
  "Authorizations (cloneEnforcementState st) = map (\<lambda>au. au\<lparr>au_Command := []\<rparr>) (Authorizations st)"
  "Leases (cloneEnforcementState st) = map (\<lambda>l. l\<lparr>ls_Command := []\<rparr>) (Leases st)"
  "SoftClaims (cloneEnforcementState st) = SoftClaims st" "Bypasses (cloneEnforcementState st) = Bypasses st"
  by (simp_all add: cloneEnforcementState_def)

lemma put_same_store [simp]: "n\<lparr>nd_store := nd_store n\<rparr> = n"
  by simp

section \<open>Authorizations\<close>

text \<open>
  The key an authorization rests on: known by the hash of the secret, in force, and holding a window.
  A key of the gateway is used by its identifier instead; it has no end of its own.
\<close>

definition backing_key :: "World \<Rightarrow> nat \<Rightarrow> string \<Rightarrow> State \<Rightarrow> Authorization \<Rightarrow> Token \<Rightarrow> bool" where
  "backing_key w k secret st au tok \<longleftrightarrow> tok \<in> set (Tokens st) \<and> tk_Hash tok = au_TokenHash au \<and>
     au_TokenHash au = HashToken (wo_env w k) (TrimSpace secret) \<and> tokenActiveAt tok (wo_now w k) \<and>
     au_Holder au = tk_Name tok \<and> au_ExpiresAt au = tk_ExpiresAt tok \<and> au_TokenVersion au = tk_Version tok \<and>
     au_TokenMode au = NormalizeTokenMode (tk_Mode tok) \<and>
     (NormalizeTokenMode (tk_Mode tok) = TokenModeReserved \<longrightarrow>
        (\<exists>r \<in> set (Reservations st). rs_TokenHash r = tk_Hash tok \<and> ReservationActiveAt r (wo_now w k)))"

definition backing_managed_key :: "World \<Rightarrow> nat \<Rightarrow> Token \<Rightarrow> State \<Rightarrow> Authorization \<Rightarrow> Token \<Rightarrow> bool" where
  "backing_managed_key w k token st au tok \<longleftrightarrow> tok \<in> set (Tokens st) \<and> tk_Managed tok \<and>
     tk_ID tok = TrimSpace (tk_ID token) \<and> tk_Hash tok = tk_Hash token \<and> tk_Version tok = tk_Version token \<and>
     tokenActiveAt tok (wo_now w k) \<and> au_TokenHash au = tk_Hash tok \<and> au_Holder au = tk_Name tok \<and>
     au_TokenVersion au = tk_Version tok \<and> au_TokenMode au = TokenModeManaged \<and> au_ExpiresAt au = 0"

text \<open>What an admitted authorization keeps of the one asked for.\<close>

definition same_scope :: "Authorization \<Rightarrow> Authorization \<Rightarrow> bool" where
  "same_scope au au0 \<longleftrightarrow> au_ID au = au_ID au0 \<and> au_Mode au = au_Mode au0 \<and>
    au_ContainerID au = au_ContainerID au0 \<and> au_ContainerPattern au = au_ContainerPattern au0 \<and>
    au_Namespace au = au_Namespace au0 \<and> au_Username au = au_Username au0 \<and> au_UID au = au_UID au0"

lemma ValidateToken_Inr:
  assumes "sto_loaded s" "ValidateToken env secret now s = (t, tok', h, None)"
  shows "t = s \<and> h = HashToken env (TrimSpace secret) \<and> (\<exists>tok \<in> set (Tokens (sto_state s)). tk_Hash tok = h \<and>
    tokenActiveAt tok now \<and> tok' = tok\<lparr>tk_Mode := NormalizeTokenMode (tk_Mode tok)\<rparr>)"
  using assms
  by (auto simp: ValidateToken_def loadLocked_def Let_def tokenActiveAt_def timeIsSet_def tokenExpired_def
      split: option.splits if_splits dest!: find_SomeD)

lemma NormalizeTokenMode_idem [simp]: "NormalizeTokenMode (NormalizeTokenMode m) = NormalizeTokenMode m"
proof (cases "TrimSpace (ToLower m) = []")
  case True
  moreover have "NormalizeTokenMode TokenModeClaimed = TokenModeClaimed" by code_simp
  ultimately show ?thesis by (simp add: NormalizeTokenMode_def Let_def)
qed (simp add: NormalizeTokenMode_def Let_def TrimSpace_ToLower)

lemma AddAuthorization_Inr:
  assumes "sto_loaded s" "AddAuthorization env au s = (t, Inr ())"
  shows "sto_loaded t \<and> sto_state t = (sto_state s)\<lparr>Authorizations := Authorizations (sto_state s) @ [au]\<rparr>"
  using assms
  by (auto simp: AddAuthorization_def Let_def split: option.splits dest!: save_and_return_Inr)

lemma validateToken_Inr:
  assumes "sto_loaded (nd_store n)" "validateToken env secret now k n = (n', Inr r)"
  obtains tok where "TrimSpace secret \<noteq> []" "tok \<in> set (Tokens (sto_state (nd_store n)))"
    "tk_Hash tok = HashToken env (TrimSpace secret)" "tokenActiveAt tok now"
    "k (tok\<lparr>tk_Mode := NormalizeTokenMode (tk_Mode tok)\<rparr>, tk_Hash tok) n = (n', Inr r)"
proof -
  obtain t tok' h err where v: "ValidateToken env secret now (nd_store n) = (t, tok', h, err)"
    by (cases "ValidateToken env secret now (nd_store n)") auto
  with assms(2) have e: "err = None" "TrimSpace secret \<noteq> []" "k (tok', h) (n\<lparr>nd_store := t\<rparr>) = (n', Inr r)"
    by (auto simp: validateToken_def handler_Inr split: if_splits option.splits)
  from ValidateToken_Inr [OF assms(1) v [unfolded e(1)]] e that show ?thesis by auto
qed

lemma ensureTokenCanAuthorize_Inr:
  assumes "sto_loaded (nd_store n)" "ensureTokenCanAuthorize env h token now k n = (n', Inr r)"
  shows "k n = (n', Inr r)" and "NormalizeTokenMode (tk_Mode token) = TokenModeReserved \<Longrightarrow>
    \<exists>x \<in> set (Reservations (sto_state (nd_store n))). rs_TokenHash x = h \<and> ReservationActiveAt x now"
  using assms
  by (auto simp: ensureTokenCanAuthorize_def handler_Inr list_ex_iff split: if_splits)

lemma addAuthorizationLocked_Inr:
  assumes "sto_loaded (nd_store n)" "addAuthorizationLocked w secret au0 k n = (n', Inr au)"
  shows "sto_loaded (nd_store n') \<and> sto_state (nd_store n') =
      (sto_state (nd_store n))\<lparr>Authorizations := Authorizations (sto_state (nd_store n)) @ [au]\<rparr> \<and>
    TrimSpace secret \<noteq> [] \<and> (\<exists>tok. backing_key w k secret (sto_state (nd_store n)) au tok) \<and> same_scope au au0"
  using assms(1) assms(2) [unfolded addAuthorizationLocked_def Let_def]
proof (rule validateToken_Inr, goal_cases)
  case (1 tok)
  let ?au = "au0\<lparr>au_TokenMode := NormalizeTokenMode (tk_Mode tok), au_TokenVersion := tk_Version tok,
    au_Holder := tk_Name tok, au_ExpiresAt := tk_ExpiresAt tok\<rparr>"
  from 1(5) have h: "tk_Hash tok = au_TokenHash au0" and
    e: "ensureTokenCanAuthorize (wo_env w (k + 1)) (tk_Hash tok) (tok\<lparr>tk_Mode := NormalizeTokenMode (tk_Mode tok)\<rparr>)
      (wo_now w k) (store_call (AddAuthorization (wo_env w (k + 2)) ?au)
        (\<lambda>_ n. (emit [EmitAuthorization (tk_ID tok) ?au] n, Inr ?au))) n = (n', Inr au)"
    by (auto simp: handler_Inr split: if_splits)
  note r = ensureTokenCanAuthorize_Inr [OF assms(1) e]
  from r(1) obtain s where "AddAuthorization (wo_env w (k + 2)) ?au (nd_store n) = (s, Inr ())"
    "au = ?au" "nd_store n' = s" by (auto simp: handler_Inr emit_def)
  with AddAuthorization_Inr [OF assms(1)] h r(2) 1 show ?case
    by (auto simp: backing_key_def same_scope_def)
qed

lemma ManagedTokenByID_Inr:
  assumes "sto_loaded s" "ManagedTokenByID env ident now s = (t, Inr tok)"
  shows "t = s \<and> tok \<in> set (Tokens (sto_state s)) \<and> tk_ID tok = TrimSpace ident \<and> tk_Managed tok \<and> tokenActiveAt tok now"
  using assms by (auto simp: ManagedTokenByID_def tokenActiveAt_def split: option.splits dest!: find_SomeD)

lemma persistManagedAuthorization_Inr:
  assumes "sto_loaded (nd_store n)" "persistManagedAuthorization w token au0 k n = (n', Inr au)"
  shows "sto_loaded (nd_store n') \<and> sto_state (nd_store n') =
      (sto_state (nd_store n))\<lparr>Authorizations := Authorizations (sto_state (nd_store n)) @ [au]\<rparr> \<and>
    (\<exists>tok. backing_managed_key w k token (sto_state (nd_store n)) au tok) \<and> same_scope au au0"
proof -
  from assms(2) obtain t tok where t: "ManagedTokenByID (wo_env w k) (tk_ID token) (wo_now w k) (nd_store n) = (t, Inr tok)"
    unfolding persistManagedAuthorization_def by (auto simp: handler_Inr)
  let ?au = "au0\<lparr>au_TokenHash := tk_Hash tok, au_TokenMode := TokenModeManaged,
    au_TokenVersion := tk_Version tok, au_Holder := tk_Name tok, au_ExpiresAt := 0\<rparr>"
  note key = ManagedTokenByID_Inr [OF assms(1) t]
  from t key assms(2) obtain s where "tk_Hash tok = tk_Hash token" "tk_Version tok = tk_Version token"
    "AddAuthorization (wo_env w (k + 2)) ?au (nd_store n) = (s, Inr ())" "au = ?au" "nd_store n' = s"
    by (auto simp: persistManagedAuthorization_def handler_Inr Let_def emit_def split: if_splits)
  with AddAuthorization_Inr [OF assms(1)] key show ?thesis
    by (auto simp: backing_managed_key_def same_scope_def)
qed

section \<open>Reclaiming\<close>

lemma update_where_never [simp]: "update_where (\<lambda>x. False) f xs = xs"
  by (simp add: update_where_def)

lemma ReleaseScopes_authorizations:
  assumes "sto_loaded s" "coherent s" "ReleaseScopes env [] ids [] s = (t, r)"
  shows "sto_loaded t \<and> coherent t \<and>
    (sto_state t = sto_state s \<or> sto_state t = (sto_state s)\<lparr>Authorizations :=
       update_where (\<lambda>a. au_ID a \<in> set ids \<and> au_Active a) (\<lambda>a. a\<lparr>au_Active := False\<rparr>) (Authorizations (sto_state s))\<rparr>)"
proof (cases "ids \<noteq> [] \<and> (\<exists>a \<in> set (Authorizations (sto_state s)). au_ID a \<in> set ids \<and> au_Active a)")
  case True
  let ?s = "put_state s ((sto_state s)\<lparr>Authorizations :=
     update_where (\<lambda>a. au_ID a \<in> set ids \<and> au_Active a) (\<lambda>a. a\<lparr>au_Active := False\<rparr>) (Authorizations (sto_state s))\<rparr>)"
  have "ReleaseScopes env [] ids [] s = save_and_return env ?s ()"
    using assms(1) True by (auto simp: ReleaseScopes_def Let_def)
  then have "t = fst (saveLocked env ?s)" using assms(3) fst_save_and_return [of env ?s "()"] by (metis fst_conv)
  with saveLocked_cases [of env ?s] assms(1,2) show ?thesis
    by (auto simp: committed_store_def coherent_def)
next
  case False
  then have "t = s" using assms(1,3) by (auto simp: ReleaseScopes_def Let_def split: if_splits)
  with assms show ?thesis by simp
qed

lemma reclaimable_command [simp]:
  "reclaimable st h now (au\<lparr>au_Command := c\<rparr>) = reclaimable st h now au"
  "reclaimable (cloneEnforcementState st) h now au = reclaimable st h now au"
  "container_listed containers (au\<lparr>au_Command := c\<rparr>) = container_listed containers au"
  by (simp_all add: reclaimable_def container_listed_def authorizationExpired_def)

text \<open>An authorization that may be released at the limit of its key.\<close>

definition abandoned :: "World \<Rightarrow> string \<Rightarrow> time \<Rightarrow> State \<Rightarrow> Authorization \<Rightarrow> bool" where
  "abandoned w tokenHash now st au \<longleftrightarrow> reclaimable st tokenHash now au \<and>
     (\<exists>containers. wo_DockerContainers w = Some (Inr containers) \<and> \<not> container_listed containers au)"

lemma stale_abandoned:
  assumes "au \<in> set (staleDockerAuthorizations (reclaimableDockerAuthorizations (cloneEnforcementState st) h now) cs)"
    and "wo_DockerContainers w = Some (Inr cs)"
  shows "\<exists>x \<in> set (Authorizations st). au_ID x = au_ID au \<and> abandoned w h now st x"
proof -
  from assms(1) have "au \<in> set (sort_key au_CreatedAt (filter (\<lambda>au. \<not> container_listed cs au)
      (reclaimableDockerAuthorizations (cloneEnforcementState st) h now)))"
    unfolding staleDockerAuthorizations_def by (rule in_set_takeD)
  then show ?thesis
    using assms(2) by (auto simp: reclaimableDockerAuthorizations_def abandoned_def)
qed

lemma reclaim_store:
  assumes "sto_loaded (nd_store n)" "reclaimStaleDockerAuthorizations w k h n = (n', released)"
    and "nd_store n' \<noteq> nd_store n"
  obtains cs r where "wo_DockerContainers w = Some (Inr cs)"
    "ReleaseScopes (wo_env w (Suc (Suc k))) [] (map au_ID (staleDockerAuthorizations (reclaimableDockerAuthorizations
       (cloneEnforcementState (sto_state (nd_store n))) h (wo_now w (Suc k))) cs)) [] (nd_store n) = (nd_store n', r)"
proof (cases "wo_DockerContainers w")
  case None
  with assms show ?thesis by (simp add: reclaimStaleDockerAuthorizations_def)
next
  case (Some listing)
  show ?thesis
  proof (cases listing)
    case (Inl e)
    with Some assms show ?thesis by (auto simp: reclaimStaleDockerAuthorizations_def Let_def split: if_splits)
  next
    case (Inr cs)
    define stale where "stale = staleDockerAuthorizations (reclaimableDockerAuthorizations
       (cloneEnforcementState (sto_state (nd_store n))) h (wo_now w (Suc k))) cs"
    obtain s r where rel: "ReleaseScopes (wo_env w (Suc (Suc k))) [] (map au_ID stale) [] (nd_store n) = (s, r)" by fastforce
    have "fst (reclaimStaleDockerAuthorizations w k h n) = n \<or>
        nd_store (fst (reclaimStaleDockerAuthorizations w k h n)) = s"
      using rel by (cases r) (simp_all add: reclaimStaleDockerAuthorizations_def Let_def Some Inr assms(1)
        append_audits_def emit_def flip: stale_def)
    with assms(2,3) have "nd_store n' = s" by auto
    with that [OF Some [unfolded Inr]] rel show ?thesis unfolding stale_def by blast
  qed
qed

lemma reclaim_effect:
  assumes "sto_loaded (nd_store n)" "coherent (nd_store n)"
    and "reclaimStaleDockerAuthorizations w k h n = (n', released)"
  shows "sto_loaded (nd_store n') \<and> coherent (nd_store n') \<and> (\<exists>ids. length ids \<le> maxReclaimedDockerAuthorizations \<and>
    (\<forall>i \<in> set ids. \<exists>x \<in> set (Authorizations (sto_state (nd_store n))). au_ID x = i \<and>
       abandoned w h (wo_now w (Suc k)) (sto_state (nd_store n)) x) \<and>
    sto_state (nd_store n') = (sto_state (nd_store n))\<lparr>Authorizations := update_where
      (\<lambda>a. au_ID a \<in> set ids \<and> au_Active a) (\<lambda>a. a\<lparr>au_Active := False\<rparr>) (Authorizations (sto_state (nd_store n)))\<rparr>)"
proof -
  let ?s = "nd_store n" and ?now = "wo_now w (Suc k)"
  show ?thesis
  proof (cases "nd_store n' = ?s")
    case True
    with assms(1,2) show ?thesis by (intro conjI exI [of _ "[]"]) simp_all
  next
    case False
    with assms(1,3) obtain cs r where c: "wo_DockerContainers w = Some (Inr cs)"
      "ReleaseScopes (wo_env w (Suc (Suc k))) [] (map au_ID (staleDockerAuthorizations (reclaimableDockerAuthorizations
         (cloneEnforcementState (sto_state ?s)) h ?now) cs)) [] ?s = (nd_store n', r)" by (rule reclaim_store)
    let ?ids = "map au_ID (staleDockerAuthorizations (reclaimableDockerAuthorizations
      (cloneEnforcementState (sto_state ?s)) h ?now) cs)"
    have bound: "length ?ids \<le> maxReclaimedDockerAuthorizations" by (simp add: staleDockerAuthorizations_def)
    have ab: "\<forall>i \<in> set ?ids. \<exists>x \<in> set (Authorizations (sto_state ?s)). au_ID x = i \<and> abandoned w h ?now (sto_state ?s) x"
      using stale_abandoned [OF _ c(1), of _ "sto_state ?s" h ?now] by fastforce
    note rel = ReleaseScopes_authorizations [OF assms(1,2) c(2)]
    show ?thesis
    proof (cases "sto_state (nd_store n') = sto_state ?s")
      case True
      with rel show ?thesis by (intro conjI exI [of _ "[]"]) simp_all
    next
      case False
      with rel bound ab show ?thesis by (intro conjI exI [of _ ?ids]) blast+
    qed
  qed
qed

text \<open>
  reclaiming is safe. When a key is at its limit, at most eight identifiers are released, each of
  an authorization of that key that is for one Docker container by name or identifier, is at least
  ten minutes old, backs no claim, and whose container is not among the containers Docker lists;
  every other record of the store is untouched, whatever goes wrong.
\<close>

theorem reclaim_safe:
  assumes "sto_loaded (nd_store n)" "coherent (nd_store n)"
  shows "\<exists>ids. length ids \<le> maxReclaimedDockerAuthorizations \<and>
    (\<forall>i \<in> set ids. \<exists>x \<in> set (Authorizations (sto_state (nd_store n))). au_ID x = i \<and>
       abandoned w h (wo_now w (Suc k)) (sto_state (nd_store n)) x) \<and>
    sto_state (nd_store (fst (reclaimStaleDockerAuthorizations w k h n))) =
      (sto_state (nd_store n))\<lparr>Authorizations := update_where (\<lambda>a. au_ID a \<in> set ids \<and> au_Active a)
        (\<lambda>a. a\<lparr>au_Active := False\<rparr>) (Authorizations (sto_state (nd_store n)))\<rparr>"
  using reclaim_effect [OF assms, of w k h] by (cases "reclaimStaleDockerAuthorizations w k h n") auto

section \<open>Admission of an authorization\<close>

lemma saved_coherent:
  assumes "coherent s" "sto_loaded s" "AddAuthorization env au s = (t, r)"
  shows "coherent t \<and> sto_loaded t \<and> Tokens (sto_state t) = Tokens (sto_state s) \<and>
    Reservations (sto_state t) = Reservations (sto_state s)"
proof -
  let ?s = "put_state s ((sto_state s)\<lparr>Authorizations := Authorizations (sto_state s) @ [au]\<rparr>)"
  have "(t, r) = save_and_return env ?s () \<or> t = s"
    using assms by (auto simp: AddAuthorization_def Let_def split: option.splits)
  then show ?thesis
    using saveLocked_cases [of env ?s] assms(1,2)
    by (auto simp: save_and_return_def committed_store_def coherent_def split: prod.splits option.splits)
qed

lemma addAuthorizationLocked_Inl:
  assumes "sto_loaded (nd_store n)" "coherent (nd_store n)" "addAuthorizationLocked w secret au0 k n = (n', Inl e)"
  shows "sto_loaded (nd_store n') \<and> coherent (nd_store n') \<and>
    Tokens (sto_state (nd_store n')) = Tokens (sto_state (nd_store n)) \<and>
    Reservations (sto_state (nd_store n')) = Reservations (sto_state (nd_store n))"
proof -
  obtain t tok h err where v: "ValidateToken (wo_env w k) secret (wo_now w k) (nd_store n) = (t, tok, h, err)"
    by (cases "ValidateToken (wo_env w k) secret (wo_now w k) (nd_store n)") auto
  have t: "t = nd_store n"
    using v assms(1) by (auto simp: ValidateToken_def loadLocked_def Let_def split: option.splits if_splits)
  let ?au = "au0\<lparr>au_TokenMode := NormalizeTokenMode (tk_Mode tok), au_TokenVersion := tk_Version tok,
    au_Holder := tk_Name tok, au_ExpiresAt := tk_ExpiresAt tok\<rparr>"
  obtain s r where a: "AddAuthorization (wo_env w (Suc (Suc k))) ?au (nd_store n) = (s, r)" by fastforce
  from saved_coherent [OF assms(2,1) a] assms v t a show ?thesis
    by (auto simp: addAuthorizationLocked_def validateToken_def ensureTokenCanAuthorize_def handler_defs Let_def
        split: if_splits option.splits sum.splits)
qed

lemma persistManagedAuthorization_Inl:
  assumes "sto_loaded (nd_store n)" "coherent (nd_store n)" "persistManagedAuthorization w token au0 k n = (n', Inl e)"
  shows "sto_loaded (nd_store n') \<and> coherent (nd_store n') \<and>
    Tokens (sto_state (nd_store n')) = Tokens (sto_state (nd_store n)) \<and>
    Reservations (sto_state (nd_store n')) = Reservations (sto_state (nd_store n))"
proof -
  obtain t r where t: "ManagedTokenByID (wo_env w k) (tk_ID token) (wo_now w k) (nd_store n) = (t, r)" by fastforce
  have "t = nd_store n" using t assms(1) by (auto simp: ManagedTokenByID_def split: option.splits)
  with t assms saved_coherent [OF assms(2,1)] show ?thesis
    by (auto simp: persistManagedAuthorization_def handler_defs Let_def split: if_splits sum.splits prod.splits)
qed

text \<open>An admission that succeeds did so at once or after stale Docker scopes were released; the keys are the same.\<close>

lemma withAuthorizationCapacity_Inr:
  assumes "sto_loaded (nd_store n)" "coherent (nd_store n)"
    and "withAuthorizationCapacity w k h add n = (n', Inr (au :: Authorization))"
    and "\<And>k n1 e. add k n = (n1, Inl e) \<Longrightarrow> sto_loaded (nd_store n1) \<and> coherent (nd_store n1) \<and>
      Tokens (sto_state (nd_store n1)) = Tokens (sto_state (nd_store n)) \<and>
      Reservations (sto_state (nd_store n1)) = Reservations (sto_state (nd_store n))"
  obtains m k' where "sto_loaded (nd_store m)" "add k' m = (n', Inr au)"
    "Tokens (sto_state (nd_store m)) = Tokens (sto_state (nd_store n))"
    "Reservations (sto_state (nd_store m)) = Reservations (sto_state (nd_store n))"
proof -
  obtain n1 r where 1: "add k n = (n1, r)" by fastforce
  show ?thesis
  proof (cases r)
    case (Inr x)
    with 1 assms(3) have "add k n = (n', Inr au)" by (simp add: withAuthorizationCapacity_def)
    with assms(1) show ?thesis by (intro that [of n k]) auto
  next
    case (Inl e)
    note n1 = assms(4) [OF 1 [unfolded Inl]]
    obtain m b where m: "reclaimStaleDockerAuthorizations w (k + 5) h n1 = (m, b)" by fastforce
    with 1 Inl assms(3) have "add (k + 10) m = (n', Inr au)"
      by (auto simp: withAuthorizationCapacity_def split: if_splits bool.splits)
    with reclaim_effect [of n1, OF _ _ m] n1 show ?thesis by (intro that [of m "k + 10"]) auto
  qed
qed

text \<open>
  C25: an authorization rests on a key that is valid when it is stored. When storing an authorization
  succeeds, it is the last of the store, covers the scope asked for, and carries the name, mode, version
  and expiry of a key that was in force at the clock of the write: with a secret, the key whose hash is
  that of the secret, which, if it is a reserved key, held an active reservation; without one, the key
  the gateway manages under the identifier of the request, unchanged since the request was
  validated, and then the authorization has no expiry of its own. A key revoked after the request was
  first validated is refused. The keys of the store are not changed.
\<close>

theorem authorization_backed:
  assumes "sto_loaded (nd_store n)" "coherent (nd_store n)"
    and "persistAuthorization w k secret token au0 n = (n', Inr au)"
  shows "(\<exists>k' tok. if TrimSpace secret \<noteq> [] then backing_key w k' secret (sto_state (nd_store n')) au tok
      else tk_Managed token \<and> backing_managed_key w k' token (sto_state (nd_store n')) au tok) \<and>
    last (Authorizations (sto_state (nd_store n'))) = au \<and> same_scope au au0 \<and>
    Tokens (sto_state (nd_store n')) = Tokens (sto_state (nd_store n))"
proof (cases "TrimSpace secret \<noteq> [] \<or> \<not> tk_Managed token")
  case True
  with assms(3) have "withAuthorizationCapacity w k (au_TokenHash au0) (addAuthorizationLocked w secret au0) n = (n', Inr au)"
    by (simp add: persistAuthorization_def addAuthorization_def)
  then obtain m k' where m: "sto_loaded (nd_store m)" "addAuthorizationLocked w secret au0 k' m = (n', Inr au)"
    "Tokens (sto_state (nd_store m)) = Tokens (sto_state (nd_store n))" 
    by (rule withAuthorizationCapacity_Inr [OF assms(1,2)]) (erule addAuthorizationLocked_Inl [OF assms(1,2)], blast)
  from addAuthorizationLocked_Inr [OF m(1,2)] m(3) show ?thesis
    by (auto simp: backing_key_def)
next
  case False
  with assms(3) have "withAuthorizationCapacity w k (tk_Hash token) (persistManagedAuthorization w token au0) n = (n', Inr au)"
    by (simp add: persistAuthorization_def)
  then obtain m k' where m: "sto_loaded (nd_store m)" "persistManagedAuthorization w token au0 k' m = (n', Inr au)"
    "Tokens (sto_state (nd_store m)) = Tokens (sto_state (nd_store n))" 
    by (rule withAuthorizationCapacity_Inr [OF assms(1,2)]) (erule persistManagedAuthorization_Inl [OF assms(1,2)], blast)
  from persistManagedAuthorization_Inr [OF m(1,2)] m(3) False show ?thesis
    by (auto simp: backing_managed_key_def)
qed

section \<open>Bypass rules\<close>

text \<open>
  a bypass covers exactly what was verified. A rule that the daemon accepts is stored, and
  whatever it later matches is, before its expiry, either the very process whose number, start
  time and boot the daemon read when it accepted the rule, or a root process that runs the absolute
  command path of the rule.
\<close>

theorem bypass_bound:
  assumes "sto_loaded (nd_store n)" "addBypassLocked w args now n = (n', Inr rule)"
  shows "last (Bypasses (sto_state (nd_store n'))) = rule \<and>
    (BypassMatch [rule] info t boot \<longrightarrow> t < br_ExpiresAt rule \<and>
      ((\<exists>read cur. az_Proc (wo_authorizer w) = Some read \<and> read (ba_PID args) = Inr cur \<and> ba_PID args > 0 \<and>
          pi_PID info = pi_PID cur \<and> pi_StartTime info = pi_StartTime cur \<and> pi_PID cur = ba_PID args \<and>
          boot = az_BootID (wo_authorizer w)) \<or>
       (pi_UID info = 0 \<and> pi_CommandPath info = ba_Command args \<and> prefix ''/'' (ba_Command args))))"
proof -
  from assms(2) obtain ttl where
    b: "bind_bypass w \<lparr>br_ID = wo_newID w, br_Type = ba_Type args, br_PID = ba_PID args, br_StartTime = 0,
        br_BootID = [], br_Command = ba_Command args, br_UID = ba_UID args, br_Reason = ba_Reason args,
        br_CreatedAt = now, br_ExpiresAt = now + ttl, br_Revoked = False\<rparr> = Inr rule" and
    s: "store_call (AddBypass (wo_env w 1) rule) (\<lambda>_. answer rule) n = (n', Inr rule)"
    by (auto simp: addBypassLocked_def handler_Inr split: sum.splits)
  from s obtain r where "AddBypass (wo_env w 1) rule (nd_store n) = (nd_store n', Inr r)"
    by (auto simp: handler_Inr)
  then have "last (Bypasses (sto_state (nd_store n'))) = rule"
    using assms(1) by (auto simp: AddBypass_def Let_def split: option.splits dest!: save_and_return_Inr)
  moreover have "BypassMatch [rule] info t boot \<longrightarrow> t < br_ExpiresAt rule \<and>
      ((\<exists>read cur. az_Proc (wo_authorizer w) = Some read \<and> read (ba_PID args) = Inr cur \<and> ba_PID args > 0 \<and>
          pi_PID info = pi_PID cur \<and> pi_StartTime info = pi_StartTime cur \<and> pi_PID cur = ba_PID args \<and>
          boot = az_BootID (wo_authorizer w)) \<or>
       (pi_UID info = 0 \<and> pi_CommandPath info = ba_Command args \<and> prefix ''/'' (ba_Command args)))"
    using b by (auto simp: bind_bypass_def BypassMatch_def bypass_rule_matches_def
        split: if_splits option.splits sum.splits)
  ultimately show ?thesis by blast
qed

section \<open>Reservations\<close>

lemma busy_scan_None:
  "busy_scan w k st ps gpus n = None \<Longrightarrow> g \<in> set gpus \<Longrightarrow> \<exists>k'. \<forall>p \<in> set ps. \<not> occupies (authorizer_at w k') st g p"
proof (induction gpus arbitrary: k n)
  case (Cons x xs)
  obtain n' busy err where b: "BusyProcessesForGPU (authorizer_at w k) (wo_ctx w) st ps x n = (n', busy, err)"
    by (cases "BusyProcessesForGPU (authorizer_at w k) (wo_ctx w) st ps x n") auto
  with Cons.prems(1) have e: "err = None" "busy = []" "busy_scan w (Suc k) st ps xs n' = None"
    by (auto split: option.splits if_splits)
  from BusyProcessesForGPU_complete [OF b [unfolded e(1)]] e(2)
  have "filter (occupies (authorizer_at w k) st x) ps = []" by simp
  then have "\<forall>p \<in> set ps. \<not> occupies (authorizer_at w k) st x p" by (simp add: filter_empty_conv)
  with Cons.IH [OF e(3)] Cons.prems(2) show ?case by auto
qed simp

lemma register_reserved_free:
  assumes "sto_loaded (nd_store n)" "register_reserved w args n = (n', Inr res)"
  shows "\<exists>startsAt expiresAt. register_window w args = Inr (startsAt, expiresAt) \<and> wo_now w 0 < expiresAt \<and>
    distinct (ra_GPUs args) \<and> list_all (\<lambda>g. 0 \<le> g \<and> g \<le> maxGPUIndex \<and> (wo_GPUCount w \<le> 0 \<or> g < wo_GPUCount w)) (ra_GPUs args) \<and>
    (let begins = if startsAt = 0 then wo_now w 1 else startsAt; st = sto_state (nd_store n) in
     begins < expiresAt \<and>
     (\<forall>r \<in> set (Reservations st). rs_GPU r \<in> set (ra_GPUs args) \<longrightarrow> \<not> ReservationOverlaps r begins expiresAt) \<and>
     (\<forall>l \<in> set (Leases st). ls_GPU l \<in> set (ra_GPUs args) \<and> ls_Active l \<and> wo_now w 2 < ls_ExpiresAt l \<longrightarrow> ls_ExpiresAt l \<le> begins) \<and>
     (begins \<le> wo_now w 2 \<longrightarrow> (\<exists>ps. (wo_FreshProcesses w = Inr ps \<or> wo_Processes w = Inr ps) \<and>
        (\<forall>g \<in> set (ra_GPUs args). \<exists>k. \<forall>p \<in> set ps. \<not> occupies (authorizer_at w k) (cloneEnforcementState st) g p))))"
proof -
  from assms(2) have v: "validateConfiguredGPUs (wo_GPUCount w) (ra_GPUs args) = None"
    by (auto simp: register_reserved_def handler_Inr)
  obtain startsAt expiresAt where win: "register_window w args = Inr (startsAt, expiresAt)"
    using assms(2) by (auto simp: register_reserved_def handler_Inr split: sum.splits)
  define begins where "begins = (if startsAt = 0 then wo_now w 1 else startsAt)"
  define pre where "pre = freshProcessSample w (wo_now w 0) (ra_GPUs args) startsAt expiresAt"
  let ?st = "cloneEnforcementState (sto_state (nd_store n))"
  have e: "begins < expiresAt" "wo_now w 2 < expiresAt"
    "window_error w 2 (ra_GPUs args) begins expiresAt pre ?st = None"
    using assms v win
    by (auto simp: register_reserved_def ensureGPUsCanReserveWindowSampled_def handler_Inr Let_def time_IsZero_def
        begins_def pre_def split: if_splits)
  from win have now: "wo_now w 0 < expiresAt"
    by (auto simp: register_window_def Let_def split: sum.splits if_splits)
  from e(3) have c: "reserved_conflict ?st (ra_GPUs args) begins expiresAt = None"
    "lease_conflict ?st (ra_GPUs args) begins (wo_now w 2) = None"
    by (auto simp: window_error_def Let_def split: option.splits)
  have "\<exists>ps. (wo_FreshProcesses w = Inr ps \<or> wo_Processes w = Inr ps) \<and>
      busy_scan w 3 ?st ps (ra_GPUs args) 0 = None" if "begins \<le> wo_now w 2"
    using e(2,3) that c
    by (auto simp: window_error_def Let_def pre_def freshProcessSample_def not_le numeral_3_eq_3 numeral_2_eq_2
        split: option.splits sum.splits if_splits)
  then have free: "begins \<le> wo_now w 2 \<longrightarrow> (\<exists>ps. (wo_FreshProcesses w = Inr ps \<or> wo_Processes w = Inr ps) \<and>
      (\<forall>g \<in> set (ra_GPUs args). \<exists>k. \<forall>p \<in> set ps. \<not> occupies (authorizer_at w k) ?st g p))"
    using busy_scan_None by blast
  have "\<forall>r \<in> set (Reservations (sto_state (nd_store n))). rs_GPU r \<in> set (ra_GPUs args) \<longrightarrow>
      \<not> ReservationOverlaps r begins expiresAt"
    using c(1) by (simp add: reserved_conflict_def find_report_None)
  moreover have "\<forall>l \<in> set (Leases (sto_state (nd_store n))). ls_GPU l \<in> set (ra_GPUs args) \<and> ls_Active l \<and>
      wo_now w 2 < ls_ExpiresAt l \<longrightarrow> ls_ExpiresAt l \<le> begins"
    using c(2) by (auto simp: lease_conflict_def find_report_None not_less)
  moreover have "distinct (ra_GPUs args) \<and>
      list_all (\<lambda>g. 0 \<le> g \<and> g \<le> maxGPUIndex \<and> (wo_GPUCount w \<le> 0 \<or> g < wo_GPUCount w)) (ra_GPUs args)"
    using v by (auto simp: validateConfiguredGPUs_None list_all_iff)
  ultimately show ?thesis
    using win now e(1) free unfolding Let_def begins_def by blast
qed

text \<open>
  C24: a reservation is granted only to the holder of the root key and only on free GPUs. When the
  daemon answers a request for reservations, the request carries the key of the node's root key file;
  the GPUs are different ones of the inventory (with no inventory, indices of the valid range); the
  window ends in the future; no reservation that was in the store overlaps it on any of the GPUs, no
  legacy lease reaches into it, and if the window is already open, a fresh sample was read in which no
  known process that is not bypassed uses any of the GPUs.
\<close>

theorem reservation_granted_on_free_gpus:
  assumes "sto_loaded (nd_store n)" "NormalizeTokenMode (ra_Mode args) = TokenModeReserved"
    and "dispatch_register w args n = (n', Inr res)"
  shows "root_key_on_file (fst (ReadOrCreateRootKey (wo_env w 0) (nd_store n))) (TrimSpace (ra_RootKey args)) \<and>
    (\<exists>startsAt expiresAt. register_window w args = Inr (startsAt, expiresAt) \<and> wo_now w 0 < expiresAt \<and>
    distinct (ra_GPUs args) \<and> list_all (\<lambda>g. 0 \<le> g \<and> g \<le> maxGPUIndex \<and> (wo_GPUCount w \<le> 0 \<or> g < wo_GPUCount w)) (ra_GPUs args) \<and>
    (let begins = if startsAt = 0 then wo_now w 1 else startsAt; st = sto_state (nd_store n) in
     begins < expiresAt \<and>
     (\<forall>r \<in> set (Reservations st). rs_GPU r \<in> set (ra_GPUs args) \<longrightarrow> \<not> ReservationOverlaps r begins expiresAt) \<and>
     (\<forall>l \<in> set (Leases st). ls_GPU l \<in> set (ra_GPUs args) \<and> ls_Active l \<and> wo_now w 2 < ls_ExpiresAt l \<longrightarrow> ls_ExpiresAt l \<le> begins) \<and>
     (begins \<le> wo_now w 2 \<longrightarrow> (\<exists>ps. (wo_FreshProcesses w = Inr ps \<or> wo_Processes w = Inr ps) \<and>
        (\<forall>g \<in> set (ra_GPUs args). \<exists>k. \<forall>p \<in> set ps. \<not> occupies (authorizer_at w k) (cloneEnforcementState st) g p)))))"
proof -
  from assms(2,3) obtain s where s: "ValidateRootKey (wo_env w 0) (ra_RootKey args) (nd_store n) = (s, Inr True)"
    and r: "register_reserved w args (n\<lparr>nd_store := s\<rparr>) = (n', Inr res)"
    by (auto simp: dispatch_register_def handler_Inr Let_def split: if_splits)
  from same_data_ValidateRootKey [OF s] have d: "sto_state s = sto_state (nd_store n)" "sto_loaded s"
    using assms(1) by (simp_all add: same_dataD)
  then have st: "sto_state (nd_store (n\<lparr>nd_store := s\<rparr>)) = sto_state (nd_store n)" "sto_loaded (nd_store (n\<lparr>nd_store := s\<rparr>))"
    by simp_all
  from ValidateRootKey_True [OF s]
  have "root_key_on_file (fst (ReadOrCreateRootKey (wo_env w 0) (nd_store n))) (TrimSpace (ra_RootKey args))" by auto
  then show ?thesis using register_reserved_free [OF st(2) r, unfolded st(1)] by (rule conjI)
qed

end
