(* ===== verification/Jobs_Theorems.thy ===== *)
theory Jobs_Theorems
  imports Jobs
begin

text \<open>
  What job telemetry promises: no job is lost or counted twice. Whatever the daemon does, the
  executions reported as started are those reported as finished together with those it still tracks,
  each as often as it was started. The contract of one operation is a locale; every operation is an
  instance, and the promise follows by induction over the runs of the daemon.
\<close>

section \<open>Association lists\<close>

lemma put_new: "k \<notin> fst ` set m \<Longrightarrow> put k v m = m @ [(k, v)]"
  by (simp add: put_def)

lemma map_of_update_first: "map_of m k = Some w \<Longrightarrow>
    mset (map f (update_first (\<lambda>e. fst e = k) (\<lambda>_. (k, v)) m)) + {#f (k, w)#} = mset (map f m) + {#f (k, v)#}"
  by (induction m) auto

text \<open>Writing a key that is present exchanges its value.\<close>

lemma put_old:
  assumes "map_of m k = Some w"
  shows "mset (map f (put k v m)) + {#f (k, w)#} = mset (map f m) + {#f (k, v)#}"
proof -
  from assms have "k \<in> fst ` set m" by (force dest: map_of_SomeD)
  with map_of_update_first [OF assms] show ?thesis by (simp add: put_def)
qed

lemma keys_put: "map fst (put k v m) = (if k \<in> fst ` set m then map fst m else map fst m @ [k])"
  by (simp add: put_def) (subst map_update_first, auto)

lemma distinct_put: "distinct (map fst m) \<Longrightarrow> distinct (map fst (put k v m))"
  by (simp add: keys_put)

lemma remove_key_split:
  "distinct (map fst m) \<Longrightarrow> map_of m k = Some v \<Longrightarrow> mset (map f m) = mset (map f (remove_key k m)) + {#f (k, v)#}"
proof (induction m)
  case (Cons e m)
  show ?case
  proof (cases "fst e = k")
    case True
    with Cons.prems have "e = (k, v)" "k \<notin> fst ` set m" by (auto simp: prod_eq_iff)
    moreover from this(2) have "filter (\<lambda>e. fst e \<noteq> k) m = m" by (auto intro!: filter_True)
    ultimately show ?thesis by (simp add: remove_key_def)
  next
    case False
    with Cons.prems have "map_of m k = Some v" "distinct (map fst m)" by auto
    from Cons.IH [OF this(2,1)] False show ?thesis by (simp add: remove_key_def)
  qed
qed simp

lemma distinct_remove_key: "distinct (map fst m) \<Longrightarrow> distinct (map fst (remove_key k m))"
  by (simp add: remove_key_def distinct_map_filter)

lemma subseq_distinct: "subseq xs ys \<Longrightarrow> distinct ys \<Longrightarrow> distinct xs"
  by (induction rule: list_emb.induct) (auto dest: list_emb_set)

section \<open>The balance of executions\<close>

definition observed_ids :: "(string \<times> observedTelemetryJob) list \<Rightarrow> string multiset" where
  "observed_ids js = mset (map (\<lambda>kj. je_ExecutionID (oj_event (snd kj))) js)"

definition run_ids :: "(string \<times> JobEvent) list \<Rightarrow> string multiset" where
  "run_ids js = mset (map (\<lambda>kj. je_ExecutionID (snd kj)) js)"

text \<open>The executions under way, and those an event list reports as started or finished.\<close>

definition tracked :: "Jobs \<Rightarrow> string multiset" where
  "tracked j = observed_ids (jb_observed j) + run_ids (jb_run j)"

definition reported :: "job_kind \<Rightarrow> job_event list \<Rightarrow> string multiset" where
  "reported kind es = mset (map (\<lambda>e. je_ExecutionID (fst (snd e))) (filter (\<lambda>e. fst e = kind) es))"

definition well_keyed :: "Jobs \<Rightarrow> bool" where
  "well_keyed j \<longleftrightarrow> distinct (map fst (jb_observed j)) \<and> distinct (map fst (jb_run j))"

definition balanced :: "Jobs \<Rightarrow> Jobs \<Rightarrow> job_event list \<Rightarrow> bool" where
  "balanced j j' es \<longleftrightarrow> reported JobStarted es + tracked j = reported JobFinished es + tracked j'"

lemma reported_append [simp]: "reported k (es @ fs) = reported k es + reported k fs"
  by (simp add: reported_def)

lemma reported_Nil [simp]: "reported k [] = {#}"
  by (simp add: reported_def)

lemma reported_Cons [simp]: "reported k (jobBatchEvent k' e at # es) =
    (if k' = k then add_mset (je_ExecutionID e) (reported k es) else reported k es)"
  by (simp add: reported_def jobBatchEvent_def)

lemma balanced_refl [simp]: "balanced j j []"
  by (simp add: balanced_def)

lemma balanced_trans: "balanced j j' es \<Longrightarrow> balanced j' j'' fs \<Longrightarrow> balanced j j'' (es @ fs)"
  unfolding balanced_def reported_append by (metis add.assoc add.commute)

text \<open>The contract of an operation on the tables, under its guard.\<close>

locale job_operation =
  fixes guard :: "Jobs \<Rightarrow> bool" and run :: "Jobs \<Rightarrow> Jobs \<times> job_event list"
  assumes keeps_keys: "well_keyed j \<Longrightarrow> guard j \<Longrightarrow> well_keyed (fst (run j))"
    and balances: "well_keyed j \<Longrightarrow> guard j \<Longrightarrow> balanced j (fst (run j)) (snd (run j))"
begin

lemma extends_run:
  assumes "well_keyed j" "guard j" "run j = (j', fs)"
    and "reported JobStarted es = reported JobFinished es + tracked j"
  shows "well_keyed j' \<and> reported JobStarted (es @ fs) = reported JobFinished (es @ fs) + tracked j'"
proof
  show "well_keyed j'" using keeps_keys [OF assms(1,2)] assms(3) by simp
  have "balanced j j' fs" using balances [OF assms(1,2)] assms(3) by simp
  then show "reported JobStarted (es @ fs) = reported JobFinished (es @ fs) + tracked j'"
    unfolding balanced_def reported_append assms(4) by (metis add.assoc add.commute)
qed

end

section \<open>Jobs started through the daemon\<close>

lemma run_ids_put_new: "k \<notin> fst ` set m \<Longrightarrow> run_ids (put k e m) = add_mset (je_ExecutionID e) (run_ids m)"
  by (simp add: run_ids_def put_new)

lemma run_ids_put_old: "map_of m k = Some e \<Longrightarrow> je_ExecutionID e' = je_ExecutionID e \<Longrightarrow> run_ids (put k e' m) = run_ids m"
  using put_old [of m k e "\<lambda>kj. je_ExecutionID (snd kj)" e'] by (simp add: run_ids_def)

lemma observed_ids_put_new:
  "k \<notin> fst ` set m \<Longrightarrow> observed_ids (put k job m) = add_mset (je_ExecutionID (oj_event job)) (observed_ids m)"
  by (simp add: observed_ids_def put_new)

lemma observed_ids_put_old:
  "map_of m k = Some job \<Longrightarrow> je_ExecutionID (oj_event job') = je_ExecutionID (oj_event job) \<Longrightarrow>
     observed_ids (put k job' m) = observed_ids m"
  using put_old [of m k job "\<lambda>kj. je_ExecutionID (oj_event (snd kj))" job'] by (simp add: observed_ids_def)

lemmas put_ids = run_ids_put_new run_ids_put_old observed_ids_put_new observed_ids_put_old

interpretation remember: job_operation "\<lambda>j. au_ID au \<notin> fst ` set (jb_run j)"
  "rememberRunJob env snapshot token au pid command at"
  by unfold_locales
    (auto simp: rememberRunJob_def Let_def well_keyed_def distinct_put balanced_def tracked_def put_ids)

interpretation root_exit: job_operation "\<lambda>_. True" "updateRunJobRootExit authID exitCode at"
  by unfold_locales
    (auto simp: updateRunJobRootExit_def Let_def well_keyed_def distinct_put balanced_def tracked_def put_ids
      split: option.splits)

lemma run_ids_remove: "distinct (map fst m) \<Longrightarrow> map_of m k = Some e \<Longrightarrow>
    run_ids m = add_mset (je_ExecutionID e) (run_ids (remove_key k m))"
  using remove_key_split [of m k e "\<lambda>kj. je_ExecutionID (snd kj)"] by (simp add: run_ids_def)

interpretation finish: job_operation "\<lambda>_. True" "takeFinishedRunJob authID reason at"
  by unfold_locales
    (auto simp: takeFinishedRunJob_def well_keyed_def distinct_remove_key balanced_def tracked_def
      run_ids_remove split: option.splits)

section \<open>Jobs seen on a GPU\<close>

text \<open>A step of the loop over the decisions: it adds events, and these balance the tables.\<close>

definition follows :: "Track \<Rightarrow> Track \<Rightarrow> bool" where
  "follows t u \<longleftrightarrow> (\<exists>es. tr_events u = tr_events t @ es \<and> well_keyed (tr_jobs u) \<and>
     balanced (tr_jobs t) (tr_jobs u) es)"

lemma follows_refl: "well_keyed (tr_jobs t) \<Longrightarrow> follows t t"
  by (auto simp: follows_def)

lemma follows_trans: "follows t u \<Longrightarrow> follows u v \<Longrightarrow> follows t v"
  using balanced_trans by (fastforce simp: follows_def)

lemma follows_marked: "follows (t\<lparr>tr_groups := G, tr_seen := S\<rparr>) u \<longleftrightarrow> follows t u"
  by (simp add: follows_def)

lemma track_run_gpu_follows: "well_keyed (tr_jobs t) \<Longrightarrow> follows t (track_run_gpu a g now t)"
  by (auto simp: track_run_gpu_def follows_def Let_def well_keyed_def distinct_put balanced_def tracked_def put_ids
      split: option.splits prod.splits)

lemma start_observed_follows:
  assumes "well_keyed (tr_jobs t)" "map_of (jb_observed (tr_jobs t)) key = None"
  shows "follows t (start_observed env au d gs now key t)"
proof -
  from assms(2) have "key \<notin> fst ` set (jb_observed (tr_jobs t))" by (simp add: map_of_eq_None_iff)
  with assms(1) show ?thesis
    by (auto simp: start_observed_def follows_def Let_def well_keyed_def distinct_put balanced_def tracked_def put_ids
      split: prod.splits)
qed

lemma refresh_observed_follows:
  assumes "well_keyed (tr_jobs t)" "map_of (jb_observed (tr_jobs t)) key = Some job"
  shows "follows t (refresh_observed job d gs now key t)"
  using assms
  by (auto simp: refresh_observed_def follows_def Let_def well_keyed_def distinct_put balanced_def tracked_def put_ids
      split: prod.splits)

lemma track_decision_follows:
  assumes w: "well_keyed (tr_jobs t)"
  shows "follows t (track_decision env st now d t)"
proof -
  have new: "follows t (start_observed env au d gs now key (t\<lparr>tr_groups := G, tr_seen := S\<rparr>))"
    if "map_of (jb_observed (tr_jobs t)) key = None" for au gs key G S
    using start_observed_follows [of "t\<lparr>tr_groups := G, tr_seen := S\<rparr>" key] w that by (simp add: follows_marked)
  have old: "follows t (refresh_observed job d gs now key (t\<lparr>tr_groups := G, tr_seen := S\<rparr>))"
    if "map_of (jb_observed (tr_jobs t)) key = Some job" for job gs key G S
    using refresh_observed_follows [of "t\<lparr>tr_groups := G, tr_seen := S\<rparr>" key] w that by (simp add: follows_marked)
  show ?thesis
    by (simp add: track_decision_def Let_def follows_refl [OF w] track_run_gpu_follows [OF w] new old
        split: option.splits)
qed

lemma track_decisions_follows:
  "well_keyed (tr_jobs t) \<Longrightarrow> follows t (fold (track_decision env st now) ds t)"
proof (induction ds arbitrary: t)
  case (Cons d ds)
  have d: "follows t (track_decision env st now d t)" by (rule track_decision_follows [OF Cons.prems])
  then have "well_keyed (tr_jobs (track_decision env st now d t))" by (auto simp: follows_def)
  from follows_trans [OF d Cons.IH [OF this]] show ?case by simp
qed (simp add: follows_refl)

lemma continue_jobs_balanced:
  "continue_jobs env now ended js = (js', es) \<Longrightarrow> map fst js' = map fst js \<and>
     reported JobStarted es + observed_ids js = reported JobFinished es + observed_ids js'"
  by (induction js arbitrary: js' es)
    (auto simp: observed_ids_def finished_event_def Let_def split: prod.splits if_splits)

lemma forget_jobs_balanced:
  "forget_jobs seen js = (js', es) \<Longrightarrow> subseq (map fst js') (map fst js) \<and>
     reported JobStarted es = {#} \<and> observed_ids js = reported JobFinished es + observed_ids js'"
proof (induction js arbitrary: js' es)
  case (Cons kj js)
  obtain k job where kj: "kj = (k, job)" by fastforce
  obtain js1 es1 where f: "forget_jobs seen js = (js1, es1)" by fastforce
  from Cons.IH [OF f] Cons.prems show ?case
    by (auto simp: kj f observed_ids_def finished_event_def split: if_splits)
qed (simp add: observed_ids_def)

lemma trackObservedTelemetryJobs_balanced:
  assumes "well_keyed j"
  shows "well_keyed (fst (trackObservedTelemetryJobs env st ds now j)) \<and>
    balanced j (fst (trackObservedTelemetryJobs env st ds now j)) (snd (trackObservedTelemetryJobs env st ds now j))"
proof (cases "jb_enabled j")
  case True
  let ?t0 = "\<lparr>tr_jobs = j, tr_seen = [], tr_groups = (\<lambda>_. []), tr_events = []\<rparr>"
  define t where "t = fold (track_decision env st now) ds ?t0"
  from track_decisions_follows [of ?t0 env st now ds] assms
  have t: "well_keyed (tr_jobs t)" "balanced j (tr_jobs t) (tr_events t)" by (auto simp: t_def follows_def)
  obtain js1 es1 where c: "continue_jobs env now (outlives_reservation (tr_seen t) (tr_groups t))
      (jb_observed (tr_jobs t)) = (js1, es1)" by fastforce
  obtain js2 es2 where f: "forget_jobs (tr_seen t) js1 = (js2, es2)" by fastforce
  have r: "trackObservedTelemetryJobs env st ds now j = ((tr_jobs t)\<lparr>jb_observed := js2\<rparr>, tr_events t @ es1 @ es2)"
    using True c f by (simp add: trackObservedTelemetryJobs_def Let_def flip: t_def)
  note cb = continue_jobs_balanced [OF c] and fb = forget_jobs_balanced [OF f]
  from t(1) cb fb have "well_keyed ((tr_jobs t)\<lparr>jb_observed := js2\<rparr>)"
    by (auto simp: well_keyed_def intro: subseq_distinct)
  moreover have "balanced (tr_jobs t) ((tr_jobs t)\<lparr>jb_observed := js2\<rparr>) (es1 @ es2)"
    using cb fb by (simp add: balanced_def tracked_def ac_simps)
  ultimately show ?thesis using balanced_trans [OF t(2)] r by simp
qed (use assms in \<open>simp add: trackObservedTelemetryJobs_def\<close>)

interpretation track: job_operation "\<lambda>_. True" "trackObservedTelemetryJobs env st ds now"
  using trackObservedTelemetryJobs_balanced by unfold_locales blast+

lemma complete_item_balanced:
  assumes "well_keyed j" "complete_item env resolved now item (j, es) = (j', es')"
  shows "well_keyed j' \<and> tracked j' = tracked j \<and>
    reported JobStarted es' = reported JobStarted es \<and> reported JobFinished es' = reported JobFinished es"
  using assms
  by (auto simp: complete_item_def Let_def well_keyed_def distinct_put tracked_def put_ids
      split: if_splits option.splits)

lemma complete_items_balanced:
  "well_keyed j \<Longrightarrow> fold (complete_item env resolved now) items (j, es) = (j', es') \<Longrightarrow>
     well_keyed j' \<and> tracked j' = tracked j \<and>
     reported JobStarted es' = reported JobStarted es \<and> reported JobFinished es' = reported JobFinished es"
proof (induction items arbitrary: j es)
  case (Cons i items)
  obtain j1 es1 where i: "complete_item env resolved now i (j, es) = (j1, es1)" by fastforce
  from complete_item_balanced [OF Cons.prems(1) i] Cons.IH [of j1 es1] Cons.prems(2) show ?case by (simp add: i)
qed simp

lemma completePendingRuntimeContexts_balanced:
  assumes "well_keyed j" "completePendingRuntimeContexts env resolved now j = (j', es)"
  shows "well_keyed j' \<and> balanced j j' es"
proof -
  let ?j = "j\<lparr>jb_pending := []\<rparr>"
  have j: "well_keyed ?j" "tracked ?j = tracked j" using assms(1) by (simp_all add: well_keyed_def tracked_def)
  show ?thesis
  proof (cases "jb_pending j = [] \<or> je_Runtime env = None")
    case True
    with assms(2) have "j' = ?j" "es = []" by (simp_all add: completePendingRuntimeContexts_def)
    with j show ?thesis by (simp add: balanced_def)
  next
    case False
    with assms(2) have "fold (complete_item env resolved now) (jb_pending j) (?j, []) = (j', es)"
      by (simp add: completePendingRuntimeContexts_def)
    from complete_items_balanced [OF j(1) this] j(2) show ?thesis by (simp add: balanced_def)
  qed
qed

lemmas completePending_pair = completePendingRuntimeContexts_balanced [OF _ surjective_pairing]

interpretation complete: job_operation "\<lambda>_. True" "completePendingRuntimeContexts env resolved now"
  using completePending_pair by unfold_locales blast+

section \<open>Runs of the daemon\<close>

text \<open>
  A daemon starts with empty tables. Every operation appends the events it reports. An authorization
  identifier is remembered once: the store draws a fresh one for each run.
\<close>

inductive job_run :: "JobEnv \<Rightarrow> Jobs \<Rightarrow> job_event list \<Rightarrow> bool" for env where
  start: "job_run env \<lparr>jb_enabled = enabled, jb_observed = [], jb_run = [], jb_pending = []\<rparr> []"
| remember: "job_run env j es \<Longrightarrow> au_ID au \<notin> fst ` set (jb_run j) \<Longrightarrow>
    rememberRunJob env snapshot token au pid command at j = (j', fs) \<Longrightarrow> job_run env j' (es @ fs)"
| root_exit: "job_run env j es \<Longrightarrow> updateRunJobRootExit authID exitCode at j = (j', fs) \<Longrightarrow> job_run env j' (es @ fs)"
| finish: "job_run env j es \<Longrightarrow> takeFinishedRunJob authID reason at j = (j', fs) \<Longrightarrow> job_run env j' (es @ fs)"
| track: "job_run env j es \<Longrightarrow> trackObservedTelemetryJobs env st ds now j = (j', fs) \<Longrightarrow> job_run env j' (es @ fs)"
| complete: "job_run env j es \<Longrightarrow> completePendingRuntimeContexts env resolved now j = (j', fs) \<Longrightarrow> job_run env j' (es @ fs)"

lemma job_run_balanced:
  "job_run env j es \<Longrightarrow> well_keyed j \<and> reported JobStarted es = reported JobFinished es + tracked j"
proof (induction rule: job_run.induct)
  case (start enabled)
  show ?case by (simp add: well_keyed_def tracked_def observed_ids_def run_ids_def)
next
  case (remember j es au snapshot token pid command at j' fs)
  then show ?case using remember.extends_run by blast
next
  case (root_exit j es authID exitCode at j' fs)
  then show ?case using root_exit.extends_run by blast
next
  case (finish j es authID reason at j' fs)
  then show ?case using finish.extends_run by blast
next
  case (track j es st ds now j' fs)
  then show ?case using track.extends_run by blast
next
  case (complete j es resolved now j' fs)
  then show ?case using complete.extends_run by blast
qed

text \<open>
  C18: no job is lost and none is counted twice. After any run of the daemon, the executions reported
  as started are, with multiplicities, the executions reported as finished and those still tracked:
  a job that left the tables was reported finished once, and nothing finishes that was not started.
\<close>

theorem jobs_conserved:
  assumes "job_run env j es"
  shows "reported JobStarted es = reported JobFinished es + tracked j"
  using job_run_balanced [OF assms] by blast

definition example_job_env :: JobEnv where
  "example_job_env = \<lparr>je_bootID = ''b'', je_sha256 = (\<lambda>_. []), je_LookupUsername = (\<lambda>_. []), je_Runtime = None\<rparr>"

theorem jobs_conserved_witness:
  "\<exists>j es. reported JobStarted es = reported JobFinished es + tracked j \<and> tracked j = {#''exec_x''#}"
proof -
  let ?j0 = "\<lparr>jb_enabled = True, jb_observed = [], jb_run = [], jb_pending = []\<rparr>"
  let ?au = "zero_Authorization\<lparr>au_ID := ''x''\<rparr>"
  obtain j fs where r: "rememberRunJob example_job_env None t ?au 7 [] 5 ?j0 = (j, fs)" by fastforce
  have run: "job_run example_job_env j ([] @ fs)"
    by (rule job_run.remember [OF job_run.start _ r]) simp
  have "tracked j = {#''exec_x''#}"
    using r by (auto simp: rememberRunJob_def Let_def new_run_job_def put_def tracked_def observed_ids_def run_ids_def)
  with jobs_conserved [OF run] show ?thesis by (intro exI [of _ j] exI [of _ "[] @ fs"]) simp
qed

section \<open>Command lines\<close>

lemma telemetry_args_bounds:
  "length (telemetry_args shown remaining as) \<le> 128 - shown \<and>
     sum_list (map length (telemetry_args shown remaining as)) \<le> remaining \<and>
     list_all ValidString (telemetry_args shown remaining as)"
proof (induction shown remaining as rule: telemetry_args.induct)
  case (2 shown remaining a as)
  define v where "v = ToValidUTF8 a"
  define w where "w = (if length v > remaining then strip_invalid (take remaining v) else v)"
  have len: "length w \<le> remaining"
    using prefix_length_le [OF strip_invalid_prefix [of "take remaining v"]] by (auto simp: w_def)
  have "ValidString w" by (simp add: w_def v_def ValidString_strip_invalid ValidString_ToValidUTF8)
  with 2 [of v w] len show ?case by (auto simp: v_def w_def Let_def)
qed simp

text \<open>
  whatever bytes a process puts in its command line, the command a job event carries has at most
  128 arguments and 16 KiB, and every argument is valid UTF-8.
\<close>

theorem boundedTelemetryCommand_bounds:
  "length (boundedTelemetryCommand c) \<le> 128 \<and> sum_list (map length (boundedTelemetryCommand c)) \<le> 16384 \<and>
     list_all ValidString (boundedTelemetryCommand c)"
  using telemetry_args_bounds [of 0 16384 c] by (simp add: boundedTelemetryCommand_def)

end
