(* ===== verification/Daemon_Examples.thy ===== *)
theory Daemon_Examples
  imports Daemon_Theorems Enforce_Theorems Jobs_Theorems
begin

text \<open>A concrete node and world on which the guarantees of the request handlers are applied.\<close>

definition example_fs :: CgroupFS where
  "example_fs = \<lparr>cg_read = (\<lambda>_ _. Inr []), cg_kill = (\<lambda>_ _. None), cg_remove = (\<lambda>_ _. None),
     cg_removeControl = (\<lambda>_ _. None), cg_plainDirectory = (\<lambda>_ _. False)\<rparr>"

definition example_world :: "time \<Rightarrow> World" where
  "example_world t = \<lparr>wo_env = (\<lambda>_. example_env), wo_now = (\<lambda>_. t), wo_GPUCount = 4,
     wo_authorizer = example_authorizer, wo_ctx = (\<lambda>_. None), wo_FreshProcesses = Inr [], wo_Processes = Inr [],
     wo_newID = ''auth_9'', wo_ResolveDockerContainer = (\<lambda>_. Inl ErrRuntimeNotFound), wo_dockerBusy = False,
     wo_DockerContainers = Some (Inr []), wo_lookupUID = (\<lambda>_. Inr 1000), wo_hasCrictl = False, wo_hasKubectl = False,
     wo_jobs = example_job_env, wo_cgroup = \<lparr>cc_root = ''/sys/fs/cgroup/gpuardian'', cc_cwd = Inr ''/'', cc_dryRun = False\<rparr>,
     wo_fs = example_fs\<rparr>"

definition example_node :: "Store \<Rightarrow> Node" where
  "example_node s = \<lparr>nd_store = s, nd_evictionClean = Map.empty, nd_terminations = [], nd_lastKillError = [],
     nd_lastKillErrorAt = 0, nd_lastGPUError = [], nd_lastGPUErrorAt = 0, nd_jobs = \<lparr>jb_enabled = True, jb_observed = [],
     jb_run = [], jb_pending = []\<rparr>, nd_cgroups = [], nd_events = [], nd_audits = []\<rparr>"

lemma example_node_store [simp]: "nd_store (example_node s) = s"
  by (simp add: example_node_def)

lemma example_coherent: "coherent example_booked" "coherent example_store"
  using store_reach_in_order [OF example_booked_reach] store_reach_in_order [OF example_store_reach]
  by (simp_all add: in_order_def)

definition example_register :: RegisterArgs where
  "example_register = \<lparr>ra_RootKey = example_root_key, ra_Mode = ''reserved'', ra_Name = ''bob'', ra_Purpose = [],
     ra_ExternalSessionID = ''session-2'', ra_UserKeyID = [], ra_GPUs = [2, 3], ra_TTL = ''1h'',
     ra_StartsAt = None, ra_ExpiresAt = None\<rparr>"

theorem reservation_granted_on_free_gpus_witness:
  "\<exists>n' res. dispatch_register (example_world 1000) example_register (example_node example_booked) = (n', Inr res) \<and>
     root_key_on_file (fst (ReadOrCreateRootKey example_env example_booked)) example_root_key \<and>
     distinct (ra_GPUs example_register)"
proof -
  let ?r = "dispatch_register (example_world 1000) example_register (example_node example_booked)"
  have "\<not> isl (snd ?r)" by code_simp
  then obtain res where r: "?r = (fst ?r, Inr res)" by (metis isl_def old.sum.exhaust prod.collapse)
  have l: "sto_loaded (nd_store (example_node example_booked))" by simp
  have m: "NormalizeTokenMode (ra_Mode example_register) = TokenModeReserved"
    and k: "TrimSpace (ra_RootKey example_register) = example_root_key" by code_simp+
  from reservation_granted_on_free_gpus [OF l m r]
  have "root_key_on_file (fst (ReadOrCreateRootKey example_env example_booked)) example_root_key"
    "distinct (ra_GPUs example_register)" by (auto simp: k example_world_def)
  with r show ?thesis by blast
qed

definition example_bypass :: BypassAddArgs where
  "example_bypass = \<lparr>ba_RootKey = example_root_key, ba_Type = ''pid'', ba_PID = 42, ba_Command = [], ba_UID = 0,
     ba_TTL = ''1h'', ba_Reason = ''maintenance''\<rparr>"

theorem bypass_bound_witness:
  "\<exists>n' rule. addBypassLocked (example_world 1000) example_bypass 1000 (example_node example_store) = (n', Inr rule) \<and>
     BypassMatch [rule] example_info 2000 ''boot'' \<and> 2000 < br_ExpiresAt rule"
proof -
  let ?r = "addBypassLocked (example_world 1000) example_bypass 1000 (example_node example_store)"
  have "\<not> isl (snd ?r)" by code_simp
  then obtain rule where r: "?r = (fst ?r, Inr rule)" by (metis isl_def old.sum.exhaust prod.collapse)
  have "BypassMatch [projr (snd ?r)] example_info 2000 ''boot''" by code_simp
  then have m: "BypassMatch [rule] example_info 2000 ''boot''" using r by (metis snd_conv sum.sel(2))
  have "sto_loaded (nd_store (example_node example_store))" by simp
  from bypass_bound [OF this r] m have "2000 < br_ExpiresAt rule" by blast
  with r m show ?thesis by blast
qed

text \<open>The secret that registering carol's key hands out.\<close>

definition example_secret :: string where
  "example_secret = ''gk_050505050505050505050505050505050505050505050505''"

definition example_claimed_node :: Node where
  "example_claimed_node = example_node (fst (RegisterSoftToken example_env example_root_key ''carol'' 1000 example_booked))"

definition carol_token :: Token where
  "carol_token = \<lparr>tk_ID = ''tok_0606060606060606'',
     tk_Hash = ''676b5f3035303530353035303530353035303530353035303530353035303530'', tk_Secret = example_secret, tk_Name = ''carol'',
     tk_Mode = TokenModeClaimed, tk_Version = 0, tk_Managed = False, tk_CreatedAt = 1000, tk_ExpiresAt = 0, tk_Revoked = False\<rparr>"

definition claimed_state :: State where
  "claimed_state = booked_state\<lparr>Tokens := [alice_token, carol_token]\<rparr>"

lemma claimed_store_eval:
  "fst (RegisterSoftToken example_env example_root_key ''carol'' 1000 example_booked) =
     example_booked\<lparr>sto_state := claimed_state, sto_committed := claimed_state, sto_draws := 7\<rparr>"
  by code_simp

lemma example_claimed_eval [code]:
  "example_claimed_node = example_node (example_booked\<lparr>sto_state := claimed_state, sto_committed := claimed_state, sto_draws := 7\<rparr>)"
  unfolding example_claimed_node_def claimed_store_eval ..

lemma example_claimed_reach: "store_reach 1000 (nd_store example_claimed_node)"
  unfolding example_claimed_node_def example_node_store
  by (rule store_reach.step [OF example_booked_reach order_refl]) (rule store_stepI, rule op_soft)

lemma example_claimed_ok: "sto_loaded (nd_store example_claimed_node)" "coherent (nd_store example_claimed_node)"
  using store_reach_in_order [OF example_claimed_reach] by (simp_all add: in_order_def)

definition example_wanted :: Authorization where
  "example_wanted = (new_authorization (example_world 1000) 1000 (HashToken example_env example_secret) zero_Token [] 1000 1000
     ModeDocker)\<lparr>au_ContainerPattern := ''trainer''\<rparr>"

abbreviation example_admission :: "Node \<times> (srv_error + Authorization)" where
  "example_admission \<equiv>
     persistAuthorization (example_world 1000) 3 example_secret zero_Token example_wanted example_claimed_node"

lemma example_admitted:
  obtains au where "example_admission = (fst example_admission, Inr au)"
proof -
  have "\<not> isl (snd example_admission)" by code_simp
  then show ?thesis using that by (metis isl_def old.sum.exhaust prod.collapse)
qed

text \<open>A node whose keys the gateway manages, with one key; an authorization asked for by its identifier.\<close>

definition dora_token :: Token where
  "dora_token = carol_token\<lparr>tk_ID := ''uk_dora'', tk_Secret := [], tk_Name := ''dora'', tk_Mode := TokenModeManaged, tk_Version := 3,
     tk_Managed := True\<rparr>"

definition managed_node :: Node where
  "managed_node = example_node (example_store\<lparr>sto_state := empty_State\<lparr>Tokens := [dora_token], ManagedKeys := True\<rparr>,
     sto_committed := empty_State\<lparr>Tokens := [dora_token], ManagedKeys := True\<rparr>\<rparr>)"

abbreviation managed_admission :: "Node \<times> (srv_error + Authorization)" where
  "managed_admission \<equiv> persistAuthorization (example_world 1000) 3 [] dora_token example_wanted managed_node"

theorem authorization_backed_witness:
  "(\<exists>k tok au. backing_key (example_world 1000) k example_secret (sto_state (nd_store (fst example_admission))) au tok \<and>
      au_ContainerPattern au = ''trainer'') \<and>
   (\<exists>k tok au. backing_managed_key (example_world 1000) k dora_token (sto_state (nd_store (fst managed_admission))) au tok \<and>
      au_ContainerPattern au = ''trainer'' \<and> au_TokenMode au = TokenModeManaged)"
proof
  obtain au where a: "example_admission = (fst example_admission, Inr au)" by (rule example_admitted)
  have "TrimSpace example_secret \<noteq> []" by code_simp
  with authorization_backed [OF example_claimed_ok a]
  show "\<exists>k tok au. backing_key (example_world 1000) k example_secret (sto_state (nd_store (fst example_admission))) au tok \<and>
      au_ContainerPattern au = ''trainer''"
    by (auto simp: example_wanted_def same_scope_def)
next
  have "\<not> isl (snd managed_admission)" by code_simp
  then obtain au where a: "managed_admission = (fst managed_admission, Inr au)"
    by (metis isl_def old.sum.exhaust prod.collapse)
  have n: "sto_loaded (nd_store managed_node)" by code_simp
  have "validateStateBounds (sto_state (nd_store managed_node)) = None" by code_simp
  then have c: "coherent (nd_store managed_node)" by (simp add: managed_node_def coherent_def empty_State_def)
  have t: "TrimSpace [] = []" by code_simp
  have p: "au_ContainerPattern example_wanted = ''trainer''" by (simp add: example_wanted_def)
  from authorization_backed [OF n c a] t obtain k tok where
    "backing_managed_key (example_world 1000) k dora_token (sto_state (nd_store (fst managed_admission))) au tok"
    "same_scope au example_wanted" by auto
  with p show "\<exists>k tok au. backing_managed_key (example_world 1000) k dora_token (sto_state (nd_store (fst managed_admission))) au tok \<and>
      au_ContainerPattern au = ''trainer'' \<and> au_TokenMode au = TokenModeManaged"
    by (intro exI [of _ k] exI [of _ tok] exI [of _ au]) (simp add: same_scope_def backing_managed_key_def)
qed

end
