(* ===== verification/Go_Text.thy ===== *)
theory Go_Text
  imports Match
begin

text \<open>
  More of Go's \<open>strings\<close>, \<open>strconv\<close> and \<open>encoding/hex\<close>: fields, decimal numbers and hexadecimal
  text, with the facts on them that the parsers use.
\<close>

section \<open>Fields and numbers\<close>

text \<open>\<open>strings.Fields\<close> on ASCII text, and \<open>strconv.Atoi\<close>, which refuses what does not fit 64 bits.\<close>

definition is_space_byte :: "char \<Rightarrow> bool" where
  "is_space_byte c \<longleftrightarrow> is_space_seq [c]"

fun fields_of :: "string \<Rightarrow> string \<Rightarrow> string list" where
  "fields_of word [] = (if word = [] then [] else [rev word])"
| "fields_of word (c # cs) = (if is_space_byte c then (if word = [] then fields_of [] cs else rev word # fields_of [] cs)
     else fields_of (c # word) cs)"

definition Fields :: "string \<Rightarrow> string list" where
  "Fields s = fields_of [] s"

definition digit_value :: "char \<Rightarrow> int option" where
  "digit_value c = (let n = of_char c :: nat in if 48 \<le> n \<and> n \<le> 57 then Some (int n - 48) else None)"

fun decimal :: "int \<Rightarrow> string \<Rightarrow> int option" where
  "decimal acc [] = Some acc"
| "decimal acc (c # cs) = (case digit_value c of None \<Rightarrow> None | Some d \<Rightarrow> decimal (10 * acc + d) cs)"

definition Atoi :: "string \<Rightarrow> int option" where
  "Atoi s = (let body = (case s of c # cs \<Rightarrow> if c = CHR ''-'' \<or> c = CHR ''+'' then cs else s | [] \<Rightarrow> []) in
     if body = [] then None
     else case decimal 0 body of None \<Rightarrow> None
     | Some v \<Rightarrow> let v = (if hd s = CHR ''-'' then - v else v) in
         if v < - (2 ^ 63) \<or> v > 2 ^ 63 - 1 then None else Some v)"

text \<open>\<open>strconv.ParseUint(s, 10, 64)\<close>: digits only, and a value that fits.\<close>

definition ParseUint :: "string \<Rightarrow> uint64 option" where
  "ParseUint s = (if s = [] then None else case decimal 0 s of None \<Rightarrow> None
     | Some v \<Rightarrow> if v > 2 ^ 64 - 1 then None else Some (word_of_int v))"

lemma fields_of_plain:
  "list_all (\<lambda>c. \<not> is_space_byte c) w \<Longrightarrow> fields_of acc (w @ rest) = fields_of (rev w @ acc) rest"
  by (induction w arbitrary: acc) auto

lemma Fields_word:
  assumes "list_all (\<lambda>c. \<not> is_space_byte c) w" "w \<noteq> []" "is_space_byte c"
  shows "Fields (w @ c # rest) = w # Fields rest"
  using fields_of_plain [OF assms(1), of "[]" "c # rest"] assms by (simp add: Fields_def)

lemma Fields_last_word:
  assumes "list_all (\<lambda>c. \<not> is_space_byte c) w" "w \<noteq> []"
  shows "Fields w = [w]"
  using fields_of_plain [OF assms(1), of "[]" "[]"] assms by (simp add: Fields_def)

lemma Fields_space: "is_space_byte c \<Longrightarrow> Fields (c # rest) = Fields rest"
  by (simp add: Fields_def)

text \<open>Words joined by single spaces are read back.\<close>

fun join_words :: "string list \<Rightarrow> string" where
  "join_words [] = []"
| "join_words [w] = w"
| "join_words (w # v # ws) = w @ CHR '' '' # join_words (v # ws)"

definition word_ok :: "string \<Rightarrow> bool" where
  "word_ok w \<longleftrightarrow> w \<noteq> [] \<and> list_all (\<lambda>c. \<not> is_space_byte c) w"

lemma is_space_blank: "is_space_byte CHR '' ''"
  by (simp add: is_space_byte_def is_space_seq_def)

lemma Fields_join_words: "list_all word_ok ws \<Longrightarrow> Fields (join_words ws) = ws"
proof (induction ws rule: join_words.induct)
  case (2 w)
  then show ?case by (simp add: Fields_last_word word_ok_def)
next
  case (3 w v ws)
  then show ?case by (simp add: Fields_word word_ok_def is_space_blank)
qed (simp add: Fields_def)

section \<open>Hexadecimal text\<close>

definition hex_value :: "char \<Rightarrow> nat option" where
  "hex_value c = (let n = of_char c :: nat in
     if 48 \<le> n \<and> n \<le> 57 then Some (n - 48) else if 97 \<le> n \<and> n \<le> 102 then Some (n - 87)
     else if 65 \<le> n \<and> n \<le> 70 then Some (n - 55) else None)"

text \<open>\<open>hex.DecodeString\<close>; any invalid byte or an odd length is an error.\<close>

fun hex_DecodeString :: "string \<Rightarrow> string option" where
  "hex_DecodeString [] = Some []"
| "hex_DecodeString [c] = None"
| "hex_DecodeString (c # d # s) = (case (hex_value c, hex_value d, hex_DecodeString s) of
     (Some h, Some l, Some bs) \<Rightarrow> Some (char_of (16 * h + l) # bs) | _ \<Rightarrow> None)"

lemma hex_value_digit: "n < 16 \<Longrightarrow> hex_value (hex_digit n) = Some n"
  by (auto simp: hex_value_def hex_digit_def Let_def)

lemma hex_Decode_Encode [simp]: "hex_DecodeString (hex_EncodeToString bs) = Some bs"
proof (induction bs)
  case (Cons b bs)
  have "(of_char b :: nat) < 256" by (rule nat_of_char_less_256)
  then have "hex_value (hex_digit (of_char b div 16)) = Some (of_char b div 16)"
    "hex_value (hex_digit (of_char b mod 16)) = Some (of_char b mod 16)"
    by (simp_all add: hex_value_digit less_mult_imp_div_less)
  with Cons show ?case by (simp add: hex_EncodeToString_def Let_def)
qed (simp add: hex_EncodeToString_def)

end
