(* ===== verification/Daemon_Run.thy ===== *)
theory Daemon_Run
  imports Daemon_Allow Go_Text
begin

text \<open>
  Commands run under a key (\<open>runCommand\<close> of \<open>internal/daemon/server.go\<close> and the argument checks of
  \<open>internal/daemon/request_args.go\<close>). The daemon admits the run (a control group and an active
  authorization), launches the command inside the group, activates the authorization with the process
  number, waits, and releases what the run held. The lock is not held from one of these stages to the
  next, so each stage is a function of its own and other requests may run between them.

  The record \<open>RunEnv\<close> holds what the kernel answers during one run.
\<close>

section \<open>Arguments\<close>

record RunArgs =
  rn_Name :: string
  rn_Command :: "string list"
  rn_Workdir :: string
  rn_Env :: "string list"

abbreviation (input) maxRunCommandArgs :: nat where "maxRunCommandArgs \<equiv> 1024"
abbreviation (input) maxRunCommandBytes :: nat where "maxRunCommandBytes \<equiv> 262144"
abbreviation (input) maxRunEnvEntries :: nat where "maxRunEnvEntries \<equiv> 4096"
abbreviation (input) maxRunEnvBytes :: nat where "maxRunEnvBytes \<equiv> 524288"

fun bytes_scan :: "nat \<Rightarrow> nat \<Rightarrow> string \<Rightarrow> string list \<Rightarrow> srv_error option" where
  "bytes_scan maxBytes used label [] = None"
| "bytes_scan maxBytes used label (v # vs) =
     (if int (length v) > int maxBytes - int used then Some (SE_too_long label)
      else bytes_scan maxBytes (used + length v) label vs)"

definition validateStringArray :: "string list \<Rightarrow> nat \<Rightarrow> nat \<Rightarrow> string \<Rightarrow> srv_error option" where
  "validateStringArray vs maxEntries maxBytes label =
     (if length vs > maxEntries then Some (SE_too_long label) else bytes_scan maxBytes 0 label vs)"

definition validateRunArgs :: "RunArgs \<Rightarrow> srv_error option" where
  "validateRunArgs args = first_error [
     validateRequestValue ''run name'' (rn_Name args),
     if rn_Command args = [] then Some (SE_msg ''command is required'') else None,
     validateStringArray (rn_Command args) maxRunCommandArgs maxRunCommandBytes ''command'',
     validateStringArray (rn_Env args) maxRunEnvEntries maxRunEnvBytes ''env'',
     validateRequestValue ''workdir'' (rn_Workdir args)]"

lemma bytes_scan_None: "bytes_scan m t label vs = None \<longleftrightarrow> vs = [] \<or> t + sum_list (map length vs) \<le> m"
proof (induction vs arbitrary: t)
  case (Cons v vs)
  have "(int (length v) > int m - int t) \<longleftrightarrow> \<not> t + length v \<le> m" by auto
  then show ?case using Cons.IH [of "t + length v"] by (cases vs) (simp_all add: add.assoc)
qed simp

lemma validateStringArray_None:
  "validateStringArray vs k m label = None \<longleftrightarrow> length vs \<le> k \<and> sum_list (map length vs) \<le> m"
  by (auto simp: validateStringArray_def bytes_scan_None not_less)

lemma validateRunArgs_None:
  "validateRunArgs args = None \<longleftrightarrow> rn_Command args \<noteq> [] \<and> length (rn_Name args) \<le> maxRequestValue \<and>
     length (rn_Workdir args) \<le> maxRequestValue \<and>
     length (rn_Command args) \<le> maxRunCommandArgs \<and> sum_list (map length (rn_Command args)) \<le> maxRunCommandBytes \<and>
     length (rn_Env args) \<le> maxRunEnvEntries \<and> sum_list (map length (rn_Env args)) \<le> maxRunEnvBytes"
  by (auto simp: validateRunArgs_def first_error_None_iff validateStringArray_None)

section \<open>The group of a run\<close>

text \<open>\<open>filepath.Clean\<close> of any path, \<open>filepath.Join\<close> and \<open>filepath.Base\<close>.\<close>

fun clean_relative :: "string list \<Rightarrow> string list \<Rightarrow> string list" where
  "clean_relative stack [] = rev stack"
| "clean_relative stack (e # es) =
     (if e = [] \<or> e = ''.'' then clean_relative stack es
      else if e = ''..'' then
        (if stack = [] \<or> hd stack = ''..'' then clean_relative (e # stack) es else clean_relative (tl stack) es)
      else clean_relative (e # stack) es)"

definition filepath_Clean :: "string \<Rightarrow> string" where
  "filepath_Clean p = (if prefix [slash] p then path_Clean p
     else let es = clean_relative [] (Split slash p) in if es = [] then ''.'' else join_slash es)"

definition filepath_Join :: "string \<Rightarrow> string \<Rightarrow> string" where
  "filepath_Join a b = (if a = [] \<and> b = [] then [] else if a = [] then filepath_Clean b
     else filepath_Clean (a @ [slash] @ b))"

definition filepath_Base :: "string \<Rightarrow> string" where
  "filepath_Base p = (if p = [] then ''.'' else
     let es = path_elements p in if es = [] then [slash] else last es)"

definition createCgroup :: "World \<Rightarrow> fs_error option \<Rightarrow> string \<Rightarrow> fs_error + string \<times> string" where
  "createCgroup w mkdir ident =
     (let root = cc_root (wo_cgroup w); path = filepath_Join root ident in
      case mkdir of Some e \<Rightarrow> Inl e
      | None \<Rightarrow> let rel = (if prefix (cgroup_mount @ ''/'') path then drop (length (cgroup_mount @ ''/'')) path else path) in
          Inr (path, if rel = path then filepath_Join (filepath_Base root) ident else rel))"

record StartedCommand =
  sd_Argv :: "string list"
  sd_Dir :: string
  sd_Env :: "string list"
  sd_Credential :: "(int \<times> int \<times> nat list) option"
  sd_CgroupFD :: "string option"

record RunEnv =
  re_euid :: int
  re_commandEnv :: "string list \<Rightarrow> string list"
  re_unsafe :: bool
  re_mkdir :: "fs_error option"
  re_stat :: "fs_error option"
  re_open :: "fs_error option"
  re_pipes :: "nat \<Rightarrow> srv_error option"
  re_start :: "nat \<Rightarrow> srv_error + int"
  re_move :: "fs_error option"
  re_wait :: "srv_error option"
  re_exitCode :: int
  re_procs :: "fs_error + string"
  re_rootAlive :: bool

definition openCgroupFD :: "RunEnv \<Rightarrow> fs_error + bool" where
  "openCgroupFD re = (case re_stat re of
     Some FsNotExist \<Rightarrow> Inr False
   | Some e \<Rightarrow> Inl e
   | None \<Rightarrow> (case re_open re of Some e \<Rightarrow> Inl e | None \<Rightarrow> Inr True))"

text \<open>The command as it will be started; \<open>i\<close> numbers the attempts.\<close>

definition prepareRunCommand ::
  "RunEnv \<Rightarrow> nat \<Rightarrow> RunArgs \<Rightarrow> peer \<Rightarrow> bool \<Rightarrow> string \<Rightarrow> srv_error + StartedCommand" where
  "prepareRunCommand re i args p useCgroupFD path = (case re_pipes re i of Some e \<Rightarrow> Inl e
     | None \<Rightarrow> Inr \<lparr>sd_Argv = rn_Command args, sd_Dir = rn_Workdir args, sd_Env = re_commandEnv re (rn_Env args),
         sd_Credential = (if re_euid re = 0 \<and> pr_UID p \<ge> 0 \<and> pr_GID p \<ge> 0
           then Some (pr_UID p, pr_GID p, pr_Groups p) else None),
         sd_CgroupFD = (if useCgroupFD then Some path else None)\<rparr>)"

definition cgroupEmptyOrOnlyExitedRoot ::
  "World \<Rightarrow> RunEnv \<Rightarrow> string \<Rightarrow> int \<Rightarrow> cgroup_history \<Rightarrow> cgroup_history \<times> bool" where
  "cgroupEmptyOrOnlyExitedRoot w re path rootPID h =
     (case cgroupEmpty (wo_fs w) path h of (h, vacant) \<Rightarrow>
        if vacant then (h, True)
        else (h @ [ReadProcs path], case re_procs re of Inl _ \<Rightarrow> False
          | Inr data \<Rightarrow> Fields data \<noteq> [] \<and> \<not> re_rootAlive re \<and> list_all (\<lambda>f. Atoi f = Some rootPID) (Fields data)))"

section \<open>Stages\<close>

text \<open>The deferred clean-up of a run that is not kept for the monitor.\<close>

definition run_cleanup :: "World \<Rightarrow> Authorization \<Rightarrow> bool \<Rightarrow> bool \<Rightarrow> Node \<Rightarrow> Node" where
  "run_cleanup w au authorizationActive cleanupCgroup n =
     (let n = (if authorizationActive then fst (releaseAuthorization w (au_ID au) n) else n) in
      if cleanupCgroup then n\<lparr>nd_cgroups := fst (removeCgroup (wo_fs w) (au_CgroupPath au) (nd_cgroups n))\<rparr> else n)"

text \<open>Up to the stored authorization; the answer has the authorization and the prepared command.\<close>

definition run_admit ::
  "World \<Rightarrow> RunEnv \<Rightarrow> string \<Rightarrow> Token \<Rightarrow> string \<Rightarrow> peer \<Rightarrow> RunArgs \<Rightarrow> (Authorization \<times> StartedCommand) handler" where
  "run_admit w re tokenSecret token tokenHash p args =
     check (if pr_UID p < 0 \<or> pr_GID p < 0 then Some (SE_msg ''verified peer credentials are required'') else None)
     (ensureTokenCanAuthorize (wo_env w 1) tokenHash token (wo_now w 1)
     (check (validateRunArgs args) (\<lambda>n.
       (let au = (new_authorization w (wo_now w 2) tokenHash token (TrimSpace (rn_Name args)) (pr_UID p) (pr_GID p) ModeBare)
                   \<lparr>au_Command := rn_Command args\<rparr> in
        case createCgroup w (re_mkdir re) (au_ID au) of
          Inl e \<Rightarrow> (n, Inl (SE_msg ''create cgroup''))
        | Inr (path, rel) \<Rightarrow>
          (let au = au\<lparr>au_CgroupPath := path, au_CgroupRel := rel\<rparr>;
               abort = (\<lambda>e n. (run_cleanup w au False True n, Inl e)) in
           case openCgroupFD re of Inl e \<Rightarrow> abort (SE_msg ''open cgroup'') n
           | Inr useFD \<Rightarrow>
             if \<not> useFD \<and> \<not> re_unsafe re
             then abort (SE_msg ''atomic cgroup placement is unavailable; refusing to start command'') n
             else (case prepareRunCommand re 0 args p useFD path of Inl e \<Rightarrow> abort e n
             | Inr cmd \<Rightarrow> (case addAuthorization w 3 tokenSecret au n of
                 (n, Inl e) \<Rightarrow> abort e n
               | (n, Inr au) \<Rightarrow> (n, Inr (au, cmd)))))))))"

text \<open>Starting the command: the process number and the command that was started.\<close>

definition run_launch ::
  "World \<Rightarrow> RunEnv \<Rightarrow> peer \<Rightarrow> RunArgs \<Rightarrow> Authorization \<Rightarrow> StartedCommand \<Rightarrow> (int \<times> StartedCommand \<times> bool) handler" where
  "run_launch w re p args au cmd n =
     (let abort = (\<lambda>e. (run_cleanup w au True True n, Inl e));
          moved = (\<lambda>pid cmd. if sd_CgroupFD cmd \<noteq> None then (n, Inr (pid, cmd, False))
            else (case re_move re of Some e \<Rightarrow> abort (SE_msg ''move to cgroup'') | None \<Rightarrow> (n, Inr (pid, cmd, True)))) in
      case re_start re 0 of
        Inr pid \<Rightarrow> moved pid cmd
      | Inl e \<Rightarrow>
          if sd_CgroupFD cmd = None \<or> \<not> re_unsafe re then abort e
          else (case prepareRunCommand re 1 args p False (au_CgroupPath au) of Inl e \<Rightarrow> abort e
            | Inr cmd \<Rightarrow> (case re_start re 1 of Inl e \<Rightarrow> abort e | Inr pid \<Rightarrow> moved pid cmd)))"

text \<open>
  Binding the authorization to the process, if the key still allows it. If not, the command is
  terminated, and the authorization is kept for the monitor when its group cannot be stopped.
\<close>

definition activate_locked :: "World \<Rightarrow> string \<Rightarrow> Authorization \<Rightarrow> int \<Rightarrow> Authorization handler" where
  "activate_locked w tokenSecret au pid =
     (let now = wo_now w 20 in
      validateToken (wo_env w 20) tokenSecret now (\<lambda>(token, tokenHash).
        check (if tokenHash \<noteq> au_TokenHash au then Some (SE_msg ''token identity changed while command was starting'') else None)
        (ensureTokenCanAuthorize (wo_env w 21) tokenHash token now
          (store_call (ActivateAuthorization (wo_env w 22) (au_ID au) pid) answer))))"

definition run_activate ::
  "World \<Rightarrow> string \<Rightarrow> Token \<Rightarrow> RunArgs \<Rightarrow> Authorization \<Rightarrow> int \<Rightarrow> Authorization handler" where
  "run_activate w tokenSecret token args au pid n =
     (case activate_locked w tokenSecret au pid n of
        (n, Inl e) \<Rightarrow>
          (case stopAndRemoveManagedCgroup (wo_cgroup w) (wo_fs w) (au_CgroupPath au) (nd_cgroups n) of
             (h, err) \<Rightarrow> let n = n\<lparr>nd_cgroups := h\<rparr> in
               (if err = None then run_cleanup w au True True n else n, Inl e))
      | (n, Inr au) \<Rightarrow>
          let snapshot = (case EnforcementSnapshot (wo_env w 23) (nd_store n) of (_, Inr st) \<Rightarrow> Some st | _ \<Rightarrow> None);
              (j, es) = rememberRunJob (wo_jobs w) snapshot token au (au_RootPID au) (rn_Command args) (wo_now w 23) (nd_jobs n) in
          (emit (map EmitJob es) (n\<lparr>nd_jobs := j\<rparr>), Inr au))"

text \<open>After the command has exited: its code, or the error of a failed release.\<close>

definition job_step :: "(Jobs \<Rightarrow> Jobs \<times> job_event list) \<Rightarrow> Node \<Rightarrow> Node" where
  "job_step f n = (case f (nd_jobs n) of (j, es) \<Rightarrow> emit (map EmitJob es) (n\<lparr>nd_jobs := j\<rparr>))"

definition run_complete :: "World \<Rightarrow> RunEnv \<Rightarrow> Authorization \<Rightarrow> int handler" where
  "run_complete w re au n =
     (let code = re_exitCode re;
          n = job_step (updateRunJobRootExit (au_ID au) code (wo_now w 30)) n;
          result = (case re_wait re of Some e \<Rightarrow> if code = 0 then Inl e else Inr code | None \<Rightarrow> Inr code) in
      case cgroupEmptyOrOnlyExitedRoot w re (au_CgroupPath au) (au_RootPID au) (nd_cgroups n) of (h, finished) \<Rightarrow>
        let n = n\<lparr>nd_cgroups := h\<rparr>; finish = job_step (finishRunJob (au_ID au) ''exited'' (wo_now w 31)) in
        if \<not> finished then (n, result)
        else (case releaseAuthorization w (au_ID au) n of
           (n, Inl e) \<Rightarrow> (run_cleanup w au True True (finish n), Inl e)
         | (n, Inr _) \<Rightarrow> (case removeCgroup (wo_fs w) (au_CgroupPath au) (nd_cgroups n) of (h, err) \<Rightarrow>
             let n = n\<lparr>nd_cgroups := h\<rparr> in
             if err \<noteq> None \<and> err \<noteq> Some FsNotExist
             then (run_cleanup w au False True n, Inl (SE_msg ''remove cgroup''))
             else (finish n, result))))"

section \<open>A run is confined and runs as its user\<close>

lemma clean_elements_append_plain:
  "e \<noteq> [] \<Longrightarrow> e \<noteq> ''.'' \<Longrightarrow> e \<noteq> ''..'' \<Longrightarrow> clean_elements stack (es @ [e]) = clean_elements stack es @ [e]"
  by (induction stack es rule: clean_elements.induct) auto

lemma Split_snoc: "slash \<notin> set e \<Longrightarrow> Split slash (p @ slash # e) = Split slash p @ [e]"
proof (induction p)
  case Nil
  then show ?case by (simp add: Split_no_sep)
next
  case (Cons c p)
  obtain x xs where s: "Split slash p = x # xs" by (cases "Split slash p") auto
  with Cons show ?case by simp
qed

text \<open>An identifier that is a file name names a group directly below the root.\<close>

definition file_name :: "string \<Rightarrow> bool" where
  "file_name e \<longleftrightarrow> e \<noteq> [] \<and> e \<noteq> ''.'' \<and> e \<noteq> ''..'' \<and> slash \<notin> set e"

lemma path_Clean_child:
  assumes "file_name e"
  shows "path_elements (path_Clean (p @ slash # e)) = path_elements (path_Clean p) @ [e]"
proof -
  have c: "clean_elements [] (Split slash (p @ slash # e)) = clean_elements [] (Split slash p) @ [e]"
    using assms by (simp add: Split_snoc clean_elements_append_plain file_name_def)
  have plain: "plain_elements (clean_elements [] (Split slash q))" for q
    using clean_elements_plain [of "[]" "Split slash q"] Split_elements_no_sep by (auto simp: plain_elements_def)
  show ?thesis using plain [of "p @ slash # e"] plain [of p] by (simp add: path_Clean_def path_elements_join c)
qed

lemma path_Clean_idem: "path_Clean (path_Clean p) = path_Clean p"
proof -
  from path_Clean_proper [of p] obtain es where es: "proper_elements es" "path_Clean p = join_path es" by blast
  have keep: "clean_elements stack xs = rev stack @ xs" if "proper_elements xs" for stack xs
    using that by (induction xs arbitrary: stack) (auto simp: proper_elements_def plain_elements_def)
  have split: "clean_elements [] (Split slash (join_path es)) = clean_elements [] (path_elements (join_path es))" for es
  proof -
    have "clean_elements st xs = clean_elements st (filter (\<lambda>e. e \<noteq> []) xs)" for st xs
      by (induction st xs rule: clean_elements.induct) auto
    then show ?thesis by (simp add: path_elements_def)
  qed
  show ?thesis
    using es keep [of es "[]"] by (simp add: path_Clean_def [of "join_path es"] split path_elements_join proper_elements_def)
qed

lemma join_path_rooted: "prefix [slash] (join_path es)"
  by (cases es) (auto simp: join_path_def)

lemma createCgroup_inside:
  assumes "createCgroup w m ident = Inr (path, rel)" "file_name ident" "prefix [slash] (cc_root (wo_cgroup w))"
  shows "cgroupPathWithinRoot (cc_cwd (wo_cgroup w)) (cc_root (wo_cgroup w)) path = Inr True"
proof -
  let ?root = "cc_root (wo_cgroup w)" and ?cwd = "cc_cwd (wo_cgroup w)"
  have path: "path = path_Clean (?root @ slash # ident)"
    using assms by (auto simp: createCgroup_def filepath_Join_def filepath_Clean_def Let_def split: option.splits if_splits)
  then have abs: "prefix [slash] path" using path_Clean_proper [of "?root @ slash # ident"] join_path_rooted by metis
  have r: "filepath_Abs ?cwd ?root = Inr (path_Clean ?root)" using assms(3) by (simp add: filepath_Abs_def)
  have p: "filepath_Abs ?cwd path = Inr path" using abs path_Clean_idem path by (simp add: filepath_Abs_def)
  have "strict_prefix (path_elements (path_Clean ?root)) (path_elements path)"
    using path_Clean_child [OF assms(2)] path by (simp add: strict_prefix_def)
  with within_root_prefix [OF r p] show ?thesis by simp
qed

end
