(* ===== verification/Run_Theorems.thy ===== *)
theory Run_Theorems
  imports Daemon_Run Daemon_Theorems Jobs_Theorems
begin

text \<open>
  What a run under a key guarantees: the command is the one that was asked for, runs as the user who
  asked, inside a control group the daemon manages; its authorization is bound to the process only
  while the key is in force; and what the daemon forgets when the group cannot be removed.
\<close>

section \<open>Placement\<close>

lemma addAuthorizationLocked_scope:
  "addAuthorizationLocked w secret au k n = (n', Inr au') \<Longrightarrow>
     au_CgroupPath au' = au_CgroupPath au \<and> au_ID au' = au_ID au"
  by (auto simp: addAuthorizationLocked_def validateToken_def ensureTokenCanAuthorize_def handler_Inr Let_def
      split: if_splits)

lemma addAuthorization_scope:
  assumes "addAuthorization w k secret au n = (n', Inr au')"
  shows "au_CgroupPath au' = au_CgroupPath au \<and> au_ID au' = au_ID au"
proof -
  obtain n1 r where a: "addAuthorizationLocked w secret au k n = (n1, r)" by fastforce
  show ?thesis
    using assms a addAuthorizationLocked_scope
    by (auto simp: addAuthorization_def withAuthorizationCapacity_def split: sum.splits if_splits prod.splits bool.splits)
qed

lemma run_admit_Inr:
  assumes "run_admit w re secret token h p args n = (n', Inr (au, cmd))"
  obtains useFD rel where "0 \<le> pr_UID p" "0 \<le> pr_GID p" "validateRunArgs args = None"
    "createCgroup w (re_mkdir re) (wo_newID w) = Inr (au_CgroupPath au, rel)" "openCgroupFD re = Inr useFD"
    "useFD \<or> re_unsafe re" "prepareRunCommand re 0 args p useFD (au_CgroupPath au) = Inr cmd"
proof -
  let ?au0 = "(new_authorization w (wo_now w 2) h token (TrimSpace (rn_Name args)) (pr_UID p) (pr_GID p) ModeBare)
    \<lparr>au_Command := rn_Command args\<rparr>"
  have ident: "au_ID ?au0 = wo_newID w" by (simp add: new_authorization_def)
  from assms obtain m path rel useFD n1 where
    "0 \<le> pr_UID p" "0 \<le> pr_GID p" "validateRunArgs args = None"
    "createCgroup w (re_mkdir re) (wo_newID w) = Inr (path, rel)" "openCgroupFD re = Inr useFD"
    "useFD \<or> re_unsafe re" "prepareRunCommand re 0 args p useFD path = Inr cmd"
    "addAuthorization w 3 secret (?au0\<lparr>au_CgroupPath := path, au_CgroupRel := rel\<rparr>) m = (n1, Inr au)"
    unfolding run_admit_def ensureTokenCanAuthorize_def
    by (auto simp: handler_Inr Let_def ident not_less split: if_splits sum.splits prod.splits)
  with addAuthorization_scope [OF this(8)] that show ?thesis by auto
qed

lemma prepareRunCommand_Inr:
  "prepareRunCommand re i args p useFD path = Inr cmd \<Longrightarrow>
     sd_Argv cmd = rn_Command args \<and> sd_CgroupFD cmd = (if useFD then Some path else None) \<and>
     (re_euid re = 0 \<longrightarrow> 0 \<le> pr_UID p \<longrightarrow> 0 \<le> pr_GID p \<longrightarrow>
        sd_Credential cmd = Some (pr_UID p, pr_GID p, pr_Groups p))"
  by (auto simp: prepareRunCommand_def split: option.splits)

text \<open>
  C11: a command runs as its user and inside its group. When the daemon starts a command for a key, the
  arguments are the requested ones; a daemon that runs as root has dropped to the verified user, group
  and supplementary groups of the peer; the control group lies strictly below the managed root; and
  the command is born in it, or, in the test-only fallback, was moved into it before the run goes on.
\<close>

theorem run_isolated:
  assumes "run_admit w re secret token h p args n = (n1, Inr (au, cmd))"
    and "run_launch w re p args au cmd n2 = (n3, Inr (pid, started, moved))"
    and "file_name (wo_newID w)" "prefix [slash] (cc_root (wo_cgroup w))"
  shows "sd_Argv started = rn_Command args \<and> rn_Command args \<noteq> [] \<and>
    (re_euid re = 0 \<longrightarrow> sd_Credential started = Some (pr_UID p, pr_GID p, pr_Groups p)) \<and>
    cgroupPathWithinRoot (cc_cwd (wo_cgroup w)) (cc_root (wo_cgroup w)) (au_CgroupPath au) = Inr True \<and>
    (sd_CgroupFD started = Some (au_CgroupPath au) \<or> re_unsafe re \<and> moved)"
  using assms(1)
proof (rule run_admit_Inr)
  fix useFD rel
  assume a: "0 \<le> pr_UID p" "0 \<le> pr_GID p" "validateRunArgs args = None"
    "createCgroup w (re_mkdir re) (wo_newID w) = Inr (au_CgroupPath au, rel)"
    "useFD \<or> re_unsafe re" "prepareRunCommand re 0 args p useFD (au_CgroupPath au) = Inr cmd"
  note inside = createCgroup_inside [OF a(4) assms(3,4)]
  note first = prepareRunCommand_Inr [OF a(6)]
  have again: "sd_Argv c = rn_Command args \<and> sd_CgroupFD c = None \<and>
      (re_euid re = 0 \<longrightarrow> sd_Credential c = Some (pr_UID p, pr_GID p, pr_Groups p))"
    if "prepareRunCommand re (Suc 0) args p False (au_CgroupPath au) = Inr c" for c
    using prepareRunCommand_Inr [OF that] a(1,2) by simp
  show ?thesis
    using assms(2) inside first a(1,2,3,5) validateRunArgs_None [of args]
    by (auto simp: run_launch_def Let_def split: sum.splits if_splits option.splits dest!: again)
qed

section \<open>Activation\<close>

lemma ActivateAuthorization_Inr:
  assumes "sto_loaded s" "ActivateAuthorization env ident pid s = (t, Inr au)"
  shows "0 < pid \<and> au_ID au = ident \<and> au_RootPID au = pid \<and> au_Active au \<and> \<not> au_Revoked au \<and>
    au \<in> set (Authorizations (sto_state t))"
proof -
  from assms obtain a where a: "0 < pid" "find (\<lambda>a. au_ID a = ident) (Authorizations (sto_state s)) = Some a"
    "au_Active a" "\<not> au_Revoked a" and
    sv: "save_and_return env (put_state s ((sto_state s)\<lparr>Authorizations :=
       update_first (\<lambda>a. au_ID a = ident) (\<lambda>a. a\<lparr>au_RootPID := pid\<rparr>) (Authorizations (sto_state s))\<rparr>))
         (a\<lparr>au_RootPID := pid\<rparr>) = (t, Inr au)"
    by (auto simp: ActivateAuthorization_def Let_def split: if_splits option.splits)
  have mem: "a\<lparr>au_RootPID := pid\<rparr> \<in> set (update_first (\<lambda>a. au_ID a = ident) (\<lambda>a. a\<lparr>au_RootPID := pid\<rparr>) xs)"
    if "find (\<lambda>a. au_ID a = ident) xs = Some a" for xs
    using that by (induction xs) (auto split: if_splits)
  from find_SomeD [OF a(2)] a mem [OF a(2)] save_and_return_Inr [OF sv] show ?thesis by auto
qed

text \<open>
  C17: a process is bound to an authorization only while its key is in force. When a run is activated,
  the secret still names a key that is valid at that moment and, if it is a reserved key, holds an
  active reservation; the stored authorization was neither released nor revoked while the command was
  starting and now carries the positive process number.
\<close>

theorem run_activation_checked:
  assumes "sto_loaded (nd_store n)" "run_activate w secret token args au pid n = (n', Inr au')"
  shows "0 < pid \<and> au_RootPID au' = pid \<and> au_ID au' = au_ID au \<and> au_Active au' \<and> \<not> au_Revoked au' \<and>
    au' \<in> set (Authorizations (sto_state (nd_store n'))) \<and>
    (\<exists>tok \<in> set (Tokens (sto_state (nd_store n))). tk_Hash tok = au_TokenHash au \<and>
       tk_Hash tok = HashToken (wo_env w 20) (TrimSpace secret) \<and> tokenActiveAt tok (wo_now w 20) \<and>
       (NormalizeTokenMode (tk_Mode tok) = TokenModeReserved \<longrightarrow>
          (\<exists>r \<in> set (Reservations (sto_state (nd_store n))). rs_TokenHash r = tk_Hash tok \<and>
             ReservationActiveAt r (wo_now w 20))))"
proof -
  obtain m r where m: "activate_locked w secret au pid n = (m, r)" by fastforce
  with assms(2) have r: "r = Inr au'" and st: "nd_store n' = nd_store m"
    by (auto simp: run_activate_def Let_def case_prod_unfold emit_def split: sum.splits)
  from assms(1) m [unfolded r activate_locked_def Let_def] show ?thesis
  proof (rule validateToken_Inr, goal_cases)
    case (1 tok)
    let ?tok = "tok\<lparr>tk_Mode := NormalizeTokenMode (tk_Mode tok)\<rparr>"
    from 1(5) have h: "tk_Hash tok = au_TokenHash au" and
      e: "ensureTokenCanAuthorize (wo_env w 21) (tk_Hash tok) ?tok (wo_now w 20)
        (store_call (ActivateAuthorization (wo_env w 22) (au_ID au) pid) answer) n = (m, Inr au')"
      by (auto simp: handler_Inr split: if_splits)
    note en = ensureTokenCanAuthorize_Inr [OF assms(1) e]
    from en(1) obtain s where "ActivateAuthorization (wo_env w 22) (au_ID au) pid (nd_store n) = (s, Inr au')"
      "nd_store m = s" by (auto simp: handler_Inr)
    with ActivateAuthorization_Inr [OF assms(1)] st h en(2) 1(2-4) show ?case by fastforce
  qed
qed

section \<open>A group that cannot be removed\<close>

lemma job_step_jobs: "nd_jobs (job_step f n) = fst (f (nd_jobs n))" "nd_store (job_step f n) = nd_store n"
  "nd_cgroups (job_step f n) = nd_cgroups n"
  by (simp_all add: job_step_def emit_def case_prod_unfold)

lemma put_present: "map_of (put k v m) k \<noteq> None"
proof -
  have "k \<in> set (map fst (put k v m))" by (simp add: keys_put)
  then show ?thesis by (simp add: map_of_eq_None_iff)
qed

text \<open>
  a run whose control group cannot be removed is never reported as finished. The command has
  exited, the group is empty and the authorization has been released, but when removing the group fails
  with anything but absence, the function returns before it ends the job: the job stays in the table
  while its authorization is no longer active, and the monitor looks at active authorizations only.
\<close>

theorem run_job_leaked:
  assumes "jb_enabled (nd_jobs n)" "map_of (jb_run (nd_jobs n)) (au_ID au) = Some job"
    and "cgroupEmptyOrOnlyExitedRoot w re (au_CgroupPath au) (au_RootPID au) (nd_cgroups n) = (h, True)"
    and "releaseAuthorization w (au_ID au)
      ((job_step (updateRunJobRootExit (au_ID au) (re_exitCode re) (wo_now w 30)) n)\<lparr>nd_cgroups := h\<rparr>) = (n1, Inr ())"
    and "removeCgroup (wo_fs w) (au_CgroupPath au) h = (h', Some (FsError e))"
  shows "map_of (jb_run (nd_jobs (fst (run_complete w re au n)))) (au_ID au) \<noteq> None \<and>
    nd_store (fst (run_complete w re au n)) = nd_store n1 \<and> isl (snd (run_complete w re au n))"
proof -
  let ?n0 = "(job_step (updateRunJobRootExit (au_ID au) (re_exitCode re) (wo_now w 30)) n)\<lparr>nd_cgroups := h\<rparr>"
  have keep: "nd_jobs n1 = nd_jobs ?n0" "nd_cgroups n1 = h"
    using assms(4) by (auto simp: releaseAuthorization_def handler_Inr emit_def)
  have "map_of (jb_run (nd_jobs ?n0)) (au_ID au) \<noteq> None"
    using assms(1,2) put_present by (simp add: job_step_jobs updateRunJobRootExit_def Let_def)
  with assms(3,4,5) keep show ?thesis
    by (simp add: run_complete_def Let_def job_step_jobs run_cleanup_def)
qed

end
