(* ===== verification/Daemon_Monitor.thy ===== *)
theory Daemon_Monitor
  imports Daemon_Base
begin

text \<open>
  The monitor of the daemon (\<open>internal/daemon/server.go\<close>): one pass over a GPU sample evicts the
  processes of ended entitlements, enforces the current ones, escalates earlier kills, tracks jobs,
  updates the claims, releases what has ended and prunes the state. Without a sample only managed
  control groups are cleaned and earlier kills escalated.

  The contexts of a pass, the order in which Go ranges over its maps and the memoized process reader
  are fields of \<open>Sampled\<close>; that the memo answers by one function is shown in the theory of the memo.
\<close>

section \<open>How often a scope was found unused\<close>

abbreviation (input) evictionCleanSamples :: int where "evictionCleanSamples \<equiv> 3"

definition scope_key :: "string \<Rightarrow> string \<Rightarrow> string" where
  "scope_key kind ident = kind @ '':'' @ ident"

text \<open>What an assessment says of a key of the counter table.\<close>

definition assessed :: "EvictionAssessment \<Rightarrow> string \<Rightarrow> bool option" where
  "assessed e key =
     (if prefix ''authorization:'' key then ea_Authorizations e (drop (length ''authorization:'') key)
      else if prefix ''lease:'' key then ea_Leases e (drop (length ''lease:'') key)
      else None)"

definition clean_count :: "(string \<Rightarrow> int option) \<Rightarrow> string \<Rightarrow> int" where
  "clean_count m key = (case m key of Some c \<Rightarrow> c | None \<Rightarrow> 0)"

definition recordEvictionAssessment :: "EvictionAssessment \<Rightarrow> (string \<Rightarrow> int option) \<Rightarrow> string \<Rightarrow> int option" where
  "recordEvictionAssessment e m = (\<lambda>key. case assessed e key of
     None \<Rightarrow> None | Some True \<Rightarrow> Some (clean_count m key + 1) | Some False \<Rightarrow> Some 0)"

definition evictionScopeReady :: "(string \<Rightarrow> int option) \<Rightarrow> string \<Rightarrow> string \<Rightarrow> bool" where
  "evictionScopeReady m kind ident \<longleftrightarrow> clean_count m (scope_key kind ident) \<ge> evictionCleanSamples"

section \<open>Audit events that repeat\<close>

abbreviation (input) minute :: duration where "minute \<equiv> 60 * second"

definition audit_event :: "time \<Rightarrow> string \<Rightarrow> string \<Rightarrow> int \<Rightarrow> string \<Rightarrow> string \<Rightarrow> AuditEvent" where
  "audit_event now kind message gpu leaseID user = \<lparr>ae_Time = now, ae_Kind = kind, ae_Message = message,
     ae_GPU = gpu, ae_PID = 0, ae_LeaseID = leaseID, ae_User = user\<rparr>"

definition acceptEnforcementAudit :: "time \<Rightarrow> AuditEvent \<Rightarrow> Node \<Rightarrow> Node \<times> bool" where
  "acceptEnforcementAudit now ev n =
     (if ae_Kind ev = ''kill_failed'' then
        (let key = itoa (ae_PID ev) @ '':'' @ ae_Message ev in
         if key = nd_lastKillError n \<and> time_Sub now (nd_lastKillErrorAt n) < minute then (n, False)
         else (n\<lparr>nd_lastKillError := key, nd_lastKillErrorAt := now\<rparr>, True))
      else (n, True))"

text \<open>The events of a pass that are kept; \<open>clock i\<close> is the time when the \<open>i\<close>-th is looked at.\<close>

fun accept_audits :: "(nat \<Rightarrow> time) \<Rightarrow> nat \<Rightarrow> AuditEvent list \<Rightarrow> Node \<Rightarrow> Node \<times> AuditEvent list" where
  "accept_audits clock i [] n = (n, [])"
| "accept_audits clock i (ev # evs) n = (case acceptEnforcementAudit (clock i) ev n of
     (n, ok) \<Rightarrow> (case accept_audits clock (Suc i) evs n of
       (n, kept) \<Rightarrow> (n, if ok then ev # kept else kept)))"

definition auditGPUProcessError :: "time \<Rightarrow> string \<Rightarrow> Node \<Rightarrow> Node" where
  "auditGPUProcessError now message n =
     (if message = nd_lastGPUError n \<and> time_Sub now (nd_lastGPUErrorAt n) < minute then n
      else append_audits [audit_event now ''error'' (''GPU process list failed: '' @ message) 0 [] []]
        (n\<lparr>nd_lastGPUError := message, nd_lastGPUErrorAt := now\<rparr>))"

definition auditGPUProcessRecovery :: "time \<Rightarrow> Node \<Rightarrow> Node" where
  "auditGPUProcessRecovery now n =
     (if nd_lastGPUError n = [] then n
      else append_audits [audit_event now ''recovery'' ''GPU process list recovered'' 0 [] []]
        (n\<lparr>nd_lastGPUError := [], nd_lastGPUErrorAt := 0\<rparr>))"

section \<open>Releasing what has ended\<close>

definition tokenValidityByHash :: "Token list \<Rightarrow> time \<Rightarrow> string \<Rightarrow> bool" where
  "tokenValidityByHash tokens now hash = (case tokens_by_hash tokens hash of None \<Rightarrow> False
     | Some t \<Rightarrow> \<not> tk_Revoked t \<and> (\<not> timeIsSet (tk_ExpiresAt t) \<or> now < tk_ExpiresAt t))"

definition tokenValidForCleanup :: "(string \<Rightarrow> bool) \<Rightarrow> string \<Rightarrow> bool" where
  "tokenValidForCleanup valid hash \<longleftrightarrow> hash = [] \<or> valid hash"

text \<open>
  The loop the four clean-ups share: a scope is not due (\<open>None\<close>), can be released (\<open>Some True\<close>) or
  has to wait (\<open>Some False\<close>), which makes the clean-up incomplete.
\<close>

fun release_scan ::
  "('a \<Rightarrow> cgroup_history \<Rightarrow> cgroup_history \<times> bool option) \<Rightarrow> 'a list \<Rightarrow> cgroup_history \<Rightarrow> cgroup_history \<times> 'a list \<times> bool" where
  "release_scan judge [] h = (h, [], True)"
| "release_scan judge (x # xs) h = (case judge x h of (h, verdict) \<Rightarrow>
     (case release_scan judge xs h of (h, released, ok) \<Rightarrow>
       (h, if verdict = Some True then x # released else released, ok \<and> verdict \<noteq> Some False)))"

definition stop_group :: "World \<Rightarrow> string \<Rightarrow> cgroup_history \<Rightarrow> cgroup_history \<times> bool option" where
  "stop_group w p h = (case stopAndRemoveManagedCgroup (wo_cgroup w) (wo_fs w) p h of (h, err) \<Rightarrow> (h, Some (err = None)))"

text \<open>Whether an authorization or a lease is no longer in force for the clean-up.\<close>

definition authorization_over :: "State \<Rightarrow> time \<Rightarrow> Authorization \<Rightarrow> bool" where
  "authorization_over st now au \<longleftrightarrow> au_Revoked au \<or> authorizationExpired au now \<or>
     \<not> tokenValidForCleanup (tokenValidityByHash (Tokens st) now) (au_TokenHash au)"

definition lease_over :: "State \<Rightarrow> time \<Rightarrow> Lease \<Rightarrow> bool" where
  "lease_over st now l \<longleftrightarrow> \<not> now < ls_ExpiresAt l \<or>
     \<not> tokenValidForCleanup (tokenValidityByHash (Tokens st) now) (ls_TokenHash l)"

definition judge_expired_authorization ::
  "World \<Rightarrow> State \<Rightarrow> time \<Rightarrow> Node \<Rightarrow> Authorization \<Rightarrow> cgroup_history \<Rightarrow> cgroup_history \<times> bool option" where
  "judge_expired_authorization w st now n au h =
     (if \<not> au_Active au \<or> \<not> authorization_over st now au then (h, None)
      else if au_CgroupPath au \<noteq> [] then stop_group w (au_CgroupPath au) h
      else (h, Some (au_Mode au = ModeBare \<or> evictionScopeReady (nd_evictionClean n) ''authorization'' (au_ID au))))"

definition judge_expired_lease ::
  "World \<Rightarrow> State \<Rightarrow> time \<Rightarrow> Node \<Rightarrow> Lease \<Rightarrow> cgroup_history \<Rightarrow> cgroup_history \<times> bool option" where
  "judge_expired_lease w st now n l h =
     (if \<not> ls_Active l \<or> \<not> lease_over st now l then (h, None)
      else if ls_CgroupPath l \<noteq> [] then stop_group w (ls_CgroupPath l) h
      else (h, Some (ls_Mode l = ModeBare \<or> evictionScopeReady (nd_evictionClean n) ''lease'' (ls_ID l))))"

text \<open>A bare run is finished when its group is empty and gone, or, without a group, its process.\<close>

definition run_finished :: "World \<Rightarrow> string \<Rightarrow> int \<Rightarrow> cgroup_history \<Rightarrow> cgroup_history \<times> bool option" where
  "run_finished w p pid h =
     (if p \<noteq> [] then (case finishedCgroup (wo_cgroup w) (wo_fs w) p h of
          (h, fin) \<Rightarrow> (h, if fin then Some True else None))
      else (h, if az_Proc (wo_authorizer w) \<noteq> None \<and> az_Exists (wo_authorizer w) pid then None else Some True))"

definition judge_finished_authorization ::
  "World \<Rightarrow> Authorization \<Rightarrow> cgroup_history \<Rightarrow> cgroup_history \<times> bool option" where
  "judge_finished_authorization w au h =
     (if \<not> au_Active au \<or> au_Mode au \<noteq> ModeBare \<or> au_RootPID au \<le> 0 then (h, None)
      else run_finished w (au_CgroupPath au) (au_RootPID au) h)"

definition judge_finished_lease :: "World \<Rightarrow> Lease \<Rightarrow> cgroup_history \<Rightarrow> cgroup_history \<times> bool option" where
  "judge_finished_lease w l h =
     (if \<not> ls_Active l \<or> ls_Mode l \<noteq> ModeBare \<or> ls_RootPID l \<le> 0 then (h, None)
      else run_finished w (ls_CgroupPath l) (ls_RootPID l) h)"

text \<open>The jobs of released bare runs end, each after the event that ends its authorization.\<close>

fun end_authorizations ::
  "time \<Rightarrow> (Authorization \<Rightarrow> string) \<Rightarrow> (Authorization \<Rightarrow> string option) \<Rightarrow> Authorization list \<Rightarrow> Jobs \<Rightarrow> Jobs \<times> node_event list" where
  "end_authorizations now reason jobReason [] j = (j, [])"
| "end_authorizations now reason jobReason (au # aus) j =
     (case (case jobReason au of None \<Rightarrow> (j, []) | Some r \<Rightarrow> takeFinishedRunJob (au_ID au) r now j) of (j, jes) \<Rightarrow>
      (case end_authorizations now reason jobReason aus j of (j, es) \<Rightarrow>
        (j, EmitAuthorizationEnded (au_ID au) (reason au) now # map EmitJob jes @ es)))"

definition end_and_audit ::
  "time \<Rightarrow> (Authorization \<Rightarrow> string) \<Rightarrow> (Authorization \<Rightarrow> string option) \<Rightarrow> (Authorization \<Rightarrow> AuditEvent) \<Rightarrow>
     Authorization list \<Rightarrow> Node \<Rightarrow> Node" where
  "end_and_audit now reason jobReason event aus n =
     (case end_authorizations now reason jobReason aus (nd_jobs n) of (j, es) \<Rightarrow>
        append_audits (map event aus) (emit es (n\<lparr>nd_jobs := j\<rparr>)))"

definition cleanupExpiredAuthorizationsState :: "World \<Rightarrow> nat \<Rightarrow> State \<Rightarrow> Node \<Rightarrow> Node \<times> bool" where
  "cleanupExpiredAuthorizationsState w k st n =
     (let now = wo_now w k;
          revoked = (\<lambda>au. au_Revoked au \<or> \<not> tokenValidForCleanup (tokenValidityByHash (Tokens st) now) (au_TokenHash au));
          reason = (\<lambda>au. if revoked au then ''revoked'' else ''expired'') in
      case release_scan (judge_expired_authorization w st now n) (Authorizations st) (nd_cgroups n) of
        (h, released, ok) \<Rightarrow>
          let n = n\<lparr>nd_cgroups := h\<rparr> in
          if released = [] then (n, ok)
          else (case ReleaseScopes (wo_env w k) [] (map au_ID released) [] (nd_store n) of
             (s, Inl e) \<Rightarrow> (n\<lparr>nd_store := s\<rparr>, False)
           | (s, Inr _) \<Rightarrow>
               (end_and_audit now reason (\<lambda>au. if au_Mode au = ModeBare then Some (reason au) else None)
                  (\<lambda>au. audit_event now (''authorization_'' @ reason au) (''authorization '' @ reason au) 0 (au_ID au) (au_Holder au))
                  released (n\<lparr>nd_store := s\<rparr>), ok)))"

definition cleanupFinishedBareAuthorizationsState :: "World \<Rightarrow> nat \<Rightarrow> State \<Rightarrow> Node \<Rightarrow> Node" where
  "cleanupFinishedBareAuthorizationsState w k st n =
     (let now = wo_now w k in
      case release_scan (judge_finished_authorization w) (Authorizations st) (nd_cgroups n) of
        (h, released, ok) \<Rightarrow>
          let n = n\<lparr>nd_cgroups := h\<rparr> in
          if released = [] then n
          else (case ReleaseScopes (wo_env w k) [] (map au_ID released) [] (nd_store n) of
             (s, Inl e) \<Rightarrow> n\<lparr>nd_store := s\<rparr>
           | (s, Inr _) \<Rightarrow>
               end_and_audit now (\<lambda>_. ''released'') (\<lambda>_. Some ''cgroup_empty'')
                 (\<lambda>au. audit_event now ''authorization_released'' ''bare authorization released after process exit'' 0
                    (au_ID au) (au_Holder au)) released (n\<lparr>nd_store := s\<rparr>)))"

definition cleanupExpiredLeasesState :: "World \<Rightarrow> nat \<Rightarrow> State \<Rightarrow> Node \<Rightarrow> Node \<times> bool" where
  "cleanupExpiredLeasesState w k st n =
     (let now = wo_now w k in
      case release_scan (judge_expired_lease w st now n) (Leases st) (nd_cgroups n) of
        (h, released, ok) \<Rightarrow>
          let n = n\<lparr>nd_cgroups := h\<rparr> in
          if released = [] then (n, ok)
          else (case ReleaseScopes (wo_env w k) [] [] (map ls_ID released) (nd_store n) of
             (s, Inl e) \<Rightarrow> (n\<lparr>nd_store := s\<rparr>, False)
           | (s, Inr _) \<Rightarrow>
               (append_audits (map (\<lambda>l. audit_event now ''lease_expired'' ''lease expired'' (ls_GPU l) (ls_ID l) []) released)
                  (n\<lparr>nd_store := s\<rparr>), ok)))"

definition cleanupFinishedBareLeasesState :: "World \<Rightarrow> nat \<Rightarrow> State \<Rightarrow> Node \<Rightarrow> Node" where
  "cleanupFinishedBareLeasesState w k st n =
     (let now = wo_now w k in
      case release_scan (judge_finished_lease w) (Leases st) (nd_cgroups n) of
        (h, released, ok) \<Rightarrow>
          let n = n\<lparr>nd_cgroups := h\<rparr> in
          if released = [] then n
          else (case ReleaseScopes (wo_env w k) [] [] (map ls_ID released) (nd_store n) of
             (s, Inl e) \<Rightarrow> n\<lparr>nd_store := s\<rparr>
           | (s, Inr _) \<Rightarrow>
               append_audits (map (\<lambda>l. audit_event now ''lease_released'' ''bare lease released after process exit''
                 (ls_GPU l) (ls_ID l) (ls_Holder l)) released) (n\<lparr>nd_store := s\<rparr>)))"

section \<open>Ended reservations\<close>

definition reservation_over :: "time \<Rightarrow> Reservation \<Rightarrow> bool" where
  "reservation_over now r \<longleftrightarrow> rs_Active r \<and> (rs_Revoked r \<or> \<not> now < rs_ExpiresAt r)"

definition token_id_by_hash :: "Token list \<Rightarrow> string \<Rightarrow> string" where
  "token_id_by_hash tokens hash = (case tokens_by_hash tokens hash of Some t \<Rightarrow> tk_ID t | None \<Rightarrow> [])"

text \<open>One event per group of reservations, in the order of their first member.\<close>

fun group_events :: "(string \<Rightarrow> string) \<Rightarrow> time \<Rightarrow> string list \<Rightarrow> Reservation list \<Rightarrow> node_event list" where
  "group_events tokenID now emitted [] = []"
| "group_events tokenID now emitted (r # rs) =
     (let groupID = (if rs_GroupID r \<noteq> [] then rs_GroupID r else tokenID (rs_TokenHash r)) in
      if groupID \<noteq> [] \<and> groupID \<notin> set emitted
      then EmitReservationEnded groupID now (if rs_Revoked r then ''revoked'' else ''expired'') #
             group_events tokenID now (groupID # emitted) rs
      else group_events tokenID now emitted rs)"

definition cleanupExpiredReservationsState :: "World \<Rightarrow> nat \<Rightarrow> State \<Rightarrow> Node \<Rightarrow> Node \<times> bool" where
  "cleanupExpiredReservationsState w k st n =
     (let now = wo_now w k; released = filter (reservation_over now) (Reservations st) in
      if released = [] then (n, True)
      else (case ReleaseScopes (wo_env w k) (map rs_ID released) [] [] (nd_store n) of
         (s, Inl e) \<Rightarrow> (n\<lparr>nd_store := s\<rparr>, False)
       | (s, Inr _) \<Rightarrow>
           (append_audits (map (\<lambda>r. audit_event now ''reservation_expired'' ''reserved GPU reservation expired''
                (rs_GPU r) (rs_ID r) (rs_Holder r)) released)
              (emit (group_events (token_id_by_hash (Tokens st)) now [] released) (n\<lparr>nd_store := s\<rparr>)), True)))"

section \<open>One pass\<close>

record Sampled =
  sm_memo :: "(int \<Rightarrow> enf_error + ProcInfo) option"
  sm_reread :: "(int \<Rightarrow> enf_error + ProcInfo) option"
  sm_ctx :: "nat \<Rightarrow> ctx"
  sm_order :: "int list \<Rightarrow> int list"
  sm_auditClock :: "nat \<Rightarrow> time"
  sm_resolved :: "string \<times> string \<Rightarrow> bool"

definition pass_authorizer :: "World \<Rightarrow> Sampled \<Rightarrow> nat \<Rightarrow> Authorizer" where
  "pass_authorizer w sm k = (let a = authorizer_at w k in
     case sm_memo sm of Some read \<Rightarrow> a\<lparr>az_Proc := Some read\<rparr> | None \<Rightarrow> a)"

text \<open>The processes left for enforcement: those the eviction took no decision on.\<close>

definition remaining_processes :: "Decision list \<Rightarrow> GPUProcess list \<Rightarrow> GPUProcess list" where
  "remaining_processes ds ps =
     (let targeted = filter (\<lambda>pid. pid > 0) (map (\<lambda>d. gp_PID (dc_Process d)) ds) in
      if targeted = [] then ps else filter (\<lambda>p. gp_PID p \<notin> set targeted) ps)"

fun apply_claims :: "World \<Rightarrow> nat \<Rightarrow> time \<Rightarrow> Decision list \<Rightarrow> Store \<Rightarrow> Store" where
  "apply_claims w k now [] s = s"
| "apply_claims w k now (d # ds) s = apply_claims w (Suc k) now ds
     (if dc_Action d = ''claim'' then fst (UpsertSoftClaim (wo_env w k) (dc_Claim d) now s)
      else if dc_Action d = ''release_claim'' then fst (ReleaseSoftClaim (wo_env w k) (dc_ClaimID d) s)
      else s)"

text \<open>The three phases that look at processes: eviction, enforcement, escalation.\<close>

record Phases =
  ph_evict :: EvictState
  ph_enforce :: Pass
  ph_escalate :: EscState

definition run_phases :: "World \<Rightarrow> Sampled \<Rightarrow> State \<Rightarrow> GPUProcess list \<Rightarrow> termination_entry list \<Rightarrow> Phases" where
  "run_phases w sm st processes ts =
     (let ev = EvictExpiredReservedProcesses (pass_authorizer w sm 0) (sm_ctx sm 0) (sm_ctx sm 1) st processes ts;
          evicted = ps_decisions (es_pass ev);
          p = fst (Enforce (pass_authorizer w sm 1) (sm_ctx sm 2) (sm_order sm) (sm_ctx sm 3) st
                (remaining_processes evicted processes) (ps_terms (es_pass ev)));
          esc = EscalateTerminations (pass_authorizer w sm 2) (sm_ctx sm 4) (sm_reread sm) st
                  (evicted @ ps_decisions p) (ps_terms p) in
      \<lparr>ph_evict = ev, ph_enforce = p, ph_escalate = esc\<rparr>)"

definition phase_decisions :: "Phases \<Rightarrow> Decision list" where
  "phase_decisions ph = ps_decisions (es_pass (ph_evict ph)) @ ps_decisions (ph_enforce ph)"

definition phase_audits :: "Phases \<Rightarrow> AuditEvent list" where
  "phase_audits ph = ps_audits (es_pass (ph_evict ph)) @ ps_audits (ph_enforce ph) @ ec_audits (ph_escalate ph)"

text \<open>What follows the phases up to the clean-up: assessment, kills under way, jobs, claims, audits.\<close>

definition settle_phases :: "World \<Rightarrow> Sampled \<Rightarrow> State \<Rightarrow> Phases \<Rightarrow> Node \<Rightarrow> Node" where
  "settle_phases w sm st ph n =
     (let now = wo_now w 3;
          n = n\<lparr>nd_evictionClean := recordEvictionAssessment (es_assessment (ph_evict ph)) (nd_evictionClean n),
                nd_terminations := ec_terms (ph_escalate ph)\<rparr>;
          (n, audits) = accept_audits (sm_auditClock sm) 0 (phase_audits ph) n;
          (j, es) = trackObservedTelemetryJobs (wo_jobs w) st (phase_decisions ph) now (nd_jobs n);
          n = emit (map EmitJob es) (n\<lparr>nd_jobs := j\<rparr>);
          n = n\<lparr>nd_store := apply_claims w 10 now (phase_decisions ph) (nd_store n)\<rparr> in
      append_audits audits n)"

definition cleanup_pass :: "World \<Rightarrow> State \<Rightarrow> Node \<Rightarrow> Node \<times> bool" where
  "cleanup_pass w st n =
     (let (n, ok1) = cleanupExpiredReservationsState w 4 st n;
          (n, ok2) = cleanupExpiredAuthorizationsState w 5 st n;
          n = cleanupFinishedBareAuthorizationsState w 6 st n;
          (n, ok3) = cleanupExpiredLeasesState w 7 st n;
          n = cleanupFinishedBareLeasesState w 8 st n in
      (n, ok1 \<and> ok2 \<and> ok3))"

definition enforcePass :: "World \<Rightarrow> Sampled \<Rightarrow> GPUProcess list \<Rightarrow> Node \<Rightarrow> Node" where
  "enforcePass w sm processes n =
     (case EnforcementSnapshot (wo_env w 0) (nd_store n) of
        (s, Inl e) \<Rightarrow> n\<lparr>nd_store := s\<rparr>
      | (s, Inr st) \<Rightarrow>
        let n = n\<lparr>nd_store := s\<rparr>;
            ph = run_phases w sm st processes (nd_terminations n);
            (n, ok) = cleanup_pass w st (settle_phases w sm st ph n) in
        if es_errors (ph_evict ph) = [] \<and> ok
        then n\<lparr>nd_store := fst (Prune (wo_env w 9) (wo_now w 3) (nd_store n))\<rparr> else n)"

section \<open>Without a sample\<close>

definition escalateTerminationsWithoutSample :: "World \<Rightarrow> Sampled \<Rightarrow> Node \<Rightarrow> Node" where
  "escalateTerminationsWithoutSample w sm n =
     (if Terminations_Len (nd_terminations n) = 0 then n
      else (case EnforcementSnapshot (wo_env w 4) (nd_store n) of
        (s, Inl e) \<Rightarrow> n\<lparr>nd_store := s\<rparr>
      | (s, Inr st) \<Rightarrow>
        let n = n\<lparr>nd_store := s\<rparr>;
            esc = EscalateTerminations (pass_authorizer w sm 4) (sm_ctx sm 4) (sm_reread sm) st [] (nd_terminations n);
            (n, audits) = accept_audits (sm_auditClock sm) 0 (ec_audits esc) (n\<lparr>nd_terminations := ec_terms esc\<rparr>) in
        append_audits audits n))"

text \<open>Inactive scopes whose managed group is empty and removed.\<close>

definition judge_inactive :: "World \<Rightarrow> bool \<Rightarrow> string \<Rightarrow> cgroup_history \<Rightarrow> cgroup_history \<times> bool option" where
  "judge_inactive w active p h =
     (if active \<or> p = [] then (h, None)
      else case inactiveManagedCgroupReadyForPrune (wo_cgroup w) (wo_fs w) p h of
        (h, ready) \<Rightarrow> (h, if ready then Some True else None))"

definition cleanupExpiredManagedCgroups :: "World \<Rightarrow> Node \<Rightarrow> Node" where
  "cleanupExpiredManagedCgroups w n =
     (case EnforcementSnapshot (wo_env w 0) (nd_store n) of
        (s, Inl e) \<Rightarrow> n\<lparr>nd_store := s\<rparr>
      | (s, Inr st) \<Rightarrow>
        let filtered = st\<lparr>Authorizations := filter (\<lambda>a. au_CgroupPath a \<noteq> []) (Authorizations st),
                          Leases := filter (\<lambda>l. ls_CgroupPath l \<noteq> []) (Leases st)\<rparr>;
            n = fst (cleanupExpiredAuthorizationsState w 1 filtered (n\<lparr>nd_store := s\<rparr>));
            n = fst (cleanupExpiredLeasesState w 2 filtered n) in
        (case EnforcementSnapshot (wo_env w 3) (nd_store n) of
           (s, Inl e) \<Rightarrow> n\<lparr>nd_store := s\<rparr>
         | (s, Inr st) \<Rightarrow>
           (case release_scan (\<lambda>a. judge_inactive w (au_Active a) (au_CgroupPath a)) (Authorizations st) (nd_cgroups n) of
              (h, aus, _) \<Rightarrow>
            (case release_scan (\<lambda>l. judge_inactive w (ls_Active l) (ls_CgroupPath l)) (Leases st) h of
               (h, ls, _) \<Rightarrow>
                 let s = fst (PruneInactiveManagedScopes (wo_env w 5) (map au_ID aus) (map ls_ID ls) s);
                     s = fst (PruneUnreferencedInvalidEntitlements (wo_env w 6) (wo_now w 6) s) in
                 n\<lparr>nd_store := s, nd_cgroups := h\<rparr>))))"

section \<open>The monitor\<close>

text \<open>\<open>sample\<close> is the answer of the GPU tool, with the text of its error.\<close>

definition monitorOnce :: "World \<Rightarrow> Sampled \<Rightarrow> string + GPUProcess list \<Rightarrow> Node \<Rightarrow> Node" where
  "monitorOnce w sm sample n =
     (case sample of
        Inl message \<Rightarrow> escalateTerminationsWithoutSample w sm
          (cleanupExpiredManagedCgroups w (auditGPUProcessError (wo_now w 0) message n))
      | Inr processes \<Rightarrow>
          let n = enforcePass w sm processes (auditGPUProcessRecovery (wo_now w 0) n);
              (j, es) = completePendingRuntimeContexts (wo_jobs w) (sm_resolved sm) (wo_now w 10) (nd_jobs n) in
          emit (map EmitJob es) (n\<lparr>nd_jobs := j\<rparr>))"

end
