(* ===== verification/Monitor_Theorems.thy ===== *)
theory Monitor_Theorems
  imports Daemon_Monitor Daemon_Theorems Evict_Theorems Enforce_Theorems
begin

text \<open>
  What the monitor guarantees: a stale scope is forgotten only after three quiet samples in a row,
  control groups outside the managed root are never touched, a pass signals a process once, and the
  store stays in order.
\<close>

section \<open>Three quiet samples\<close>

lemma clean_count_record:
  "clean_count (recordEvictionAssessment e m) key = (if assessed e key = Some True then clean_count m key + 1 else 0)"
  by (auto simp: recordEvictionAssessment_def clean_count_def split: option.splits bool.splits)

definition quiet_runs :: "EvictionAssessment list \<Rightarrow> string \<Rightarrow> nat" where
  "quiet_runs es key = length (takeWhile (\<lambda>e. assessed e key = Some True) (rev es))"

lemma clean_count_history:
  "clean_count (fold recordEvictionAssessment es Map.empty) key = int (quiet_runs es key)"
  by (induction es rule: rev_induct) (simp add: quiet_runs_def clean_count_def, simp add: clean_count_record quiet_runs_def)

lemma takeWhile_at_least: "k \<le> length (takeWhile P xs) \<longleftrightarrow> k \<le> length xs \<and> list_all P (take k xs)"
proof (induction xs arbitrary: k)
  case (Cons x xs)
  then show ?case by (cases k) auto
qed simp

lemma scope_ready_history:
  "evictionScopeReady (fold recordEvictionAssessment es Map.empty) kind ident \<longleftrightarrow>
     3 \<le> length es \<and> list_all (\<lambda>e. assessed e (scope_key kind ident) = Some True) (take 3 (rev es))"
  by (simp add: evictionScopeReady_def clean_count_history quiet_runs_def
      flip: takeWhile_at_least [of 3 _ "rev es", simplified])

lemma assessed_authorization [simp]: "assessed e (scope_key ''authorization'' i) = ea_Authorizations e i"
  by (simp add: assessed_def scope_key_def)

lemma assessed_lease [simp]: "assessed e (scope_key ''lease'' i) = ea_Leases e i"
  by (simp add: assessed_def scope_key_def)

section \<open>The shared loop\<close>

lemma release_scan_confined:
  assumes "\<And>x h. confined cfg h (fst (judge x h))"
  shows "confined cfg h (fst (release_scan judge xs h))"
proof (induction xs arbitrary: h)
  case (Cons x xs)
  obtain h1 v where j: "judge x h = (h1, v)" by fastforce
  from assms [of h x] j Cons.IH [of h1] show ?case
    by (auto split: prod.splits intro: confined_trans)
qed simp

lemma release_scan_released:
  "release_scan judge xs h = (h', released, ok) \<Longrightarrow> x \<in> set released \<Longrightarrow>
     x \<in> set xs \<and> (\<exists>g. snd (judge x g) = Some True)"
proof (induction xs arbitrary: h h' released ok)
  case (Cons y xs)
  obtain h1 v where j: "judge y h = (h1, v)" by fastforce
  obtain h2 rel ok2 where r: "release_scan judge xs h1 = (h2, rel, ok2)" by (cases "release_scan judge xs h1") auto
  from Cons.prems(1) have released: "released = (if v = Some True then y # rel else rel)" by (simp add: j r)
  show ?case
  proof (cases "x \<in> set rel")
    case True
    from Cons.IH [OF r True] show ?thesis by simp
  next
    case False
    with Cons.prems(2) released have "x = y" "v = Some True" by (auto split: if_splits)
    with j show ?thesis by (metis list.set_intros(1) snd_conv)
  qed
qed simp

interpretation stop: cgroup_operation "wo_cgroup w" "stop_group w p"
  by unfold_locales (simp add: stop_group_def case_prod_unfold stop_cg.run_confined)

interpretation run_fin: cgroup_operation "wo_cgroup w" "run_finished w p pid"
  by unfold_locales (simp add: run_finished_def case_prod_unfold finished_cg.run_confined)

interpretation inactive: cgroup_operation "wo_cgroup w" "judge_inactive w active p"
  by unfold_locales (simp add: judge_inactive_def case_prod_unfold prune_cg.run_confined)

interpretation expired_au: cgroup_operation "wo_cgroup w" "judge_expired_authorization w st now n au"
  using stop.run_confined by unfold_locales (auto simp: judge_expired_authorization_def)

interpretation expired_ls: cgroup_operation "wo_cgroup w" "judge_expired_lease w st now n l"
  using stop.run_confined by unfold_locales (auto simp: judge_expired_lease_def)

interpretation finished_au: cgroup_operation "wo_cgroup w" "judge_finished_authorization w au"
  using run_fin.run_confined by unfold_locales (auto simp: judge_finished_authorization_def)

interpretation finished_ls: cgroup_operation "wo_cgroup w" "judge_finished_lease w l"
  using run_fin.run_confined by unfold_locales (auto simp: judge_finished_lease_def)

section \<open>Effect of the steps of a pass on store and control groups\<close>

text \<open>
  A step of the monitor: the accesses it makes are allowed, and it brings the store from order to
  order, at every instant.
\<close>

definition orderly :: "World \<Rightarrow> Node \<Rightarrow> Node \<Rightarrow> bool" where
  "orderly w n n' \<longleftrightarrow> confined (wo_cgroup w) (nd_cgroups n) (nd_cgroups n') \<and>
     (\<forall>\<tau>. in_order (store_inv \<tau>) (nd_store n) \<longrightarrow> in_order (store_inv \<tau>) (nd_store n'))"

lemma orderly_refl [simp, intro]: "orderly w n n"
  by (simp add: orderly_def)

lemma orderly_trans: "orderly w n n' \<Longrightarrow> orderly w n' n'' \<Longrightarrow> orderly w n n''"
  using confined_trans by (fastforce simp: orderly_def)

text \<open>Only these two fields matter.\<close>

lemma orderly_same: "nd_cgroups n' = nd_cgroups n \<Longrightarrow> nd_store n' = nd_store n \<Longrightarrow> orderly w n n'"
  by (simp add: orderly_def)

lemma orderly_store: "nd_cgroups n' = nd_cgroups n \<Longrightarrow>
    (\<And>\<tau>. in_order (store_inv \<tau>) (nd_store n) \<Longrightarrow> in_order (store_inv \<tau>) (nd_store n')) \<Longrightarrow> orderly w n n'"
  by (simp add: orderly_def)

lemma emit_fields [simp]: "nd_store (emit es n) = nd_store n" "nd_cgroups (emit es n) = nd_cgroups n"
  by (simp_all add: emit_def)

lemma append_audits_fields [simp]:
  "nd_store (append_audits es n) = nd_store n" "nd_cgroups (append_audits es n) = nd_cgroups n"
  by (simp_all add: append_audits_def)

lemma end_and_audit_fields [simp]:
  "nd_store (end_and_audit now r jr ev aus n) = nd_store n"
  "nd_cgroups (end_and_audit now r jr ev aus n) = nd_cgroups n"
  by (simp_all add: end_and_audit_def split: prod.splits)

lemma scopes_step: "in_order (store_inv \<tau>) s \<Longrightarrow> ReleaseScopes env rs as ls s = (t, r) \<Longrightarrow> in_order (store_inv \<tau>) t"
  using scopes.op_in_order [of \<tau> s env rs as ls] by simp

lemma cleanup_effect:
  "nd_cgroups (fst (cleanupExpiredReservationsState w k st n)) = nd_cgroups n"
  "nd_cgroups (fst (cleanupExpiredAuthorizationsState w k st n)) =
     fst (release_scan (judge_expired_authorization w st (wo_now w k) n) (Authorizations st) (nd_cgroups n))"
  "nd_cgroups (cleanupFinishedBareAuthorizationsState w k st n) =
     fst (release_scan (judge_finished_authorization w) (Authorizations st) (nd_cgroups n))"
  "nd_cgroups (fst (cleanupExpiredLeasesState w k st n)) =
     fst (release_scan (judge_expired_lease w st (wo_now w k) n) (Leases st) (nd_cgroups n))"
  "nd_cgroups (cleanupFinishedBareLeasesState w k st n) =
     fst (release_scan (judge_finished_lease w) (Leases st) (nd_cgroups n))"
  by (simp_all add: cleanupExpiredReservationsState_def cleanupExpiredAuthorizationsState_def
      cleanupFinishedBareAuthorizationsState_def cleanupExpiredLeasesState_def
      cleanupFinishedBareLeasesState_def Let_def split: prod.splits sum.splits)

lemma cleanup_store:
  assumes "in_order (store_inv \<tau>) (nd_store n)"
  shows "in_order (store_inv \<tau>) (nd_store (fst (cleanupExpiredReservationsState w k st n)))"
    "in_order (store_inv \<tau>) (nd_store (fst (cleanupExpiredAuthorizationsState w k st n)))"
    "in_order (store_inv \<tau>) (nd_store (cleanupFinishedBareAuthorizationsState w k st n))"
    "in_order (store_inv \<tau>) (nd_store (fst (cleanupExpiredLeasesState w k st n)))"
    "in_order (store_inv \<tau>) (nd_store (cleanupFinishedBareLeasesState w k st n))"
  using assms scopes_step [OF assms]
  by (auto simp: cleanupExpiredReservationsState_def cleanupExpiredAuthorizationsState_def
      cleanupFinishedBareAuthorizationsState_def cleanupExpiredLeasesState_def
      cleanupFinishedBareLeasesState_def Let_def split: prod.splits sum.splits)

lemma cleanup_orderly:
  "orderly w n (fst (cleanupExpiredReservationsState w k st n))"
  "orderly w n (fst (cleanupExpiredAuthorizationsState w k st n))"
  "orderly w n (cleanupFinishedBareAuthorizationsState w k st n)"
  "orderly w n (fst (cleanupExpiredLeasesState w k st n))"
  "orderly w n (cleanupFinishedBareLeasesState w k st n)"
  by (simp_all add: orderly_def cleanup_effect cleanup_store release_scan_confined expired_au.run_confined
      expired_ls.run_confined finished_au.run_confined finished_ls.run_confined)

lemma cleanup_pass_orderly: "orderly w n (fst (cleanup_pass w st n))"
proof -
  define n1 where "n1 = fst (cleanupExpiredReservationsState w 4 st n)"
  define n2 where "n2 = fst (cleanupExpiredAuthorizationsState w 5 st n1)"
  define n3 where "n3 = cleanupFinishedBareAuthorizationsState w 6 st n2"
  define n4 where "n4 = fst (cleanupExpiredLeasesState w 7 st n3)"
  define n5 where "n5 = cleanupFinishedBareLeasesState w 8 st n4"
  have "orderly w n n1" "orderly w n1 n2" "orderly w n2 n3" "orderly w n3 n4" "orderly w n4 n5"
    unfolding n1_def n2_def n3_def n4_def n5_def by (rule cleanup_orderly)+
  then have "orderly w n n5" using orderly_trans by blast
  moreover have "fst (cleanup_pass w st n) = n5"
    by (simp add: cleanup_pass_def n1_def n2_def n3_def n4_def n5_def Let_def split: prod.splits)
  ultimately show ?thesis by simp
qed

lemma apply_claims_in_order:
  "in_order (store_inv \<tau>) s \<Longrightarrow> in_order (store_inv \<tau>) (apply_claims w k now ds s)"
  by (induction ds arbitrary: k s) (simp_all add: upsert.op_in_order unclaim.op_in_order)

lemma acceptEnforcementAudit_fields:
  "nd_store (fst (acceptEnforcementAudit t ev n)) = nd_store n"
  "nd_cgroups (fst (acceptEnforcementAudit t ev n)) = nd_cgroups n"
  by (simp_all add: acceptEnforcementAudit_def Let_def)

lemma accept_audits_fields:
  "nd_store (fst (accept_audits c i evs n)) = nd_store n \<and> nd_cgroups (fst (accept_audits c i evs n)) = nd_cgroups n"
proof (induction evs arbitrary: i n)
  case (Cons ev evs)
  then show ?case
    by (simp add: case_prod_unfold acceptEnforcementAudit_fields)
qed simp

lemma settle_phases_orderly: "orderly w n (settle_phases w sm st ph n)"
  by (rule orderly_store)
    (simp_all add: settle_phases_def Let_def case_prod_unfold accept_audits_fields apply_claims_in_order)

lemma snapshot_in_order: "in_order (store_inv \<tau>) s \<Longrightarrow> EnforcementSnapshot env s = (s, Inr (cloneEnforcementState (sto_state s)))"
  by (simp add: in_order_def)

lemma snapshot_orderly: "EnforcementSnapshot env (nd_store n) = (s, r) \<Longrightarrow> orderly w n (n\<lparr>nd_store := s\<rparr>)"
  by (rule orderly_store) (auto simp: snapshot_in_order)

lemma prune_orderly: "orderly w n (n\<lparr>nd_store := fst (Prune env t (nd_store n))\<rparr>)"
  by (rule orderly_store) (simp_all add: prune.op_in_order)

lemma enforcePass_orderly: "orderly w n (enforcePass w sm processes n)"
proof -
  obtain s r where sn: "EnforcementSnapshot (wo_env w 0) (nd_store n) = (s, r)" by fastforce
  note 1 = snapshot_orderly [OF sn, of w]
  show ?thesis
  proof (cases r)
    case (Inl e)
    with sn 1 show ?thesis by (simp add: enforcePass_def)
  next
    case (Inr st)
    define ph where "ph = run_phases w sm st processes (nd_terminations (n\<lparr>nd_store := s\<rparr>))"
    define m where "m = fst (cleanup_pass w st (settle_phases w sm st ph (n\<lparr>nd_store := s\<rparr>)))"
    have 2: "orderly w n m"
      using orderly_trans [OF 1 orderly_trans [OF settle_phases_orderly cleanup_pass_orderly]] by (simp add: m_def)
    have "enforcePass w sm processes n \<in> {m, m\<lparr>nd_store := fst (Prune (wo_env w 9) (wo_now w 3) (nd_store m))\<rparr>}"
      by (simp add: enforcePass_def sn Inr ph_def m_def Let_def case_prod_unfold)
    with 2 orderly_trans [OF 2 prune_orderly] show ?thesis by auto
  qed
qed

lemma escalate_orderly: "orderly w n (escalateTerminationsWithoutSample w sm n)"
proof -
  obtain s r where sn: "EnforcementSnapshot (wo_env w 4) (nd_store n) = (s, r)" by fastforce
  have "orderly w (n\<lparr>nd_store := s\<rparr>) (escalateTerminationsWithoutSample w sm n)"
    if "Terminations_Len (nd_terminations n) \<noteq> 0"
    by (rule orderly_same)
      (simp_all add: escalateTerminationsWithoutSample_def that sn Let_def case_prod_unfold accept_audits_fields
        split: sum.splits)
  with orderly_trans [OF snapshot_orderly [OF sn]] show ?thesis
    by (cases "Terminations_Len (nd_terminations n) = 0") (auto simp: escalateTerminationsWithoutSample_def)
qed

lemma inactive_scan_orderly:
  fixes n :: Node
  defines "judgeA \<equiv> \<lambda>w a. judge_inactive w (au_Active a) (au_CgroupPath a)"
    and "judgeL \<equiv> \<lambda>w l. judge_inactive w (ls_Active l) (ls_CgroupPath l)"
  assumes "release_scan (judgeA w) aus (nd_cgroups n) = (h, ras, ok)" "release_scan (judgeL w) ls h = (h', rls, ok')"
  shows "orderly w n (n\<lparr>nd_store := fst (PruneUnreferencedInvalidEntitlements env t
    (fst (PruneInactiveManagedScopes env' ids ids' (nd_store n)))), nd_cgroups := h'\<rparr>)"
proof -
  have "confined (wo_cgroup w) (nd_cgroups n) h"
    using release_scan_confined [of "wo_cgroup w" "judgeA w" "nd_cgroups n" aus] assms(3) inactive.run_confined
    by (simp add: judgeA_def)
  moreover have "confined (wo_cgroup w) h h'"
    using release_scan_confined [of "wo_cgroup w" "judgeL w" h ls] assms(4) inactive.run_confined
    by (simp add: judgeL_def)
  ultimately show ?thesis
    by (auto simp: orderly_def intro: confined_trans unreferenced.op_in_order finished.op_in_order)
qed

lemma managed_cgroups_orderly: "orderly w n (cleanupExpiredManagedCgroups w n)"
proof -
  obtain s r where sn: "EnforcementSnapshot (wo_env w 0) (nd_store n) = (s, r)" by fastforce
  note 1 = snapshot_orderly [OF sn, of w]
  show ?thesis
  proof (cases r)
    case (Inl e)
    with sn 1 show ?thesis by (simp add: cleanupExpiredManagedCgroups_def)
  next
    case (Inr st)
    define filtered where "filtered = st\<lparr>Authorizations := filter (\<lambda>a. au_CgroupPath a \<noteq> []) (Authorizations st),
      Leases := filter (\<lambda>l. ls_CgroupPath l \<noteq> []) (Leases st)\<rparr>"
    define m where "m = fst (cleanupExpiredLeasesState w 2 filtered
      (fst (cleanupExpiredAuthorizationsState w (Suc 0) filtered (n\<lparr>nd_store := s\<rparr>))))"
    have 2: "orderly w n m" using orderly_trans [OF 1 orderly_trans [OF cleanup_orderly(2,4)]] by (simp add: m_def)
    obtain s' r' where sn': "EnforcementSnapshot (wo_env w 3) (nd_store m) = (s', r')" by fastforce
    note 3 = orderly_trans [OF 2 snapshot_orderly [OF sn', of w]]
    show ?thesis
    proof (cases r')
      case (Inl e)
      with sn sn' Inr 3 show ?thesis
        by (simp add: cleanupExpiredManagedCgroups_def Let_def flip: filtered_def m_def)
    next
      case (Inr st')
      obtain h ras ok where a: "release_scan (\<lambda>a. judge_inactive w (au_Active a) (au_CgroupPath a)) (Authorizations st')
          (nd_cgroups (m\<lparr>nd_store := s'\<rparr>)) = (h, ras, ok)" using prod_cases3 by blast
      obtain h' rls ok' where l: "release_scan (\<lambda>l. judge_inactive w (ls_Active l) (ls_CgroupPath l)) (Leases st') h
          = (h', rls, ok')" using prod_cases3 by blast
      from inactive_scan_orderly [OF a l, of "wo_env w 6" "wo_now w 6" "wo_env w 5" "map au_ID ras" "map ls_ID rls"]
      show ?thesis
        using orderly_trans [OF 3] sn sn' Inr \<open>r = Inr st\<close> a l
        by (simp add: cleanupExpiredManagedCgroups_def Let_def flip: filtered_def m_def)
    qed
  qed
qed

lemma monitorOnce_orderly: "orderly w n (monitorOnce w sm sample n)"
proof (cases sample)
  case (Inl message)
  have "orderly w n (auditGPUProcessError (wo_now w 0) message n)"
    by (rule orderly_same) (simp_all add: auditGPUProcessError_def)
  from orderly_trans [OF this orderly_trans [OF managed_cgroups_orderly escalate_orderly]] Inl
  show ?thesis by (simp add: monitorOnce_def)
next
  case (Inr processes)
  let ?m = "enforcePass w sm processes (auditGPUProcessRecovery (wo_now w 0) n)"
  have "orderly w n (auditGPUProcessRecovery (wo_now w 0) n)"
    by (rule orderly_same) (simp_all add: auditGPUProcessRecovery_def)
  from orderly_trans [OF this enforcePass_orderly] have "orderly w n ?m" .
  moreover have "orderly w ?m (monitorOnce w sm sample n)"
    by (rule orderly_same) (simp_all add: monitorOnce_def Inr Let_def case_prod_unfold)
  ultimately show ?thesis by (rule orderly_trans)
qed

text \<open>
  C19: the monitor touches only the control groups it manages. Whatever the store holds and whatever
  the kernel answers, every group a monitor step stops or removes lies strictly below the configured
  root, and in dry-run mode none is stopped.
\<close>

theorem monitor_confined:
  "\<exists>ops. nd_cgroups (monitorOnce w sm sample n) = nd_cgroups n @ ops \<and> list_all (op_allowed (wo_cgroup w)) ops"
  using monitorOnce_orderly [of w n sm sample] by (simp add: orderly_def confined_def)

section \<open>A scope is forgotten only when it is quiet\<close>

lemma released_authorization:
  assumes "release_scan (judge_expired_authorization w st now n) (Authorizations st) h = (h', released, ok)"
    "au \<in> set released"
  shows "au \<in> set (Authorizations st) \<and> au_Active au \<and> authorization_over st now au \<and>
    (au_CgroupPath au \<noteq> [] \<or> au_Mode au = ModeBare \<or> evictionScopeReady (nd_evictionClean n) ''authorization'' (au_ID au))"
proof -
  from release_scan_released [OF assms] obtain g where
    "au \<in> set (Authorizations st)" "snd (judge_expired_authorization w st now n au g) = Some True" by blast
  then show ?thesis by (auto simp: judge_expired_authorization_def split: if_splits)
qed

text \<open>
  a stale scope stays in the store as evidence until it is quiet. The clean-up of expired
  authorizations deactivates only authorizations that were revoked, have expired or lost their key;
  one that is neither a bare run nor in a managed control group is deactivated only when each of the
  last three passes assessed it and found no process using it. Nothing else in the store changes.
\<close>

theorem release_needs_three_quiet_samples:
  assumes "sto_loaded (nd_store n)" "coherent (nd_store n)"
    and "nd_evictionClean n = fold recordEvictionAssessment es Map.empty"
  shows "\<exists>ids. sto_state (nd_store (fst (cleanupExpiredAuthorizationsState w k st n))) =
      (sto_state (nd_store n))\<lparr>Authorizations := update_where (\<lambda>a. au_ID a \<in> set ids \<and> au_Active a)
        (\<lambda>a. a\<lparr>au_Active := False\<rparr>) (Authorizations (sto_state (nd_store n)))\<rparr> \<and>
    (\<forall>i \<in> set ids. \<exists>au \<in> set (Authorizations st). au_ID au = i \<and> authorization_over st (wo_now w k) au \<and>
      (au_CgroupPath au \<noteq> [] \<or> au_Mode au = ModeBare \<or>
        (3 \<le> length es \<and> list_all (\<lambda>e. ea_Authorizations e i = Some True) (take 3 (rev es)))))"
proof -
  obtain h released ok where scan: "release_scan (judge_expired_authorization w st (wo_now w k) n)
      (Authorizations st) (nd_cgroups n) = (h, released, ok)" using prod_cases3 by blast
  let ?n' = "fst (cleanupExpiredAuthorizationsState w k st n)"
  obtain t r where rel: "ReleaseScopes (wo_env w k) [] (map au_ID released) [] (nd_store n) = (t, r)" by fastforce
  have just: "\<exists>au \<in> set (Authorizations st). au_ID au = i \<and> authorization_over st (wo_now w k) au \<and>
      (au_CgroupPath au \<noteq> [] \<or> au_Mode au = ModeBare \<or>
        (3 \<le> length es \<and> list_all (\<lambda>e. ea_Authorizations e i = Some True) (take 3 (rev es))))"
    if "i \<in> set (map au_ID released)" for i
  proof -
    from that obtain au where "au \<in> set released" "au_ID au = i" by auto
    with released_authorization [OF scan this(1)] scope_ready_history [of es "''authorization''" i] show ?thesis
      by (auto simp: assms(3))
  qed
  have "nd_store ?n' = (if released = [] then nd_store n else t)"
    by (auto simp: cleanupExpiredAuthorizationsState_def Let_def scan rel split: sum.splits)
  with ReleaseScopes_authorizations [OF assms(1,2) rel]
  consider "sto_state (nd_store ?n') = sto_state (nd_store n)" |
    "sto_state (nd_store ?n') = (sto_state (nd_store n))\<lparr>Authorizations :=
       update_where (\<lambda>a. au_ID a \<in> set (map au_ID released) \<and> au_Active a) (\<lambda>a. a\<lparr>au_Active := False\<rparr>)
         (Authorizations (sto_state (nd_store n)))\<rparr>"
    by (auto split: if_splits)
  then show ?thesis
  proof cases
    case 1
    then show ?thesis by (intro exI [of _ "[]"]) simp
  next
    case 2
    with just show ?thesis by (intro exI [of _ "map au_ID released"]) simp
  qed
qed

section \<open>One signal per process\<close>

text \<open>The plan of an eviction: one kill per process number, within the budget, each with a decision.\<close>

definition decided_pids :: "Pass \<Rightarrow> int set" where
  "decided_pids p = {gp_PID (dc_Process d) | d. d \<in> set (ps_decisions p) \<and> gp_PID (dc_Process d) > 0}"

definition evict_plan_ok :: "EvictState \<Rightarrow> bool" where
  "evict_plan_ok s \<longleftrightarrow> distinct (map kill_PID (planned (es_pass s))) \<and>
     kill_PID ` set (planned (es_pass s)) \<subseteq> set (es_killed s) \<and>
     kill_PID ` set (planned (es_pass s)) \<subseteq> decided_pids (es_pass s) \<and>
     length (planned (es_pass s)) \<le> maxKillsPerEnforcementPass"

lemma kill_decides:
  "\<exists>d. ps_decisions (fst (kill a v reason leaseID authID holder tokenHash now p)) = ps_decisions p @ [d] \<and>
     dc_Process d = pv_Process v"
  by (simp add: kill_def Let_def decide_def audit_def kill_decision_def split: option.split prod.split)

lemma kill_length:
  "length (planned (fst (kill a v reason leaseID authID holder tokenHash now p))) \<le>
     max (length (planned p)) maxKillsPerEnforcementPass"
  by (simp add: kill_def Let_def planned_def decide_def audit_def split: option.split prod.split)

lemma evict_kill_plan_ok:
  assumes "evict_plan_ok s" "gp_PID g \<notin> set (es_killed s)" "gp_PID g > 0"
  shows "evict_plan_ok (evict_kill a st now g info aus ls s)"
proof -
  let ?v = "\<lparr>pv_Process = g, pv_Info = info, pv_Bypassed = False\<rparr>" and ?s' = "evict_kill a st now g info aus ls s"
  obtain reason leaseID authID holder tokenHash where
    p: "es_pass ?s' = fst (kill a ?v reason leaseID authID holder tokenHash now (es_pass s))"
    using evict_kill_pass by blast
  note d = kill_decides [of a ?v reason leaseID authID holder tokenHash now "es_pass s", folded p]
    and l = kill_length [of a ?v reason leaseID authID holder tokenHash now "es_pass s", folded p]
  have dec: "decided_pids (es_pass ?s') = insert (gp_PID g) (decided_pids (es_pass s))"
    using d assms(3) by (auto simp: decided_pids_def)
  have killed: "set (es_killed s) \<subseteq> set (es_killed ?s')" "gp_PID g \<in> set (es_killed ?s')"
    using evict_kill_ext [of s a st now g info aus ls] evict_kill_killed by (auto simp: evict_ext_def)
  from evict_kill_planned [of a st now g info aus ls s] consider
      "planned (es_pass ?s') = planned (es_pass s)" |
      r where "pv_Process (pk_view r) = g" "planned (es_pass ?s') = planned (es_pass s) @ [r]" by blast
  then show ?thesis
    using assms(1,2) dec killed l by cases (auto simp: evict_plan_ok_def)
qed

lemma evict_plan_ok_cong:
  "es_killed t = es_killed s \<Longrightarrow> planned (es_pass t) = planned (es_pass s) \<Longrightarrow>
     ps_decisions (es_pass t) = ps_decisions (es_pass s) \<Longrightarrow> evict_plan_ok t = evict_plan_ok s"
  by (simp add: evict_plan_ok_def decided_pids_def)

lemma evict_plan_ok_simps [simp]:
  "evict_plan_ok (uncertain e s) = evict_plan_ok s"
  "evict_plan_ok (s\<lparr>es_assessment := x\<rparr>) = evict_plan_ok s"
  "evict_plan_ok (s\<lparr>es_pass := (es_pass s)\<lparr>ps_polls := i\<rparr>\<rparr>) = evict_plan_ok s"
  "evict_plan_ok (s\<lparr>es_pass := (es_pass s)\<lparr>ps_polls := i\<rparr>, es_assessment := x\<rparr>) = evict_plan_ok s"
  by (rule evict_plan_ok_cong; simp add: uncertain_def planned_def)+

lemma evict_process_plan_ok:
  "evict_plan_ok s \<Longrightarrow> evict_plan_ok (evict_process a ctx st now g s)"
  by (auto simp: evict_process_def Let_def not_le split: option.split sum.split prod.split intro!: evict_kill_plan_ok)

lemma evict_loop_plan_ok: "evict_plan_ok s \<Longrightarrow> evict_plan_ok (evict_loop a ctx st now gs s)"
  by (induction gs arbitrary: s) (simp_all add: Let_def evict_process_plan_ok split: option.split)

lemma eviction_plan_ok: "evict_plan_ok (EvictExpiredReservedProcesses a ctx cancel st processes ts)"
proof -
  let ?s = "evictExpiredReservedProcesses a ctx st processes (start_pass a ts)"
  have start: "evict_plan_ok \<lparr>es_pass = start_pass a ts, es_assessment = x, es_killed = [], es_errors = []\<rparr>" for x
    by (simp add: evict_plan_ok_def start_pass_def planned_def)
  have "evict_plan_ok ?s"
    by (simp add: evictExpiredReservedProcesses_def Let_def evict_loop_plan_ok start)
  then show ?thesis
    by (subst evict_plan_ok_cong [of _ ?s])
      (simp_all add: EvictExpiredReservedProcesses_def executePendingKills_def Let_def planned_def case_prod_unfold)
qed

lemma Enforce_planned: "planned (fst (Enforce a ctx order cancel st ps ts)) = planned (fst (plan a ctx order st ps ts))"
  by (simp add: Enforce_def executePendingKills_def case_prod_unfold planned_def)

text \<open>
  C12: a pass signals a process at most once. The kills planned by the eviction of ended entitlements
  and by the enforcement of current ones, taken together, never name a process number twice, and
  there are at most eight of each.
\<close>

theorem pass_signals_once:
  "distinct (map kill_PID (planned (es_pass (ph_evict (run_phases w sm st ps ts))) @
      planned (ph_enforce (run_phases w sm st ps ts)))) \<and>
   length (planned (es_pass (ph_evict (run_phases w sm st ps ts)))) \<le> maxKillsPerEnforcementPass \<and>
   length (planned (ph_enforce (run_phases w sm st ps ts))) \<le> maxKillsPerEnforcementPass"
proof -
  define ev where "ev = EvictExpiredReservedProcesses (pass_authorizer w sm 0) (sm_ctx sm 0) (sm_ctx sm 1) st ps ts"
  let ?rest = "remaining_processes (ps_decisions (es_pass ev)) ps" and ?ts = "ps_terms (es_pass ev)"
    and ?a = "pass_authorizer w sm 1"
  define pl where "pl = fst (plan ?a (sm_ctx sm 2) (sm_order sm) st ?rest ?ts)"
  have ph: "ph_evict (run_phases w sm st ps ts) = ev" "planned (ph_enforce (run_phases w sm st ps ts)) = planned pl"
    by (simp_all add: run_phases_def Let_def ev_def pl_def Enforce_planned)
  have ok: "evict_plan_ok ev" unfolding ev_def by (rule eviction_plan_ok)
  have fresh: "kill_PID r \<notin> decided_pids (es_pass ev)" if "r \<in> set (planned pl)" for r
  proof -
    from that obtain views where v: "\<forall>v \<in> set views. faithful_view ?a st (az_Now ?a) ?rest v" "pk_view r \<in> set views"
      unfolding pl_def by (rule planned_target)
    then have "pv_Process (pk_view r) \<in> set ?rest" by (auto simp: faithful_view_def)
    then show ?thesis by (auto simp: remaining_processes_def decided_pids_def Let_def filter_empty_conv split: if_splits)
  qed
  have budget: "length (planned pl) \<le> maxKillsPerEnforcementPass" "distinct (map kill_PID (planned pl))"
    unfolding pl_def using kill_budget by blast+
  have "kill_PID ` set (planned (es_pass ev)) \<inter> kill_PID ` set (planned pl) = {}"
    using fresh ok by (auto simp: evict_plan_ok_def)
  with ok budget show ?thesis unfolding ph by (simp add: evict_plan_ok_def)
qed

end
