(* ===== verification/Daemon_System.thy ===== *)
theory Daemon_System
  imports Daemon_Register Daemon_Run Monitor_Theorems
begin

text \<open>
  The daemon as a whole: requests, runs and monitor passes in any order over one node. Every handler
  is built from checks and calls of the store, and every call brings the store from order to order;
  so the guarantees of the store hold in every state the daemon can reach. Time passes while a handler
  runs: \<open>clocks \<tau> \<tau>' w\<close> says that the clocks of its world read instants between \<open>\<tau>\<close> and \<open>\<tau>'\<close>.
\<close>

named_theorems keeps_intros \<open>handlers that keep the store in order\<close>

section \<open>Handlers\<close>

definition sound :: "time \<Rightarrow> Node \<Rightarrow> bool" where
  "sound \<tau> n \<longleftrightarrow> in_order (store_inv \<tau>) (nd_store n)"

definition keeps :: "time \<Rightarrow> 'r handler \<Rightarrow> bool" where
  "keeps \<tau> h \<longleftrightarrow> (\<forall>n. sound \<tau> n \<longrightarrow> sound \<tau> (fst (h n)))"

definition keeps_store :: "time \<Rightarrow> (Store \<Rightarrow> 'a result) \<Rightarrow> bool" where
  "keeps_store \<tau> f \<longleftrightarrow> (\<forall>s. in_order (store_inv \<tau>) s \<longrightarrow> in_order (store_inv \<tau>) (fst (f s)))"

lemma sound_later: "sound \<tau> n \<Longrightarrow> \<tau> \<le> \<tau>' \<Longrightarrow> sound \<tau>' n"
  by (simp add: sound_def in_order_later)

lemma keeps_check [keeps_intros]: "keeps \<tau> k \<Longrightarrow> keeps \<tau> (check e k)"
  by (simp add: keeps_def check_def split: option.split)

lemma keeps_store_call [keeps_intros]: "keeps_store \<tau> f \<Longrightarrow> (\<And>r. keeps \<tau> (k r)) \<Longrightarrow> keeps \<tau> (store_call f k)"
  unfolding keeps_def keeps_store_def sound_def store_call_def
  by (auto split: prod.splits sum.splits)

lemma keeps_answer [keeps_intros]: "keeps \<tau> (answer r)" and keeps_refuse [keeps_intros]: "keeps \<tau> (refuse e)"
  by (simp_all add: keeps_def answer_def refuse_def)

lemma keeps_emit [keeps_intros]: "keeps \<tau> (\<lambda>n. (emit es n, r))"
  by (simp add: keeps_def sound_def)

lemma keeps_if [keeps_intros]: "(b \<Longrightarrow> keeps \<tau> h) \<Longrightarrow> (\<not> b \<Longrightarrow> keeps \<tau> k) \<Longrightarrow> keeps \<tau> (if b then h else k)"
  by simp

lemma keeps_case_prod [keeps_intros]: "(\<And>x y. keeps \<tau> (h x y)) \<Longrightarrow> keeps \<tau> (case p of (x, y) \<Rightarrow> h x y)"
  by (cases p) simp

lemma keeps_case_sum [keeps_intros]: "(\<And>e. keeps \<tau> (h e)) \<Longrightarrow> (\<And>r. keeps \<tau> (k r)) \<Longrightarrow>
    keeps \<tau> (case v of Inl e \<Rightarrow> h e | Inr r \<Rightarrow> k r)"
  by (cases v) auto

lemma in_order_same_data: "same_data s t \<Longrightarrow> in_order good s \<Longrightarrow> in_order good t"
  by (auto simp: in_order_def coherent_def same_data_def backed_def split: option.splits)

lemma keeps_reads [keeps_intros]:
  "keeps_store \<tau> (ValidateRootKey env key)" "keeps_store \<tau> (EnforcementSnapshot env)"
  "keeps_store \<tau> (ManagedKeysEnabled env)" "keeps_store \<tau> (ManagedTokenByID env ident now)"
  "keeps_store \<tau> (\<lambda>s. case ValidateToken env secret now s of (s, t, h, Some e) \<Rightarrow> (s, Inl e) | (s, t, h, None) \<Rightarrow> (s, Inr (t, h)))"
proof -
  show "keeps_store \<tau> (ValidateRootKey env key)"
    unfolding keeps_store_def using same_data_ValidateRootKey in_order_same_data surjective_pairing by metis
qed (auto simp: keeps_store_def in_order_def EnforcementSnapshot_def ManagedKeysEnabled_def ManagedTokenByID_def
    ValidateToken_def loadLocked_def Let_def split: option.split)

lemma keeps_writes [keeps_intros]:
  "keeps_store \<tau> (RegisterSoftToken env k name \<tau>)"
  "keeps_store \<tau> (RegisterScheduledReservationsWithSession env k name purpose sess gpus a b \<tau>)"
  "keeps_store \<tau> (RegisterManagedReservations env k ident purpose sess gpus a b \<tau>)"
  "keeps_store \<tau> (ReleaseAuthorization env ident)" "keeps_store \<tau> (AddBypass env rule)"
  "keeps_store \<tau> (Revoke env arg)" "keeps_store \<tau> (ActivateAuthorization env ident pid)"
  by (simp_all add: keeps_store_def soft.op_in_order scheduled.op_in_order managed.op_in_order
      release.op_in_order bypass.op_in_order revoke.op_in_order activate.op_in_order)

lemma keeps_add: "env_clock env = \<tau> \<Longrightarrow> keeps_store \<tau> (AddAuthorization env au)"
  by (auto simp: keeps_store_def intro: add.op_in_order)

section \<open>Requests\<close>

lemma keeps_register: "keeps (wo_now w 0) (dispatch_register w args)"
  unfolding dispatch_register_def register_reserved_def register_claimed_def write_reservations_def
    ensureGPUsCanReserveWindowSampled_def Let_def
  by (intro keeps_intros)

lemma keeps_bypass: "keeps \<tau> (with_root_key w key (addBypassLocked w args now))"
  unfolding with_root_key_def addBypassLocked_def by (intro keeps_intros)

lemma keeps_revoke: "keeps \<tau> (with_root_key w key (revoke w ident))"
  unfolding with_root_key_def revoke_def by (intro keeps_intros)

lemma keeps_release: "keeps \<tau> (releaseAuthorization w ident)"
  unfolding releaseAuthorization_def by (intro keeps_intros)

lemma keeps_ensure [keeps_intros]: "keeps \<tau> k \<Longrightarrow> keeps \<tau> (ensureTokenCanAuthorize env h token now k)"
  unfolding ensureTokenCanAuthorize_def by (intro keeps_intros)

lemma keeps_validate [keeps_intros]: "(\<And>r. keeps \<tau> (k r)) \<Longrightarrow> keeps \<tau> (validateToken env secret now k)"
  unfolding validateToken_def by (intro keeps_intros)

lemma keeps_activate: "keeps \<tau> (activate_locked w secret au pid)"
  unfolding activate_locked_def Let_def by (intro keeps_intros)

lemma keeps_add_locked: "env_clock (wo_env w (k + 2)) = \<tau> \<Longrightarrow> keeps \<tau> (addAuthorizationLocked w secret au k)"
  unfolding addAuthorizationLocked_def Let_def by (intro keeps_intros keeps_add)

lemma keeps_managed: "env_clock (wo_env w (k + 2)) = \<tau> \<Longrightarrow> keeps \<tau> (persistManagedAuthorization w token au k)"
  unfolding persistManagedAuthorization_def Let_def by (intro keeps_intros keeps_add)

text \<open>Reclaiming reads, releases scopes and reports.\<close>

lemma sound_reclaim: "sound \<tau> n \<Longrightarrow> sound \<tau> (fst (reclaimStaleDockerAuthorizations w k h n))"
  using scopes_step
  by (auto simp: sound_def reclaimStaleDockerAuthorizations_def Let_def snapshot_in_order
      split: option.split sum.split prod.split)

section \<open>Time\<close>

definition clocks :: "time \<Rightarrow> time \<Rightarrow> World \<Rightarrow> bool" where
  "clocks \<tau> \<tau>' w \<longleftrightarrow> mono (\<lambda>k. env_clock (wo_env w k)) \<and>
     (\<forall>k. \<tau> \<le> env_clock (wo_env w k) \<and> env_clock (wo_env w k) \<le> \<tau>' \<and> \<tau> \<le> wo_now w k \<and> wo_now w k \<le> \<tau>')"

text \<open>A handler that brings a sound node over a span of time.\<close>

definition carries :: "time \<Rightarrow> time \<Rightarrow> 'r handler \<Rightarrow> bool" where
  "carries \<tau> \<tau>' h \<longleftrightarrow> (\<forall>n. sound \<tau> n \<longrightarrow> sound \<tau>' (fst (h n)))"

lemma carries_keeps: "keeps \<sigma> h \<Longrightarrow> \<tau> \<le> \<sigma> \<Longrightarrow> \<sigma> \<le> \<tau>' \<Longrightarrow> carries \<tau> \<tau>' h"
  by (auto simp: carries_def keeps_def intro: sound_later)

lemma carries_ensure: "carries \<tau> \<tau>' k \<Longrightarrow> \<tau> \<le> \<tau>' \<Longrightarrow> carries \<tau> \<tau>' (ensureTokenCanAuthorize env h token now k)"
  unfolding carries_def ensureTokenCanAuthorize_def store_call_def refuse_def sound_def
  by (auto simp: snapshot_in_order in_order_later)

lemma carries_check: "carries \<tau> \<tau>' k \<Longrightarrow> \<tau> \<le> \<tau>' \<Longrightarrow> carries \<tau> \<tau>' (check e k)"
  by (auto simp: carries_def check_def intro: sound_later split: option.split)

lemma carries_refuse: "\<tau> \<le> \<tau>' \<Longrightarrow> carries \<tau> \<tau>' (refuse e)"
  by (auto simp: carries_def refuse_def intro: sound_later)

text \<open>The second attempt comes later than the first.\<close>

lemma carries_capacity:
  assumes "clocks \<tau> \<tau>' w" "\<And>k. keeps (env_clock (wo_env w (k + 2))) (add k)"
  shows "carries \<tau> \<tau>' (withAuthorizationCapacity w k h add)"
proof -
  let ?c1 = "env_clock (wo_env w (k + 2))" and ?c2 = "env_clock (wo_env w (k + 10 + 2))"
  have c: "\<tau> \<le> ?c1" "?c1 \<le> ?c2" "?c2 \<le> \<tau>'" "?c1 \<le> \<tau>'"
    using assms(1) by (auto simp: clocks_def mono_def)
  have "sound \<tau>' (fst (withAuthorizationCapacity w k h add n))" if n: "sound \<tau> n" for n
  proof -
    obtain n1 r where a: "add k n = (n1, r)" by fastforce
    have 1: "sound ?c1 n1" using assms(2) [of k] sound_later [OF n c(1)] a by (auto simp: keeps_def dest: spec [of _ n])
    obtain n2 b where re: "reclaimStaleDockerAuthorizations w (k + 5) h n1 = (n2, b)" by fastforce
    have 2: "sound ?c1 n2" using sound_reclaim [OF 1, of w "k + 5" h] re by simp
    have 3: "sound ?c2 (fst (add (k + 10) n2))"
      using assms(2) [of "k + 10"] sound_later [OF 2 c(2)] by (simp add: keeps_def)
    from sound_later [OF 1 c(4)] sound_later [OF 2 c(4)] sound_later [OF 3 c(3)] show ?thesis
      by (auto simp: withAuthorizationCapacity_def a re split: sum.split bool.split)
  qed
  then show ?thesis by (simp add: carries_def)
qed

lemma carries_addAuthorization: "clocks \<tau> \<tau>' w \<Longrightarrow> carries \<tau> \<tau>' (addAuthorization w k secret au)"
  unfolding addAuthorization_def by (erule carries_capacity) (rule keeps_add_locked [OF refl])

lemma carries_persist: "clocks \<tau> \<tau>' w \<Longrightarrow> carries \<tau> \<tau>' (persistAuthorization w k secret token au)"
  unfolding persistAuthorization_def
  by (auto intro: carries_addAuthorization carries_capacity keeps_managed [OF refl])

lemma clocks_le: "clocks \<tau> \<tau>' w \<Longrightarrow> \<tau> \<le> \<tau>'"
  by (auto simp: clocks_def intro: order_trans)

lemma carries_allow:
  assumes "clocks \<tau> \<tau>' w"
  shows "carries \<tau> \<tau>' (createDockerAuthorization w secret token h p container name)"
    "carries \<tau> \<tau>' (createK8sAuthorization w secret token h p namespace name)"
    "carries \<tau> \<tau>' (createUserAuthorization w secret token h p user name)"
  using assms clocks_le [OF assms]
  by (auto simp: createDockerAuthorization_def createK8sAuthorization_def createUserAuthorization_def Let_def
      intro!: carries_ensure carries_check carries_refuse carries_persist split: sum.split)

section \<open>Runs\<close>

lemma sound_cgroups [simp]: "sound \<tau> (n\<lparr>nd_cgroups := h\<rparr>) = sound \<tau> n"
  by (simp add: sound_def)

lemma sound_cleanup: "sound \<tau> n \<Longrightarrow> sound \<tau> (run_cleanup w au a b n)"
  using keeps_release [of \<tau> w "au_ID au"] by (simp add: run_cleanup_def Let_def keeps_def)

lemma carries_run_admit:
  assumes "clocks \<tau> \<tau>' w"
  shows "carries \<tau> \<tau>' (run_admit w re secret token h p args)"
proof -
  note le = clocks_le [OF assms]
  have add: "sound \<tau>' m" if "addAuthorization w 3 secret au n = (m, r)" "sound \<tau> n" for au n m r
    using carries_addAuthorization [OF assms, of 3 secret au] that by (auto simp: carries_def dest: spec [of _ n])
  show ?thesis
    unfolding run_admit_def
    by (intro carries_check carries_ensure le)
      (auto simp: carries_def Let_def dest: add intro!: sound_cleanup intro: sound_later [OF _ le]
        split: sum.split prod.split)
qed

lemma keeps_run_launch: "keeps \<tau> (run_launch w re p args au cmd)"
  by (auto simp: keeps_def run_launch_def Let_def intro!: sound_cleanup split: sum.split option.split)

lemma sound_emit_jobs [simp]: "sound \<tau> (emit es (n\<lparr>nd_jobs := j\<rparr>)) = sound \<tau> n"
  by (simp add: sound_def)

lemma keeps_run_activate: "keeps \<tau> (run_activate w secret token args au pid)"
proof -
  have "sound \<tau> (fst (activate_locked w secret au pid n))" if "sound \<tau> n" for n
    using keeps_activate [of \<tau> w secret au pid] that by (simp add: keeps_def)
  then show ?thesis
    by (auto simp: keeps_def run_activate_def Let_def case_prod_unfold intro!: sound_cleanup split: prod.split sum.split)
qed

lemma sound_job_step [simp]: "sound \<tau> (job_step f n) = sound \<tau> n"
  by (simp add: job_step_def case_prod_unfold)

lemma keeps_run_complete: "keeps \<tau> (run_complete w re au)"
proof -
  have "sound \<tau> m" if "releaseAuthorization w i n = (m, r)" "sound \<tau> n" for n m r i
    using keeps_release [of \<tau> w i] that by (auto simp: keeps_def dest: spec [of _ n])
  then show ?thesis
    by (auto simp: keeps_def run_complete_def Let_def intro!: sound_cleanup split: prod.split sum.split)
qed

section \<open>The daemon\<close>

text \<open>
  The reachable nodes. A daemon starts on a store that was opened from its file. Requests carry any
  arguments, the world gives any answers. \<open>stored\<close> stands for the requests of the web gateway that are
  single calls of the store (key snapshots, revocations, clean-up by identifier).
\<close>

inductive daemon_reach :: "time \<Rightarrow> Node \<Rightarrow> bool" where
  boot: "store_reach \<tau> (nd_store n) \<Longrightarrow> daemon_reach \<tau> n"
| register: "daemon_reach \<tau> n \<Longrightarrow> clocks \<tau> \<tau>' w \<Longrightarrow> daemon_reach \<tau>' (fst (dispatch_register w args n))"
| allow_docker: "daemon_reach \<tau> n \<Longrightarrow> clocks \<tau> \<tau>' w \<Longrightarrow>
    daemon_reach \<tau>' (fst (createDockerAuthorization w secret token h p container name n))"
| allow_k8s: "daemon_reach \<tau> n \<Longrightarrow> clocks \<tau> \<tau>' w \<Longrightarrow>
    daemon_reach \<tau>' (fst (createK8sAuthorization w secret token h p namespace name n))"
| allow_user: "daemon_reach \<tau> n \<Longrightarrow> clocks \<tau> \<tau>' w \<Longrightarrow>
    daemon_reach \<tau>' (fst (createUserAuthorization w secret token h p user name n))"
| bypass_add: "daemon_reach \<tau> n \<Longrightarrow> clocks \<tau> \<tau>' w \<Longrightarrow>
    daemon_reach \<tau>' (fst (with_root_key w (ba_RootKey args) (addBypassLocked w args (wo_now w 0)) n))"
| revoke: "daemon_reach \<tau> n \<Longrightarrow> clocks \<tau> \<tau>' w \<Longrightarrow> daemon_reach \<tau>' (fst (with_root_key w key (revoke w ident) n))"
| run_admit: "daemon_reach \<tau> n \<Longrightarrow> clocks \<tau> \<tau>' w \<Longrightarrow>
    daemon_reach \<tau>' (fst (run_admit w re secret token h p rargs n))"
| run_launch: "daemon_reach \<tau> n \<Longrightarrow> clocks \<tau> \<tau>' w \<Longrightarrow> daemon_reach \<tau>' (fst (run_launch w re p rargs au cmd n))"
| run_activate: "daemon_reach \<tau> n \<Longrightarrow> clocks \<tau> \<tau>' w \<Longrightarrow>
    daemon_reach \<tau>' (fst (run_activate w secret token rargs au pid n))"
| run_complete: "daemon_reach \<tau> n \<Longrightarrow> clocks \<tau> \<tau>' w \<Longrightarrow> daemon_reach \<tau>' (fst (run_complete w re au n))"
| monitor: "daemon_reach \<tau> n \<Longrightarrow> clocks \<tau> \<tau>' w \<Longrightarrow> daemon_reach \<tau>' (monitorOnce w sm sample n)"
| stored: "daemon_reach \<tau> n \<Longrightarrow> \<tau> \<le> \<tau>' \<Longrightarrow> store_step \<tau>' (nd_store n) s \<Longrightarrow> daemon_reach \<tau>' (n\<lparr>nd_store := s\<rparr>)"

lemma carries_node: "carries \<tau> \<tau>' h \<Longrightarrow> sound \<tau> n \<Longrightarrow> sound \<tau>' (fst (h n))"
  by (simp add: carries_def)

lemma keeps_node: "(\<And>\<sigma>. keeps \<sigma> h) \<Longrightarrow> clocks \<tau> \<tau>' w \<Longrightarrow> sound \<tau> n \<Longrightarrow> sound \<tau>' (fst (h n))"
  by (rule carries_node [OF carries_keeps]) (auto intro: clocks_le)

lemma daemon_reach_sound: "daemon_reach \<tau> n \<Longrightarrow> sound \<tau> n"
proof (induction rule: daemon_reach.induct)
  case (boot \<tau> n)
  then show ?case by (simp add: sound_def store_reach_in_order)
next
  case (register \<tau> n \<tau>' w args)
  have "\<tau> \<le> wo_now w 0" "wo_now w 0 \<le> \<tau>'" using register(2) by (auto simp: clocks_def)
  from carries_node [OF carries_keeps [OF keeps_register this] register(3)] show ?case .
next
  case (monitor \<tau> n \<tau>' w sm sample)
  have "sound \<tau> (monitorOnce w sm sample n)"
    using monitor(3) monitorOnce_orderly [of w n sm sample] by (simp add: sound_def orderly_def)
  then show ?case using clocks_le [OF monitor(2)] by (rule sound_later)
next
  case (stored \<tau> n \<tau>' s)
  then show ?case by (auto simp: sound_def intro: store_step_in_order in_order_later)
qed (blast intro: carries_node carries_allow carries_run_admit keeps_node [OF keeps_bypass]
      keeps_node [OF keeps_revoke] keeps_node [OF keeps_run_launch] keeps_node [OF keeps_run_activate]
      keeps_node [OF keeps_run_complete])+

end
