(* ===== verification/System_Examples.thy ===== *)
theory System_Examples
  imports Daemon_Examples Run_Theorems Daemon_System
begin

text \<open>Concrete runs and monitor steps on which the guarantees of the daemon are applied.\<close>

section \<open>A node in order\<close>

lemma example_clock_span: "clocks 1000 1000 (example_world 1000)"
  by (simp add: clocks_def example_world_def example_env_def mono_def)

lemma carried: "carries 1000 1000 h \<Longrightarrow> sound 1000 (fst (h example_claimed_node))"
  using store_reach_in_order [OF example_claimed_reach] by (simp add: carries_def sound_def)

lemma sound_loaded: "sound \<tau> n \<Longrightarrow> sto_loaded (nd_store n)" "sound \<tau> n \<Longrightarrow> coherent (nd_store n)"
  by (simp_all add: sound_def in_order_def)

text \<open>Eleven minutes later the container is still missing, so the authorization may be reclaimed.\<close>

abbreviation example_later :: World where "example_later \<equiv> example_world (1000 + 660 * second)"

theorem reclaim_safe_witness:
  "snd (reclaimStaleDockerAuthorizations example_later 0 (HashToken example_env example_secret) (fst example_admission)) \<and>
   (\<exists>ids. length ids \<le> 8 \<and> sto_state (nd_store (fst (reclaimStaleDockerAuthorizations example_later 0
       (HashToken example_env example_secret) (fst example_admission)))) =
     (sto_state (nd_store (fst example_admission)))\<lparr>Authorizations := update_where (\<lambda>a. au_ID a \<in> set ids \<and> au_Active a)
       (\<lambda>a. a\<lparr>au_Active := False\<rparr>) (Authorizations (sto_state (nd_store (fst example_admission))))\<rparr>)"
proof -
  have rel: "snd (reclaimStaleDockerAuthorizations example_later 0 (HashToken example_env example_secret) (fst example_admission))"
    by code_simp
  have ok: "sto_loaded (nd_store (fst example_admission))" "coherent (nd_store (fst example_admission))"
    by (rule sound_loaded [OF carried [OF carries_persist [OF example_clock_span]]])+
  from reclaim_safe [OF ok] rel show ?thesis by blast
qed

section \<open>A run\<close>

definition example_run_env :: RunEnv where
  "example_run_env = \<lparr>re_euid = 0, re_commandEnv = (\<lambda>e. e), re_unsafe = False, re_mkdir = None, re_stat = None,
     re_open = None, re_pipes = (\<lambda>_. None), re_start = (\<lambda>_. Inr 4242), re_move = None, re_wait = None, re_exitCode = 0,
     re_procs = Inr [], re_rootAlive = False\<rparr>"

definition example_peer :: peer where
  "example_peer = \<lparr>pr_PID = 100, pr_UID = 1000, pr_GID = 1000, pr_Groups = [44]\<rparr>"

definition example_run_args :: RunArgs where
  "example_run_args = \<lparr>rn_Name = ''train'', rn_Command = [''python'', ''train.py''], rn_Workdir = ''/home/carol'', rn_Env = []\<rparr>"

abbreviation example_run :: "Node \<times> (srv_error + Authorization \<times> StartedCommand)" where
  "example_run \<equiv> run_admit (example_world 1000) example_run_env example_secret zero_Token
     (HashToken example_env example_secret) example_peer example_run_args example_claimed_node"

lemma example_run_admitted:
  obtains au cmd where "example_run = (fst example_run, Inr (au, cmd))"
proof -
  have "\<not> isl (snd example_run)" by code_simp
  then show ?thesis using that by (metis isl_def old.sum.exhaust prod.collapse)
qed

theorem run_isolated_witness:
  "\<exists>au cmd pid started moved. snd example_run = Inr (au, cmd) \<and>
     snd (run_launch (example_world 1000) example_run_env example_peer example_run_args au cmd (fst example_run)) =
       Inr (pid, started, moved) \<and> sd_Argv started = [''python'', ''train.py''] \<and>
     sd_Credential started = Some (1000, 1000, [44])"
proof -
  obtain au cmd where a: "example_run = (fst example_run, Inr (au, cmd))" by (rule example_run_admitted)
  from a have c: "sd_CgroupFD cmd = Some (au_CgroupPath au)"
  proof (rule run_admit_Inr)
    fix useFD rel
    assume "openCgroupFD example_run_env = Inr useFD"
      "prepareRunCommand example_run_env 0 example_run_args example_peer useFD (au_CgroupPath au) = Inr cmd"
    then show ?thesis by (auto simp: openCgroupFD_def prepareRunCommand_def example_run_env_def)
  qed
  let ?l = "run_launch (example_world 1000) example_run_env example_peer example_run_args au cmd (fst example_run)"
  have l: "?l = (fst example_run, Inr (4242, cmd, False))"
    by (simp add: run_launch_def example_run_env_def c)
  have f: "file_name (wo_newID (example_world 1000))" "prefix [slash] (cc_root (wo_cgroup (example_world 1000)))"
    by (simp_all add: example_world_def file_name_def slash_def)
  from run_isolated [OF a l f] have "sd_Argv cmd = [''python'', ''train.py'']" "sd_Credential cmd = Some (1000, 1000, [44])"
    by (simp_all add: example_run_args_def example_peer_def example_run_env_def)
  with arg_cong [OF l, of snd] arg_cong [OF a, of snd] show ?thesis unfolding snd_conv by blast
qed

lemma example_run_sound: "sto_loaded (nd_store (fst example_run))"
  by (rule sound_loaded(1) [OF carried [OF carries_run_admit [OF example_clock_span]]])

theorem run_activation_checked_witness:
  "\<exists>au. snd (run_activate (example_world 1000) example_secret zero_Token example_run_args
      (fst (projr (snd example_run))) 4242 (fst example_run)) = Inr au \<and> au_RootPID au = 4242 \<and> au_Active au"
proof -
  let ?r = "run_activate (example_world 1000) example_secret zero_Token example_run_args
      (fst (projr (snd example_run))) 4242 (fst example_run)"
  have "\<not> isl (snd ?r)" by code_simp
  then obtain au where r: "?r = (fst ?r, Inr au)" by (metis isl_def old.sum.exhaust prod.collapse)
  from run_activation_checked [OF example_run_sound r] r show ?thesis by (metis snd_conv)
qed

section \<open>A group that stays\<close>

definition stuck_world :: World where
  "stuck_world = (example_world 1000)\<lparr>wo_fs := example_fs\<lparr>cg_remove := (\<lambda>_ _. Some (FsError ''busy''))\<rparr>\<rparr>"

definition exited_run :: Authorization where
  "exited_run = zero_Authorization\<lparr>au_ID := ''auth_9'', au_CgroupPath := ''/sys/fs/cgroup/gpuardian/auth_9'', au_RootPID := 4242\<rparr>"

definition exited_node :: Node where
  "exited_node = (example_node example_booked)\<lparr>nd_jobs := fst (rememberRunJob example_job_env None zero_Token exited_run
     4242 [] 1000 (nd_jobs (example_node example_booked)))\<rparr>"

lemma exited_jobs: "jb_enabled (nd_jobs exited_node)" "map_of (jb_run (nd_jobs exited_node)) (au_ID exited_run) \<noteq> None"
  by (simp_all add: exited_node_def example_node_def rememberRunJob_def Let_def put_def)

theorem run_job_leaked_witness:
  "map_of (jb_run (nd_jobs (fst (run_complete stuck_world example_run_env exited_run exited_node)))) ''auth_9'' \<noteq> None \<and>
   isl (snd (run_complete stuck_world example_run_env exited_run exited_node))"
proof -
  obtain job where job: "map_of (jb_run (nd_jobs exited_node)) (au_ID exited_run) = Some job" using exited_jobs(2) by auto
  let ?h = "[ReadProcs (au_CgroupPath exited_run)]"
  have c: "cgroupEmptyOrOnlyExitedRoot stuck_world example_run_env (au_CgroupPath exited_run) (au_RootPID exited_run)
      (nd_cgroups exited_node) = (?h, True)"
    by (simp add: cgroupEmptyOrOnlyExitedRoot_def cgroupEmpty_def stuck_world_def example_fs_def exited_node_def example_node_def)
  let ?n = "(job_step (updateRunJobRootExit (au_ID exited_run) (re_exitCode example_run_env) (wo_now stuck_world 30))
      exited_node)\<lparr>nd_cgroups := ?h\<rparr>"
  have "\<not> isl (snd (releaseAuthorization stuck_world (au_ID exited_run) ?n))" by code_simp
  moreover obtain n1 r where r: "releaseAuthorization stuck_world (au_ID exited_run) ?n = (n1, r)" by fastforce
  ultimately have rel: "releaseAuthorization stuck_world (au_ID exited_run) ?n = (n1, Inr ())" by (cases r) auto
  have rm: "\<exists>h'. removeCgroup (wo_fs stuck_world) (au_CgroupPath exited_run) ?h = (h', Some (FsError ''busy''))"
    by (simp add: removeCgroup_def stuck_world_def example_fs_def)
  then obtain h' where "removeCgroup (wo_fs stuck_world) (au_CgroupPath exited_run) ?h = (h', Some (FsError ''busy''))" by blast
  from run_job_leaked [OF exited_jobs(1) job c rel this] show ?thesis by (simp add: exited_run_def)
qed

section \<open>Quiet samples\<close>

definition quiet_assessment :: EvictionAssessment where
  "quiet_assessment = \<lparr>ea_Authorizations = (\<lambda>i. if i = ''auth_9'' then Some True else None), ea_Leases = (\<lambda>_. None)\<rparr>"

definition quiet_node :: Node where
  "quiet_node = (example_node example_booked)\<lparr>nd_evictionClean :=
     fold recordEvictionAssessment (replicate 3 quiet_assessment) Map.empty\<rparr>"

definition orphaned_state :: State where
  "orphaned_state = empty_State\<lparr>Authorizations := [zero_Authorization\<lparr>au_ID := ''auth_9'', au_Mode := ModeDocker,
     au_TokenHash := ''gone'', au_Active := True\<rparr>]\<rparr>"

theorem release_needs_three_quiet_samples_witness:
  "evictionScopeReady (nd_evictionClean quiet_node) ''authorization'' ''auth_9'' \<and>
   (\<exists>ids. sto_state (nd_store (fst (cleanupExpiredAuthorizationsState (example_world 1000) 5 orphaned_state quiet_node))) =
     (sto_state (nd_store quiet_node))\<lparr>Authorizations := update_where (\<lambda>a. au_ID a \<in> set ids \<and> au_Active a)
       (\<lambda>a. a\<lparr>au_Active := False\<rparr>) (Authorizations (sto_state (nd_store quiet_node)))\<rparr>)"
proof -
  have ok: "sto_loaded (nd_store quiet_node)" "coherent (nd_store quiet_node)"
    using store_reach_in_order [OF example_booked_reach] by (simp_all add: quiet_node_def in_order_def)
  have h: "nd_evictionClean quiet_node = fold recordEvictionAssessment (replicate 3 quiet_assessment) Map.empty"
    by (simp add: quiet_node_def)
  have "evictionScopeReady (nd_evictionClean quiet_node) ''authorization'' ''auth_9''"
    unfolding h scope_ready_history by (simp add: quiet_assessment_def numeral_3_eq_3)
  with release_needs_three_quiet_samples [OF ok h, of "example_world 1000" 5 orphaned_state] show ?thesis by blast
qed

section \<open>The daemon\<close>

lemma example_clocks: "clocks 1000 (1000 + d) (example_world 1000)" if "0 \<le> d" "env_clock example_env = 1000"
  using that by (simp add: clocks_def example_world_def mono_def)

lemma example_daemon: "daemon_reach 1000 (fst (dispatch_register (example_world 1000) example_register (example_node example_booked)))"
proof (rule daemon_reach.register)
  show "daemon_reach 1000 (example_node example_booked)" by (rule daemon_reach.boot) (simp add: example_booked_reach)
  have "env_clock example_env = 1000" by code_simp
  then show "clocks 1000 1000 (example_world 1000)" using example_clocks [of 0] by simp
qed

end
