(* ===== verification/Outbox.thy ===== *)
theory Outbox
  imports Jobs "HOL-Library.List_Lexorder" "HOL-Library.Char_ord"
begin

text \<open>
  The telemetry outbox of the node (\<open>internal/telemetry/telemetry.go\<close>): an append-only log of
  numbered events in segment files, pruned from the front, that the gateway reads page by page
  with cursors.

  The directory is an association list from paths to files. Everything the machine decides is in
  \<^emph>\<open>OutboxEnv\<close>, per call and per position in the batch: clocks, the JSON encoders, and whether a
  write, sync, close, open or removal succeeds. A payload is its encoding, or the error of
  encoding it. The clock reads of one step of a batch agree. Sequence numbers are natural numbers: a log of \<open>2 ^ 64\<close> events does not occur, and
  \<open>Page\<close> compares the position with the latest number before it adds one.
\<close>

section \<open>Data\<close>

abbreviation (input) SchemaVersion :: int where "SchemaVersion \<equiv> 1"
abbreviation (input) DefaultPageLimit :: int where "DefaultPageLimit \<equiv> 128"
abbreviation (input) MaxPageLimit :: int where "MaxPageLimit \<equiv> 256"
abbreviation (input) MaxPageBytes :: nat where "MaxPageBytes \<equiv> 2 ^ 20"
abbreviation (input) maxSegmentBytes :: nat where "maxSegmentBytes \<equiv> 8 * 2 ^ 20"
abbreviation (input) maxSegmentAge :: duration where "maxSegmentAge \<equiv> hour"
abbreviation (input) maxOutboxBytes :: int where "maxOutboxBytes \<equiv> 256 * 2 ^ 20"
abbreviation (input) maxRetention :: duration where "maxRetention \<equiv> 24 * hour"
abbreviation (input) maxLineBytes :: nat where "maxLineBytes \<equiv> 512 * 2 ^ 10"

datatype outbox_error = OxNotExist | OxClosed | OxTooLong | OxInvalid string | OxError string

record Event =
  te_Seq :: nat
  te_OccurredAt :: time
  te_BootID :: string
  te_Type :: string
  te_Payload :: string

record storedEvent =
  so_Event :: Event
  so_segment :: string

record segment =
  sg_path :: string
  sg_first :: nat
  sg_last :: nat
  sg_size :: int
  sg_created :: time
  sg_lastAt :: time

record DiskFile =
  df_data :: string
  df_mtime :: time

record Outbox =
  ob_dir :: string
  ob_nodeID :: string
  ob_streamID :: string
  ob_bootID :: string
  ob_nextSeq :: nat
  ob_events :: "storedEvent list"
  ob_segments :: "segment list"
  ob_totalBytes :: int
  ob_current :: "(string \<times> bool) option"
  ob_disk :: "(string \<times> DiskFile) list"

text \<open>
  \<open>ob_current\<close> is the file the log appends to and whether it is still open: after \<open>Close\<close> the
  pointer of the source stays, and every call on it answers \<open>os.ErrClosed\<close>.
\<close>

record BatchEvent =
  be_Type :: string
  be_Payload :: "outbox_error + string"
  be_OccurredAt :: time

record Cursor =
  cu_Version :: int
  cu_StreamID :: string
  cu_Seq :: nat

record OutboxEnv =
  ox_now :: "nat \<Rightarrow> time"
  ox_encode :: "Event \<Rightarrow> outbox_error + string"
  ox_decode :: "string \<Rightarrow> Event option"
  ox_encodeCursor :: "Cursor \<Rightarrow> string"
  ox_decodeCursor :: "string \<Rightarrow> Cursor option"
  ox_write :: "nat \<Rightarrow> nat option"
  ox_sync :: "nat \<Rightarrow> outbox_error option"
  ox_close :: "nat \<Rightarrow> outbox_error option"
  ox_open :: "nat \<Rightarrow> outbox_error option"
  ox_remove :: "string \<Rightarrow> bool"

text \<open>\<open>ox_write i = Some k\<close>: the write fails after \<open>k\<close> bytes have reached the file.\<close>

section \<open>File names\<close>

text \<open>\<open>fmt.Sprintf("%020d", n)\<close>: decimal, padded with zeros to the width.\<close>

definition digit_char :: "nat \<Rightarrow> char" where
  "digit_char d = char_of (48 + d)"

fun padded :: "nat \<Rightarrow> nat \<Rightarrow> string" where
  "padded 0 n = []"
| "padded (Suc k) n = digit_char (n div 10 ^ k) # padded k (n mod 10 ^ k)"

definition segment_path :: "string \<Rightarrow> nat \<Rightarrow> string" where
  "segment_path dir first = dir @ ''/'' @ padded 20 first @ ''.jsonl''"

section \<open>The file behind the log\<close>

definition file_at :: "Outbox \<Rightarrow> string \<Rightarrow> DiskFile option" where
  "file_at b p = map_of (ob_disk b) p"

definition put_file :: "string \<Rightarrow> DiskFile \<Rightarrow> Outbox \<Rightarrow> Outbox" where
  "put_file p f b = b\<lparr>ob_disk := put p f (ob_disk b)\<rparr>"

definition append_bytes :: "string \<Rightarrow> string \<Rightarrow> time \<Rightarrow> Outbox \<Rightarrow> Outbox" where
  "append_bytes p bytes now b = put_file p
     \<lparr>df_data = (case file_at b p of None \<Rightarrow> [] | Some f \<Rightarrow> df_data f) @ bytes, df_mtime = now\<rparr> b"

definition syncIfLocked :: "OutboxEnv \<Rightarrow> nat \<Rightarrow> bool \<Rightarrow> Outbox \<Rightarrow> outbox_error option" where
  "syncIfLocked env i unsynced b = (case ob_current b of
     None \<Rightarrow> None
   | Some (_, isOpen) \<Rightarrow> if \<not> unsynced then None else if isOpen then ox_sync env i else Some OxClosed)"

definition rotateLocked :: "OutboxEnv \<Rightarrow> nat \<Rightarrow> nat \<Rightarrow> Outbox \<Rightarrow> Outbox \<times> outbox_error option" where
  "rotateLocked env i first b =
     (let (b, err) = (case ob_current b of
            None \<Rightarrow> (b, None)
          | Some (p, isOpen) \<Rightarrow> (b\<lparr>ob_current := Some (p, False)\<rparr>, if isOpen then ox_close env i else Some OxClosed));
          path = segment_path (ob_dir b) first in
      case err of Some e \<Rightarrow> (b, Some e)
      | None \<Rightarrow> (case ox_open env i of Some e \<Rightarrow> (b, Some e)
        | None \<Rightarrow>
            (let b = (if file_at b path = None then put_file path \<lparr>df_data = [], df_mtime = ox_now env i\<rparr> b else b) in
             (b\<lparr>ob_current := Some (path, True), ob_segments := ob_segments b @
                [\<lparr>sg_path = path, sg_first = first, sg_last = 0, sg_size = 0, sg_created = ox_now env i, sg_lastAt = 0\<rparr>]\<rparr>,
              None))))"

section \<open>Binary search\<close>

text \<open>\<open>sort.Search\<close>: the loop on the bounds \<open>i\<close> and \<open>j\<close>.\<close>

function search_loop :: "(nat \<Rightarrow> bool) \<Rightarrow> nat \<Rightarrow> nat \<Rightarrow> nat" where
  "search_loop f i j = (if i < j then
     (let h = (i + j) div 2 in if \<not> f h then search_loop f (Suc h) j else search_loop f i h) else i)"
  by pat_completeness auto
termination
  by (relation "measure (\<lambda>(f, i, j). j - i)") auto

declare search_loop.simps [simp del]

definition sort_Search :: "nat \<Rightarrow> (nat \<Rightarrow> bool) \<Rightarrow> nat" where
  "sort_Search n f = search_loop f 0 n"

definition first_after :: "storedEvent list \<Rightarrow> nat \<Rightarrow> nat" where
  "first_after es position = sort_Search (length es) (\<lambda>i. position < te_Seq (so_Event (es ! i)))"

section \<open>Retention\<close>

definition due_for_removal :: "time \<Rightarrow> int \<Rightarrow> segment \<Rightarrow> bool" where
  "due_for_removal cutoff bytes sg \<longleftrightarrow>
     \<not> (bytes \<le> maxOutboxBytes \<and> \<not> (if time_IsZero (sg_lastAt sg) then sg_created sg else sg_lastAt sg) < cutoff)"

definition drop_first_segment :: "OutboxEnv \<Rightarrow> Outbox \<Rightarrow> Outbox" where
  "drop_first_segment env b = (case ob_segments b of [] \<Rightarrow> b
     | sg # sgs \<Rightarrow> b\<lparr>ob_totalBytes := ob_totalBytes b - sg_size sg,
         ob_disk := (if ox_remove env (sg_path sg) then remove_key (sg_path sg) (ob_disk b) else ob_disk b),
         ob_segments := sgs, ob_events := drop (first_after (ob_events b) (sg_last sg)) (ob_events b)\<rparr>)"

function prune_loop :: "OutboxEnv \<Rightarrow> time \<Rightarrow> Outbox \<Rightarrow> Outbox" where
  "prune_loop env cutoff b =
     (if 1 < length (ob_segments b) \<and> due_for_removal cutoff (ob_totalBytes b) (hd (ob_segments b))
      then prune_loop env cutoff (drop_first_segment env b) else b)"
  by pat_completeness auto
termination
  by (relation "measure (\<lambda>(env, cutoff, b). length (ob_segments b))")
    (auto simp: drop_first_segment_def split: list.splits)

declare prune_loop.simps [simp del]

definition pruneLocked :: "OutboxEnv \<Rightarrow> time \<Rightarrow> Outbox \<Rightarrow> Outbox" where
  "pruneLocked env now b = prune_loop env (now - maxRetention) b"

section \<open>Appending\<close>

definition needs_rotation :: "OutboxEnv \<Rightarrow> nat \<Rightarrow> string \<Rightarrow> Outbox \<Rightarrow> bool" where
  "needs_rotation env i line b \<longleftrightarrow> ob_current b = None \<or> ob_segments b = [] \<or>
     sg_size (last (ob_segments b)) + int (length line) > int maxSegmentBytes \<or>
     time_Sub (ox_now env i) (sg_created (last (ob_segments b))) \<ge> maxSegmentAge"

text \<open>The line has reached the file: the event is part of the log.\<close>

definition record_event :: "Event \<Rightarrow> string \<Rightarrow> Outbox \<Rightarrow> Outbox" where
  "record_event ev line b = (let sg = last (ob_segments b) in
     b\<lparr>ob_segments := butlast (ob_segments b) @ [sg\<lparr>sg_last := te_Seq ev,
          sg_size := sg_size sg + int (length line), sg_lastAt := te_OccurredAt ev\<rparr>],
       ob_totalBytes := ob_totalBytes b + int (length line),
       ob_events := ob_events b @ [\<lparr>so_Event = ev, so_segment = sg_path sg\<rparr>],
       ob_nextSeq := Suc (ob_nextSeq b)\<rparr>)"

definition write_line ::
  "OutboxEnv \<Rightarrow> nat \<Rightarrow> Event \<Rightarrow> string \<Rightarrow> Outbox \<Rightarrow> Outbox \<times> outbox_error option" where
  "write_line env i ev line b = (case ob_current b of
     None \<Rightarrow> (b, Some OxClosed)
   | Some (p, isOpen) \<Rightarrow>
       if \<not> isOpen then (b, Some OxClosed)
       else case ox_write env i of
         Some k \<Rightarrow> (append_bytes p (take k line) (ox_now env i) b, Some (OxError ''write''))
       | None \<Rightarrow> (record_event ev line (append_bytes p line (ox_now env i) b), None))"

definition errors_Join :: "outbox_error option list \<Rightarrow> outbox_error list" where
  "errors_Join es = concat (map (\<lambda>e. case e of None \<Rightarrow> [] | Some e \<Rightarrow> [e]) es)"

text \<open>The loop over the batch; \<open>i\<close> is the position, \<open>unsynced\<close> whether a written line awaits \<open>Sync\<close>.\<close>

fun append_loop ::
  "OutboxEnv \<Rightarrow> nat \<Rightarrow> bool \<Rightarrow> (BatchEvent \<times> string) list \<Rightarrow> Outbox \<Rightarrow> Outbox \<times> Event list \<times> outbox_error list" where
  "append_loop env i unsynced [] b =
     (case syncIfLocked env i unsynced b of
        Some e \<Rightarrow> (b, [], [e])
      | None \<Rightarrow> (pruneLocked env (ox_now env i) b, [], []))"
| "append_loop env i unsynced ((item, payload) # items) b =
     (let occurredAt = (if time_IsZero (be_OccurredAt item) then ox_now env i else be_OccurredAt item);
          ev = \<lparr>te_Seq = ob_nextSeq b, te_OccurredAt = occurredAt, te_BootID = ob_bootID b, te_Type = be_Type item,
                te_Payload = payload\<rparr> in
      case ox_encode env ev of
        Inl e \<Rightarrow> (b, [], errors_Join [Some e, syncIfLocked env i unsynced b])
      | Inr text \<Rightarrow>
        (let line = text @ newline; rotate = needs_rotation env i line b in
         case (if rotate then syncIfLocked env i unsynced b else None) of
           Some e \<Rightarrow> (b, [], [e])
         | None \<Rightarrow>
           (case (if rotate then rotateLocked env i (te_Seq ev) b else (b, None)) of
              (b, Some e) \<Rightarrow> (b, [], [e])
            | (b, None) \<Rightarrow>
              (case write_line env i ev line b of
                 (b, Some e) \<Rightarrow> (b, [], errors_Join [Some e, syncIfLocked env i (unsynced \<and> \<not> rotate) b])
               | (b, None) \<Rightarrow>
                 (case append_loop env (Suc i) True items b of
                    (b, appended, errs) \<Rightarrow> (b, ev # appended, errs))))))"

fun marshal_payloads :: "BatchEvent list \<Rightarrow> outbox_error + (BatchEvent \<times> string) list" where
  "marshal_payloads [] = Inr []"
| "marshal_payloads (item # items) = (case be_Payload item of Inl e \<Rightarrow> Inl e
     | Inr raw \<Rightarrow> (case marshal_payloads items of Inl e \<Rightarrow> Inl e | Inr rest \<Rightarrow> Inr ((item, raw) # rest)))"

definition AppendBatch :: "OutboxEnv \<Rightarrow> BatchEvent list \<Rightarrow> Outbox \<Rightarrow> Outbox \<times> Event list \<times> outbox_error list" where
  "AppendBatch env batch b =
     (if batch = [] then (b, [], [])
      else case marshal_payloads batch of Inl e \<Rightarrow> (b, [], [e])
      | Inr items \<Rightarrow> append_loop env 0 False items b)"

section \<open>Reading\<close>

definition boundsLocked :: "Outbox \<Rightarrow> nat \<times> nat" where
  "boundsLocked b = (if ob_events b = [] then (0, 0)
     else (te_Seq (so_Event (hd (ob_events b))), te_Seq (so_Event (last (ob_events b)))))"

record CursorGap =
  cg_Reason :: string
  cg_StreamID :: string
  cg_ResumeCursor :: string
  cg_EarliestSeq :: nat
  cg_LatestSeq :: nat
  cg_FirstRetainedAt :: time

record Page =
  pg_NodeID :: string
  pg_StreamID :: string
  pg_BootID :: string
  pg_Events :: "Event list"
  pg_NextCursor :: string
  pg_HasMore :: bool
  pg_EarliestSeq :: nat
  pg_LatestSeq :: nat

datatype page_error = ErrInvalidCursor | PageGap CursorGap

definition make_cursor :: "OutboxEnv \<Rightarrow> Outbox \<Rightarrow> nat \<Rightarrow> string" where
  "make_cursor env b seq = ox_encodeCursor env \<lparr>cu_Version = SchemaVersion, cu_StreamID = ob_streamID b, cu_Seq = seq\<rparr>"

definition gapLocked :: "OutboxEnv \<Rightarrow> string \<Rightarrow> nat \<Rightarrow> nat \<Rightarrow> Outbox \<Rightarrow> CursorGap" where
  "gapLocked env reason earliest latest b =
     \<lparr>cg_Reason = reason, cg_StreamID = ob_streamID b,
      cg_ResumeCursor = make_cursor env b (if earliest > 0 then earliest - 1 else 0),
      cg_EarliestSeq = earliest, cg_LatestSeq = latest,
      cg_FirstRetainedAt = (if earliest > 0 then te_OccurredAt (so_Event (hd (ob_events b))) else 0)\<rparr>"

definition decodeCursor :: "OutboxEnv \<Rightarrow> string \<Rightarrow> Cursor option" where
  "decodeCursor env value = (if length value > 512 then None
     else case ox_decodeCursor env value of None \<Rightarrow> None
     | Some c \<Rightarrow> if cu_StreamID c = [] then None else Some c)"

definition page_size :: "Event \<Rightarrow> nat" where
  "page_size ev = length (te_Payload ev) + length (te_Type ev) + 160"

text \<open>The events that go into a page: \<open>limit\<close> of them at most, \<open>used\<close> bytes so far.\<close>

fun page_take :: "nat \<Rightarrow> nat \<Rightarrow> Event list \<Rightarrow> Event list" where
  "page_take limit used [] = []"
| "page_take limit used (ev # evs) =
     (if limit = 0 \<or> used + page_size ev > MaxPageBytes then []
      else ev # page_take (limit - 1) (used + page_size ev) evs)"

definition page_position :: "OutboxEnv \<Rightarrow> string \<Rightarrow> Outbox \<Rightarrow> page_error + nat" where
  "page_position env encoded b =
     (let (earliest, latest) = boundsLocked b in
      if encoded = [] then Inr (if earliest > 0 then earliest - 1 else 0)
      else case decodeCursor env encoded of None \<Rightarrow> Inl ErrInvalidCursor
      | Some c \<Rightarrow>
          if cu_Version c \<noteq> SchemaVersion then Inl ErrInvalidCursor
          else if cu_StreamID c \<noteq> ob_streamID b then Inl (PageGap (gapLocked env ''stream_reset'' earliest latest b))
          else if latest > 0 \<and> cu_Seq c > latest then Inl ErrInvalidCursor
          else if earliest > 0 \<and> cu_Seq c + 1 < earliest
            then Inl (PageGap (gapLocked env ''retention'' earliest latest b))
          else Inr (cu_Seq c))"

definition read_page :: "OutboxEnv \<Rightarrow> string \<Rightarrow> int \<Rightarrow> Outbox \<Rightarrow> page_error + Page" where
  "read_page env encoded limit b =
     (let limit = (if limit \<le> 0 then DefaultPageLimit else limit);
          limit = (if limit > MaxPageLimit then MaxPageLimit else limit);
          (earliest, latest) = boundsLocked b in
      case page_position env encoded b of Inl e \<Rightarrow> Inl e
      | Inr position \<Rightarrow>
        (let events = page_take (nat limit) 512 (map so_Event (drop (first_after (ob_events b) position) (ob_events b)));
             final = (if events = [] then position else te_Seq (last events)) in
         Inr \<lparr>pg_NodeID = ob_nodeID b, pg_StreamID = ob_streamID b, pg_BootID = ob_bootID b, pg_Events = events,
              pg_NextCursor = make_cursor env b final, pg_HasMore = (final < latest),
              pg_EarliestSeq = earliest, pg_LatestSeq = latest\<rparr>))"

section \<open>Loading\<close>

text \<open>\<open>bufio.ScanLines\<close>: lines without their end, a trailing carriage return dropped, no empty last line.\<close>

definition line_end :: char where "line_end = char_of (10 :: nat)"

definition drop_CR :: "string \<Rightarrow> string" where
  "drop_CR s = (if s \<noteq> [] \<and> last s = char_of (13 :: nat) then butlast s else s)"

definition scan_lines :: "string \<Rightarrow> string list" where
  "scan_lines data = (let parts = Split line_end data in if last parts = [] then butlast parts else parts)"

fun load_lines ::
  "OutboxEnv \<Rightarrow> string \<Rightarrow> string list \<Rightarrow> segment \<Rightarrow> storedEvent list \<Rightarrow> outbox_error + (segment \<times> storedEvent list)" where
  "load_lines env path [] sg es = Inr (sg, es)"
| "load_lines env path (l # ls) sg es =
     (if length l \<ge> maxLineBytes then Inl OxTooLong
      else case ox_decode env (drop_CR l) of None \<Rightarrow> Inl (OxInvalid path)
      | Some ev \<Rightarrow>
          if te_Seq ev = 0 \<or> te_Type ev = [] then Inl (OxInvalid path)
          else load_lines env path ls
            (sg\<lparr>sg_first := (if sg_first sg = 0 then te_Seq ev else sg_first sg), sg_last := te_Seq ev,
               sg_lastAt := te_OccurredAt ev\<rparr>)
            (es @ [\<lparr>so_Event = ev, so_segment = path\<rparr>]))"

definition loadSegment :: "OutboxEnv \<Rightarrow> string \<Rightarrow> DiskFile \<Rightarrow> Outbox \<Rightarrow> outbox_error + Outbox" where
  "loadSegment env path f b =
     (case load_lines env path (scan_lines (take (maxSegmentBytes + 1) (df_data f)))
        \<lparr>sg_path = path, sg_first = 0, sg_last = 0, sg_size = int (length (df_data f)), sg_created = df_mtime f,
         sg_lastAt = 0\<rparr> (ob_events b) of
        Inl e \<Rightarrow> Inl e
      | Inr (sg, es) \<Rightarrow>
          Inr (if sg_first sg \<noteq> 0
               then b\<lparr>ob_events := es, ob_segments := ob_segments b @ [sg], ob_totalBytes := ob_totalBytes b + sg_size sg\<rparr>
               else b\<lparr>ob_events := es\<rparr>))"

fun load_segments :: "OutboxEnv \<Rightarrow> (string \<times> DiskFile) list \<Rightarrow> Outbox \<Rightarrow> outbox_error + Outbox" where
  "load_segments env [] b = Inr b"
| "load_segments env ((path, f) # fs) b = (case loadSegment env path f b of Inl e \<Rightarrow> Inl e
     | Inr b \<Rightarrow> load_segments env fs b)"

text \<open>
  \<open>filepath.Glob\<close> of the segments and \<open>sort.Strings\<close>. The identities come from \<open>meta.json\<close> and
  the node file, which are read or created before; \<open>Open\<close> gets them here.
\<close>

definition load :: "OutboxEnv \<Rightarrow> Outbox \<Rightarrow> outbox_error + Outbox" where
  "load env b =
     (case load_segments env (sort_key fst (filter (\<lambda>(p, f). suffix ''.jsonl'' p) (ob_disk b))) b of
        Inl e \<Rightarrow> Inl e
      | Inr b \<Rightarrow>
          (let b = (if ob_events b = [] then b
                    else b\<lparr>ob_nextSeq := te_Seq (so_Event (last (ob_events b))) + 1\<rparr>) in
           Inr (pruneLocked env (ox_now env 0) b)))"

definition Open ::
  "OutboxEnv \<Rightarrow> string \<Rightarrow> string \<Rightarrow> string \<Rightarrow> string \<Rightarrow> (string \<times> DiskFile) list \<Rightarrow> outbox_error + Outbox" where
  "Open env nodeID streamID dir bootID disk = load env
     \<lparr>ob_dir = dir, ob_nodeID = nodeID, ob_streamID = streamID, ob_bootID = bootID, ob_nextSeq = 1, ob_events = [],
      ob_segments = [], ob_totalBytes = 0, ob_current = None, ob_disk = disk\<rparr>"

definition Close :: "OutboxEnv \<Rightarrow> Outbox \<Rightarrow> Outbox \<times> outbox_error option" where
  "Close env b = (case ob_current b of None \<Rightarrow> (b, None)
     | Some (_, isOpen) \<Rightarrow> (b\<lparr>ob_current := None\<rparr>, if isOpen then ox_close env 0 else Some OxClosed))"

end
