(* ===== verification/Outbox_Theorems.thy ===== *)
theory Outbox_Theorems
  imports Outbox
begin

text \<open>
  What the outbox promises to the collector of the gateway: numbered events without holes, pages
  that deliver every event once and in order however appends and reads interleave, progress, and
  two ways in which the log stops working.
\<close>

section \<open>Searching the log\<close>

lemma search_loop_splits:
  assumes "\<And>m n. m \<le> n \<Longrightarrow> n < j \<Longrightarrow> f m \<Longrightarrow> f n" "i \<le> j"
  shows "i \<le> search_loop f i j \<and> search_loop f i j \<le> j \<and> (\<forall>k. i \<le> k \<and> k < search_loop f i j \<longrightarrow> \<not> f k) \<and>
    (\<forall>k. search_loop f i j \<le> k \<and> k < j \<longrightarrow> f k)"
  using assms
proof (induction f i j rule: search_loop.induct)
  case (1 f i j)
  show ?case
  proof (cases "i < j")
    case False
    then have "search_loop f i j = i" by (subst search_loop.simps) (rule if_not_P)
    with False "1.prems"(2) show ?thesis by auto
  next
    case True
    define h where "h = (i + j) div 2"
    have h: "i \<le> h" "h < j" using True by (auto simp: h_def)
    show ?thesis
    proof (cases "f h")
      case True
      have eq: "search_loop f i j = search_loop f i h"
        using True \<open>i < j\<close> by (subst search_loop.simps) (simp add: Let_def h_def)
      have IH: "i \<le> search_loop f i h \<and> search_loop f i h \<le> h \<and> (\<forall>k. i \<le> k \<and> k < search_loop f i h \<longrightarrow> \<not> f k) \<and>
        (\<forall>k. search_loop f i h \<le> k \<and> k < h \<longrightarrow> f k)"
      proof (rule "1.IH"(2) [OF \<open>i < j\<close> h_def])
        show "f n" if "m \<le> n" "n < h" "f m" for m n using that "1.prems"(1) [of m n] h by simp
      qed (use h True in simp_all)
      have up: "f k" if "search_loop f i h \<le> k" "k < j" for k
        using "1.prems"(1) [of h k] IH that True by (cases "h \<le> k") auto
      show ?thesis unfolding eq using h IH up by auto
    next
      case False
      have eq: "search_loop f i j = search_loop f (Suc h) j"
        using False \<open>i < j\<close> by (subst search_loop.simps) (simp add: Let_def h_def)
      have IH: "Suc h \<le> search_loop f (Suc h) j \<and> search_loop f (Suc h) j \<le> j \<and>
        (\<forall>k. Suc h \<le> k \<and> k < search_loop f (Suc h) j \<longrightarrow> \<not> f k) \<and> (\<forall>k. search_loop f (Suc h) j \<le> k \<and> k < j \<longrightarrow> f k)"
      proof (rule "1.IH"(1) [OF \<open>i < j\<close> h_def False])
        show "f n" if "m \<le> n" "n < j" "f m" for m n using that by (rule "1.prems"(1))
      qed (use h in simp)
      have low: "\<not> f k" if "k < search_loop f (Suc h) j" for k
        using "1.prems"(1) [of k h] IH that False h by (cases "k \<le> h") auto
      show ?thesis unfolding eq using h IH low by auto
    qed
  qed
qed

lemma drop_first_after:
  assumes "sorted (map (\<lambda>e. te_Seq (so_Event e)) es)"
  shows "drop (first_after es p) es = filter (\<lambda>e. p < te_Seq (so_Event e)) es"
proof -
  define r where "r = first_after es p"
  have mono: "p < te_Seq (so_Event (es ! m)) \<Longrightarrow> p < te_Seq (so_Event (es ! n))" if "m \<le> n" "n < length es" for m n
    using sorted_nth_mono [OF assms, of m n] that by simp
  have r: "r \<le> length es" "\<And>k. k < r \<Longrightarrow> \<not> p < te_Seq (so_Event (es ! k))"
    "\<And>k. r \<le> k \<Longrightarrow> k < length es \<Longrightarrow> p < te_Seq (so_Event (es ! k))"
    using search_loop_splits [of "length es" "\<lambda>i. p < te_Seq (so_Event (es ! i))" 0] mono
    unfolding r_def first_after_def sort_Search_def by blast+
  have "filter (\<lambda>e. p < te_Seq (so_Event e)) (take r es) = []"
    using r by (auto simp: filter_empty_conv in_set_conv_nth)
  moreover have "filter (\<lambda>e. p < te_Seq (so_Event e)) (drop r es) = drop r es"
    using r by (auto simp: filter_id_conv in_set_conv_nth)
  ultimately have "filter (\<lambda>e. p < te_Seq (so_Event e)) (take r es @ drop r es) = drop r es"
    by (simp only: filter_append append_Nil)
  then show ?thesis by (simp add: r_def)
qed

section \<open>The numbering invariant\<close>

abbreviation log :: "Outbox \<Rightarrow> Event list" where "log b \<equiv> map so_Event (ob_events b)"

definition consecutive :: "nat \<Rightarrow> Event list \<Rightarrow> bool" where
  "consecutive n es \<longleftrightarrow> map te_Seq es = [n ..< n + length es]"

definition numbered :: "Outbox \<Rightarrow> bool" where
  "numbered b \<longleftrightarrow> length (ob_events b) < ob_nextSeq b \<and>
     consecutive (ob_nextSeq b - length (ob_events b)) (log b) \<and>
     ob_totalBytes b = sum_list (map sg_size (ob_segments b))"

lemma consecutive_append:
  "consecutive n (xs @ ys) \<longleftrightarrow> consecutive n xs \<and> consecutive (n + length xs) ys"
proof -
  have "[n ..< n + length (xs @ ys)] = [n ..< n + length xs] @ [n + length xs ..< n + length xs + length ys]"
    using upt_add_eq_append [of n "n + length xs" "length ys"] by (simp add: add.assoc)
  then show ?thesis by (simp add: consecutive_def)
qed

lemma consecutive_nth: "consecutive n es \<Longrightarrow> i < length es \<Longrightarrow> te_Seq (es ! i) = n + i"
proof -
  assume "consecutive n es" "i < length es"
  then have "map te_Seq es ! i = [n ..< n + length es] ! i" by (simp add: consecutive_def)
  with \<open>i < length es\<close> show ?thesis by simp
qed

lemma consecutive_sorted: "consecutive n es \<Longrightarrow> sorted (map te_Seq es)"
  by (simp add: consecutive_def)

lemma consecutive_drop: "consecutive n es \<Longrightarrow> consecutive (n + k) (drop k es)"
proof (cases "k \<le> length es")
  case True
  assume "consecutive n es"
  then have "consecutive n (take k es @ drop k es)" by simp
  then have "consecutive (n + length (take k es)) (drop k es)" by (simp only: consecutive_append)
  with True show ?thesis by (simp add: min_absorb2)
qed (simp add: consecutive_def)

text \<open>Nothing is dropped by a filter on numbers but a prefix.\<close>

lemma consecutive_filter:
  assumes "consecutive n es"
  shows "filter (\<lambda>e. p < te_Seq e) es = drop (Suc p - n) es"
proof -
  have split: "filter (\<lambda>e. p < te_Seq e) es = filter (\<lambda>e. p < te_Seq e) (take (Suc p - n) es) @
      filter (\<lambda>e. p < te_Seq e) (drop (Suc p - n) es)" by (metis append_take_drop_id filter_append)
  have "filter (\<lambda>e. p < te_Seq e) (take (Suc p - n) es) = []"
    using consecutive_nth [OF assms] by (auto simp: filter_empty_conv in_set_conv_nth)
  moreover have "filter (\<lambda>e. p < te_Seq e) (drop (Suc p - n) es) = drop (Suc p - n) es"
    using consecutive_nth [OF assms] by (auto simp: filter_id_conv in_set_conv_nth)
  ultimately show ?thesis using split by simp
qed

lemma numbered_sorted: "numbered b \<Longrightarrow> sorted (map (\<lambda>e. te_Seq (so_Event e)) (ob_events b))"
  using consecutive_sorted [of "ob_nextSeq b - length (ob_events b)" "log b"] by (simp add: numbered_def comp_def)

section \<open>What an append does to the log\<close>

text \<open>
  \<open>extends b b' es\<close>: the events \<open>es\<close> were appended, numbered on from the last ones, and at most
  a prefix was dropped.
\<close>

definition extends :: "Outbox \<Rightarrow> Outbox \<Rightarrow> Event list \<Rightarrow> bool" where
  "extends b b' es \<longleftrightarrow> numbered b' \<and> ob_nextSeq b' = ob_nextSeq b + length es \<and>
     consecutive (ob_nextSeq b) es \<and> suffix (log b') (log b @ es) \<and> ob_streamID b' = ob_streamID b"

lemma extends_trans:
  assumes "extends b c es" "extends c d fs"
  shows "extends b d (es @ fs)"
proof -
  have "suffix (log d) (log c @ fs)" "suffix (log c @ fs) (log b @ es @ fs)"
    using assms by (auto simp: extends_def suffix_def)
  then have "suffix (log d) (log b @ es @ fs)" by (rule suffix_order.trans)
  with assms show ?thesis by (simp add: extends_def consecutive_append)
qed

lemma extends_refl: "numbered b \<Longrightarrow> extends b b []"
  by (simp add: extends_def consecutive_def)

lemma extends_same:
  assumes "numbered b" "ob_events b' = ob_events b" "ob_nextSeq b' = ob_nextSeq b" "ob_streamID b' = ob_streamID b"
    "ob_totalBytes b' = ob_totalBytes b" "sum_list (map sg_size (ob_segments b')) = sum_list (map sg_size (ob_segments b))"
  shows "extends b b' []"
  using assms by (simp add: extends_def consecutive_def numbered_def)

lemma drop_first_segment_extends:
  assumes "numbered b"
  shows "extends b (drop_first_segment env b) []"
proof (cases "ob_segments b")
  case Nil
  with assms show ?thesis by (simp add: drop_first_segment_def extends_refl)
next
  case (Cons sg sgs)
  define k where "k = first_after (ob_events b) (sg_last sg)"
  have n: "ob_nextSeq b - length (ob_events b) + min k (length (ob_events b)) =
      ob_nextSeq b - (length (ob_events b) - k)"
    using assms by (auto simp: numbered_def min_def)
  have "consecutive (ob_nextSeq b - length (ob_events b)) (log b)" using assms by (simp add: numbered_def)
  from consecutive_drop [OF this, of "min k (length (ob_events b))"]
  have "consecutive (ob_nextSeq b - (length (ob_events b) - k)) (drop k (log b))"
    unfolding n by (cases "k \<le> length (ob_events b)") (simp_all add: min_def consecutive_def)
  then have "consecutive (ob_nextSeq b - (length (ob_events b) - k)) (map so_Event (drop k (ob_events b)))"
    by (simp add: drop_map)
  moreover have "suffix (map so_Event (drop k (ob_events b))) (log b)"
    using suffix_drop [of k "log b"] by (simp add: drop_map)
  moreover have "length (ob_events b) - k < ob_nextSeq b" using assms by (auto simp: numbered_def)
  ultimately show ?thesis using assms Cons
    by (simp add: drop_first_segment_def extends_def numbered_def k_def [symmetric] consecutive_def [of _ "[]"])
qed

lemma prune_loop_extends: "numbered b \<Longrightarrow> extends b (prune_loop env cutoff b) []"
proof (induction env cutoff b rule: prune_loop.induct)
  case (1 env cutoff b)
  show ?case
  proof (cases "1 < length (ob_segments b) \<and> due_for_removal cutoff (ob_totalBytes b) (hd (ob_segments b))")
    case True
    note first = drop_first_segment_extends [OF "1.prems", of env]
    then have "extends (drop_first_segment env b) (prune_loop env cutoff (drop_first_segment env b)) []"
      using "1.IH" True by (simp add: extends_def)
    moreover have "prune_loop env cutoff b = prune_loop env cutoff (drop_first_segment env b)"
      using True by (subst prune_loop.simps) (rule if_P)
    ultimately show ?thesis using extends_trans [OF first] by simp
  next
    case False
    then have "prune_loop env cutoff b = b" by (subst prune_loop.simps) (rule if_not_P)
    with "1.prems" show ?thesis by (simp add: extends_refl)
  qed
qed

lemma rotateLocked_extends:
  assumes "numbered b" "rotateLocked env i n b = (b', err)"
  shows "extends b b' []"
  using assms
  by (intro extends_same)
    (auto simp: rotateLocked_def Let_def put_file_def split: option.splits prod.splits if_splits)

lemma rotateLocked_next: "rotateLocked env i n b = (b', err) \<Longrightarrow>
    ob_nextSeq b' = ob_nextSeq b \<and> (err = None \<longrightarrow> ob_segments b' \<noteq> [])"
  by (auto simp: rotateLocked_def Let_def put_file_def split: option.splits prod.splits if_splits)

lemma write_line_extends:
  assumes "numbered b" "write_line env i ev line b = (b', err)" "te_Seq ev = ob_nextSeq b" "ob_segments b \<noteq> []"
  shows "extends b b' (if err = None then [ev] else [])"
proof (cases "err = None")
  case False
  then have "extends b b' []"
    using assms by (intro extends_same)
      (auto simp: write_line_def append_bytes_def put_file_def split: option.splits prod.splits if_splits)
  with False show ?thesis by (simp only: if_False)
next
  case True
  obtain c bytes p where b': "b' = record_event ev line (append_bytes p line c b)"
    using assms(2) True by (auto simp: write_line_def split: option.splits prod.splits if_splits)
  obtain sgs sg where sg: "ob_segments b = sgs @ [sg]" using assms(4) by (metis append_butlast_last_id)
  have "consecutive (ob_nextSeq b - length (ob_events b)) (log b @ [ev])"
    using assms(1,3) by (simp add: consecutive_append numbered_def consecutive_def [of _ "[ev]"])
  then show ?thesis using assms(1,3) True
    by (simp add: b' record_event_def append_bytes_def put_file_def extends_def numbered_def sg Let_def consecutive_def [of _ "[ev]"])
qed

text \<open>The line is written on the segment that is there, or on the new one.\<close>

lemma rotation_extends:
  assumes "numbered b" "(if r then rotateLocked env i n b else (b, None)) = (b1, None)"
    "r \<longleftrightarrow> needs_rotation env i line b"
  shows "extends b b1 [] \<and> ob_segments b1 \<noteq> []"
proof (cases r)
  case True
  with assms rotateLocked_extends [OF assms(1)] rotateLocked_next show ?thesis by fastforce
next
  case False
  with assms show ?thesis by (auto simp: needs_rotation_def extends_refl)
qed

lemma append_loop_extends:
  "numbered b \<Longrightarrow> append_loop env i u items b = (b', es, errs) \<Longrightarrow> extends b b' es"
proof (induction items arbitrary: i u b b' es errs)
  case Nil
  then show ?case by (auto simp: pruneLocked_def extends_refl prune_loop_extends split: option.splits)
next
  case (Cons x items)
  obtain item payload where x: "x = (item, payload)" by fastforce
  define ev where "ev = \<lparr>te_Seq = ob_nextSeq b,
     te_OccurredAt = (if time_IsZero (be_OccurredAt item) then ox_now env i else be_OccurredAt item),
     te_BootID = ob_bootID b, te_Type = be_Type item, te_Payload = payload\<rparr>"
  note step = Cons.prems(2) [unfolded x append_loop.simps Let_def, folded ev_def]
  show ?case
  proof (cases "ox_encode env ev")
    case (Inl e)
    with step Cons.prems(1) show ?thesis by (auto simp: extends_refl)
  next
    case (Inr bytes)
    define r where "r = needs_rotation env i (bytes @ newline) b"
    obtain b1 e1 where b1: "(if r then rotateLocked env i (te_Seq ev) b else (b, None)) = (b1, e1)" by fastforce
    show ?thesis
    proof (cases "(if r then syncIfLocked env i u b else None) \<noteq> None \<or> e1 \<noteq> None")
      case True
      have "extends b b1 []" using b1 Cons.prems(1) rotateLocked_extends
        by (auto simp: extends_refl split: if_splits)
      with True step Inr b1 Cons.prems(1) show ?thesis
        by (auto simp: r_def [symmetric] extends_refl split: option.splits)
    next
      case False
      then have b1': "(if r then rotateLocked env i (te_Seq ev) b else (b, None)) = (b1, None)" using b1 by auto
      from rotation_extends [OF Cons.prems(1) this r_def] have ext: "extends b b1 []" and sg: "ob_segments b1 \<noteq> []" by auto
      then have n1: "numbered b1" "te_Seq ev = ob_nextSeq b1" by (simp_all add: extends_def ev_def)
      obtain b2 e2 where b2: "write_line env i ev (bytes @ newline) b1 = (b2, e2)" by fastforce
      note w = extends_trans [OF ext write_line_extends [OF n1(1) b2 n1(2) sg]]
      show ?thesis
      proof (cases e2)
        case (Some e)
        with step Inr b1' False b2 w show ?thesis by (auto simp: r_def [symmetric])
      next
        case None
        obtain b3 fs errs3 where l: "append_loop env (Suc i) True items b2 = (b3, fs, errs3)"
          by (metis prod_cases3)
        have "numbered b2" using w None by (simp add: extends_def)
        from extends_trans [OF w Cons.IH [OF this l]] step Inr b1' False b2 None l show ?thesis
          by (auto simp: r_def [symmetric])
      qed
    qed
  qed
qed

lemma AppendBatch_extends:
  assumes "numbered b" "AppendBatch env batch b = (b', es, errs)"
  shows "extends b b' es"
  using assms append_loop_extends by (auto simp: AppendBatch_def extends_refl split: if_splits sum.splits)

section \<open>What a page holds\<close>

lemma page_take_prefix: "prefix (page_take limit used es) es"
  by (induction limit used es rule: page_take.induct) auto

lemma page_take_nonempty:
  "es \<noteq> [] \<Longrightarrow> 0 < limit \<Longrightarrow> used + page_size (hd es) \<le> MaxPageBytes \<Longrightarrow> page_take limit used es \<noteq> []"
  by (cases es) auto

definition effective_limit :: "int \<Rightarrow> nat" where
  "effective_limit limit = nat (let l = (if limit \<le> 0 then DefaultPageLimit else limit) in
     if l > MaxPageLimit then MaxPageLimit else l)"

lemma effective_limit_pos: "0 < effective_limit limit"
  by (simp add: effective_limit_def Let_def)

lemma read_page_at:
  assumes "numbered b" "page_position env c b = Inr p"
  shows "read_page env c limit b = (let es = page_take (effective_limit limit) 512 (filter (\<lambda>e. p < te_Seq e) (log b));
      final = (if es = [] then p else te_Seq (last es)) in
    Inr \<lparr>pg_NodeID = ob_nodeID b, pg_StreamID = ob_streamID b, pg_BootID = ob_bootID b, pg_Events = es,
      pg_NextCursor = make_cursor env b final, pg_HasMore = (final < snd (boundsLocked b)),
      pg_EarliestSeq = fst (boundsLocked b), pg_LatestSeq = snd (boundsLocked b)\<rparr>)"
proof -
  have "map so_Event (drop (first_after (ob_events b) p) (ob_events b)) = filter (\<lambda>e. p < te_Seq e) (log b)"
    using drop_first_after [OF numbered_sorted [OF assms(1)]] by (simp add: filter_map comp_def)
  then show ?thesis using assms(2)
    by (simp add: read_page_def effective_limit_def Let_def case_prod_unfold del: map_map)
qed

lemma bounds_numbered:
  assumes "numbered b"
  shows "boundsLocked b = (if ob_events b = [] then (0, 0) else (ob_nextSeq b - length (ob_events b), ob_nextSeq b - 1))"
proof (cases "ob_events b = []")
  case False
  then have l: "log b \<noteq> []" by simp
  have c: "consecutive (ob_nextSeq b - length (ob_events b)) (log b)" using assms by (simp add: numbered_def)
  have "te_Seq (hd (log b)) = ob_nextSeq b - length (ob_events b)"
    using consecutive_nth [OF c, of 0] l by (simp add: hd_conv_nth)
  moreover have "te_Seq (last (log b)) = ob_nextSeq b - 1"
    using consecutive_nth [OF c, of "length (ob_events b) - 1"] l False assms
    by (simp add: last_conv_nth numbered_def Suc_leI)
  ultimately show ?thesis using False by (simp add: boundsLocked_def hd_map last_map)
qed (simp add: boundsLocked_def)

section \<open>The interface to a reader\<close>

text \<open>The events with a number in a window, of a consecutive list.\<close>

lemma consecutive_window:
  assumes "consecutive n es" "n \<le> Suc p0" "p0 \<le> p"
  shows "filter (\<lambda>e. p0 < te_Seq e \<and> te_Seq e \<le> p) es = take (p - p0) (drop (Suc p0 - n) es)"
proof -
  have f: "filter (\<lambda>e. p0 < te_Seq e \<and> te_Seq e \<le> p) es = filter (\<lambda>e. te_Seq e \<le> p) (drop (Suc p0 - n) es)"
    using consecutive_filter [OF assms(1), of p0] by (metis (no_types, lifting) filter_cong filter_filter)
  define xs where "xs = drop (Suc p0 - n) es"
  have "consecutive (Suc p0) xs" using consecutive_drop [OF assms(1), of "Suc p0 - n"] assms(2) by (simp add: xs_def)
  then have num: "te_Seq (xs ! i) = Suc p0 + i" if "i < length xs" for i using consecutive_nth that by blast
  have "filter (\<lambda>e. te_Seq e \<le> p) (take (p - p0) xs) = take (p - p0) xs"
    using num assms(3) by (auto simp: filter_id_conv in_set_conv_nth)
  moreover have "filter (\<lambda>e. te_Seq e \<le> p) (drop (p - p0) xs) = []"
    using num assms(3) by (auto simp: filter_empty_conv in_set_conv_nth)
  ultimately have "filter (\<lambda>e. te_Seq e \<le> p) xs = take (p - p0) xs"
    by (metis append_Nil2 append_take_drop_id filter_append)
  with f show ?thesis by (simp only: xs_def)
qed

text \<open>
  A log as its readers see it: what is retained, the number of the next event, and what appending
  and reading may do. \<open>tracked b H p0 p\<close> says that \<open>H\<close> is the log without its losses and that a
  reader that began after event \<open>p0\<close> has got as far as event \<open>p\<close>.
\<close>

locale event_log =
  fixes ok :: "'b \<Rightarrow> bool" and retained :: "'b \<Rightarrow> Event list" and upcoming :: "'b \<Rightarrow> nat"
    and appends :: "'b \<Rightarrow> 'b \<Rightarrow> Event list \<Rightarrow> bool" and reads :: "'b \<Rightarrow> nat \<Rightarrow> Event list \<Rightarrow> bool"
  assumes numbering: "ok b \<Longrightarrow> length (retained b) < upcoming b \<and>
      consecutive (upcoming b - length (retained b)) (retained b)"
    and append_law: "ok b \<Longrightarrow> appends b b' es \<Longrightarrow> ok b' \<and> upcoming b' = upcoming b + length es \<and>
      consecutive (upcoming b) es \<and> suffix (retained b') (retained b @ es)"
    and read_law: "ok b \<Longrightarrow> reads b p es \<Longrightarrow> prefix es (filter (\<lambda>e. p < te_Seq e) (retained b)) \<and>
      (retained b \<noteq> [] \<longrightarrow> upcoming b - length (retained b) \<le> Suc p)"
begin

definition tracked :: "'b \<Rightarrow> Event list \<Rightarrow> nat \<Rightarrow> nat \<Rightarrow> bool" where
  "tracked b H p0 p \<longleftrightarrow> ok b \<and> length H < upcoming b \<and> consecutive (upcoming b - length H) H \<and>
     suffix (retained b) H \<and> upcoming b - length H \<le> Suc p0 \<and> p0 \<le> p \<and> p < upcoming b"

lemma tracked_start:
  "ok b \<Longrightarrow> upcoming b - length (retained b) \<le> Suc p0 \<Longrightarrow> p0 < upcoming b \<Longrightarrow> tracked b (retained b) p0 p0"
  using numbering by (simp add: tracked_def)

lemma tracked_append:
  assumes "tracked b H p0 p" "appends b b' es"
  shows "tracked b' (H @ es) p0 p"
proof -
  have law: "ok b'" "upcoming b' = upcoming b + length es" "consecutive (upcoming b) es"
    "suffix (retained b') (retained b @ es)"
    using append_law assms by (auto simp: tracked_def)
  have "suffix (retained b @ es) (H @ es)" using assms(1) by (auto simp: tracked_def suffix_def)
  with law(4) have "suffix (retained b') (H @ es)" by (rule suffix_order.trans)
  with law assms(1) show ?thesis by (auto simp: tracked_def consecutive_append)
qed

lemma tracked_read:
  assumes "tracked b H p0 p" "reads b p es"
  shows "tracked b H p0 (p + length es) \<and> (es \<noteq> [] \<longrightarrow> te_Seq (last es) = p + length es) \<and>
    filter (\<lambda>e. p0 < te_Seq e \<and> te_Seq e \<le> p + length es) H = filter (\<lambda>e. p0 < te_Seq e \<and> te_Seq e \<le> p) H @ es"
proof -
  define n where "n = upcoming b - length H"
  define R where "R = retained b"
  define m where "m = upcoming b - length R"
  have t: "ok b" "consecutive n H" "suffix R H" "n \<le> Suc p0" "p0 \<le> p" "p < upcoming b" "length H < upcoming b"
    using assms(1) by (auto simp: tracked_def n_def R_def)
  have law: "prefix es (filter (\<lambda>e. p < te_Seq e) R)" "R \<noteq> [] \<longrightarrow> m \<le> Suc p"
    using read_law [OF t(1) assms(2)] by (auto simp: R_def m_def)
  have c: "consecutive m R" using numbering [OF t(1)] by (simp add: R_def m_def)
  obtain k where k: "R = drop k H" "k \<le> length H" 
  proof -
    from t(3) obtain zs where "H = zs @ R" by (auto simp: suffix_def)
    then show ?thesis using that [of "length zs"] by simp
  qed
  have "m = n + k" using k t(7) by (auto simp: m_def n_def)
  have pre: "prefix es (drop (Suc p - n) H)"
  proof (cases "R = []")
    case True
    with law show ?thesis by simp
  next
    case False
    then have "m \<le> Suc p" using law by simp
    then have "drop (Suc p - m) R = drop (Suc p - n) H" using k \<open>m = n + k\<close> by (simp add: add.commute)
    with law(1) consecutive_filter [OF c, of p] show ?thesis by simp
  qed
  then have es: "es = take (length es) (drop (Suc p - n) H)" by (metis append_eq_conv_conj prefixE)
  have "length es \<le> length H - (Suc p - n)" using prefix_length_le [OF pre] by simp
  then have end_le: "p + length es < upcoming b" using t by (cases "es = []") (auto simp: n_def)
  have cd: "consecutive (n + (Suc p - n)) (drop (Suc p - n) H)" using consecutive_drop [OF t(2)] .
  have final: "te_Seq (last es) = p + length es" if "es \<noteq> []"
  proof -
    have "last es = drop (Suc p - n) H ! (length es - 1)" using that pre
      by (auto simp: last_conv_nth prefix_def nth_append)
    moreover have "length es - 1 < length (drop (Suc p - n) H)" using prefix_length_le [OF pre] that
      by (cases es) auto
    ultimately show ?thesis using consecutive_nth [OF cd] that t by (cases es) auto
  qed
  have "filter (\<lambda>e. p0 < te_Seq e \<and> te_Seq e \<le> p + length es) H = take (p + length es - p0) (drop (Suc p0 - n) H)"
    using consecutive_window [OF t(2,4)] t(5) by simp
  also have "\<dots> = take (p - p0) (drop (Suc p0 - n) H) @ take (length es) (drop (p - p0) (drop (Suc p0 - n) H))"
    using t(5) by (metis Nat.add_diff_assoc2 take_add)
  also have "drop (p - p0) (drop (Suc p0 - n) H) = drop (Suc p - n) H" using t(4,5) by simp
  also have "take (length es) (drop (Suc p - n) H) = es" using es by simp
  also have "take (p - p0) (drop (Suc p0 - n) H) = filter (\<lambda>e. p0 < te_Seq e \<and> te_Seq e \<le> p) H"
    using consecutive_window [OF t(2,4,5)] by simp
  finally show ?thesis using assms(1) end_le final by (simp add: tracked_def)
qed

lemma tracked_numbers:
  assumes "tracked b H p0 p"
  shows "map te_Seq (filter (\<lambda>e. p0 < te_Seq e \<and> te_Seq e \<le> p) H) = [Suc p0 ..< Suc p]"
proof -
  define n where "n = upcoming b - length H"
  have t: "consecutive n H" "n \<le> Suc p0" "p0 \<le> p" "p < n + length H"
    using assms by (auto simp: tracked_def n_def)
  have "map te_Seq (take (p - p0) (drop (Suc p0 - n) H)) = take (p - p0) (drop (Suc p0 - n) (map te_Seq H))"
    by (simp only: take_map drop_map)
  also have "\<dots> = take (p - p0) (drop (Suc p0 - n) [n ..< n + length H])" using t(1) by (simp only: consecutive_def)
  also have "\<dots> = [Suc p0 ..< Suc p]" using t by (simp add: take_upt)
  finally show ?thesis using consecutive_window [OF t(1-3)] by simp
qed

end

lemma page_position_bound:
  assumes "numbered b" "page_position env c b = Inr p" "ob_events b \<noteq> []"
  shows "ob_nextSeq b - length (ob_events b) \<le> Suc p"
  using assms bounds_numbered [OF assms(1)]
  by (auto simp: page_position_def Let_def numbered_def split: if_splits option.splits)

interpretation node_log: event_log numbered log ob_nextSeq
  "\<lambda>b b' es. \<exists>env batch errs. AppendBatch env batch b = (b', es, errs)"
  "\<lambda>b p es. \<exists>env c limit pg. page_position env c b = Inr p \<and> read_page env c limit b = Inr pg \<and> es = pg_Events pg"
proof (unfold_locales, goal_cases)
  case (1 b)
  then show ?case by (simp add: numbered_def)
next
  case (2 b b' es)
  then show ?case using AppendBatch_extends by (fastforce simp: extends_def)
next
  case (3 b p es)
  then show ?case using read_page_at page_position_bound page_take_prefix
    by (auto simp: Let_def)
qed

section \<open>Two ways to stop the log\<close>

definition closed_file :: "Outbox \<Rightarrow> bool" where
  "closed_file b \<longleftrightarrow> (\<exists>p. ob_current b = Some (p, False))"

lemma append_loop_closed:
  assumes "closed_file b" "append_loop env i u (item # items) b = (b', es, errs)"
  shows "es = [] \<and> errs \<noteq> [] \<and> closed_file b' \<and> ob_events b' = ob_events b"
  using assms
  by (cases item)
    (auto simp: closed_file_def Let_def write_line_def rotateLocked_def errors_Join_def
      split: sum.splits option.splits if_splits prod.splits)

lemma AppendBatch_closed:
  assumes "closed_file b" "AppendBatch env batch b = (b', es, errs)"
  shows "es = [] \<and> closed_file b' \<and> ob_events b' = ob_events b \<and> (batch \<noteq> [] \<longrightarrow> errs \<noteq> [])"
proof (cases batch)
  case Nil
  with assms show ?thesis by (simp add: AppendBatch_def)
next
  case (Cons x xs)
  show ?thesis
  proof (cases "marshal_payloads batch")
    case (Inl e)
    with assms Cons show ?thesis by (auto simp: AppendBatch_def simp del: marshal_payloads.simps)
  next
    case (Inr items)
    with Cons obtain y ys where "items = y # ys"
      by (cases items) (auto split: sum.splits)
    with append_loop_closed [OF assms(1), of env 0 False y ys] assms(2) Cons Inr show ?thesis
      by (simp add: AppendBatch_def)
  qed
qed

definition append_all :: "(OutboxEnv \<times> BatchEvent list) list \<Rightarrow> Outbox \<Rightarrow> Outbox" where
  "append_all = fold (\<lambda>(env, batch) b. fst (AppendBatch env batch b))"

lemma append_all_closed:
  "closed_file b \<Longrightarrow> closed_file (append_all bs b) \<and> ob_events (append_all bs b) = ob_events b"
proof (induction bs arbitrary: b)
  case (Cons x bs)
  obtain env batch where x: "x = (env, batch)" by fastforce
  obtain b' es errs where a: "AppendBatch env batch b = (b', es, errs)" by (metis prod_cases3)
  from AppendBatch_closed [OF Cons.prems a] Cons.IH [of b'] a show ?case by (simp add: append_all_def x)
qed (simp add: append_all_def)

text \<open>
  C40: one failed rotation of an open segment stops the telemetry log for good. When the log has closed
  the segment it was writing and cannot open the next one, it keeps the closed file: from then on every
  append, of whatever batch and however healthy the disk is again, fails and adds nothing, because
  each retry closes or writes the closed file first. With no segment open, as before the first append
  after a start, a failed rotation changes nothing, so that the next append tries again.
\<close>

theorem failed_rotation_stops_log:
  assumes "rotateLocked env i n b = (b1, Some e)" "batch \<noteq> []"
  shows "if ob_current b = None then b1 = b
    else ob_events (append_all bs b1) = ob_events b \<and>
      fst (snd (AppendBatch env' batch (append_all bs b1))) = [] \<and>
      snd (snd (AppendBatch env' batch (append_all bs b1))) \<noteq> []"
proof (cases "ob_current b = None")
  case True
  with assms(1) show ?thesis by (auto simp: rotateLocked_def Let_def split: option.splits)
next
  case False
  then have "closed_file b1 \<and> ob_events b1 = ob_events b"
    using assms(1) by (auto simp: rotateLocked_def closed_file_def Let_def split: option.splits prod.splits if_splits)
  with append_all_closed [of b1 bs] have c: "closed_file (append_all bs b1)" "ob_events (append_all bs b1) = ob_events b"
    by auto
  obtain b' es errs where a: "AppendBatch env' batch (append_all bs b1) = (b', es, errs)" by (metis prod_cases3)
  from AppendBatch_closed [OF c(1) a] c(2) a assms(2) show ?thesis by (simp add: if_not_P [OF False])
qed

text \<open>
  an event that does not fit in a page is never delivered. It can be appended, but every page a
  reader asks for at it is empty, promises more and gives back the same position, whatever the limit
  is: the reader gets neither this event nor any later one.
\<close>

theorem oversized_event_blocks:
  assumes "numbered b" "page_position env c b = Inr p" "filter (\<lambda>e. p < te_Seq e) (log b) = ev # rest"
    and "MaxPageBytes < 512 + page_size ev"
  shows "\<exists>pg. read_page env c limit b = Inr pg \<and> pg_Events pg = [] \<and> pg_HasMore pg \<and>
    pg_NextCursor pg = make_cursor env b p"
proof -
  have "page_take (effective_limit limit) 512 (ev # rest) = []" using assms(4) by simp
  moreover have "p < snd (boundsLocked b)"
  proof -
    have "ev \<in> set (log b)" "p < te_Seq ev" using assms(3) by (metis (lifting) list.set_intros(1) mem_Collect_eq set_filter)+
    then have "ob_events b \<noteq> []" by auto
    have c: "consecutive (ob_nextSeq b - length (ob_events b)) (log b)" using assms(1) by (simp add: numbered_def)
    from \<open>ev \<in> set (log b)\<close> obtain k where "k < length (ob_events b)" "ev = log b ! k" by (auto simp: in_set_conv_nth)
    then have "te_Seq ev < ob_nextSeq b" using consecutive_nth [OF c, of k] assms(1) by (auto simp: numbered_def)
    with \<open>p < te_Seq ev\<close> \<open>ob_events b \<noteq> []\<close> bounds_numbered [OF assms(1)] show ?thesis by simp
  qed
  ultimately show ?thesis using read_page_at [OF assms(1,2), of limit] assms(3) by (simp add: Let_def)
qed

section \<open>Progress\<close>

lemma read_page_progress:
  assumes "numbered b" "page_position env c b = Inr p" "list_all (\<lambda>e. page_size e \<le> MaxPageBytes - 512) (log b)"
    "read_page env c limit b = Inr pg"
  shows "prefix (pg_Events pg) (filter (\<lambda>e. p < te_Seq e) (log b)) \<and>
    (pg_Events pg = [] \<longrightarrow> filter (\<lambda>e. p < te_Seq e) (log b) = [])"
proof -
  let ?es = "filter (\<lambda>e. p < te_Seq e) (log b)"
  have pg: "pg_Events pg = page_take (effective_limit limit) 512 ?es"
    using read_page_at [OF assms(1,2), of limit] assms(4) by (auto simp: Let_def)
  have "page_take (effective_limit limit) 512 ?es \<noteq> []" if "?es \<noteq> []"
  proof (rule page_take_nonempty [OF that effective_limit_pos])
    have "hd ?es \<in> set (log b)" using that by (metis filter_is_subset hd_in_set subsetD)
    with assms(3) show "512 + page_size (hd ?es) \<le> MaxPageBytes" by (fastforce simp: list_all_iff)
  qed
  with pg page_take_prefix show ?thesis by metis
qed

end
