(* ===== verification/Collector.thy ===== *)
theory Collector
  imports Outbox_Theorems
begin

text \<open>
  The gateway's collector of node telemetry (\<open>internal/web/history_collector.go\<close>) and the
  ingestion of pages in the history database (\<open>internal/history/ingest.go\<close>).

  The database is a record: the rows of \<open>ingested_event_ids\<close>, of \<open>node_sync_state\<close> and of \<open>nodes\<close>,
  and the session, job and sample tables as one value \<open>'t\<close> that \<open>applyEvent\<close>, a parameter, maps to
  the next one or refuses. A transaction either commits all of it or none; whether the database lets
  it begin and commit is a parameter, as is what the node answers to each request.
\<close>

section \<open>The history database\<close>

record SyncRow =
  sy_NodeID :: string
  sy_StreamID :: string
  sy_Cursor :: string
  sy_LastSeq :: nat
  sy_LastSync :: int
  sy_Error :: string
  sy_GapAt :: "int option"

record 't History =
  hi_ingested :: "(string \<times> string \<times> nat) list"
  hi_sync :: "string \<Rightarrow> SyncRow option"
  hi_nodes :: "string \<Rightarrow> string option"
  hi_tables :: 't

record DbEnv =
  db_nowMS :: int
  db_readErr :: "string option"
  db_beginErr :: "string option"
  db_commitErr :: "string option"

text \<open>\<open>INSERT OR IGNORE INTO ingested_event_ids\<close> decides whether an event is applied.\<close>

fun ingest_events ::
  "(Event \<Rightarrow> 't \<Rightarrow> string + 't) \<Rightarrow> string \<Rightarrow> string \<Rightarrow> Event list \<Rightarrow> 't \<times> (string \<times> string \<times> nat) list \<Rightarrow>
     string + ('t \<times> (string \<times> string \<times> nat) list)" where
  "ingest_events applyEvent node stream [] (t, seen) = Inr (t, seen)"
| "ingest_events applyEvent node stream (ev # evs) (t, seen) =
     (if (node, stream, te_Seq ev) \<in> set seen then ingest_events applyEvent node stream evs (t, seen)
      else case applyEvent ev t of Inl e \<Rightarrow> Inl e
      | Inr t \<Rightarrow> ingest_events applyEvent node stream evs (t, (node, stream, te_Seq ev) # seen))"

definition idleSyncRefreshInterval :: int where "idleSyncRefreshInterval = 30000"

definition idleSyncStateCurrent :: "string \<Rightarrow> Page \<Rightarrow> int \<Rightarrow> 't History \<Rightarrow> bool" where
  "idleSyncStateCurrent serverID page now h =
     (case hi_sync h serverID of None \<Rightarrow> False
      | Some r \<Rightarrow> sy_NodeID r = pg_NodeID page \<and> sy_StreamID r = pg_StreamID page \<and> sy_Cursor r = pg_NextCursor page \<and>
          sy_Error r = [] \<and> hi_nodes h (pg_NodeID page) = Some serverID \<and>
          sy_LastSync r \<le> now \<and> now - sy_LastSync r < idleSyncRefreshInterval)"

definition upsert_sync :: "Page \<Rightarrow> int \<Rightarrow> SyncRow option \<Rightarrow> SyncRow" where
  "upsert_sync page now old =
     (let lastSeq = (if pg_Events page = [] then 0 else te_Seq (last (pg_Events page))) in
      \<lparr>sy_NodeID = pg_NodeID page, sy_StreamID = pg_StreamID page, sy_Cursor = pg_NextCursor page,
       sy_LastSeq = (case old of None \<Rightarrow> lastSeq | Some r \<Rightarrow> max (sy_LastSeq r) lastSeq),
       sy_LastSync = now, sy_Error = [], sy_GapAt = (case old of None \<Rightarrow> None | Some r \<Rightarrow> sy_GapAt r)\<rparr>)"

definition ApplyPageWithOwners ::
  "DbEnv \<Rightarrow> (Event \<Rightarrow> 't \<Rightarrow> string + 't) \<Rightarrow> string \<Rightarrow> Page \<Rightarrow> 't History \<Rightarrow> 't History \<times> string option" where
  "ApplyPageWithOwners db applyEvent serverID page h =
     (if TrimSpace (pg_NodeID page) = [] \<or> TrimSpace (pg_StreamID page) = []
        then (h, Some ''telemetry page is missing node or stream identity'')
      else if pg_Events page = [] \<and> db_readErr db \<noteq> None then (h, db_readErr db)
      else if pg_Events page = [] \<and> idleSyncStateCurrent serverID page (db_nowMS db) h then (h, None)
      else if db_beginErr db \<noteq> None then (h, db_beginErr db)
      else case ingest_events applyEvent (pg_NodeID page) (pg_StreamID page) (pg_Events page) (hi_tables h, hi_ingested h) of
        Inl e \<Rightarrow> (h, Some e)
      | Inr (t, seen) \<Rightarrow>
          if db_commitErr db \<noteq> None then (h, db_commitErr db)
          else (h\<lparr>hi_tables := t, hi_ingested := seen,
                  hi_nodes := (hi_nodes h)(pg_NodeID page \<mapsto> serverID),
                  hi_sync := (hi_sync h)(serverID \<mapsto> upsert_sync page (db_nowMS db) (hi_sync h serverID))\<rparr>, None))"

definition SyncCursor :: "string \<Rightarrow> 't History \<Rightarrow> string" where
  "SyncCursor serverID h = (case hi_sync h serverID of None \<Rightarrow> [] | Some r \<Rightarrow> sy_Cursor r)"

text \<open>\<open>markPartial\<close> stands for the update of the sessions that may be incomplete since the given instant.\<close>

definition MarkGap ::
  "DbEnv \<Rightarrow> (int \<Rightarrow> int \<Rightarrow> 't \<Rightarrow> 't) \<Rightarrow> string \<Rightarrow> string \<Rightarrow> 't History \<Rightarrow> 't History \<times> string option" where
  "MarkGap db markPartial serverID reason h =
     (if db_beginErr db \<noteq> None then (h, db_beginErr db)
      else if db_commitErr db \<noteq> None then (h, db_commitErr db)
      else let cutoff = (case hi_sync h serverID of None \<Rightarrow> 0 | Some r \<Rightarrow> sy_LastSync r) in
        (h\<lparr>hi_sync := (\<lambda>s. if s = serverID
              then map_option (\<lambda>r. r\<lparr>sy_GapAt := Some (db_nowMS db), sy_Error := reason\<rparr>) (hi_sync h s) else hi_sync h s),
           hi_tables := markPartial (db_nowMS db) cutoff (hi_tables h)\<rparr>, None))"

section \<open>The identity of a node\<close>

record Info =
  in_NodeID :: string
  in_TelemetrySchema :: int
  in_Capabilities :: "string list"

record nodeInfoEntry =
  ne_endpoint :: string
  ne_info :: Info
  ne_at :: time

abbreviation (input) nodeInfoCacheTTL :: duration where "nodeInfoCacheTTL \<equiv> 30 * second"

definition telemetryCapability :: "Info \<Rightarrow> string \<Rightarrow> bool" where
  "telemetryCapability info capability = list_ex (\<lambda>c. c = capability) (in_Capabilities info)"

definition cachedNodeInfo ::
  "time \<Rightarrow> string + Info \<Rightarrow> string \<Rightarrow> string \<Rightarrow> (string \<Rightarrow> nodeInfoEntry option) \<Rightarrow>
     (string \<Rightarrow> nodeInfoEntry option) \<times> (string + Info \<times> bool)" where
  "cachedNodeInfo now fetched ident endpoint cache =
     (case (case cache ident of None \<Rightarrow> None
            | Some e \<Rightarrow> if ne_endpoint e = endpoint \<and> time_Sub now (ne_at e) < nodeInfoCacheTTL then Some (ne_info e) else None) of
        Some info \<Rightarrow> (cache, Inr (info, True))
      | None \<Rightarrow> (case fetched of Inl e \<Rightarrow> (cache, Inl e)
         | Inr info \<Rightarrow> (cache(ident \<mapsto> \<lparr>ne_endpoint = endpoint, ne_info = info, ne_at = now\<rparr>), Inr (info, False))))"

definition forgetNodeInfo :: "string \<Rightarrow> (string \<Rightarrow> nodeInfoEntry option) \<Rightarrow> string \<Rightarrow> nodeInfoEntry option" where
  "forgetNodeInfo ident cache = cache(ident := None)"

section \<open>Collecting\<close>

datatype tele_error = TeGap CursorGap | TeError string

record 't CollectEnv =
  cl_now :: "nat \<Rightarrow> time"
  cl_fetch :: "nat \<Rightarrow> string + Info"
  cl_ask :: "nat \<Rightarrow> string \<Rightarrow> tele_error + Page"
  cl_db :: "nat \<Rightarrow> DbEnv"
  cl_cursorErr :: "string option"
  cl_applyEvent :: "Event \<Rightarrow> 't \<Rightarrow> string + 't"
  cl_markPartial :: "int \<Rightarrow> int \<Rightarrow> 't \<Rightarrow> 't"

record 't Collecting =
  ct_history :: "'t History"
  ct_cache :: "string \<Rightarrow> nodeInfoEntry option"
  ct_events :: nat

text \<open>The check that the page comes from the node the gateway knows; a cached identity is confirmed first.\<close>

definition confirm_identity ::
  "'t CollectEnv \<Rightarrow> nat \<Rightarrow> string \<Rightarrow> string \<Rightarrow> Page \<Rightarrow> Info \<Rightarrow> bool \<Rightarrow> (string \<Rightarrow> nodeInfoEntry option) \<Rightarrow>
     (string \<Rightarrow> nodeInfoEntry option) \<times> (string + Info \<times> bool)" where
  "confirm_identity env i ident endpoint page info infoCached cache =
     (if pg_NodeID page \<noteq> in_NodeID info \<and> pg_StreamID page \<noteq> [] \<and> infoCached
      then cachedNodeInfo (cl_now env i) (cl_fetch env i) ident endpoint (forgetNodeInfo ident cache)
      else (cache, Inr (info, infoCached)))"

fun collect_pages ::
  "'t CollectEnv \<Rightarrow> string \<Rightarrow> string \<Rightarrow> nat \<Rightarrow> nat \<Rightarrow> Info \<Rightarrow> bool \<Rightarrow> string \<Rightarrow> 't Collecting \<Rightarrow> 't Collecting \<times> string option" where
  "collect_pages env ident endpoint 0 i info infoCached cursor c = (c, None)"
| "collect_pages env ident endpoint (Suc k) i info infoCached cursor c =
     (case cl_ask env i cursor of
        Inl (TeError e) \<Rightarrow> (c, Some e)
      | Inl (TeGap gap) \<Rightarrow>
          (case MarkGap (cl_db env i) (cl_markPartial env) ident (cg_Reason gap) (ct_history c) of
             (h, Some e) \<Rightarrow> (c\<lparr>ct_history := h\<rparr>, Some e)
           | (h, None) \<Rightarrow> collect_pages env ident endpoint k (Suc i) info infoCached (cg_ResumeCursor gap) (c\<lparr>ct_history := h\<rparr>))
      | Inr page \<Rightarrow>
          (case confirm_identity env i ident endpoint page info infoCached (ct_cache c) of
             (cache, Inl e) \<Rightarrow> (c\<lparr>ct_cache := cache\<rparr>, Some (''node info: '' @ e))
           | (cache, Inr (info, infoCached)) \<Rightarrow>
               if pg_NodeID page \<noteq> in_NodeID info \<or> pg_StreamID page = []
               then (c\<lparr>ct_cache := cache, ct_history := fst (MarkGap (cl_db env i) (cl_markPartial env) ident
                       ''node identity changed'' (ct_history c))\<rparr>, Some ''telemetry node identity changed'')
               else (case ApplyPageWithOwners (cl_db env i) (cl_applyEvent env) ident page (ct_history c) of
                  (h, Some e) \<Rightarrow> (c\<lparr>ct_cache := cache, ct_history := h\<rparr>, Some e)
                | (h, None) \<Rightarrow>
                    (let c = c\<lparr>ct_cache := cache, ct_history := h, ct_events := ct_events c + length (pg_Events page)\<rparr> in
                     if \<not> pg_HasMore page then (c, None)
                     else collect_pages env ident endpoint k (Suc i) info infoCached (pg_NextCursor page) c))))"

definition collectNodeHistory ::
  "'t CollectEnv \<Rightarrow> string \<Rightarrow> string \<Rightarrow> 't Collecting \<Rightarrow> 't Collecting \<times> string option" where
  "collectNodeHistory env ident endpoint c =
     (case cachedNodeInfo (cl_now env 0) (cl_fetch env 0) ident endpoint (ct_cache c) of
        (cache, Inl e) \<Rightarrow> (c\<lparr>ct_cache := cache\<rparr>, Some (''node info: '' @ e))
      | (cache, Inr (info, infoCached)) \<Rightarrow>
          (let c = c\<lparr>ct_cache := cache, ct_events := 0\<rparr> in
           if in_NodeID info = [] then (c, Some ''node info is missing node_id'')
           else if in_TelemetrySchema info < 1 \<or> \<not> telemetryCapability info ''telemetry_v1''
             then (c, Some ''node does not support telemetry history'')
           else if \<not> telemetryCapability info ''telemetry_wait_v1'' then (c, Some ''node daemon must be upgraded'')
           else if cl_cursorErr env \<noteq> None then (c, cl_cursorErr env)
           else collect_pages env ident endpoint 32 1 info infoCached (SyncCursor ident (ct_history c)) c))"

definition pageChangesFleet :: "Page \<Rightarrow> bool" where
  "pageChangesFleet page = list_ex (\<lambda>e. te_Type e \<noteq> ''gpu.sample'') (pg_Events page)"

section \<open>Retries\<close>

record historySyncState =
  hs_failures :: nat
  hs_nextTry :: time

abbreviation (input) historyPollInterval :: duration where "historyPollInterval \<equiv> 2 * second"

text \<open>Failures double the delay up to a minute; the jitter depends on the node and the failures only.\<close>

definition retry_delay :: "string \<Rightarrow> nat \<Rightarrow> duration" where
  "retry_delay ident failures =
     (let delay = historyPollInterval * 2 ^ min (failures - 1) 5;
          delay = (if delay > 60 * second then 60 * second else delay);
          jitter = (int ((length ident * 37 + failures * 53) mod 501) - 250) * 1000000 in
      delay + jitter)"

definition recordHistoryAttempt ::
  "string \<Rightarrow> string option \<Rightarrow> time \<Rightarrow> (string \<Rightarrow> historySyncState) \<Rightarrow> string \<Rightarrow> historySyncState" where
  "recordHistoryAttempt ident err now m =
     (case err of None \<Rightarrow> m(ident := \<lparr>hs_failures = 0, hs_nextTry = 0\<rparr>)
      | Some _ \<Rightarrow> let failures = Suc (hs_failures (m ident)) in
          m(ident := \<lparr>hs_failures = failures, hs_nextTry = now + retry_delay ident failures\<rparr>))"

definition historyNodeReady :: "string \<Rightarrow> time \<Rightarrow> (string \<Rightarrow> historySyncState) \<Rightarrow> bool" where
  "historyNodeReady ident now m \<longleftrightarrow> \<not> now < hs_nextTry (m ident)"

definition historyRetryDelay :: "string \<Rightarrow> time \<Rightarrow> (string \<Rightarrow> historySyncState) \<Rightarrow> duration" where
  "historyRetryDelay ident now m = time_Sub (hs_nextTry (m ident)) now"

text \<open>One attempt of the worker of a node: a failure forgets the cached identity and sets the next try.\<close>

definition history_attempt ::
  "'t CollectEnv \<Rightarrow> string \<Rightarrow> string \<Rightarrow> time \<Rightarrow> 't Collecting \<times> (string \<Rightarrow> historySyncState) \<Rightarrow>
     't Collecting \<times> (string \<Rightarrow> historySyncState)" where
  "history_attempt env ident endpoint now = (\<lambda>(c, m). case collectNodeHistory env ident endpoint c of
     (c, err) \<Rightarrow> (if err = None then c else c\<lparr>ct_cache := forgetNodeInfo ident (ct_cache c)\<rparr>,
        recordHistoryAttempt ident err now m))"

end
