(* ===== verification/Collector_Theorems.thy ===== *)
theory Collector_Theorems
  imports Collector
begin

text \<open>
  End to end: the events of a node reach the tables of the gateway exactly once and in order, or
  the loss is marked; and the retries of the collector stay within their bounds.
\<close>

section \<open>Applying a page\<close>

text \<open>The reference: every event applied once, in order.\<close>

fun apply_all :: "(Event \<Rightarrow> 't \<Rightarrow> string + 't) \<Rightarrow> Event list \<Rightarrow> 't \<Rightarrow> string + 't" where
  "apply_all ap [] t = Inr t"
| "apply_all ap (ev # evs) t = (case ap ev t of Inl e \<Rightarrow> Inl e | Inr t \<Rightarrow> apply_all ap evs t)"

lemma apply_all_append:
  "apply_all ap (xs @ ys) t = (case apply_all ap xs t of Inl e \<Rightarrow> Inl e | Inr t \<Rightarrow> apply_all ap ys t)"
  by (induction xs arbitrary: t) (auto split: sum.splits)

lemma ingest_fresh:
  assumes "\<forall>ev \<in> set evs. (node, stream, te_Seq ev) \<notin> set seen" "distinct (map te_Seq evs)"
  shows "ingest_events ap node stream evs (t, seen) = (case apply_all ap evs t of Inl e \<Rightarrow> Inl e
    | Inr t \<Rightarrow> Inr (t, rev (map (\<lambda>ev. (node, stream, te_Seq ev)) evs) @ seen))"
  using assms
proof (induction evs arbitrary: t seen)
  case (Cons ev evs)
  then have fresh: "\<forall>x \<in> set evs. (node, stream, te_Seq x) \<notin> set ((node, stream, te_Seq ev) # seen)"
    by (auto simp: image_iff)
  with Cons show ?case by (auto split: sum.splits)
qed simp

section \<open>The cursor of a reader\<close>

definition cursor_codec :: "(Cursor \<Rightarrow> string) \<Rightarrow> (string \<Rightarrow> Cursor option) \<Rightarrow> string \<Rightarrow> bool" where
  "cursor_codec enc dec stream \<longleftrightarrow> stream \<noteq> [] \<and> (\<forall>q < 2 ^ 64. let c = \<lparr>cu_Version = SchemaVersion, cu_StreamID = stream, cu_Seq = q\<rparr> in
     dec (enc c) = Some c \<and> enc c \<noteq> [] \<and> length (enc c) \<le> 512)"

text \<open>What a node with log \<open>b\<close> answers to a cursor, or that the request fails on the way.\<close>

definition answers :: "(Cursor \<Rightarrow> string) \<Rightarrow> (string \<Rightarrow> Cursor option) \<Rightarrow> Outbox \<Rightarrow> string \<Rightarrow> tele_error + Page \<Rightarrow> bool" where
  "answers enc dec b c r \<longleftrightarrow> (\<exists>e. r = Inl (TeError e)) \<or>
     (\<exists>env limit. ox_encodeCursor env = enc \<and> ox_decodeCursor env = dec \<and>
        r = (case read_page env c limit b of Inl ErrInvalidCursor \<Rightarrow> Inl (TeError ''invalid telemetry cursor'')
             | Inl (PageGap g) \<Rightarrow> Inl (TeGap g) | Inr pg \<Rightarrow> Inr pg))"

text \<open>
  The log goes on while pages are fetched: \<open>bs i\<close> is the log at the \<open>i\<close>-th request and \<open>Hs i\<close> all
  the events it ever held from the start of the observation.
\<close>

definition grows :: "(nat \<Rightarrow> Outbox) \<Rightarrow> (nat \<Rightarrow> Event list) \<Rightarrow> bool" where
  "grows bs Hs \<longleftrightarrow> (\<forall>i. (bs (Suc i) = bs i \<and> Hs (Suc i) = Hs i) \<or>
     (\<exists>env batch es errs. AppendBatch env batch (bs i) = (bs (Suc i), es, errs) \<and> Hs (Suc i) = Hs i @ es))"

definition gap_marked :: "string \<Rightarrow> 't History \<Rightarrow> bool" where
  "gap_marked ident h \<longleftrightarrow> (\<exists>r. hi_sync h ident = Some r \<and> sy_GapAt r \<noteq> None)"

text \<open>
  \<open>holding\<close>: the tables hold the events after \<open>p0\<close> up to some \<open>p\<close>, each applied once and in order, nothing
  later has been ingested, and the log has nothing left from before. \<open>in_step\<close>: besides, the stored
  cursor stands at \<open>p\<close>.
\<close>

abbreviation cursor_at :: "(Cursor \<Rightarrow> string) \<Rightarrow> Outbox \<Rightarrow> nat \<Rightarrow> string" where
  "cursor_at enc b p \<equiv> enc \<lparr>cu_Version = SchemaVersion, cu_StreamID = ob_streamID b, cu_Seq = p\<rparr>"

definition holding ::
  "(Event \<Rightarrow> 't \<Rightarrow> string + 't) \<Rightarrow> nat \<Rightarrow> 't \<Rightarrow> Outbox \<Rightarrow> Event list \<Rightarrow> nat \<Rightarrow> 't History \<Rightarrow> bool" where
  "holding ap p0 t0 b H p h \<longleftrightarrow> node_log.tracked b H p0 p \<and>
     apply_all ap (filter (\<lambda>e. p0 < te_Seq e \<and> te_Seq e \<le> p) H) t0 = Inr (hi_tables h) \<and>
     (\<forall>q. (ob_nodeID b, ob_streamID b, q) \<in> set (hi_ingested h) \<longrightarrow> q \<le> p) \<and> (\<forall>e \<in> set (log b). p0 < te_Seq e)"

definition in_step ::
  "(Event \<Rightarrow> 't \<Rightarrow> string + 't) \<Rightarrow> (Cursor \<Rightarrow> string) \<Rightarrow> string \<Rightarrow> nat \<Rightarrow> 't \<Rightarrow> Outbox \<Rightarrow> Event list \<Rightarrow> nat \<Rightarrow> 't History \<Rightarrow> bool" where
  "in_step ap enc ident p0 t0 b H p h \<longleftrightarrow> holding ap p0 t0 b H p h \<and>
     (\<exists>r. hi_sync h ident = Some r \<and> sy_Cursor r = cursor_at enc b p)"

text \<open>
  \<open>untouched\<close>: the gateway has no cursor of the node and has applied none of its events. A page of another
  node in its place marks sessions as partial at most; \<open>marked\<close> is what such marks make of the tables.
\<close>

definition marked :: "(int \<Rightarrow> int \<Rightarrow> 't \<Rightarrow> 't) \<Rightarrow> 't \<Rightarrow> 't \<Rightarrow> bool" where
  "marked mp t0 t1 \<longleftrightarrow> (\<exists>instants. t1 = fold (\<lambda>now. mp now 0) instants t0)"

definition untouched ::
  "(int \<Rightarrow> int \<Rightarrow> 't \<Rightarrow> 't) \<Rightarrow> string \<Rightarrow> 't \<Rightarrow> Outbox \<Rightarrow> Event list \<Rightarrow> 't History \<Rightarrow> bool" where
  "untouched mp ident t0 b H h \<longleftrightarrow> node_log.tracked b H 0 0 \<and> hi_sync h ident = None \<and> marked mp t0 (hi_tables h) \<and>
     (\<forall>q. (ob_nodeID b, ob_streamID b, q) \<notin> set (hi_ingested h))"

lemma marked_refl [simp]: "marked mp t0 t0"
  unfolding marked_def by (rule exI [of _ "[]"]) simp

lemma marked_again: "marked mp t0 t1 \<Longrightarrow> marked mp t0 (mp now 0 t1)"
  unfolding marked_def by (elim exE, rule_tac x = "instants @ [now]" in exI) simp

lemma AppendBatch_identity:
  assumes "AppendBatch env batch b = (b', es, errs)"
  shows "ob_nodeID b' = ob_nodeID b \<and> ob_streamID b' = ob_streamID b"
proof -
  have prune: "ob_nodeID (prune_loop env cutoff b) = ob_nodeID b \<and> ob_streamID (prune_loop env cutoff b) = ob_streamID b" for env cutoff b
    by (induction env cutoff b rule: prune_loop.induct)
      (subst (1 2) prune_loop.simps, auto simp: drop_first_segment_def split: list.splits)
  have rotated: "ob_nodeID b' = ob_nodeID b \<and> ob_streamID b' = ob_streamID b" if "rotateLocked env i n b = (b', e)" for i n b b' e
    using that by (auto simp: rotateLocked_def Let_def put_file_def split: option.splits prod.splits if_splits)
  have wrote: "ob_nodeID b' = ob_nodeID b \<and> ob_streamID b' = ob_streamID b" if "write_line env i ev l b = (b', e)" for i ev l b b' e
    using that by (auto simp: write_line_def Let_def put_file_def append_bytes_def record_event_def
        split: option.splits prod.splits if_splits)
  have loop: "append_loop env i u items b = (b', es, errs) \<Longrightarrow> ob_nodeID b' = ob_nodeID b \<and> ob_streamID b' = ob_streamID b"
    for i u items b b' es errs
  proof (induction items arbitrary: i u b b' es errs)
    case Nil
    then show ?case using prune by (auto simp: pruneLocked_def split: option.splits)
  next
    case (Cons x items)
    then show ?case
      by (cases x) (auto simp: Let_def split: sum.splits option.splits prod.splits if_splits dest!: rotated wrote)
  qed
  show ?thesis using assms loop by (auto simp: AppendBatch_def split: if_splits sum.splits)
qed

lemma position_of_cursor:
  assumes "cursor_codec enc dec (ob_streamID b)" "ox_decodeCursor env = dec" "p < 2 ^ 64"
    "page_position env (enc \<lparr>cu_Version = SchemaVersion, cu_StreamID = ob_streamID b, cu_Seq = p\<rparr>) b = Inr q"
  shows "q = p"
  using assms by (auto simp: page_position_def decodeCursor_def cursor_codec_def Let_def split: if_splits option.splits prod.splits)

text \<open>Without a cursor a reader begins with the first event that the log still holds.\<close>

lemma first_position:
  assumes "numbered b" "page_position env [] b = Inr p"
  shows "p < ob_nextSeq b \<and> (\<forall>e \<in> set (log b). p < te_Seq e)"
proof -
  let ?n = "ob_nextSeq b - length (ob_events b)"
  have n: "length (ob_events b) < ob_nextSeq b" "consecutive ?n (log b)" using assms(1) by (simp_all add: numbered_def)
  from assms(2) bounds_numbered [OF assms(1)] have p: "p = (if ob_events b = [] then 0 else ?n - 1)"
    by (auto simp: page_position_def Let_def split: if_splits)
  have "?n \<le> te_Seq e" if "e \<in> set (log b)" for e
    using consecutive_nth [OF n(2)] that by (metis in_set_conv_nth le_add1)
  with n(1) p show ?thesis by (fastforce split: if_splits)
qed

lemma no_gap_without_cursor: "\<not> answers enc dec b [] (Inl (TeGap g))"
  by (auto simp: answers_def read_page_def page_position_def Let_def split: prod.splits)

lemma read_page_next:
  assumes "node_log.tracked b H p0 p" "ox_encodeCursor env = enc" "page_position env c b = Inr p"
    "read_page env c limit b = Inr pg"
  shows "pg_NodeID pg = ob_nodeID b \<and> pg_StreamID pg = ob_streamID b \<and> node_log.tracked b H p0 (p + length (pg_Events pg)) \<and>
    pg_NextCursor pg = cursor_at enc b (p + length (pg_Events pg)) \<and>
    filter (\<lambda>e. p0 < te_Seq e \<and> te_Seq e \<le> p + length (pg_Events pg)) H =
      filter (\<lambda>e. p0 < te_Seq e \<and> te_Seq e \<le> p) H @ pg_Events pg"
proof -
  have nb: "numbered b" using assms(1) by (simp add: node_log.tracked_def)
  have "\<exists>env c limit pg'. page_position env c b = Inr p \<and> read_page env c limit b = Inr pg' \<and> pg_Events pg = pg_Events pg'"
    using assms(3,4) by blast
  note t = node_log.tracked_read [OF assms(1) this]
  show ?thesis using t read_page_at [OF nb assms(3), of limit] assms(2,4)
    by (cases "pg_Events pg = []") (auto simp: Let_def make_cursor_def)
qed

lemma page_numbers:
  assumes "node_log.tracked b H p0 p" "node_log.tracked b H p0 (p + length es)"
    "filter (\<lambda>e. p0 < te_Seq e \<and> te_Seq e \<le> p + length es) H = filter (\<lambda>e. p0 < te_Seq e \<and> te_Seq e \<le> p) H @ es"
  shows "map te_Seq es = [Suc p ..< Suc (p + length es)]"
proof -
  have "p0 \<le> p" using assms(1) by (simp add: node_log.tracked_def)
  then have "[Suc p0 ..< Suc (p + length es)] = [Suc p0 ..< Suc p] @ [Suc p ..< Suc (p + length es)]"
    using upt_add_eq_append [of "Suc p0" "Suc p" "length es"] by simp
  with node_log.tracked_numbers [OF assms(1)] node_log.tracked_numbers [OF assms(2)] assms(3) show ?thesis
    by (simp del: upt_Suc)
qed

lemma ApplyPage_failed: "ApplyPageWithOwners db ap ident pg h = (h', Some e) \<Longrightarrow> h' = h"
  by (auto simp: ApplyPageWithOwners_def split: if_splits sum.splits)

lemma ApplyPage_in_step:
  assumes "holding ap p0 t0 b H p h" "ox_encodeCursor env = enc" "page_position env c b = Inr p"
    "read_page env c limit b = Inr pg" "ApplyPageWithOwners db ap ident pg h = (h', None)"
  shows "in_step ap enc ident p0 t0 b H (p + length (pg_Events pg)) h'"
proof -
  have t: "node_log.tracked b H p0 p" using assms(1) by (simp add: holding_def)
  note r = read_page_next [OF t assms(2-4)]
  let ?es = "pg_Events pg"
  have nums: "map te_Seq ?es = [Suc p ..< Suc (p + length ?es)]" using page_numbers t r by blast
  then have after: "\<forall>ev \<in> set ?es. p < te_Seq ev" by (metis Suc_le_lessD atLeastLessThan_iff image_eqI list.set_map set_upt)
  show ?thesis
  proof (cases "?es = [] \<and> idleSyncStateCurrent ident pg (db_nowMS db) h")
    case True
    with assms(5) have "h' = h" by (auto simp: ApplyPageWithOwners_def split: if_splits sum.splits)
    with True assms(1) r show ?thesis
      by (auto simp: in_step_def idleSyncStateCurrent_def split: option.splits)
  next
    case False
    then obtain t' seen where ing: "ingest_events ap (pg_NodeID pg) (pg_StreamID pg) ?es (hi_tables h, hi_ingested h) = Inr (t', seen)"
      and h': "h' = h\<lparr>hi_tables := t', hi_ingested := seen, hi_nodes := (hi_nodes h)(pg_NodeID pg \<mapsto> ident),
        hi_sync := (hi_sync h)(ident \<mapsto> upsert_sync pg (db_nowMS db) (hi_sync h ident))\<rparr>"
      using assms(5) by (auto simp: ApplyPageWithOwners_def split: if_splits sum.splits)
    have "distinct (map te_Seq ?es)" unfolding nums by (rule distinct_upt)
    moreover have "\<forall>ev \<in> set ?es. (pg_NodeID pg, pg_StreamID pg, te_Seq ev) \<notin> set (hi_ingested h)"
      using assms(1) after r by (fastforce simp: holding_def)
    ultimately have "apply_all ap ?es (hi_tables h) = Inr t'"
      and seen: "seen = rev (map (\<lambda>ev. (pg_NodeID pg, pg_StreamID pg, te_Seq ev)) ?es) @ hi_ingested h"
      using ing ingest_fresh [of ?es "pg_NodeID pg" "pg_StreamID pg" "hi_ingested h" ap "hi_tables h"]
      by (auto split: sum.splits)
    then have "apply_all ap (filter (\<lambda>e. p0 < te_Seq e \<and> te_Seq e \<le> p + length ?es) H) t0 = Inr t'"
      using r assms(1) by (simp add: holding_def apply_all_append)
    moreover have "\<forall>ev \<in> set ?es. te_Seq ev \<le> p + length ?es"
      using nums by (metis atLeastLessThan_iff image_eqI less_Suc_eq_le list.set_map set_upt)
    ultimately show ?thesis using r seen h' assms(1) by (fastforce simp: in_step_def holding_def upsert_sync_def Let_def)
  qed
qed

section \<open>Growth and gaps\<close>

lemma in_step_append:
  assumes "in_step ap enc ident p0 t0 b H p h" "AppendBatch env batch b = (b', es, errs)"
  shows "in_step ap enc ident p0 t0 b' (H @ es) p h"
proof -
  have t: "node_log.tracked b H p0 p" using assms(1) by (simp add: in_step_def holding_def)
  have x: "extends b b' es" using AppendBatch_extends assms(2) t by (auto simp: node_log.tracked_def)
  then have new: "\<forall>e \<in> set es. ob_nextSeq b \<le> te_Seq e"
    by (auto simp: extends_def consecutive_def) (metis atLeastLessThan_iff image_eqI list.set_map set_upt)
  then have "filter (\<lambda>e. p0 < te_Seq e \<and> te_Seq e \<le> p) es = []"
    using t by (fastforce simp: node_log.tracked_def filter_empty_conv)
  moreover have "\<forall>e \<in> set es. p0 < te_Seq e" using new t by (fastforce simp: node_log.tracked_def)
  moreover have "set (log b') \<subseteq> set (log b) \<union> set es" using x set_mono_suffix [of "log b'"] by (fastforce simp: extends_def)
  moreover have "node_log.tracked b' (H @ es) p0 p" using node_log.tracked_append [OF t] assms(2) by blast
  ultimately show ?thesis using assms(1) AppendBatch_identity [OF assms(2)]
    by (auto simp: in_step_def holding_def simp del: set_map)
qed

lemma untouched_append:
  assumes "untouched mp ident t0 b H h" "AppendBatch env batch b = (b', es, errs)"
  shows "untouched mp ident t0 b' (H @ es) h"
  using assms node_log.tracked_append [of b H 0 0 b' es] AppendBatch_identity [OF assms(2)]
  by (auto simp: untouched_def)

lemma grows_keeps:
  assumes "grows bs Hs" "P (bs i) (Hs i)"
    and "\<And>b H env batch b' es errs. P b H \<Longrightarrow> AppendBatch env batch b = (b', es, errs) \<Longrightarrow> P b' (H @ es)"
  shows "P (bs (i + k)) (Hs (i + k))"
proof (induction k)
  case (Suc k)
  from assms(1) have "(bs (Suc (i + k)) = bs (i + k) \<and> Hs (Suc (i + k)) = Hs (i + k)) \<or>
     (\<exists>env batch es errs. AppendBatch env batch (bs (i + k)) = (bs (Suc (i + k)), es, errs) \<and> Hs (Suc (i + k)) = Hs (i + k) @ es)"
    by (simp add: grows_def)
  with Suc assms(3) show ?case by fastforce
qed (simp add: assms(2))

lemma grows_identity:
  assumes "grows bs Hs"
  shows "ob_streamID (bs i) = ob_streamID (bs 0)"
proof (induction i)
  case (Suc i)
  from assms have "bs (Suc i) = bs i \<or> (\<exists>env batch es errs. AppendBatch env batch (bs i) = (bs (Suc i), es, errs))"
    by (auto simp: grows_def)
  with Suc AppendBatch_identity show ?case by metis
qed simp

lemma gap_marked_ApplyPage: "gap_marked ident h \<Longrightarrow> gap_marked ident (fst (ApplyPageWithOwners db ap ident pg h))"
  by (auto simp: gap_marked_def ApplyPageWithOwners_def upsert_sync_def Let_def split: sum.splits)

lemma MarkGap_marks:
  assumes "MarkGap db mp ident reason h = (h', err)"
  shows "(err \<noteq> None \<longrightarrow> h' = h) \<and> (hi_sync h ident \<noteq> None \<longrightarrow> err = None \<longrightarrow> gap_marked ident h') \<and>
    (gap_marked ident h \<longrightarrow> gap_marked ident h')"
  using assms by (auto simp: MarkGap_def gap_marked_def Let_def split: if_splits)

lemma MarkGap_untouched:
  assumes "untouched mp ident t0 b H h" "MarkGap db mp ident reason h = (h', err)"
  shows "untouched mp ident t0 b H h'"
  using assms by (auto simp: untouched_def MarkGap_def Let_def intro: marked_again split: if_splits)

section \<open>Exactly once\<close>

text \<open>\<open>on_track\<close>: the loss of events is marked, or nothing was collected yet, or the tables are in step with the log.\<close>

definition on_track ::
  "(Event \<Rightarrow> 't \<Rightarrow> string + 't) \<Rightarrow> (int \<Rightarrow> int \<Rightarrow> 't \<Rightarrow> 't) \<Rightarrow> (Cursor \<Rightarrow> string) \<Rightarrow> string \<Rightarrow> 't \<Rightarrow> 't History \<Rightarrow>
     Outbox \<Rightarrow> Event list \<Rightarrow> bool" where
  "on_track ap mp enc ident t0 h b H \<longleftrightarrow> gap_marked ident h \<or> untouched mp ident t0 b H h \<or>
     (\<exists>p0 t1 p. marked mp t0 t1 \<and> in_step ap enc ident p0 t1 b H p h)"

lemma on_track_append:
  assumes "on_track ap mp enc ident t0 h b H" "AppendBatch env batch b = (b', es, errs)"
  shows "on_track ap mp enc ident t0 h b' (H @ es)"
  using assms(1) in_step_append [OF _ assms(2), of ap enc ident _ _ H _ h] untouched_append [OF _ assms(2), of mp ident t0 H h]
  unfolding on_track_def by blast

lemma on_track_grows:
  "grows bs Hs \<Longrightarrow> on_track ap mp enc ident t0 h (bs i) (Hs i) \<Longrightarrow> on_track ap mp enc ident t0 h (bs (i + k)) (Hs (i + k))"
  by (rule grows_keeps [where P = "on_track ap mp enc ident t0 h"]) (auto intro: on_track_append)

definition at_cursor ::
  "(Event \<Rightarrow> 't \<Rightarrow> string + 't) \<Rightarrow> (int \<Rightarrow> int \<Rightarrow> 't \<Rightarrow> 't) \<Rightarrow> (Cursor \<Rightarrow> string) \<Rightarrow> string \<Rightarrow> 't \<Rightarrow> string \<Rightarrow> 't History \<Rightarrow>
     Outbox \<Rightarrow> Event list \<Rightarrow> bool" where
  "at_cursor ap mp enc ident t0 cursor h b H \<longleftrightarrow> gap_marked ident h \<or> (untouched mp ident t0 b H h \<and> cursor = []) \<or>
     (\<exists>p0 t1 p. marked mp t0 t1 \<and> in_step ap enc ident p0 t1 b H p h \<and> cursor = cursor_at enc b p)"

lemma at_cursor_on_track: "at_cursor ap mp enc ident t0 cursor h b H \<Longrightarrow> on_track ap mp enc ident t0 h b H"
  by (auto simp: at_cursor_def on_track_def)

lemma on_track_cursor: "on_track ap mp enc ident t0 h b H \<Longrightarrow> at_cursor ap mp enc ident t0 (SyncCursor ident h) h b H"
  unfolding on_track_def
proof (elim disjE exE conjE)
  fix p0 t1 p assume p: "marked mp t0 t1" "in_step ap enc ident p0 t1 b H p h"
  then have "SyncCursor ident h = cursor_at enc b p" by (auto simp: in_step_def SyncCursor_def)
  with p show ?thesis unfolding at_cursor_def by blast
qed (auto simp: at_cursor_def untouched_def SyncCursor_def)

lemma at_cursor_append:
  assumes "at_cursor ap mp enc ident t0 cursor h b H" "AppendBatch env batch b = (b', es, errs)"
  shows "at_cursor ap mp enc ident t0 cursor h b' (H @ es)"
proof -
  have s: "ob_streamID b' = ob_streamID b" using AppendBatch_identity [OF assms(2)] by simp
  from assms(1) show ?thesis
    using in_step_append [OF _ assms(2), of ap enc ident _ _ H _ h] untouched_append [OF _ assms(2), of mp ident t0 H h]
    unfolding at_cursor_def s by blast
qed

lemma at_cursor_grows:
  "grows bs Hs \<Longrightarrow> at_cursor ap mp enc ident t0 cursor h (bs i) (Hs i) \<Longrightarrow>
     at_cursor ap mp enc ident t0 cursor h (bs (Suc i)) (Hs (Suc i))"
  using grows_keeps [where P = "at_cursor ap mp enc ident t0 cursor h" and k = 1, of bs Hs i] at_cursor_append by fastforce

text \<open>Where the node reads from: the stored position, or the first event it still holds.\<close>

lemma at_cursor_position:
  assumes "at_cursor ap mp enc ident t0 cursor h b H" "\<not> gap_marked ident h" "page_position env cursor b = Inr p"
    "cursor_codec enc dec (ob_streamID b)" "ob_nextSeq b \<le> 2 ^ 64" "ox_decodeCursor env = dec"
  shows "\<exists>p0 t1. marked mp t0 t1 \<and> holding ap p0 t1 b H p h"
proof -
  from assms(1,2) consider "untouched mp ident t0 b H h" "cursor = []"
    | p0 t1 q where "marked mp t0 t1" "in_step ap enc ident p0 t1 b H q h" "cursor = cursor_at enc b q"
    unfolding at_cursor_def by blast
  then show ?thesis
  proof cases
    case 1
    then have t: "node_log.tracked b H 0 0" by (simp add: untouched_def)
    then have n: "numbered b" by (simp add: node_log.tracked_def)
    from first_position [OF n assms(3) [unfolded 1(2)]] have p: "p < ob_nextSeq b" "\<forall>e \<in> set (log b). p < te_Seq e" by simp_all
    have "node_log.tracked b H p p" using t p(1) by (simp add: node_log.tracked_def)
    moreover have "filter (\<lambda>e. p < te_Seq e \<and> te_Seq e \<le> p) H = []" by (simp add: filter_empty_conv)
    ultimately have "holding ap p (hi_tables h) b H p h" using 1(1) p(2) by (simp add: holding_def untouched_def)
    with 1(1) show ?thesis by (auto simp: untouched_def)
  next
    case 2
    then have "q < 2 ^ 64" using assms(5) by (auto simp: in_step_def holding_def node_log.tracked_def)
    with position_of_cursor [OF assms(4,6) _ assms(3) [unfolded 2(3)]] 2 show ?thesis by (auto simp: in_step_def)
  qed
qed

lemma at_cursor_page:
  assumes "at_cursor ap mp enc ident t0 cursor h b H" "answers enc dec b cursor (Inr pg)"
    "cursor_codec enc dec (ob_streamID b)" "ob_nextSeq b \<le> 2 ^ 64" "ApplyPageWithOwners db ap ident pg h = (h', None)"
  shows "at_cursor ap mp enc ident t0 (pg_NextCursor pg) h' b H"
proof (cases "gap_marked ident h")
  case True
  with gap_marked_ApplyPage [of ident h db ap pg] assms(5) show ?thesis by (simp add: at_cursor_def)
next
  case False
  from assms(2) obtain env limit where e: "ox_encodeCursor env = enc" "ox_decodeCursor env = dec"
    "(case read_page env cursor limit b of Inl ErrInvalidCursor \<Rightarrow> Inl (TeError ''invalid telemetry cursor'')
       | Inl (PageGap g) \<Rightarrow> Inl (TeGap g) | Inr pg \<Rightarrow> Inr pg) = Inr pg" by (auto simp: answers_def)
  then have rp: "read_page env cursor limit b = Inr pg" by (auto split: sum.splits page_error.splits)
  then obtain p where pos: "page_position env cursor b = Inr p"
    by (cases "page_position env cursor b") (auto simp: read_page_def Let_def split: prod.splits)
  from at_cursor_position [OF assms(1) False pos assms(3,4) e(2)] obtain p0 t1 where
    p: "marked mp t0 t1" "holding ap p0 t1 b H p h" by blast
  then have t: "node_log.tracked b H p0 p" by (simp add: holding_def)
  from ApplyPage_in_step [OF p(2) e(1) pos rp assms(5)] read_page_next [OF t e(1) pos rp] p(1)
  show ?thesis by (auto simp: at_cursor_def)
qed

lemma at_cursor_gap:
  assumes "at_cursor ap mp enc ident t0 cursor h b H" "MarkGap db mp ident reason h = (h', err)"
  shows "(err \<noteq> None \<and> h' = h) \<or> gap_marked ident h' \<or> untouched mp ident t0 b H h \<and> cursor = [] \<and> untouched mp ident t0 b H h'"
proof -
  from assms(1) consider "gap_marked ident h \<or> hi_sync h ident \<noteq> None" | "untouched mp ident t0 b H h" "cursor = []"
    unfolding at_cursor_def in_step_def by blast
  then show ?thesis
  proof cases
    case 1
    with MarkGap_marks [OF assms(2)] show ?thesis by blast
  next
    case 2
    with MarkGap_untouched [OF 2(1) assms(2)] show ?thesis by blast
  qed
qed

text \<open>The loop, from any request on: the local cursor is the stored one as long as no gap is marked.\<close>

lemma collect_pages_on_track:
  assumes "grows bs Hs" "\<And>i c. answers enc dec (bs i) c (cl_ask env i c)" "cl_applyEvent env = ap" "cl_markPartial env = mp"
    "cursor_codec enc dec (ob_streamID (bs 0))"
  shows "collect_pages env ident endpoint k i info cached cursor c = (c', err) \<Longrightarrow>
    (\<And>j. j \<le> i + k \<Longrightarrow> ob_nextSeq (bs j) \<le> 2 ^ 64) \<Longrightarrow>
    at_cursor ap mp enc ident t0 cursor (ct_history c) (bs i) (Hs i) \<Longrightarrow>
    on_track ap mp enc ident t0 (ct_history c') (bs (i + k)) (Hs (i + k))"
proof (induction k arbitrary: i info cached cursor c)
  case 0
  then show ?case by (auto dest: at_cursor_on_track)
next
  case (Suc k)
  note here = at_cursor_on_track [OF Suc.prems(3)] and loop = Suc.prems(1)
  have stay: ?case if "ct_history c' = ct_history c"
    using on_track_grows [OF assms(1) here, of "Suc k"] that by simp
  have gone: ?case if "gap_marked ident (ct_history c')" using that by (simp add: on_track_def)
  have new: ?case if "untouched mp ident t0 (bs i) (Hs i) (ct_history c')"
    using on_track_grows [OF assms(1), of ap mp enc ident t0 "ct_history c'" i "Suc k"] that by (simp add: on_track_def)
  have bound: "ob_nextSeq (bs j) \<le> 2 ^ 64" if "j \<le> Suc i + k" for j using Suc.prems(2) that by simp
  have go_on: ?case if "collect_pages env ident endpoint k (Suc i) info' cached' cursor' c1 = (c', err)"
    "at_cursor ap mp enc ident t0 cursor' (ct_history c1) (bs (Suc i)) (Hs (Suc i))" for info' cached' cursor' c1
    using Suc.IH [OF that(1) bound that(2)] by simp
  show ?case
  proof (cases "cl_ask env i cursor")
    case (Inl e)
    show ?thesis
    proof (cases e)
      case (TeError m)
      with Inl loop show ?thesis by (intro stay) auto
    next
      case (TeGap g)
      obtain h e1 where m: "MarkGap (cl_db env i) mp ident (cg_Reason g) (ct_history c) = (h, e1)" by fastforce
      show ?thesis
      proof (cases e1)
        case (Some x)
        then have "ct_history c' = h" using m loop Inl TeGap assms(4) by auto
        with at_cursor_gap [OF Suc.prems(3) m] show ?thesis using stay gone new by auto
      next
        case None
        have "cursor \<noteq> []" using assms(2) [of i cursor] Inl TeGap no_gap_without_cursor by metis
        with at_cursor_gap [OF Suc.prems(3) m] None have "gap_marked ident h" by simp
        then show ?thesis using None m loop Inl TeGap assms(4)
          by (intro go_on [of info cached "cg_ResumeCursor g" "c\<lparr>ct_history := h\<rparr>"]) (auto simp: at_cursor_def)
      qed
    qed
  next
    case (Inr pg)
    obtain cache r where ci: "confirm_identity env i ident endpoint pg info cached (ct_cache c) = (cache, r)" by fastforce
    obtain h e1 where m: "MarkGap (cl_db env i) mp ident ''node identity changed'' (ct_history c) = (h, e1)"
      by fastforce
    obtain h2 e2 where ap: "ApplyPageWithOwners (cl_db env i) ap ident pg (ct_history c) = (h2, e2)" by fastforce
    show ?thesis
    proof (cases "isl r \<or> (\<exists>x. e2 = Some x) \<or> pg_NodeID pg \<noteq> in_NodeID (fst (projr r)) \<or> pg_StreamID pg = []")
      case True
      then have "ct_history c' = ct_history c \<or> ct_history c' = h"
        using loop Inr ci m ap assms(3,4) ApplyPage_failed
        by (cases r) (auto split: if_splits option.splits)
      with at_cursor_gap [OF Suc.prems(3) m] show ?thesis using stay gone new by auto
    next
      case False
      then obtain info' cached' where r: "r = Inr (info', cached')" and None: "e2 = None" by (cases r) auto
      have codec: "cursor_codec enc dec (ob_streamID (bs i))" using assms(5) grows_identity [OF assms(1), of i] by simp
      have answer: "answers enc dec (bs i) cursor (Inr pg)" using assms(2) [of i cursor] Inr by simp
      have step: "at_cursor ap mp enc ident t0 (pg_NextCursor pg) h2 (bs i) (Hs i)"
        by (rule at_cursor_page [OF Suc.prems(3) answer codec _ ap [unfolded None]]) (rule bound, simp)
      show ?thesis
      proof (cases "pg_HasMore pg")
        case True
        show ?thesis
          by (rule go_on [OF _ at_cursor_grows [OF assms(1)]])
            (use loop Inr ci r False ap None True assms(3) step in \<open>auto simp: Let_def\<close>)
      next
        case more: False
        have "ct_history c' = h2" using loop Inr ci r False ap None more assms(3) by (auto simp: Let_def)
        with on_track_grows [OF assms(1) at_cursor_on_track [OF step], of "Suc k"] show ?thesis by simp
      qed
    qed
  qed
qed

text \<open>
  A node and a gateway over time, from the first event of the node's stream and before the gateway has
  collected anything from it: the node appends to its log, the gateway collects, in any order and
  as often as they like; while a collection runs, the node may append between the requests, any
  request may fail, the database may refuse any transaction, and the identity of the node may have
  to be looked up again. \<open>H\<close> is the list of all events the node ever logged, also of those that retention
  has dropped since.
\<close>

inductive archived ::
  "(Event \<Rightarrow> 't \<Rightarrow> string + 't) \<Rightarrow> (int \<Rightarrow> int \<Rightarrow> 't \<Rightarrow> 't) \<Rightarrow> (Cursor \<Rightarrow> string) \<Rightarrow> (string \<Rightarrow> Cursor option) \<Rightarrow> string \<Rightarrow> 't \<Rightarrow>
     Outbox \<Rightarrow> Event list \<Rightarrow> 't History \<Rightarrow> bool"
  for ap mp enc dec ident t0 where
  install: "numbered b \<Longrightarrow> ob_events b = [] \<Longrightarrow> ob_nextSeq b = 1 \<Longrightarrow> hi_sync h ident = None \<Longrightarrow> hi_tables h = t0 \<Longrightarrow>
    \<forall>q. (ob_nodeID b, ob_streamID b, q) \<notin> set (hi_ingested h) \<Longrightarrow> archived ap mp enc dec ident t0 b [] h"
| produce: "archived ap mp enc dec ident t0 b H h \<Longrightarrow> AppendBatch env batch b = (b', es, errs) \<Longrightarrow>
    archived ap mp enc dec ident t0 b' (H @ es) h"
| collect: "archived ap mp enc dec ident t0 (bs 0) (Hs 0) (ct_history c) \<Longrightarrow> grows bs Hs \<Longrightarrow>
    (\<And>i q. answers enc dec (bs i) q (cl_ask env i q)) \<Longrightarrow> cl_applyEvent env = ap \<Longrightarrow> cl_markPartial env = mp \<Longrightarrow>
    collectNodeHistory env ident endpoint c = (c', err) \<Longrightarrow>
    archived ap mp enc dec ident t0 (bs 33) (Hs 33) (ct_history c')"

lemma grows_nextSeq: "grows bs Hs \<Longrightarrow> numbered (bs 0) \<Longrightarrow> i \<le> j \<Longrightarrow> numbered (bs j) \<and> ob_nextSeq (bs i) \<le> ob_nextSeq (bs j)"
proof -
  assume g: "grows bs Hs" and n: "numbered (bs 0)"
  have step: "numbered (bs k) \<Longrightarrow> numbered (bs (Suc k)) \<and> ob_nextSeq (bs k) \<le> ob_nextSeq (bs (Suc k))" for k
  proof -
    assume nk: "numbered (bs k)"
    from g consider "bs (Suc k) = bs k" | env batch es errs where "AppendBatch env batch (bs k) = (bs (Suc k), es, errs)"
      unfolding grows_def by blast
    then show ?thesis
    proof cases
      case 2
      from AppendBatch_extends [OF nk this] show ?thesis by (simp add: extends_def)
    qed (simp add: nk)
  qed
  have all: "numbered (bs k)" for k by (induction k) (use n step in auto)
  assume "i \<le> j"
  then show ?thesis
  proof (induction j rule: dec_induct)
    case (step k)
    then show ?case using all \<open>\<And>k. numbered (bs k) \<Longrightarrow> numbered (bs (Suc k)) \<and> ob_nextSeq (bs k) \<le> ob_nextSeq (bs (Suc k))\<close>
      by (meson order_trans)
  qed (simp add: all)
qed

lemma collectNodeHistory_on_track:
  assumes "grows bs Hs" "\<And>i c. answers enc dec (bs i) c (cl_ask env i c)" "cl_applyEvent env = ap" "cl_markPartial env = mp"
    "cursor_codec enc dec (ob_streamID (bs 0))" "\<And>j. j \<le> 33 \<Longrightarrow> ob_nextSeq (bs j) \<le> 2 ^ 64"
    "collectNodeHistory env ident endpoint c = (c', err)" "on_track ap mp enc ident t0 (ct_history c) (bs 0) (Hs 0)"
  shows "on_track ap mp enc ident t0 (ct_history c') (bs 33) (Hs 33)"
proof -
  obtain cache r where ci: "cachedNodeInfo (cl_now env 0) (cl_fetch env 0) ident endpoint (ct_cache c) = (cache, r)" by fastforce
  have "ct_history c' = ct_history c \<or> (\<exists>info cached. collect_pages env ident endpoint 32 1 info cached
      (SyncCursor ident (ct_history c)) (c\<lparr>ct_cache := cache, ct_events := 0\<rparr>) = (c', err))"
    using assms(7) ci by (auto simp: collectNodeHistory_def Let_def split: sum.splits if_splits)
  then show ?thesis
  proof
    assume "ct_history c' = ct_history c"
    with on_track_grows [OF assms(1) assms(8), of 33] show ?thesis by simp
  next
    assume "\<exists>info cached. collect_pages env ident endpoint 32 1 info cached
      (SyncCursor ident (ct_history c)) (c\<lparr>ct_cache := cache, ct_events := 0\<rparr>) = (c', err)"
    then obtain info cached where l: "collect_pages env ident endpoint 32 1 info cached
      (SyncCursor ident (ct_history c)) (c\<lparr>ct_cache := cache, ct_events := 0\<rparr>) = (c', err)" by blast
    from at_cursor_grows [OF assms(1) on_track_cursor [OF assms(8)]] have start: "at_cursor ap mp enc ident t0
        (SyncCursor ident (ct_history c)) (ct_history (c\<lparr>ct_cache := cache, ct_events := 0\<rparr>)) (bs 1) (Hs 1)" by simp
    have "on_track ap mp enc ident t0 (ct_history c') (bs (1 + 32)) (Hs (1 + 32))"
      by (rule collect_pages_on_track [OF assms(1-5) l _ start]) (rule assms(6), simp)
    then show ?thesis by simp
  qed
qed

lemma archived_tracked: "archived ap mp enc dec ident t0 b H h \<Longrightarrow> node_log.tracked b H 0 0"
proof (induction rule: archived.induct)
  case (install b h)
  then show ?case using node_log.tracked_start [of b 0] by simp
next
  case (produce b H h env batch b' es errs)
  then show ?case using node_log.tracked_append by blast
next
  case (collect bs Hs c env endpoint c' err)
  have "node_log.tracked (bs (0 + 33)) (Hs (0 + 33)) 0 0"
    using collect.hyps(2) collect.IH
    by (rule grows_keeps [where P = "\<lambda>b H. node_log.tracked b H 0 0"]) (blast intro: node_log.tracked_append)
  then show ?case by simp
qed

lemma archived_numbered: "archived ap mp enc dec ident t0 b H h \<Longrightarrow> numbered b"
  by (drule archived_tracked) (simp add: node_log.tracked_def)

lemma archived_on_track:
  "archived ap mp enc dec ident t0 b H h \<Longrightarrow> ob_nextSeq b \<le> 2 ^ 64 \<Longrightarrow> cursor_codec enc dec (ob_streamID b) \<Longrightarrow>
    on_track ap mp enc ident t0 h b H"
proof (induction rule: archived.induct)
  case (install b h)
  then have "untouched mp ident t0 b [] h"
    using archived_tracked [OF archived.install [of b h ident t0 ap mp enc dec]] by (simp add: untouched_def)
  then show ?case by (simp add: on_track_def)
next
  case (produce b H h env batch b' es errs)
  from AppendBatch_extends [OF archived_numbered [OF produce.hyps(1)] produce.hyps(2)]
  have "ob_nextSeq b \<le> 2 ^ 64" using produce.prems(1) by (simp add: extends_def)
  with produce AppendBatch_identity [OF produce.hyps(2)] have "on_track ap mp enc ident t0 h b H" by simp
  from on_track_append [OF this produce.hyps(2)] show ?case .
next
  case (collect bs Hs c env endpoint c' err)
  have bound: "ob_nextSeq (bs j) \<le> 2 ^ 64" if "j \<le> 33" for j
    using grows_nextSeq [OF collect.hyps(2) archived_numbered [OF collect.hyps(1)] that] collect.prems(1) by (meson order_trans)
  have codec: "cursor_codec enc dec (ob_streamID (bs 0))"
    using collect.prems(2) grows_identity [OF collect.hyps(2), of 33] by simp
  have "on_track ap mp enc ident t0 (ct_history c) (bs 0) (Hs 0)" by (rule collect.IH [OF bound codec]) simp
  from collectNodeHistory_on_track [OF collect.hyps(2-5) codec bound collect.hyps(6) this] show ?case .
qed

text \<open>
  C2: telemetry is ingested exactly once and in order from first contact on, or the loss is marked. Take
  any history of a node's stream and a gateway that begins before the gateway has collected from it,
  however the node's appends, the gateway's collections, failing requests and failing transactions
  interleave, and suppose that no gap has been recorded for the node. Then the gateway has no cursor yet and
  has applied nothing; or its cursor stands at some \<open>p\<close> and its tables are the result of applying exactly
  the events numbered \<open>p0 + 1\<close> to \<open>p\<close> of all the node ever logged, each once and in the order of their
  numbers. What is left out are the events up to \<open>p0\<close>, which the node had dropped when the gateway first
  read its log: none of those the node still holds is among them.
\<close>

theorem history_exactly_once:
  assumes "archived ap mp enc dec ident t0 b H h" "cursor_codec enc dec (ob_streamID b)" "ob_nextSeq b \<le> 2 ^ 64"
    and "\<not> gap_marked ident h"
  shows "map te_Seq H = [1 ..< ob_nextSeq b] \<and>
    (if hi_sync h ident = None then marked mp t0 (hi_tables h)
     else \<exists>p0 p es t1. SyncCursor ident h = cursor_at enc b p \<and>
       es = filter (\<lambda>e. p0 < te_Seq e \<and> te_Seq e \<le> p) H \<and> map te_Seq es = [Suc p0 ..< Suc p] \<and>
       marked mp t0 t1 \<and> apply_all ap es t1 = Inr (hi_tables h) \<and>
       (\<forall>e \<in> set (log b). p0 < te_Seq e))"
proof -
  have t: "length H < ob_nextSeq b" "ob_nextSeq b - length H \<le> 1" "consecutive (ob_nextSeq b - length H) H"
    using archived_tracked [OF assms(1)] by (simp_all add: node_log.tracked_def)
  then have n: "ob_nextSeq b = 1 + length H" by simp
  with t(3) have all: "map te_Seq H = [1 ..< ob_nextSeq b]" by (simp only: consecutive_def add_diff_cancel_right')
  from archived_on_track [OF assms(1,3,2)] assms(4) consider "untouched mp ident t0 b H h"
    | p0 t1 p where "marked mp t0 t1" "in_step ap enc ident p0 t1 b H p h" by (auto simp: on_track_def)
  then show ?thesis
  proof cases
    case 1
    with all show ?thesis by (simp add: untouched_def)
  next
    case 2
    let ?es = "filter (\<lambda>e. p0 < te_Seq e \<and> te_Seq e \<le> p) H"
    have sync: "hi_sync h ident \<noteq> None" using 2(2) by (auto simp: in_step_def)
    have "SyncCursor ident h = cursor_at enc b p" "map te_Seq ?es = [Suc p0 ..< Suc p]"
      "apply_all ap ?es t1 = Inr (hi_tables h)" "\<forall>e \<in> set (log b). p0 < te_Seq e"
      using 2(2) node_log.tracked_numbers [of b H p0 p]
      by (auto simp: in_step_def holding_def SyncCursor_def simp del: upt_Suc)
    then show ?thesis unfolding if_not_P [OF sync]
      by (intro conjI all exI [of _ p0] exI [of _ p] exI [of _ ?es] exI [of _ t1] refl 2(1))
  qed
qed

section \<open>Retries\<close>

text \<open>
  a node that fails is asked again after at least 1.75 seconds and at most 60.25 seconds, however
  often it has failed, and a node that answers is asked again at once.
\<close>

theorem retry_bounds:
  "(\<exists>d. hs_nextTry (recordHistoryAttempt ident (Some e) now m ident) = now + d \<and> 1750000000 \<le> d \<and> d \<le> 60250000000) \<and>
   (0 \<le> now \<longrightarrow> historyNodeReady ident now (recordHistoryAttempt ident None now m))"
proof -
  define f where "f = Suc (hs_failures (m ident))"
  define j where "j = (int ((length ident * 37 + f * 53) mod 501) - 250) * 1000000"
  have j: "- 250000000 \<le> j" "j \<le> 250000000"
    using mod_less_divisor [of 501 "length ident * 37 + f * 53"] by (auto simp: j_def)
  define d where "d = (2 * second * 2 ^ min (f - 1) 5 :: int)"
  have "1 \<le> (2 :: int) ^ min (f - 1) 5" by simp
  then have d: "2 * second \<le> d" by (simp add: d_def)
  have "retry_delay ident f = (if d > 60 * second then 60 * second else d) + j"
    by (simp add: retry_delay_def Let_def d_def j_def)
  then have "1750000000 \<le> retry_delay ident f \<and> retry_delay ident f \<le> 60250000000" using j d by auto
  moreover have "hs_nextTry (recordHistoryAttempt ident (Some e) now m ident) = now + retry_delay ident f"
    by (simp add: recordHistoryAttempt_def Let_def f_def)
  moreover have "historyNodeReady ident now (recordHistoryAttempt ident None now m)" if "0 \<le> now"
    using that by (simp add: historyNodeReady_def recordHistoryAttempt_def)
  ultimately show ?thesis by blast
qed

end
