(* ===== verification/Collector_Examples.thy ===== *)
theory Collector_Examples
  imports Collector_Theorems
begin

text \<open>
  A node and a gateway with concrete encoders: the properties of the outbox and of the collector
  applied to them.
\<close>

section \<open>A cursor codec\<close>

definition digits_value :: "string \<Rightarrow> nat" where
  "digits_value s = foldl (\<lambda>n c. 10 * n + (of_char c - 48)) 0 s"

definition example_enc :: "Cursor \<Rightarrow> string" where
  "example_enc c = padded 20 (cu_Seq c) @ cu_StreamID c"

definition example_dec :: "string \<Rightarrow> Cursor option" where
  "example_dec s = Some \<lparr>cu_Version = 1, cu_StreamID = drop 20 s, cu_Seq = digits_value (take 20 s)\<rparr>"

lemma length_padded [simp]: "length (padded k n) = k"
  by (induction k arbitrary: n) auto

lemma digits_value_padded: "n < 10 ^ k \<Longrightarrow> foldl (\<lambda>n c. 10 * n + (of_char c - 48)) a (padded k n) = a * 10 ^ k + n"
proof (induction k arbitrary: n a)
  case (Suc k)
  have d: "n div 10 ^ k < 10" using Suc.prems by (simp add: less_mult_imp_div_less)
  have "foldl (\<lambda>n c. 10 * n + (of_char c - 48)) (10 * a + n div 10 ^ k) (padded k (n mod 10 ^ k)) =
      (10 * a + n div 10 ^ k) * 10 ^ k + n mod 10 ^ k" by (rule Suc.IH) simp
  with d show ?case by (simp add: digit_char_def algebra_simps)
qed simp

lemma example_codec: "cursor_codec example_enc example_dec ''stream_1''"
proof -
  have "digits_value (padded 20 q) = q" if "q < 2 ^ 64" for q
    using digits_value_padded [of q 20 0] that by (simp add: digits_value_def)
  then show ?thesis by (auto simp: cursor_codec_def example_enc_def example_dec_def Let_def simp del: padded.simps)
qed

section \<open>A node\<close>

definition example_outbox_env :: OutboxEnv where
  "example_outbox_env = \<lparr>ox_now = (\<lambda>i. 1000), ox_encode = (\<lambda>e. Inr (te_Payload e)), ox_decode = (\<lambda>s. None),
     ox_encodeCursor = example_enc, ox_decodeCursor = example_dec, ox_write = (\<lambda>i. None), ox_sync = (\<lambda>i. None),
     ox_close = (\<lambda>i. None), ox_open = (\<lambda>i. None), ox_remove = (\<lambda>p. True)\<rparr>"

definition empty_outbox :: Outbox where
  "empty_outbox = \<lparr>ob_dir = ''/t'', ob_nodeID = ''node_1'', ob_streamID = ''stream_1'', ob_bootID = ''b'', ob_nextSeq = 1,
     ob_events = [], ob_segments = [], ob_totalBytes = 0, ob_current = None, ob_disk = []\<rparr>"

definition example_batch :: "BatchEvent list" where
  "example_batch = [\<lparr>be_Type = ''job.started'', be_Payload = Inr ''{}'', be_OccurredAt = 5\<rparr>,
     \<lparr>be_Type = ''job.finished'', be_Payload = Inr ''{}'', be_OccurredAt = 6\<rparr>]"

definition example_outbox :: Outbox where
  "example_outbox = fst (AppendBatch example_outbox_env example_batch empty_outbox)"

lemma empty_outbox_numbered: "numbered empty_outbox"
  by (simp add: numbered_def empty_outbox_def consecutive_def)

section \<open>A gateway that collects from it\<close>

definition example_ask :: "string \<Rightarrow> tele_error + Page" where
  "example_ask c = (case read_page example_outbox_env c 256 example_outbox of
     Inl ErrInvalidCursor \<Rightarrow> Inl (TeError ''invalid telemetry cursor'') | Inl (PageGap g) \<Rightarrow> Inl (TeGap g) | Inr pg \<Rightarrow> Inr pg)"

definition example_info :: Info where
  "example_info = \<lparr>in_NodeID = ''node_1'', in_TelemetrySchema = 1, in_Capabilities = [''telemetry_v1'', ''telemetry_wait_v1'']\<rparr>"

definition example_collect :: "string list CollectEnv" where
  "example_collect = \<lparr>cl_now = (\<lambda>i. 0), cl_fetch = (\<lambda>i. Inr example_info), cl_ask = (\<lambda>i. example_ask),
     cl_db = (\<lambda>i. \<lparr>db_nowMS = 0, db_readErr = None, db_beginErr = None, db_commitErr = None\<rparr>), cl_cursorErr = None,
     cl_applyEvent = (\<lambda>e t. Inr (t @ [te_Type e])), cl_markPartial = (\<lambda>now cutoff t. t)\<rparr>"

definition example_history :: "string list History" where
  "example_history = \<lparr>hi_ingested = [], hi_sync = Map.empty, hi_nodes = Map.empty, hi_tables = []\<rparr>"

definition example_collected :: "string list Collecting \<times> string option" where
  "example_collected = collectNodeHistory example_collect ''srv'' ''https://node''
     \<lparr>ct_history = example_history, ct_cache = Map.empty, ct_events = 0\<rparr>"

lemma example_archived:
  "\<exists>H. archived (\<lambda>e t. Inr (t @ [te_Type e])) (\<lambda>now cutoff t. t) example_enc example_dec ''srv'' [] example_outbox H
     (ct_history (fst example_collected))"
proof -
  let ?archived = "archived (\<lambda>e t. Inr (t @ [te_Type e])) (\<lambda>now cutoff t. t) example_enc example_dec ''srv'' []"
  have "?archived empty_outbox [] example_history"
    by (rule archived.install [OF empty_outbox_numbered]) (auto simp: example_history_def empty_outbox_def)
  then obtain H where H: "?archived example_outbox H example_history"
    using archived.produce by (metis example_outbox_def prod.collapse)
  have "?archived example_outbox H (ct_history (fst example_collected))"
  proof (rule archived.collect [where bs = "\<lambda>i. example_outbox" and Hs = "\<lambda>i. H" and env = example_collect
        and c = "\<lparr>ct_history = example_history, ct_cache = Map.empty, ct_events = 0\<rparr>" and c' = "fst example_collected"
        and err = "snd example_collected" and endpoint = "''https://node''"])
    show "answers example_enc example_dec example_outbox q (cl_ask example_collect i q)" for i q
      unfolding answers_def
      by (intro disjI2 exI [of _ example_outbox_env] exI [of _ 256])
        (simp add: example_collect_def example_ask_def example_outbox_env_def)
  qed (use H in \<open>simp_all add: grows_def example_collect_def example_collected_def\<close>)
  then show ?thesis by blast
qed

theorem history_exactly_once_witness:
  "\<exists>p0 p (es :: Event list). SyncCursor ''srv'' (ct_history (fst example_collected)) =
      example_enc \<lparr>cu_Version = 1, cu_StreamID = ''stream_1'', cu_Seq = p\<rparr> \<and> map te_Seq es = [Suc p0 ..< Suc p] \<and>
    map te_Type es = [''job.started'', ''job.finished''] \<and> snd example_collected = None"
proof -
  let ?ap = "\<lambda>e t. Inr (t @ [te_Type e])" and ?h = "ct_history (fst example_collected)" and ?mp = "\<lambda>now cutoff (t :: string list). t"
  obtain H where "archived ?ap ?mp example_enc example_dec ''srv'' [] example_outbox H ?h" using example_archived by blast
  moreover have s: "ob_streamID example_outbox = ''stream_1''" "ob_nextSeq example_outbox = 3" by code_simp+
  moreover have g: "case hi_sync ?h ''srv'' of None \<Rightarrow> False | Some r \<Rightarrow> sy_GapAt r = None" by code_simp
  then have "\<not> gap_marked ''srv'' ?h" "hi_sync ?h ''srv'' \<noteq> None" by (auto simp: gap_marked_def split: option.splits)
  ultimately obtain p0 p es t1 where r: "SyncCursor ''srv'' ?h = example_enc \<lparr>cu_Version = 1, cu_StreamID = ''stream_1'', cu_Seq = p\<rparr>"
    "map te_Seq es = [Suc p0 ..< Suc p]" "marked ?mp [] t1" "apply_all ?ap es t1 = Inr (hi_tables ?h)"
    using history_exactly_once [of ?ap ?mp example_enc example_dec "''srv''" "[]" example_outbox H ?h] example_codec by force
  have "fold (\<lambda>now. ?mp now 0) ks t = t" for ks t by (induction ks) auto
  with r(3) have "t1 = []" by (auto simp: marked_def)
  moreover have "apply_all ?ap es t = Inr (t @ map te_Type es)" for t by (induction es arbitrary: t) auto
  moreover have h: "hi_tables ?h = [''job.started'', ''job.finished'']" "snd example_collected = None" by code_simp+
  ultimately have "map te_Type es = [''job.started'', ''job.finished'']" using r(4) by simp
  with r h show ?thesis by (intro exI [of _ p0] exI [of _ p] exI [of _ es]) (simp del: upt_Suc)
qed

section \<open>A log that stopped\<close>

definition failing_env :: OutboxEnv where
  "failing_env = example_outbox_env\<lparr>ox_open := (\<lambda>i. Some (OxError ''too many open files''))\<rparr>"

definition stopped_outbox :: Outbox where
  "stopped_outbox = fst (rotateLocked failing_env 0 3 example_outbox)"

theorem failed_rotation_stops_log_witness:
  "map so_Event (ob_events (append_all [(example_outbox_env, example_batch)] stopped_outbox)) = map so_Event (ob_events example_outbox) \<and>
   snd (snd (AppendBatch example_outbox_env example_batch (append_all [(example_outbox_env, example_batch)] stopped_outbox))) \<noteq> []"
proof -
  have "snd (rotateLocked failing_env 0 3 example_outbox) = Some (OxError ''too many open files'')" by code_simp
  then have r: "rotateLocked failing_env 0 3 example_outbox = (stopped_outbox, Some (OxError ''too many open files''))"
    by (simp add: stopped_outbox_def prod_eq_iff)
  have "ob_current example_outbox \<noteq> None" "example_batch \<noteq> []" by code_simp+
  with failed_rotation_stops_log [OF r, of example_batch "[(example_outbox_env, example_batch)]" example_outbox_env] show ?thesis by simp
qed

definition large_event :: Event where
  "large_event = \<lparr>te_Seq = 1, te_OccurredAt = 5, te_BootID = [], te_Type = ''job.started'', te_Payload = replicate (2 ^ 20) CHR ''x''\<rparr>"

definition blocked_outbox :: Outbox where
  "blocked_outbox = empty_outbox\<lparr>ob_events := [\<lparr>so_Event = large_event, so_segment = []\<rparr>], ob_nextSeq := 2\<rparr>"

theorem oversized_event_blocks_witness:
  "\<exists>pg. read_page example_outbox_env [] 256 blocked_outbox = Inr pg \<and> pg_Events pg = [] \<and> pg_HasMore pg"
proof -
  have n: "numbered blocked_outbox"
    by (simp add: numbered_def blocked_outbox_def empty_outbox_def consecutive_def large_event_def)
  have p: "page_position example_outbox_env [] blocked_outbox = Inr 0"
    by (simp add: page_position_def boundsLocked_def blocked_outbox_def large_event_def)
  have f: "filter (\<lambda>e. 0 < te_Seq e) (log blocked_outbox) = [large_event]"
    by (simp add: blocked_outbox_def large_event_def)
  have "MaxPageBytes < 512 + page_size large_event" by (simp add: page_size_def large_event_def)
  from oversized_event_blocks [OF n p f this, of 256] show ?thesis by blast
qed

theorem retry_bounds_witness:
  "historyNodeReady ''srv'' 7 (recordHistoryAttempt ''srv'' None 7 (\<lambda>_. \<lparr>hs_failures = 3, hs_nextTry = 100\<rparr>))"
  using retry_bounds [of "''srv''" "[]" 7 "\<lambda>_. \<lparr>hs_failures = 3, hs_nextTry = 100\<rparr>"] by simp

end
