(* ===== verification/Proc_Reader.thy ===== *)
theory Proc_Reader
  imports Enforce Go_Text
begin

text \<open>
  The process reader (\<open>internal/proc/proc.go\<close>): what the daemon reads of a process under \<open>/proc\<close>,
  its identity (the start time), its command line, its user and the container its control group
  names. The files of a process are a record with the answer of each read; the two reads of \<open>stat\<close>
  are separate, since the number may go to another process in between.

  The regular expressions are matched element by element; letters are folded in ASCII.
\<close>

section \<open>Start time\<close>

definition index_of :: "char \<Rightarrow> string \<Rightarrow> nat option" where
  "index_of c s = (if c \<in> set s then Some (length (takeWhile (\<lambda>x. x \<noteq> c) s)) else None)"

definition last_index_of :: "char \<Rightarrow> string \<Rightarrow> nat option" where
  "last_index_of c s = map_option (\<lambda>k. length s - 1 - k) (index_of c (rev s))"

definition startTimeIndex :: nat where "startTimeIndex = 19"

definition parseStartTime :: "string \<Rightarrow> string + uint64" where
  "parseStartTime stat = (case (index_of CHR ''('' stat, last_index_of CHR '')'' stat) of
     (Some left, Some right) \<Rightarrow>
       if right \<le> left then Inl ''malformed stat command''
       else (let fields = Fields (drop (right + 1) stat) in
         if length fields \<le> startTimeIndex then Inl ''stat is missing start time''
         else case ParseUint (fields ! startTimeIndex) of None \<Rightarrow> Inl ''invalid start time'' | Some t \<Rightarrow> Inr t)
   | _ \<Rightarrow> Inl ''malformed stat command'')"

section \<open>Command line and user\<close>

definition maxCmdlineBytes :: nat where "maxCmdlineBytes = 64 * 2 ^ 10"

definition NUL_byte :: char where "NUL_byte = char_of (0 :: nat)"

definition trim_right_byte :: "char \<Rightarrow> string \<Rightarrow> string" where
  "trim_right_byte c s = rev (dropWhile (\<lambda>x. x = c) (rev s))"

definition readCmdline :: "string + string \<Rightarrow> string + string list" where
  "readCmdline file = (case file of Inl e \<Rightarrow> Inl e
     | Inr data \<Rightarrow> if length data > maxCmdlineBytes then Inl ''cmdline exceeds the limit''
         else if data = [] then Inr []
         else Inr (filter (\<lambda>part. part \<noteq> []) (Split NUL_byte (trim_right_byte NUL_byte data))))"

definition newline_char :: char where "newline_char = char_of (10 :: nat)"

fun parse_uid_lines :: "string list \<Rightarrow> int" where
  "parse_uid_lines [] = -1"
| "parse_uid_lines (l # ls) =
     (if \<not> prefix ''Uid:'' l then parse_uid_lines ls
      else case Fields l of _ # u # _ \<Rightarrow> (case Atoi u of None \<Rightarrow> -1 | Some uid \<Rightarrow> uid) | _ \<Rightarrow> -1)"

definition parseUID :: "string \<Rightarrow> int" where
  "parseUID status = parse_uid_lines (Split newline_char status)"

section \<open>Container identity\<close>

definition hex64 :: "string \<Rightarrow> bool" where
  "hex64 s \<longleftrightarrow> length s = 64 \<and> list_all is_hex_char s"

text \<open>
  \<open>dockerCgroupPattern\<close>: \<open>/docker/\<close> or \<open>/system.slice/docker-\<close>, 64 hexadecimal digits, \<open>.scope\<close> for
  the second form, and then nothing or a sub-path.
\<close>

definition hex_then :: "string \<Rightarrow> string \<Rightarrow> string option" where
  "hex_then tail s = (let ident = take 64 s; rest = drop 64 s in
     if hex64 ident \<and> prefix tail (ToLower rest) \<and>
        (let r = drop (length tail) rest in r = [] \<or> hd r = slash \<and> newline_char \<notin> set r)
     then Some ident else None)"

definition docker_cgroup :: "string \<Rightarrow> string option" where
  "docker_cgroup path =
     (if prefix ''/docker/'' (ToLower path) then hex_then [] (drop 8 path)
      else if prefix ''/system.slice/docker-'' (ToLower path) then hex_then ''.scope'' (drop 21 path)
      else None)"

text \<open>
  \<open>k8sPodChildPattern\<close>: a path element that begins with \<open>pod\<close>, or with a prefix that ends in a
  dash and \<open>pod\<close>, followed by an element that names a container. The search takes the leftmost pair.
\<close>

definition pod_element :: "string \<Rightarrow> bool" where
  "pod_element e \<longleftrightarrow> prefix ''pod'' (ToLower e) \<or> list_ex (prefix ''-pod'') (suffixes (ToLower e))"

definition strip_prefix :: "string \<Rightarrow> string \<Rightarrow> string" where
  "strip_prefix p e = (if prefix p (ToLower e) then drop (length p) e else e)"

definition container_element :: "string \<Rightarrow> string option" where
  "container_element e =
     (let s = (if prefix ''docker-'' (ToLower e) then drop 7 e
               else if prefix ''cri-containerd-'' (ToLower e) then drop 15 e
               else strip_prefix ''crio-'' e);
          ident = take 64 s; rest = drop 64 s in
      if hex64 ident \<and> (rest = [] \<or> ToLower rest = ''.scope'') then Some ident else None)"

fun pod_child :: "string list \<Rightarrow> string option" where
  "pod_child (e # c # es) = (if pod_element e \<and> container_element c \<noteq> None then container_element c else pod_child (c # es))"
| "pod_child es = None"

definition k8s_pod_child :: "string \<Rightarrow> string option" where
  "k8s_pod_child path = pod_child (tl (Split slash path))"

definition line_container :: "string \<Rightarrow> string option" where
  "line_container line = (case cut CHR '':'' line of (_, None) \<Rightarrow> None
     | (_, Some r) \<Rightarrow> (case cut CHR '':'' r of (_, None) \<Rightarrow> None
        | (_, Some path) \<Rightarrow> (let path = TrimSpace path in
            case docker_cgroup path of Some ident \<Rightarrow> Some ident
            | None \<Rightarrow> if prefix ''/kubepods'' path then k8s_pod_child path else None)))"

fun extract_lines :: "string list \<Rightarrow> string" where
  "extract_lines [] = []"
| "extract_lines (l # ls) = (case line_container l of Some ident \<Rightarrow> ToLower ident | None \<Rightarrow> extract_lines ls)"

definition ExtractContainerID :: "string \<Rightarrow> string" where
  "ExtractContainerID cgroup = extract_lines (Split newline_char cgroup)"

section \<open>The information on a process\<close>

record ProcFiles =
  pf_stat :: "string + string"
  pf_cmdline :: "string + string"
  pf_exe :: "string + string"
  pf_cgroup :: "string + string"
  pf_status :: "string + string"
  pf_statAgain :: "string + string"

definition or_empty :: "string + string \<Rightarrow> string" where
  "or_empty r = (case r of Inl _ \<Rightarrow> [] | Inr s \<Rightarrow> s)"

definition readStartTime :: "string + string \<Rightarrow> string + uint64" where
  "readStartTime file = (case file of Inl e \<Rightarrow> Inl (''read process start time: '' @ e)
     | Inr stat \<Rightarrow> (case parseStartTime stat of Inl e \<Rightarrow> Inl (''parse process start time: '' @ e) | Inr t \<Rightarrow> Inr t))"

definition FSReader_Info :: "string \<Rightarrow> ProcFiles \<Rightarrow> int \<Rightarrow> string + ProcInfo" where
  "FSReader_Info root files pid =
     (case readStartTime (pf_stat files) of Inl e \<Rightarrow> Inl e
      | Inr startTime \<Rightarrow>
        (case readStartTime (pf_statAgain files) of Inl e \<Rightarrow> Inl e
         | Inr confirmed \<Rightarrow>
           if confirmed \<noteq> startTime then Inl ''identity changed while reading proc metadata''
           else let cgroup = TrimSpace (or_empty (pf_cgroup files)) in
             Inr \<lparr>pi_PID = pid, pi_StartTime = startTime, pi_UID = parseUID (or_empty (pf_status files)), pi_Username = [],
               pi_Cmdline = (case readCmdline (pf_cmdline files) of Inl _ \<Rightarrow> [] | Inr c \<Rightarrow> c),
               pi_CommandPath = or_empty (pf_exe files), pi_Cgroup = cgroup, pi_ContainerID = ExtractContainerID cgroup,
               pi_StderrPath = root @ ''/'' @ itoa pid @ ''/fd/2''\<rparr>))"

section \<open>The cache of user names\<close>

record usernameCacheEntry =
  uc_name :: string
  uc_err :: "string option"
  uc_expiresAt :: time

datatype lookup_result = Found string | UnknownUser | LookupFailed string

text \<open>
  The cache as an association list. Evicting takes the keys in the order the map is walked, which the
  language does not fix: \<open>order\<close> is that order.
\<close>

fun evict_until :: "int list \<Rightarrow> (int \<times> usernameCacheEntry) list \<Rightarrow> (int \<times> usernameCacheEntry) list" where
  "evict_until [] entries = entries"
| "evict_until (k # ks) entries = (if length entries \<ge> 4096 then evict_until ks (filter (\<lambda>e. fst e \<noteq> k) entries) else entries)"

definition refresh_user ::
  "time \<Rightarrow> lookup_result \<Rightarrow> int list \<Rightarrow> int \<Rightarrow> (int \<times> usernameCacheEntry) list \<Rightarrow>
     (int \<times> usernameCacheEntry) list \<times> string \<times> string option" where
  "refresh_user now looked order uid entries =
     (let name = (case looked of Found n \<Rightarrow> n | _ \<Rightarrow> []);
          err = (case looked of LookupFailed e \<Rightarrow> Some e | _ \<Rightarrow> None);
          ttl = (if err = None then 300 * second else 5 * second);
          entries = (if length entries \<ge> 4096
            then evict_until order (filter (\<lambda>e. now < uc_expiresAt (snd e)) entries) else entries) in
      ((uid, \<lparr>uc_name = name, uc_err = err, uc_expiresAt = now + ttl\<rparr>) # filter (\<lambda>e. fst e \<noteq> uid) entries, name, err))"

definition LookupUsername ::
  "time \<Rightarrow> lookup_result \<Rightarrow> int list \<Rightarrow> int \<Rightarrow> (int \<times> usernameCacheEntry) list \<Rightarrow>
     (int \<times> usernameCacheEntry) list \<times> string \<times> string option" where
  "LookupUsername now looked order uid entries =
     (if uid < 0 then (entries, [], Some ''invalid uid'')
      else case map_of entries uid of
        Some e \<Rightarrow> if now < uc_expiresAt e then (entries, uc_name e, uc_err e)
          else refresh_user now looked order uid entries
      | None \<Rightarrow> refresh_user now looked order uid entries)"

section \<open>The start time cannot be forged by the command name\<close>

lemma index_of_append: "c \<notin> set xs \<Longrightarrow> index_of c (xs @ c # ys) = Some (length xs)"
proof -
  assume "c \<notin> set xs"
  then have "takeWhile (\<lambda>x. x \<noteq> c) xs = xs" by (auto simp: takeWhile_eq_all_conv)
  with \<open>c \<notin> set xs\<close> show ?thesis by (auto simp: index_of_def takeWhile_append)
qed

lemma last_index_of_append:
  assumes "c \<notin> set ys"
  shows "last_index_of c (xs @ c # ys) = Some (length xs)"
proof -
  have "index_of c (rev ys @ c # rev xs) = Some (length (rev ys))" using assms by (intro index_of_append) simp
  then show ?thesis by (simp add: last_index_of_def)
qed

text \<open>
  the identity of a process does not depend on the name it gives itself. Whatever bytes the
  command name in \<open>/proc/<pid>/stat\<close> holds, parentheses, spaces and line ends included, the start time
  that is read is the twentieth field after the name.
\<close>

theorem start_time_unforgeable:
  assumes "CHR ''('' \<notin> set pid" "list_all word_ok ws" "CHR '')'' \<notin> set (join_words ws)" "19 < length ws"
  shows "parseStartTime (pid @ ''('' @ comm @ '') '' @ join_words ws) =
    (case ParseUint (ws ! 19) of None \<Rightarrow> Inl ''invalid start time'' | Some t \<Rightarrow> Inr t)"
proof -
  let ?s = "pid @ ''('' @ comm @ '') '' @ join_words ws"
  have left: "index_of CHR ''('' ?s = Some (length pid)" using index_of_append [OF assms(1), of "comm @ '') '' @ join_words ws"] by simp
  have "CHR '')'' \<notin> set (CHR '' '' # join_words ws)" using assms(3) by simp
  from last_index_of_append [OF this, of "pid @ ''('' @ comm"]
  have right: "last_index_of CHR '')'' ?s = Some (length pid + 1 + length comm)" by simp
  have "drop (length pid + 1 + length comm + 1) ?s = CHR '' '' # join_words ws" by simp
  then have "Fields (drop (length pid + 1 + length comm + 1) ?s) = ws"
    using Fields_space [OF is_space_blank] Fields_join_words [OF assms(2)] by simp
  with left right assms(4) show ?thesis by (simp add: parseStartTime_def startTimeIndex_def)
qed

definition example_stat_fields :: "string list" where
  "example_stat_fields = ''S'' # replicate 18 ''0'' @ [''4711'']"

theorem start_time_unforgeable_witness:
  "parseStartTime (''42 '' @ ''('' @ ''evil) S 1 (x'' @ '') '' @ join_words example_stat_fields) = Inr 4711"
proof -
  have "CHR ''('' \<notin> set ''42 ''" "list_all word_ok example_stat_fields" "CHR '')'' \<notin> set (join_words example_stat_fields)"
    "19 < length example_stat_fields" by code_simp+
  from start_time_unforgeable [OF this, of "''evil) S 1 (x''"]
  have "parseStartTime (''42 '' @ ''('' @ ''evil) S 1 (x'' @ '') '' @ join_words example_stat_fields) =
    (case ParseUint (example_stat_fields ! 19) of None \<Rightarrow> Inl ''invalid start time'' | Some t \<Rightarrow> Inr t)" .
  moreover have "ParseUint (example_stat_fields ! 19) = Some 4711" by code_simp
  ultimately show ?thesis by simp
qed

text \<open>
  what is reported of a process belongs to one process. When the reader answers, the number is the
  requested one and the start time was the same before and after the other files were read.
\<close>

lemma Info_one_process:
  assumes "FSReader_Info root files pid = Inr info"
  shows "pi_PID info = pid \<and> readStartTime (pf_stat files) = Inr (pi_StartTime info) \<and>
    readStartTime (pf_statAgain files) = Inr (pi_StartTime info)"
  using assms by (auto simp: FSReader_Info_def Let_def split: sum.splits if_splits)

section \<open>What a container identity is\<close>

lemma docker_cgroup_hex: "docker_cgroup p = Some ident \<Longrightarrow> hex64 ident"
  by (auto simp: docker_cgroup_def hex_then_def Let_def split: if_splits)

lemma container_element_hex: "container_element e = Some ident \<Longrightarrow> hex64 ident"
  by (auto simp: container_element_def Let_def split: if_splits)

lemma pod_child_split:
  "pod_child es = Some ident \<Longrightarrow> \<exists>pre e c post. es = pre @ e # c # post \<and> pod_element e \<and> container_element c = Some ident \<and>
     pod_child (pre @ [e]) = None"
proof (induction es rule: pod_child.induct)
  case (1 e c es)
  show ?case
  proof (cases "pod_element e \<and> container_element c \<noteq> None")
    case True
    with 1 show ?thesis by (intro exI [of _ "[]"] exI [of _ e] exI [of _ c] exI [of _ es]) auto
  next
    case False
    with 1 obtain pre e' c' post where IH: "c # es = pre @ e' # c' # post" "pod_element e'" "container_element c' = Some ident"
      "pod_child (pre @ [e']) = None" by auto
    moreover have "pod_child ((e # pre) @ [e']) = None"
      using False IH by (cases pre) auto
    ultimately show ?thesis by (metis append_Cons)
  qed
qed auto

lemma is_hex_char_lower: "is_hex_char c \<Longrightarrow> is_hex_char (lower_char c)"
  by (auto simp: is_hex_char_def lower_char_def Let_def)

lemma hex64_ToLower: "hex64 s \<Longrightarrow> hex64 (ToLower s)"
  by (auto simp: hex64_def ToLower_def list_all_iff is_hex_char_lower)

lemma extract_lines_origin:
  "extract_lines ls \<noteq> [] \<Longrightarrow> \<exists>l \<in> set ls. \<exists>ident. line_container l = Some ident \<and> extract_lines ls = ToLower ident"
  by (induction ls) (auto split: option.splits)

text \<open>The path of a line of the control group file, and what makes a path name a container.\<close>

definition line_path :: "string \<Rightarrow> string \<Rightarrow> bool" where
  "line_path line path \<longleftrightarrow> (\<exists>h c h'. cut CHR '':'' line = (h, Some c) \<and> cut CHR '':'' c = (h', Some path))"

definition names_container :: "string \<Rightarrow> string \<Rightarrow> bool" where
  "names_container path ident \<longleftrightarrow> docker_cgroup path = Some ident \<or> prefix ''/kubepods'' path \<and>
     (\<exists>pre pod child post. tl (Split slash path) = pre @ pod # child # post \<and> pod_element pod \<and>
        container_element child = Some ident \<and> pod_child (pre @ [pod]) = None)"

lemma line_container_names:
  assumes "line_container l = Some ident"
  shows "\<exists>path. line_path l path \<and> names_container (TrimSpace path) ident"
proof -
  from assms obtain h c h' path where p: "cut CHR '':'' l = (h, Some c)" "cut CHR '':'' c = (h', Some path)"
    "docker_cgroup (TrimSpace path) = Some ident \<or> prefix ''/kubepods'' (TrimSpace path) \<and> k8s_pod_child (TrimSpace path) = Some ident"
    by (auto simp: line_container_def Let_def split: prod.splits option.splits if_splits)
  from p(3) have "names_container (TrimSpace path) ident"
  proof
    assume "prefix ''/kubepods'' (TrimSpace path) \<and> k8s_pod_child (TrimSpace path) = Some ident"
    with pod_child_split [of "tl (Split slash (TrimSpace path))" ident] show ?thesis
      by (simp add: names_container_def k8s_pod_child_def)
  qed (simp add: names_container_def)
  with p(1,2) show ?thesis by (auto simp: line_path_def)
qed

lemma names_container_hex: "names_container path ident \<Longrightarrow> hex64 ident"
  using docker_cgroup_hex container_element_hex by (auto simp: names_container_def)

text \<open>
  a container identity is 64 lower case hexadecimal digits that a line of the control group file
  names: either the path is a Docker one, or it is below \<open>/kubepods\<close> and the digits are those of the
  leftmost element that names a container directly below a pod element. In every other case the
  process has no container identity.
\<close>

theorem container_id_origin:
  assumes "ExtractContainerID cgroup \<noteq> []"
  shows "hex64 (ExtractContainerID cgroup) \<and> ToLower (ExtractContainerID cgroup) = ExtractContainerID cgroup \<and>
    (\<exists>line \<in> set (Split newline_char cgroup). \<exists>path ident. line_path line path \<and> names_container (TrimSpace path) ident \<and>
       ExtractContainerID cgroup = ToLower ident)"
proof -
  from assms extract_lines_origin obtain l ident where l: "l \<in> set (Split newline_char cgroup)" "line_container l = Some ident"
    "ExtractContainerID cgroup = ToLower ident" unfolding ExtractContainerID_def by blast
  from line_container_names [OF l(2)] obtain path where p: "line_path l path" "names_container (TrimSpace path) ident" by blast
  have "hex64 (ExtractContainerID cgroup)" "ToLower (ExtractContainerID cgroup) = ExtractContainerID cgroup"
    using names_container_hex [OF p(2)] hex64_ToLower l(3) by simp_all
  with l p show ?thesis by blast
qed

definition example_container :: string where "example_container = replicate 64 CHR ''a''"

theorem container_id_origin_witness:
  "hex64 (ExtractContainerID (''0::/docker/'' @ example_container))"
proof -
  have "ExtractContainerID (''0::/docker/'' @ example_container) \<noteq> []" by code_simp
  then show ?thesis using container_id_origin [of "''0::/docker/'' @ example_container"] by blast
qed

text \<open>
  a workload below a pod whose direct child is not recognised can name its own container identity:
  the search goes on below that child, in the part of the tree that is delegated to the workload.
\<close>

theorem delegated_descendant_trusted:
  "ExtractContainerID (''0::/kubepods/pod1/workload/pod2/'' @ example_container) = example_container \<and>
   ExtractContainerID ''0::/kubepods/pod1/workload'' = []"
proof
  show "ExtractContainerID (''0::/kubepods/pod1/workload/pod2/'' @ example_container) = example_container" by code_simp
  show "ExtractContainerID ''0::/kubepods/pod1/workload'' = []" by code_simp
qed

section \<open>The cache is bounded\<close>

lemma evict_until_bound:
  "set (map fst entries) \<subseteq> set order \<Longrightarrow> distinct (map fst entries) \<Longrightarrow> length (evict_until order entries) < 4096"
proof (induction order arbitrary: entries)
  case (Cons k ks)
  have "set (map fst (filter (\<lambda>e. fst e \<noteq> k) entries)) \<subseteq> set ks" using Cons.prems(1) by auto
  moreover have "distinct (map fst (filter (\<lambda>e. fst e \<noteq> k) entries))" using Cons.prems(2) by (simp add: distinct_map_filter)
  ultimately show ?case using Cons.IH by auto
qed simp

text \<open>The cache of user names never holds more than 4096 entries, one for each user.\<close>

lemma LookupUsername_bounded:
  assumes "distinct (map fst entries)" "length entries \<le> 4096"
    "set order = set (map fst (filter (\<lambda>e. now < uc_expiresAt (snd e)) entries))"
  shows "length (fst (LookupUsername now looked order uid entries)) \<le> 4096 \<and>
    distinct (map fst (fst (LookupUsername now looked order uid entries)))"
proof -
  let ?live = "filter (\<lambda>e. now < uc_expiresAt (snd e)) entries"
  define kept where "kept = (if length entries \<ge> 4096 then evict_until order ?live else entries)"
  have d: "distinct (map fst ?live)" using assms(1) by (simp add: distinct_map_filter)
  have sub: "distinct (map fst xs) \<Longrightarrow> distinct (map fst (evict_until ks xs))" for ks and xs :: "(int \<times> usernameCacheEntry) list"
    by (induction ks arbitrary: xs) (auto simp: distinct_map_filter)
  have kept: "length kept < 4096" "distinct (map fst kept)"
    using evict_until_bound [of ?live order] assms d sub by (auto simp: kept_def)
  have "refresh_user now looked order uid entries = (let name = (case looked of Found n \<Rightarrow> n | _ \<Rightarrow> []);
      err = (case looked of LookupFailed e \<Rightarrow> Some e | _ \<Rightarrow> None) in
    ((uid, \<lparr>uc_name = name, uc_err = err, uc_expiresAt = now + (if err = None then 300 * second else 5 * second)\<rparr>) #
       filter (\<lambda>e. fst e \<noteq> uid) kept, name, err))"
    by (simp add: refresh_user_def kept_def Let_def)
  moreover have "length (filter (\<lambda>e. fst e \<noteq> uid) kept) < 4096" using kept(1) length_filter_le le_less_trans by blast
  moreover have "distinct (map fst (filter (\<lambda>e. fst e \<noteq> uid) kept))" using kept(2) by (simp add: distinct_map_filter)
  ultimately have "length (fst (refresh_user now looked order uid entries)) \<le> 4096 \<and>
      distinct (map fst (fst (refresh_user now looked order uid entries)))" by (auto simp: Let_def)
  with assms show ?thesis by (auto simp: LookupUsername_def split: option.splits)
qed

section \<open>The cache of user names stays bounded\<close>

lemma evict_until_length:
  assumes "distinct (map fst entries)" "fst ` set entries \<subseteq> set order"
  shows "length (evict_until order entries) = min (length entries) 4095 \<and> distinct (map fst (evict_until order entries))"
  using assms
proof (induction order entries rule: evict_until.induct)
  case (2 k ks entries)
  let ?rest = "filter (\<lambda>e. fst e \<noteq> k) entries"
  have d: "distinct (map fst ?rest)" "fst ` set ?rest \<subseteq> set ks" using 2(2,3) by (auto simp: distinct_map_filter)
  have c: "card (fst ` set xs) = length xs" if "distinct (map fst xs)" for xs :: "(int \<times> usernameCacheEntry) list"
    using distinct_card [OF that] by simp
  have "fst ` set ?rest = fst ` set entries - {k}" by auto
  then have "length ?rest = card (fst ` set entries - {k})" using c [OF d(1)] by simp
  then have l: "length ?rest = length entries - (if k \<in> fst ` set entries then 1 else 0)"
    using c [OF 2(2)] by (simp add: card_Diff_singleton)
  show ?case
  proof (cases "length entries \<ge> 4096")
    case True
    with 2(1) [OF True d] l show ?thesis by (auto split: if_splits)
  qed (use 2 in simp)
qed simp

text \<open>
  C39: The eviction of \<open>LookupUsername\<close> comes to an end for every order in which the table is walked, and the
  table never has more than 4096 entries, one for each user at most.
\<close>

theorem username_cache_bounded:
  assumes "distinct (map fst entries)" "length entries \<le> 4096" "fst ` set entries \<subseteq> set order"
    and "LookupUsername now looked order uid entries = (entries', name, err)"
  shows "length entries' \<le> 4096 \<and> distinct (map fst entries')"
proof -
  let ?live = "filter (\<lambda>e. now < uc_expiresAt (snd e)) entries"
  let ?kept = "if length entries \<ge> 4096 then evict_until order ?live else entries"
  have "distinct (map fst ?live)" "fst ` set ?live \<subseteq> set order" using assms(1,3) by (auto simp: distinct_map_filter)
  from evict_until_length [OF this] have k: "length ?kept \<le> 4095" "distinct (map fst ?kept)" using assms(1) by auto
  have "length (filter (\<lambda>e. fst e \<noteq> uid) ?kept) \<le> 4095" using k(1) length_filter_le order.trans by blast
  moreover have "distinct (map fst (filter (\<lambda>e. fst e \<noteq> uid) ?kept))" using k(2) by (simp add: distinct_map_filter)
  ultimately have "length (fst (refresh_user now looked order uid entries)) \<le> 4096 \<and> distinct (map fst (fst (refresh_user now looked order uid entries)))"
    unfolding refresh_user_def Let_def by auto
  with assms show ?thesis by (auto simp: LookupUsername_def split: if_splits option.splits)
qed

theorem username_cache_bounded_witness:
  "let entries = [(5, \<lparr>uc_name = ''eve'', uc_err = None, uc_expiresAt = 9\<rparr>)];
       entries' = fst (LookupUsername 7 (Found ''ada'') [5] 1000 entries) in
   map fst entries' = [1000, 5] \<and> length entries' \<le> 4096"
proof -
  let ?entries = "[(5 :: int, \<lparr>uc_name = ''eve'', uc_err = None, uc_expiresAt = 9\<rparr>)]"
  have l: "LookupUsername 7 (Found ''ada'') [5] 1000 ?entries =
      ((1000, \<lparr>uc_name = ''ada'', uc_err = None, uc_expiresAt = 7 + 300 * second\<rparr>) # ?entries, ''ada'', None)"
    by (simp add: LookupUsername_def refresh_user_def Let_def)
  from username_cache_bounded [OF _ _ _ l] have "length (fst (LookupUsername 7 (Found ''ada'') [5] 1000 ?entries)) \<le> 4096" by (simp add: l)
  with l show ?thesis by (simp add: Let_def)
qed

end
