(* ===== verification/Base64.thy ===== *)
theory Base64
  imports Prelude
begin

text \<open>
  \<open>encoding/base64\<close> without padding, in the standard and in the URL alphabet, as the gateway uses it
  for encrypted keys, access tokens and session cookies. The decoder skips line breaks and ignores
  the bits a last incomplete group leaves over, as Go's does.
\<close>

section \<open>Alphabets\<close>

definition base64_letters :: string where
  "base64_letters = ''ABCDEFGHIJKLMNOPQRSTUVWXYZabcdefghijklmnopqrstuvwxyz0123456789''"

definition std_alphabet :: string where
  "std_alphabet = base64_letters @ ''+/''"

definition url_alphabet :: string where
  "url_alphabet = base64_letters @ ''-_''"

definition alphabet_ok :: "string \<Rightarrow> bool" where
  "alphabet_ok al \<longleftrightarrow> length al = 64 \<and> distinct al \<and> CHR 0x0A \<notin> set al \<and> CHR 0x0D \<notin> set al"

lemma std_alphabet_ok [simp]: "alphabet_ok std_alphabet"
  by code_simp

lemma url_alphabet_ok [simp]: "alphabet_ok url_alphabet"
  by code_simp

definition sextet :: "string \<Rightarrow> char \<Rightarrow> nat option" where
  "sextet al c = (let k = length (takeWhile (\<lambda>x. x \<noteq> c) al) in if k < length al then Some k else None)"

lemma length_takeWhile_nth:
  "distinct al \<Longrightarrow> i < length al \<Longrightarrow> length (takeWhile (\<lambda>x. x \<noteq> al ! i) al) = i"
proof (induction al arbitrary: i)
  case (Cons a al)
  show ?case
  proof (cases i)
    case (Suc j)
    with Cons.prems have "al ! j \<in> set al" "a \<noteq> al ! j" by auto
    with Cons Suc show ?thesis by simp
  qed simp
qed simp

lemma sextet_nth: "alphabet_ok al \<Longrightarrow> i < 64 \<Longrightarrow> sextet al (al ! i) = Some i"
  by (simp add: sextet_def alphabet_ok_def length_takeWhile_nth)

section \<open>Encoding and decoding\<close>

fun base64_sextets :: "nat list \<Rightarrow> nat list" where
  "base64_sextets (a # b # c # s) = (let n = a * 65536 + b * 256 + c in
     n div 262144 # n div 4096 mod 64 # n div 64 mod 64 # n mod 64 # base64_sextets s)"
| "base64_sextets [a, b] = (let n = a * 1024 + b * 4 in [n div 4096, n div 64 mod 64, n mod 64])"
| "base64_sextets [a] = (let n = a * 16 in [n div 64, n mod 64])"
| "base64_sextets [] = []"

fun base64_bytes :: "nat list \<Rightarrow> nat list option" where
  "base64_bytes (p # q # r # s # rest) = (let n = p * 262144 + q * 4096 + r * 64 + s in
     map_option (\<lambda>bs. n div 65536 # n div 256 mod 256 # n mod 256 # bs) (base64_bytes rest))"
| "base64_bytes [p, q, r] = (let n = p * 4096 + q * 64 + r in Some [n div 1024, n div 4 mod 256])"
| "base64_bytes [p, q] = Some [(p * 64 + q) div 16]"
| "base64_bytes [p] = None"
| "base64_bytes [] = Some []"

definition base64_EncodeToString :: "string \<Rightarrow> string \<Rightarrow> string" where
  "base64_EncodeToString al s = map (\<lambda>i. al ! i) (base64_sextets (map of_char s))"

definition base64_DecodeString :: "string \<Rightarrow> string \<Rightarrow> string option" where
  "base64_DecodeString al s =
     (let ks = map (sextet al) (filter (\<lambda>c. c \<noteq> CHR 0x0A \<and> c \<noteq> CHR 0x0D) s) in
      if None \<in> set ks then None else map_option (map char_of) (base64_bytes (map the ks)))"

section \<open>The round trip\<close>

lemma regroup4: "n div 262144 * 262144 + n div 4096 mod 64 * 4096 + n div 64 mod 64 * 64 + n mod 64 = (n :: nat)"
proof -
  have "n = n div 64 * 64 + n mod 64" by simp
  moreover have "n div 64 = n div 64 div 64 * 64 + n div 64 mod 64" by simp
  moreover have "n div 64 div 64 = n div 64 div 64 div 64 * 64 + n div 64 div 64 mod 64" by simp
  moreover have e: "n div 64 div 64 = n div 4096" "n div 64 div 64 div 64 = n div 262144" by (simp_all add: div_mult2_eq [symmetric])
  ultimately show ?thesis unfolding e by linarith
qed

lemma regroup3: "n div 4096 * 4096 + n div 64 mod 64 * 64 + n mod 64 = (n :: nat)"
proof -
  have "n = n div 64 * 64 + n mod 64" by simp
  moreover have "n div 64 = n div 64 div 64 * 64 + n div 64 mod 64" by simp
  moreover have "n div 64 div 64 = n div 4096" by (simp add: div_mult2_eq [symmetric])
  ultimately show ?thesis by linarith
qed

lemma ungroup3:
  assumes "b < 256" "c < (256 :: nat)"
  shows "(a * 65536 + b * 256 + c) div 65536 = a" "(a * 65536 + b * 256 + c) div 256 mod 256 = b"
    "(a * 65536 + b * 256 + c) mod 256 = c"
proof -
  have "(a * 65536 + b * 256 + c) div 256 = (c + (a * 256 + b) * 256) div 256" by simp
  also have "\<dots> = a * 256 + b" using assms(2) by (subst div_mult_self1) simp_all
  finally have d: "(a * 65536 + b * 256 + c) div 256 = a * 256 + b" .
  then show "(a * 65536 + b * 256 + c) div 256 mod 256 = b" using assms(1) by simp
  have "(a * 65536 + b * 256 + c) div 65536 = (a * 65536 + b * 256 + c) div 256 div 256" by (simp add: div_mult2_eq [symmetric])
  then show "(a * 65536 + b * 256 + c) div 65536 = a" using d assms(1) by simp
  have "a * 65536 + b * 256 + c = c + (a * 256 + b) * 256" by (simp add: algebra_simps)
  then show "(a * 65536 + b * 256 + c) mod 256 = c" using assms(2) by (simp only: mod_mult_self1) simp
qed

lemma base64_bytes_sextets: "list_all (\<lambda>b. b < 256) bs \<Longrightarrow> base64_bytes (base64_sextets bs) = Some bs"
proof (induction bs rule: base64_sextets.induct)
  case (1 a b c s)
  then show ?case by (simp add: Let_def regroup4 ungroup3 del: mult_Suc)
next
  case (2 a b)
  let ?n = "a * 1024 + b * 4"
  have "?n div 4 = b + a * 256" "?n div 1024 = ?n div 4 div 256" by (simp_all add: div_mult2_eq [symmetric])
  moreover have "(b + a * 256) div 256 = a" using 2 by (subst div_mult_self1) simp_all
  ultimately show ?case using 2 by (simp add: Let_def regroup3 del: div_mult_self1 div_mult_self2 div_mult_self3 div_mult_self4)
next
  case (3 a)
  have "a * 16 div 64 * 64 + a * 16 mod 64 = a * 16" by (rule div_mult_mod_eq)
  then show ?case by (simp add: Let_def)
qed simp_all

lemma base64_sextets_small: "list_all (\<lambda>b. b < 256) bs \<Longrightarrow> list_all (\<lambda>k. k < 64) (base64_sextets bs)"
proof (induction bs rule: base64_sextets.induct)
  case (1 a b c s)
  then have "(a * 65536 + b * 256 + c) div 262144 < 64" by (intro less_mult_imp_div_less) simp
  with 1 show ?case by (simp add: Let_def)
qed (auto simp: Let_def)

lemma base64_Decode_Encode:
  assumes "alphabet_ok al"
  shows "base64_DecodeString al (base64_EncodeToString al s) = Some s"
proof -
  let ?bs = "map of_char s :: nat list"
  have b: "list_all (\<lambda>b. b < 256) ?bs" by (auto simp: list_all_iff)
  have k: "list_all (\<lambda>k. k < 64) (base64_sextets ?bs)" by (rule base64_sextets_small [OF b])
  have "filter (\<lambda>c. c \<noteq> CHR 0x0A \<and> c \<noteq> CHR 0x0D) (base64_EncodeToString al s) = base64_EncodeToString al s"
    using assms k by (fastforce simp: base64_EncodeToString_def list_all_iff alphabet_ok_def intro!: filter_True)
  moreover have "map (sextet al) (base64_EncodeToString al s) = map Some (base64_sextets ?bs)"
    using assms k by (auto simp: base64_EncodeToString_def list_all_iff sextet_nth)
  moreover have "map char_of ?bs = s" by (simp add: map_idI)
  ultimately show ?thesis using base64_bytes_sextets [OF b] by (simp add: base64_DecodeString_def comp_def image_iff)
qed

lemma base64_alphabet: "alphabet_ok al \<Longrightarrow> set (base64_EncodeToString al s) \<subseteq> set al"
proof -
  assume "alphabet_ok al"
  moreover have "list_all (\<lambda>k. k < 64) (base64_sextets (map of_char s))"
    by (rule base64_sextets_small) (auto simp: list_all_iff)
  ultimately show ?thesis by (auto simp: base64_EncodeToString_def list_all_iff alphabet_ok_def)
qed

end
