(* ===== verification/Web_Base.thy ===== *)
theory Web_Base
  imports Go_Text Utf8 Base64
begin

text \<open>
  The ground of the gateway's account store (\<open>internal/web/users.go\<close>, \<open>access_tokens.go\<close>,
  \<open>secret.go\<close>): the records it persists, the private files it keeps them in, and the environment it
  runs in. Hashes, the message authentication code, the authenticated cipher and the JSON codec are
  parameters; every system call that can fail has its error in the environment.
\<close>

section \<open>Records\<close>

datatype web_error =
    WErr string
  | ErrPasswordWorkBusy
  | ErrUsernameInUse
  | ErrUserLimitReached
  | ErrCanceled
  | ErrNotExist

record AccessTokenRecord =
  at_ID :: string
  at_Name :: string
  at_Hash :: string
  at_Scopes :: "string list"
  at_CreatedAt :: time
  at_ExpiresAt :: time
  at_LastUsedAt :: "time option"
  at_RevokedAt :: "time option"

record UserRecord =
  u_Username :: string
  u_Role :: string
  u_PasswordHash :: string
  u_KeyID :: string
  u_KeyHash :: string
  u_KeyVersion :: int
  u_KeyCipher :: string
  u_KeyCreatedAt :: time
  u_AccessTokens :: "AccessTokenRecord list"
  u_LegacyAccessTokens :: "AccessTokenRecord list"
  u_CreatedAt :: time
  u_UpdatedAt :: time
  u_Disabled :: bool

abbreviation RoleAdmin :: string where "RoleAdmin \<equiv> ''admin''"
abbreviation RoleUser :: string where "RoleUser \<equiv> ''user''"

section \<open>The environment\<close>

record PrivateFile =
  vf_Regular :: bool
  vf_Perm :: nat
  vf_Data :: string

text \<open>
  The cryptographic primitives. \<open>cr_seal key nonce plain aad\<close> and \<open>cr_open key nonce sealed aad\<close> are
  AES-GCM with the 12 byte nonces of \<open>cipher.NewGCM\<close>.
\<close>

record Crypto =
  cr_sha256 :: "string \<Rightarrow> string"
  cr_hmac :: "string \<Rightarrow> string \<Rightarrow> string"
  cr_seal :: "string \<Rightarrow> string \<Rightarrow> string \<Rightarrow> string \<Rightarrow> string"
  cr_open :: "string \<Rightarrow> string \<Rightarrow> string \<Rightarrow> string \<Rightarrow> string option"

text \<open>
  What one operation meets: the clock, the answers of the random source in the order of the reads,
  the codec of the users file, and the errors of the system calls. \<open>we_workErr\<close> is the outcome of
  the wait for a password slot.
\<close>

record WebEnv =
  we_crypto :: Crypto
  we_now :: time
  we_rand :: "nat \<Rightarrow> nat \<Rightarrow> web_error + string"
  we_Marshal :: "UserRecord list \<Rightarrow> web_error + string"
  we_Unmarshal :: "string \<Rightarrow> web_error + UserRecord list"
  we_openErr :: "web_error option"
  we_statErr :: "web_error option"
  we_readErr :: "web_error option"
  we_mkdirErr :: "web_error option"
  we_createErr :: "web_error option"
  we_chmodErr :: "web_error option"
  we_writeErr :: "web_error option"
  we_fsyncErr :: "web_error option"
  we_closeErr :: "web_error option"
  we_renameErr :: "web_error option"
  we_dirOpenErr :: "web_error option"
  we_dirSyncErr :: "web_error option"
  we_workErr :: "web_error option"

section \<open>Private files\<close>

text \<open>
  \<open>readPrivateFile\<close>: no link is followed, only a regular file with no permission for the group or
  others is read, and no more than \<open>limit\<close> bytes of it.
\<close>

definition readPrivateFile :: "WebEnv \<Rightarrow> string \<Rightarrow> nat \<Rightarrow> PrivateFile option \<Rightarrow> web_error + string" where
  "readPrivateFile env description limit file =
     (case we_openErr env of Some e \<Rightarrow> Inl e
      | None \<Rightarrow> (case file of None \<Rightarrow> Inl ErrNotExist
        | Some f \<Rightarrow>
          (case we_statErr env of Some e \<Rightarrow> Inl e
           | None \<Rightarrow>
             if \<not> vf_Regular f then Inl (WErr (description @ '' must be a regular file''))
             else if vf_Perm f mod 64 \<noteq> 0
               then Inl (WErr (description @ '' permissions must not allow group or other access''))
             else case we_readErr env of Some e \<Rightarrow> Inl e
             | None \<Rightarrow> let data = take (Suc limit) (vf_Data f) in
                 if length data > limit then Inl (WErr (description @ '' exceeds the limit'')) else Inr data)))"

text \<open>
  \<open>writePrivateFile\<close> writes a temporary file and renames it: the result is the file afterwards, whether
  the rename took place, and the error. The temporary file is removed on every path.
\<close>

definition writePrivateFile ::
  "WebEnv \<Rightarrow> string \<Rightarrow> PrivateFile option \<Rightarrow> PrivateFile option \<times> bool \<times> web_error option" where
  "writePrivateFile env data file =
     (case first_error [we_mkdirErr env, we_createErr env, we_chmodErr env, we_writeErr env,
        we_fsyncErr env, we_closeErr env, we_renameErr env] of
        Some e \<Rightarrow> (file, False, Some e)
      | None \<Rightarrow> (Some \<lparr>vf_Regular = True, vf_Perm = 384, vf_Data = data\<rparr>, True,
          first_error [we_dirOpenErr env, we_dirSyncErr env]))"

lemma writePrivateFile_cases:
  "writePrivateFile env data file = (file, False, e) \<and> e \<noteq> None \<or>
   writePrivateFile env data file = (Some \<lparr>vf_Regular = True, vf_Perm = 384, vf_Data = data\<rparr>, True, e)"
  if "snd (snd (writePrivateFile env data file)) = e"
  using that by (auto simp: writePrivateFile_def split: option.splits)

text \<open>What was written is read back, when it is within the limit.\<close>

lemma read_written:
  assumes "we_openErr env = None" "we_statErr env = None" "we_readErr env = None"
    and "writePrivateFile env' data file = (file', True, e)"
  shows "readPrivateFile env description limit file' =
    (if length data > limit then Inl (WErr (description @ '' exceeds the limit'')) else Inr data)"
  using assms by (auto simp: readPrivateFile_def writePrivateFile_def Let_def split: option.splits)

section \<open>The key of the sessions and of the user keys\<close>

definition readSessionKey :: "WebEnv \<Rightarrow> PrivateFile option \<Rightarrow> web_error + string" where
  "readSessionKey env file = (case readPrivateFile env ''web session key'' 65 file of Inl e \<Rightarrow> Inl e
     | Inr data \<Rightarrow> (case hex_DecodeString (TrimSpace data) of
         Some key \<Rightarrow> if length key = 32 then Inr key else Inl (WErr ''web session key must contain exactly 32 random bytes encoded as hex'')
       | None \<Rightarrow> Inl (WErr ''web session key must contain exactly 32 random bytes encoded as hex'')))"

definition randomSessionKey :: "WebEnv \<Rightarrow> web_error + string" where
  "randomSessionKey env = we_rand env 0 32"

text \<open>
  \<open>loadOrCreateSessionKey\<close>: a missing file is created by a hard link to a complete temporary file, so
  that of two racing processes the second reads the key of the first. \<open>rival\<close> is the file another
  process made after the first read; \<open>we_renameErr\<close> is any other error of the link.
\<close>

definition loadOrCreateSessionKey ::
  "WebEnv \<Rightarrow> string \<Rightarrow> PrivateFile option \<Rightarrow> PrivateFile option \<Rightarrow> PrivateFile option \<times> (web_error + string)" where
  "loadOrCreateSessionKey env path rival file =
     (if TrimSpace path = [] then (file, randomSessionKey env)
      else case readSessionKey env file of Inr key \<Rightarrow> (file, Inr key)
      | Inl e \<Rightarrow> if e \<noteq> ErrNotExist then (file, Inl e)
        else case we_mkdirErr env of Some e \<Rightarrow> (file, Inl e)
        | None \<Rightarrow> (case randomSessionKey env of Inl e \<Rightarrow> (file, Inl e)
          | Inr key \<Rightarrow>
            (case first_error [we_createErr env, we_chmodErr env, we_writeErr env, we_fsyncErr env, we_closeErr env] of
               Some e \<Rightarrow> (file, Inl e)
             | None \<Rightarrow> (case rival of Some r \<Rightarrow> (rival, readSessionKey env rival)
               | None \<Rightarrow> (case we_renameErr env of Some e \<Rightarrow> (file, Inl e)
                 | None \<Rightarrow> (Some \<lparr>vf_Regular = True, vf_Perm = 384, vf_Data = hex_EncodeToString key @ [CHR 0x0A]\<rparr>,
                     (case first_error [we_dirOpenErr env, we_dirSyncErr env] of Some e \<Rightarrow> Inl e | None \<Rightarrow> Inr key)))))))"

section \<open>Runes\<close>

text \<open>The runes of a text as byte sequences; an invalid byte stands alone, as \<open>range\<close> reads it.\<close>

function runes :: "string \<Rightarrow> string list" where
  "runes [] = []"
| "runes (c # cs) = (let n = max 1 (rune_len (c # cs)) in take n (c # cs) # runes (drop n (c # cs)))"
  by pat_completeness auto
termination by (relation "measure length") (auto simp: Let_def)

definition is_control_rune :: "string \<Rightarrow> bool" where
  "is_control_rune r \<longleftrightarrow> (case map of_char r :: nat list of
     [b] \<Rightarrow> b < 32 \<or> b = 127
   | [a, b] \<Rightarrow> a = 194 \<and> 128 \<le> b \<and> b \<le> 159
   | _ \<Rightarrow> False)"

definition plain_rune :: "string \<Rightarrow> bool" where
  "plain_rune r \<longleftrightarrow> \<not> is_space_seq r \<and> \<not> is_control_rune r"

section \<open>A quiet gateway\<close>

text \<open>An environment in which no system call fails, for the examples.\<close>

definition quiet_env :: WebEnv where
  "quiet_env = \<lparr>we_crypto = \<lparr>cr_sha256 = (\<lambda>s. s), cr_hmac = (\<lambda>k m. m), cr_seal = (\<lambda>k n p a. p), cr_open = (\<lambda>k n p a. Some p)\<rparr>,
     we_now = 1, we_rand = (\<lambda>k n. Inr (replicate n CHR 0x00)), we_Marshal = (\<lambda>us. Inr ''[]''), we_Unmarshal = (\<lambda>d. Inr []),
     we_openErr = None, we_statErr = None, we_readErr = None, we_mkdirErr = None, we_createErr = None, we_chmodErr = None,
     we_writeErr = None, we_fsyncErr = None, we_closeErr = None, we_renameErr = None, we_dirOpenErr = None, we_dirSyncErr = None,
     we_workErr = None\<rparr>"

end
