(* ===== verification/Web_Throttle.thy ===== *)
theory Web_Throttle
  imports Web_Base "HOL-Library.AList"
begin

text \<open>
  The attempt limits of the gateway (\<open>internal/web/session.go\<close>): a table of counters with a window of
  one minute each, for logins by address and account, by address, by account, for registrations and
  for password changes. An attempt is counted before the password is checked and taken back when the
  check succeeded or could not run.
\<close>

section \<open>The table\<close>

record loginAttempt =
  la_Failures :: int
  la_ResetAt :: time

type_synonym attempts = "(string \<times> loginAttempt) list"

definition loginWindow :: duration where "loginWindow = 60 * second"
definition maxLoginAttemptKeys :: nat where "maxLoginAttemptKeys = 4096"

definition zero_attempt :: loginAttempt where
  "zero_attempt = \<lparr>la_Failures = 0, la_ResetAt = 0\<rparr>"

definition attempt_of :: "attempts \<Rightarrow> string \<Rightarrow> loginAttempt" where
  "attempt_of table k = (case map_of table k of Some a \<Rightarrow> a | None \<Rightarrow> zero_attempt)"

definition expire_attempt :: "time \<Rightarrow> string \<Rightarrow> attempts \<Rightarrow> attempts" where
  "expire_attempt now k table = (let a = attempt_of table k in
     if \<not> time_IsZero (la_ResetAt a) \<and> \<not> now < la_ResetAt a then AList.delete k table else table)"

definition bump_attempt :: "time \<Rightarrow> string \<Rightarrow> attempts \<Rightarrow> attempts" where
  "bump_attempt now k table = (let a = attempt_of table k in
     AList.update k \<lparr>la_Failures = la_Failures a + 1,
       la_ResetAt = (if time_IsZero (la_ResetAt a) then now + loginWindow else la_ResetAt a)\<rparr> table)"

definition ensureAttemptCapacityLocked :: "time \<Rightarrow> nat \<Rightarrow> attempts \<Rightarrow> attempts \<times> bool" where
  "ensureAttemptCapacityLocked now newKeys table =
     (if length table + newKeys \<le> maxLoginAttemptKeys then (table, True)
      else let table' = filter (\<lambda>e. now < la_ResetAt (snd e)) table in
        (table', length table' + newKeys \<le> maxLoginAttemptKeys))"

section \<open>Reserving and releasing\<close>

definition retry_of :: "time \<Rightarrow> attempts \<Rightarrow> string \<times> int \<Rightarrow> duration" where
  "retry_of now table = (\<lambda>(k, limit). if la_Failures (attempt_of table k) \<ge> limit then time_Sub (la_ResetAt (attempt_of table k)) now else 0)"

text \<open>
  The common body of \<open>reserveLoginAttempt\<close> and \<open>reserveRegistrationAttempt\<close>: drop the expired counters
  of the keys, refuse when one of them is at its limit, make room, and count the attempt on every
  key. The result is \<open>None\<close> when the attempt is allowed and the time to wait otherwise.
\<close>

definition reserve_keys :: "(string \<times> int) list \<Rightarrow> time \<Rightarrow> attempts \<Rightarrow> attempts \<times> duration option" where
  "reserve_keys kls now table0 =
     (let table = fold (expire_attempt now) (map fst kls) table0;
          retryAfter = fold max (map (retry_of now table) kls) 0 in
      if retryAfter > 0 then (table, Some retryAfter)
      else case ensureAttemptCapacityLocked now (length (filter (\<lambda>(k, _). map_of table k = None) kls)) table of
        (table, False) \<Rightarrow> (table, Some loginWindow)
      | (table, True) \<Rightarrow> (fold (bump_attempt now) (map fst kls) table, None))"

definition reserveLoginAttempt :: "string \<Rightarrow> string \<Rightarrow> string \<Rightarrow> time \<Rightarrow> attempts \<Rightarrow> attempts \<times> duration option" where
  "reserveLoginAttempt userKey ipKey accountKey now table = reserve_keys [(userKey, 5), (ipKey, 50), (accountKey, 10)] now table"

definition registrationGlobalAttemptKey :: string where
  "registrationGlobalAttemptKey = ''registration:global''"

definition reserveRegistrationAttempt :: "string \<Rightarrow> time \<Rightarrow> attempts \<Rightarrow> attempts \<times> duration option" where
  "reserveRegistrationAttempt ipKey now table = reserve_keys [(ipKey, 5), (registrationGlobalAttemptKey, 20)] now table"

definition reserveSingleAttempt :: "string \<Rightarrow> time \<Rightarrow> int \<Rightarrow> attempts \<Rightarrow> attempts \<times> duration option" where
  "reserveSingleAttempt key now limit table0 =
     (let table = expire_attempt now key table0; a = attempt_of table key in
      if la_Failures a \<ge> limit then (table, Some (time_Sub (la_ResetAt a) now))
      else case ensureAttemptCapacityLocked now (if time_IsZero (la_ResetAt a) then 1 else 0) table of
        (table, False) \<Rightarrow> (table, Some loginWindow)
      | (table, True) \<Rightarrow> (AList.update key \<lparr>la_Failures = la_Failures a + 1,
          la_ResetAt = (if time_IsZero (la_ResetAt a) then now + loginWindow else la_ResetAt a)\<rparr> table, None))"

definition release_key :: "string \<Rightarrow> attempts \<Rightarrow> attempts" where
  "release_key k table = (case map_of table k of None \<Rightarrow> table
     | Some a \<Rightarrow> if la_Failures a - 1 \<le> 0 then AList.delete k table
         else AList.update k (a\<lparr>la_Failures := la_Failures a - 1\<rparr>) table)"

definition releaseLoginReservation :: "string list \<Rightarrow> attempts \<Rightarrow> attempts" where
  "releaseLoginReservation keys table = fold release_key keys table"

section \<open>The keys of an attempt\<close>

definition login_digest :: "Crypto \<Rightarrow> string \<Rightarrow> string" where
  "login_digest cr username = base64_EncodeToString url_alphabet (cr_sha256 cr (ToLower (TrimSpace username)))"

definition loginAttemptKeyForIP :: "Crypto \<Rightarrow> string \<Rightarrow> string \<Rightarrow> string" where
  "loginAttemptKeyForIP cr ipKey username = ipKey @ '':user:'' @ login_digest cr username"

definition loginUsernameAttemptKey :: "Crypto \<Rightarrow> string \<Rightarrow> string" where
  "loginUsernameAttemptKey cr username = ''login:user:'' @ login_digest cr username"

definition registrationAttemptKeyForIP :: "string \<Rightarrow> string" where
  "registrationAttemptKeyForIP ipKey = ''registration:'' @ ipKey"

definition passwordChangeAttemptKey :: "Crypto \<Rightarrow> string \<Rightarrow> string" where
  "passwordChangeAttemptKey cr username = ''password:user:'' @ login_digest cr username"

section \<open>Well-formed tables\<close>

text \<open>
  A key has one counter; a counter is at least 1, never above the limit of its key, and its window ends
  at a set instant within a minute of the clock.
\<close>

definition table_ok :: "(string \<Rightarrow> int) \<Rightarrow> time \<Rightarrow> attempts \<Rightarrow> bool" where
  "table_ok lim now table \<longleftrightarrow> distinct (map fst table) \<and> length table \<le> maxLoginAttemptKeys \<and>
     (\<forall>(k, a) \<in> set table. 1 \<le> la_Failures a \<and> la_Failures a \<le> lim k \<and> 0 < la_ResetAt a \<and> la_ResetAt a \<le> now + loginWindow)"

lemma table_ok_entry:
  "table_ok lim now table \<Longrightarrow> map_of table k = Some a \<Longrightarrow>
     1 \<le> la_Failures a \<and> la_Failures a \<le> lim k \<and> 0 < la_ResetAt a \<and> la_ResetAt a \<le> now + loginWindow"
  by (fastforce simp: table_ok_def dest: map_of_SomeD)

lemma table_ok_later: "table_ok lim now table \<Longrightarrow> now \<le> later \<Longrightarrow> table_ok lim later table"
  by (fastforce simp: table_ok_def)

lemma distinct_AList_delete: "distinct (map fst xs) \<Longrightarrow> distinct (map fst (AList.delete k xs))"
  by (simp add: AList.distinct_delete)

lemma set_AList_delete: "set (AList.delete k xs) \<subseteq> set xs"
  by (auto simp: AList.delete_eq)

lemma length_AList_delete: "length (AList.delete k xs) \<le> length xs"
  by (simp add: AList.delete_eq)

lemma table_ok_delete: "table_ok lim now table \<Longrightarrow> table_ok lim now (AList.delete k table)"
  using length_AList_delete [of k table] set_AList_delete [of k table]
  by (auto simp: table_ok_def AList.distinct_delete split: prod.splits)

lemma table_ok_filter: "table_ok lim now table \<Longrightarrow> table_ok lim now (filter P table)"
  by (auto simp: table_ok_def distinct_map_filter intro: order_trans [OF length_filter_le])

lemma set_AList_update: "distinct (map fst xs) \<Longrightarrow> (k', v') \<in> set (AList.update k v xs) \<Longrightarrow> (k', v') \<in> set xs \<or> k' = k \<and> v' = v"
  by (induction xs) (auto split: if_splits)

lemma length_AList_update: "length (AList.update k v xs) = (if k \<in> fst ` set xs then length xs else Suc (length xs))"
  by (induction xs) auto

lemma table_ok_update:
  assumes "table_ok lim now table" "1 \<le> la_Failures a" "la_Failures a \<le> lim k" "0 < la_ResetAt a" "la_ResetAt a \<le> now + loginWindow"
    and "map_of table k \<noteq> None \<or> length table < maxLoginAttemptKeys"
  shows "table_ok lim now (AList.update k a table)"
proof -
  have "length (AList.update k a table) \<le> maxLoginAttemptKeys"
    using assms(1,6) by (auto simp: table_ok_def length_AList_update map_of_eq_None_iff)
  moreover have "distinct (map fst (AList.update k a table))" using assms(1) by (simp add: table_ok_def AList.distinct_update)
  moreover have "1 \<le> la_Failures b \<and> la_Failures b \<le> lim k' \<and> 0 < la_ResetAt b \<and> la_ResetAt b \<le> now + loginWindow"
    if "(k', b) \<in> set (AList.update k a table)" for k' b
    using set_AList_update [OF _ that] assms by (auto simp: table_ok_def)
  ultimately show ?thesis by (auto simp: table_ok_def)
qed

section \<open>One key after an operation\<close>

lemma map_of_expire: "map_of (expire_attempt now k table) j =
    (if j = k \<and> \<not> time_IsZero (la_ResetAt (attempt_of table k)) \<and> \<not> now < la_ResetAt (attempt_of table k) then None else map_of table j)"
  by (simp add: expire_attempt_def Let_def AList.delete_conv')

definition live :: "time \<Rightarrow> loginAttempt option \<Rightarrow> loginAttempt option" where
  "live now a = (case a of Some a \<Rightarrow> if now < la_ResetAt a then Some a else None | None \<Rightarrow> None)"

lemma map_of_expire_ok:
  "table_ok lim t table \<Longrightarrow> map_of (expire_attempt now k table) j = (if j = k then live now (map_of table j) else map_of table j)"
  by (auto simp: map_of_expire live_def attempt_of_def time_IsZero_def zero_attempt_def split: option.splits dest: table_ok_entry)

lemma table_ok_expire: "table_ok lim t table \<Longrightarrow> table_ok lim t (expire_attempt now k table)"
  by (simp add: expire_attempt_def Let_def table_ok_delete)

lemma map_of_expire_fold:
  "table_ok lim t table \<Longrightarrow> map_of (fold (expire_attempt now) ks table) j = (if j \<in> set ks then live now (map_of table j) else map_of table j)"
proof (induction ks arbitrary: table)
  case (Cons k ks)
  then show ?case using map_of_expire_ok [OF Cons.prems, of now k] Cons.IH [OF table_ok_expire [OF Cons.prems]]
    by (auto simp: live_def split: option.splits)
qed simp

lemma table_ok_expire_fold: "table_ok lim t table \<Longrightarrow> table_ok lim t (fold (expire_attempt now) ks table)"
  by (induction ks arbitrary: table) (simp_all add: table_ok_expire)

definition bumped :: "time \<Rightarrow> loginAttempt option \<Rightarrow> loginAttempt" where
  "bumped now a = (case a of Some a \<Rightarrow> a\<lparr>la_Failures := la_Failures a + 1\<rparr> | None \<Rightarrow> \<lparr>la_Failures = 1, la_ResetAt = now + loginWindow\<rparr>)"

lemma bump_attempt_ok: "table_ok lim t table \<Longrightarrow> bump_attempt now k table = AList.update k (bumped now (map_of table k)) table"
  by (cases "map_of table k") (auto simp: bump_attempt_def attempt_of_def bumped_def time_IsZero_def zero_attempt_def Let_def
    dest: table_ok_entry intro!: arg_cong [of _ _ "\<lambda>a. AList.update k a table"])

definition absent :: "attempts \<Rightarrow> string list \<Rightarrow> nat" where
  "absent table ks = length (filter (\<lambda>k. map_of table k = None) ks)"

lemma bump_fold_ok:
  assumes "table_ok lim now table" "distinct ks" "length table + absent table ks \<le> maxLoginAttemptKeys" "0 < now"
    and "\<forall>k \<in> set ks. la_Failures (bumped now (map_of table k)) \<le> lim k"
  shows "table_ok lim now (fold (bump_attempt now) ks table) \<and>
    map_of (fold (bump_attempt now) ks table) j = (if j \<in> set ks then Some (bumped now (map_of table j)) else map_of table j)"
  using assms
proof (induction ks arbitrary: table)
  case (Cons k ks)
  let ?t = "AList.update k (bumped now (map_of table k)) table"
  have e: "bump_attempt now k table = ?t" by (rule bump_attempt_ok [OF Cons.prems(1)])
  have w: "loginWindow > 0" by (simp add: loginWindow_def)
  have a: "1 \<le> la_Failures (bumped now (map_of table k))" "0 < la_ResetAt (bumped now (map_of table k))"
    "la_ResetAt (bumped now (map_of table k)) \<le> now + loginWindow"
    using table_ok_entry [OF Cons.prems(1), of k] Cons.prems(4) w by (auto simp: bumped_def split: option.splits)
  have ok: "table_ok lim now ?t"
    using Cons.prems a by (intro table_ok_update) (auto simp: absent_def split: if_splits)
  have "map_of ?t i = map_of table i" if "i \<noteq> k" for i using that by (simp add: AList.update_conv')
  then have m: "\<forall>i \<in> set ks. map_of ?t i = map_of table i" using Cons.prems(2) by (metis distinct.simps(2))
  then have "absent ?t ks = absent table ks" by (simp add: absent_def cong: filter_cong)
  moreover have "length ?t + absent table ks \<le> maxLoginAttemptKeys"
    using Cons.prems(3) by (auto simp: absent_def length_AList_update map_of_eq_None_iff split: if_splits)
  ultimately have "table_ok lim now (fold (bump_attempt now) ks ?t) \<and>
      map_of (fold (bump_attempt now) ks ?t) j = (if j \<in> set ks then Some (bumped now (map_of ?t j)) else map_of ?t j)"
    using Cons.prems m by (intro Cons.IH [OF ok]) auto
  with m Cons.prems(2) show ?case by (auto simp: e AList.update_conv')
qed simp

lemma map_of_filter_distinct:
  "distinct (map fst xs) \<Longrightarrow> map_of (filter P xs) k = (case map_of xs k of Some v \<Rightarrow> if P (k, v) then Some v else None | None \<Rightarrow> None)"
  by (induction xs) (auto simp: map_of_eq_None_iff image_iff split: option.splits)

lemma ensure_capacity:
  assumes "table_ok lim t table" "ensureAttemptCapacityLocked now n table = (table', ok)"
  shows "table_ok lim t table'" "map_of table' k = map_of table k \<or> map_of table' k = live now (map_of table k)"
    "ok \<Longrightarrow> length table' + n \<le> maxLoginAttemptKeys"
proof -
  have d: "distinct (map fst table)" using assms(1) by (simp add: table_ok_def)
  show "table_ok lim t table'" using assms
    by (auto simp: ensureAttemptCapacityLocked_def Let_def intro: table_ok_filter split: if_splits)
  show "map_of table' k = map_of table k \<or> map_of table' k = live now (map_of table k)"
    using assms(2) map_of_filter_distinct [OF d, of "\<lambda>e. now < la_ResetAt (snd e)" k]
    by (auto simp: ensureAttemptCapacityLocked_def Let_def live_def split: if_splits option.splits)
  show "ok \<Longrightarrow> length table' + n \<le> maxLoginAttemptKeys" using assms(2)
    by (auto simp: ensureAttemptCapacityLocked_def Let_def split: if_splits)
qed

lemma live_live [simp]: "live now (live now a) = live now a"
  by (simp add: live_def split: option.splits)

lemma map_of_release: "map_of (release_key k table) j = (if j = k then
    (case map_of table k of Some a \<Rightarrow> if la_Failures a \<le> 1 then None else Some (a\<lparr>la_Failures := la_Failures a - 1\<rparr>) | None \<Rightarrow> None)
    else map_of table j)"
  by (auto simp: release_key_def AList.delete_conv' AList.update_conv' split: option.splits)

lemma table_ok_release: "table_ok lim now table \<Longrightarrow> table_ok lim now (release_key k table)"
  using table_ok_entry [of lim now table k]
  by (auto simp: release_key_def table_ok_delete split: option.splits intro!: table_ok_update)

lemma release_fold_ok: "table_ok lim now table \<Longrightarrow> table_ok lim now (fold release_key ks table)"
  by (induction ks arbitrary: table) (simp_all add: table_ok_release)

lemma map_of_release_fold:
  "distinct ks \<Longrightarrow> map_of (fold release_key ks table) j = (if j \<in> set ks then map_of (release_key j table) j else map_of table j)"
proof (induction ks arbitrary: table)
  case (Cons k ks)
  then have "k \<notin> set ks" by simp
  with Cons show ?case by (auto simp: map_of_release)
qed simp

end
