(* ===== verification/Throttle_Theorems.thy ===== *)
theory Throttle_Theorems
  imports Web_Throttle
begin

text \<open>
  What the attempt limits guarantee, against a log of all attempts with the instants they were counted
  and taken back: within the window of a counter the attempts that were not taken back are at most the
  limit of the key, plus the attempts of earlier windows that were taken back in this one.
\<close>

section \<open>Reservations\<close>

lemma fold_max_le: "fold max xs (m :: int) \<le> n \<longleftrightarrow> m \<le> n \<and> (\<forall>x \<in> set xs. x \<le> n)"
  by (induction xs arbitrary: m) auto

text \<open>The limits of the keys of a reservation are those of \<open>lim\<close>.\<close>

definition limits_of :: "(string \<Rightarrow> int) \<Rightarrow> (string \<times> int) list \<Rightarrow> bool" where
  "limits_of lim kls \<longleftrightarrow> distinct (map fst kls) \<and> (\<forall>(k, l) \<in> set kls. l = lim k \<and> 1 \<le> l)"

lemma reserve_below_limit:
  assumes "table_ok lim t table" "limits_of lim kls"
    and "fold max (map (retry_of now (fold (expire_attempt now) (map fst kls) table)) kls) 0 \<le> 0" "k \<in> set (map fst kls)"
  shows "la_Failures (bumped now (live now (map_of table k))) \<le> lim k"
proof -
  let ?e = "fold (expire_attempt now) (map fst kls) table"
  have m: "map_of ?e k = live now (map_of table k)" using map_of_expire_fold [OF assms(1)] assms(4) by simp
  from assms(2,4) have "(k, lim k) \<in> set kls" "1 \<le> lim k" by (auto simp: limits_of_def)
  with assms(3) have r: "retry_of now ?e (k, lim k) \<le> 0" by (auto simp: fold_max_le)
  show ?thesis
  proof (cases "live now (map_of table k)")
    case (Some a)
    then have "now < la_ResetAt a" by (auto simp: live_def split: option.splits if_splits)
    then have "time_Sub (la_ResetAt a) now > 0" by (simp add: time_Sub_def)
    with r m Some have "la_Failures a < lim k" by (simp add: retry_of_def attempt_of_def split: if_splits)
    with Some show ?thesis by (simp add: bumped_def)
  qed (use \<open>1 \<le> lim k\<close> in \<open>simp add: bumped_def\<close>)
qed

lemma reserve_accept:
  assumes "table_ok lim t table" "t \<le> now" "0 < now" "limits_of lim kls" "reserve_keys kls now table = (table', None)"
  shows "table_ok lim now table'"
    and "j \<in> set (map fst kls) \<Longrightarrow> map_of table' j = Some (bumped now (live now (map_of table j)))"
    and "j \<notin> set (map fst kls) \<Longrightarrow> map_of table' j = Some a \<Longrightarrow> map_of table j = Some a"
proof -
  let ?ks = "map fst kls" and ?e = "fold (expire_attempt now) (map fst kls) table"
  let ?n = "length (filter (\<lambda>(k, _). map_of ?e k = None) kls)"
  from assms(5) obtain c where retry: "fold max (map (retry_of now ?e) kls) 0 \<le> 0"
    and c: "ensureAttemptCapacityLocked now ?n ?e = (c, True)" and table': "table' = fold (bump_attempt now) ?ks c"
    by (auto simp: reserve_keys_def Let_def not_less split: if_splits prod.splits bool.splits)
  have e: "table_ok lim now ?e" by (rule table_ok_later [OF table_ok_expire_fold [OF assms(1)] assms(2)])
  have em: "map_of ?e i = (if i \<in> set ?ks then live now (map_of table i) else map_of table i)" for i by (rule map_of_expire_fold [OF assms(1)])
  have cm: "map_of c i = live now (map_of table i)" if "i \<in> set ?ks" for i
    using ensure_capacity(2) [OF e c, of i] em [of i] that by auto
  have cm': "map_of c i = map_of table i \<or> map_of c i = live now (map_of table i)" for i
    using ensure_capacity(2) [OF e c, of i] em [of i] by (auto split: if_splits)
  have "absent c ?ks = ?n"
    using cm em by (simp add: absent_def filter_map comp_def case_prod_beta cong: filter_cong)
  then have cap: "length c + absent c ?ks \<le> maxLoginAttemptKeys" using ensure_capacity(3) [OF e c] by simp
  have lim: "\<forall>k \<in> set ?ks. la_Failures (bumped now (map_of c k)) \<le> lim k"
    using reserve_below_limit [OF assms(1,4) retry] cm by simp
  have b: "table_ok lim now table' \<and> map_of table' i = (if i \<in> set ?ks then Some (bumped now (map_of c i)) else map_of c i)" for i
    unfolding table' using assms(3,4) cap lim by (intro bump_fold_ok ensure_capacity(1) [OF e c]) (auto simp: limits_of_def)
  then show "table_ok lim now table'" by blast
  show "j \<in> set ?ks \<Longrightarrow> map_of table' j = Some (bumped now (live now (map_of table j)))" using b [of j] cm [of j] by simp
  show "j \<notin> set ?ks \<Longrightarrow> map_of table' j = Some a \<Longrightarrow> map_of table j = Some a"
    using b [of j] cm' [of j] by (auto simp: live_def split: option.splits if_splits)
qed

lemma reserve_refuse:
  assumes "table_ok lim t table" "t \<le> now" "reserve_keys kls now table = (table', Some r)"
  shows "table_ok lim now table'" "map_of table' j = Some a \<Longrightarrow> map_of table j = Some a"
proof -
  let ?e = "fold (expire_attempt now) (map fst kls) table"
  have e: "table_ok lim now ?e" by (rule table_ok_later [OF table_ok_expire_fold [OF assms(1)] assms(2)])
  have em: "map_of ?e i = (if i \<in> set (map fst kls) then live now (map_of table i) else map_of table i)" for i
    by (rule map_of_expire_fold [OF assms(1)])
  from assms(3) consider "table' = ?e" | n where "ensureAttemptCapacityLocked now n ?e = (table', False)"
    by (auto simp: reserve_keys_def Let_def split: if_splits prod.splits bool.splits)
  then have "table_ok lim now table' \<and> (map_of table' j = Some a \<longrightarrow> map_of table j = Some a)"
  proof cases
    case 1
    with e em [of j] show ?thesis by (auto simp: live_def split: if_splits option.splits)
  next
    case 2
    with ensure_capacity(1) [OF e 2] ensure_capacity(2) [OF e 2, of j] em [of j] show ?thesis
      by (auto simp: live_def split: if_splits option.splits)
  qed
  then show "table_ok lim now table'" "map_of table' j = Some a \<Longrightarrow> map_of table j = Some a" by blast+
qed

text \<open>The separate code for a single key does what the common code does for one key.\<close>

lemma reserveSingleAttempt_keys:
  assumes "table_ok lim t table" "1 \<le> limit"
  shows "reserveSingleAttempt key now limit table = reserve_keys [(key, limit)] now table"
proof -
  let ?e = "expire_attempt now key table"
  have m: "map_of ?e key = live now (map_of table key)" using map_of_expire_ok [OF assms(1)] by simp
  have ok: "table_ok lim t ?e" by (rule table_ok_expire [OF assms(1)])
  have key: "attempt_of c key = attempt_of ?e key" if "ensureAttemptCapacityLocked now n ?e = (c, ok)" for n c ok
    using ensure_capacity(2) [OF ok that, of key] m by (auto simp: attempt_of_def)
  show ?thesis
  proof (cases "live now (map_of table key)")
    case None
    with m have "map_of ?e key = None" "attempt_of ?e key = zero_attempt" by (simp_all add: attempt_of_def)
    with assms(2) show ?thesis
      by (auto simp: reserveSingleAttempt_def reserve_keys_def Let_def retry_of_def zero_attempt_def time_IsZero_def bump_attempt_def
          split: prod.splits bool.splits dest!: key)
  next
    case (Some a)
    with m have e: "map_of ?e key = Some a" "attempt_of ?e key = a" by (simp_all add: attempt_of_def)
    from Some have "now < la_ResetAt a" "map_of table key = Some a" by (auto simp: live_def split: option.splits if_splits)
    moreover from this have "time_Sub (la_ResetAt a) now > 0" "la_ResetAt a \<noteq> 0"
      using table_ok_entry [OF assms(1), of key a] by (auto simp: time_Sub_def)
    ultimately show ?thesis using e
      by (auto simp: reserveSingleAttempt_def reserve_keys_def Let_def retry_of_def time_IsZero_def bump_attempt_def max_def
          split: prod.splits bool.splits dest!: key)
  qed
qed

section \<open>Executions\<close>

text \<open>An attempt of the log: its keys, when it was counted, and when it was taken back, if it was.\<close>

type_synonym attempt_log = "(string list \<times> time \<times> time option) list"

inductive throttle :: "(string \<Rightarrow> int) \<Rightarrow> time \<Rightarrow> attempts \<Rightarrow> attempt_log \<Rightarrow> bool" for lim where
  start: "0 \<le> now \<Longrightarrow> throttle lim now [] []"
| accept: "throttle lim t table log \<Longrightarrow> t < now \<Longrightarrow> limits_of lim kls \<Longrightarrow> reserve_keys kls now table = (table', None) \<Longrightarrow>
    throttle lim now table' ((map fst kls, now, None) # log)"
| refuse: "throttle lim t table log \<Longrightarrow> t < now \<Longrightarrow> limits_of lim kls \<Longrightarrow> reserve_keys kls now table = (table', Some r) \<Longrightarrow>
    throttle lim now table' log"
| release: "throttle lim t table (pre @ (ks, reserved, None) # post) \<Longrightarrow> t < now \<Longrightarrow>
    throttle lim now (releaseLoginReservation ks table) (pre @ (ks, reserved, Some now) # post)"

definition in_window :: "string \<Rightarrow> time \<Rightarrow> string list \<times> time \<times> time option \<Rightarrow> bool" where
  "in_window k resetAt = (\<lambda>(ks, reserved, released). k \<in> set ks \<and> resetAt - loginWindow \<le> reserved \<and> released = None)"

definition taken_back_late :: "string \<Rightarrow> time \<Rightarrow> string list \<times> time \<times> time option \<Rightarrow> bool" where
  "taken_back_late k resetAt = (\<lambda>(ks, reserved, released). k \<in> set ks \<and> reserved < resetAt - loginWindow \<and>
     (case released of Some r \<Rightarrow> resetAt - loginWindow \<le> r | None \<Rightarrow> False))"

definition log_ok :: "time \<Rightarrow> attempt_log \<Rightarrow> bool" where
  "log_ok now log \<longleftrightarrow> (\<forall>(ks, reserved, released) \<in> set log. distinct ks \<and> reserved \<le> now \<and> (\<forall>r. released = Some r \<longrightarrow> r \<le> now))"

definition covered :: "attempts \<Rightarrow> attempt_log \<Rightarrow> bool" where
  "covered table log \<longleftrightarrow> (\<forall>k a. map_of table k = Some a \<longrightarrow>
     int (length (filter (in_window k (la_ResetAt a)) log)) \<le>
       la_Failures a + int (length (filter (taken_back_late k (la_ResetAt a)) log)))"

lemma in_window_simp [simp]:
  "in_window k resetAt (ks, reserved, released) \<longleftrightarrow> k \<in> set ks \<and> resetAt - loginWindow \<le> reserved \<and> released = None"
  by (simp add: in_window_def)

lemma taken_back_late_simp [simp]:
  "taken_back_late k resetAt (ks, reserved, released) \<longleftrightarrow> k \<in> set ks \<and> reserved < resetAt - loginWindow \<and>
     (case released of Some r \<Rightarrow> resetAt - loginWindow \<le> r | None \<Rightarrow> False)"
  by (simp add: taken_back_late_def)

lemma coveredD:
  "covered table log \<Longrightarrow> map_of table k = Some a \<Longrightarrow> int (length (filter (in_window k (la_ResetAt a)) log)) \<le>
     la_Failures a + int (length (filter (taken_back_late k (la_ResetAt a)) log))"
  by (simp add: covered_def)

lemma covered_subset:
  "covered table log \<Longrightarrow> (\<And>j a. map_of table' j = Some a \<Longrightarrow> map_of table j = Some a) \<Longrightarrow> covered table' log"
  by (fastforce simp: covered_def)

lemma covered_accept:
  assumes "covered table log" "log_ok t log" "t < now"
    and own: "\<And>j. j \<in> set ks \<Longrightarrow> map_of table' j = Some (bumped now (live now (map_of table j)))"
    and rest: "\<And>j a. j \<notin> set ks \<Longrightarrow> map_of table' j = Some a \<Longrightarrow> map_of table j = Some a"
  shows "covered table' ((ks, now, None) # log)"
proof -
  have "int (length (filter (in_window k (la_ResetAt a)) ((ks, now, None) # log))) \<le>
      la_Failures a + int (length (filter (taken_back_late k (la_ResetAt a)) ((ks, now, None) # log)))"
    if a: "map_of table' k = Some a" for k a
  proof (cases "k \<in> set ks")
    case False
    with coveredD [OF assms(1) rest [OF this a]] show ?thesis by simp
  next
    case True
    show ?thesis
    proof (cases "live now (map_of table k)")
      case None
      with own [OF True] a have r: "la_ResetAt a - loginWindow = now" "la_Failures a = 1" by (auto simp: bumped_def)
      then have "filter (in_window k (la_ResetAt a)) log = []"
        using assms(2,3) by (force simp: filter_empty_conv log_ok_def)
      with r show ?thesis by simp
    next
      case (Some b)
      then have b: "map_of table k = Some b" by (auto simp: live_def split: option.splits if_splits)
      with own [OF True] a Some have r: "la_ResetAt a = la_ResetAt b" "la_Failures a = la_Failures b + 1" by (auto simp: bumped_def)
      with coveredD [OF assms(1) b] show ?thesis by simp
    qed
  qed
  then show ?thesis by (auto simp: covered_def)
qed

lemma covered_release:
  assumes "covered table (pre @ (ks, reserved, None) # post)" "distinct ks" "table_ok lim now table"
  shows "covered (fold release_key ks table) (pre @ (ks, reserved, Some now) # post)"
proof -
  have "int (length (filter (in_window k (la_ResetAt a)) (pre @ (ks, reserved, Some now) # post))) \<le>
      la_Failures a + int (length (filter (taken_back_late k (la_ResetAt a)) (pre @ (ks, reserved, Some now) # post)))"
    if a: "map_of (fold release_key ks table) k = Some a" for k a
  proof (cases "k \<in> set ks")
    case False
    with a map_of_release_fold [OF assms(2)] have "map_of table k = Some a" by simp
    with coveredD [OF assms(1) this] False show ?thesis by simp
  next
    case True
    with a map_of_release_fold [OF assms(2), of table k] obtain b where b: "map_of table k = Some b"
      "la_ResetAt a = la_ResetAt b" "la_Failures a = la_Failures b - 1" by (auto simp: map_of_release split: option.splits if_splits)
    have "la_ResetAt b - loginWindow \<le> now" using table_ok_entry [OF assms(3) b(1)] by simp
    with coveredD [OF assms(1) b(1)] b True show ?thesis by (auto split: if_splits)
  qed
  then show ?thesis by (auto simp: covered_def)
qed

lemma log_ok_later: "log_ok t log \<Longrightarrow> t \<le> now \<Longrightarrow> log_ok now log"
  by (fastforce simp: log_ok_def)

lemma throttle_inv: "throttle lim now table log \<Longrightarrow> 0 \<le> now \<and> table_ok lim now table \<and> log_ok now log \<and> covered table log"
proof (induction rule: throttle.induct)
  case (accept t table log now kls table')
  then have t: "t \<le> now" "0 < now" and ok: "table_ok lim t table" by auto
  note r = reserve_accept [OF ok t accept.hyps(3,4)]
  have "covered table' ((map fst kls, now, None) # log)" using accept.IH accept.hyps r(2,3) by (intro covered_accept [of table log t]) auto
  moreover have "log_ok now ((map fst kls, now, None) # log)"
    using log_ok_later [of t log now] accept.IH accept.hyps t by (simp add: log_ok_def limits_of_def)
  ultimately show ?case using r(1) t by simp
next
  case (refuse t table log now kls table' r)
  then have t: "t \<le> now" and ok: "table_ok lim t table" by auto
  note r = reserve_refuse [OF ok t refuse.hyps(4)]
  have "covered table' log" using refuse.IH r(2) covered_subset [of table log table'] by blast
  with r(1) refuse.IH log_ok_later [of t log now] t show ?case by auto
next
  case (release t table pre ks reserved post now)
  have ok: "table_ok lim now table" and d: "distinct ks"
    using table_ok_later [of lim t table now] release.IH release.hyps by (auto simp: log_ok_def)
  have "covered (releaseLoginReservation ks table) (pre @ (ks, reserved, Some now) # post)"
    unfolding releaseLoginReservation_def using release.IH d ok by (intro covered_release) auto
  moreover have "table_ok lim now (releaseLoginReservation ks table)" unfolding releaseLoginReservation_def by (rule release_fold_ok [OF ok])
  moreover have "log_ok now (pre @ (ks, reserved, Some now) # post)"
    using log_ok_later [of t "pre @ (ks, reserved, None) # post" now] release.IH release.hyps by (auto simp: log_ok_def)
  ultimately show ?case using release.IH release.hyps by auto
qed (auto simp: table_ok_def log_ok_def covered_def maxLoginAttemptKeys_def)

text \<open>
  C30: the attempt limits hold. At every moment, for every key that has a counter, the attempts counted on
  the key in the present window and not taken back are at most the limit of the key, plus the attempts
  of earlier windows that were taken back during this one; and the table never has more than 4096
  counters.
\<close>

theorem attempts_limited:
  assumes "throttle lim now table log" "map_of table k = Some a"
  shows "int (length (filter (in_window k (la_ResetAt a)) log)) \<le>
      lim k + int (length (filter (taken_back_late k (la_ResetAt a)) log)) \<and> length table \<le> 4096"
  using throttle_inv [OF assms(1)] table_ok_entry [of lim now table k a] assms(2)
  by (fastforce simp: covered_def table_ok_def maxLoginAttemptKeys_def)

definition example_limits :: "string \<Rightarrow> int" where
  "example_limits k = (if k = ''u'' then 5 else if k = ''i'' then 50 else 10)"

lemma example_limits_of: "limits_of example_limits [(''u'', 5), (''i'', 50), (''a'', 10)]"
  by (simp add: limits_of_def example_limits_def)

abbreviation example_table :: attempts where
  "example_table \<equiv> fst (reserveLoginAttempt ''u'' ''i'' ''a'' 7 [])"

lemma example_throttle: "throttle example_limits 7 example_table [([''u'', ''i'', ''a''], 7, None)]"
proof -
  have "reserve_keys [(''u'', 5), (''i'', 50), (''a'', 10)] 7 [] = (example_table, None)" by code_simp
  from throttle.accept [OF throttle.start [of 0] _ example_limits_of this] show ?thesis by simp
qed

theorem attempts_limited_witness:
  "\<exists>a. map_of example_table ''u'' = Some a \<and>
     int (length (filter (in_window ''u'' (la_ResetAt a)) [([''u'', ''i'', ''a''], 7, None)])) \<le> 5"
proof -
  have m: "map_of example_table ''u'' = Some \<lparr>la_Failures = 1, la_ResetAt = 7 + loginWindow\<rparr>" by code_simp
  from attempts_limited [OF example_throttle m] m show ?thesis by (auto simp: taken_back_late_def example_limits_def)
qed

text \<open>Attempts that follow one another, a second apart.\<close>

fun try_logins :: "nat \<Rightarrow> time \<Rightarrow> attempts \<Rightarrow> attempts \<times> bool list" where
  "try_logins 0 now table = (table, [])"
| "try_logins (Suc n) now table = (case reserveLoginAttempt ''u'' ''i'' ''a'' now table of (table, r) \<Rightarrow>
     (case try_logins n (now + second) table of (table, rs) \<Rightarrow> (table, (r = None) # rs)))"

text \<open>
  an attempt that is taken back after its window ended is subtracted from the next window. A login
  that was counted in one window and succeeds in the next lets a sixth attempt of the same window
  through, where the limit is five; without it the sixth is refused.
\<close>

theorem late_release_lets_sixth_attempt:
  "snd (try_logins 6 (62 * second) (fst (reserveLoginAttempt ''u'' ''i'' ''a'' second []))) = [True, True, True, True, True, False] \<and>
   (case try_logins 5 (62 * second) (fst (reserveLoginAttempt ''u'' ''i'' ''a'' second [])) of (table, rs) \<Rightarrow>
      rs = [True, True, True, True, True] \<and>
      snd (reserveLoginAttempt ''u'' ''i'' ''a'' (68 * second) (releaseLoginReservation [''u'', ''i'', ''a''] table)) = None)"
  by code_simp

end
