(* ===== verification/Web_Users.thy ===== *)
theory Web_Users
  imports Web_Base Enforce
begin

text \<open>
  The gateway's accounts (\<open>internal/web/users.go\<close> and the cipher of \<open>user_keys.go\<close>): password hashes,
  the cached users file, and the operations on accounts. Authentication and the change of a password
  release the lock while they hash, so each is two definitions: what runs before the lock is taken
  again, and what runs after it.
\<close>

section \<open>Passwords\<close>

definition xor_bytes :: "string \<Rightarrow> string \<Rightarrow> string" where
  "xor_bytes t u = map2 (\<lambda>a b. char_of (Bit_Operations.xor (of_char a :: nat) (of_char b))) t u"

definition PutUint32 :: "nat \<Rightarrow> string" where
  "PutUint32 n = map char_of [n div 16777216 mod 256, n div 65536 mod 256, n div 256 mod 256, n mod 256]"

fun pbkdf2_rounds :: "(string \<Rightarrow> string) \<Rightarrow> nat \<Rightarrow> string \<Rightarrow> string \<Rightarrow> string" where
  "pbkdf2_rounds mac 0 u t = t"
| "pbkdf2_rounds mac (Suc n) u t = (let u' = mac u in pbkdf2_rounds mac n u' (xor_bytes t u'))"

fun pbkdf2_blocks :: "(string \<Rightarrow> string) \<Rightarrow> string \<Rightarrow> nat \<Rightarrow> nat \<Rightarrow> nat \<Rightarrow> string \<Rightarrow> string" where
  "pbkdf2_blocks mac salt iterations block 0 out = out"
| "pbkdf2_blocks mac salt iterations block (Suc n) out =
     (let u = mac (salt @ PutUint32 block) in
      pbkdf2_blocks mac salt iterations (Suc block) n (out @ pbkdf2_rounds mac (iterations - 1) u u))"

definition pbkdf2SHA256 :: "Crypto \<Rightarrow> string \<Rightarrow> string \<Rightarrow> nat \<Rightarrow> nat \<Rightarrow> string" where
  "pbkdf2SHA256 cr password salt iterations keyLen =
     take keyLen (pbkdf2_blocks (cr_hmac cr password) salt iterations 1 ((keyLen + 31) div 32) [])"

definition passwordHashScheme :: string where "passwordHashScheme = ''pbkdf2-sha256''"
definition legacyPasswordHashScheme :: string where "legacyPasswordHashScheme = ''sha256''"
definition passwordHashIterations :: int where "passwordHashIterations = 600000"

definition dollar :: char where "dollar = CHR ''$''"

text \<open>\<open>validatePassword\<close>; the lengths are in bytes.\<close>

definition validatePassword :: "string \<Rightarrow> web_error option" where
  "validatePassword password =
     (if TrimSpace password = [] then Some (WErr ''password is required'')
      else if length password < 12 then Some (WErr ''password must be at least 12 bytes'')
      else if length password > 1024 then Some (WErr ''password must be at most 1024 bytes'')
      else None)"

definition encodePasswordHash :: "WebEnv \<Rightarrow> string \<Rightarrow> web_error + string" where
  "encodePasswordHash env password = (case we_rand env 0 16 of Inl e \<Rightarrow> Inl e
     | Inr salt \<Rightarrow> Inr (passwordHashScheme @ [dollar] @ itoa passwordHashIterations @ [dollar] @ hex_EncodeToString salt @ [dollar] @
         hex_EncodeToString (pbkdf2SHA256 (we_crypto env) password salt (nat passwordHashIterations) 32)))"

definition hashPassword :: "WebEnv \<Rightarrow> string \<Rightarrow> web_error + string" where
  "hashPassword env password = (case validatePassword password of Some e \<Rightarrow> Inl e | None \<Rightarrow> encodePasswordHash env password)"

definition hashPasswordForMigration :: "WebEnv \<Rightarrow> string \<Rightarrow> web_error + string" where
  "hashPasswordForMigration env password =
     (if length password > 1024 then Inl (WErr ''password must be at most 1024 bytes'') else encodePasswordHash env password)"

definition verifyLegacyPasswordHash :: "Crypto \<Rightarrow> string list \<Rightarrow> string \<Rightarrow> bool" where
  "verifyLegacyPasswordHash cr parts password =
     (case (hex_DecodeString (parts ! 1), hex_DecodeString (parts ! 2)) of
        (Some salt, Some want) \<Rightarrow> want = cr_sha256 cr (salt @ password)
      | _ \<Rightarrow> False)"

text \<open>
  \<open>verifyPasswordHash\<close>. The dummy hashes the source computes to hide how far a check got do not
  change its answer.
\<close>

definition verifyPasswordHash :: "Crypto \<Rightarrow> string \<Rightarrow> string \<Rightarrow> bool" where
  "verifyPasswordHash cr encoded password =
     (let parts = Split dollar encoded in
      if parts ! 0 = legacyPasswordHashScheme then length parts = 3 \<and> verifyLegacyPasswordHash cr parts password
      else if length parts \<noteq> 4 \<or> parts ! 0 \<noteq> passwordHashScheme then False
      else case Atoi (parts ! 1) of None \<Rightarrow> False
      | Some iterations \<Rightarrow>
          if iterations < 100000 \<or> iterations > 2000000 then False
          else case (hex_DecodeString (parts ! 2), hex_DecodeString (parts ! 3)) of
            (Some salt, Some want) \<Rightarrow>
              length salt \<ge> 16 \<and> length want = 32 \<and>
              want = pbkdf2SHA256 cr password salt (nat iterations) (length want)
          | _ \<Rightarrow> False)"

definition passwordHashNeedsUpgrade :: "string \<Rightarrow> bool" where
  "passwordHashNeedsUpgrade encoded =
     (let parts = Split dollar encoded in
      if length parts \<noteq> 4 \<or> parts ! 0 \<noteq> passwordHashScheme then True
      else case Atoi (parts ! 1) of None \<Rightarrow> True | Some iterations \<Rightarrow> iterations < passwordHashIterations)"

section \<open>Names and roles\<close>

definition normalizeUsername :: "string \<Rightarrow> web_error + string" where
  "normalizeUsername username =
     (let username = ToLower (TrimSpace username) in
      if username = [] then Inl (WErr ''username is required'')
      else if length username > 64 then Inl (WErr ''username must be at most 64 bytes'')
      else if list_all plain_rune (runes username) then Inr username
      else Inl (WErr ''username cannot contain whitespace or control characters''))"

definition normalizeRole :: "string \<Rightarrow> string" where
  "normalizeRole role = (if ToLower (TrimSpace role) = RoleAdmin then RoleAdmin else RoleUser)"

record PublicUser =
  pu_Username :: string
  pu_Role :: string
  pu_CreatedAt :: time
  pu_UpdatedAt :: time

definition publicUser :: "UserRecord \<Rightarrow> PublicUser" where
  "publicUser user = \<lparr>pu_Username = u_Username user, pu_Role = u_Role user,
     pu_CreatedAt = u_CreatedAt user, pu_UpdatedAt = u_UpdatedAt user\<rparr>"

definition newUserRecord :: "WebEnv \<Rightarrow> string \<Rightarrow> string \<Rightarrow> string \<Rightarrow> web_error + UserRecord" where
  "newUserRecord env username password role =
     (case normalizeUsername username of Inl e \<Rightarrow> Inl e
      | Inr name \<Rightarrow> (case validatePassword password of Some e \<Rightarrow> Inl e
        | None \<Rightarrow> (case hashPassword env password of Inl e \<Rightarrow> Inl e
          | Inr hash \<Rightarrow> Inr \<lparr>u_Username = name, u_Role = normalizeRole role, u_PasswordHash = hash,
              u_KeyID = [], u_KeyHash = [], u_KeyVersion = 0, u_KeyCipher = [], u_KeyCreatedAt = 0,
              u_AccessTokens = [], u_LegacyAccessTokens = [],
              u_CreatedAt = we_now env, u_UpdatedAt = we_now env, u_Disabled = False\<rparr>)))"

section \<open>The cipher of the fixed keys\<close>

definition nul :: char where "nul = CHR 0x00"

definition fixedKeyAAD :: "UserRecord \<Rightarrow> string" where
  "fixedKeyAAD u = ''gpuardian-user-key-v1'' @ [nul] @ u_Username u @ [nul] @ u_KeyID u @ [nul] @ itoa (u_KeyVersion u)"

definition key_nonce_size :: nat where "key_nonce_size = 12"

text \<open>
  \<open>assign\<close> draws the secret, the identifier and the nonce, in this order; \<open>k\<close> is the number of the
  first read. The secret is kept only encrypted and as its hash.
\<close>

definition assign :: "WebEnv \<Rightarrow> nat \<Rightarrow> string \<Rightarrow> int \<Rightarrow> UserRecord \<Rightarrow> web_error + UserRecord" where
  "assign env k master version u =
     (case we_rand env k 24 of Inl e \<Rightarrow> Inl e
      | Inr secretBytes \<Rightarrow> (case we_rand env (k + 1) 8 of Inl e \<Rightarrow> Inl e
        | Inr idBytes \<Rightarrow>
          let secret = ''gk_'' @ hex_EncodeToString secretBytes;
              u1 = u\<lparr>u_KeyID := ''uk_'' @ hex_EncodeToString idBytes, u_KeyVersion := version, u_KeyCreatedAt := we_now env,
                u_KeyHash := hex_EncodeToString (cr_sha256 (we_crypto env) secret)\<rparr> in
          (case we_rand env (k + 2) key_nonce_size of Inl e \<Rightarrow> Inl e
           | Inr nonce \<Rightarrow> Inr (u1\<lparr>u_KeyCipher := base64_EncodeToString std_alphabet
               (nonce @ cr_seal (we_crypto env) master nonce secret (fixedKeyAAD u1))\<rparr>))))"

definition reveal :: "Crypto \<Rightarrow> string option \<Rightarrow> UserRecord \<Rightarrow> web_error + string" where
  "reveal cr cipher u =
     (case cipher of None \<Rightarrow> Inl (WErr ''user-key encryption is unavailable'')
      | Some master \<Rightarrow>
        (case base64_DecodeString std_alphabet (u_KeyCipher u) of None \<Rightarrow> Inl (WErr ''stored user key is invalid'')
         | Some raw \<Rightarrow>
           if length raw \<le> key_nonce_size then Inl (WErr ''stored user key is invalid'')
           else case cr_open cr master (take key_nonce_size raw) (drop key_nonce_size raw) (fixedKeyAAD u) of
             None \<Rightarrow> Inl (WErr ''decrypt stored user key: invalid master key or ciphertext'')
           | Some plain \<Rightarrow> Inr plain))"

section \<open>The store\<close>

text \<open>
  The store caches the records once they are loaded; \<open>us_file\<close> is the users file, \<open>us_generation\<close>
  changes with every replacement of the records, and \<open>us_cipher\<close> is the master key of the fixed keys.
\<close>

record UserStore =
  us_file :: "PrivateFile option"
  us_loaded :: bool
  us_users :: "UserRecord list"
  us_generation :: uint64
  us_cipher :: "string option"

type_synonym 'r web_result = "UserStore \<times> (web_error + 'r)"

definition NewUserStore :: "PrivateFile option \<Rightarrow> UserStore" where
  "NewUserStore file = \<lparr>us_file = file, us_loaded = False, us_users = [], us_generation = 0, us_cipher = None\<rparr>"

definition maxUsers :: nat where "maxUsers = 256"
definition maxUsersFileBytes :: nat where "maxUsersFileBytes = 10485760"

definition migrate_tokens :: "UserRecord \<Rightarrow> UserRecord" where
  "migrate_tokens u = u\<lparr>u_AccessTokens := (if u_AccessTokens u = [] then u_LegacyAccessTokens u else u_AccessTokens u),
     u_LegacyAccessTokens := []\<rparr>"

definition users_loadLocked :: "WebEnv \<Rightarrow> UserStore \<Rightarrow> UserRecord list web_result" where
  "users_loadLocked env s =
     (if us_loaded s then (s, Inr (us_users s))
      else case readPrivateFile env ''users file'' maxUsersFileBytes (us_file s) of
        Inl e \<Rightarrow> if e = ErrNotExist then (s\<lparr>us_loaded := True, us_users := []\<rparr>, Inr []) else (s, Inl e)
      | Inr data \<Rightarrow>
        if TrimSpace data = [] then (s\<lparr>us_loaded := True, us_users := []\<rparr>, Inr [])
        else case we_Unmarshal env data of Inl e \<Rightarrow> (s, Inl e)
        | Inr users \<Rightarrow>
          if length users > maxUsers then (s, Inl (WErr ''users file contains too many records''))
          else let users = map migrate_tokens users in
            (s\<lparr>us_users := users, us_loaded := True, us_generation := us_generation s + 1\<rparr>, Inr users))"

definition users_saveLocked :: "WebEnv \<Rightarrow> UserRecord list \<Rightarrow> UserStore \<Rightarrow> UserStore \<times> web_error option" where
  "users_saveLocked env users s =
     (case we_Marshal env users of Inl e \<Rightarrow> (s, Some e)
      | Inr data \<Rightarrow> (case writePrivateFile env (data @ [CHR 0x0A]) (us_file s) of (file, committed, err) \<Rightarrow>
          (if committed then s\<lparr>us_file := file, us_users := users, us_loaded := True, us_generation := us_generation s + 1\<rparr>
           else s\<lparr>us_file := file\<rparr>, err)))"

definition save_users :: "WebEnv \<Rightarrow> UserRecord list \<Rightarrow> 'r \<Rightarrow> UserStore \<Rightarrow> 'r web_result" where
  "save_users env users r s = (case users_saveLocked env users s of (s, Some e) \<Rightarrow> (s, Inl e) | (s, None) \<Rightarrow> (s, Inr r))"

definition with_users :: "WebEnv \<Rightarrow> UserStore \<Rightarrow> (UserRecord list \<Rightarrow> UserStore \<Rightarrow> 'r web_result) \<Rightarrow> 'r web_result" where
  "with_users env s k = (case users_loadLocked env s of (s, Inl e) \<Rightarrow> (s, Inl e) | (s, Inr users) \<Rightarrow> k users s)"

section \<open>Accounts\<close>

definition active_named :: "string \<Rightarrow> UserRecord \<Rightarrow> bool" where
  "active_named name u \<longleftrightarrow> u_Username u = name \<and> \<not> u_Disabled u"

definition BootstrapAdmin :: "WebEnv \<Rightarrow> string \<Rightarrow> string \<Rightarrow> UserStore \<Rightarrow> unit web_result" where
  "BootstrapAdmin env username password s = with_users env s (\<lambda>users s.
     if users \<noteq> [] then (s, Inr ())
     else case newUserRecord env username password RoleAdmin of Inl e \<Rightarrow> (s, Inl e)
     | Inr record \<Rightarrow> save_users env [record] () s)"

definition users_List :: "WebEnv \<Rightarrow> UserStore \<Rightarrow> PublicUser list web_result" where
  "users_List env s = with_users env s (\<lambda>users s. (s, Inr (map publicUser (filter (\<lambda>u. \<not> u_Disabled u) users))))"

definition users_Get :: "WebEnv \<Rightarrow> string \<Rightarrow> UserStore \<Rightarrow> UserRecord option web_result" where
  "users_Get env username s = (case normalizeUsername username of Inl _ \<Rightarrow> (s, Inr None)
     | Inr name \<Rightarrow> with_users env s (\<lambda>users s. (s, Inr (find (active_named name) users))))"

record AuthTicket =
  tk_name :: string
  tk_candidate :: UserRecord
  tk_newHash :: string

text \<open>
  \<open>authenticate\<close> up to the point where the lock is taken again: the first record of the name, if it
  is not disabled, is the candidate, and its hash is checked while the lock is free.
\<close>

definition invalid_login :: web_error where "invalid_login = WErr ''invalid username or password''"

definition authenticate_check :: "WebEnv \<Rightarrow> string \<Rightarrow> string \<Rightarrow> UserStore \<Rightarrow> AuthTicket web_result" where
  "authenticate_check env username password s =
     (case normalizeUsername username of Inl e \<Rightarrow> (s, Inl e)
      | Inr name \<Rightarrow> with_users env s (\<lambda>users s.
        let candidate = (case find (\<lambda>u. u_Username u = name) users of
              Some u \<Rightarrow> if u_Disabled u then None else Some u | None \<Rightarrow> None) in
        (s, case we_workErr env of Some e \<Rightarrow> Inl e
         | None \<Rightarrow> (case candidate of None \<Rightarrow> Inl invalid_login
           | Some c \<Rightarrow>
             if \<not> verifyPasswordHash (we_crypto env) (u_PasswordHash c) password then Inl invalid_login
             else if passwordHashNeedsUpgrade (u_PasswordHash c) then
               (case hashPasswordForMigration env password of Inl e \<Rightarrow> Inl e
                | Inr h \<Rightarrow> Inr \<lparr>tk_name = name, tk_candidate = c, tk_newHash = h\<rparr>)
             else Inr \<lparr>tk_name = name, tk_candidate = c, tk_newHash = []\<rparr>))))"

definition same_credentials :: "UserRecord \<Rightarrow> UserRecord \<Rightarrow> bool" where
  "same_credentials current candidate \<longleftrightarrow>
     u_PasswordHash current = u_PasswordHash candidate \<and> u_UpdatedAt current = u_UpdatedAt candidate"

definition authenticate_commit :: "WebEnv \<Rightarrow> AuthTicket \<Rightarrow> UserStore \<Rightarrow> PublicUser web_result" where
  "authenticate_commit env t s = with_users env s (\<lambda>users s.
     case find (active_named (tk_name t)) users of None \<Rightarrow> (s, Inl invalid_login)
     | Some current \<Rightarrow>
       if \<not> same_credentials current (tk_candidate t) then (s, Inl invalid_login)
       else if tk_newHash t \<noteq> [] then
         (let upd = (\<lambda>u. u\<lparr>u_PasswordHash := tk_newHash t, u_UpdatedAt := we_now env\<rparr>) in
          save_users env (update_first (active_named (tk_name t)) upd users) (publicUser (upd current)) s)
       else (s, Inr (publicUser current)))"

definition Create :: "WebEnv \<Rightarrow> string \<Rightarrow> string \<Rightarrow> string \<Rightarrow> UserStore \<Rightarrow> PublicUser web_result" where
  "Create env username password role s =
     (if we_workErr env \<noteq> None then (s, Inl ErrPasswordWorkBusy)
      else case newUserRecord env username password role of Inl e \<Rightarrow> (s, Inl e)
      | Inr record0 \<Rightarrow>
        (case (case us_cipher s of None \<Rightarrow> Inr record0 | Some master \<Rightarrow> assign env 1 master 1 record0) of
           Inl e \<Rightarrow> (s, Inl e)
         | Inr record \<Rightarrow> with_users env s (\<lambda>users s.
             if list_ex (\<lambda>u. u_Username u = u_Username record) users then (s, Inl ErrUsernameInUse)
             else if length users \<ge> maxUsers then (s, Inl ErrUserLimitReached)
             else save_users env (users @ [record]) (publicUser record) s)))"

definition admin_count :: "UserRecord list \<Rightarrow> nat" where
  "admin_count users = length (filter (\<lambda>u. u_Role u = RoleAdmin \<and> \<not> u_Disabled u) users)"

definition disable_user :: "time \<Rightarrow> UserRecord \<Rightarrow> UserRecord" where
  "disable_user now u = u\<lparr>u_PasswordHash := [], u_KeyCipher := [], u_AccessTokens := [], u_Disabled := True, u_UpdatedAt := now\<rparr>"

definition users_Delete :: "WebEnv \<Rightarrow> string \<Rightarrow> UserStore \<Rightarrow> unit web_result" where
  "users_Delete env username s = (case normalizeUsername username of Inl e \<Rightarrow> (s, Inl e)
     | Inr name \<Rightarrow> with_users env s (\<lambda>users s.
       case find (\<lambda>u. u_Username u = name) users of None \<Rightarrow> (s, Inl (WErr ''user not found''))
       | Some user \<Rightarrow>
         if u_Disabled user then (s, Inl (WErr ''user not found''))
         else if u_Role user = RoleAdmin \<and> admin_count users = 1 then (s, Inl (WErr ''cannot delete the last admin''))
         else save_users env (update_first (\<lambda>u. u_Username u = name) (disable_user (we_now env)) users) () s))"

definition change_check :: "WebEnv \<Rightarrow> string \<Rightarrow> string \<Rightarrow> string \<Rightarrow> UserStore \<Rightarrow> AuthTicket web_result" where
  "change_check env username currentPassword newPassword s =
     (case normalizeUsername username of Inl e \<Rightarrow> (s, Inl e)
      | Inr name \<Rightarrow>
        if TrimSpace newPassword = [] then (s, Inl (WErr ''new password is required''))
        else case validatePassword newPassword of Some e \<Rightarrow> (s, Inl e)
        | None \<Rightarrow> with_users env s (\<lambda>users s.
          (s, if we_workErr env \<noteq> None then Inl ErrPasswordWorkBusy
           else case find (active_named name) users of None \<Rightarrow> Inl (WErr ''user not found'')
           | Some c \<Rightarrow>
             if \<not> verifyPasswordHash (we_crypto env) (u_PasswordHash c) currentPassword then Inl (WErr ''current password is invalid'')
             else case hashPassword env newPassword of Inl e \<Rightarrow> Inl e
             | Inr h \<Rightarrow> Inr \<lparr>tk_name = name, tk_candidate = c, tk_newHash = h\<rparr>)))"

definition change_commit :: "WebEnv \<Rightarrow> AuthTicket \<Rightarrow> UserStore \<Rightarrow> PublicUser web_result" where
  "change_commit env t s = with_users env s (\<lambda>users s.
     case find (active_named (tk_name t)) users of None \<Rightarrow> (s, Inl (WErr ''user not found''))
     | Some current \<Rightarrow>
       if \<not> same_credentials current (tk_candidate t) then (s, Inl (WErr ''current password is invalid''))
       else (let upd = (\<lambda>u. u\<lparr>u_PasswordHash := tk_newHash t, u_UpdatedAt := we_now env\<rparr>) in
         save_users env (update_first (active_named (tk_name t)) upd users) (publicUser (upd current)) s))"

section \<open>Password slots\<close>

text \<open>
  The two channels that bound the password hashing: at most 4 computations run, and at most 32
  logins, the running ones included, wait for one.
\<close>

record PasswordWork =
  pw_work :: nat
  pw_queue :: nat

definition tryAcquirePasswordWork :: "PasswordWork \<Rightarrow> PasswordWork \<times> bool" where
  "tryAcquirePasswordWork w = (if pw_work w < 4 then (w\<lparr>pw_work := pw_work w + 1\<rparr>, True) else (w, False))"

definition releasePasswordWork :: "PasswordWork \<Rightarrow> PasswordWork" where
  "releasePasswordWork w = w\<lparr>pw_work := pw_work w - 1\<rparr>"

definition acquire_queue :: "PasswordWork \<Rightarrow> PasswordWork \<times> bool" where
  "acquire_queue w = (if pw_queue w < 32 then (w\<lparr>pw_queue := pw_queue w + 1\<rparr>, True) else (w, False))"

definition acquire_grant :: "bool \<Rightarrow> PasswordWork \<Rightarrow> PasswordWork \<times> bool" where
  "acquire_grant canceled w = (if canceled then (w\<lparr>pw_queue := pw_queue w - 1\<rparr>, False) else (w\<lparr>pw_work := pw_work w + 1\<rparr>, True))"

definition release_both :: "PasswordWork \<Rightarrow> PasswordWork" where
  "release_both w = \<lparr>pw_work = pw_work w - 1, pw_queue = pw_queue w - 1\<rparr>"

end
