(* ===== verification/Web_Tokens.thy ===== *)
theory Web_Tokens
  imports Web_Users "HOL-Library.List_Lexorder" "HOL-Library.Char_ord"
begin

text \<open>
  Access tokens (\<open>internal/web/access_tokens.go\<close>) and fixed user keys (\<open>internal/web/user_keys.go\<close>)
  on the gateway's account store.
\<close>

section \<open>Scopes\<close>

definition accessTokenSupportedScopes :: "string list" where
  "accessTokenSupportedScopes = [''nodes:read'', ''reservations:write'', ''authorizations:write'', ''resources:revoke'',
     ''keys:read'', ''keys:reveal'', ''keys:rotate'', ''history:read'', ''history:write'']"

definition accessTokenDefaultScopes :: "string list" where
  "accessTokenDefaultScopes = [''nodes:read'', ''reservations:write'', ''authorizations:write'', ''resources:revoke'',
     ''keys:read'', ''history:read'']"

fun collect_scopes :: "string list \<Rightarrow> string list \<Rightarrow> web_error + string list" where
  "collect_scopes out [] = Inr out"
| "collect_scopes out (x # xs) = (let scope = ToLower (TrimSpace x) in
     if scope \<notin> set accessTokenSupportedScopes then Inl (WErr (''unsupported access token scope '' @ scope))
     else if scope \<in> set out then collect_scopes out xs
     else collect_scopes (out @ [scope]) xs)"

definition normalizeAccessTokenScopes :: "string list \<Rightarrow> web_error + string list" where
  "normalizeAccessTokenScopes scopes =
     (case collect_scopes [] (if scopes = [] then accessTokenDefaultScopes else scopes) of
        Inl e \<Rightarrow> Inl e | Inr out \<Rightarrow> Inr (sort out))"

section \<open>Retention\<close>

definition token_active :: "time \<Rightarrow> AccessTokenRecord \<Rightarrow> bool" where
  "token_active now t \<longleftrightarrow> at_RevokedAt t = None \<and> now < at_ExpiresAt t"

definition token_stale :: "time \<Rightarrow> AccessTokenRecord \<Rightarrow> bool" where
  "token_stale now t \<longleftrightarrow> \<not> token_active now t \<and>
     time_Sub now (case at_RevokedAt t of Some r \<Rightarrow> r | None \<Rightarrow> at_ExpiresAt t) > 90 * 24 * hour"

fun drop_inactive :: "time \<Rightarrow> nat \<Rightarrow> AccessTokenRecord list \<Rightarrow> AccessTokenRecord list" where
  "drop_inactive now n [] = []"
| "drop_inactive now n (t # ts) = (if n > 0 \<and> \<not> token_active now t then drop_inactive now (n - 1) ts
     else t # drop_inactive now n ts)"

definition accessTokenMaxStored :: nat where "accessTokenMaxStored = 128"
definition accessTokenMaxPerUser :: nat where "accessTokenMaxPerUser = 32"

definition compactAccessTokens :: "AccessTokenRecord list \<Rightarrow> time \<Rightarrow> AccessTokenRecord list" where
  "compactAccessTokens tokens now =
     (let kept = filter (\<lambda>t. \<not> token_stale now t) tokens in
      if length kept < accessTokenMaxStored then kept
      else drop_inactive now (length kept - (accessTokenMaxStored - 1)) kept)"

section \<open>Tokens\<close>

definition accessTokenPrefix :: string where "accessTokenPrefix = ''ga_''"

definition token_hash :: "Crypto \<Rightarrow> string \<Rightarrow> string" where
  "token_hash cr secret = hex_EncodeToString (cr_sha256 cr secret)"

record CreatedAccessToken =
  ct_Token :: AccessTokenRecord
  ct_Secret :: string

definition add_token :: "time \<Rightarrow> AccessTokenRecord \<Rightarrow> UserRecord \<Rightarrow> UserRecord" where
  "add_token now t u = u\<lparr>u_AccessTokens := compactAccessTokens (u_AccessTokens u) now @ [t]\<rparr>"

text \<open>The token a request asks for, with its secret, before the lock is taken.\<close>

definition new_access_token :: "WebEnv \<Rightarrow> string \<Rightarrow> string list \<Rightarrow> time \<Rightarrow> web_error + CreatedAccessToken" where
  "new_access_token env name0 scopes0 expiresAt =
     (let name = TrimSpace name0; now = we_now env in
      if name = [] then Inl (WErr ''token name is required'')
      else if length name > 80 then Inl (WErr ''token name must be at most 80 bytes'')
      else case normalizeAccessTokenScopes scopes0 of Inl e \<Rightarrow> Inl e
      | Inr scopes \<Rightarrow>
        if \<not> now < expiresAt then Inl (WErr ''token expiry must be in the future'')
        else if now + 365 * 24 * hour < expiresAt then Inl (WErr ''token expiry must be within 365 days'')
        else case we_rand env 0 32 of Inl e \<Rightarrow> Inl e
        | Inr secretBytes \<Rightarrow> (case we_rand env 1 9 of Inl e \<Rightarrow> Inl e
          | Inr idBytes \<Rightarrow>
            let secret = accessTokenPrefix @ base64_EncodeToString url_alphabet secretBytes in
            Inr \<lparr>ct_Token = \<lparr>at_ID = ''at_'' @ base64_EncodeToString url_alphabet idBytes, at_Name = name,
                at_Hash = token_hash (we_crypto env) secret, at_Scopes = scopes, at_CreatedAt = now,
                at_ExpiresAt = expiresAt, at_LastUsedAt = None, at_RevokedAt = None\<rparr>, ct_Secret = secret\<rparr>))"

definition CreateAccessToken ::
  "WebEnv \<Rightarrow> string \<Rightarrow> string \<Rightarrow> string list \<Rightarrow> time \<Rightarrow> UserStore \<Rightarrow> CreatedAccessToken web_result" where
  "CreateAccessToken env username name scopes expiresAt s =
     (case normalizeUsername username of Inl e \<Rightarrow> (s, Inl e)
      | Inr user \<Rightarrow> (case new_access_token env name scopes expiresAt of Inl e \<Rightarrow> (s, Inl e)
        | Inr c \<Rightarrow> with_users env s (\<lambda>users s.
            case find (active_named user) users of None \<Rightarrow> (s, Inl (WErr ''user not found''))
            | Some u \<Rightarrow>
              if length (filter (token_active (we_now env)) (compactAccessTokens (u_AccessTokens u) (we_now env))) \<ge> accessTokenMaxPerUser
              then (s, Inl (WErr ''maximum 32 active access tokens reached''))
              else save_users env (update_first (active_named user) (add_token (we_now env) (ct_Token c)) users) c s)))"

text \<open>The public view leaves out the hash; the newest token comes first.\<close>

record PublicAccessToken =
  pt_ID :: string
  pt_Name :: string
  pt_Scopes :: "string list"
  pt_CreatedAt :: time
  pt_ExpiresAt :: time
  pt_LastUsedAt :: "time option"
  pt_RevokedAt :: "time option"

definition publicAccessToken :: "AccessTokenRecord \<Rightarrow> PublicAccessToken" where
  "publicAccessToken t = \<lparr>pt_ID = at_ID t, pt_Name = at_Name t, pt_Scopes = at_Scopes t, pt_CreatedAt = at_CreatedAt t,
     pt_ExpiresAt = at_ExpiresAt t, pt_LastUsedAt = at_LastUsedAt t, pt_RevokedAt = at_RevokedAt t\<rparr>"

definition ListAccessTokens :: "WebEnv \<Rightarrow> string \<Rightarrow> UserStore \<Rightarrow> PublicAccessToken list web_result" where
  "ListAccessTokens env username s = (case normalizeUsername username of Inl e \<Rightarrow> (s, Inl e)
     | Inr name \<Rightarrow> with_users env s (\<lambda>users s.
       case find (active_named name) users of None \<Rightarrow> (s, Inl (WErr ''user not found''))
       | Some u \<Rightarrow> (s, Inr (sort_key (\<lambda>t. - pt_CreatedAt t) (map publicAccessToken (u_AccessTokens u))))))"

definition revoke_at :: "time \<Rightarrow> AccessTokenRecord \<Rightarrow> AccessTokenRecord" where
  "revoke_at now t = (if at_RevokedAt t = None then t\<lparr>at_RevokedAt := Some now\<rparr> else t)"

definition revoke_token :: "time \<Rightarrow> string \<Rightarrow> UserRecord \<Rightarrow> UserRecord" where
  "revoke_token now ident u = u\<lparr>u_AccessTokens := update_first (\<lambda>t. at_ID t = ident) (revoke_at now) (u_AccessTokens u)\<rparr>"

definition RevokeAccessToken :: "WebEnv \<Rightarrow> string \<Rightarrow> string \<Rightarrow> UserStore \<Rightarrow> unit web_result" where
  "RevokeAccessToken env username ident0 s = (case normalizeUsername username of Inl e \<Rightarrow> (s, Inl e)
     | Inr name \<Rightarrow> let ident = TrimSpace ident0 in
       if ident = [] then (s, Inl (WErr ''token id is required''))
       else with_users env s (\<lambda>users s.
         case find (active_named name) users of None \<Rightarrow> (s, Inl (WErr ''user not found''))
         | Some u \<Rightarrow>
           if list_ex (\<lambda>t. at_ID t = ident) (u_AccessTokens u)
           then save_users env (update_first (active_named name) (revoke_token (we_now env) ident) users) () s
           else (s, Inl (WErr ''token not found''))))"

record AuthenticatedAccessToken =
  aa_User :: string
  aa_Role :: string
  aa_ID :: string
  aa_Scopes :: "string list"

text \<open>
  \<open>AuthenticateAccessToken\<close> walks the active users and their tokens and decides on the first token with
  the hash. The positions of the walk are those of the user and of the token.
\<close>

definition has_hash :: "string \<Rightarrow> AccessTokenRecord \<Rightarrow> bool" where
  "has_hash want t \<longleftrightarrow> at_Hash t = want"

definition holds_hash :: "string \<Rightarrow> UserRecord \<Rightarrow> bool" where
  "holds_hash want u \<longleftrightarrow> \<not> u_Disabled u \<and> list_ex (has_hash want) (u_AccessTokens u)"

definition touch_token :: "time \<Rightarrow> string \<Rightarrow> UserRecord \<Rightarrow> UserRecord" where
  "touch_token now want u = u\<lparr>u_AccessTokens := update_first (has_hash want) (\<lambda>t. t\<lparr>at_LastUsedAt := Some now\<rparr>) (u_AccessTokens u)\<rparr>"

definition AuthenticateAccessToken :: "WebEnv \<Rightarrow> string \<Rightarrow> UserStore \<Rightarrow> UserStore \<times> AuthenticatedAccessToken option" where
  "AuthenticateAccessToken env secret0 s =
     (let secret = TrimSpace secret0; now = we_now env; want = token_hash (we_crypto env) secret in
      if \<not> prefix accessTokenPrefix secret \<or> length secret > 256 then (s, None)
      else case users_loadLocked env s of (s, Inl e) \<Rightarrow> (s, None)
      | (s, Inr _) \<Rightarrow>
        (case find (holds_hash want) (us_users s) of None \<Rightarrow> (s, None)
         | Some u \<Rightarrow> (case find (has_hash want) (u_AccessTokens u) of None \<Rightarrow> (s, None)
           | Some t \<Rightarrow>
             if \<not> token_active now t then (s, None)
             else let a = \<lparr>aa_User = u_Username u, aa_Role = u_Role u, aa_ID = at_ID t, aa_Scopes = at_Scopes t\<rparr> in
               if (case at_LastUsedAt t of None \<Rightarrow> True | Some l \<Rightarrow> time_Sub now l \<ge> 300 * second)
               then (fst (users_saveLocked env (update_first (holds_hash want) (touch_token now want) (us_users s)) s), Some a)
               else (s, Some a))))"

section \<open>Fixed keys\<close>

record FixedUserKey =
  fk_ID :: string
  fk_Owner :: string
  fk_Version :: int
  fk_CreatedAt :: time
  fk_Secret :: string

record FixedUserKeyVerifier =
  fv_ID :: string
  fv_Owner :: string
  fv_Version :: int
  fv_Hash :: string

definition fixedUserKey :: "UserRecord \<Rightarrow> string \<Rightarrow> FixedUserKey" where
  "fixedUserKey u secret = \<lparr>fk_ID = u_KeyID u, fk_Owner = u_Username u, fk_Version = u_KeyVersion u,
     fk_CreatedAt = u_KeyCreatedAt u, fk_Secret = secret\<rparr>"

definition newUserKeyCipher :: "string \<Rightarrow> web_error + string" where
  "newUserKeyCipher master = (if length master = 32 then Inr master else Inl (WErr ''web user-key master must contain 32 bytes''))"

text \<open>The loop of \<open>InitializeFixedKeys\<close>; every assignment reads the random source three times.\<close>

fun initialize_keys :: "WebEnv \<Rightarrow> string \<Rightarrow> nat \<Rightarrow> UserRecord list \<Rightarrow> web_error + (bool \<times> UserRecord list)" where
  "initialize_keys env master k [] = Inr (False, [])"
| "initialize_keys env master k (u # us) =
     (if u_Disabled u then map_sum (\<lambda>x. x) (\<lambda>(c, vs). (c, u # vs)) (initialize_keys env master k us)
      else if u_KeyID u = [] then
        (case assign env k master 1 u of Inl e \<Rightarrow> Inl e
         | Inr u' \<Rightarrow> map_sum (\<lambda>x. x) (\<lambda>(c, vs). (True, u' # vs)) (initialize_keys env master (k + 3) us))
      else case reveal (we_crypto env) (Some master) u of Inl e \<Rightarrow> Inl e
      | Inr _ \<Rightarrow> map_sum (\<lambda>x. x) (\<lambda>(c, vs). (c, u # vs)) (initialize_keys env master k us))"

definition InitializeFixedKeys :: "WebEnv \<Rightarrow> string \<Rightarrow> UserStore \<Rightarrow> unit web_result" where
  "InitializeFixedKeys env master0 s = (case newUserKeyCipher master0 of Inl e \<Rightarrow> (s, Inl e)
     | Inr master \<Rightarrow> with_users env s (\<lambda>users s.
       case initialize_keys env master 0 users of Inl e \<Rightarrow> (s, Inl e)
       | Inr (changed, users') \<Rightarrow>
         if changed then (case users_saveLocked env users' s of (s, Some e) \<Rightarrow> (s, Inl e)
           | (s, None) \<Rightarrow> (s\<lparr>us_cipher := Some master\<rparr>, Inr ()))
         else (s\<lparr>us_cipher := Some master\<rparr>, Inr ())))"

definition HasEncryptedFixedKeys :: "WebEnv \<Rightarrow> UserStore \<Rightarrow> bool web_result" where
  "HasEncryptedFixedKeys env s = with_users env s (\<lambda>users s.
     (s, Inr (list_ex (\<lambda>u. \<not> u_Disabled u \<and> u_KeyCipher u \<noteq> []) users)))"

text \<open>A master key is made only when no key is encrypted with an earlier one.\<close>

definition loadOrCreateUserKeyMaster ::
  "WebEnv \<Rightarrow> string \<Rightarrow> PrivateFile option \<Rightarrow> PrivateFile option \<Rightarrow> UserStore \<Rightarrow>
     UserStore \<times> PrivateFile option \<times> (web_error + string)" where
  "loadOrCreateUserKeyMaster env path rival file s =
     (case HasEncryptedFixedKeys env s of (s, Inl e) \<Rightarrow> (s, file, Inl e)
      | (s, Inr True) \<Rightarrow> (s, file, readSessionKey env file)
      | (s, Inr False) \<Rightarrow> (s, loadOrCreateSessionKey env path rival file))"

definition has_key :: "UserRecord \<Rightarrow> bool" where
  "has_key u \<longleftrightarrow> \<not> u_Disabled u \<and> u_KeyID u \<noteq> []"

definition FixedKeys :: "WebEnv \<Rightarrow> UserStore \<Rightarrow> FixedUserKey list web_result" where
  "FixedKeys env s = with_users env s (\<lambda>users s.
     (s, Inr (sort_key fk_Owner (map (\<lambda>u. fixedUserKey u []) (filter has_key users)))))"

definition verifier_of :: "UserRecord \<Rightarrow> FixedUserKeyVerifier" where
  "verifier_of u = \<lparr>fv_ID = u_KeyID u, fv_Owner = u_Username u, fv_Version = u_KeyVersion u, fv_Hash = u_KeyHash u\<rparr>"

definition FixedKeyVerifiers :: "WebEnv \<Rightarrow> UserStore \<Rightarrow> FixedUserKeyVerifier list web_result" where
  "FixedKeyVerifiers env s = with_users env s (\<lambda>users s. (s, Inr (sort_key fv_ID (map verifier_of (filter has_key users)))))"

definition RevealFixedKey :: "WebEnv \<Rightarrow> string \<Rightarrow> UserStore \<Rightarrow> FixedUserKey web_result" where
  "RevealFixedKey env username s = (case normalizeUsername username of Inl e \<Rightarrow> (s, Inl e)
     | Inr name \<Rightarrow> with_users env s (\<lambda>users s.
       case find (active_named name) users of None \<Rightarrow> (s, Inl (WErr ''user not found''))
       | Some u \<Rightarrow> (s, case reveal (we_crypto env) (us_cipher s) u of Inl e \<Rightarrow> Inl e | Inr secret \<Rightarrow> Inr (fixedUserKey u secret))))"

text \<open>The successor of a version in 64 bits; a version that is not positive is replaced by 1.\<close>

definition next_version :: "int \<Rightarrow> int" where
  "next_version v = (let n = (if v = 2 ^ 63 - 1 then - (2 ^ 63) else v + 1) in if n < 1 then 1 else n)"

definition RegenerateFixedKey :: "WebEnv \<Rightarrow> string \<Rightarrow> UserStore \<Rightarrow> FixedUserKey web_result" where
  "RegenerateFixedKey env username s = (case normalizeUsername username of Inl e \<Rightarrow> (s, Inl e)
     | Inr name \<Rightarrow> with_users env s (\<lambda>users s.
       case find (active_named name) users of None \<Rightarrow> (s, Inl (WErr ''user not found''))
       | Some u \<Rightarrow>
         (case us_cipher s of None \<Rightarrow> (s, Inl (WErr ''user-key encryption is unavailable''))
          | Some master \<Rightarrow>
            (case assign env 0 master (next_version (u_KeyVersion u)) u of Inl e \<Rightarrow> (s, Inl e)
             | Inr u' \<Rightarrow>
               (case users_saveLocked env (update_first (active_named name) (\<lambda>_. u') users) s of
                  (s, Some e) \<Rightarrow> (s, Inl e)
                | (s, None) \<Rightarrow> (s, case reveal (we_crypto env) (us_cipher s) u' of Inl e \<Rightarrow> Inl e
                    | Inr secret \<Rightarrow> Inr (fixedUserKey u' secret)))))))"

definition FixedKeyForUser :: "WebEnv \<Rightarrow> string \<Rightarrow> UserStore \<Rightarrow> FixedUserKeyVerifier web_result" where
  "FixedKeyForUser env username s = (case FixedKeyVerifiers env s of (s, Inl e) \<Rightarrow> (s, Inl e)
     | (s, Inr vs) \<Rightarrow> (s, case find (\<lambda>v. fv_Owner v = ToLower (TrimSpace username)) vs of
         Some v \<Rightarrow> Inr v | None \<Rightarrow> Inl (WErr ''fixed key not found'')))"

end
