(* ===== verification/Web_Accounts.thy ===== *)
theory Web_Accounts
  imports Web_Tokens
begin

text \<open>
  How the operations on accounts change the records: every one of them keeps the records in place,
  with their names, roles and creation times, and changes an active record only in the ways
  \<open>evolves\<close> lists. The invariants of the account store follow from that alone.
\<close>

section \<open>Shapes of a change\<close>

text \<open>
  A token of the new record is an old one, not more alive than before, or its hash is in \<open>H\<close>, the
  hashes of the tokens made by the step.
\<close>

definition token_evolves :: "AccessTokenRecord \<Rightarrow> AccessTokenRecord \<Rightarrow> bool" where
  "token_evolves t t' \<longleftrightarrow> at_Hash t' = at_Hash t \<and> at_ExpiresAt t' = at_ExpiresAt t \<and> at_Scopes t' = at_Scopes t \<and>
     (at_RevokedAt t \<noteq> None \<longrightarrow> at_RevokedAt t' \<noteq> None)"

definition tokens_evolve :: "string set \<Rightarrow> AccessTokenRecord list \<Rightarrow> AccessTokenRecord list \<Rightarrow> bool" where
  "tokens_evolve H ts ts' \<longleftrightarrow> (\<forall>t' \<in> set ts'. at_Hash t' \<in> H \<or> (\<exists>t \<in> set ts. token_evolves t t'))"

definition evolves :: "time \<Rightarrow> string set \<Rightarrow> UserRecord \<Rightarrow> UserRecord \<Rightarrow> bool" where
  "evolves now H u u' \<longleftrightarrow> u_Username u' = u_Username u \<and> u_Role u' = u_Role u \<and> u_CreatedAt u' = u_CreatedAt u \<and>
     (u_Disabled u \<longrightarrow> u' = u) \<and> (u_UpdatedAt u' = u_UpdatedAt u \<or> u_UpdatedAt u' = now) \<and> tokens_evolve H (u_AccessTokens u) (u_AccessTokens u')"

inductive accounts_step :: "time \<Rightarrow> string set \<Rightarrow> UserRecord list \<Rightarrow> UserRecord list \<Rightarrow> bool" for now H where
  keep: "list_all2 (evolves now H) us us' \<Longrightarrow> map u_Disabled us' = map u_Disabled us \<Longrightarrow> accounts_step now H us us'"
| add: "u_Username r \<notin> u_Username ` set us \<Longrightarrow> length us < maxUsers \<Longrightarrow> u_AccessTokens r = [] \<Longrightarrow> \<not> u_Disabled r \<Longrightarrow>
    u_UpdatedAt r = now \<Longrightarrow> accounts_step now H us (us @ [r])"
| disable: "find (\<lambda>u. u_Username u = name) us = Some u \<Longrightarrow> \<not> u_Disabled u \<Longrightarrow> u_Role u \<noteq> RoleAdmin \<or> admin_count us \<noteq> 1 \<Longrightarrow>
    accounts_step now H us (update_first (\<lambda>u. u_Username u = name) (disable_user now) us)"

lemma token_evolves_refl [simp]: "token_evolves t t"
  by (simp add: token_evolves_def)

lemma tokens_evolve_refl [simp]: "tokens_evolve H ts ts"
  using token_evolves_refl unfolding tokens_evolve_def by blast

lemma tokens_evolve_Nil [simp]: "tokens_evolve H ts []"
  by (simp add: tokens_evolve_def)

lemma evolves_refl [simp]: "evolves now H u u"
  by (simp add: evolves_def)

lemma tokens_evolve_subset: "set ts' \<subseteq> set ts \<Longrightarrow> tokens_evolve H ts ts'"
  using token_evolves_refl unfolding tokens_evolve_def by blast

lemma tokens_evolve_update:
  "(\<And>t. token_evolves t (f t)) \<Longrightarrow> tokens_evolve H ts (update_first P f ts)"
  using set_update_first_subset [of P f ts] by (fastforce simp: tokens_evolve_def)

lemma list_all2_update_first: "(\<And>x. R x x) \<Longrightarrow> (\<And>x. P x \<Longrightarrow> R x (f x)) \<Longrightarrow> list_all2 R xs (update_first P f xs)"
  by (induction xs) (auto simp: list_all2_refl)

lemma keep_refl [simp]: "accounts_step now H us us"
  by (rule accounts_step.keep) (simp_all add: list_all2_refl)

text \<open>An update of the active record of a name.\<close>

lemma update_active:
  assumes "\<And>u. \<not> u_Disabled u \<Longrightarrow> evolves now H u (f u) \<and> \<not> u_Disabled (f u)"
    and "\<And>u. P u \<Longrightarrow> \<not> u_Disabled u"
  shows "accounts_step now H us (update_first P f us)"
proof (rule accounts_step.keep)
  show "list_all2 (evolves now H) us (update_first P f us)" using assms by (intro list_all2_update_first) auto
  show "map u_Disabled (update_first P f us) = map u_Disabled us" using assms by (intro map_update_first) auto
qed

section \<open>The operations\<close>

lemma with_users_loaded [simp]: "us_loaded s \<Longrightarrow> with_users env s k = k (us_users s) s"
  by (simp add: with_users_def users_loadLocked_def)

text \<open>Saving replaces the records or leaves them, and reports success only when it replaced them.\<close>

lemma users_saveLocked_users:
  "us_users (fst (users_saveLocked env users s)) = users \<or> us_users (fst (users_saveLocked env users s)) = us_users s"
  by (auto simp: users_saveLocked_def split: sum.splits prod.splits)

lemma users_saveLocked_loaded [simp]: "us_loaded s \<Longrightarrow> us_loaded (fst (users_saveLocked env users s))"
  by (auto simp: users_saveLocked_def split: sum.splits prod.splits)

lemma users_saveLocked_cipher [simp]: "us_cipher (fst (users_saveLocked env users s)) = us_cipher s"
  by (auto simp: users_saveLocked_def split: sum.splits prod.splits)

lemma users_saveLocked_None:
  "snd (users_saveLocked env users s) = None \<Longrightarrow> us_users (fst (users_saveLocked env users s)) = users"
  by (auto simp: users_saveLocked_def writePrivateFile_def split: sum.splits prod.splits option.splits if_splits)

lemma save_users_fst [simp]: "fst (save_users env users r s) = fst (users_saveLocked env users s)"
  by (auto simp: save_users_def split: prod.splits option.splits)

lemma save_users_Inr:
  "snd (save_users env users r s) = Inr x \<Longrightarrow> x = r \<and> us_users (fst (users_saveLocked env users s)) = users"
  using users_saveLocked_None [of env users s] by (auto simp: save_users_def split: prod.splits option.splits)

definition steps_to :: "time \<Rightarrow> string set \<Rightarrow> UserStore \<Rightarrow> UserStore \<Rightarrow> bool" where
  "steps_to now H s s' \<longleftrightarrow> us_loaded s' \<and> accounts_step now H (us_users s) (us_users s')"

lemma steps_to_refl [simp]: "us_loaded s \<Longrightarrow> steps_to now H s s"
  by (simp add: steps_to_def)

lemma steps_to_save:
  "us_loaded s \<Longrightarrow> accounts_step now H (us_users s) users \<Longrightarrow> steps_to now H s (fst (users_saveLocked env users s))"
  using users_saveLocked_users [of env users s] by (auto simp: steps_to_def)

lemma update_credentials_step:
  "accounts_step now H us (update_first (active_named name) (\<lambda>u. u\<lparr>u_PasswordHash := h, u_UpdatedAt := now\<rparr>) us)"
  by (rule update_active) (auto simp: evolves_def active_named_def)

lemma authenticate_check_step: "us_loaded s \<Longrightarrow> fst (authenticate_check env username password s) = s"
  by (simp add: authenticate_check_def Let_def split: sum.splits)

lemma authenticate_commit_step: "us_loaded s \<Longrightarrow> steps_to (we_now env) H s (fst (authenticate_commit env t s))"
  using update_credentials_step
  by (auto simp: authenticate_commit_def Let_def split: option.splits intro!: steps_to_save)

lemma change_check_step: "us_loaded s \<Longrightarrow> fst (change_check env username current new s) = s"
  by (simp add: change_check_def split: sum.splits option.splits)

lemma change_commit_step: "us_loaded s \<Longrightarrow> steps_to (we_now env) H s (fst (change_commit env t s))"
  using update_credentials_step
  by (auto simp: change_commit_def Let_def split: option.splits intro!: steps_to_save)

lemma newUserRecord_Inr:
  "newUserRecord env username password role = Inr r \<Longrightarrow> u_AccessTokens r = [] \<and> \<not> u_Disabled r \<and>
     u_LegacyAccessTokens r = [] \<and> normalizeUsername username = Inr (u_Username r) \<and> u_Role r = normalizeRole role \<and>
     hashPassword env password = Inr (u_PasswordHash r) \<and> u_UpdatedAt r = we_now env"
  by (auto simp: newUserRecord_def split: sum.splits option.splits)

lemma assign_Inr:
  "assign env k master v u = Inr u' \<Longrightarrow> u_Username u' = u_Username u \<and> u_Role u' = u_Role u \<and> u_CreatedAt u' = u_CreatedAt u \<and>
     u_Disabled u' = u_Disabled u \<and> u_AccessTokens u' = u_AccessTokens u \<and> u_LegacyAccessTokens u' = u_LegacyAccessTokens u \<and>
     u_PasswordHash u' = u_PasswordHash u \<and> u_UpdatedAt u' = u_UpdatedAt u \<and> u_KeyVersion u' = v \<and> u_KeyID u' \<noteq> []"
  by (auto simp: assign_def Let_def split: sum.splits)

text \<open>The record a new account is made of.\<close>

definition created_record :: "WebEnv \<Rightarrow> string option \<Rightarrow> string \<Rightarrow> string \<Rightarrow> string \<Rightarrow> web_error + UserRecord" where
  "created_record env cipher username password role = (case newUserRecord env username password role of Inl e \<Rightarrow> Inl e
     | Inr r0 \<Rightarrow> (case cipher of None \<Rightarrow> Inr r0 | Some master \<Rightarrow> assign env 1 master 1 r0))"

lemma created_record_Inr:
  "created_record env cipher username password role = Inr r \<Longrightarrow> u_AccessTokens r = [] \<and> \<not> u_Disabled r \<and>
     u_LegacyAccessTokens r = [] \<and> normalizeUsername username = Inr (u_Username r) \<and> u_Role r = normalizeRole role \<and>
     hashPassword env password = Inr (u_PasswordHash r) \<and> u_UpdatedAt r = we_now env"
  using newUserRecord_Inr assign_Inr
  by (fastforce simp: created_record_def split: sum.splits option.splits)

lemma Create_loaded:
  assumes "us_loaded s"
  shows "Create env username password role s = (if we_workErr env \<noteq> None then (s, Inl ErrPasswordWorkBusy)
    else case created_record env (us_cipher s) username password role of Inl e \<Rightarrow> (s, Inl e)
    | Inr r \<Rightarrow> if list_ex (\<lambda>u. u_Username u = u_Username r) (us_users s) then (s, Inl ErrUsernameInUse)
        else if length (us_users s) \<ge> maxUsers then (s, Inl ErrUserLimitReached)
        else save_users env (us_users s @ [r]) (publicUser r) s)"
  using assms by (auto simp: Create_def created_record_def split: sum.splits option.splits)

lemma Create_step:
  assumes "us_loaded s"
  shows "steps_to (we_now env) H s (fst (Create env username password role s))"
proof -
  have "accounts_step (we_now env) H (us_users s) (us_users s @ [r])"
    if "created_record env (us_cipher s) username password role = Inr r"
      "\<not> list_ex (\<lambda>u. u_Username u = u_Username r) (us_users s)" "\<not> maxUsers \<le> length (us_users s)" for r
    using that(2,3) created_record_Inr [OF that(1)] by (intro accounts_step.add) (auto simp: list_ex_iff)
  with assms show ?thesis by (auto simp: Create_loaded split: sum.splits intro!: steps_to_save)
qed

lemma users_Delete_step: "us_loaded s \<Longrightarrow> steps_to (we_now env) H s (fst (users_Delete env username s))"
  by (auto simp: users_Delete_def split: sum.splits option.splits intro!: steps_to_save accounts_step.disable)

lemma drop_inactive_subset: "set (drop_inactive now n ts) \<subseteq> set ts"
  by (induction now n ts rule: drop_inactive.induct) auto

lemma compactAccessTokens_subset: "set (compactAccessTokens ts now) \<subseteq> set ts"
  using drop_inactive_subset [of now _ "filter (\<lambda>t. \<not> token_stale now t) ts"]
  by (auto simp: compactAccessTokens_def Let_def)

lemma add_token_evolves: "at_Hash t \<in> H \<Longrightarrow> evolves now H u (add_token now t u) \<or> u_Disabled u"
  using compactAccessTokens_subset [of "u_AccessTokens u" now]
  by (fastforce simp: evolves_def add_token_def tokens_evolve_def)

text \<open>
  The hash of the token a creation draws; it can be in the store even when the creation reported an
  error, since a save can be committed and still fail to reach the directory.
\<close>

definition drawn_hashes :: "WebEnv \<Rightarrow> string set" where
  "drawn_hashes env = (case we_rand env 0 32 of Inl _ \<Rightarrow> {}
     | Inr bs \<Rightarrow> {token_hash (we_crypto env) (accessTokenPrefix @ base64_EncodeToString url_alphabet bs)})"

lemma new_access_token_Inr:
  assumes "new_access_token env name scopes expires = Inr c"
  shows "normalizeAccessTokenScopes scopes = Inr (at_Scopes (ct_Token c))" "at_ExpiresAt (ct_Token c) = expires"
    "we_now env < expires" "expires \<le> we_now env + 365 * 24 * hour"
    "at_RevokedAt (ct_Token c) = None" "at_LastUsedAt (ct_Token c) = None"
    "at_Hash (ct_Token c) = token_hash (we_crypto env) (ct_Secret c)"
    "\<exists>bs. we_rand env 0 32 = Inr bs \<and> ct_Secret c = accessTokenPrefix @ base64_EncodeToString url_alphabet bs"
  using assms by (auto simp: new_access_token_def Let_def split: sum.splits if_splits)

lemma new_access_token_drawn:
  "new_access_token env name scopes expires = Inr c \<Longrightarrow> at_Hash (ct_Token c) \<in> drawn_hashes env"
  using new_access_token_Inr(7,8) by (fastforce simp: drawn_hashes_def)

lemma CreateAccessToken_step:
  assumes "us_loaded s"
  shows "steps_to (we_now env) (drawn_hashes env) s (fst (CreateAccessToken env username name scopes expires s))"
proof -
  have "accounts_step (we_now env) (drawn_hashes env) us (update_first (active_named n) (add_token (we_now env) t) us)"
    if "at_Hash t \<in> drawn_hashes env" for t us n
    using add_token_evolves [OF that]
    by (intro update_active) (auto simp: active_named_def add_token_def)
  with assms new_access_token_drawn show ?thesis
    by (auto simp: CreateAccessToken_def split: sum.splits option.splits intro!: steps_to_save)
qed

lemma RevokeAccessToken_step: "us_loaded s \<Longrightarrow> steps_to (we_now env) H s (fst (RevokeAccessToken env username ident s))"
  by (auto simp: RevokeAccessToken_def Let_def revoke_token_def evolves_def revoke_at_def token_evolves_def active_named_def
      split: sum.splits option.splits intro!: steps_to_save update_active tokens_evolve_update)

lemma AuthenticateAccessToken_step:
  "us_loaded s \<Longrightarrow> steps_to (we_now env) H s (fst (AuthenticateAccessToken env secret s))"
  by (auto simp: AuthenticateAccessToken_def users_loadLocked_def Let_def touch_token_def evolves_def token_evolves_def holds_hash_def
      split: sum.splits option.splits intro!: steps_to_save update_active tokens_evolve_update)

lemma initialize_keys_evolves:
  "initialize_keys env master k us = Inr (c, us') \<Longrightarrow> list_all2 (evolves now H) us us' \<and> map u_Disabled us' = map u_Disabled us"
proof (induction us arbitrary: k c us')
  case (Cons u us)
  have "evolves now H u v" if "assign env k master 1 u = Inr v" "\<not> u_Disabled u" for v
    using assign_Inr [OF that(1)] that(2) by (simp add: evolves_def)
  moreover have "u_Disabled v = u_Disabled u" if "assign env k master 1 u = Inr v" for v using assign_Inr [OF that] by simp
  ultimately show ?case using Cons
    by (auto split: if_splits sum.splits prod.splits simp: map_sum_def)
qed simp

lemma InitializeFixedKeys_step:
  assumes "us_loaded s"
  shows "steps_to (we_now env) H s (fst (InitializeFixedKeys env master s))"
proof (cases "newUserKeyCipher master")
  case (Inr m)
  show ?thesis
  proof (cases "initialize_keys env m 0 (us_users s)")
    case i: (Inr r)
    obtain c us' where r: "r = (c, us')" by fastforce
    have "steps_to (we_now env) H s (fst (users_saveLocked env us' s))"
      using initialize_keys_evolves [OF i [unfolded r]] assms by (intro steps_to_save accounts_step.keep) auto
    with assms Inr i r show ?thesis
      by (cases "users_saveLocked env us' s") (auto simp: InitializeFixedKeys_def steps_to_def split: option.splits)
  qed (use assms Inr in \<open>simp add: InitializeFixedKeys_def\<close>)
qed (use assms in \<open>simp add: InitializeFixedKeys_def\<close>)

lemma RegenerateFixedKey_step:
  assumes "us_loaded s"
  shows "steps_to (we_now env) H s (fst (RegenerateFixedKey env username s))"
proof -
  have "accounts_step (we_now env) H us (update_first (active_named name) (\<lambda>_. u') us)"
    if "find (active_named name) us = Some u" "assign env 0 m v u = Inr u'" for us name u u' m v
  proof -
    have "update_first (active_named name) (\<lambda>_. u') us = update_first (\<lambda>x. x = u) (\<lambda>_. u') us"
      using that(1) find_SomeD [OF that(1)] by (induction us) (auto split: if_splits dest: find_SomeD)
    moreover have "evolves (we_now env) H u u' \<and> \<not> u_Disabled u'"
      using assign_Inr [OF that(2)] find_SomeD [OF that(1)] by (simp add: evolves_def active_named_def)
    ultimately show ?thesis using find_SomeD [OF that(1)]
      by (auto intro!: accounts_step.keep list_all2_update_first map_update_first simp: active_named_def)
  qed
  with assms show ?thesis
    by (auto simp: RegenerateFixedKey_def split: sum.splits option.splits prod.splits intro!: steps_to_save dest: sym)
      (metis steps_to_save fst_conv)+
qed

end
