(* ===== verification/Web_Machine.thy ===== *)
theory Web_Machine
  imports Web_Accounts
begin

text \<open>
  The account store over time. The contract of its clients is a locale: each step changes the records
  as \<open>accounts_step\<close> allows. What clients rely on is proved from the contract alone: the last
  administrator stays, a deleted account never comes back, a token that is dead stays dead.
\<close>

section \<open>One step\<close>

definition accounts_ok :: "UserRecord list \<Rightarrow> bool" where
  "accounts_ok us \<longleftrightarrow> distinct (map u_Username us) \<and> length us \<le> maxUsers \<and> admin_count us \<ge> 1"

lemma admin_count_append [simp]: "admin_count (us @ vs) = admin_count us + admin_count vs"
  by (simp add: admin_count_def)

lemma list_all2_evolves_names: "list_all2 (evolves now H) us us' \<Longrightarrow> map u_Username us' = map u_Username us"
  by (induction rule: list_all2_induct) (auto simp: evolves_def)

lemma evolves_admin_count:
  "list_all2 (evolves now H) us us' \<Longrightarrow> map u_Disabled us' = map u_Disabled us \<Longrightarrow> admin_count us' = admin_count us"
  by (induction rule: list_all2_induct) (auto simp: evolves_def admin_count_def)

lemma admin_count_disable:
  assumes "find (\<lambda>u. u_Username u = name) us = Some u" "\<not> u_Disabled u"
  shows "admin_count (update_first (\<lambda>u. u_Username u = name) (disable_user now) us) =
    (if u_Role u = RoleAdmin then admin_count us - 1 else admin_count us)"
  using assms
proof (induction us)
  case (Cons a us)
  show ?case
  proof (cases "u_Username a = name")
    case True
    with Cons.prems show ?thesis by (auto simp: admin_count_def disable_user_def)
  next
    case False
    with Cons have "u \<in> set us" by (auto dest: find_SomeD)
    with Cons.prems(2) have "u_Role u = RoleAdmin \<Longrightarrow> admin_count us > 0"
      by (auto simp: admin_count_def length_greater_0_conv filter_empty_conv)
    with Cons False show ?thesis by (auto simp: admin_count_def)
  qed
qed simp

lemma disable_names: "map u_Username (update_first P (disable_user now) us) = map u_Username us"
  by (rule map_update_first) (simp add: disable_user_def)

lemma accounts_step_ok: "accounts_step now H us us' \<Longrightarrow> accounts_ok us \<Longrightarrow> accounts_ok us'"
proof (induction rule: accounts_step.induct)
  case (keep us us')
  then show ?case using list_all2_evolves_names [OF keep(1)] evolves_admin_count [OF keep(1,2)]
    by (auto simp: accounts_ok_def dest: list_all2_lengthD)
next
  case (add r us)
  then show ?case by (auto simp: accounts_ok_def)
next
  case (disable name us u)
  have "admin_count us - 1 \<ge> 1 \<or> u_Role u \<noteq> RoleAdmin" using disable by (auto simp: accounts_ok_def)
  with disable show ?case by (auto simp: accounts_ok_def admin_count_disable disable_names)
qed

lemma update_first_other: "find P xs = Some y \<Longrightarrow> x \<in> set xs \<Longrightarrow> x \<noteq> y \<Longrightarrow> x \<in> set (update_first P f xs)"
  by (induction xs) (auto split: if_splits)

text \<open>A disabled record is never touched again.\<close>

lemma accounts_step_disabled: "accounts_step now H us us' \<Longrightarrow> u \<in> set us \<Longrightarrow> u_Disabled u \<Longrightarrow> u \<in> set us'"
proof (induction rule: accounts_step.induct)
  case (keep us us')
  then obtain i where "i < length us" "us ! i = u" by (auto simp: in_set_conv_nth)
  with keep show ?case by (auto simp: list_all2_conv_all_nth evolves_def in_set_conv_nth)
next
  case (disable name us v)
  then show ?case by (intro update_first_other) auto
qed simp

text \<open>A hash is dead when every token with it, of an active account, is revoked or expired.\<close>

definition dead_hash :: "string \<Rightarrow> time \<Rightarrow> UserRecord list \<Rightarrow> bool" where
  "dead_hash h now us \<longleftrightarrow> (\<forall>u \<in> set us. \<forall>t \<in> set (u_AccessTokens u). \<not> u_Disabled u \<longrightarrow> at_Hash t = h \<longrightarrow> \<not> token_active now t)"

lemma dead_hash_later: "dead_hash h now us \<Longrightarrow> now \<le> later \<Longrightarrow> dead_hash h later us"
  by (fastforce simp: dead_hash_def token_active_def)

lemma evolves_dead:
  assumes "evolves now H u u'" "h \<notin> H" "\<not> u_Disabled u'" "dead_hash h now [u]"
  shows "dead_hash h now [u']"
  using assms by (cases "u_Disabled u")
    (fastforce simp: evolves_def dead_hash_def tokens_evolve_def token_evolves_def token_active_def)+

lemma dead_hash_elements: "dead_hash h now us \<longleftrightarrow> (\<forall>u \<in> set us. dead_hash h now [u])"
  by (auto simp: dead_hash_def)

lemma accounts_step_dead: "accounts_step now H us us' \<Longrightarrow> h \<notin> H \<Longrightarrow> dead_hash h now us \<Longrightarrow> dead_hash h now us'"
proof (induction rule: accounts_step.induct)
  case (keep us us')
  have "dead_hash h now [u']" if "u' \<in> set us'" for u'
  proof (cases "u_Disabled u'")
    case True
    then show ?thesis by (simp add: dead_hash_def)
  next
    case False
    from that keep(1) obtain u where "u \<in> set us" "evolves now H u u'" by (metis in_set_conv_nth list_all2_conv_all_nth)
    with keep False show ?thesis using evolves_dead dead_hash_elements by blast
  qed
  then show ?case using dead_hash_elements by blast
next
  case (disable name us u)
  then show ?case using set_update_first_subset [of "\<lambda>u. u_Username u = name" "disable_user now" us]
    by (fastforce simp: dead_hash_def disable_user_def)
qed (auto simp: dead_hash_def)

text \<open>The credentials of a name are newer than an instant.\<close>

definition newer :: "string \<Rightarrow> time \<Rightarrow> UserRecord list \<Rightarrow> bool" where
  "newer name v us \<longleftrightarrow> (\<forall>u \<in> set us. u_Username u = name \<longrightarrow> v < u_UpdatedAt u)"

lemma accounts_step_newer: "accounts_step now H us us' \<Longrightarrow> v < now \<Longrightarrow> newer name v us \<Longrightarrow> newer name v us'"
proof (induction rule: accounts_step.induct)
  case (keep us us')
  have "v < u_UpdatedAt u'" if "u' \<in> set us'" "u_Username u' = name" for u'
  proof -
    from that(1) keep(1) obtain u where "u \<in> set us" "evolves now H u u'" by (metis in_set_conv_nth list_all2_conv_all_nth)
    with keep that(2) show ?thesis by (auto simp: evolves_def newer_def)
  qed
  then show ?case by (simp add: newer_def)
next
  case (disable name' us u)
  then show ?case using set_update_first_subset [of "\<lambda>u. u_Username u = name'" "disable_user now" us]
    by (fastforce simp: newer_def disable_user_def)
qed (auto simp: newer_def)

section \<open>The contract\<close>

locale account_contract =
  fixes step :: "time \<Rightarrow> string set \<Rightarrow> 's \<Rightarrow> 's \<Rightarrow> bool" and records :: "'s \<Rightarrow> UserRecord list"
  assumes changes: "step now H s s' \<Longrightarrow> accounts_step now H (records s) (records s')"
begin

inductive history :: "time \<Rightarrow> 's \<Rightarrow> string set \<Rightarrow> time \<Rightarrow> 's \<Rightarrow> bool" for start s where
  here: "history start s {} start s"
| more: "history start s H t s1 \<Longrightarrow> t \<le> now \<Longrightarrow> step now H1 s1 s2 \<Longrightarrow> history start s (H \<union> H1) now s2"

lemma history_ok: "history start s H t s' \<Longrightarrow> accounts_ok (records s) \<Longrightarrow> accounts_ok (records s')"
  by (induction rule: history.induct) (use accounts_step_ok changes in blast)+

lemma history_disabled: "history start s H t s' \<Longrightarrow> u \<in> set (records s) \<Longrightarrow> u_Disabled u \<Longrightarrow> u \<in> set (records s')"
  by (induction rule: history.induct) (use accounts_step_disabled changes in blast)+

lemma history_time: "history start s H t s' \<Longrightarrow> start \<le> t"
  by (induction rule: history.induct) auto

lemma history_dead: "history start s H t s' \<Longrightarrow> h \<notin> H \<Longrightarrow> dead_hash h start (records s) \<Longrightarrow> dead_hash h t (records s')"
  by (induction rule: history.induct) (use accounts_step_dead dead_hash_later changes in \<open>blast+\<close>)

lemma history_newer: "history start s H t s' \<Longrightarrow> v < start \<Longrightarrow> newer name v (records s) \<Longrightarrow> newer name v (records s')"
proof (induction rule: history.induct)
  case (more H t s1 now H1 s2)
  then have "v < now" using history_time by fastforce
  with more show ?case using accounts_step_newer changes by blast
qed

end

section \<open>The steps of the gateway\<close>

text \<open>
  Every operation that writes the account store. A commit takes any ticket: between the check and
  the commit of one request other requests run, and the ticket may be as old as it likes.
\<close>

inductive web_op :: "WebEnv \<Rightarrow> string set \<Rightarrow> UserStore \<Rightarrow> UserStore \<Rightarrow> bool" where
  authenticate: "web_op env {} s (fst (authenticate_commit env t s))"
| change: "web_op env {} s (fst (change_commit env t s))"
| create: "web_op env {} s (fst (Create env username password role s))"
| delete: "web_op env {} s (fst (users_Delete env username s))"
| new_token: "web_op env (drawn_hashes env) s (fst (CreateAccessToken env username name scopes expires s))"
| revoke: "web_op env {} s (fst (RevokeAccessToken env username ident s))"
| use_token: "web_op env {} s (fst (AuthenticateAccessToken env secret s))"
| init_keys: "web_op env {} s (fst (InitializeFixedKeys env master s))"
| regenerate: "web_op env {} s (fst (RegenerateFixedKey env username s))"

definition web_step :: "time \<Rightarrow> string set \<Rightarrow> UserStore \<Rightarrow> UserStore \<Rightarrow> bool" where
  "web_step now H s s' \<longleftrightarrow> us_loaded s \<and> (\<exists>env. we_now env = now \<and> web_op env H s s')"

lemma web_op_steps: "web_op env H s s' \<Longrightarrow> us_loaded s \<Longrightarrow> steps_to (we_now env) H s s'"
  by (induction rule: web_op.induct)
    (simp_all add: authenticate_commit_step change_commit_step Create_step users_Delete_step CreateAccessToken_step
      RevokeAccessToken_step AuthenticateAccessToken_step InitializeFixedKeys_step RegenerateFixedKey_step)

interpretation gw: account_contract web_step us_users
  by unfold_locales (auto simp: web_step_def steps_to_def dest: web_op_steps)

abbreviation web_run :: "time \<Rightarrow> UserStore \<Rightarrow> string set \<Rightarrow> time \<Rightarrow> UserStore \<Rightarrow> bool" where
  "web_run \<equiv> gw.history"

lemma web_run_loaded: "web_run start s H t s' \<Longrightarrow> us_loaded s \<Longrightarrow> us_loaded s'"
  by (induction rule: gw.history.induct) (auto simp: web_step_def steps_to_def dest: web_op_steps)

end
