(* ===== verification/Web_Password.thy ===== *)
theory Web_Password
  imports Web_Machine
begin

text \<open>
  Passwords: the derivation loop is PBKDF2 of RFC 8018, an encoded hash accepts exactly the passwords
  with the same derived key, and a login that succeeds has checked the hash the account has at the
  moment the login is granted.
\<close>

section \<open>The derivation function\<close>

text \<open>
  RFC 8018, 5.2: \<open>T_i\<close> is the exclusive or of \<open>U_1, \<dots>, U_c\<close>, with \<open>U_1\<close> the code of the salt and
  the block number and \<open>U_j\<close> the code of \<open>U_{j-1}\<close>; the key is a prefix of \<open>T_1 @ T_2 @ \<dots>\<close>.
\<close>

definition rfc_U :: "(string \<Rightarrow> string) \<Rightarrow> string \<Rightarrow> nat \<Rightarrow> nat \<Rightarrow> string" where
  "rfc_U prf salt i j = (prf ^^ j) (salt @ PutUint32 i)"

definition rfc_T :: "(string \<Rightarrow> string) \<Rightarrow> string \<Rightarrow> nat \<Rightarrow> nat \<Rightarrow> string" where
  "rfc_T prf salt c i = foldl xor_bytes (rfc_U prf salt i 1) (map (rfc_U prf salt i) [2..<Suc c])"

definition rfc_pbkdf2 :: "(string \<Rightarrow> string) \<Rightarrow> string \<Rightarrow> nat \<Rightarrow> nat \<Rightarrow> string" where
  "rfc_pbkdf2 prf salt c len = take len (concat (map (rfc_T prf salt c) [1..<Suc ((len + 31) div 32)]))"

lemma pbkdf2_rounds_foldl:
  "pbkdf2_rounds mac n ((mac ^^ j) x) t = foldl xor_bytes t (map (\<lambda>k. (mac ^^ k) x) [Suc j..<Suc (j + n)])"
proof (induction n arbitrary: j t)
  case (Suc n)
  have "[Suc j..<Suc (j + Suc n)] = Suc j # [Suc (Suc j)..<Suc (Suc j + n)]" by (simp add: upt_conv_Cons del: upt_Suc)
  then show ?case using Suc [of "Suc j" "xor_bytes t ((mac ^^ Suc j) x)"] by (simp add: Let_def del: upt_Suc)
qed simp

lemma pbkdf2_block:
  assumes "c \<ge> 1"
  shows "pbkdf2_rounds mac (c - Suc 0) (mac (salt @ PutUint32 i)) (mac (salt @ PutUint32 i)) = rfc_T mac salt c i"
proof -
  have "Suc (1 + (c - 1)) = Suc c" using assms by simp
  with pbkdf2_rounds_foldl [of mac "c - 1" 1 "salt @ PutUint32 i"] show ?thesis
    by (simp add: rfc_T_def rfc_U_def [abs_def] numeral_2_eq_2 del: upt_Suc)
qed

lemma pbkdf2_blocks_concat:
  assumes "c \<ge> 1"
  shows "pbkdf2_blocks mac salt c b n out = out @ concat (map (rfc_T mac salt c) [b..<b + n])"
proof (induction n arbitrary: b out)
  case (Suc n)
  have "[b..<b + Suc n] = b # [Suc b..<Suc b + n]" by (simp add: upt_conv_Cons del: upt_Suc)
  with Suc show ?case by (simp add: Let_def pbkdf2_block [OF assms] del: upt_Suc)
qed simp

text \<open>
  C36: the derivation loop, which folds the codes into one buffer in place, computes PBKDF2 as RFC 8018
  defines it, for every number of iterations and every length of the key.
\<close>

theorem pbkdf2_is_rfc8018:
  assumes "iterations \<ge> 1"
  shows "pbkdf2SHA256 cr password salt iterations keyLen = rfc_pbkdf2 (cr_hmac cr password) salt iterations keyLen"
  by (simp add: pbkdf2SHA256_def rfc_pbkdf2_def pbkdf2_blocks_concat [OF assms])

definition example_crypto :: Crypto where
  "example_crypto = \<lparr>cr_sha256 = (\<lambda>s. take 32 (s @ replicate 32 CHR 0x00)),
     cr_hmac = (\<lambda>key msg. take 32 (key @ msg @ replicate 32 CHR 0x00)),
     cr_seal = (\<lambda>key nonce plain aad. plain @ take 16 (key @ nonce @ aad @ replicate 16 CHR 0x00)),
     cr_open = (\<lambda>key nonce sealed aad. let n = length sealed - 16 in
       if drop n sealed = take 16 (key @ nonce @ aad @ replicate 16 CHR 0x00) then Some (take n sealed) else None)\<rparr>"

theorem pbkdf2_is_rfc8018_witness:
  "pbkdf2SHA256 example_crypto ''pw'' ''salt'' 3 40 = rfc_pbkdf2 (cr_hmac example_crypto ''pw'') ''salt'' 3 40"
  by (rule pbkdf2_is_rfc8018) simp

section \<open>Encoded hashes\<close>

lemma length_xor_bytes [simp]: "length (xor_bytes t u) = min (length t) (length u)"
  by (simp add: xor_bytes_def)

lemma length_rounds:
  assumes "\<And>m. length (mac m) = 32" "length t = 32"
  shows "length (pbkdf2_rounds mac n u t) = 32"
  using assms(2) by (induction n arbitrary: u t) (simp_all add: Let_def assms(1))

lemma length_pbkdf2:
  assumes "\<And>m. length (cr_hmac cr password m) = 32"
  shows "length (pbkdf2SHA256 cr password salt iterations 32) = 32"
proof -
  have "(32 + 31) div 32 = Suc 0" by simp
  then have "pbkdf2SHA256 cr password salt iterations 32 =
      take 32 (let u = cr_hmac cr password (salt @ PutUint32 1) in pbkdf2_rounds (cr_hmac cr password) (iterations - 1) u u)"
    unfolding pbkdf2SHA256_def by (simp only: pbkdf2_blocks.simps Let_def append_Nil)
  with length_rounds [of "cr_hmac cr password", OF assms assms] show ?thesis by (simp add: Let_def)
qed

lemma Split_step: "c \<notin> set e \<Longrightarrow> Split c (e @ c # s) = e # Split c s"
  by (induction e) auto

lemma hex_no_dollar: "dollar \<notin> set (hex_EncodeToString bs)"
proof -
  have "plain_hex c \<Longrightarrow> c \<noteq> dollar" if "plain_hex = (\<lambda>c. (of_char c :: nat) \<ge> 48)" for plain_hex c
    using that by (auto simp: dollar_def)
  moreover have "(of_char (hex_digit n) :: nat) \<ge> 48" if "n < 16" for n using that by (auto simp: hex_digit_def)
  moreover have "list_all (\<lambda>c. (of_char c :: nat) \<ge> 48) (hex_EncodeToString bs)" for bs
  proof (induction bs)
    case (Cons b bs)
    have "(of_char b :: nat) < 256" by (rule nat_of_char_less_256)
    with Cons calculation(2) show ?case by (simp add: hex_EncodeToString_def Let_def less_mult_imp_div_less)
  qed (simp add: hex_EncodeToString_def)
  ultimately show ?thesis by (fastforce simp: list_all_iff)
qed

lemma passwordHash_parts:
  "Split dollar (passwordHashScheme @ [dollar] @ itoa passwordHashIterations @ [dollar] @ hex_EncodeToString salt @ [dollar] @ hex_EncodeToString key) =
     [passwordHashScheme, itoa passwordHashIterations, hex_EncodeToString salt, hex_EncodeToString key]"
proof -
  have "dollar \<notin> set passwordHashScheme" "dollar \<notin> set (itoa passwordHashIterations)" by code_simp+
  then show ?thesis by (simp add: Split_step Split_no_sep hex_no_dollar)
qed

lemma Atoi_iterations: "Atoi (itoa passwordHashIterations) = Some passwordHashIterations"
  by code_simp

text \<open>
  a hash that was made for a password accepts a password exactly when it derives the same key with
  the salt of the hash; in particular it accepts the password it was made for, and it is never
  scheduled for an upgrade.
\<close>

theorem password_hash_accepts:
  assumes "encodePasswordHash env password = Inr encoded"
    and "we_rand env 0 16 = Inr salt" "length salt = 16"
    and hmac: "\<And>key m. length (cr_hmac (we_crypto env) key m) = 32"
  shows "(verifyPasswordHash (we_crypto env) encoded attempt \<longleftrightarrow>
      pbkdf2SHA256 (we_crypto env) attempt salt 600000 32 = pbkdf2SHA256 (we_crypto env) password salt 600000 32) \<and>
    verifyPasswordHash (we_crypto env) encoded password \<and> \<not> passwordHashNeedsUpgrade encoded"
proof -
  let ?key = "pbkdf2SHA256 (we_crypto env) password salt (nat passwordHashIterations) 32"
  have e: "encoded = passwordHashScheme @ [dollar] @ itoa passwordHashIterations @ [dollar] @ hex_EncodeToString salt @ [dollar] @ hex_EncodeToString ?key"
    using assms(1,2) by (simp add: encodePasswordHash_def)
  have k: "length ?key = 32" by (rule length_pbkdf2) (rule hmac)
  have s: "passwordHashScheme \<noteq> legacyPasswordHashScheme" by (simp add: passwordHashScheme_def legacyPasswordHashScheme_def)
  have r: "100000 \<le> passwordHashIterations" "passwordHashIterations \<le> 2000000" by (simp_all add: passwordHashIterations_def)
  have v: "verifyPasswordHash (we_crypto env) encoded q \<longleftrightarrow> pbkdf2SHA256 (we_crypto env) q salt (nat passwordHashIterations) 32 = ?key" for q
    unfolding verifyPasswordHash_def e passwordHash_parts Let_def
    using s k assms(3) r by (auto simp: Atoi_iterations)
  have "\<not> passwordHashNeedsUpgrade encoded"
    unfolding passwordHashNeedsUpgrade_def e passwordHash_parts by (simp add: Atoi_iterations)
  with v show ?thesis by (simp add: passwordHashIterations_def)
qed

definition example_web_env :: "time \<Rightarrow> WebEnv" where
  "example_web_env now = \<lparr>we_crypto = example_crypto, we_now = now, we_rand = (\<lambda>k n. Inr (replicate n (char_of (k + 1)))),
     we_Marshal = (\<lambda>us. Inr ''[]''), we_Unmarshal = (\<lambda>d. Inr []), we_openErr = None, we_statErr = None, we_readErr = None,
     we_mkdirErr = None, we_createErr = None, we_chmodErr = None, we_writeErr = None, we_fsyncErr = None, we_closeErr = None,
     we_renameErr = None, we_dirOpenErr = None, we_dirSyncErr = None, we_workErr = None\<rparr>"

lemma example_web_env_simps [simp]:
  "we_crypto (example_web_env now) = example_crypto" "we_now (example_web_env now) = now"
  "we_rand (example_web_env now) k n = Inr (replicate n (char_of (k + 1)))" "we_workErr (example_web_env now) = None"
  by (simp_all add: example_web_env_def)

lemma example_hmac: "length (cr_hmac example_crypto key m) = 32"
  by (simp add: example_crypto_def)

theorem password_hash_accepts_witness:
  "\<exists>encoded. encodePasswordHash (example_web_env 7) ''correct horse'' = Inr encoded \<and>
     verifyPasswordHash example_crypto encoded ''correct horse''"
proof -
  obtain encoded where e: "encodePasswordHash (example_web_env 7) ''correct horse'' = Inr encoded"
    by (simp add: encodePasswordHash_def)
  with password_hash_accepts [OF e, of "replicate 16 (char_of (1 :: nat))" ] show ?thesis by (simp add: example_hmac)
qed

section \<open>Logins\<close>

lemma authenticate_check_Inr:
  assumes "us_loaded s" "snd (authenticate_check env username password s) = Inr t"
  shows "normalizeUsername username = Inr (tk_name t) \<and> verifyPasswordHash (we_crypto env) (u_PasswordHash (tk_candidate t)) password \<and>
    (tk_newHash t \<noteq> [] \<longrightarrow> passwordHashNeedsUpgrade (u_PasswordHash (tk_candidate t)))"
  using assms by (auto simp: authenticate_check_def Let_def split: sum.splits option.splits if_splits)

lemma authenticate_commit_Inr:
  assumes "us_loaded s" "snd (authenticate_commit env t s) = Inr p"
  shows "\<exists>u. find (active_named (tk_name t)) (us_users s) = Some u \<and> same_credentials u (tk_candidate t) \<and>
    pu_Username p = u_Username u \<and> pu_Role p = u_Role u"
  using assms by (auto simp: authenticate_commit_def Let_def publicUser_def split: option.splits if_splits dest!: save_users_Inr)

text \<open>
  C22: a login is granted only for the account as it is when it is granted. However much happened between
  the check of the password and the grant, the account is active then, its stored hash is the one
  the password was checked against, and the session gets the account's own name and role. A login
  whose hash was replaced in between, by a change of the password or by the deletion of the account,
  is refused.
\<close>

theorem login_checks_current_password:
  assumes "us_loaded s1" "us_loaded s2"
    and "snd (authenticate_check env username password s1) = Inr t"
    and "snd (authenticate_commit env' t s2) = Inr p"
  shows "\<exists>u \<in> set (us_users s2). \<not> u_Disabled u \<and> normalizeUsername username = Inr (u_Username u) \<and>
    verifyPasswordHash (we_crypto env) (u_PasswordHash u) password \<and> pu_Username p = u_Username u \<and> pu_Role p = u_Role u"
proof -
  from authenticate_commit_Inr [OF assms(2,4)] obtain u where u: "find (active_named (tk_name t)) (us_users s2) = Some u"
    "same_credentials u (tk_candidate t)" "pu_Username p = u_Username u" "pu_Role p = u_Role u" by blast
  with authenticate_check_Inr [OF assms(1,3)] find_SomeD [OF u(1)] show ?thesis
    by (auto simp: active_named_def same_credentials_def)
qed

text \<open>An account with the legacy hash of its password.\<close>

definition example_user :: "string \<Rightarrow> string \<Rightarrow> UserRecord" where
  "example_user name role = \<lparr>u_Username = name, u_Role = role,
     u_PasswordHash = ''sha256$00$'' @ hex_EncodeToString (cr_sha256 example_crypto (CHR 0x00 # ''secret'')),
     u_KeyID = [], u_KeyHash = [], u_KeyVersion = 0, u_KeyCipher = [], u_KeyCreatedAt = 0, u_AccessTokens = [],
     u_LegacyAccessTokens = [], u_CreatedAt = 1, u_UpdatedAt = 1, u_Disabled = False\<rparr>"

definition example_users :: UserStore where
  "example_users = (NewUserStore None)\<lparr>us_loaded := True, us_users := [example_user ''root'' RoleAdmin, example_user ''ada'' RoleUser]\<rparr>"

lemma example_login:
  "verifyPasswordHash example_crypto (u_PasswordHash (example_user name role)) ''secret''"
  "passwordHashNeedsUpgrade (u_PasswordHash (example_user name role))"
  by (simp add: example_user_def, code_simp)+

lemma example_users_simps [simp]:
  "us_loaded example_users" "us_users example_users = [example_user ''root'' RoleAdmin, example_user ''ada'' RoleUser]"
  by (simp_all add: example_users_def)

lemma normalize_ada [simp]: "normalizeUsername ''Ada'' = Inr ''ada''"
  by code_simp

theorem login_checks_current_password_witness:
  "\<exists>t p. snd (authenticate_check (example_web_env 7) ''Ada'' ''secret'' example_users) = Inr t \<and>
     snd (authenticate_commit (example_web_env 8) t example_users) = Inr p \<and>
     (\<exists>u \<in> set (us_users example_users). pu_Username p = u_Username u \<and> u_Username u = ''ada'')"
proof -
  have v: "verifyPasswordHash example_crypto (u_PasswordHash (example_user ''ada'' RoleUser)) ''secret''"
    "passwordHashNeedsUpgrade (u_PasswordHash (example_user ''ada'' RoleUser))" by (rule example_login)+
  have n: "u_Username (example_user x r) = x" "\<not> u_Disabled (example_user x r)" for x r by (simp_all add: example_user_def)
  obtain h where h: "encodePasswordHash (example_web_env 7) ''secret'' = Inr h" "h \<noteq> []"
    by (simp add: encodePasswordHash_def passwordHashScheme_def)
  let ?t = "\<lparr>tk_name = ''ada'', tk_candidate = example_user ''ada'' RoleUser, tk_newHash = h\<rparr>"
  have t: "snd (authenticate_check (example_web_env 7) ''Ada'' ''secret'' example_users) = Inr ?t"
    using v h by (simp add: authenticate_check_def Let_def n hashPasswordForMigration_def)
  have "\<not> isl (snd (authenticate_commit (example_web_env 8) ?t example_users))"
    using h by (simp add: authenticate_commit_def Let_def n active_named_def same_credentials_def save_users_def users_saveLocked_def
      writePrivateFile_def example_web_env_def)
  then obtain p where p: "snd (authenticate_commit (example_web_env 8) ?t example_users) = Inr p" by (metis sum.collapse(2))
  from login_checks_current_password [OF _ _ t p] t p show ?thesis by fastforce
qed

end
