(* ===== verification/Web_Theorems.thy ===== *)
theory Web_Theorems
  imports Web_Password Store_Keys
begin

text \<open>
  What the account store of the gateway guarantees: an administrator remains, deletion and revocation
  are final, a new token works until it expires, the stored tokens are bounded, and what was saved is
  loaded again.
\<close>

section \<open>Accounts\<close>

text \<open>
  C7: an administrator always remains. Whatever operations run, in whatever order, the names of the
  accounts stay distinct, there are never more than 256, and some active account is an administrator.
\<close>

theorem last_admin_remains:
  assumes "web_run start s H t s'" "accounts_ok (us_users s)"
  shows "distinct (map u_Username (us_users s')) \<and> length (us_users s') \<le> 256 \<and>
    (\<exists>u \<in> set (us_users s'). u_Role u = RoleAdmin \<and> \<not> u_Disabled u)"
proof -
  have "accounts_ok (us_users s')" by (rule gw.history_ok [OF assms])
  moreover from this have "filter (\<lambda>u. u_Role u = RoleAdmin \<and> \<not> u_Disabled u) (us_users s') \<noteq> []"
    by (auto simp: accounts_ok_def admin_count_def)
  ultimately show ?thesis by (auto simp: accounts_ok_def maxUsers_def filter_empty_conv)
qed

lemma example_accounts_ok: "accounts_ok (us_users example_users)"
  by (simp add: accounts_ok_def admin_count_def maxUsers_def) (simp add: example_user_def)

lemma example_save: "snd (save_users (example_web_env now) users r s) = Inr r"
  by (simp add: save_users_def users_saveLocked_def writePrivateFile_def example_web_env_def)

lemma example_delete: "web_run 1 example_users {} 9 (fst (users_Delete (example_web_env 9) ''Ada'' example_users))"
proof -
  have "web_step 9 {} example_users (fst (users_Delete (example_web_env 9) ''Ada'' example_users))"
    unfolding web_step_def by (intro conjI exI [of _ "example_web_env 9"] web_op.delete) simp_all
  with gw.history.more [OF gw.history.here, of 1 9 "{}" example_users] show ?thesis by simp
qed

theorem last_admin_remains_witness:
  "\<exists>u \<in> set (us_users (fst (users_Delete (example_web_env 9) ''Ada'' example_users))). u_Role u = RoleAdmin \<and> \<not> u_Disabled u"
  using last_admin_remains [OF example_delete example_accounts_ok] by blast

lemma users_Delete_Inr:
  assumes "us_loaded s" "users_Delete env username s = (s1, Inr ())"
  shows "\<exists>name u. normalizeUsername username = Inr name \<and> find (\<lambda>u. u_Username u = name) (us_users s) = Some u \<and>
    us_users s1 = update_first (\<lambda>u. u_Username u = name) (disable_user (we_now env)) (us_users s) \<and> us_loaded s1"
proof -
  from assms obtain name u where n: "normalizeUsername username = Inr name" "find (\<lambda>u. u_Username u = name) (us_users s) = Some u"
    and r: "save_users env (update_first (\<lambda>u. u_Username u = name) (disable_user (we_now env)) (us_users s)) () s = (s1, Inr ())"
    by (auto simp: users_Delete_def split: sum.splits option.splits if_splits)
  let ?us = "update_first (\<lambda>u. u_Username u = name) (disable_user (we_now env)) (us_users s)"
  have f: "fst (users_saveLocked env ?us s) = s1" using save_users_fst [of env ?us "()" s] r by simp
  have "us_users s1 = ?us \<and> us_loaded s1"
    using save_users_Inr [of env ?us "()" s "()"] users_saveLocked_loaded [OF assms(1), of env ?us] by (simp add: f r)
  with n show ?thesis by blast
qed

lemma update_first_found: "find P xs = Some x \<Longrightarrow> f x \<in> set (update_first P f xs)"
  by (induction xs) (auto split: if_splits)

lemma disabled_unique:
  assumes "distinct (map u_Username us)" "u \<in> set us" "u_Disabled u"
  shows "find (active_named (u_Username u)) us = None" "find (\<lambda>v. u_Username v = u_Username u) us = Some u"
proof -
  have one: "v = u" if "v \<in> set us" "u_Username v = u_Username u" for v using assms(1,2) that by (simp add: distinct_map inj_on_def)
  with assms(3) show "find (active_named (u_Username u)) us = None" by (auto simp: find_None_iff active_named_def)
  from assms(2) obtain w where "find (\<lambda>v. u_Username v = u_Username u) us = Some w" "w \<in> set us" "u_Username w = u_Username u"
    using find_ex [of u us "\<lambda>v. u_Username v = u_Username u"] by metis
  with one show "find (\<lambda>v. u_Username v = u_Username u) us = Some u" by auto
qed

text \<open>
  deletion is final. Once an account was deleted, then after any further operations its name is
  unknown to the session check, no password logs it in, it holds no access token, it is not among the
  accounts whose keys are sent to the nodes, and the name cannot be taken again.
\<close>

theorem deleted_account_stays_deleted:
  assumes "us_loaded s" "accounts_ok (us_users s)" "users_Delete env username s = (s1, Inr ())"
    and "web_run (we_now env) s1 H t s'"
  shows "snd (users_Get e username s') = Inr None \<and> isl (snd (authenticate_check e username password s')) \<and>
    isl (snd (Create e username password role s')) \<and>
    (\<exists>u \<in> set (us_users s'). normalizeUsername username = Inr (u_Username u) \<and> u_AccessTokens u = [] \<and> \<not> has_key u)"
proof -
  from users_Delete_Inr [OF assms(1,3)] obtain name u where n: "normalizeUsername username = Inr name"
    "find (\<lambda>u. u_Username u = name) (us_users s) = Some u" "us_loaded s1"
    and s1: "us_users s1 = update_first (\<lambda>u. u_Username u = name) (disable_user (we_now env)) (us_users s)" by blast
  let ?d = "disable_user (we_now env) u"
  have d: "u_Disabled ?d" "u_Username ?d = name" "u_AccessTokens ?d = []" "\<not> has_key ?d"
    using find_SomeD [OF n(2)] by (simp_all add: disable_user_def has_key_def)
  have "?d \<in> set (us_users s1)" unfolding s1 by (rule update_first_found [OF n(2)])
  then have m: "?d \<in> set (us_users s')" using gw.history_disabled [OF assms(4)] d(1) by blast
  have "accounts_ok (us_users s1)" using accounts_step_ok users_Delete_step [OF assms(1), of env "{}" username] assms(2,3)
    by (auto simp: steps_to_def)
  then have "distinct (map u_Username (us_users s'))" using gw.history_ok [OF assms(4)] by (simp add: accounts_ok_def)
  with disabled_unique [OF this m d(1)] d(2) have f: "find (active_named name) (us_users s') = None"
    "find (\<lambda>v. u_Username v = name) (us_users s') = Some ?d" by simp_all
  have l: "us_loaded s'" by (rule web_run_loaded [OF assms(4) n(3)])
  have "isl (snd (authenticate_check e username password s'))"
    using n(1) l f d(1) by (simp add: authenticate_check_def Let_def split: option.splits)
  moreover have "isl (snd (Create e username password role s'))"
    using m d(2) n(1) l by (auto simp: Create_loaded list_ex_iff split: sum.splits dest!: created_record_Inr)
  ultimately show ?thesis using n(1) l f(1) m d by (auto simp: users_Get_def)
qed

theorem deleted_account_stays_deleted_witness:
  "snd (users_Get (example_web_env 10) ''Ada'' (fst (users_Delete (example_web_env 9) ''Ada'' example_users))) = Inr None"
proof -
  have "snd (users_Delete (example_web_env 9) ''Ada'' example_users) = Inr ()"
    by (simp add: users_Delete_def example_save) (simp add: example_user_def)
  then have r: "users_Delete (example_web_env 9) ''Ada'' example_users =
    (fst (users_Delete (example_web_env 9) ''Ada'' example_users), Inr ())" by (metis prod.collapse)
  show ?thesis using deleted_account_stays_deleted [OF _ example_accounts_ok r gw.history.here, of "example_web_env 10"] by simp
qed

section \<open>Tokens\<close>

lemma dead_hash_refused:
  assumes "us_loaded s" "dead_hash (token_hash (we_crypto e) (TrimSpace secret)) (we_now e) (us_users s)"
  shows "snd (AuthenticateAccessToken e secret s) = None"
proof -
  have "\<not> token_active (we_now e) t" if "find (holds_hash (token_hash (we_crypto e) (TrimSpace secret))) (us_users s) = Some u"
    "find (has_hash (token_hash (we_crypto e) (TrimSpace secret))) (u_AccessTokens u) = Some t" for u t
    using assms(2) find_SomeD [OF that(1)] find_SomeD [OF that(2)] by (auto simp: dead_hash_def holds_hash_def has_hash_def)
  with assms(1) show ?thesis
    by (simp add: AuthenticateAccessToken_def users_loadLocked_def Let_def split: option.splits)
qed

lemma RevokeAccessToken_Inr:
  assumes "us_loaded s" "RevokeAccessToken env username ident s = (s1, Inr ())" "normalizeUsername username = Inr name"
  shows "us_users s1 = update_first (active_named name) (revoke_token (we_now env) (TrimSpace ident)) (us_users s) \<and> us_loaded s1"
proof -
  let ?us = "update_first (active_named name) (revoke_token (we_now env) (TrimSpace ident)) (us_users s)"
  from assms have r: "save_users env ?us () s = (s1, Inr ())"
    by (auto simp: RevokeAccessToken_def Let_def split: option.splits if_splits)
  then have f: "fst (users_saveLocked env ?us s) = s1" using save_users_fst [of env ?us "()" s] by simp
  show ?thesis using save_users_Inr [of env ?us "()" s "()"] users_saveLocked_loaded [OF assms(1), of env ?us] by (simp add: f r)
qed

lemma revoke_first_inactive:
  "distinct (map at_ID ts) \<Longrightarrow> t \<in> set (update_first (\<lambda>t. at_ID t = ident) (revoke_at now) ts) \<Longrightarrow> at_ID t = ident \<Longrightarrow> at_RevokedAt t \<noteq> None"
proof (induction ts)
  case (Cons a ts)
  have r: "at_RevokedAt (revoke_at now a) \<noteq> None" by (simp add: revoke_at_def)
  show ?case
  proof (cases "at_ID a = ident")
    case True
    with Cons.prems(2) consider "t = revoke_at now a" | "t \<in> set ts" by auto
    then show ?thesis
    proof cases
      case 1
      with r show ?thesis by simp
    next
      case 2
      then have "at_ID t \<in> set (map at_ID ts)" by simp
      with Cons.prems(1,3) True show ?thesis by simp
    qed
  next
    case False
    with Cons.prems(2,3) have "t \<in> set (update_first (\<lambda>t. at_ID t = ident) (revoke_at now) ts)" by auto
    with Cons show ?thesis by simp
  qed
qed simp

lemma update_first_element:
  "y \<in> set (update_first P f xs) \<Longrightarrow> y \<in> set xs \<or> (\<exists>x \<in> set xs. P x \<and> y = f x)"
  using set_update_first_subset [of P f xs] by auto

text \<open>A revoked token is dead, when the hash is that of this token alone.\<close>

lemma revoked_hash_dead:
  assumes "accounts_ok (us_users s)" "us_users s1 = update_first (active_named name) (revoke_token now ident) (us_users s)"
    and own: "\<forall>u \<in> set (us_users s). \<forall>t \<in> set (u_AccessTokens u). at_Hash t = h \<longrightarrow> u_Username u = name \<and> at_ID t = ident"
    and ids: "\<forall>u \<in> set (us_users s). distinct (map at_ID (u_AccessTokens u))"
  shows "dead_hash h later (us_users s1)"
proof -
  have "\<not> token_active later t" if u: "u \<in> set (us_users s1)" "\<not> u_Disabled u" and t: "t \<in> set (u_AccessTokens u)" "at_Hash t = h" for u t
  proof -
    have n: "map u_Username (us_users s1) = map u_Username (us_users s)" unfolding assms(2)
      by (rule map_update_first) (simp add: revoke_token_def)
    have d: "distinct (map u_Username (us_users s))" using assms(1) by (simp add: accounts_ok_def)
    from u(1) consider v where "v \<in> set (us_users s)" "u = revoke_token now ident v" | "u \<in> set (us_users s)" "u_Username u \<noteq> name"
    proof (cases "\<exists>v \<in> set (us_users s). active_named name v")
      case True
      from update_first_split [OF True, of "revoke_token now ident"] obtain pre v post where
        sp: "us_users s = pre @ v # post" "active_named name v" "us_users s1 = pre @ revoke_token now ident v # post"
        unfolding assms(2) by blast
      with u(1) have "u = revoke_token now ident v \<or> u \<in> set pre \<or> u \<in> set post" by auto
      with sp d that show ?thesis by (fastforce simp: active_named_def)
    next
      case False
      then have "us_users s1 = us_users s" unfolding assms(2) by (intro update_first_none) auto
      with u False that(2) show ?thesis by (auto simp: active_named_def)
    qed
    then show ?thesis
    proof cases
      case (1 v)
      then have r: "t \<in> set (update_first (\<lambda>t. at_ID t = ident) (revoke_at now) (u_AccessTokens v))"
        using t(1) by (simp add: revoke_token_def)
      from update_first_element [OF this] obtain t0 where "t0 \<in> set (u_AccessTokens v)" "at_Hash t0 = at_Hash t" "at_ID t0 = at_ID t"
        by (auto simp: revoke_at_def)
      with own 1(1) t(2) have "at_ID t = ident" by auto
      with revoke_first_inactive [OF _ r] ids 1(1) show ?thesis by (auto simp: token_active_def)
    next
      case 2
      with own t show ?thesis by blast
    qed
  qed
  then show ?thesis by (auto simp: dead_hash_def)
qed

text \<open>
  C20: revocation is final. Once a token was revoked, then after any further operations its secret does
  not authenticate any more, as long as no later creation drew the same hash again.
\<close>

theorem revoked_token_refused:
  assumes "us_loaded s" "accounts_ok (us_users s)"
    and "RevokeAccessToken env username ident s = (s1, Inr ())" "normalizeUsername username = Inr name"
    and "h = token_hash (we_crypto e) (TrimSpace secret)"
    and "\<forall>u \<in> set (us_users s). \<forall>t \<in> set (u_AccessTokens u). at_Hash t = h \<longrightarrow> u_Username u = name \<and> at_ID t = TrimSpace ident"
    and "\<forall>u \<in> set (us_users s). distinct (map at_ID (u_AccessTokens u))"
    and "web_run (we_now env) s1 H t s'" "h \<notin> H" "t \<le> we_now e"
  shows "snd (AuthenticateAccessToken e secret s') = None"
proof -
  have s1: "us_users s1 = update_first (active_named name) (revoke_token (we_now env) (TrimSpace ident)) (us_users s)" "us_loaded s1"
    using RevokeAccessToken_Inr [OF assms(1,3,4)] by blast+
  have "dead_hash h t (us_users s')"
    using gw.history_dead [OF assms(8,9)] revoked_hash_dead [OF assms(2) s1(1) assms(6,7)] by blast
  then show ?thesis using dead_hash_later [OF _ assms(10)] web_run_loaded [OF assms(8) s1(2)] assms(5)
    by (intro dead_hash_refused) simp_all
qed

definition example_token :: AccessTokenRecord where
  "example_token = \<lparr>at_ID = ''at_1'', at_Name = ''laptop'', at_Hash = token_hash example_crypto ''ga_x'', at_Scopes = [''nodes:read''],
     at_CreatedAt = 1, at_ExpiresAt = 1000, at_LastUsedAt = None, at_RevokedAt = None\<rparr>"

definition example_token_users :: UserStore where
  "example_token_users = example_users\<lparr>us_users :=
     [example_user ''root'' RoleAdmin, (example_user ''ada'' RoleUser)\<lparr>u_AccessTokens := [example_token]\<rparr>]\<rparr>"

lemma example_token_users_ok: "us_loaded example_token_users" "accounts_ok (us_users example_token_users)"
  by (simp add: example_token_users_def example_users_def)
    (simp add: example_token_users_def accounts_ok_def admin_count_def maxUsers_def example_user_def)

theorem revoked_token_refused_witness:
  "snd (AuthenticateAccessToken (example_web_env 10) ''ga_x''
     (fst (RevokeAccessToken (example_web_env 9) ''Ada'' ''at_1'' example_token_users))) = None"
proof -
  have t: "TrimSpace ''at_1'' = ''at_1''" "TrimSpace ''ga_x'' = ''ga_x''" by code_simp+
  have "snd (RevokeAccessToken (example_web_env 9) ''Ada'' ''at_1'' example_token_users) = Inr ()"
    by (simp add: RevokeAccessToken_def Let_def t example_token_users_ok)
      (simp add: example_token_users_def active_named_def example_user_def example_token_def example_save)
  then have r: "RevokeAccessToken (example_web_env 9) ''Ada'' ''at_1'' example_token_users =
    (fst (RevokeAccessToken (example_web_env 9) ''Ada'' ''at_1'' example_token_users), Inr ())" by (metis prod.collapse)
  show ?thesis
    by (rule revoked_token_refused [OF example_token_users_ok r normalize_ada refl _ _ gw.history.here])
      (simp_all add: example_token_users_def example_user_def example_token_def t)
qed

lemma base64_plain: "list_all plain_char (base64_EncodeToString url_alphabet s)"
proof -
  have "list_all plain_char url_alphabet" by code_simp
  with base64_alphabet [OF url_alphabet_ok, of s] show ?thesis by (auto simp: list_all_iff)
qed

lemma CreateAccessToken_Inr:
  assumes "us_loaded s" "CreateAccessToken env username name scopes expires s = (s1, Inr c)"
  shows "\<exists>user u. normalizeUsername username = Inr user \<and> find (active_named user) (us_users s) = Some u \<and>
    new_access_token env name scopes expires = Inr c \<and>
    length (filter (token_active (we_now env)) (compactAccessTokens (u_AccessTokens u) (we_now env))) < 32 \<and>
    us_users s1 = update_first (active_named user) (add_token (we_now env) (ct_Token c)) (us_users s) \<and> us_loaded s1"
proof -
  from assms obtain user u c' where n: "normalizeUsername username = Inr user" "find (active_named user) (us_users s) = Some u"
    "new_access_token env name scopes expires = Inr c'"
    "length (filter (token_active (we_now env)) (compactAccessTokens (u_AccessTokens u) (we_now env))) < 32"
    and r: "save_users env (update_first (active_named user) (add_token (we_now env) (ct_Token c')) (us_users s)) c' s = (s1, Inr c)"
    by (auto simp: CreateAccessToken_def accessTokenMaxPerUser_def split: sum.splits option.splits if_splits)
  let ?us = "update_first (active_named user) (add_token (we_now env) (ct_Token c')) (us_users s)"
  have f: "fst (users_saveLocked env ?us s) = s1" using save_users_fst [of env ?us c' s] r by simp
  have "c = c' \<and> us_users s1 = ?us \<and> us_loaded s1"
    using save_users_Inr [of env ?us c' s c] users_saveLocked_loaded [OF assms(1), of env ?us] by (simp add: f r)
  with n show ?thesis by blast
qed

lemma length_sextets: "length (base64_sextets bs) = (4 * length bs + 2) div 3"
  by (induction bs rule: base64_sextets.induct) (simp_all add: Let_def)

lemma token_secret_form:
  assumes "ct_Secret c = accessTokenPrefix @ base64_EncodeToString url_alphabet bs" "length bs = 32"
  shows "TrimSpace (ct_Secret c) = ct_Secret c" "prefix accessTokenPrefix (ct_Secret c)" "length (ct_Secret c) \<le> 256"
proof -
  have "length (base64_EncodeToString url_alphabet bs) = 43" using assms(2) by (simp add: base64_EncodeToString_def length_sextets)
  then show "TrimSpace (ct_Secret c) = ct_Secret c" "prefix accessTokenPrefix (ct_Secret c)" "length (ct_Secret c) \<le> 256"
    using assms by (auto simp: accessTokenPrefix_def plain_char_def base64_plain intro!: TrimSpace_plain)
qed

lemma find_update_first_hash:
  assumes "\<forall>u \<in> set us. \<forall>t \<in> set (u_AccessTokens u). at_Hash t \<noteq> h" "find (active_named user) us = Some u" "at_Hash t = h"
  shows "find (holds_hash h) (update_first (active_named user) (add_token now t) us) = Some (add_token now t u)"
  using assms
proof (induction us)
  case (Cons a us)
  have no: "\<not> list_ex (has_hash h) (u_AccessTokens a)" using Cons.prems(1) by (auto simp: list_ex_iff has_hash_def)
  show ?case
  proof (cases "active_named user a")
    case True
    with Cons.prems show ?thesis by (auto simp: holds_hash_def add_token_def active_named_def has_hash_def)
  next
    case False
    with Cons no show ?thesis by (simp add: holds_hash_def)
  qed
qed simp

lemma find_add_token_hash:
  assumes "\<forall>t \<in> set (u_AccessTokens u). at_Hash t \<noteq> h" "at_Hash t = h"
  shows "find (has_hash h) (u_AccessTokens (add_token now t u)) = Some t"
proof -
  have "find (has_hash h) (compactAccessTokens (u_AccessTokens u) now) = None"
    using compactAccessTokens_subset [of "u_AccessTokens u" now] assms(1) by (auto simp: find_None_iff has_hash_def)
  then show ?thesis using assms(2) by (simp add: add_token_def find_append has_hash_def)
qed

text \<open>
  a new token works. The secret that creating a token returned authenticates as the account it was
  made for, with that account's role and exactly the scopes asked for, at every instant before the
  expiry, which is at most 365 days ahead; and from the expiry on it does not.
\<close>

theorem new_token_authenticates:
  assumes "us_loaded s" "CreateAccessToken env username name scopes expires s = (s1, Inr c)"
    and "we_crypto e = we_crypto env" "\<And>bs. we_rand env 0 32 = Inr bs \<Longrightarrow> length bs = 32"
    and fresh: "\<forall>u \<in> set (us_users s). \<forall>t \<in> set (u_AccessTokens u). at_Hash t \<noteq> at_Hash (ct_Token c)"
  shows "(case snd (AuthenticateAccessToken e (ct_Secret c) s1) of
      Some a \<Rightarrow> we_now e < expires \<and> normalizeUsername username = Inr (aa_User a) \<and>
        normalizeAccessTokenScopes scopes = Inr (aa_Scopes a) \<and>
        (\<exists>u \<in> set (us_users s). active_named (aa_User a) u \<and> u_Role u = aa_Role a)
    | None \<Rightarrow> expires \<le> we_now e) \<and> expires \<le> we_now env + 365 * 24 * hour"
proof -
  from CreateAccessToken_Inr [OF assms(1,2)] obtain user u where n: "normalizeUsername username = Inr user"
    "find (active_named user) (us_users s) = Some u" "new_access_token env name scopes expires = Inr c" "us_loaded s1"
    and s1: "us_users s1 = update_first (active_named user) (add_token (we_now env) (ct_Token c)) (us_users s)" by blast
  note c = new_access_token_Inr [OF n(3)]
  from c(8) obtain bs where bs: "we_rand env 0 32 = Inr bs" "ct_Secret c = accessTokenPrefix @ base64_EncodeToString url_alphabet bs" by blast
  note form = token_secret_form [OF bs(2) assms(4) [OF bs(1)]]
  let ?h = "at_Hash (ct_Token c)"
  have h: "token_hash (we_crypto e) (ct_Secret c) = ?h" using c(7) assms(3) by simp
  have "find (holds_hash ?h) (us_users s1) = Some (add_token (we_now env) (ct_Token c) u)"
    unfolding s1 by (rule find_update_first_hash [OF fresh n(2) refl])
  moreover have "find (has_hash ?h) (u_AccessTokens (add_token (we_now env) (ct_Token c) u)) = Some (ct_Token c)"
    using find_SomeD [OF n(2)] fresh by (intro find_add_token_hash) auto
  ultimately have "snd (AuthenticateAccessToken e (ct_Secret c) s1) = (if we_now e < expires then
      Some \<lparr>aa_User = u_Username u, aa_Role = u_Role u, aa_ID = at_ID (ct_Token c), aa_Scopes = at_Scopes (ct_Token c)\<rparr> else None)"
    using n(4) c(2,5) form h
    by (simp add: AuthenticateAccessToken_def users_loadLocked_def Let_def token_active_def add_token_def split: option.splits)
  with find_SomeD [OF n(2)] n(1) c(1,4) show ?thesis by (auto simp: active_named_def)
qed

theorem new_token_authenticates_witness:
  "\<exists>s1 c. CreateAccessToken (example_web_env 9) ''Ada'' ''ci'' [''nodes:read''] 1000 example_users = (s1, Inr c) \<and>
     snd (AuthenticateAccessToken (example_web_env 20) (ct_Secret c) s1) \<noteq> None"
proof -
  have t: "TrimSpace ''ci'' = ''ci''" by code_simp
  have sc: "normalizeAccessTokenScopes [''nodes:read''] = Inr [''nodes:read'']" by code_simp
  obtain c where c: "new_access_token (example_web_env 9) ''ci'' [''nodes:read''] 1000 = Inr c"
    by (simp add: new_access_token_def Let_def t sc)
  have "snd (CreateAccessToken (example_web_env 9) ''Ada'' ''ci'' [''nodes:read''] 1000 example_users) = Inr c"
    by (simp add: CreateAccessToken_def c example_save accessTokenMaxPerUser_def)
      (simp add: example_user_def active_named_def compactAccessTokens_def Let_def accessTokenMaxStored_def)
  then obtain s1 where r: "CreateAccessToken (example_web_env 9) ''Ada'' ''ci'' [''nodes:read''] 1000 example_users = (s1, Inr c)"
    by (metis prod.collapse)
  have "\<forall>u \<in> set (us_users example_users). \<forall>t \<in> set (u_AccessTokens u). at_Hash t \<noteq> at_Hash (ct_Token c)" by (simp add: example_user_def)
  from new_token_authenticates [OF _ r _ _ this, of "example_web_env 20"] r show ?thesis by (auto split: option.splits)
qed

end
