(* ===== verification/Web_Storage.thy ===== *)
theory Web_Storage
  imports Web_Theorems
begin

text \<open>
  The users file and the retention of tokens: what was saved is what a restarted gateway loads, if it
  is within the size the loader accepts, and the stored tokens of an account stay within their bound
  without losing an active one.
\<close>

section \<open>Restart\<close>

lemma save_writes_file:
  assumes "users_saveLocked env users s = (s', None)"
  shows "\<exists>data. we_Marshal env users = Inr data \<and>
    us_file s' = Some \<lparr>vf_Regular = True, vf_Perm = 384, vf_Data = data @ [CHR 0x0A]\<rparr>"
  using assms by (auto simp: users_saveLocked_def writePrivateFile_def split: sum.splits prod.splits option.splits if_splits)

lemma migrate_current: "u_LegacyAccessTokens u = [] \<Longrightarrow> migrate_tokens u = u"
  by (cases u) (auto simp: migrate_tokens_def)

text \<open>
  a restart loads what was saved. After a save that reported no error, a new store over the same file
  loads exactly the saved records, whenever the encoded text with its line break is at most 10 MiB; the
  encoding is read back by the decoder. A larger text is saved without an error as well, but the
  gateway does not load it again.
\<close>

theorem users_restart:
  assumes "users_saveLocked env users s = (s', None)" "we_Marshal env users = Inr data"
    and "we_Unmarshal e (data @ [CHR 0x0A]) = Inr users" "TrimSpace (data @ [CHR 0x0A]) \<noteq> []"
    and "we_openErr e = None" "we_statErr e = None" "we_readErr e = None"
    and "length users \<le> 256" "list_all (\<lambda>u. u_LegacyAccessTokens u = []) users"
  shows "snd (users_loadLocked e (NewUserStore (us_file s'))) =
    (if length data < 10485760 then Inr users else Inl (WErr ''users file exceeds the limit''))"
proof -
  from save_writes_file [OF assms(1)] assms(2) have f: "us_file s' = Some \<lparr>vf_Regular = True, vf_Perm = 384, vf_Data = data @ [CHR 0x0A]\<rparr>" by auto
  have m: "map migrate_tokens users = users" using assms(9) by (intro map_idI) (auto simp: list_all_iff migrate_current)
  have r: "readPrivateFile e ''users file'' maxUsersFileBytes (us_file s') = (if length data < 10485760 then Inr (data @ [CHR 0x0A])
      else Inl (WErr ''users file exceeds the limit''))"
    using assms(5-7) f by (auto simp: readPrivateFile_def Let_def maxUsersFileBytes_def)
  show ?thesis
  proof (cases "length data < 10485760")
    case True
    with r assms(3,4,8) m show ?thesis by (simp add: users_loadLocked_def NewUserStore_def maxUsers_def Let_def)
  next
    case False
    with r show ?thesis by (simp add: users_loadLocked_def NewUserStore_def)
  qed
qed

definition codec_env :: "string \<Rightarrow> UserRecord list \<Rightarrow> WebEnv" where
  "codec_env data users = (example_web_env 5)\<lparr>we_Marshal := (\<lambda>_. Inr data), we_Unmarshal := (\<lambda>_. Inr users)\<rparr>"

theorem users_restart_witness:
  "snd (users_loadLocked (codec_env ''x'' [example_user ''ada'' RoleUser]) (NewUserStore (us_file
     (fst (users_saveLocked (codec_env ''x'' [example_user ''ada'' RoleUser]) [example_user ''ada'' RoleUser] (NewUserStore None)))))) =
   Inr [example_user ''ada'' RoleUser]"
proof -
  let ?e = "codec_env ''x'' [example_user ''ada'' RoleUser]" and ?us = "[example_user ''ada'' RoleUser]"
  have "users_saveLocked ?e ?us (NewUserStore None) = (fst (users_saveLocked ?e ?us (NewUserStore None)), None)"
    by (simp add: users_saveLocked_def writePrivateFile_def codec_env_def example_web_env_def)
  moreover have "TrimSpace (''x'' @ [CHR 0x0A]) \<noteq> []" by code_simp
  ultimately show ?thesis using users_restart [of ?e ?us "NewUserStore None" _ "''x''" ?e]
    by (simp add: codec_env_def) (simp add: example_web_env_def example_user_def)
qed

section \<open>Retention\<close>

lemma drop_inactive_active: "filter (token_active now) (drop_inactive now n ts) = filter (token_active now) ts"
  by (induction now n ts rule: drop_inactive.induct) auto

lemma length_drop_inactive:
  "length (drop_inactive now n ts) = length ts - min n (length (filter (\<lambda>t. \<not> token_active now t) ts))"
proof (induction now n ts rule: drop_inactive.induct)
  case (2 now n t ts)
  have l: "length (filter (\<lambda>t. \<not> token_active now t) ts) \<le> length ts" by (rule length_filter_le)
  show ?case
  proof (cases "n > 0 \<and> \<not> token_active now t")
    case True
    with 2(1) show ?thesis by (auto simp: min_def)
  next
    case False
    with 2(2) show ?thesis by (auto simp: min_def Suc_diff_le order_trans [OF _ l])
  qed
qed simp

text \<open>
  compaction bounds the stored tokens and loses no active one: at most 127 remain, so that there is
  room for a new one below 128, whenever fewer than 128 are active, and the active tokens are all
  kept, in their order.
\<close>

theorem compaction_keeps_active:
  assumes "length (filter (token_active now) ts) < 128"
  shows "length (compactAccessTokens ts now) < 128 \<and>
    filter (token_active now) (compactAccessTokens ts now) = filter (token_active now) ts"
proof -
  let ?kept = "filter (\<lambda>t. \<not> token_stale now t) ts"
  have a: "filter (token_active now) ?kept = filter (token_active now) ts"
    by (auto simp: token_stale_def intro!: filter_cong)
  have "length ?kept = length (filter (token_active now) ?kept) + length (filter (\<lambda>t. \<not> token_active now t) ?kept)"
    using sum_length_filter_compl [of "token_active now" ?kept] by simp
  with a assms show ?thesis
    by (auto simp: compactAccessTokens_def accessTokenMaxStored_def Let_def drop_inactive_active length_drop_inactive)
qed

theorem compaction_keeps_active_witness:
  "length (compactAccessTokens (replicate 200 (example_token\<lparr>at_RevokedAt := Some 5\<rparr>)) 10) < 128"
  using compaction_keeps_active [of 10 "replicate 200 (example_token\<lparr>at_RevokedAt := Some 5\<rparr>)"]
  by (simp add: token_active_def filter_replicate)

end
