(* ===== verification/Web_Session.thy ===== *)
theory Web_Session
  imports Web_Machine Web_Throttle
begin

text \<open>
  Sessions of the gateway (\<open>internal/web/session.go\<close>): signed cookies bound to the version of the
  credentials, access tokens in their place, the handlers for login, registration and the change of a
  password, and the limits on concurrent requests. The JSON codec of the payload is a parameter.
\<close>

section \<open>Cookies\<close>

record sessionPayload =
  sp_User :: string
  sp_Role :: string
  sp_CredentialVersion :: int
  sp_Expires :: int

record sessionInfo =
  si_User :: string
  si_Role :: string
  si_AuthMethod :: string
  si_TokenID :: string
  si_Scopes :: "string list"

record SessionEnv =
  se_key :: string
  se_Marshal :: "sessionPayload \<Rightarrow> string"
  se_Unmarshal :: "string \<Rightarrow> sessionPayload option"

definition sessionTTL :: duration where "sessionTTL = 24 * hour"

definition time_Unix :: "time \<Rightarrow> int" where
  "time_Unix t = t div second"

definition dot :: char where "dot = CHR ''.''"

definition sessionSignature :: "Crypto \<Rightarrow> SessionEnv \<Rightarrow> string \<Rightarrow> string" where
  "sessionSignature cr se data = cr_hmac cr (se_key se) data"

definition encode_session :: "Crypto \<Rightarrow> SessionEnv \<Rightarrow> sessionPayload \<Rightarrow> string" where
  "encode_session cr se payload = (let data = se_Marshal se payload in
     base64_EncodeToString url_alphabet data @ [dot] @ base64_EncodeToString url_alphabet (sessionSignature cr se data))"

definition signSession :: "WebEnv \<Rightarrow> SessionEnv \<Rightarrow> string \<Rightarrow> string \<Rightarrow> time \<Rightarrow> UserStore \<Rightarrow> UserStore \<times> string" where
  "signSession env se user role expires s = (case users_Get env user s of (s, r) \<Rightarrow>
     (s, encode_session (we_crypto env) se \<lparr>sp_User = user, sp_Role = role,
       sp_CredentialVersion = (case r of Inr (Some u) \<Rightarrow> u_UpdatedAt u | _ \<Rightarrow> 0), sp_Expires = time_Unix expires\<rparr>))"

definition verifySession :: "Crypto \<Rightarrow> SessionEnv \<Rightarrow> string \<Rightarrow> sessionPayload option" where
  "verifySession cr se value =
     (if length value > 2048 then None
      else case Split dot value of
        [a, b] \<Rightarrow> (case (base64_DecodeString url_alphabet a, base64_DecodeString url_alphabet b) of
          (Some data, Some signature) \<Rightarrow> if signature \<noteq> sessionSignature cr se data then None else se_Unmarshal se data
        | _ \<Rightarrow> None)
      | _ \<Rightarrow> None)"

text \<open>The cookie of a request, empty when there is none; the role is that of the stored account.\<close>

definition browserSessionUser :: "WebEnv \<Rightarrow> SessionEnv \<Rightarrow> string \<Rightarrow> UserStore \<Rightarrow> UserStore \<times> sessionInfo option" where
  "browserSessionUser env se cookie s =
     (if cookie = [] then (s, None)
      else case verifySession (we_crypto env) se cookie of None \<Rightarrow> (s, None)
      | Some payload \<Rightarrow>
        if sp_Expires payload \<le> 0 \<or> sp_Expires payload \<le> time_Unix (we_now env) then (s, None)
        else case users_Get env (sp_User payload) s of
          (s, Inr (Some user)) \<Rightarrow>
            if sp_CredentialVersion payload = 0 \<or> sp_CredentialVersion payload \<noteq> u_UpdatedAt user then (s, None)
            else (s, Some \<lparr>si_User = u_Username user, si_Role = u_Role user, si_AuthMethod = ''browser'', si_TokenID = [], si_Scopes = []\<rparr>)
        | (s, _) \<Rightarrow> (s, None))"

definition sessionUser :: "WebEnv \<Rightarrow> SessionEnv \<Rightarrow> string \<Rightarrow> string \<Rightarrow> UserStore \<Rightarrow> UserStore \<times> sessionInfo option" where
  "sessionUser env se authorization0 cookie s =
     (let authorization = TrimSpace authorization0 in
      if authorization \<noteq> [] then
        (case Fields authorization of
           [scheme, secret] \<Rightarrow>
             if \<not> EqualFold scheme ''Bearer'' then (s, None)
             else (case AuthenticateAccessToken env secret s of (s, None) \<Rightarrow> (s, None)
               | (s, Some a) \<Rightarrow> (s, Some \<lparr>si_User = aa_User a, si_Role = aa_Role a, si_AuthMethod = ''access_token'',
                   si_TokenID = aa_ID a, si_Scopes = aa_Scopes a\<rparr>))
         | _ \<Rightarrow> (s, None))
      else browserSessionUser env se cookie s)"

definition requireAccessTokenScope :: "sessionInfo \<Rightarrow> string \<Rightarrow> bool" where
  "requireAccessTokenScope session scope \<longleftrightarrow> si_AuthMethod session \<noteq> ''access_token'' \<or> scope \<in> set (si_Scopes session)"

definition rejectAccessToken :: "sessionInfo \<Rightarrow> bool" where
  "rejectAccessToken session \<longleftrightarrow> si_AuthMethod session = ''access_token''"

section \<open>Concurrent requests\<close>

record RequestLimits =
  rl_users :: "(string \<times> nat) list"
  rl_total :: nat
  rl_nonAdmin :: nat

definition active_of :: "RequestLimits \<Rightarrow> string \<Rightarrow> nat" where
  "active_of r user = (case map_of (rl_users r) user of Some n \<Rightarrow> n | None \<Rightarrow> 0)"

definition acquireAuthenticatedRequest :: "sessionInfo \<Rightarrow> RequestLimits \<Rightarrow> RequestLimits \<times> bool" where
  "acquireAuthenticatedRequest session r =
     (let user = ToLower (TrimSpace (si_User session)) in
      if rl_total r \<ge> 64 \<or> active_of r user \<ge> 8 then (r, False)
      else if si_Role session \<noteq> RoleAdmin \<and> rl_nonAdmin r \<ge> 64 - 8 then (r, False)
      else (\<lparr>rl_users = AList.update user (active_of r user + 1) (rl_users r), rl_total = rl_total r + 1,
         rl_nonAdmin = (if si_Role session \<noteq> RoleAdmin then rl_nonAdmin r + 1 else rl_nonAdmin r)\<rparr>, True))"

definition releaseAuthenticatedRequest :: "sessionInfo \<Rightarrow> RequestLimits \<Rightarrow> RequestLimits" where
  "releaseAuthenticatedRequest session r =
     (let user = ToLower (TrimSpace (si_User session)); n = active_of r user - 1 in
      \<lparr>rl_users = (if n = 0 then AList.delete user (rl_users r) else AList.update user n (rl_users r)),
       rl_total = rl_total r - 1,
       rl_nonAdmin = (if si_Role session \<noteq> RoleAdmin then rl_nonAdmin r - 1 else rl_nonAdmin r)\<rparr>)"

section \<open>Handlers\<close>

record Gateway =
  gt_users :: UserStore
  gt_attempts :: attempts

record Response =
  rp_Status :: nat
  rp_Message :: string
  rp_Cookie :: "string option"

definition refusal :: "nat \<Rightarrow> string \<Rightarrow> Response" where
  "refusal status message = \<lparr>rp_Status = status, rp_Message = message, rp_Cookie = None\<rparr>"

definition web_error_text :: "web_error \<Rightarrow> string" where
  "web_error_text e = (case e of WErr m \<Rightarrow> m
     | ErrPasswordWorkBusy \<Rightarrow> ''password authentication is temporarily busy''
     | ErrUsernameInUse \<Rightarrow> ''username is already in use or was previously deleted''
     | ErrUserLimitReached \<Rightarrow> ''user limit reached: maximum 256''
     | ErrCanceled \<Rightarrow> ''context canceled'' | ErrNotExist \<Rightarrow> ''file does not exist'')"

definition authenticate :: "WebEnv \<Rightarrow> string \<Rightarrow> string \<Rightarrow> UserStore \<Rightarrow> PublicUser web_result" where
  "authenticate env username password s = (case authenticate_check env username password s of (s, Inl e) \<Rightarrow> (s, Inl e)
     | (s, Inr t) \<Rightarrow> authenticate_commit env t s)"

definition ChangePassword :: "WebEnv \<Rightarrow> string \<Rightarrow> string \<Rightarrow> string \<Rightarrow> UserStore \<Rightarrow> PublicUser web_result" where
  "ChangePassword env username current new s = (case change_check env username current new s of (s, Inl e) \<Rightarrow> (s, Inl e)
     | (s, Inr t) \<Rightarrow> change_commit env t s)"

text \<open>
  The handlers below take the decoded body of a POST; a registration also wakes the synchronisation of
  keys, which holds no state of its own.
\<close>

text \<open>The cookie of a granted login is signed after the account store was left: it is a second look-up.\<close>

definition grant :: "WebEnv \<Rightarrow> SessionEnv \<Rightarrow> nat \<Rightarrow> PublicUser \<Rightarrow> Gateway \<Rightarrow> Gateway \<times> Response" where
  "grant env se status user g =
     (case signSession env se (pu_Username user) (pu_Role user) (we_now env + sessionTTL) (gt_users g) of (us, cookie) \<Rightarrow>
       (g\<lparr>gt_users := us\<rparr>, \<lparr>rp_Status = status, rp_Message = pu_Username user, rp_Cookie = Some cookie\<rparr>))"

definition handleLogin :: "WebEnv \<Rightarrow> SessionEnv \<Rightarrow> string \<Rightarrow> string \<Rightarrow> string \<Rightarrow> Gateway \<Rightarrow> Gateway \<times> Response" where
  "handleLogin env se ipKey username password g =
     (let cr = we_crypto env; loginKey = loginAttemptKeyForIP cr ipKey username; userKey = loginUsernameAttemptKey cr username in
      case reserveLoginAttempt loginKey ipKey userKey (we_now env) (gt_attempts g) of
        (tb, Some _) \<Rightarrow> (g\<lparr>gt_attempts := tb\<rparr>, refusal 429 ''too many login attempts; try again later'')
      | (tb, None) \<Rightarrow>
        (case authenticate env username password (gt_users g) of (us, r) \<Rightarrow>
          let kept = g\<lparr>gt_attempts := tb, gt_users := us\<rparr>;
              freed = kept\<lparr>gt_attempts := releaseLoginReservation [loginKey, ipKey, userKey] tb\<rparr> in
          (case r of
             Inl ErrCanceled \<Rightarrow> (freed, refusal 408 ''authentication request canceled'')
           | Inl ErrPasswordWorkBusy \<Rightarrow> (freed, refusal 429 ''authentication is temporarily busy; try again'')
           | Inl _ \<Rightarrow> (kept, refusal 401 ''Invalid username or password'')
           | Inr user \<Rightarrow> grant env se 200 user freed)))"

definition handleRegister :: "WebEnv \<Rightarrow> SessionEnv \<Rightarrow> bool \<Rightarrow> string \<Rightarrow> string \<Rightarrow> string \<Rightarrow> Gateway \<Rightarrow> Gateway \<times> Response" where
  "handleRegister env se allowRegistration ip username password g =
     (if \<not> allowRegistration then (g, refusal 404 ''not found'')
      else case normalizeUsername username of Inl e \<Rightarrow> (g, refusal 400 (web_error_text e))
      | Inr _ \<Rightarrow>
      (case validatePassword password of Some e \<Rightarrow> (g, refusal 400 (web_error_text e))
       | None \<Rightarrow> let ipKey = registrationAttemptKeyForIP ip in
         (case reserveRegistrationAttempt ipKey (we_now env) (gt_attempts g) of
            (tb, Some _) \<Rightarrow> (g\<lparr>gt_attempts := tb\<rparr>, refusal 429 ''too many account creation attempts; try again later'')
          | (tb, None) \<Rightarrow>
            (case Create env username password RoleUser (gt_users g) of (us, r) \<Rightarrow>
              let g1 = g\<lparr>gt_attempts := tb, gt_users := us\<rparr> in
              (case r of
                 Inl ErrPasswordWorkBusy \<Rightarrow> (g1\<lparr>gt_attempts := releaseLoginReservation [ipKey, registrationGlobalAttemptKey] tb\<rparr>,
                   refusal 429 ''account creation is temporarily busy; try again'')
               | Inl ErrUsernameInUse \<Rightarrow> (g1, refusal 409 (web_error_text ErrUsernameInUse))
               | Inl ErrUserLimitReached \<Rightarrow> (g1, refusal 503 ''account registration is unavailable'')
               | Inl _ \<Rightarrow> (g1, refusal 500 ''unable to create account'')
               | Inr user \<Rightarrow> grant env se 201 user g1)))))"

definition handleChangePassword :: "WebEnv \<Rightarrow> SessionEnv \<Rightarrow> sessionInfo \<Rightarrow> string \<Rightarrow> string \<Rightarrow> Gateway \<Rightarrow> Gateway \<times> Response" where
  "handleChangePassword env se session current new g =
     (let key = passwordChangeAttemptKey (we_crypto env) (si_User session) in
      case reserveSingleAttempt key (we_now env) 5 (gt_attempts g) of
        (tb, Some _) \<Rightarrow> (g\<lparr>gt_attempts := tb\<rparr>, refusal 429 ''too many password change attempts; try again later'')
      | (tb, None) \<Rightarrow>
        (case ChangePassword env (si_User session) current new (gt_users g) of (us, r) \<Rightarrow>
          let g1 = g\<lparr>gt_attempts := tb, gt_users := us\<rparr> in
          (case r of
             Inl ErrPasswordWorkBusy \<Rightarrow> (g1\<lparr>gt_attempts := releaseLoginReservation [key] tb\<rparr>,
               refusal 429 ''password service is temporarily busy; try again'')
           | Inl e \<Rightarrow> (g1, refusal 400 (web_error_text e))
           | Inr user \<Rightarrow> grant env se 200 user g1)))"

text \<open>\<open>requireSession\<close> and \<open>requireAdmin\<close> around a handler; the slot is given back when it returns.\<close>

definition requireSession ::
  "WebEnv \<Rightarrow> SessionEnv \<Rightarrow> string \<Rightarrow> string \<Rightarrow> (sessionInfo \<Rightarrow> Gateway \<Rightarrow> Gateway \<times> Response) \<Rightarrow>
     Gateway \<times> RequestLimits \<Rightarrow> (Gateway \<times> RequestLimits) \<times> Response" where
  "requireSession env se authorization cookie next = (\<lambda>(g, limits).
     case sessionUser env se authorization cookie (gt_users g) of
       (us, None) \<Rightarrow> ((g\<lparr>gt_users := us\<rparr>, limits), refusal 401 ''authentication required'')
     | (us, Some session) \<Rightarrow>
       (case acquireAuthenticatedRequest session limits of
          (limits, False) \<Rightarrow> ((g\<lparr>gt_users := us\<rparr>, limits), refusal 429 ''too many concurrent requests; retry shortly'')
        | (limits, True) \<Rightarrow> (case next session (g\<lparr>gt_users := us\<rparr>) of (g, resp) \<Rightarrow>
            ((g, releaseAuthenticatedRequest session limits), resp))))"

definition requireBrowserSession ::
  "WebEnv \<Rightarrow> SessionEnv \<Rightarrow> string \<Rightarrow> (sessionInfo \<Rightarrow> Gateway \<Rightarrow> Gateway \<times> Response) \<Rightarrow>
     Gateway \<times> RequestLimits \<Rightarrow> (Gateway \<times> RequestLimits) \<times> Response" where
  "requireBrowserSession env se cookie next = (\<lambda>(g, limits).
     case browserSessionUser env se cookie (gt_users g) of
       (us, None) \<Rightarrow> ((g\<lparr>gt_users := us\<rparr>, limits), refusal 401 ''browser authentication required'')
     | (us, Some session) \<Rightarrow>
       (case acquireAuthenticatedRequest session limits of
          (limits, False) \<Rightarrow> ((g\<lparr>gt_users := us\<rparr>, limits), refusal 429 ''too many concurrent requests; retry shortly'')
        | (limits, True) \<Rightarrow> (case next session (g\<lparr>gt_users := us\<rparr>) of (g, resp) \<Rightarrow>
            ((g, releaseAuthenticatedRequest session limits), resp))))"

definition admin_only :: "(sessionInfo \<Rightarrow> Gateway \<Rightarrow> Gateway \<times> Response) \<Rightarrow> sessionInfo \<Rightarrow> Gateway \<Rightarrow> Gateway \<times> Response" where
  "admin_only next session g = (if si_Role session \<noteq> RoleAdmin then (g, refusal 403 ''admin access required'') else next session g)"

definition handleLogout :: "sessionInfo \<Rightarrow> Gateway \<Rightarrow> Gateway \<times> Response" where
  "handleLogout session g = (g, \<lparr>rp_Status = 200, rp_Message = ''ok'', rp_Cookie = Some []\<rparr>)"

end
