(* ===== verification/Session_Theorems.thy ===== *)
theory Session_Theorems
  imports Web_Session Web_Theorems
begin

text \<open>
  What sessions guarantee: a cookie is accepted only with the right signature and the present version
  of the credentials, a change of the password ends the sessions signed before it, and concurrent
  requests leave room for administrators.
\<close>

section \<open>Cookies\<close>

lemma dot_not_url: "dot \<notin> set (base64_EncodeToString url_alphabet s)"
proof -
  have "dot \<notin> set url_alphabet" by code_simp
  with base64_alphabet [OF url_alphabet_ok, of s] show ?thesis by blast
qed

lemma verify_encode:
  assumes "se_Unmarshal se (se_Marshal se p) = Some p" "length (encode_session cr se p) \<le> 2048"
  shows "verifySession cr se (encode_session cr se p) = Some p"
  using assms dot_not_url
  by (simp add: verifySession_def encode_session_def Let_def Split_step Split_no_sep base64_Decode_Encode)

lemma verifySession_Some:
  assumes "verifySession cr se value = Some p"
  shows "\<exists>a b data. Split dot value = [a, b] \<and> base64_DecodeString url_alphabet a = Some data \<and>
    base64_DecodeString url_alphabet b = Some (cr_hmac cr (se_key se) data) \<and> se_Unmarshal se data = Some p"
  using assms by (auto simp: verifySession_def sessionSignature_def split: if_splits list.splits option.splits)

lemma browserSessionUser_Some:
  assumes "us_loaded s" "snd (browserSessionUser env se cookie s) = Some i"
  shows "\<exists>p u name. verifySession (we_crypto env) se cookie = Some p \<and> normalizeUsername (sp_User p) = Inr name \<and>
    find (active_named name) (us_users s) = Some u \<and> sp_CredentialVersion p = u_UpdatedAt u \<and> sp_CredentialVersion p \<noteq> 0 \<and>
    time_Unix (we_now env) < sp_Expires p \<and> si_User i = u_Username u \<and> si_Role i = u_Role u \<and> si_AuthMethod i = ''browser''"
  using assms by (auto simp: browserSessionUser_def users_Get_def split: if_splits option.splits sum.splits)

text \<open>
  C16: a cookie is accepted only when it carries the authentication code, under the key of the gateway, of
  a payload that has not expired, that names an active account and that has the present version of
  its credentials; the session has the name and the role the account has now, not those of the
  payload.
\<close>

theorem session_needs_signature:
  assumes "us_loaded s" "snd (browserSessionUser env se cookie s) = Some i"
  shows "\<exists>a b data p u. Split dot cookie = [a, b] \<and> base64_DecodeString url_alphabet a = Some data \<and>
    base64_DecodeString url_alphabet b = Some (cr_hmac (we_crypto env) (se_key se) data) \<and> se_Unmarshal se data = Some p \<and>
    time_Unix (we_now env) < sp_Expires p \<and> u \<in> set (us_users s) \<and> \<not> u_Disabled u \<and>
    normalizeUsername (sp_User p) = Inr (u_Username u) \<and> sp_CredentialVersion p = u_UpdatedAt u \<and>
    si_User i = u_Username u \<and> si_Role i = u_Role u"
proof -
  from browserSessionUser_Some [OF assms] obtain p u name where p: "verifySession (we_crypto env) se cookie = Some p"
    "normalizeUsername (sp_User p) = Inr name" "find (active_named name) (us_users s) = Some u"
    "sp_CredentialVersion p = u_UpdatedAt u" "time_Unix (we_now env) < sp_Expires p" "si_User i = u_Username u" "si_Role i = u_Role u" by blast
  have "u \<in> set (us_users s)" "\<not> u_Disabled u" "u_Username u = name" using find_SomeD [OF p(3)] by (simp_all add: active_named_def)
  with verifySession_Some [OF p(1)] p show ?thesis by blast
qed

text \<open>A codec that knows one payload: the user's name is the text, the version 1, the expiry late.\<close>

definition example_session_env :: SessionEnv where
  "example_session_env = \<lparr>se_key = ''k'', se_Marshal = (\<lambda>p. sp_User p @ itoa (sp_CredentialVersion p)),
     se_Unmarshal = (\<lambda>d. Some \<lparr>sp_User = butlast d, sp_Role = [], sp_CredentialVersion = of_char (last d) - 48, sp_Expires = 86400\<rparr>)\<rparr>"

definition example_cookie :: string where
  "example_cookie = encode_session example_crypto example_session_env
     \<lparr>sp_User = ''ada'', sp_Role = [], sp_CredentialVersion = 1, sp_Expires = 86400\<rparr>"

lemma example_cookie_verifies:
  "verifySession example_crypto example_session_env example_cookie =
     Some \<lparr>sp_User = ''ada'', sp_Role = [], sp_CredentialVersion = 1, sp_Expires = 86400\<rparr>"
  by code_simp

lemma normalize_ada_lower [simp]: "normalizeUsername ''ada'' = Inr ''ada''"
  by code_simp

lemma example_cookie_accepted:
  "snd (browserSessionUser (example_web_env 7) example_session_env example_cookie example_users) =
     Some \<lparr>si_User = ''ada'', si_Role = RoleUser, si_AuthMethod = ''browser'', si_TokenID = [], si_Scopes = []\<rparr>"
proof -
  have "example_cookie \<noteq> []" by code_simp
  then show ?thesis by (simp add: browserSessionUser_def example_cookie_verifies users_Get_def time_Unix_def)
    (simp add: example_user_def active_named_def)
qed

theorem session_needs_signature_witness:
  "\<exists>a b data. Split dot example_cookie = [a, b] \<and> base64_DecodeString url_alphabet a = Some data \<and>
    base64_DecodeString url_alphabet b = Some (cr_hmac example_crypto ''k'' data)"
  using session_needs_signature [OF _ example_cookie_accepted] by (auto simp: example_session_env_def)

section \<open>Password changes\<close>

lemma change_commit_Inr:
  assumes "us_loaded s" "change_commit env t s = (s1, Inr p)"
  shows "\<exists>u. find (active_named (tk_name t)) (us_users s) = Some u \<and> us_loaded s1 \<and> same_credentials u (tk_candidate t) \<and>
    us_users s1 = update_first (active_named (tk_name t)) (\<lambda>u. u\<lparr>u_PasswordHash := tk_newHash t, u_UpdatedAt := we_now env\<rparr>) (us_users s)"
proof -
  let ?us = "update_first (active_named (tk_name t)) (\<lambda>u. u\<lparr>u_PasswordHash := tk_newHash t, u_UpdatedAt := we_now env\<rparr>) (us_users s)"
  from assms obtain u r where u: "find (active_named (tk_name t)) (us_users s) = Some u" "same_credentials u (tk_candidate t)"
    and r: "save_users env ?us r s = (s1, Inr p)"
    by (auto simp: change_commit_def Let_def split: option.splits if_splits)
  have f: "fst (users_saveLocked env ?us s) = s1" using save_users_fst [of env ?us r s] r by simp
  have "us_users s1 = ?us \<and> us_loaded s1"
    using save_users_Inr [of env ?us r s p] users_saveLocked_loaded [OF assms(1), of env ?us] by (simp add: f r)
  with u show ?thesis by blast
qed

lemma update_first_distinct:
  assumes "distinct (map g xs)" "find P xs = Some x" "\<And>y. g (f y) = g y" "z \<in> set (update_first P f xs)" "g z = g x"
  shows "z = f x"
proof -
  from assms(2) have "\<exists>y \<in> set xs. P y" by (auto dest: find_SomeD)
  from update_first_split [OF this, of f] obtain pre y post where s: "xs = pre @ y # post" "P y" "\<forall>w \<in> set pre. \<not> P w"
    "update_first P f xs = pre @ f y # post" by blast
  with assms(2) have "y = x" by (simp add: find_append split: option.splits) (metis find_SomeD)
  with s assms(1) have "g x \<notin> g ` set pre" "g x \<notin> g ` set post" by auto
  moreover have "z \<in> set pre \<or> z = f x \<or> z \<in> set post" using assms(4) s(4) \<open>y = x\<close> by auto
  ultimately show ?thesis using assms(5) by (metis image_eqI)
qed

text \<open>
  C21: a change of the password ends every session signed before it. After the change, and after any
  further operations, a cookie with an older version of the account's credentials is refused.
\<close>

theorem password_change_ends_sessions:
  assumes "us_loaded s" "accounts_ok (us_users s)" "change_commit env t s = (s1, Inr pu)"
    and "web_run (we_now env) s1 H t' s'"
    and "verifySession (we_crypto e) se cookie = Some p" "normalizeUsername (sp_User p) = Inr (tk_name t)"
    and "sp_CredentialVersion p < we_now env"
  shows "snd (browserSessionUser e se cookie s') = None"
proof (rule ccontr)
  assume "snd (browserSessionUser e se cookie s') \<noteq> None"
  then obtain i where i: "snd (browserSessionUser e se cookie s') = Some i" by blast
  from change_commit_Inr [OF assms(1,3)] obtain u where u: "find (active_named (tk_name t)) (us_users s) = Some u" "us_loaded s1"
    and s1: "us_users s1 = update_first (active_named (tk_name t)) (\<lambda>u. u\<lparr>u_PasswordHash := tk_newHash t, u_UpdatedAt := we_now env\<rparr>) (us_users s)"
    by blast
  have "v = u\<lparr>u_PasswordHash := tk_newHash t, u_UpdatedAt := we_now env\<rparr>" if "v \<in> set (us_users s1)" "u_Username v = tk_name t" for v
    using that assms(2) find_SomeD [OF u(1)] unfolding s1
    by (intro update_first_distinct [OF _ u(1), where g = u_Username]) (auto simp: accounts_ok_def active_named_def)
  then have "u_UpdatedAt v = we_now env" if "v \<in> set (us_users s1)" "u_Username v = tk_name t" for v
    using that by (metis UserRecord.select_convs(12) UserRecord.surjective UserRecord.update_convs(12))
  then have "newer (tk_name t) (sp_CredentialVersion p) (us_users s1)" using assms(7) by (simp add: newer_def)
  from gw.history_newer [OF assms(4,7) this] have n: "newer (tk_name t) (sp_CredentialVersion p) (us_users s')" .
  from browserSessionUser_Some [OF web_run_loaded [OF assms(4) u(2)] i] assms(5,6) obtain w where
    "find (active_named (tk_name t)) (us_users s') = Some w" "sp_CredentialVersion p = u_UpdatedAt w" by auto
  with n find_SomeD [of "active_named (tk_name t)" "us_users s'" w] show False by (auto simp: newer_def active_named_def)
qed

definition example_ticket :: AuthTicket where
  "example_ticket = \<lparr>tk_name = ''ada'', tk_candidate = example_user ''ada'' RoleUser, tk_newHash = ''new''\<rparr>"

abbreviation example_changed :: UserStore where
  "example_changed \<equiv> fst (change_commit (example_web_env 9) example_ticket example_users)"

lemma example_change: "\<exists>p. change_commit (example_web_env 9) example_ticket example_users = (example_changed, Inr p)"
proof -
  have "\<exists>p. snd (change_commit (example_web_env 9) example_ticket example_users) = Inr p"
    by (simp add: change_commit_def Let_def example_ticket_def active_named_def same_credentials_def)
      (simp add: example_user_def example_save)
  then show ?thesis by (metis prod.collapse)
qed

theorem password_change_ends_sessions_witness:
  "snd (browserSessionUser (example_web_env 10) example_session_env example_cookie example_changed) = None"
proof -
  obtain p where "change_commit (example_web_env 9) example_ticket example_users = (example_changed, Inr p)" using example_change by blast
  from password_change_ends_sessions [OF _ example_accounts_ok this gw.history.here, of "example_web_env 10" example_session_env example_cookie]
  show ?thesis by (simp add: example_cookie_verifies example_ticket_def)
qed

text \<open>
  a login is signed with the version of the credentials at the time of signing, not of the check. When
  the password is changed between the two, the session that the old password opened has the new
  version and outlives the change.
\<close>

theorem login_outlives_password_change:
  "(\<exists>t p. snd (authenticate_check (example_web_env 7) ''Ada'' ''secret'' example_users) = Inr t \<and>
      snd (authenticate_commit (example_web_env 8) (t\<lparr>tk_newHash := []\<rparr>) example_users) = Inr p \<and> pu_Username p = ''ada'') \<and>
   snd (browserSessionUser (example_web_env 10) example_session_env
     (snd (signSession (example_web_env 9) example_session_env ''ada'' RoleUser (9 + sessionTTL) example_changed)) example_changed) =
     Some \<lparr>si_User = ''ada'', si_Role = RoleUser, si_AuthMethod = ''browser'', si_TokenID = [], si_Scopes = []\<rparr>"
proof
  have v: "verifyPasswordHash example_crypto (u_PasswordHash (example_user ''ada'' RoleUser)) ''secret''"
    "passwordHashNeedsUpgrade (u_PasswordHash (example_user ''ada'' RoleUser))" by (rule example_login)+
  have n: "u_Username (example_user x r) = x" "\<not> u_Disabled (example_user x r)" for x r by (simp_all add: example_user_def)
  obtain h where h: "encodePasswordHash (example_web_env 7) ''secret'' = Inr h" by (simp add: encodePasswordHash_def)
  let ?t = "\<lparr>tk_name = ''ada'', tk_candidate = example_user ''ada'' RoleUser, tk_newHash = h\<rparr>"
  have "snd (authenticate_check (example_web_env 7) ''Ada'' ''secret'' example_users) = Inr ?t"
    using v h by (simp add: authenticate_check_def Let_def n hashPasswordForMigration_def)
  moreover have "snd (authenticate_commit (example_web_env 8) (?t\<lparr>tk_newHash := []\<rparr>) example_users) = Inr (publicUser (example_user ''ada'' RoleUser))"
    by (simp add: authenticate_commit_def n active_named_def same_credentials_def)
  moreover have "pu_Username (publicUser (example_user ''ada'' RoleUser)) = ''ada''" by (simp add: publicUser_def n)
  ultimately show "\<exists>t p. snd (authenticate_check (example_web_env 7) ''Ada'' ''secret'' example_users) = Inr t \<and>
      snd (authenticate_commit (example_web_env 8) (t\<lparr>tk_newHash := []\<rparr>) example_users) = Inr p \<and> pu_Username p = ''ada''" by blast
next
  have us: "us_users example_changed = [example_user ''root'' RoleAdmin, (example_user ''ada'' RoleUser)\<lparr>u_PasswordHash := ''new'', u_UpdatedAt := 9\<rparr>]"
    "us_loaded example_changed"
    by (simp_all add: change_commit_def Let_def example_ticket_def active_named_def same_credentials_def users_saveLocked_def
      writePrivateFile_def example_web_env_def example_user_def)
  have c: "snd (signSession (example_web_env 9) example_session_env ''ada'' RoleUser (9 + sessionTTL) example_changed) =
      encode_session example_crypto example_session_env \<lparr>sp_User = ''ada'', sp_Role = RoleUser, sp_CredentialVersion = 9, sp_Expires = 86400\<rparr>"
    using us by (simp add: signSession_def users_Get_def active_named_def time_Unix_def sessionTTL_def example_user_def)
  have v: "verifySession example_crypto example_session_env
      (encode_session example_crypto example_session_env \<lparr>sp_User = ''ada'', sp_Role = RoleUser, sp_CredentialVersion = 9, sp_Expires = 86400\<rparr>) =
      Some \<lparr>sp_User = ''ada'', sp_Role = [], sp_CredentialVersion = 9, sp_Expires = 86400\<rparr>" by code_simp
  have "encode_session example_crypto example_session_env \<lparr>sp_User = ''ada'', sp_Role = RoleUser, sp_CredentialVersion = 9, sp_Expires = 86400\<rparr> \<noteq> []"
    by code_simp
  then show "snd (browserSessionUser (example_web_env 10) example_session_env
     (snd (signSession (example_web_env 9) example_session_env ''ada'' RoleUser (9 + sessionTTL) example_changed)) example_changed) =
     Some \<lparr>si_User = ''ada'', si_Role = RoleUser, si_AuthMethod = ''browser'', si_TokenID = [], si_Scopes = []\<rparr>"
    using us v unfolding c by (simp add: browserSessionUser_def users_Get_def active_named_def time_Unix_def example_user_def)
qed

section \<open>Concurrent requests\<close>

definition request_user :: "sessionInfo \<Rightarrow> string" where
  "request_user i = ToLower (TrimSpace (si_User i))"

inductive requests :: "sessionInfo list \<Rightarrow> RequestLimits \<Rightarrow> bool" where
  idle: "requests [] \<lparr>rl_users = [], rl_total = 0, rl_nonAdmin = 0\<rparr>"
| enter: "requests held r \<Longrightarrow> acquireAuthenticatedRequest i r = (r', True) \<Longrightarrow> requests (i # held) r'"
| leave: "requests (pre @ i # post) r \<Longrightarrow> requests (pre @ post) (releaseAuthenticatedRequest i r)"

definition counts :: "sessionInfo list \<Rightarrow> RequestLimits \<Rightarrow> bool" where
  "counts held r \<longleftrightarrow> rl_total r = length held \<and> rl_nonAdmin r = length (filter (\<lambda>i. si_Role i \<noteq> RoleAdmin) held) \<and>
     (\<forall>u. active_of r u = length (filter (\<lambda>i. request_user i = u) held)) \<and>
     rl_total r \<le> 64 \<and> rl_nonAdmin r \<le> 56 \<and> (\<forall>u. active_of r u \<le> 8)"

lemma active_of_update: "active_of (r\<lparr>rl_users := AList.update u n (rl_users r)\<rparr>) v = (if v = u then n else active_of r v)"
  by (simp add: active_of_def AList.update_conv')

lemma active_of_acquire:
  "acquireAuthenticatedRequest i r = (r', True) \<Longrightarrow> active_of r' v = (if v = request_user i then active_of r v + 1 else active_of r v)"
  by (auto simp: acquireAuthenticatedRequest_def Let_def active_of_def request_user_def AList.update_conv' split: if_splits)

lemma active_of_release:
  "active_of (releaseAuthenticatedRequest i r) v = (if v = request_user i then active_of r v - 1 else active_of r v)"
  by (auto simp: releaseAuthenticatedRequest_def Let_def active_of_def request_user_def AList.update_conv' AList.delete_conv' split: option.splits)

lemma requests_counts: "requests held r \<Longrightarrow> counts held r"
proof (induction rule: requests.induct)
  case (enter held r i r')
  from enter(2) have b: "active_of r (request_user i) < 8" "rl_total r < 64" "rl_total r' = rl_total r + 1"
    "rl_nonAdmin r' = (if si_Role i \<noteq> RoleAdmin then rl_nonAdmin r + 1 else rl_nonAdmin r)" "si_Role i \<noteq> RoleAdmin \<Longrightarrow> rl_nonAdmin r < 56"
    by (auto simp: acquireAuthenticatedRequest_def Let_def request_user_def split: if_splits)
  have "active_of r' v \<le> 8" for v using enter b(1) by (auto simp: active_of_acquire counts_def)
  then show ?case using enter(3) b active_of_acquire [OF enter(2)] by (auto simp: counts_def)
next
  case (leave pre i post r)
  then have "active_of r u \<le> 8" for u unfolding counts_def by blast
  then have "active_of (releaseAuthenticatedRequest i r) u \<le> 8" for u
    using active_of_release [of i r u] by (metis diff_le_self le_trans)
  moreover have "rl_total (releaseAuthenticatedRequest i r) = rl_total r - 1"
    "rl_nonAdmin (releaseAuthenticatedRequest i r) = (if si_Role i \<noteq> RoleAdmin then rl_nonAdmin r - 1 else rl_nonAdmin r)"
    by (simp_all add: releaseAuthenticatedRequest_def Let_def)
  ultimately show ?case using leave(2) unfolding counts_def active_of_release by auto
qed (simp add: counts_def active_of_def)

text \<open>
  concurrent requests are bounded and administrators keep room: at most 64 requests run, at most 8 of
  one account, and whatever other accounts do, an administrator with fewer than 8 running requests is
  admitted as long as administrators hold fewer than 8 slots in all.
\<close>

theorem admin_requests_admitted:
  assumes "requests held r"
  shows "length held \<le> 64 \<and> length (filter (\<lambda>i. request_user i = request_user admin) held) \<le> 8 \<and>
    (snd (acquireAuthenticatedRequest admin r) \<or> si_Role admin \<noteq> RoleAdmin \<or>
     length (filter (\<lambda>i. request_user i = request_user admin) held) = 8 \<or>
     length (filter (\<lambda>i. si_Role i = RoleAdmin) held) \<ge> 8)"
proof -
  have c: "counts held r" by (rule requests_counts [OF assms])
  have s: "length held = length (filter (\<lambda>i. si_Role i = RoleAdmin) held) + length (filter (\<lambda>i. si_Role i \<noteq> RoleAdmin) held)"
    using sum_length_filter_compl [of "\<lambda>i. si_Role i = RoleAdmin" held] by simp
  have a: "active_of r (request_user admin) = length (filter (\<lambda>i. request_user i = request_user admin) held)"
    "active_of r (request_user admin) \<le> 8" using c unfolding counts_def by blast+
  have "snd (acquireAuthenticatedRequest admin r)" if "si_Role admin = RoleAdmin" "active_of r (request_user admin) < 8" "rl_total r < 64"
    using that by (simp add: acquireAuthenticatedRequest_def Let_def request_user_def)
  moreover have "rl_total r < 64 \<or> length (filter (\<lambda>i. si_Role i = RoleAdmin) held) \<ge> 8" using c s by (auto simp: counts_def)
  moreover have "length held \<le> 64" using c by (simp add: counts_def)
  ultimately show ?thesis using a by linarith
qed

theorem admin_requests_admitted_witness:
  "length ([] :: sessionInfo list) \<le> 64 \<and> snd (acquireAuthenticatedRequest \<lparr>si_User = ''root'', si_Role = RoleAdmin,
     si_AuthMethod = ''browser'', si_TokenID = [], si_Scopes = []\<rparr> \<lparr>rl_users = [], rl_total = 0, rl_nonAdmin = 0\<rparr>)"
  using admin_requests_admitted [OF requests.idle, of "\<lparr>si_User = ''root'', si_Role = RoleAdmin,
     si_AuthMethod = ''browser'', si_TokenID = [], si_Scopes = []\<rparr>"] by simp

end
