(* ===== verification/Web_Registry.thy ===== *)
theory Web_Registry
  imports Web_Base
begin

text \<open>
  The registry of the nodes (\<open>internal/web/registry.go\<close>) and the endpoint policy of the node client
  (\<open>internal/web/client.go\<close>). The URL parser is a parameter; what is refused of its result is modelled.
\<close>

section \<open>Endpoints\<close>

record ParsedURL =
  ur_Scheme :: string
  ur_Host :: string
  ur_HasUser :: bool
  ur_RawQuery :: string
  ur_Fragment :: string

record ServerRecord =
  sr_ID :: string
  sr_Name :: string
  sr_Endpoint :: string
  sr_RootKey :: string
  sr_TLSSkipVerify :: bool
  sr_Archived :: bool
  sr_CreatedAt :: time
  sr_UpdatedAt :: time

record RegistryEnv =
  re_web :: WebEnv
  re_ParseURL :: "string \<Rightarrow> web_error + ParsedURL"
  re_Marshal :: "ServerRecord list \<Rightarrow> web_error + string"
  re_Unmarshal :: "string \<Rightarrow> web_error + ServerRecord list"

definition trim_slashes :: "string \<Rightarrow> string" where
  "trim_slashes s = rev (dropWhile (\<lambda>c. c = CHR ''/'') (rev s))"

definition parseNodeEndpoint :: "RegistryEnv \<Rightarrow> string \<Rightarrow> web_error + ParsedURL" where
  "parseNodeEndpoint env base = (case re_ParseURL env (trim_slashes (TrimSpace base)) of Inl e \<Rightarrow> Inl e
     | Inr parsed \<Rightarrow>
       if ur_Scheme parsed \<noteq> ''http'' \<and> ur_Scheme parsed \<noteq> ''https'' then Inl (WErr ''node endpoint scheme must be http or https'')
       else if ur_Host parsed = [] then Inl (WErr ''node endpoint host is required'')
       else if ur_HasUser parsed \<or> ur_RawQuery parsed \<noteq> [] \<or> ur_Fragment parsed \<noteq> []
         then Inl (WErr ''node endpoint must not contain credentials, a query, or a fragment'')
       else Inr parsed)"

text \<open>The part of \<open>joinURL\<close> that decides; the path it joins does not matter here.\<close>

definition joinURL :: "RegistryEnv \<Rightarrow> string \<Rightarrow> bool \<Rightarrow> web_error option" where
  "joinURL env base allowInsecureNodes = (case parseNodeEndpoint env base of Inl e \<Rightarrow> Some e
     | Inr parsed \<Rightarrow> if ur_Scheme parsed \<noteq> ''https'' \<and> \<not> allowInsecureNodes
         then Some (WErr ''plaintext HTTP node endpoints are disabled'') else None)"

definition validateServerRecord :: "RegistryEnv \<Rightarrow> ServerRecord \<Rightarrow> web_error option" where
  "validateServerRecord env r =
     (if length (sr_Name r) > 128 then Some (WErr ''server name must be at most 128 bytes'')
      else if length (sr_Endpoint r) > 2048 then Some (WErr ''server endpoint must be at most 2048 bytes'')
      else if length (sr_RootKey r) > 256 then Some (WErr ''root key must be at most 256 bytes'')
      else case parseNodeEndpoint env (sr_Endpoint r) of Inl e \<Rightarrow> Some e | Inr _ \<Rightarrow> None)"

section \<open>The registry\<close>

record Registry =
  rg_file :: "PrivateFile option"
  rg_loaded :: bool
  rg_records :: "ServerRecord list"
  rg_allowInsecure :: bool

type_synonym 'r reg_result = "Registry \<times> (web_error + 'r)"

definition maxServerRecords :: nat where "maxServerRecords = 256"
definition maxRegistryFileBytes :: nat where "maxRegistryFileBytes = 2097152"

definition registry_loadLocked :: "RegistryEnv \<Rightarrow> Registry \<Rightarrow> ServerRecord list reg_result" where
  "registry_loadLocked env r =
     (if rg_loaded r then (r, Inr (rg_records r))
      else case readPrivateFile (re_web env) ''registry file'' maxRegistryFileBytes (rg_file r) of
        Inl e \<Rightarrow> if e = ErrNotExist then (r\<lparr>rg_loaded := True, rg_records := []\<rparr>, Inr []) else (r, Inl e)
      | Inr data \<Rightarrow>
        if TrimSpace data = [] then (r\<lparr>rg_loaded := True, rg_records := []\<rparr>, Inr [])
        else case re_Unmarshal env data of Inl e \<Rightarrow> (r, Inl e)
        | Inr records \<Rightarrow>
          if length records > maxServerRecords then (r, Inl (WErr ''registry contains too many records''))
          else case first_error (map (validateServerRecord env) records) of Some e \<Rightarrow> (r, Inl e)
          | None \<Rightarrow> (r\<lparr>rg_loaded := True, rg_records := records\<rparr>, Inr records))"

definition registry_saveLocked :: "RegistryEnv \<Rightarrow> ServerRecord list \<Rightarrow> 'r \<Rightarrow> Registry \<Rightarrow> 'r reg_result" where
  "registry_saveLocked env records res r = (case re_Marshal env records of Inl e \<Rightarrow> (r, Inl e)
     | Inr data \<Rightarrow> (case writePrivateFile (re_web env) (data @ [CHR 0x0A]) (rg_file r) of (file, committed, err) \<Rightarrow>
         (if committed then r\<lparr>rg_file := file, rg_loaded := True, rg_records := records\<rparr> else r\<lparr>rg_file := file\<rparr>,
          case err of Some e \<Rightarrow> Inl e | None \<Rightarrow> Inr res)))"

definition with_records :: "RegistryEnv \<Rightarrow> Registry \<Rightarrow> (ServerRecord list \<Rightarrow> Registry \<Rightarrow> 'r reg_result) \<Rightarrow> 'r reg_result" where
  "with_records env r k = (case registry_loadLocked env r of (r, Inl e) \<Rightarrow> (r, Inl e) | (r, Inr records) \<Rightarrow> k records r)"

definition registry_Get :: "RegistryEnv \<Rightarrow> string \<Rightarrow> Registry \<Rightarrow> ServerRecord option reg_result" where
  "registry_Get env ident r = with_records env r (\<lambda>records r. (r, Inr (find (\<lambda>x. sr_ID x = ident) records)))"

text \<open>The record as it is stored: an identifier and a name are made up when they are missing.\<close>

definition completed_record :: "RegistryEnv \<Rightarrow> ServerRecord \<Rightarrow> ServerRecord" where
  "completed_record env record0 =
     (let now = we_now (re_web env);
          drawn = (case we_rand (re_web env) 0 8 of Inr bs \<Rightarrow> hex_EncodeToString bs | Inl _ \<Rightarrow> []);
          record = (if TrimSpace (sr_ID record0) = [] then record0\<lparr>sr_ID := ''srv_'' @ drawn, sr_CreatedAt := now\<rparr> else record0)\<lparr>sr_UpdatedAt := now\<rparr> in
      if TrimSpace (sr_Name record) = [] then record\<lparr>sr_Name := sr_Endpoint record\<rparr> else record)"

definition Upsert :: "RegistryEnv \<Rightarrow> ServerRecord \<Rightarrow> Registry \<Rightarrow> ServerRecord reg_result" where
  "Upsert env record0 r = with_records env r (\<lambda>records r.
     let record = completed_record env record0 in
     if TrimSpace (sr_Endpoint record) = [] then (r, Inl (WErr ''endpoint is required''))
     else if TrimSpace (sr_RootKey record) = [] then (r, Inl (WErr ''root key is required''))
     else case validateServerRecord env record of Some e \<Rightarrow> (r, Inl e)
     | None \<Rightarrow> (case joinURL env (sr_Endpoint record) (rg_allowInsecure r) of Some e \<Rightarrow> (r, Inl e)
       | None \<Rightarrow>
         (case find (\<lambda>x. sr_ID x = sr_ID record) records of
            Some old \<Rightarrow> let stored = record\<lparr>sr_CreatedAt := sr_CreatedAt old\<rparr> in
              registry_saveLocked env (update_first (\<lambda>x. sr_ID x = sr_ID record) (\<lambda>_. stored) records) stored r
          | None \<Rightarrow>
            if length records \<ge> maxServerRecords then (r, Inl (WErr ''server limit reached: maximum 256''))
            else registry_saveLocked env (records @ [record]) record r)))"

definition registry_Delete :: "RegistryEnv \<Rightarrow> string \<Rightarrow> Registry \<Rightarrow> unit reg_result" where
  "registry_Delete env ident r = with_records env r (\<lambda>records r.
     if \<not> list_ex (\<lambda>x. sr_ID x = ident) records then (r, Inl ErrNotExist)
     else registry_saveLocked env (filter (\<lambda>x. sr_ID x \<noteq> ident) records) () r)"

definition Rename :: "RegistryEnv \<Rightarrow> string \<Rightarrow> string \<Rightarrow> Registry \<Rightarrow> ServerRecord reg_result" where
  "Rename env ident name0 r = with_records env r (\<lambda>records r.
     let name = TrimSpace name0; upd = (\<lambda>x. x\<lparr>sr_Name := name, sr_UpdatedAt := we_now (re_web env)\<rparr>) in
     if name = [] then (r, Inl (WErr ''server name is required''))
     else if length name > 128 then (r, Inl (WErr ''server name must be at most 128 bytes''))
     else case find (\<lambda>x. sr_ID x = ident) records of None \<Rightarrow> (r, Inl ErrNotExist)
     | Some x \<Rightarrow> registry_saveLocked env (update_first (\<lambda>x. sr_ID x = ident) upd records) (upd x) r)"

definition SetArchived :: "RegistryEnv \<Rightarrow> string \<Rightarrow> bool \<Rightarrow> Registry \<Rightarrow> ServerRecord reg_result" where
  "SetArchived env ident archived r = with_records env r (\<lambda>records r.
     let upd = (\<lambda>x. x\<lparr>sr_Archived := archived, sr_UpdatedAt := we_now (re_web env)\<rparr>) in
     case find (\<lambda>x. sr_ID x = ident) records of None \<Rightarrow> (r, Inl ErrNotExist)
     | Some x \<Rightarrow>
       if sr_Archived x = archived then (r, Inr x)
       else registry_saveLocked env (update_first (\<lambda>x. sr_ID x = ident) upd records) (upd x) r)"

record PublicServerRecord =
  ps_ID :: string
  ps_Name :: string
  ps_Endpoint :: string
  ps_TLSSkipVerify :: bool
  ps_Archived :: bool
  ps_CreatedAt :: time
  ps_UpdatedAt :: time

definition publicServerRecord :: "ServerRecord \<Rightarrow> PublicServerRecord" where
  "publicServerRecord r = \<lparr>ps_ID = sr_ID r, ps_Name = sr_Name r, ps_Endpoint = sr_Endpoint r, ps_TLSSkipVerify = sr_TLSSkipVerify r,
     ps_Archived = sr_Archived r, ps_CreatedAt = sr_CreatedAt r, ps_UpdatedAt = sr_UpdatedAt r\<rparr>"

section \<open>The registry stays well formed\<close>

text \<open>
  Well-formed records for a parser: distinct identifiers, at most 256, each within its bounds and with
  an endpoint the policy in force allows.
\<close>

definition endpoint_allowed :: "(string \<Rightarrow> web_error + ParsedURL) \<Rightarrow> bool \<Rightarrow> string \<Rightarrow> bool" where
  "endpoint_allowed parse insecure endpoint \<longleftrightarrow> (case parse (trim_slashes (TrimSpace endpoint)) of Inl _ \<Rightarrow> False
     | Inr u \<Rightarrow> (ur_Scheme u = ''https'' \<or> ur_Scheme u = ''http'' \<and> insecure) \<and> ur_Host u \<noteq> [] \<and> \<not> ur_HasUser u \<and>
         ur_RawQuery u = [] \<and> ur_Fragment u = [])"

definition record_ok :: "(string \<Rightarrow> web_error + ParsedURL) \<Rightarrow> bool \<Rightarrow> ServerRecord \<Rightarrow> bool" where
  "record_ok parse insecure x \<longleftrightarrow> length (sr_Name x) \<le> 128 \<and> length (sr_Endpoint x) \<le> 2048 \<and> length (sr_RootKey x) \<le> 256 \<and>
     endpoint_allowed parse insecure (sr_Endpoint x)"

definition registry_ok :: "(string \<Rightarrow> web_error + ParsedURL) \<Rightarrow> bool \<Rightarrow> Registry \<Rightarrow> bool" where
  "registry_ok parse insecure r \<longleftrightarrow> rg_loaded r \<and> rg_allowInsecure r = insecure \<and> distinct (map sr_ID (rg_records r)) \<and>
     length (rg_records r) \<le> maxServerRecords \<and> list_all (record_ok parse insecure) (rg_records r)"

lemma with_records_loaded [simp]: "rg_loaded r \<Longrightarrow> with_records env r k = k (rg_records r) r"
  by (simp add: with_records_def registry_loadLocked_def)

lemma joinURL_allowed: "joinURL env base insecure = None \<Longrightarrow> endpoint_allowed (re_ParseURL env) insecure base"
  by (auto simp: joinURL_def parseNodeEndpoint_def endpoint_allowed_def split: sum.splits if_splits)

lemma record_admitted:
  "validateServerRecord env x = None \<Longrightarrow> joinURL env (sr_Endpoint x) insecure = None \<Longrightarrow> record_ok (re_ParseURL env) insecure x"
  using joinURL_allowed by (auto simp: validateServerRecord_def record_ok_def split: if_splits)

lemma save_ok:
  assumes "registry_ok parse insecure r" "distinct (map sr_ID records)" "length records \<le> maxServerRecords" "list_all (record_ok parse insecure) records"
  shows "registry_ok parse insecure (fst (registry_saveLocked env records res r))"
  using assms by (auto simp: registry_ok_def registry_saveLocked_def split: sum.splits prod.splits)

lemma update_ok:
  assumes "registry_ok parse insecure r" "\<And>x. sr_ID x = ident \<Longrightarrow> sr_ID (f x) = ident" "\<And>x. record_ok parse insecure x \<Longrightarrow> record_ok parse insecure (f x)"
  shows "registry_ok parse insecure (fst (registry_saveLocked env (update_first (\<lambda>x. sr_ID x = ident) f (rg_records r)) res r))"
proof (rule save_ok [OF assms(1)])
  have "map sr_ID (update_first (\<lambda>x. sr_ID x = ident) f (rg_records r)) = map sr_ID (rg_records r)" using assms(2) by (intro map_update_first) simp
  then show "distinct (map sr_ID (update_first (\<lambda>x. sr_ID x = ident) f (rg_records r)))" using assms(1) by (simp add: registry_ok_def)
  show "length (update_first (\<lambda>x. sr_ID x = ident) f (rg_records r)) \<le> maxServerRecords" using assms(1) by (simp add: registry_ok_def)
  show "list_all (record_ok parse insecure) (update_first (\<lambda>x. sr_ID x = ident) f (rg_records r))"
    using assms(1,3) by (intro list_all_update_first) (auto simp: registry_ok_def)
qed

lemma Upsert_ok:
  assumes "registry_ok (re_ParseURL env) insecure r"
  shows "registry_ok (re_ParseURL env) insecure (fst (Upsert env x r))"
proof -
  have l: "rg_loaded r" "rg_allowInsecure r = insecure" using assms by (simp_all add: registry_ok_def)
  let ?p = "re_ParseURL env"
  have append: "registry_ok ?p insecure (fst (registry_saveLocked env (rg_records r @ [y]) res r))"
    if "record_ok ?p insecure y" "find (\<lambda>x. sr_ID x = sr_ID y) (rg_records r) = None" "\<not> maxServerRecords \<le> length (rg_records r)"
    for y and res :: ServerRecord
    using that assms by (intro save_ok [OF assms]) (auto simp: registry_ok_def find_None_iff)
  have replace: "registry_ok ?p insecure (fst (registry_saveLocked env (update_first (\<lambda>x. sr_ID x = sr_ID y) (\<lambda>_. y\<lparr>sr_CreatedAt := c\<rparr>) (rg_records r)) res r))"
    if "record_ok ?p insecure y" for y c and res :: ServerRecord
    using that by (intro update_ok [OF assms]) (auto simp: record_ok_def)
  show ?thesis using l assms append [of "completed_record env x"] replace [of "completed_record env x"] record_admitted [of env "completed_record env x" insecure]
    by (simp add: Upsert_def Let_def split: option.splits)
qed

inductive registry_run :: "(string \<Rightarrow> web_error + ParsedURL) \<Rightarrow> Registry \<Rightarrow> Registry \<Rightarrow> bool" for parse r where
  stay: "registry_run parse r r"
| upsert: "registry_run parse r r1 \<Longrightarrow> re_ParseURL env = parse \<Longrightarrow> registry_run parse r (fst (Upsert env x r1))"
| delete: "registry_run parse r r1 \<Longrightarrow> re_ParseURL env = parse \<Longrightarrow> registry_run parse r (fst (registry_Delete env ident r1))"
| rename: "registry_run parse r r1 \<Longrightarrow> re_ParseURL env = parse \<Longrightarrow> registry_run parse r (fst (Rename env ident name r1))"
| archive: "registry_run parse r r1 \<Longrightarrow> re_ParseURL env = parse \<Longrightarrow> registry_run parse r (fst (SetArchived env ident b r1))"

lemma registry_run_ok: "registry_run parse r r' \<Longrightarrow> registry_ok parse insecure r \<Longrightarrow> registry_ok parse insecure r'"
proof (induction rule: registry_run.induct)
  case (upsert r1 env x)
  then show ?case using Upsert_ok [of env insecure r1 x] by simp
next
  case (delete r1 env ident)
  then have ok: "registry_ok parse insecure r1" by simp
  then have "rg_loaded r1" by (simp add: registry_ok_def)
  moreover have "registry_ok parse insecure (fst (registry_saveLocked env (filter (\<lambda>x. sr_ID x \<noteq> ident) (rg_records r1)) () r1))"
    using ok by (intro save_ok [OF ok]) (auto simp: registry_ok_def distinct_map_filter list_all_iff intro: order_trans [OF length_filter_le])
  ultimately show ?case using ok by (simp add: registry_Delete_def)
next
  case (rename r1 env ident name)
  then have ok: "registry_ok parse insecure r1" by simp
  then have l: "rg_loaded r1" by (simp add: registry_ok_def)
  have "registry_ok parse insecure (fst (registry_saveLocked env (update_first (\<lambda>x. sr_ID x = ident) (\<lambda>x. x\<lparr>sr_Name := n, sr_UpdatedAt := w\<rparr>) (rg_records r1)) res r1))"
    if "length n \<le> 128" for n w and res :: ServerRecord
    using that by (intro update_ok [OF ok]) (auto simp: record_ok_def)
  with ok l show ?case by (auto simp: Rename_def Let_def split: option.splits)
next
  case (archive r1 env ident b)
  then have ok: "registry_ok parse insecure r1" by simp
  then have l: "rg_loaded r1" by (simp add: registry_ok_def)
  have "registry_ok parse insecure (fst (registry_saveLocked env (update_first (\<lambda>x. sr_ID x = ident) (\<lambda>x. x\<lparr>sr_Archived := b, sr_UpdatedAt := w\<rparr>) (rg_records r1)) res r1))"
    for w and res :: ServerRecord by (intro update_ok [OF ok]) (auto simp: record_ok_def)
  with ok l show ?case by (auto simp: SetArchived_def Let_def split: option.splits)
qed simp

text \<open>
  C35: the registry stays well formed. Whatever operations run on a well-formed registry, the identifiers
  stay distinct, there are at most 256 nodes, every name, endpoint and root key is within its bound,
  and every endpoint is a URL with a host and without credentials, query or fragment, an https one unless
  the registry allows plaintext nodes.
\<close>

theorem registry_stays_well_formed:
  assumes "registry_run parse r r'" "registry_ok parse (rg_allowInsecure r) r" "x \<in> set (rg_records r')"
  shows "distinct (map sr_ID (rg_records r')) \<and> length (rg_records r') \<le> 256 \<and>
    length (sr_Name x) \<le> 128 \<and> length (sr_Endpoint x) \<le> 2048 \<and> length (sr_RootKey x) \<le> 256 \<and>
    (\<exists>u. parse (trim_slashes (TrimSpace (sr_Endpoint x))) = Inr u \<and>
      (ur_Scheme u = ''https'' \<or> ur_Scheme u = ''http'' \<and> rg_allowInsecure r) \<and> ur_Host u \<noteq> [] \<and>
      \<not> ur_HasUser u \<and> ur_RawQuery u = [] \<and> ur_Fragment u = [])"
proof -
  have "registry_ok parse (rg_allowInsecure r) r'" by (rule registry_run_ok [OF assms(1,2)])
  moreover from this have "record_ok parse (rg_allowInsecure r) x" using assms(3) by (simp add: registry_ok_def list_all_iff)
  ultimately show ?thesis by (auto simp: registry_ok_def record_ok_def endpoint_allowed_def maxServerRecords_def split: sum.splits)
qed

definition example_node_url :: "string \<Rightarrow> web_error + ParsedURL" where
  "example_node_url s = Inr \<lparr>ur_Scheme = ''https'', ur_Host = ''n'', ur_HasUser = False, ur_RawQuery = [], ur_Fragment = []\<rparr>"

definition example_server :: ServerRecord where
  "example_server = \<lparr>sr_ID = ''srv_1'', sr_Name = ''n'', sr_Endpoint = ''https://n'', sr_RootKey = ''rk'', sr_TLSSkipVerify = False,
     sr_Archived = False, sr_CreatedAt = 1, sr_UpdatedAt = 1\<rparr>"

definition example_registry :: Registry where
  "example_registry = \<lparr>rg_file = None, rg_loaded = True, rg_records = [example_server], rg_allowInsecure = False\<rparr>"

text \<open>The registry after a node was added and another renamed, without a failure.\<close>

definition quiet_registry_env :: RegistryEnv where
  "quiet_registry_env = \<lparr>re_web = quiet_env, re_ParseURL = example_node_url, re_Marshal = (\<lambda>rs. Inr ''[]''), re_Unmarshal = (\<lambda>d. Inr [])\<rparr>"

definition grown_registry :: Registry where
  "grown_registry = fst (Rename quiet_registry_env ''srv_1'' ''first''
     (fst (Upsert quiet_registry_env (example_server\<lparr>sr_ID := [], sr_Name := [], sr_Endpoint := ''https://m''\<rparr>) example_registry)))"

theorem registry_stays_well_formed_witness:
  "map sr_Name (rg_records grown_registry) = [''first'', ''https://m''] \<and>
   distinct (map sr_ID (rg_records grown_registry)) \<and> length (rg_records grown_registry) \<le> 256 \<and>
   length (sr_Endpoint (rg_records grown_registry ! 1)) \<le> 2048"
proof -
  have names: "map sr_Name (rg_records grown_registry) = [''first'', ''https://m'']" by code_simp
  then have "length (rg_records grown_registry) = 2" by (metis length_map list.size(3,4) numeral_2_eq_2 One_nat_def add_0 plus_1_eq_Suc add.commute)
  then have x: "rg_records grown_registry ! 1 \<in> set (rg_records grown_registry)" by simp
  have ok: "registry_ok example_node_url (rg_allowInsecure example_registry) example_registry"
    by (simp add: registry_ok_def example_registry_def record_ok_def example_server_def endpoint_allowed_def example_node_url_def maxServerRecords_def)
  have "registry_run example_node_url example_registry grown_registry"
    unfolding grown_registry_def
    by (intro registry_run.rename registry_run.upsert registry_run.stay) (simp_all add: quiet_registry_env_def)
  from registry_stays_well_formed [OF this ok x] names show ?thesis by simp
qed

end
