(* ===== verification/Web_Access.thy ===== *)
theory Web_Access
  imports Session_Theorems Web_Registry Store_Views
begin

text \<open>
  Access control of the gateway's interface (\<open>internal/web/server.go\<close>): who may see and change keys
  and accounts, and what of the fleet a user sees.
\<close>

section \<open>Ownership\<close>

definition sameOwner :: "string \<Rightarrow> string \<Rightarrow> bool" where
  "sameOwner left right \<longleftrightarrow> (case (normalizeUsername left, normalizeUsername right) of
     (Inr l, Inr r) \<Rightarrow> l = r | _ \<Rightarrow> False)"

definition findToken :: "TokenView list \<Rightarrow> string \<Rightarrow> TokenView option" where
  "findToken tokens ident = find (\<lambda>t. tv_ID t = ident) tokens"

definition findReservation :: "ReservationView list \<Rightarrow> string \<Rightarrow> ReservationView option" where
  "findReservation rs ident = find (\<lambda>r. rv_ID r = ident) rs"

definition findAuthorization :: "AuthorizationView list \<Rightarrow> string \<Rightarrow> AuthorizationView option" where
  "findAuthorization as ident = find (\<lambda>a. av_ID a = ident) as"

definition canRevoke :: "web_error + KeyStatus \<Rightarrow> sessionInfo \<Rightarrow> string \<Rightarrow> web_error + bool" where
  "canRevoke answer session ident =
     (if si_Role session = RoleAdmin then Inr True
      else case answer of Inl e \<Rightarrow> Inl e
      | Inr status \<Rightarrow> Inr (case findToken (ks_Tokens status) ident of
          Some t \<Rightarrow> sameOwner (tv_Name t) (si_User session)
        | None \<Rightarrow> (case findReservation (ks_Reservations status) ident of
            Some r \<Rightarrow> sameOwner (rv_Holder r) (si_User session)
          | None \<Rightarrow> (case find (\<lambda>r. rv_GroupID r = ident) (ks_Reservations status) of
              Some r \<Rightarrow> sameOwner (rv_Holder r) (si_User session)
            | None \<Rightarrow> (case findAuthorization (ks_Authorizations status) ident of
                Some a \<Rightarrow> sameOwner (av_Holder a) (si_User session) | None \<Rightarrow> False)))))"

definition canUseKey :: "web_error + KeyStatus \<Rightarrow> sessionInfo \<Rightarrow> string \<Rightarrow> web_error + bool" where
  "canUseKey answer session ident =
     (if si_Role session = RoleAdmin then Inr True
      else case answer of Inl e \<Rightarrow> Inl e
      | Inr status \<Rightarrow> Inr (case findToken (ks_Tokens status) ident of
          Some t \<Rightarrow> sameOwner (tv_Name t) (si_User session) | None \<Rightarrow> False))"

section \<open>Keys and accounts\<close>

datatype key_reply = KeyRefused Response | KeyList "FixedUserKey list" | KeyShown FixedUserKey

text \<open>The path below \<open>/api/keys\<close>, without slashes at its ends.\<close>

definition trim_path :: "string \<Rightarrow> string" where
  "trim_path s = dropWhile (\<lambda>c. c = slash) (trim_slashes s)"

definition scope_refused :: "string \<Rightarrow> Response" where
  "scope_refused scope = refusal 403 (''access token is missing required scope: '' @ scope)"

text \<open>
  \<open>handleKeys\<close> for a path below \<open>/api/keys\<close>; the flag says that the nodes are told about a new key. The
  status of the synchronisation, which can be asked for with the list, is \<open>managedKeyStatus\<close> for every
  key and is left out.
\<close>

definition handleKeys :: "WebEnv \<Rightarrow> sessionInfo \<Rightarrow> string \<Rightarrow> string \<Rightarrow> UserStore \<Rightarrow> UserStore \<times> bool \<times> key_reply" where
  "handleKeys env session verb path0 s =
     (let path = trim_path path0; verbs = Split slash path in
      if path = [] then
        (if verb \<noteq> ''GET'' then (s, False, KeyRefused (refusal 405 ''method not allowed''))
         else if \<not> requireAccessTokenScope session ''keys:read'' then (s, False, KeyRefused (scope_refused ''keys:read''))
         else case FixedKeys env s of (s, Inl e) \<Rightarrow> (s, False, KeyRefused (refusal 500 (web_error_text e)))
         | (s, Inr keys) \<Rightarrow> (s, False, KeyList (if si_Role session \<noteq> RoleAdmin
             then filter (\<lambda>k. sameOwner (fk_Owner k) (si_User session)) keys else keys)))
      else (case verbs of
        [username, op] \<Rightarrow>
          if op \<noteq> ''reveal'' \<and> op \<noteq> ''regenerate'' then (s, False, KeyRefused (refusal 404 ''not found''))
          else if verb \<noteq> ''POST'' then (s, False, KeyRefused (refusal 405 ''method not allowed''))
          else let scope = (if op = ''regenerate'' then ''keys:rotate'' else ''keys:reveal'') in
            if \<not> requireAccessTokenScope session scope then (s, False, KeyRefused (scope_refused scope))
            else if si_Role session \<noteq> RoleAdmin \<and> \<not> sameOwner username (si_User session)
              then (s, False, KeyRefused (refusal 403 ''key access denied''))
            else if op = ''reveal'' then
              (case RevealFixedKey env username s of (s, Inl e) \<Rightarrow> (s, False, KeyRefused (refusal 400 (web_error_text e)))
               | (s, Inr key) \<Rightarrow> (s, False, KeyShown key))
            else (case RegenerateFixedKey env username s of (s, Inl e) \<Rightarrow> (s, False, KeyRefused (refusal 400 (web_error_text e)))
               | (s, Inr key) \<Rightarrow> (s, True, KeyShown key))
      | _ \<Rightarrow> (s, False, KeyRefused (refusal 404 ''not found''))))"

datatype users_request = UsersGet | UsersPost string string string | UsersDelete string | UsersOther
datatype users_reply = UsersRefused Response | UsersListed "PublicUser list" | UserCreated PublicUser | UserDeleted

text \<open>\<open>handleUsers\<close> for a decoded request; the flag says that the nodes are told about new keys.\<close>

definition handleUsers :: "WebEnv \<Rightarrow> sessionInfo \<Rightarrow> users_request \<Rightarrow> UserStore \<Rightarrow> UserStore \<times> bool \<times> users_reply" where
  "handleUsers env session req s = (case req of
     UsersGet \<Rightarrow> (case users_List env s of (s, Inl e) \<Rightarrow> (s, False, UsersRefused (refusal 500 (web_error_text e)))
       | (s, Inr us) \<Rightarrow> (s, False, UsersListed us))
   | UsersPost username password role \<Rightarrow>
       (case Create env username password role s of
          (s, Inl e) \<Rightarrow> (s, False, UsersRefused (if e = ErrPasswordWorkBusy
            then refusal 429 ''password service is temporarily busy; try again'' else refusal 400 (web_error_text e)))
        | (s, Inr u) \<Rightarrow> (s, True, UserCreated u))
   | UsersDelete username \<Rightarrow>
       if sameOwner username (si_User session) then (s, False, UsersRefused (refusal 400 ''cannot delete the current user''))
       else (case users_Delete env username s of (s, Inl e) \<Rightarrow> (s, False, UsersRefused (refusal 400 (web_error_text e)))
         | (s, Inr _) \<Rightarrow> (s, True, UserDeleted))
   | UsersOther \<Rightarrow> (s, False, UsersRefused (refusal 405 ''method not allowed'')))"

section \<open>Access tokens\<close>

record createAccessTokenRequest =
  cr_Name :: string
  cr_Scopes :: "string list"
  cr_ExpiryDays :: int

datatype token_reply =
    TokenRefused Response
  | TokenRevoked
  | TokensListed "PublicAccessToken list" "string list" "string list"
  | TokenCreated CreatedAccessToken

definition handleAccessTokens :: "WebEnv \<Rightarrow> sessionInfo \<Rightarrow> string \<Rightarrow> string \<Rightarrow> web_error + createAccessTokenRequest \<Rightarrow> UserStore \<Rightarrow>
    UserStore \<times> token_reply" where
  "handleAccessTokens env session verb path body s =
     (let rest = trim_path path in
      if rest \<noteq> [] then
        (if verb \<noteq> ''DELETE'' \<or> slash \<in> set rest then (s, TokenRefused (refusal 404 ''not found''))
         else case RevokeAccessToken env (si_User session) rest s of
           (s, Inl e) \<Rightarrow> (s, TokenRefused (refusal 404 (web_error_text e))) | (s, Inr _) \<Rightarrow> (s, TokenRevoked))
      else if verb = ''GET'' then
        (case ListAccessTokens env (si_User session) s of
           (s, Inl e) \<Rightarrow> (s, TokenRefused (refusal 500 (web_error_text e)))
         | (s, Inr tokens) \<Rightarrow> (s, TokensListed tokens (sort accessTokenSupportedScopes) accessTokenDefaultScopes))
      else if verb = ''POST'' then
        (case body of Inl e \<Rightarrow> (s, TokenRefused (refusal 400 (web_error_text e)))
         | Inr req \<Rightarrow> let days = (if cr_ExpiryDays req = 0 then 30 else cr_ExpiryDays req) in
           if days < 1 \<or> days > 365 then (s, TokenRefused (refusal 400 ''expiry_days must be between 1 and 365''))
           else (case CreateAccessToken env (si_User session) (cr_Name req) (cr_Scopes req) (we_now env + days * 86400 * second) s of
             (s, Inl e) \<Rightarrow> (s, TokenRefused (refusal 400 (web_error_text e))) | (s, Inr token) \<Rightarrow> (s, TokenCreated token)))
      else (s, TokenRefused (refusal 405 ''method not allowed'')))"

section \<open>The fleet as a user sees it\<close>

record GPUSnapshot =
  gs_ID :: int
  gs_Vendor :: string
  gs_Model :: string
  gs_UUID :: string
  gs_State :: string
  gs_MemoryUsedBytes :: "uint64 option"
  gs_MemoryTotalBytes :: "uint64 option"
  gs_UtilizationPct :: "string option"
  gs_Processes :: "GPUProcess list"
  gs_Reservation :: "ReservationView option"
  gs_Claim :: "SoftClaimView option"

record PSRow =
  pr_ID :: string
  pr_GPU :: string
  pr_User :: string
  pr_Command :: string

record NodeSnapshot =
  ns_Now :: time
  ns_Hostname :: string
  ns_DryRun :: bool
  ns_GPUs :: "GPUSnapshot list"
  ns_Tokens :: "TokenView list"
  ns_Reservations :: "ReservationView list"
  ns_Authorizations :: "AuthorizationView list"
  ns_SoftClaims :: "SoftClaimView list"
  ns_Leases :: "Lease list"
  ns_Bypasses :: "BypassRule list"
  ns_PS :: "PSRow list"

record serverSnapshot =
  sn_Server :: PublicServerRecord
  sn_Online :: bool
  sn_Error :: string
  sn_Snapshot :: "NodeSnapshot option"
  sn_Stale :: bool
  sn_SnapshotAt :: time

definition filterTokens :: "string \<Rightarrow> TokenView list \<Rightarrow> TokenView list" where
  "filterTokens user = filter (\<lambda>t. sameOwner (tv_Name t) user)"

definition scrub :: "string \<Rightarrow> ReservationView \<Rightarrow> ReservationView" where
  "scrub user r = (if \<not> sameOwner (rv_Holder r) user then r\<lparr>rv_GroupID := []\<rparr> else r)"

definition scrubReservations :: "string \<Rightarrow> ReservationView list \<Rightarrow> ReservationView list" where
  "scrubReservations user = map (scrub user)"

definition filterAuthorizations :: "string \<Rightarrow> AuthorizationView list \<Rightarrow> AuthorizationView list" where
  "filterAuthorizations user = filter (\<lambda>a. sameOwner (av_Holder a) user)"

definition filterSoftClaims :: "string \<Rightarrow> SoftClaimView list \<Rightarrow> SoftClaimView list" where
  "filterSoftClaims user = filter (\<lambda>c. sameOwner (cv_Holder c) user)"

definition filterLeases :: "string \<Rightarrow> Lease list \<Rightarrow> Lease list" where
  "filterLeases user = filter (\<lambda>l. sameOwner (ls_Holder l) user)"

definition cloneFilteredGPUSnapshots :: "GPUSnapshot list \<Rightarrow> GPUSnapshot list" where
  "cloneFilteredGPUSnapshots = map (\<lambda>g. g\<lparr>gs_Processes := []\<rparr>)"

definition filter_gpu :: "string \<Rightarrow> GPUSnapshot \<Rightarrow> GPUSnapshot" where
  "filter_gpu user g = g\<lparr>
     gs_Reservation := map_option (scrub user) (gs_Reservation g),
     gs_Claim := (case gs_Claim g of None \<Rightarrow> None
       | Some c \<Rightarrow> if \<not> sameOwner (cv_Holder c) user then None else Some c)\<rparr>"

definition filter_snapshot :: "string \<Rightarrow> NodeSnapshot \<Rightarrow> NodeSnapshot" where
  "filter_snapshot user n = n\<lparr>
     ns_GPUs := map (filter_gpu user) (cloneFilteredGPUSnapshots (ns_GPUs n)),
     ns_Tokens := filterTokens user (ns_Tokens n),
     ns_Reservations := scrubReservations user (ns_Reservations n),
     ns_Authorizations := filterAuthorizations user (ns_Authorizations n),
     ns_SoftClaims := filterSoftClaims user (ns_SoftClaims n),
     ns_Leases := filterLeases user (ns_Leases n),
     ns_Bypasses := [], ns_PS := []\<rparr>"

definition filterFleetSnapshot :: "serverSnapshot list \<Rightarrow> sessionInfo \<Rightarrow> serverSnapshot list" where
  "filterFleetSnapshot servers session =
     (if si_Role session = RoleAdmin then servers
      else map (\<lambda>item. item\<lparr>sn_Snapshot := map_option (filter_snapshot (si_User session)) (sn_Snapshot item)\<rparr>) servers)"

definition compactFleetSnapshot :: "serverSnapshot list \<Rightarrow> serverSnapshot list" where
  "compactFleetSnapshot = map (\<lambda>item. item\<lparr>sn_Snapshot := map_option (\<lambda>n. n\<lparr>ns_Tokens := [], ns_SoftClaims := [], ns_Leases := [],
     ns_Bypasses := [], ns_PS := []\<rparr>) (sn_Snapshot item)\<rparr>)"

section \<open>A user sees its own keys and its own things\<close>

lemma fixedUserKey_owner [simp]: "fk_Owner (fixedUserKey u secret) = u_Username u"
  by (simp add: fixedUserKey_def)

lemma RevealFixedKey_owner:
  assumes "RevealFixedKey env username s = (s', Inr k)"
  shows "normalizeUsername username = Inr (fk_Owner k)"
  using assms
  by (auto simp: RevealFixedKey_def with_users_def active_named_def find_Some_iff
      split: sum.splits prod.splits option.splits)

lemma assign_owner: "assign env k master v u = Inr u' \<Longrightarrow> u_Username u' = u_Username u"
  by (auto simp: assign_def Let_def split: sum.splits option.splits)

lemma RegenerateFixedKey_owner:
  assumes "RegenerateFixedKey env username s = (s', Inr k)"
  shows "normalizeUsername username = Inr (fk_Owner k)"
  using assms
  by (auto simp: RegenerateFixedKey_def with_users_def active_named_def find_Some_iff
      split: sum.splits prod.splits option.splits dest!: assign_owner)

lemma sameOwnerD: "sameOwner a b \<Longrightarrow> normalizeUsername a = normalizeUsername b"
  by (auto simp: sameOwner_def split: sum.splits)

lemma FixedKeys_secret:
  assumes "FixedKeys env s = (s', Inr keys)" "k \<in> set keys"
  shows "fk_Secret k = []"
  using assms by (auto simp: FixedKeys_def with_users_def fixedUserKey_def split: sum.splits prod.splits option.splits)

lemma refusal_simps [simp]: "rp_Status (refusal n m) = n" "rp_Cookie (refusal n m) = None" "rp_Message (refusal n m) = m"
  by (simp_all add: refusal_def)

text \<open>
  C15: \<open>handleKeys\<close> shows a user who is no administrator only its own keys, in the list without their
  secrets, and the secret of a key only on a POST of the one who owns it; through an access token, with
  the scope of the operation.
\<close>

theorem keys_confined:
  assumes "handleKeys env session verb path s = (s', pushed, reply)" "si_Role session \<noteq> RoleAdmin"
  shows "case reply of
      KeyList keys \<Rightarrow> verb = ''GET'' \<and> (\<forall>k \<in> set keys. sameOwner (fk_Owner k) (si_User session) \<and> fk_Secret k = []) \<and>
        (si_AuthMethod session = ''access_token'' \<longrightarrow> ''keys:read'' \<in> set (si_Scopes session))
    | KeyShown k \<Rightarrow> verb = ''POST'' \<and> normalizeUsername (si_User session) = Inr (fk_Owner k) \<and>
        (si_AuthMethod session = ''access_token'' \<longrightarrow>
           (if pushed then ''keys:rotate'' else ''keys:reveal'') \<in> set (si_Scopes session))
    | KeyRefused resp \<Rightarrow> rp_Status resp \<in> {400, 403, 404, 405, 500} \<and> \<not> pushed"
  using assms
  by (auto simp: handleKeys_def Let_def scope_refused_def requireAccessTokenScope_def
      split: if_splits list.splits sum.splits prod.splits
      dest!: RevealFixedKey_owner RegenerateFixedKey_owner sameOwnerD dest: FixedKeys_secret)

text \<open>
  C33: What \<open>filterFleetSnapshot\<close> leaves of a node for a user who is no administrator: no processes, no
  bypass rules, of keys, authorizations, claims and leases those of the user and all of them, and every
  reservation, but without the group through which others could be revoked.
\<close>

theorem fleet_view_confined:
  assumes "si_Role session \<noteq> RoleAdmin" "i < length fleet" "sn_Snapshot (fleet ! i) = Some m"
  shows "\<exists>n. sn_Snapshot (filterFleetSnapshot fleet session ! i) = Some n \<and> ns_PS n = [] \<and> ns_Bypasses n = [] \<and>
    set (ns_Tokens n) = {t \<in> set (ns_Tokens m). sameOwner (tv_Name t) (si_User session)} \<and>
    set (ns_Authorizations n) = {a \<in> set (ns_Authorizations m). sameOwner (av_Holder a) (si_User session)} \<and>
    set (ns_SoftClaims n) = {c \<in> set (ns_SoftClaims m). sameOwner (cv_Holder c) (si_User session)} \<and>
    set (ns_Leases n) = {l \<in> set (ns_Leases m). sameOwner (ls_Holder l) (si_User session)} \<and>
    length (ns_Reservations n) = length (ns_Reservations m) \<and>
    (\<forall>r \<in> set (ns_Reservations n) \<union> {r. \<exists>g \<in> set (ns_GPUs n). gs_Reservation g = Some r}.
       rv_GroupID r \<noteq> [] \<longrightarrow> sameOwner (rv_Holder r) (si_User session)) \<and>
    (\<forall>g \<in> set (ns_GPUs n). gs_Processes g = [] \<and>
       (\<forall>c. gs_Claim g = Some c \<longrightarrow> sameOwner (cv_Holder c) (si_User session)))"
proof -
  let ?n = "filter_snapshot (si_User session) m"
  have "sn_Snapshot (filterFleetSnapshot fleet session ! i) = Some ?n"
    using assms by (simp add: filterFleetSnapshot_def)
  moreover have "rv_GroupID (scrub user r) \<noteq> [] \<longrightarrow> sameOwner (rv_Holder (scrub user r)) user" for user r
    by (simp add: scrub_def)
  ultimately show ?thesis
    by (auto simp: filter_snapshot_def filterTokens_def filterAuthorizations_def filterSoftClaims_def filterLeases_def
        scrubReservations_def cloneFilteredGPUSnapshots_def filter_gpu_def split: option.splits if_splits)
qed

end
