(* ===== verification/Web_Sync.thy ===== *)
theory Web_Sync
  imports Web_Theorems Store_Cutover Collector
begin

text \<open>
  Distribution of the fixed user keys (\<open>internal/web/managed_key_sync.go\<close>): the snapshot of the keys of
  all active accounts, its cache, the push to one node, and the retry schedule. A node is the function
  that answers the push; the theorems instantiate it with the node store of this development.
\<close>

section \<open>The snapshot\<close>

record SyncEnv =
  sy_web :: WebEnv
  sy_Marshal :: "ManagedUserKey list \<Rightarrow> web_error + string"
  sy_authority :: string

definition deriveManagedKeyAuthority :: "Crypto \<Rightarrow> string \<Rightarrow> string" where
  "deriveManagedKeyAuthority cr master =
     ''mka_'' @ hex_EncodeToString (take 16 (cr_sha256 cr (''gpuardian-managed-key-authority-v1'' @ [nul] @ master)))"

definition managed_key :: "FixedUserKeyVerifier \<Rightarrow> ManagedUserKey" where
  "managed_key v = \<lparr>mk_ID = fv_ID v, mk_Owner = fv_Owner v, mk_Version = fv_Version v, mk_Hash = fv_Hash v\<rparr>"

definition buildManagedKeySnapshot :: "SyncEnv \<Rightarrow> UserStore \<Rightarrow> ManagedUserKeySnapshot web_result" where
  "buildManagedKeySnapshot env s = (case FixedKeyVerifiers (sy_web env) s of (s, Inl e) \<Rightarrow> (s, Inl e)
     | (s, Inr verifiers) \<Rightarrow> let keys = map managed_key verifiers in
       (s, case sy_Marshal env keys of Inl e \<Rightarrow> Inl e
        | Inr raw \<Rightarrow> Inr \<lparr>ms_SnapshotID = ''sha256:'' @ hex_EncodeToString (cr_sha256 (we_crypto (sy_web env)) raw),
            ms_AuthorityID = sy_authority env, ms_Keys = keys\<rparr>))"

record managedKeySnapshotCache =
  kc_generation :: uint64
  kc_authority :: string
  kc_snapshot :: ManagedUserKeySnapshot

type_synonym key_cache = "managedKeySnapshotCache option"

definition managedKeySnapshot :: "SyncEnv \<Rightarrow> UserStore \<Rightarrow> key_cache \<Rightarrow> UserStore \<times> key_cache \<times> (web_error + ManagedUserKeySnapshot)" where
  "managedKeySnapshot env s cache =
     (let generation = us_generation s;
          build = (case buildManagedKeySnapshot env s of (s, Inl e) \<Rightarrow> (s, cache, Inl e)
            | (s, Inr snapshot) \<Rightarrow> (s, Some \<lparr>kc_generation = generation, kc_authority = sy_authority env, kc_snapshot = snapshot\<rparr>, Inr snapshot)) in
      case cache of Some c \<Rightarrow>
        if kc_generation c = generation \<and> kc_authority c = sy_authority env then (s, cache, Inr (kc_snapshot c)) else build
      | None \<Rightarrow> build)"

section \<open>One node\<close>

text \<open>The answer of a node to the push, with the state of the node.\<close>

type_synonym 'n node_sync = "ManagedUserKeySnapshot \<Rightarrow> 'n \<Rightarrow> 'n \<times> (web_error + ManagedUserKeySyncResult)"

definition syncManagedKeysToNodeOnce ::
  "SyncEnv \<Rightarrow> web_error + Info \<Rightarrow> 'n node_sync \<Rightarrow> 'n \<Rightarrow> UserStore \<Rightarrow> key_cache \<Rightarrow>
     'n \<times> UserStore \<times> key_cache \<times> (web_error + string)" where
  "syncManagedKeysToNodeOnce env answer node n s cache =
     (case answer of Inl e \<Rightarrow> (n, s, cache, Inl e)
      | Inr info \<Rightarrow>
        if \<not> telemetryCapability info ''managed_user_keys_v1''
          then (n, s, cache, Inl (WErr ''node daemon must be upgraded for fixed user keys''))
        else case managedKeySnapshot env s cache of (s, cache, Inl e) \<Rightarrow> (n, s, cache, Inl e)
        | (s, cache, Inr snapshot0) \<Rightarrow>
          let snapshot = (if telemetryCapability info ''managed_key_authority_v1'' then snapshot0 else snapshot0\<lparr>ms_AuthorityID := []\<rparr>) in
          (case node snapshot n of (n, Inl e) \<Rightarrow> (n, s, cache, Inl e)
           | (n, Inr result) \<Rightarrow>
             if \<not> mr_Managed result \<or> mr_SnapshotID result \<noteq> ms_SnapshotID snapshot
             then (n, s, cache, Inl (WErr ''node did not confirm the current fixed-key snapshot''))
             else (n, s, cache, Inr (ms_SnapshotID snapshot))))"

record managedKeyNodeState =
  kn_SnapshotID :: string
  kn_SyncedAt :: time
  kn_LastError :: string
  kn_NextTry :: time
  kn_Backoff :: duration

definition managedKeyRetryMin :: duration where "managedKeyRetryMin = 2 * second"
definition managedKeyRetryMax :: duration where "managedKeyRetryMax = 60 * second"
definition managedKeyFullSync :: duration where "managedKeyFullSync = 300 * second"

type_synonym node_states = "string \<Rightarrow> managedKeyNodeState option"

definition zero_node_state :: managedKeyNodeState where
  "zero_node_state = \<lparr>kn_SnapshotID = [], kn_SyncedAt = 0, kn_LastError = [], kn_NextTry = 0, kn_Backoff = 0\<rparr>"

definition recordManagedKeySync :: "time \<Rightarrow> string \<Rightarrow> string \<Rightarrow> web_error option \<Rightarrow> (web_error \<Rightarrow> string) \<Rightarrow> node_states \<Rightarrow> node_states" where
  "recordManagedKeySync now nodeID snapshotID syncErr show_error states =
     (let state = (case states nodeID of Some st \<Rightarrow> st | None \<Rightarrow> zero_node_state) in
      states(nodeID \<mapsto> (case syncErr of
        None \<Rightarrow> state\<lparr>kn_SnapshotID := snapshotID, kn_SyncedAt := now, kn_LastError := [], kn_Backoff := 0,
          kn_NextTry := now + managedKeyFullSync\<rparr>
      | Some e \<Rightarrow> let backoff = (if kn_Backoff state < managedKeyRetryMin then managedKeyRetryMin
            else min managedKeyRetryMax (kn_Backoff state * 2)) in
          state\<lparr>kn_LastError := show_error e, kn_Backoff := backoff, kn_NextTry := now + backoff\<rparr>)))"

definition managedKeySyncDue :: "time \<Rightarrow> string \<Rightarrow> node_states \<Rightarrow> bool" where
  "managedKeySyncDue now nodeID states = (case states nodeID of None \<Rightarrow> True | Some st \<Rightarrow> \<not> now < kn_NextTry st)"

text \<open>
  \<open>ensureManagedKeysOnNode\<close> skips the push when the node confirmed the present snapshot within the
  last five minutes; a push records its outcome.
\<close>

definition syncManagedKeysToNode ::
  "SyncEnv \<Rightarrow> (web_error \<Rightarrow> string) \<Rightarrow> string \<Rightarrow> web_error + Info \<Rightarrow> 'n node_sync \<Rightarrow> 'n \<Rightarrow> UserStore \<Rightarrow> key_cache \<Rightarrow> node_states \<Rightarrow>
     'n \<times> UserStore \<times> key_cache \<times> node_states \<times> web_error option" where
  "syncManagedKeysToNode env show_error nodeID answer node n s cache states =
     (case syncManagedKeysToNodeOnce env answer node n s cache of
        (n, s, cache, Inl e) \<Rightarrow> (n, s, cache, recordManagedKeySync (we_now (sy_web env)) nodeID [] (Some e) show_error states, Some e)
      | (n, s, cache, Inr ident) \<Rightarrow> (n, s, cache, recordManagedKeySync (we_now (sy_web env)) nodeID ident None show_error states, None))"

definition ensureManagedKeysOnNode ::
  "SyncEnv \<Rightarrow> (web_error \<Rightarrow> string) \<Rightarrow> string \<Rightarrow> web_error + Info \<Rightarrow> 'n node_sync \<Rightarrow> 'n \<Rightarrow> UserStore \<Rightarrow> key_cache \<Rightarrow> node_states \<Rightarrow>
     'n \<times> UserStore \<times> key_cache \<times> node_states \<times> web_error option" where
  "ensureManagedKeysOnNode env show_error nodeID answer node n s cache states =
     (case managedKeySnapshot env s cache of
        (s, cache, Inl _) \<Rightarrow> syncManagedKeysToNode env show_error nodeID answer node n s cache states
      | (s, cache, Inr snapshot) \<Rightarrow>
        (case states nodeID of
           Some st \<Rightarrow>
             if kn_LastError st = [] \<and> kn_SnapshotID st = ms_SnapshotID snapshot \<and>
                time_Sub (we_now (sy_web env)) (kn_SyncedAt st) < managedKeyFullSync
             then (n, s, cache, states, None)
             else syncManagedKeysToNode env show_error nodeID answer node n s cache states
         | None \<Rightarrow> syncManagedKeysToNode env show_error nodeID answer node n s cache states))"

text \<open>The nodes of one round: the active ones that are due, or all of them when the round is forced.\<close>

definition sync_round :: "time \<Rightarrow> bool \<Rightarrow> (string \<times> bool) list \<Rightarrow> node_states \<Rightarrow> string list" where
  "sync_round now force records states = map fst (filter (\<lambda>(ident, archived). \<not> archived \<and> (force \<or> managedKeySyncDue now ident states)) records)"

record ManagedKeyNodeStatus =
  kt_NodeID :: string
  kt_Node :: string
  kt_Status :: string
  kt_SnapshotID :: string
  kt_SyncedAt :: time
  kt_Error :: string

definition managedKeyStatus :: "string \<Rightarrow> node_states \<Rightarrow> string \<times> string \<times> bool \<Rightarrow> ManagedKeyNodeStatus" where
  "managedKeyStatus current states = (\<lambda>(ident, name, archived).
     let item = \<lparr>kt_NodeID = ident, kt_Node = name, kt_Status = ''pending'', kt_SnapshotID = [], kt_SyncedAt = 0, kt_Error = []\<rparr> in
     if archived then item\<lparr>kt_Status := ''archived''\<rparr>
     else case states ident of None \<Rightarrow> item
     | Some st \<Rightarrow> item\<lparr>kt_SnapshotID := kn_SnapshotID st, kt_SyncedAt := kn_SyncedAt st, kt_Error := kn_LastError st, kt_Status :=
         (if kn_LastError st \<noteq> [] then ''error'' else if current \<noteq> [] \<and> kn_SnapshotID st = current then ''synced'' else ''pending'')\<rparr>)"

section \<open>The key reaches the node\<close>

text \<open>What the cipher promises: it opens what it sealed, with the same nonce and the same context.\<close>

definition opens_sealed :: "Crypto \<Rightarrow> bool" where
  "opens_sealed cr \<longleftrightarrow> (\<forall>key nonce plain aad. cr_open cr key nonce (cr_seal cr key nonce plain aad) aad = Some plain)"

lemma assign_reveal:
  assumes "opens_sealed (we_crypto env)" "assign env k master v u = Inr u'"
    and "\<And>n bs. we_rand env (k + 2) n = Inr bs \<Longrightarrow> length bs = n"
    and "\<And>key nonce plain aad. cr_seal (we_crypto env) key nonce plain aad \<noteq> []"
  shows "\<exists>bs. reveal (we_crypto env) (Some master) u' = Inr (''gk_'' @ hex_EncodeToString bs) \<and>
    u_KeyHash u' = hex_EncodeToString (cr_sha256 (we_crypto env) (''gk_'' @ hex_EncodeToString bs))"
proof -
  let ?cr = "we_crypto env"
  from assms(2) obtain bs ib nonce where r: "we_rand env (k + 2) key_nonce_size = Inr nonce"
    and u': "u' = (u\<lparr>u_KeyID := ''uk_'' @ hex_EncodeToString ib, u_KeyVersion := v, u_KeyCreatedAt := we_now env,
        u_KeyHash := hex_EncodeToString (cr_sha256 ?cr (''gk_'' @ hex_EncodeToString bs))\<rparr>)
      \<lparr>u_KeyCipher := base64_EncodeToString std_alphabet (nonce @ cr_seal ?cr master nonce (''gk_'' @ hex_EncodeToString bs)
        (fixedKeyAAD (u\<lparr>u_KeyID := ''uk_'' @ hex_EncodeToString ib, u_KeyVersion := v, u_KeyCreatedAt := we_now env,
        u_KeyHash := hex_EncodeToString (cr_sha256 ?cr (''gk_'' @ hex_EncodeToString bs))\<rparr>)))\<rparr>"
    by (auto simp: assign_def Let_def split: sum.splits)
  have n: "length nonce = key_nonce_size" by (rule assms(3) [OF r])
  have a: "fixedKeyAAD u' = fixedKeyAAD (u\<lparr>u_KeyID := ''uk_'' @ hex_EncodeToString ib, u_KeyVersion := v, u_KeyCreatedAt := we_now env,
        u_KeyHash := hex_EncodeToString (cr_sha256 ?cr (''gk_'' @ hex_EncodeToString bs))\<rparr>)" by (simp add: u' fixedKeyAAD_def)
  have "base64_DecodeString std_alphabet (u_KeyCipher u') = Some (nonce @ cr_seal ?cr master nonce (''gk_'' @ hex_EncodeToString bs) (fixedKeyAAD u'))"
    unfolding a by (simp add: u' base64_Decode_Encode)
  then have "reveal ?cr (Some master) u' = Inr (''gk_'' @ hex_EncodeToString bs)"
    using n assms(1,4) by (simp add: reveal_def opens_sealed_def)
  moreover have "u_KeyHash u' = hex_EncodeToString (cr_sha256 ?cr (''gk_'' @ hex_EncodeToString bs))" by (simp add: u')
  ultimately show ?thesis by blast
qed

text \<open>The node store after a push that replaced its keys.\<close>

lemma sync_replaces:
  assumes "SyncManagedUserKeys env k snapshot now s = (t, Inr res)" "sto_loaded s"
    and "\<not> (ManagedKeys (sto_state s) \<and> KeySnapshotID (sto_state s) = TrimSpace (ms_SnapshotID snapshot))"
  shows "sto_loaded t \<and> managed_tokens now [] (ms_Keys snapshot) = Inr (Tokens (sto_state t))"
proof -
  from assms(1,2) obtain ts s1 where toks: "managed_tokens now [] (ms_Keys snapshot) = Inr ts" and
    s1: "same_data s s1" and
    lock: "sync_locked env (TrimSpace (ms_SnapshotID snapshot)) (TrimSpace (ms_AuthorityID snapshot)) ts s1 = (t, Inr res)"
    by (rule SyncManagedUserKeys_Inr)
  from sync_locked_Inr [OF lock] assms(2,3) s1 toks show ?thesis by (auto simp: same_dataD split: if_splits)
qed

lemma validate_managed:
  assumes "sto_loaded t" "managed_tokens now [] keys = Inr (Tokens (sto_state t))" "HashToken env (TrimSpace secret) = h"
  shows "(\<forall>key \<in> set keys. ToLower (TrimSpace (mk_Hash key)) = h \<longrightarrow>
      snd (snd (snd (ValidateToken env secret at t))) = None \<and> tk_Name (fst (snd (ValidateToken env secret at t))) = normalizeHolder (mk_Owner key)) \<and>
    (h \<notin> (\<lambda>key. ToLower (TrimSpace (mk_Hash key))) ` set keys \<longrightarrow>
      snd (snd (snd (ValidateToken env secret at t))) = Some ErrTokenNotFound)"
proof -
  let ?ts = "Tokens (sto_state t)"
  have rows: "map tk_Hash ?ts = map (\<lambda>k. ToLower (TrimSpace (mk_Hash k))) keys" "map tk_Name ?ts = map (\<lambda>k. normalizeHolder (mk_Owner k)) keys"
    using managed_tokens_rows [OF assms(2)] by simp_all
  have ok: "managed_ok ?ts" by (rule managed_tokens_ok [OF assms(2)]) (simp add: managed_ok_def)
  have "snd (snd (snd (ValidateToken env secret at t))) = None \<and> tk_Name (fst (snd (ValidateToken env secret at t))) = normalizeHolder (mk_Owner key)"
    if "key \<in> set keys" "ToLower (TrimSpace (mk_Hash key)) = h" for key
  proof -
    from that(1) obtain i where i: "i < length keys" "keys ! i = key" by (auto simp: in_set_conv_nth)
    with rows have l: "length ?ts = length keys" by (metis length_map)
    have e: "tk_Hash (?ts ! i) = h" "tk_Name (?ts ! i) = normalizeHolder (mk_Owner key)"
      using i l that(2) arg_cong [OF rows(1), of "\<lambda>xs. xs ! i"] arg_cong [OF rows(2), of "\<lambda>xs. xs ! i"] by simp_all
    have d: "distinct (map tk_Hash ?ts)" using ok by (simp add: managed_ok_def)
    obtain x where x: "find (\<lambda>t. tk_Hash t = h) ?ts = Some x" "x \<in> set ?ts" "tk_Hash x = h"
      using find_ex [of "?ts ! i" ?ts "\<lambda>t. tk_Hash t = h"] e(1) i(1) l by auto
    have m: "?ts ! i \<in> set ?ts" using i(1) l by simp
    have "x = ?ts ! i" using d x(2,3) e(1) m by (simp add: distinct_map inj_on_def)
    moreover have "\<not> tk_Revoked x" "tk_ExpiresAt x = 0" using ok x(2) by (simp_all add: managed_ok_def list_all_iff)
    ultimately show ?thesis using x(1) e(2) assms(1,3) by (simp add: ValidateToken_def loadLocked_def Let_def timeIsSet_def time_IsZero_def)
  qed
  moreover have "snd (snd (snd (ValidateToken env secret at t))) = Some ErrTokenNotFound"
    if "h \<notin> (\<lambda>key. ToLower (TrimSpace (mk_Hash key))) ` set keys"
  proof -
    have "tk_Hash ` set ?ts = (\<lambda>key. ToLower (TrimSpace (mk_Hash key))) ` set keys" using arg_cong [OF rows(1), of set] by simp
    with that have "find (\<lambda>t. tk_Hash t = h) ?ts = None" unfolding find_None_iff by force
    then show ?thesis using assms(1,3) by (simp add: ValidateToken_def loadLocked_def Let_def)
  qed
  ultimately show ?thesis by blast
qed

lemma lower_hex_digit: "n < 16 \<Longrightarrow> lower_char (hex_digit n) = hex_digit n"
  by (auto simp: lower_char_def hex_digit_def Let_def)

lemma ToLower_hex: "ToLower (hex_EncodeToString bs) = hex_EncodeToString bs"
proof (induction bs)
  case (Cons b bs)
  have "(of_char b :: nat) < 256" by (rule nat_of_char_less_256)
  then have "lower_char (hex_digit (of_char b div 16)) = hex_digit (of_char b div 16)"
    "lower_char (hex_digit (of_char b mod 16)) = hex_digit (of_char b mod 16)" by (simp_all add: lower_hex_digit less_mult_imp_div_less)
  with Cons show ?case by (simp add: ToLower_def hex_EncodeToString_def Let_def)
qed (simp add: ToLower_def hex_EncodeToString_def)

lemma normal_hash: "ToLower (TrimSpace (hex_EncodeToString bs)) = hex_EncodeToString bs"
  by (simp add: TrimSpace_plain hex_EncodeToString_plain ToLower_hex)

lemma buildManagedKeySnapshot_Inr:
  assumes "us_loaded s" "buildManagedKeySnapshot env s = (s', Inr snapshot)"
  shows "s' = s \<and> set (ms_Keys snapshot) = (\<lambda>u. managed_key (verifier_of u)) ` {u \<in> set (us_users s). has_key u}"
  using assms by (auto simp: buildManagedKeySnapshot_def FixedKeyVerifiers_def Let_def split: sum.splits)

lemma managedKeySnapshot_fresh:
  assumes "us_loaded s" "\<And>c. cache = Some c \<Longrightarrow> kc_generation c \<noteq> us_generation s" "managedKeySnapshot env s cache = (s', cache', Inr snapshot)"
  shows "s' = s \<and> set (ms_Keys snapshot) = (\<lambda>u. managed_key (verifier_of u)) ` {u \<in> set (us_users s). has_key u}"
  using assms(2,3) buildManagedKeySnapshot_Inr [OF assms(1), of env]
  by (auto simp: managedKeySnapshot_def Let_def split: option.splits if_splits prod.splits sum.splits)

lemma sync_once_Inr:
  assumes "us_loaded s" "\<And>c. cache = Some c \<Longrightarrow> kc_generation c \<noteq> us_generation s"
    and "syncManagedKeysToNodeOnce env (Inr info) node n s cache = (n', s', cache', Inr ident)"
  shows "\<exists>snapshot result. node snapshot n = (n', Inr result) \<and> ms_SnapshotID snapshot = ident \<and>
    set (ms_Keys snapshot) = (\<lambda>u. managed_key (verifier_of u)) ` {u \<in> set (us_users s). has_key u}"
proof -
  from assms(3) obtain snapshot s1 cache1 where m: "managedKeySnapshot env s cache = (s1, cache1, Inr snapshot)"
    by (auto simp: syncManagedKeysToNodeOnce_def split: if_splits prod.splits sum.splits)
  from managedKeySnapshot_fresh [OF assms(1,2) m] have k:
    "set (ms_Keys snapshot) = (\<lambda>u. managed_key (verifier_of u)) ` {u \<in> set (us_users s). has_key u}" by blast
  let ?snapshot = "if telemetryCapability info ''managed_key_authority_v1'' then snapshot else snapshot\<lparr>ms_AuthorityID := []\<rparr>"
  from assms(3) m have "\<exists>result. node ?snapshot n = (n', Inr result)" "ms_SnapshotID ?snapshot = ident"
    by (auto simp: syncManagedKeysToNodeOnce_def Let_def split: if_splits prod.splits sum.splits)
  moreover have "set (ms_Keys ?snapshot) = (\<lambda>u. managed_key (verifier_of u)) ` {u \<in> set (us_users s). has_key u}" using k by simp
  ultimately show ?thesis by blast
qed

lemma users_saveLocked_generation:
  "snd (users_saveLocked env users s) = None \<Longrightarrow> us_generation (fst (users_saveLocked env users s)) = us_generation s + 1"
  by (auto simp: users_saveLocked_def writePrivateFile_def split: sum.splits prod.splits option.splits if_splits)

lemma RegenerateFixedKey_Inr:
  assumes "us_loaded s" "RegenerateFixedKey env username s = (s1, Inr key)"
  shows "\<exists>name u u' master secret. us_cipher s = Some master \<and> find (active_named name) (us_users s) = Some u \<and>
    assign env 0 master (next_version (u_KeyVersion u)) u = Inr u' \<and> us_users s1 = update_first (active_named name) (\<lambda>_. u') (us_users s) \<and>
    us_loaded s1 \<and> us_generation s1 = us_generation s + 1 \<and> reveal (we_crypto env) (Some master) u' = Inr secret \<and> key = fixedUserKey u' secret"
proof -
  from assms obtain name u u' master where n: "find (active_named name) (us_users s) = Some u" "us_cipher s = Some master"
    "assign env 0 master (next_version (u_KeyVersion u)) u = Inr u'"
    and r: "(case users_saveLocked env (update_first (active_named name) (\<lambda>_. u') (us_users s)) s of (s, Some e) \<Rightarrow> (s, Inl e)
      | (s, None) \<Rightarrow> (s, case reveal (we_crypto env) (us_cipher s) u' of Inl e \<Rightarrow> Inl e | Inr secret \<Rightarrow> Inr (fixedUserKey u' secret))) = (s1, Inr key)"
    by (auto simp: RegenerateFixedKey_def split: sum.splits option.splits)
  let ?us = "update_first (active_named name) (\<lambda>_. u') (us_users s)"
  obtain s2 where s2: "users_saveLocked env ?us s = (s2, None)" using r by (auto split: prod.splits option.splits)
  have "us_users s2 = ?us" "us_generation s2 = us_generation s + 1" "us_loaded s2" "us_cipher s2 = Some master"
    using users_saveLocked_None [of env ?us s] users_saveLocked_generation [of env ?us s] users_saveLocked_loaded [OF assms(1), of env ?us]
      users_saveLocked_cipher [of env ?us s] n(2) by (simp_all add: s2)
  with r s2 n show ?thesis by (auto split: sum.splits)
qed

text \<open>The node store of this development as the node of a push.\<close>

definition store_node :: "StoreEnv \<Rightarrow> string \<Rightarrow> time \<Rightarrow> Store node_sync" where
  "store_node nenv rootKey now snapshot n = (case SyncManagedUserKeys nenv rootKey snapshot now n of
     (t, Inl e) \<Rightarrow> (t, Inl (WErr [])) | (t, Inr r) \<Rightarrow> (t, Inr r))"

text \<open>
  C8: a regenerated key works on the node, and no other does. When an account's fixed key was
  regenerated and the keys were pushed to a node that had another snapshot, the secret the account
  was shown validates on the node, as a key of that account; and every secret whose hash is not the
  hash of the key of an active account, the replaced key and the keys of deleted accounts included, is
  unknown to the node.
\<close>

theorem regenerated_key_reaches_node:
  assumes gateway: "us_loaded s" "RegenerateFixedKey env username s = (s1, Inr key)"
    and crypto: "opens_sealed (we_crypto env)" "\<And>key nonce plain aad. cr_seal (we_crypto env) key nonce plain aad \<noteq> []"
      "\<And>k n bs. we_rand env k n = Inr bs \<Longrightarrow> length bs = n" "env_sha256 nenv = cr_sha256 (we_crypto env)"
    and push: "syncManagedKeysToNodeOnce senv (Inr info) (store_node nenv rootKey now) n s1 cache = (n', s2, cache', Inr ident)"
    and old: "\<And>c. cache = Some c \<Longrightarrow> kc_generation c = us_generation s"
    and node: "sto_loaded n" "\<not> (ManagedKeys (sto_state n) \<and> KeySnapshotID (sto_state n) = TrimSpace ident)"
  shows "snd (snd (snd (ValidateToken nenv (fk_Secret key) at n'))) = None \<and>
    tk_Name (fst (snd (ValidateToken nenv (fk_Secret key) at n'))) = normalizeHolder (fk_Owner key) \<and>
    (HashToken nenv (TrimSpace other) \<in> (\<lambda>u. ToLower (TrimSpace (u_KeyHash u))) ` {u \<in> set (us_users s1). has_key u} \<or>
     snd (snd (snd (ValidateToken nenv other at n'))) = Some ErrTokenNotFound)"
proof -
  from RegenerateFixedKey_Inr [OF gateway] obtain name u u' master secret where u: "find (active_named name) (us_users s) = Some u"
    "assign env 0 master (next_version (u_KeyVersion u)) u = Inr u'" "us_users s1 = update_first (active_named name) (\<lambda>_. u') (us_users s)"
    "us_loaded s1" "us_generation s1 = us_generation s + 1" "reveal (we_crypto env) (Some master) u' = Inr secret" "key = fixedUserKey u' secret" by blast
  have l: "\<And>n bs. we_rand env (0 + 2) n = Inr bs \<Longrightarrow> length bs = n" by (rule crypto(3))
  from assign_reveal [OF crypto(1) u(2) l crypto(2)] u(6) obtain bs where
    sec: "secret = ''gk_'' @ hex_EncodeToString bs" "u_KeyHash u' = hex_EncodeToString (cr_sha256 (we_crypto env) secret)" by auto
  have m: "u' \<in> set (us_users s1)" unfolding u(3) using update_first_found [OF u(1), of "\<lambda>_. u'"] by simp
  have a: "\<not> u_Disabled u'" "u_KeyID u' \<noteq> []" "has_key u'"
    using assign_Inr [OF u(2)] find_SomeD [OF u(1)] by (simp_all add: active_named_def has_key_def)
  from old u(5) have "\<And>c. cache = Some c \<Longrightarrow> kc_generation c \<noteq> us_generation s1" by (metis add_cancel_right_right zero_neq_one)
  from sync_once_Inr [OF u(4) this push] obtain snapshot result where nd: "store_node nenv rootKey now snapshot n = (n', Inr result)"
    "ms_SnapshotID snapshot = ident" "set (ms_Keys snapshot) = (\<lambda>u. managed_key (verifier_of u)) ` {u \<in> set (us_users s1). has_key u}" by blast
  have "SyncManagedUserKeys nenv rootKey snapshot now n = (n', Inr result)" using nd(1) by (auto simp: store_node_def split: prod.splits sum.splits)
  from sync_replaces [OF this node(1)] node(2) nd(2) have t: "sto_loaded n'" "managed_tokens now [] (ms_Keys snapshot) = Inr (Tokens (sto_state n'))" by auto
  let ?key = "managed_key (verifier_of u')"
  have k: "?key \<in> set (ms_Keys snapshot)" using nd(3) m a(3) by blast
  have h: "HashToken nenv (TrimSpace secret) = ToLower (TrimSpace (mk_Hash ?key))"
    using sec crypto(4) TrimSpace_secret [of bs] by (simp add: HashToken_def managed_key_def verifier_of_def normal_hash)
  have f: "fk_Secret key = secret" "mk_Owner ?key = fk_Owner key" by (simp_all add: u(7) fixedUserKey_def managed_key_def verifier_of_def)
  have i: "(\<lambda>key. ToLower (TrimSpace (mk_Hash key))) ` set (ms_Keys snapshot) = (\<lambda>u. ToLower (TrimSpace (u_KeyHash u))) ` {u \<in> set (us_users s1). has_key u}"
    unfolding nd(3) image_image by (simp add: managed_key_def verifier_of_def)
  have "snd (snd (snd (ValidateToken nenv secret at n'))) = None \<and> tk_Name (fst (snd (ValidateToken nenv secret at n'))) = normalizeHolder (mk_Owner ?key)"
    using validate_managed [OF t refl, of nenv secret at] k h by metis
  moreover have "HashToken nenv (TrimSpace other) \<in> (\<lambda>u. ToLower (TrimSpace (u_KeyHash u))) ` {u \<in> set (us_users s1). has_key u} \<or>
      snd (snd (snd (ValidateToken nenv other at n'))) = Some ErrTokenNotFound"
    using validate_managed [OF t refl, of nenv other at] unfolding i by blast
  ultimately show ?thesis by (simp add: f)
qed

definition keyed_users :: UserStore where
  "keyed_users = example_users\<lparr>us_cipher := Some (replicate 32 CHR ''m'')\<rparr>"

definition example_sync_env :: SyncEnv where
  "example_sync_env = \<lparr>sy_web = example_web_env 12, sy_Marshal = (\<lambda>ks. Inr ''keys''), sy_authority = ''mka_1''\<rparr>"

definition example_info :: Info where
  "example_info = \<lparr>in_NodeID = ''n'', in_TelemetrySchema = 1, in_Capabilities = [''managed_user_keys_v1'', ''managed_key_authority_v1'']\<rparr>"

text \<open>The account with its new key; the encrypted secret is left symbolic.\<close>

definition ada_keyed :: UserRecord where
  "ada_keyed = projr (assign (example_web_env 11) 0 (replicate 32 CHR ''m'') 1 (example_user ''ada'' RoleUser))"

definition ada_key :: ManagedUserKey where
  "ada_key = \<lparr>mk_ID = ''uk_'' @ hex_EncodeToString (replicate 8 CHR 0x02), mk_Owner = ''ada'', mk_Version = 1,
     mk_Hash = hex_EncodeToString (example_sha256 (''gk_'' @ hex_EncodeToString (replicate 24 CHR 0x01)))\<rparr>"

definition ada_snapshot :: ManagedUserKeySnapshot where
  "ada_snapshot = \<lparr>ms_SnapshotID = ''sha256:'' @ hex_EncodeToString (example_sha256 ''keys''), ms_AuthorityID = ''mka_1'', ms_Keys = [ada_key]\<rparr>"

lemma example_sha256_eq: "cr_sha256 example_crypto = example_sha256"
  by (simp add: example_crypto_def example_sha256_def fun_eq_iff)

lemma example_sealed: "opens_sealed example_crypto" "cr_seal example_crypto key nonce plain aad \<noteq> []"
  by (simp_all add: opens_sealed_def example_crypto_def Let_def)

lemma assign_ada: "assign (example_web_env 11) 0 (replicate 32 CHR ''m'') 1 (example_user ''ada'' RoleUser) = Inr ada_keyed"
  unfolding ada_keyed_def by (simp add: assign_def Let_def)

lemma example_bytes: "char_of (Suc 0) = CHR 0x01" "char_of (Suc (Suc 0)) = CHR 0x02"
  by code_simp+

lemma ada_keyed_simps: "managed_key (verifier_of ada_keyed) = ada_key" "has_key ada_keyed"
  using example_bytes by (simp_all add: ada_keyed_def assign_def Let_def has_key_def managed_key_def verifier_of_def ada_key_def example_sha256_eq)
    (simp_all add: example_user_def example_bytes)

lemma regenerate_ada:
  "\<exists>s1 key. RegenerateFixedKey (example_web_env 11) ''Ada'' keyed_users = (s1, Inr key) \<and> us_loaded s1 \<and>
     us_users s1 = [example_user ''root'' RoleAdmin, ada_keyed]"
proof -
  have "reveal example_crypto (Some (replicate 32 CHR ''m'')) ada_keyed \<noteq> Inl e" for e
    using assign_reveal [OF _ assign_ada] example_sealed by auto
  then obtain secret where "reveal example_crypto (Some (replicate 32 CHR ''m'')) ada_keyed = Inr secret" by (metis old.sum.exhaust)
  moreover have "next_version (u_KeyVersion (example_user ''ada'' RoleUser)) = 1" by (simp add: next_version_def example_user_def)
  moreover have "u_Username (example_user x r) = x" "\<not> u_Disabled (example_user x r)" for x r by (simp_all add: example_user_def)
  moreover have "users_saveLocked (example_web_env now) us s =
      (s\<lparr>us_file := fst (writePrivateFile (example_web_env now) (''[]'' @ [CHR 0x0A]) (us_file s)), us_users := us, us_loaded := True,
         us_generation := us_generation s + 1\<rparr>, None)" for now us s
    by (simp add: users_saveLocked_def writePrivateFile_def example_web_env_def)
  ultimately show ?thesis by (simp add: RegenerateFixedKey_def keyed_users_def active_named_def assign_ada)
qed

lemma push_ada:
  assumes "us_loaded s" "us_users s = [example_user ''root'' RoleAdmin, ada_keyed]"
  shows "\<exists>n' s2 c'. syncManagedKeysToNodeOnce example_sync_env (Inr example_info) (store_node example_env example_root_key 1500) example_store s None =
    (n', s2, c', Inr (ms_SnapshotID ada_snapshot))"
proof -
  have "\<not> has_key (example_user ''root'' RoleAdmin)" by (simp add: has_key_def example_user_def)
  then have "managedKeySnapshot example_sync_env s None =
      (s, Some \<lparr>kc_generation = us_generation s, kc_authority = ''mka_1'', kc_snapshot = ada_snapshot\<rparr>, Inr ada_snapshot)"
    using assms ada_keyed_simps
    by (simp add: managedKeySnapshot_def buildManagedKeySnapshot_def FixedKeyVerifiers_def example_sync_env_def ada_snapshot_def Let_def example_sha256_eq)
  moreover have "case store_node example_env example_root_key 1500 ada_snapshot example_store of
      (_, Inr r) \<Rightarrow> mr_Managed r \<and> mr_SnapshotID r = ms_SnapshotID ada_snapshot | _ \<Rightarrow> False" by code_simp
  moreover have "telemetryCapability example_info ''managed_user_keys_v1''" "telemetryCapability example_info ''managed_key_authority_v1''"
    by (simp_all add: telemetryCapability_def example_info_def)
  ultimately show ?thesis by (auto simp: syncManagedKeysToNodeOnce_def Let_def split: prod.splits sum.splits)
qed

theorem regenerated_key_reaches_node_witness:
  "\<exists>s1 key n'. RegenerateFixedKey (example_web_env 11) ''Ada'' keyed_users = (s1, Inr key) \<and>
     fst (syncManagedKeysToNodeOnce example_sync_env (Inr example_info) (store_node example_env example_root_key 1500) example_store s1 None) = n' \<and>
     snd (snd (snd (ValidateToken example_env (fk_Secret key) 2000 n'))) = None \<and>
     snd (snd (snd (ValidateToken example_env ''gk_old'' 2000 n'))) = Some ErrTokenNotFound"
proof -
  from regenerate_ada obtain s1 key where r: "RegenerateFixedKey (example_web_env 11) ''Ada'' keyed_users = (s1, Inr key)" "us_loaded s1"
    "us_users s1 = [example_user ''root'' RoleAdmin, ada_keyed]" by blast
  from push_ada [OF r(2,3)] obtain n' s2 c' where q:
    "syncManagedKeysToNodeOnce example_sync_env (Inr example_info) (store_node example_env example_root_key 1500) example_store s1 None =
      (n', s2, c', Inr (ms_SnapshotID ada_snapshot))" by blast
  have new: "\<not> (ManagedKeys (sto_state example_store) \<and> KeySnapshotID (sto_state example_store) = TrimSpace (ms_SnapshotID ada_snapshot))" by code_simp
  have "{u \<in> set (us_users s1). has_key u} = {ada_keyed}" using r(3) ada_keyed_simps(2) by (auto simp: has_key_def example_user_def)
  moreover have "u_KeyHash ada_keyed = mk_Hash ada_key" unfolding ada_keyed_simps(1) [symmetric] by (simp add: managed_key_def verifier_of_def)
  moreover have "HashToken example_env (TrimSpace ''gk_old'') \<noteq> ToLower (TrimSpace (mk_Hash ada_key))" by code_simp
  ultimately have h: "HashToken example_env (TrimSpace ''gk_old'') \<notin> (\<lambda>u. ToLower (TrimSpace (u_KeyHash u))) ` {u \<in> set (us_users s1). has_key u}" by simp
  have sha: "env_sha256 example_env = cr_sha256 example_crypto" by (simp add: example_env_def example_sha256_eq)
  from regenerated_key_reaches_node [OF _ r(1) _ _ _ _ q _ example_store_simps(3) new, where other = "''gk_old''" and at = 2000]
    example_sealed sha h have "snd (snd (snd (ValidateToken example_env (fk_Secret key) 2000 n'))) = None \<and>
      snd (snd (snd (ValidateToken example_env ''gk_old'' 2000 n'))) = Some ErrTokenNotFound" by (auto simp: keyed_users_def)
  with r(1) q show ?thesis by auto
qed

end
