(* ===== verification/Web_Layout.thy ===== *)
theory Web_Layout
  imports Web_Base
begin

text \<open>
  The layout of the nodes in the gateway's interface (\<open>internal/web/node_layout.go\<close>): groups of nodes
  and a root list, kept in a private file and normalised against the registered nodes whenever it is
  read or written.
\<close>

section \<open>The layout\<close>

record NodeGroupRecord =
  ng_ID :: string
  ng_Name :: string
  ng_NodeIDs :: "string list"

record NodeLayout =
  nl_Root :: "string list"
  nl_Groups :: "NodeGroupRecord list"

definition empty_layout :: NodeLayout where
  "empty_layout = \<lparr>nl_Root = [], nl_Groups = []\<rparr>"

definition maxNodeGroups :: nat where "maxNodeGroups = 64"

text \<open>
  The loops of \<open>normalizeNodeLayout\<close>. The maps \<open>assigned\<close>, \<open>groups\<close> and \<open>rootSeen\<close> are lists of their
  keys.
\<close>

fun take_nodes :: "bool \<Rightarrow> string list \<Rightarrow> string list \<Rightarrow> string list \<Rightarrow> string list \<Rightarrow> web_error + (string list \<times> string list)" where
  "take_nodes strict servers assigned acc [] = Inr (assigned, acc)"
| "take_nodes strict servers assigned acc (x # xs) =
     (if x \<notin> set servers then (if strict then Inl (WErr (''unknown node '' @ x)) else take_nodes strict servers assigned acc xs)
      else if x \<in> set assigned then Inl (WErr (''node appears more than once: '' @ x))
      else take_nodes strict servers (x # assigned) (acc @ [x]) xs)"

definition group_prefix :: string where "group_prefix = ''grp_''"

fun take_groups :: "bool \<Rightarrow> string list \<Rightarrow> string list \<Rightarrow> NodeGroupRecord list \<Rightarrow> NodeGroupRecord list \<Rightarrow>
    web_error + (string list \<times> NodeGroupRecord list)" where
  "take_groups strict servers assigned acc [] = Inr (assigned, acc)"
| "take_groups strict servers assigned acc (g # gs) =
     (let ident = TrimSpace (ng_ID g); name = TrimSpace (ng_Name g) in
      if ident = [] \<or> length ident > 128 then Inl (WErr ''node group id must be between 1 and 128 bytes'')
      else if \<not> prefix group_prefix ident then Inl (WErr ''node group id must start with grp_'')
      else if name = [] \<or> length name > 128 then Inl (WErr ''node group name must be between 1 and 128 bytes'')
      else if ident \<in> ng_ID ` set acc then Inl (WErr (''duplicate node group '' @ ident))
      else case take_nodes strict servers assigned [] (ng_NodeIDs g) of Inl e \<Rightarrow> Inl e
      | Inr (assigned', nodes) \<Rightarrow>
          take_groups strict servers assigned' (acc @ [\<lparr>ng_ID = ident, ng_Name = name, ng_NodeIDs = nodes\<rparr>]) gs)"

fun take_root :: "bool \<Rightarrow> string list \<Rightarrow> string list \<Rightarrow> string list \<Rightarrow> string list \<Rightarrow> string list \<Rightarrow> web_error + (string list \<times> string list)" where
  "take_root strict servers groups assigned acc [] = Inr (assigned, acc)"
| "take_root strict servers groups assigned acc (x # xs) =
     (if x \<in> set groups then
        (if x \<in> set acc then Inl (WErr (''node group appears more than once: '' @ x)) else take_root strict servers groups assigned (acc @ [x]) xs)
      else if x \<in> set servers then
        (if x \<in> set assigned \<or> x \<in> set acc then Inl (WErr (''node appears more than once: '' @ x))
         else take_root strict servers groups (x # assigned) (acc @ [x]) xs)
      else if strict then Inl (WErr (''unknown node layout item '' @ x))
      else take_root strict servers groups assigned acc xs)"

fun add_missing :: "string list \<Rightarrow> string list \<Rightarrow> string list" where
  "add_missing seen [] = []"
| "add_missing seen (x # xs) = (if x \<in> set seen then add_missing seen xs else x # add_missing (x # seen) xs)"

definition normalizeNodeLayout :: "NodeLayout \<Rightarrow> string list \<Rightarrow> bool \<Rightarrow> web_error + NodeLayout" where
  "normalizeNodeLayout layout serverIDs strict =
     (let servers = filter (\<lambda>x. x \<noteq> []) serverIDs in
      if length (nl_Groups layout) > maxNodeGroups then Inl (WErr ''node group limit reached: maximum 64'')
      else case take_groups strict servers [] [] (nl_Groups layout) of Inl e \<Rightarrow> Inl e
      | Inr (assigned, groups) \<Rightarrow>
        (case take_root strict servers (map ng_ID groups) assigned [] (nl_Root layout) of Inl e \<Rightarrow> Inl e
         | Inr (assigned', root) \<Rightarrow>
           Inr \<lparr>nl_Root = root @ add_missing root (map ng_ID groups) @ add_missing assigned' servers, nl_Groups = groups\<rparr>))"

section \<open>The stored layout\<close>

record LayoutStore =
  ly_file :: "PrivateFile option"
  ly_loaded :: bool
  ly_layout :: NodeLayout

record LayoutCodec =
  lc_Marshal :: "NodeLayout \<Rightarrow> web_error + string"
  lc_Unmarshal :: "string \<Rightarrow> web_error + NodeLayout"

definition maxNodeLayoutFileBytes :: nat where "maxNodeLayoutFileBytes = 524288"

text \<open>
  A failed read returns no data, and no data is an empty layout: the test for an error comes after the
  test for empty data and is never reached.
\<close>

definition layout_loadLocked :: "WebEnv \<Rightarrow> LayoutCodec \<Rightarrow> LayoutStore \<Rightarrow> LayoutStore \<times> (web_error + NodeLayout)" where
  "layout_loadLocked env codec s =
     (if ly_loaded s then (s, Inr (ly_layout s))
      else let r = readPrivateFile env ''node layout file'' maxNodeLayoutFileBytes (ly_file s);
               data = (case r of Inl _ \<Rightarrow> [] | Inr d \<Rightarrow> d) in
        if r = Inl ErrNotExist \<or> TrimSpace data = [] then (s\<lparr>ly_loaded := True, ly_layout := empty_layout\<rparr>, Inr empty_layout)
        else case r of Inl e \<Rightarrow> (s, Inl e)
        | Inr data \<Rightarrow> (case lc_Unmarshal codec data of Inl e \<Rightarrow> (s, Inl e)
          | Inr layout \<Rightarrow> (s\<lparr>ly_loaded := True, ly_layout := layout\<rparr>, Inr layout)))"

definition layout_saveLocked :: "WebEnv \<Rightarrow> LayoutCodec \<Rightarrow> NodeLayout \<Rightarrow> LayoutStore \<Rightarrow> LayoutStore \<times> web_error option" where
  "layout_saveLocked env codec layout s = (case lc_Marshal codec layout of Inl e \<Rightarrow> (s, Some e)
     | Inr data \<Rightarrow> (case writePrivateFile env (data @ [CHR 0x0A]) (ly_file s) of (file, committed, err) \<Rightarrow>
         (if committed then s\<lparr>ly_file := file, ly_loaded := True, ly_layout := layout\<rparr> else s\<lparr>ly_file := file\<rparr>, err)))"

definition layout_Get :: "WebEnv \<Rightarrow> LayoutCodec \<Rightarrow> string list \<Rightarrow> LayoutStore \<Rightarrow> LayoutStore \<times> (web_error + NodeLayout)" where
  "layout_Get env codec serverIDs s = (case layout_loadLocked env codec s of (s, Inl e) \<Rightarrow> (s, Inl e)
     | (s, Inr layout) \<Rightarrow> (case normalizeNodeLayout layout serverIDs False of Inl e \<Rightarrow> (s, Inl e)
       | Inr normalized \<Rightarrow>
         if layout \<noteq> normalized then (case layout_saveLocked env codec normalized s of (s, Some e) \<Rightarrow> (s, Inl e) | (s, None) \<Rightarrow> (s, Inr normalized))
         else (s, Inr normalized)))"

definition layout_Update :: "WebEnv \<Rightarrow> LayoutCodec \<Rightarrow> NodeLayout \<Rightarrow> string list \<Rightarrow> LayoutStore \<Rightarrow> LayoutStore \<times> (web_error + NodeLayout)" where
  "layout_Update env codec layout serverIDs s = (case layout_loadLocked env codec s of (s, Inl e) \<Rightarrow> (s, Inl e)
     | (s, Inr _) \<Rightarrow> (case normalizeNodeLayout layout serverIDs True of Inl e \<Rightarrow> (s, Inl e)
       | Inr normalized \<Rightarrow> (case layout_saveLocked env codec normalized s of (s, Some e) \<Rightarrow> (s, Inl e) | (s, None) \<Rightarrow> (s, Inr normalized))))"

section \<open>Every node has one place\<close>

lemma take_nodes_Inr:
  "take_nodes strict servers assigned acc xs = Inr (assigned', acc') \<Longrightarrow>
     \<exists>new. acc' = acc @ new \<and> distinct new \<and> set new \<subseteq> set servers \<and> set new \<inter> set assigned = {} \<and> set assigned' = set new \<union> set assigned"
proof (induction strict servers assigned acc xs rule: take_nodes.induct)
  case (2 strict servers assigned acc x xs)
  show ?case
  proof (cases "x \<in> set servers")
    case True
    with 2 have "x \<notin> set assigned" "take_nodes strict servers (x # assigned) (acc @ [x]) xs = Inr (assigned', acc')" by (auto split: if_splits)
    with 2(2) True obtain new where "acc' = (acc @ [x]) @ new" "distinct new" "set new \<subseteq> set servers" "set new \<inter> set (x # assigned) = {}"
      "set assigned' = set new \<union> set (x # assigned)" by auto
    with True \<open>x \<notin> set assigned\<close> show ?thesis by (intro exI [of _ "x # new"]) auto
  qed (use 2 in \<open>auto split: if_splits\<close>)
qed auto

definition group_nodes :: "NodeGroupRecord list \<Rightarrow> string list" where
  "group_nodes gs = concat (map ng_NodeIDs gs)"

definition groups_ok :: "string list \<Rightarrow> string list \<Rightarrow> NodeGroupRecord list \<Rightarrow> bool" where
  "groups_ok servers assigned gs \<longleftrightarrow> distinct (map ng_ID gs) \<and> list_all (\<lambda>g. prefix group_prefix (ng_ID g)) gs \<and>
     distinct (group_nodes gs) \<and> set (group_nodes gs) = set assigned \<and> set assigned \<subseteq> set servers"

lemma take_groups_Inr:
  "take_groups strict servers assigned acc gs = Inr (assigned', acc') \<Longrightarrow> groups_ok servers assigned acc \<Longrightarrow> groups_ok servers assigned' acc'"
proof (induction strict servers assigned acc gs rule: take_groups.induct)
  case (2 strict servers assigned acc g gs)
  from 2(2) obtain assigned1 nodes where n: "take_nodes strict servers assigned [] (ng_NodeIDs g) = Inr (assigned1, nodes)"
    and p: "prefix group_prefix (TrimSpace (ng_ID g))" "TrimSpace (ng_ID g) \<notin> ng_ID ` set acc"
    and r: "take_groups strict servers assigned1 (acc @ [\<lparr>ng_ID = TrimSpace (ng_ID g), ng_Name = TrimSpace (ng_Name g), ng_NodeIDs = nodes\<rparr>]) gs =
      Inr (assigned', acc')" by (auto simp: Let_def split: if_splits sum.splits prod.splits)
  from take_nodes_Inr [OF n] have "distinct nodes" "set nodes \<subseteq> set servers" "set nodes \<inter> set assigned = {}" "set assigned1 = set nodes \<union> set assigned" by auto
  with 2(3) p have "groups_ok servers assigned1 (acc @ [\<lparr>ng_ID = TrimSpace (ng_ID g), ng_Name = TrimSpace (ng_Name g), ng_NodeIDs = nodes\<rparr>])"
    by (auto simp: groups_ok_def group_nodes_def)
  with 2(1) [OF refl refl _ _ _ _ n refl] 2(2) r show ?case by (auto simp: Let_def split: if_splits)
qed simp

lemma take_root_Inr:
  "take_root strict servers groups assigned acc xs = Inr (assigned', acc') \<Longrightarrow>
     \<exists>new. acc' = acc @ new \<and> distinct new \<and> set new \<inter> set acc = {} \<and> set new \<subseteq> set groups \<union> set servers \<and>
       (set new - set groups) \<inter> set assigned = {} \<and> set assigned' = (set new - set groups) \<union> set assigned"
proof (induction strict servers groups assigned acc xs rule: take_root.induct)
  case (2 strict servers groups assigned acc x xs)
  consider "x \<in> set groups" | "x \<notin> set groups" "x \<in> set servers" | "x \<notin> set groups" "x \<notin> set servers" by blast
  then show ?case
  proof cases
    case 1
    with 2(4) have a: "x \<notin> set acc" "take_root strict servers groups assigned (acc @ [x]) xs = Inr (assigned', acc')" by (auto split: if_splits)
    from 2(1) [OF 1 a] obtain new where "acc' = (acc @ [x]) @ new" "distinct new" "set new \<inter> set (acc @ [x]) = {}" "set new \<subseteq> set groups \<union> set servers"
      "(set new - set groups) \<inter> set assigned = {}" "set assigned' = (set new - set groups) \<union> set assigned" by blast
    with 1 a(1) show ?thesis by (intro exI [of _ "x # new"]) auto
  next
    case 2
    note c = this
    with "2.prems" have a: "x \<notin> set assigned" "x \<notin> set acc" "take_root strict servers groups (x # assigned) (acc @ [x]) xs = Inr (assigned', acc')"
      by (auto split: if_splits)
    from "2.IH"(2) [OF c _ a(3)] a(1,2) obtain new where "acc' = (acc @ [x]) @ new" "distinct new" "set new \<inter> set (acc @ [x]) = {}"
      "set new \<subseteq> set groups \<union> set servers" "(set new - set groups) \<inter> set (x # assigned) = {}"
      "set assigned' = (set new - set groups) \<union> set (x # assigned)" by blast
    with c a(1,2) show ?thesis by (intro exI [of _ "x # new"]) auto
  next
    case 3
    with "2.prems" have "\<not> strict" "take_root strict servers groups assigned acc xs = Inr (assigned', acc')" by (auto split: if_splits)
    with "2.IH"(3) [OF 3] show ?thesis by blast
  qed
qed auto

lemma add_missing_props: "distinct (add_missing seen xs) \<and> set (add_missing seen xs) = set xs - set seen"
proof (induction seen xs rule: add_missing.induct)
  case (2 seen x xs)
  then show ?case by auto
qed simp

text \<open>
  C34: a normalised layout gives every node one place and every group one place. Each registered node
  stands exactly once, in one group or at the root; each group stands exactly once at the root; and
  nothing else is in the layout.
\<close>

theorem layout_places_every_node:
  assumes "normalizeNodeLayout layout serverIDs strict = Inr r"
    and "\<forall>x \<in> set serverIDs. \<not> prefix group_prefix x"
  shows "distinct (nl_Root r) \<and> distinct (group_nodes (nl_Groups r)) \<and>
    set (nl_Root r) \<inter> set (group_nodes (nl_Groups r)) = {} \<and>
    set (nl_Root r) \<union> set (group_nodes (nl_Groups r)) = (set serverIDs - {[]}) \<union> ng_ID ` set (nl_Groups r) \<and>
    distinct (map ng_ID (nl_Groups r)) \<and> ng_ID ` set (nl_Groups r) \<subseteq> set (nl_Root r)"
proof -
  let ?servers = "filter (\<lambda>x. x \<noteq> []) serverIDs"
  from assms(1) obtain assigned groups assigned' root where g: "take_groups strict ?servers [] [] (nl_Groups layout) = Inr (assigned, groups)"
    and t: "take_root strict ?servers (map ng_ID groups) assigned [] (nl_Root layout) = Inr (assigned', root)"
    and r: "nl_Root r = root @ add_missing root (map ng_ID groups) @ add_missing assigned' ?servers" "nl_Groups r = groups"
    by (auto simp: normalizeNodeLayout_def Let_def split: if_splits sum.splits)
  have ok: "groups_ok ?servers assigned groups" by (rule take_groups_Inr [OF g]) (simp add: groups_ok_def group_nodes_def)
  let ?G = "ng_ID ` set groups"
  have s: "?G \<inter> set ?servers = {}" using ok assms(2) by (auto simp: groups_ok_def list_all_iff)
  from take_root_Inr [OF t] have root: "distinct root" "set root \<subseteq> ?G \<union> set ?servers" "(set root - ?G) \<inter> set assigned = {}"
    "set assigned' = (set root - ?G) \<union> set assigned" by auto
  have n: "set (group_nodes groups) = set assigned" "set assigned \<subseteq> set ?servers" "distinct (group_nodes groups)" "distinct (map ng_ID groups)"
    using ok by (auto simp: groups_ok_def)
  have a: "distinct (add_missing root (map ng_ID groups))" "set (add_missing root (map ng_ID groups)) = ?G - set root"
    "distinct (add_missing assigned' ?servers)" "set (add_missing assigned' ?servers) = set ?servers - set assigned'"
    using add_missing_props [of root "map ng_ID groups"] add_missing_props [of assigned' ?servers] by simp_all
  have eq: "set (nl_Root r) = ?G \<union> (set ?servers - set assigned)" using root(2-4) n(2) s unfolding r(1) set_append a(2,4) by blast
  have "distinct (nl_Root r)"
    using root(1) a(1,3) root(2,4) s unfolding r(1) distinct_append set_append a(2,4) by blast
  moreover have "set (nl_Root r) \<inter> set assigned = {}" using eq s n(2) by auto
  moreover have "set (nl_Root r) \<union> set assigned = (set serverIDs - {[]}) \<union> ?G" using eq n(2) by auto
  moreover have "?G \<subseteq> set (nl_Root r)" using eq by blast
  ultimately show ?thesis unfolding r(2) using n(1,3,4) by simp
qed

definition example_layout :: NodeLayout where
  "example_layout = \<lparr>nl_Root = [''srv_2'', ''gone''], nl_Groups = [\<lparr>ng_ID = ''grp_a'', ng_Name = ''lab'', ng_NodeIDs = [''srv_1'', ''gone'']\<rparr>]\<rparr>"

theorem layout_places_every_node_witness:
  "\<exists>r. normalizeNodeLayout example_layout [''srv_1'', ''srv_2'', ''srv_3''] False = Inr r \<and> distinct (nl_Root r)"
proof -
  have "normalizeNodeLayout example_layout [''srv_1'', ''srv_2'', ''srv_3''] False =
      Inr \<lparr>nl_Root = [''srv_2'', ''grp_a'', ''srv_3''], nl_Groups = [\<lparr>ng_ID = ''grp_a'', ng_Name = ''lab'', ng_NodeIDs = [''srv_1'']\<rparr>]\<rparr>" by code_simp
  from this layout_places_every_node [OF this] show ?thesis by (simp add: group_prefix_def)
qed

section \<open>A file that cannot be read\<close>

text \<open>
  an unreadable layout is replaced by an empty one. When the file exists but cannot be read, because of
  its permissions, its size or any other error, reading the layout does not report the error: it
  starts from an empty layout and writes that one over the file.
\<close>

theorem unreadable_layout_overwritten:
  assumes "\<not> ly_loaded s" "readPrivateFile env ''node layout file'' maxNodeLayoutFileBytes (ly_file s) = Inl e"
    and "lc_Marshal codec \<lparr>nl_Root = [server], nl_Groups = []\<rparr> = Inr data" "server \<noteq> []"
    and "first_error [we_mkdirErr env, we_createErr env, we_chmodErr env, we_writeErr env, we_fsyncErr env, we_closeErr env, we_renameErr env] = None"
      "first_error [we_dirOpenErr env, we_dirSyncErr env] = None"
  shows "layout_Get env codec [server] s = (\<lparr>ly_file = Some \<lparr>vf_Regular = True, vf_Perm = 384, vf_Data = data @ [CHR 0x0A]\<rparr>,
    ly_loaded = True, ly_layout = \<lparr>nl_Root = [server], nl_Groups = []\<rparr>\<rparr>, Inr \<lparr>nl_Root = [server], nl_Groups = []\<rparr>)"
proof -
  have t: "TrimSpace [] = []" by code_simp
  have "layout_loadLocked env codec s = (s\<lparr>ly_loaded := True, ly_layout := empty_layout\<rparr>, Inr empty_layout)"
    using assms(1,2) t by (simp add: layout_loadLocked_def)
  moreover have "normalizeNodeLayout empty_layout [server] False = Inr \<lparr>nl_Root = [server], nl_Groups = []\<rparr>"
    using assms(4) by (simp add: normalizeNodeLayout_def empty_layout_def)
  ultimately show ?thesis using assms(3,5,6)
    by (simp add: layout_Get_def layout_saveLocked_def writePrivateFile_def empty_layout_def)
qed

text \<open>A file with a layout that the group may read.\<close>

definition shared_layout :: LayoutStore where
  "shared_layout = \<lparr>ly_file = Some \<lparr>vf_Regular = True, vf_Perm = 416, vf_Data = ''layout''\<rparr>, ly_loaded = False, ly_layout = empty_layout\<rparr>"

theorem unreadable_layout_overwritten_witness:
  "\<exists>s'. layout_Get quiet_env \<lparr>lc_Marshal = (\<lambda>l. Inr ''empty''), lc_Unmarshal = (\<lambda>d. Inr example_layout)\<rparr> [''srv_1''] shared_layout =
     (s', Inr \<lparr>nl_Root = [''srv_1''], nl_Groups = []\<rparr>) \<and> map_option vf_Data (ly_file s') = Some (''empty'' @ [CHR 0x0A])"
proof -
  have "\<exists>e. readPrivateFile quiet_env ''node layout file'' maxNodeLayoutFileBytes (ly_file shared_layout) = Inl e"
    by (simp add: readPrivateFile_def quiet_env_def shared_layout_def)
  then obtain e where "readPrivateFile quiet_env ''node layout file'' maxNodeLayoutFileBytes (ly_file shared_layout) = Inl e" by blast
  from unreadable_layout_overwritten [OF _ this, of "\<lparr>lc_Marshal = (\<lambda>l. Inr ''empty''), lc_Unmarshal = (\<lambda>d. Inr example_layout)\<rparr>" "''srv_1''" "''empty''"]
  show ?thesis by (simp add: shared_layout_def quiet_env_def)
qed

end
