(* ===== verification/Web_Actions.thy ===== *)
theory Web_Actions
  imports Web_Access Web_Sync Web_Layout Daemon_Register
begin

text \<open>
  The gateway's requests on nodes (\<open>internal/web/server.go\<close>): adding a node, archiving, renaming and
  deleting it, and the requests that are passed on to it in the name of the user. The answers of the
  node and of the history database are parameters; the calls that are made are recorded in their order,
  the ones that depend on what the node holds with the state of the node they meet.
\<close>

section \<open>Requests, answers and calls\<close>

record AllowArgs =
  al_ID :: string
  al_UserKeyID :: string
  al_Mode :: string
  al_Container :: string
  al_Namespace :: string
  al_User :: string
  al_RunName :: string

record addServerRequest =
  ad_Name :: string
  ad_Endpoint :: string
  ad_RootKey :: string
  ad_TLSSkipVerify :: bool

text \<open>A request with what \<open>decodeJSONBody\<close> makes of its body at each of the types it is decoded to.\<close>

record action_request =
  rq_verb :: string
  rq_path :: string
  rq_archive :: "web_error + bool"
  rq_rename :: "web_error + string"
  rq_register :: "web_error + RegisterArgs"
  rq_id :: "web_error + string"
  rq_allow :: "web_error + AllowArgs"
  rq_add :: "web_error + addServerRequest"

datatype 'n gateway_call =
    CallPrepare string string
  | CallReserve RegisterArgs
  | CallDrop string
  | CallConfirm string string "string list" "int list"
  | CallAllow 'n AllowArgs
  | CallRevoke 'n string
  | CallKeySync
  | CallClearCache

text \<open>
  The outside of the handlers: the codecs, the clients' interface of a node, whose state is of a type
  of its own, and the answers of the history database.
\<close>

record 'n ActionEnv =
  ac_sync :: SyncEnv
  ac_reg :: RegistryEnv
  ac_history :: bool
  ac_Health :: "'n \<Rightarrow> web_error option"
  ac_Info :: "web_error + Info"
  ac_SyncKeys :: "'n node_sync"
  ac_ShowKeys :: "'n \<Rightarrow> web_error + KeyStatus"
  ac_Reserve :: "RegisterArgs \<Rightarrow> 'n \<Rightarrow> 'n \<times> (web_error + RegisterResult)"
  ac_Allow :: "AllowArgs \<Rightarrow> 'n \<Rightarrow> 'n \<times> (web_error + string)"
  ac_Revoke :: "string \<Rightarrow> 'n \<Rightarrow> 'n \<times> (web_error + string)"
  ac_Prepare :: "web_error option"
  ac_session_hex :: string

record 'n ActionState =
  as_users :: UserStore
  as_registry :: Registry
  as_cache :: key_cache
  as_states :: node_states
  as_node :: 'n
  as_calls :: "'n gateway_call list"

datatype action_reply =
    Refused Response
  | ShowServer PublicServerRecord
  | ServerDeleted string
  | Reserved RegisterResult
  | KeyView TokenView
  | Passed string
  | ServerList "PublicServerRecord list"

definition called :: "'n gateway_call list \<Rightarrow> 'n ActionState \<Rightarrow> 'n ActionState" where
  "called cs a = a\<lparr>as_calls := as_calls a @ cs\<rparr>"

section \<open>Parts of the handlers\<close>

definition Contains :: "string \<Rightarrow> string \<Rightarrow> bool" where
  "Contains s sub \<longleftrightarrow> Index s sub \<noteq> None"

definition unsupportedExternalSessionError :: "web_error \<Rightarrow> bool" where
  "unsupportedExternalSessionError e = (let message = ToLower (web_error_text e) in
     Contains message ''external_session_id'' \<and>
     (Contains message ''unknown'' \<or> Contains message ''unrecognized'' \<or> Contains message ''unsupported''))"

definition allowArgsHavePrivilegedWildcard :: "AllowArgs \<Rightarrow> bool" where
  "allowArgsHavePrivilegedWildcard args \<longleftrightarrow> Contains (al_Namespace args) ''*'' \<or> Contains (al_User args) ''*''"

definition splitServerAction :: "string \<Rightarrow> (string \<times> string) option" where
  "splitServerAction rawPath =
     (if \<not> prefix ''/api/servers/'' rawPath \<or> rawPath = ''/api/servers/'' then None
      else case Split slash (trim_path (drop 13 rawPath)) of
        [ident] \<Rightarrow> Some (ident, []) | [ident, action] \<Rightarrow> Some (ident, action) | _ \<Rightarrow> None)"

definition reservationTokenID :: "RegisterResult \<Rightarrow> KeyStatus \<Rightarrow> string" where
  "reservationTokenID result status =
     (case (if rr_Token result \<noteq> [] then find (\<lambda>t. tv_Key t = rr_Token result) (ks_Tokens status) else None) of
        Some t \<Rightarrow> tv_ID t
      | None \<Rightarrow> (case find (\<lambda>r. rv_ID r \<in> set (rr_ReservationIDs result) \<and> rv_GroupID r \<noteq> []) (ks_Reservations status) of
          Some r \<Rightarrow> rv_GroupID r | None \<Rightarrow> []))"

text \<open>The scope an access token needs for an action; \<open>None\<close> is an action for browsers only.\<close>

definition action_scope :: "string \<Rightarrow> string \<Rightarrow> string option" where
  "action_scope action verb =
     (if action = ''reservations'' \<and> verb = ''POST'' then Some ''reservations:write''
      else if action = ''allow'' \<and> verb = ''POST'' then Some ''authorizations:write''
      else if action = ''revoke'' \<and> verb = ''POST'' then Some ''resources:revoke''
      else if action = ''show-key'' \<and> verb = ''POST'' then Some ''keys:read''
      else None)"

definition browser_refused :: Response where
  "browser_refused = refusal 403 ''this operation requires browser authentication''"

definition action_gate :: "sessionInfo \<Rightarrow> string \<Rightarrow> string \<Rightarrow> Response option" where
  "action_gate session action verb = (case action_scope action verb of
     Some scope \<Rightarrow> if requireAccessTokenScope session scope then None else Some (scope_refused scope)
   | None \<Rightarrow> if rejectAccessToken session then Some browser_refused else None)"

definition admin_refused :: Response where "admin_refused = refusal 403 ''admin access required''"

definition failed :: "nat \<Rightarrow> web_error \<Rightarrow> action_reply" where
  "failed status e = Refused (refusal status (web_error_text e))"

text \<open>The fixed key of the user, present on the node before it is used.\<close>

definition own_key :: "'n ActionEnv \<Rightarrow> sessionInfo \<Rightarrow> ServerRecord \<Rightarrow> 'n ActionState \<Rightarrow>
    'n ActionState \<times> (action_reply + FixedUserKeyVerifier)" where
  "own_key env session rec a = (case FixedKeyForUser (sy_web (ac_sync env)) (si_User session) (as_users a) of
     (s, Inl e) \<Rightarrow> (a\<lparr>as_users := s\<rparr>, Inl (failed 400 e))
   | (s, Inr key) \<Rightarrow>
     (case ensureManagedKeysOnNode (ac_sync env) web_error_text (sr_ID rec) (ac_Info env) (ac_SyncKeys env) (as_node a) s (as_cache a) (as_states a) of
        (n, s, cache, states, err) \<Rightarrow>
          (a\<lparr>as_users := s, as_cache := cache, as_states := states, as_node := n\<rparr>,
           case err of Some e \<Rightarrow> Inl (failed 503 e) | None \<Rightarrow> Inr key)))"

section \<open>Reservations\<close>

text \<open>
  A session of the history is prepared when the node takes external session identifiers; \<open>Inl\<close> when
  that fails.
\<close>

definition prepare_session :: "'n ActionEnv \<Rightarrow> RegisterArgs \<Rightarrow> 'n ActionState \<Rightarrow>
    'n ActionState \<times> (web_error + string \<times> RegisterArgs)" where
  "prepare_session env args a =
     (if ac_history env \<and> ra_StartsAt args \<noteq> None \<and> ra_ExpiresAt args \<noteq> None then
        (case ac_Info env of Inl _ \<Rightarrow> (a, Inr ([], args))
         | Inr info \<Rightarrow>
           if in_NodeID info \<noteq> [] \<and> telemetryCapability info ''reservation_external_session_id'' then
             let ident = ''sess_'' @ ac_session_hex env; a = called [CallPrepare ident (ra_Name args)] a in
             (case ac_Prepare env of Some e \<Rightarrow> (a, Inl e) | None \<Rightarrow> (a, Inr (ident, args\<lparr>ra_ExternalSessionID := ident\<rparr>)))
           else (a, Inr ([], args)))
      else (a, Inr ([], args)))"

definition node_reserve :: "'n ActionEnv \<Rightarrow> RegisterArgs \<Rightarrow> 'n ActionState \<Rightarrow> 'n ActionState \<times> (web_error + RegisterResult)" where
  "node_reserve env args a = (case ac_Reserve env args (as_node a) of
     (n, r) \<Rightarrow> ((called [CallReserve args] a)\<lparr>as_node := n\<rparr>, r))"

text \<open>A node that does not know external session identifiers is asked again without one.\<close>

definition reserve_with_retry :: "'n ActionEnv \<Rightarrow> string \<Rightarrow> RegisterArgs \<Rightarrow> 'n ActionState \<Rightarrow>
    'n ActionState \<times> string \<times> (web_error + RegisterResult)" where
  "reserve_with_retry env prepared args a = (case node_reserve env args a of
     (a, Inl e) \<Rightarrow>
       if prepared \<noteq> [] \<and> unsupportedExternalSessionError e then
         (case node_reserve env (args\<lparr>ra_ExternalSessionID := []\<rparr>) (called [CallDrop prepared] a) of (a, r) \<Rightarrow> (a, [], r))
       else (a, prepared, Inl e)
   | (a, Inr result) \<Rightarrow> (a, prepared, Inr result))"

definition handle_reserve :: "'n ActionEnv \<Rightarrow> sessionInfo \<Rightarrow> ServerRecord \<Rightarrow> RegisterArgs \<Rightarrow> 'n ActionState \<Rightarrow>
    'n ActionState \<times> action_reply" where
  "handle_reserve env session rec args0 a = (case own_key env session rec a of (a, Inl reply) \<Rightarrow> (a, reply)
   | (a, Inr key) \<Rightarrow>
     (case prepare_session env (args0\<lparr>ra_Name := si_User session, ra_UserKeyID := fv_ID key\<rparr>) a of
        (a, Inl e) \<Rightarrow> (a, failed 500 e)
      | (a, Inr (prepared0, args)) \<Rightarrow>
        (case reserve_with_retry env prepared0 args a of
           (a, prepared, Inl e) \<Rightarrow> (called (if prepared \<noteq> [] then [CallDrop prepared] else []) a, failed 400 e)
         | (a, prepared, Inr result0) \<Rightarrow>
           let result = (if rr_TokenID result0 = [] then (case ac_ShowKeys env (as_node a) of
                   Inr status \<Rightarrow> result0\<lparr>rr_TokenID := reservationTokenID result0 status\<rparr> | Inl _ \<Rightarrow> result0) else result0);
               a = called (if prepared \<noteq> [] \<and> rr_GroupID result \<noteq> []
                 then [CallConfirm prepared (rr_GroupID result) (rr_ReservationIDs result) (rr_GPUs result)] else []) a in
           (called [CallClearCache] a, Reserved (result\<lparr>rr_Token := [], rr_TokenID := []\<rparr>)))))"

section \<open>Authorizations, keys and revocation\<close>

definition handle_allow :: "'n ActionEnv \<Rightarrow> sessionInfo \<Rightarrow> ServerRecord \<Rightarrow> AllowArgs \<Rightarrow> 'n ActionState \<Rightarrow>
    'n ActionState \<times> action_reply" where
  "handle_allow env session rec args0 a = (case own_key env session rec a of (a, Inl reply) \<Rightarrow> (a, reply)
   | (a, Inr key) \<Rightarrow>
     let args = args0\<lparr>al_Mode := TrimSpace (al_Mode args0), al_ID := fv_ID key, al_UserKeyID := fv_ID key\<rparr> in
     if si_Role session \<noteq> RoleAdmin \<and> allowArgsHavePrivilegedWildcard args
       then (a, Refused (refusal 403 ''wildcard authorization requires admin access''))
     else (case canUseKey (ac_ShowKeys env (as_node a)) session (al_ID args) of Inl e \<Rightarrow> (a, failed 400 e)
       | Inr allowed \<Rightarrow>
         if \<not> allowed then (a, Refused (refusal 403 ''key access denied''))
         else (case ac_Allow env args (as_node a) of (n, r) \<Rightarrow>
           let a = (called [CallAllow (as_node a) args] a)\<lparr>as_node := n\<rparr> in
           (case r of Inl e \<Rightarrow> (a, failed 400 e) | Inr result \<Rightarrow> (called [CallClearCache] a, Passed result)))))"

definition handle_show :: "'n ActionEnv \<Rightarrow> sessionInfo \<Rightarrow> string \<Rightarrow> 'n ActionState \<Rightarrow> 'n ActionState \<times> action_reply" where
  "handle_show env session ident0 a = (a, let ident = TrimSpace ident0 in
     if ident = [] then Refused (refusal 400 ''id is required'')
     else case ac_ShowKeys env (as_node a) of Inl e \<Rightarrow> failed 401 e
     | Inr status \<Rightarrow> (case findToken (ks_Tokens status) ident of None \<Rightarrow> Refused (refusal 404 ''key not found'')
       | Some t \<Rightarrow> if si_Role session \<noteq> RoleAdmin \<and> \<not> sameOwner (tv_Name t) (si_User session)
           then Refused (refusal 403 ''key access denied'') else KeyView t))"

definition handle_revoke :: "'n ActionEnv \<Rightarrow> sessionInfo \<Rightarrow> string \<Rightarrow> 'n ActionState \<Rightarrow> 'n ActionState \<times> action_reply" where
  "handle_revoke env session ident a =
     (if TrimSpace ident = [] then (a, Refused (refusal 400 ''id is required''))
      else case canRevoke (ac_ShowKeys env (as_node a)) session ident of Inl e \<Rightarrow> (a, failed 400 e)
      | Inr allowed \<Rightarrow>
        if \<not> allowed then (a, Refused (refusal 403 ''revoke access denied''))
        else (case ac_Revoke env ident (as_node a) of (n, r) \<Rightarrow>
          let a = (called [CallRevoke (as_node a) ident] a)\<lparr>as_node := n\<rparr> in
          (case r of Inl e \<Rightarrow> (a, failed 400 e) | Inr result \<Rightarrow> (called [CallClearCache] a, Passed result))))"

section \<open>Records of nodes\<close>

definition handle_archive :: "'n ActionEnv \<Rightarrow> string \<Rightarrow> bool \<Rightarrow> 'n ActionState \<Rightarrow> 'n ActionState \<times> action_reply" where
  "handle_archive env ident archived a = (case SetArchived (ac_reg env) ident archived (as_registry a) of
     (r, Inl e) \<Rightarrow> (a\<lparr>as_registry := r\<rparr>, failed 400 e)
   | (r, Inr stored) \<Rightarrow> (called ((if \<not> sr_Archived stored then [CallKeySync] else []) @ [CallClearCache]) (a\<lparr>as_registry := r\<rparr>),
       ShowServer (publicServerRecord stored)))"

definition handle_rename :: "'n ActionEnv \<Rightarrow> string \<Rightarrow> string \<Rightarrow> 'n ActionState \<Rightarrow> 'n ActionState \<times> action_reply" where
  "handle_rename env ident name a = (case Rename (ac_reg env) ident name (as_registry a) of
     (r, Inl e) \<Rightarrow> (a\<lparr>as_registry := r\<rparr>, failed 400 e)
   | (r, Inr stored) \<Rightarrow> (called [CallClearCache] (a\<lparr>as_registry := r\<rparr>), ShowServer (publicServerRecord stored)))"

definition handle_delete :: "'n ActionEnv \<Rightarrow> string \<Rightarrow> 'n ActionState \<Rightarrow> 'n ActionState \<times> action_reply" where
  "handle_delete env ident a = (case registry_Delete (ac_reg env) ident (as_registry a) of
     (r, Inl e) \<Rightarrow> (a\<lparr>as_registry := r\<rparr>, failed 404 e)
   | (r, Inr _) \<Rightarrow> (called [CallClearCache] (a\<lparr>as_registry := r\<rparr>), ServerDeleted ident))"

text \<open>An operation for administrators on a body that has to be decoded first.\<close>

definition as_admin :: "sessionInfo \<Rightarrow> web_error + 'b \<Rightarrow> ('b \<Rightarrow> 'n ActionState \<Rightarrow> 'n ActionState \<times> action_reply) \<Rightarrow>
    'n ActionState \<Rightarrow> 'n ActionState \<times> action_reply" where
  "as_admin session body k a =
     (if si_Role session \<noteq> RoleAdmin then (a, Refused admin_refused)
      else case body of Inl e \<Rightarrow> (a, failed 400 e) | Inr b \<Rightarrow> k b a)"

definition with_body :: "web_error + 'b \<Rightarrow> ('b \<Rightarrow> 'n ActionState \<Rightarrow> 'n ActionState \<times> action_reply) \<Rightarrow>
    'n ActionState \<Rightarrow> 'n ActionState \<times> action_reply" where
  "with_body body k a = (case body of Inl e \<Rightarrow> (a, failed 400 e) | Inr b \<Rightarrow> k b a)"

section \<open>The handlers\<close>

definition server_action :: "'n ActionEnv \<Rightarrow> sessionInfo \<Rightarrow> action_request \<Rightarrow> string \<Rightarrow> string \<Rightarrow> ServerRecord \<Rightarrow>
    'n ActionState \<Rightarrow> 'n ActionState \<times> action_reply" where
  "server_action env session req ident action rec =
     (let verb = rq_verb req; post = (verb = ''POST'') in
      if action = ''archive'' \<and> post then as_admin session (rq_archive req) (handle_archive env ident)
      else if action = [] \<and> verb = ''PATCH'' then as_admin session (rq_rename req) (handle_rename env ident)
      else if action = [] \<and> verb = ''DELETE'' then as_admin session (Inr ()) (\<lambda>_. handle_delete env ident)
      else if action = ''reservations'' \<and> post then with_body (rq_register req) (handle_reserve env session rec)
      else if action = ''claim-keys'' \<and> post then (\<lambda>a. (a, Refused (refusal 410 ''claim keys were replaced by the account fixed key'')))
      else if action = ''show-key'' \<and> post then with_body (rq_id req) (handle_show env session)
      else if action = ''allow'' \<and> post then with_body (rq_allow req) (handle_allow env session rec)
      else if action = ''revoke'' \<and> post then with_body (rq_id req) (handle_revoke env session)
      else (\<lambda>a. (a, Refused (refusal 405 ''method not allowed''))))"

definition handleServerAction :: "'n ActionEnv \<Rightarrow> sessionInfo \<Rightarrow> action_request \<Rightarrow> 'n ActionState \<Rightarrow> 'n ActionState \<times> action_reply" where
  "handleServerAction env session req a =
     (case splitServerAction (rq_path req) of None \<Rightarrow> (a, Refused (refusal 404 ''not found''))
      | Some (ident, action) \<Rightarrow>
        (case action_gate session action (rq_verb req) of Some resp \<Rightarrow> (a, Refused resp)
         | None \<Rightarrow>
           (case registry_Get (ac_reg env) ident (as_registry a) of
              (r, Inl e) \<Rightarrow> (a\<lparr>as_registry := r\<rparr>, failed 500 e)
            | (r, Inr None) \<Rightarrow> (a\<lparr>as_registry := r\<rparr>, Refused (refusal 404 ''server not found''))
            | (r, Inr (Some rec)) \<Rightarrow>
              if sr_Archived rec \<and> rq_verb req = ''POST'' \<and> (action = ''reservations'' \<or> action = ''allow'')
              then (a\<lparr>as_registry := r\<rparr>, Refused (refusal 409 ''node is archived''))
              else server_action env session req ident action rec (a\<lparr>as_registry := r\<rparr>))))"

definition requireNodeTelemetryWait :: "web_error + Info \<Rightarrow> web_error option" where
  "requireNodeTelemetryWait fetched = (case fetched of
     Inl e \<Rightarrow> Some (WErr (''query node telemetry capability: '' @ web_error_text e))
   | Inr info \<Rightarrow> if telemetryCapability info ''telemetry_wait_v1'' then None
       else Some (WErr ''node daemon must be upgraded: it does not support telemetry long-polling (telemetry_wait_v1)''))"

text \<open>
  \<open>handleServers\<close>: a node is added when it answers, can hold a telemetry page open and has taken the
  keys. It has no identifier yet when the keys are pushed.
\<close>

definition add_server :: "'n ActionEnv \<Rightarrow> addServerRequest \<Rightarrow> 'n ActionState \<Rightarrow> 'n ActionState \<times> action_reply" where
  "add_server env req a =
     (let rec = \<lparr>sr_ID = [], sr_Name = TrimSpace (ad_Name req), sr_Endpoint = TrimSpace (ad_Endpoint req), sr_RootKey = TrimSpace (ad_RootKey req),
            sr_TLSSkipVerify = ad_TLSSkipVerify req, sr_Archived = False, sr_CreatedAt = 0, sr_UpdatedAt = 0\<rparr> in
      case ac_Health env (as_node a) of Some e \<Rightarrow> (a, failed 400 e)
      | None \<Rightarrow> (case requireNodeTelemetryWait (ac_Info env) of Some e \<Rightarrow> (a, failed 400 e)
        | None \<Rightarrow>
          (case syncManagedKeysToNode (ac_sync env) web_error_text (sr_ID rec) (ac_Info env) (ac_SyncKeys env)
              (as_node a) (as_users a) (as_cache a) (as_states a) of
             (n, s, cache, states, err) \<Rightarrow>
               let a = a\<lparr>as_users := s, as_cache := cache, as_states := states, as_node := n\<rparr> in
               (case err of Some e \<Rightarrow> (a, failed 400 e)
                | None \<Rightarrow> (case Upsert (ac_reg env) rec (as_registry a) of
                    (r, Inl e) \<Rightarrow> (a\<lparr>as_registry := r\<rparr>, failed 400 e)
                  | (r, Inr stored) \<Rightarrow> (called [CallClearCache] (a\<lparr>as_registry := r\<rparr>), ShowServer (publicServerRecord stored)))))))"

definition PublicList :: "RegistryEnv \<Rightarrow> Registry \<Rightarrow> PublicServerRecord list reg_result" where
  "PublicList env r = with_records env r (\<lambda>records r. (r, Inr (map publicServerRecord records)))"

definition handleServers :: "'n ActionEnv \<Rightarrow> sessionInfo \<Rightarrow> action_request \<Rightarrow> 'n ActionState \<Rightarrow> 'n ActionState \<times> action_reply" where
  "handleServers env session req a =
     (if rq_verb req = ''GET'' then
        (if \<not> requireAccessTokenScope session ''nodes:read'' then (a, Refused (scope_refused ''nodes:read''))
         else case PublicList (ac_reg env) (as_registry a) of
           (r, Inl e) \<Rightarrow> (a\<lparr>as_registry := r\<rparr>, failed 500 e)
         | (r, Inr records) \<Rightarrow> (a\<lparr>as_registry := r\<rparr>, ServerList records))
      else if rq_verb req = ''POST'' then
        (if rejectAccessToken session then (a, Refused browser_refused) else as_admin session (rq_add req) (add_server env) a)
      else (a, Refused (refusal 405 ''method not allowed'')))"

definition handleNodeLayout :: "RegistryEnv \<Rightarrow> LayoutCodec \<Rightarrow> sessionInfo \<Rightarrow> string \<Rightarrow> web_error + NodeLayout \<Rightarrow> Registry \<Rightarrow> LayoutStore \<Rightarrow>
    Registry \<times> LayoutStore \<times> (Response + NodeLayout)" where
  "handleNodeLayout env codec session verb body r s =
     (case PublicList env r of (r, Inl e) \<Rightarrow> (r, s, Inl (refusal 500 (web_error_text e)))
      | (r, Inr records) \<Rightarrow> let serverIDs = map ps_ID records in
        if verb = ''GET'' then
          (if \<not> requireAccessTokenScope session ''nodes:read'' then (r, s, Inl (scope_refused ''nodes:read''))
           else case layout_Get (re_web env) codec serverIDs s of
             (s, Inl e) \<Rightarrow> (r, s, Inl (refusal 500 (web_error_text e))) | (s, Inr layout) \<Rightarrow> (r, s, Inr layout))
        else if verb = ''PUT'' then
          (if rejectAccessToken session then (r, s, Inl browser_refused)
           else if si_Role session \<noteq> RoleAdmin then (r, s, Inl admin_refused)
           else case body of Inl e \<Rightarrow> (r, s, Inl (refusal 400 (web_error_text e)))
           | Inr layout \<Rightarrow> (case layout_Update (re_web env) codec layout serverIDs s of
               (s, Inl e) \<Rightarrow> (r, s, Inl (refusal 400 (web_error_text e))) | (s, Inr stored) \<Rightarrow> (r, s, Inr stored)))
        else (r, s, Inl (refusal 405 ''method not allowed'')))"

section \<open>What a user can have a node do\<close>

text \<open>
  The calls of a node that a session permits: a reservation in the user's own name, an authorization
  without privileged wildcards on a key the node reports as the user's, a revocation of something the
  node reports as the user's; through an access token, each with its scope.
\<close>

definition owned :: "KeyStatus \<Rightarrow> string \<Rightarrow> string \<Rightarrow> bool" where
  "owned status user ident \<longleftrightarrow>
     (\<exists>t \<in> set (ks_Tokens status). tv_ID t = ident \<and> sameOwner (tv_Name t) user) \<or>
     (\<exists>r \<in> set (ks_Reservations status). (rv_ID r = ident \<or> rv_GroupID r = ident) \<and> sameOwner (rv_Holder r) user) \<or>
     (\<exists>a \<in> set (ks_Authorizations status). av_ID a = ident \<and> sameOwner (av_Holder a) user)"

definition scope_held :: "sessionInfo \<Rightarrow> string \<Rightarrow> bool" where
  "scope_held session scope \<longleftrightarrow> (si_AuthMethod session = ''access_token'' \<longrightarrow> scope \<in> set (si_Scopes session))"

definition call_permitted :: "'n ActionEnv \<Rightarrow> sessionInfo \<Rightarrow> 'n gateway_call \<Rightarrow> bool" where
  "call_permitted env session call = (case call of
     CallReserve args \<Rightarrow> ra_Name args = si_User session \<and> scope_held session ''reservations:write''
   | CallPrepare ident owner \<Rightarrow> owner = si_User session
   | CallAllow n args \<Rightarrow> \<not> allowArgsHavePrivilegedWildcard args \<and> al_UserKeyID args = al_ID args \<and>
       (\<exists>status t. ac_ShowKeys env n = Inr status \<and> t \<in> set (ks_Tokens status) \<and> tv_ID t = al_ID args \<and>
          sameOwner (tv_Name t) (si_User session)) \<and>
       scope_held session ''authorizations:write''
   | CallRevoke n ident \<Rightarrow> (\<exists>status. ac_ShowKeys env n = Inr status \<and> owned status (si_User session) ident) \<and>
       scope_held session ''resources:revoke''
   | CallKeySync \<Rightarrow> False
   | _ \<Rightarrow> True)"

lemma canRevoke_owned:
  assumes "canRevoke shown session ident = Inr True" "si_Role session \<noteq> RoleAdmin"
  shows "\<exists>status. shown = Inr status \<and> owned status (si_User session) ident"
  using assms
  by (auto simp: canRevoke_def owned_def findToken_def findReservation_def findAuthorization_def find_Some_iff
      split: sum.splits option.splits)

lemma canUseKey_owned:
  assumes "canUseKey shown session ident = Inr True" "si_Role session \<noteq> RoleAdmin"
  shows "\<exists>status t. shown = Inr status \<and> t \<in> set (ks_Tokens status) \<and> tv_ID t = ident \<and> sameOwner (tv_Name t) (si_User session)"
  using assms by (auto simp: canUseKey_def findToken_def split: sum.splits option.splits dest!: find_SomeD)

text \<open>A step adds permitted calls only and leaves the records of the nodes alone.\<close>

definition within_rights :: "'n ActionEnv \<Rightarrow> sessionInfo \<Rightarrow> 'n ActionState \<Rightarrow> 'n ActionState \<Rightarrow> bool" where
  "within_rights env session a a' \<longleftrightarrow> as_registry a' = as_registry a \<and>
     (\<exists>cs. as_calls a' = as_calls a @ cs \<and> list_all (call_permitted env session) cs)"

lemma within_rights_refl [simp]: "within_rights env session a a"
  by (simp add: within_rights_def)

lemma within_rights_trans: "within_rights env session a b \<Longrightarrow> within_rights env session b c \<Longrightarrow> within_rights env session a c"
  unfolding within_rights_def by fastforce

lemma called_simps [simp]:
  "as_calls (called cs a) = as_calls a @ cs" "as_registry (called cs a) = as_registry a" "as_node (called cs a) = as_node a"
  by (simp_all add: called_def)

lemma within_rights_called: "list_all (call_permitted env session) cs \<Longrightarrow> within_rights env session a (called cs a)"
  by (auto simp: within_rights_def)

lemma own_key_confined: "own_key env session rec a = (a', r) \<Longrightarrow> within_rights env session a a'"
  by (auto simp: own_key_def within_rights_def split: prod.splits sum.splits)

lemma prepare_session_confined:
  assumes "prepare_session env args a = (a', r)" "ra_Name args = si_User session"
  shows "within_rights env session a a'" "r = Inr (ident, args') \<Longrightarrow> ra_Name args' = si_User session"
  using assms
  by (auto simp: prepare_session_def within_rights_def call_permitted_def Let_def split: if_splits sum.splits option.splits)

lemma node_reserve_confined:
  assumes "node_reserve env args a = (a', r)" "ra_Name args = si_User session" "scope_held session ''reservations:write''"
  shows "within_rights env session a a'"
  using assms by (auto simp: node_reserve_def within_rights_def call_permitted_def split: prod.splits)

lemma reserve_with_retry_confined:
  assumes "reserve_with_retry env prepared args a = (a', p, r)" "ra_Name args = si_User session" "scope_held session ''reservations:write''"
  shows "within_rights env session a a'"
proof -
  obtain a1 r1 where f: "node_reserve env args a = (a1, r1)" by fastforce
  have c: "within_rights env session a a1" by (rule node_reserve_confined [OF f assms(2,3)])
  show ?thesis
  proof (cases "\<exists>e. r1 = Inl e \<and> prepared \<noteq> [] \<and> unsupportedExternalSessionError e")
    case True
    obtain a2 r2 where g: "node_reserve env (args\<lparr>ra_ExternalSessionID := []\<rparr>) (called [CallDrop prepared] a1) = (a2, r2)" by fastforce
    have "within_rights env session a1 (called [CallDrop prepared] a1)" by (rule within_rights_called) (simp add: call_permitted_def)
    moreover have "within_rights env session (called [CallDrop prepared] a1) a2" by (rule node_reserve_confined [OF g]) (simp_all add: assms)
    moreover have "a' = a2" using assms(1) f g True by (auto simp: reserve_with_retry_def)
    ultimately show ?thesis using c within_rights_trans by blast
  next
    case False
    then have "a' = a1" using assms(1) f by (auto simp: reserve_with_retry_def split: sum.splits if_splits)
    with c show ?thesis by simp
  qed
qed

lemma handle_reserve_confined:
  assumes "handle_reserve env session rec args a = (a', reply)" "scope_held session ''reservations:write''"
  shows "within_rights env session a a'" "reply = Reserved result \<Longrightarrow> rr_Token result = [] \<and> rr_TokenID result = []"
proof -
  obtain a1 k where k: "own_key env session rec a = (a1, k)" by fastforce
  note c1 = own_key_confined [OF k]
  have "within_rights env session a a' \<and> (reply = Reserved result \<longrightarrow> rr_Token result = [] \<and> rr_TokenID result = [])"
  proof (cases k)
    case (Inl r) then show ?thesis using assms(1) k c1 by (auto simp: handle_reserve_def own_key_def failed_def split: prod.splits sum.splits option.splits)
  next
    case (Inr key)
    let ?args = "args\<lparr>ra_Name := si_User session, ra_UserKeyID := fv_ID key\<rparr>"
    obtain a2 p where p: "prepare_session env ?args a1 = (a2, p)" by fastforce
    have c2: "within_rights env session a1 a2" by (rule prepare_session_confined(1) [OF p]) simp
    show ?thesis
    proof (cases p)
      case (Inl e) then show ?thesis using assms(1) k p \<open>k = Inr key\<close> within_rights_trans [OF c1 c2] by (auto simp: handle_reserve_def failed_def)
    next
      case (Inr q)
      obtain prepared0 args1 where q: "q = (prepared0, args1)" by fastforce
      have n: "ra_Name args1 = si_User session" using prepare_session_confined(2) [OF p] Inr q by simp
      obtain a3 prepared r where r: "reserve_with_retry env prepared0 args1 a2 = (a3, prepared, r)" by (metis prod_cases3)
      have c3: "within_rights env session a a3"
        using reserve_with_retry_confined [OF r n assms(2)] c1 c2 within_rights_trans by blast
      have "within_rights env session a3 (called [CallDrop prepared] a3)" "within_rights env session a3 (called [CallClearCache] a3)"
        "within_rights env session a3 (called [CallClearCache] (called [CallConfirm prepared g ids gs] a3))" for g ids gs
        by (auto simp: within_rights_def call_permitted_def)
      with c3 have d: "within_rights env session a (called [CallDrop prepared] a3)" "within_rights env session a (called [CallClearCache] a3)"
        "within_rights env session a (called [CallClearCache] (called [CallConfirm prepared g ids gs] a3))" for g ids gs
        using within_rights_trans by blast+
      have e: "called [] b = b" for b :: "'a ActionState" by (simp add: called_def)
      show ?thesis using assms(1) k p \<open>k = Inr key\<close> Inr q r c3 d
        by (cases r) (auto simp: handle_reserve_def failed_def Let_def e)
    qed
  qed
  then show "within_rights env session a a'" "reply = Reserved result \<Longrightarrow> rr_Token result = [] \<and> rr_TokenID result = []" by auto
qed

lemma handle_allow_confined:
  assumes "handle_allow env session rec args a = (a', reply)" "scope_held session ''authorizations:write''" "si_Role session \<noteq> RoleAdmin"
  shows "within_rights env session a a'"
proof -
  obtain a1 k where k: "own_key env session rec a = (a1, k)" by fastforce
  have "within_rights env session a1 a'"
    using assms k
    by (auto simp: handle_allow_def Let_def within_rights_def call_permitted_def split: sum.splits if_splits prod.splits
        dest!: canUseKey_owned)
  then show ?thesis using own_key_confined [OF k] within_rights_trans by blast
qed

lemma handle_revoke_confined:
  assumes "handle_revoke env session ident a = (a', reply)" "scope_held session ''resources:revoke''" "si_Role session \<noteq> RoleAdmin"
  shows "within_rights env session a a'"
  using assms
  by (auto simp: handle_revoke_def Let_def within_rights_def call_permitted_def split: sum.splits if_splits prod.splits
      dest!: canRevoke_owned)

lemma action_gate_scope:
  "action_gate session action verb = None \<Longrightarrow> action_scope action verb = Some scope \<Longrightarrow> scope_held session scope"
  by (auto simp: action_gate_def scope_held_def requireAccessTokenScope_def split: if_splits)

lemma server_action_confined:
  assumes "server_action env session req ident action rec a = (a', reply)" "action_gate session action (rq_verb req) = None"
    "si_Role session \<noteq> RoleAdmin"
  shows "within_rights env session a a'"
  using assms action_gate_scope [OF assms(2)]
  by (auto simp: server_action_def Let_def with_body_def as_admin_def handle_show_def action_scope_def
      split: if_splits sum.splits
      dest: handle_reserve_confined(1) handle_allow_confined handle_revoke_confined)

lemma handleServerAction_rights:
  assumes "handleServerAction env session req a = (a', reply)" "si_Role session \<noteq> RoleAdmin"
  shows "\<exists>cs. as_calls a' = as_calls a @ cs \<and> list_all (call_permitted env session) cs \<and>
    (as_registry a' = as_registry a \<or> (\<exists>ident. as_registry a' = fst (registry_Get (ac_reg env) ident (as_registry a))))"
proof (cases "\<exists>ident action r rec. splitServerAction (rq_path req) = Some (ident, action) \<and> action_gate session action (rq_verb req) = None \<and>
    registry_Get (ac_reg env) ident (as_registry a) = (r, Inr (Some rec)) \<and>
    server_action env session req ident action rec (a\<lparr>as_registry := r\<rparr>) = (a', reply)")
  case True
  then obtain ident action r rec where t: "action_gate session action (rq_verb req) = None"
    "registry_Get (ac_reg env) ident (as_registry a) = (r, Inr (Some rec))"
    "server_action env session req ident action rec (a\<lparr>as_registry := r\<rparr>) = (a', reply)" by blast
  from server_action_confined [OF t(3,1) assms(2)] obtain cs where
    "as_calls a' = as_calls a @ cs" "list_all (call_permitted env session) cs" "as_registry a' = r"
    by (auto simp: within_rights_def)
  with t(2) show ?thesis by (metis fst_conv)
next
  case False
  then show ?thesis using assms(1)
    by (auto simp: handleServerAction_def split: option.splits sum.splits prod.splits if_splits; metis fst_conv)
qed

text \<open>
  C3: A user who is no administrator cannot change the records of the nodes, and has a node do only what
  its session permits: reservations in its own name, authorizations on the key the node reports as its
  own and without wildcards for namespaces or users, revocations of what the node reports as its own,
  each with the scope of the access token.
\<close>

theorem node_actions_confined:
  assumes "handleServerAction env session req a = (a', reply)" "si_Role session \<noteq> RoleAdmin"
  shows "\<exists>cs. as_calls a' = as_calls a @ cs \<and> list_all (call_permitted env session) cs \<and>
    (as_registry a' = as_registry a \<or> (\<exists>ident. as_registry a' = fst (registry_Get (ac_reg env) ident (as_registry a))))"
  by (rule handleServerAction_rights [OF assms])

end
