(* ===== verification/Node_HTTP.thy ===== *)
theory Node_HTTP
  imports Daemon_System Web_Actions Outbox Store_Keys
begin

text \<open>
  The HTTP interface of a node for the gateway (\<open>internal/daemon/http.go\<close>) over the daemon's handlers:
  the root key in front of every request, the limit on concurrent requests, and what each path does.
  A request comes with what \<open>decodeNodeJSON\<close> makes of its body. The world \<open>v\<close> of a handler gives the
  answers met before the daemon's own handler is called with the world \<open>w\<close>.
\<close>

section \<open>Answers and authentication\<close>

datatype http_error = HE_text string | HE_error srv_error

datatype 'r http_reply = HttpFail nat http_error | HttpOk nat 'r

type_synonym 'r http_handler = "Node \<Rightarrow> Node \<times> 'r http_reply"

definition http_text :: "nat \<Rightarrow> string \<Rightarrow> 'r http_handler" where
  "http_text status message n = (n, HttpFail status (HE_text message))"

definition writeDispatchError :: "srv_error \<Rightarrow> 'r http_reply" where
  "writeDispatchError e = HttpFail (if e = SE_store ErrInvalidRootKey then 401 else 400) (HE_error e)"

text \<open>The outcome of one of the daemon's handlers as an answer.\<close>

definition dispatched :: "nat \<Rightarrow> 'r handler \<Rightarrow> 'r http_handler" where
  "dispatched status h n = (case h n of (n, Inl e) \<Rightarrow> (n, writeDispatchError e) | (n, Inr r) \<Rightarrow> (n, HttpOk status r))"

definition bearerToken :: "string \<Rightarrow> string option" where
  "bearerToken authorization =
     (let header = TrimSpace authorization in
      if \<not> prefix ''Bearer '' header then None
      else let token = TrimSpace (drop 7 header) in if token \<noteq> [] then Some token else None)"

definition nodeAuth :: "StoreEnv \<Rightarrow> string \<Rightarrow> (string \<Rightarrow> 'r http_handler) \<Rightarrow> 'r http_handler" where
  "nodeAuth env authorization next n =
     (case bearerToken authorization of None \<Rightarrow> (n, HttpFail 401 (HE_text ''bearer root key is required''))
      | Some rootKey \<Rightarrow>
        (case ValidateRootKey env rootKey (nd_store n) of
           (s, Inl e) \<Rightarrow> (n\<lparr>nd_store := s\<rparr>, HttpFail 500 (HE_error (SE_store e)))
         | (s, Inr valid) \<Rightarrow>
           if \<not> valid then (n\<lparr>nd_store := s\<rparr>, HttpFail 401 (HE_error (SE_store ErrInvalidRootKey)))
           else next rootKey (n\<lparr>nd_store := s\<rparr>)))"

text \<open>The slots for concurrent requests.\<close>

definition maxConcurrentNodeHTTP :: nat where "maxConcurrentNodeHTTP = 32"

definition acquireNodeHTTPRequest :: "nat \<Rightarrow> nat \<times> bool" where
  "acquireNodeHTTPRequest busy = (if busy < maxConcurrentNodeHTTP then (Suc busy, True) else (busy, False))"

text \<open>\<open>nodeAPIHandler\<close> around a handler: a slot, and JSON when there is a body.\<close>

record node_request =
  nr_verb :: string
  nr_authorization :: string
  nr_hasBody :: bool
  nr_isJSON :: bool

definition nodeAPIHandler :: "node_request \<Rightarrow> 'r http_handler \<Rightarrow> Node \<times> nat \<Rightarrow> (Node \<times> nat) \<times> 'r http_reply" where
  "nodeAPIHandler req h = (\<lambda>(n, busy). case acquireNodeHTTPRequest busy of
     (busy, False) \<Rightarrow> ((n, busy), HttpFail 503 (HE_text ''too many concurrent node requests; retry shortly''))
   | (busy', True) \<Rightarrow>
     if nr_hasBody req \<and> \<not> nr_isJSON req
     then ((n, busy), HttpFail 415 (HE_text ''Content-Type must be application/json''))
     else (case h n of (n, r) \<Rightarrow> ((n, busy), r)))"

section \<open>Requests\<close>

definition register_as :: "string \<Rightarrow> World \<Rightarrow> string \<Rightarrow> RegisterArgs \<Rightarrow> RegisterResult http_handler" where
  "register_as mode w rootKey args0 =
     (let args = args0\<lparr>ra_Name := TrimSpace (ra_Name args0)\<rparr> in
      if ra_Name args = [] then http_text 400 ''name is required''
      else dispatched 201 (dispatch_register w (args\<lparr>ra_RootKey := rootKey, ra_Mode := mode\<rparr>)))"

definition handleNodeReservations :: "World \<Rightarrow> string \<Rightarrow> string + RegisterArgs \<Rightarrow> string \<Rightarrow> RegisterResult http_handler" where
  "handleNodeReservations w verb body rootKey =
     (if verb \<noteq> ''POST'' then http_text 405 ''method not allowed''
      else case body of Inl e \<Rightarrow> http_text 400 e | Inr args \<Rightarrow> register_as TokenModeReserved w rootKey args)"

text \<open>An empty body is the zero request here, which has no name.\<close>

definition handleNodeClaimKeys :: "World \<Rightarrow> string \<Rightarrow> string + RegisterArgs option \<Rightarrow> string \<Rightarrow> RegisterResult http_handler" where
  "handleNodeClaimKeys w verb body rootKey =
     (if verb \<noteq> ''POST'' then http_text 405 ''method not allowed''
      else case body of Inl e \<Rightarrow> http_text 400 e
      | Inr None \<Rightarrow> http_text 400 ''name is required''
      | Inr (Some args) \<Rightarrow> register_as TokenModeClaimed w rootKey args)"

definition handleNodeShowKeys :: "World \<Rightarrow> string \<Rightarrow> string \<Rightarrow> KeyStatus http_handler" where
  "handleNodeShowKeys w verb rootKey =
     (if verb \<noteq> ''POST'' then http_text 405 ''method not allowed''
      else dispatched 200 (store_call (store_KeyStatus (wo_env w 0) rootKey (wo_now w 0)) answer))"

definition handleNodeUserKeySync :: "World \<Rightarrow> string \<Rightarrow> string + ManagedUserKeySnapshot \<Rightarrow> string \<Rightarrow> ManagedUserKeySyncResult http_handler" where
  "handleNodeUserKeySync w verb body rootKey =
     (if verb \<noteq> ''PUT'' then http_text 405 ''method not allowed''
      else case body of Inl e \<Rightarrow> http_text 400 e
      | Inr snapshot \<Rightarrow> dispatched 200 (store_call (SyncManagedUserKeys (wo_env w 0) rootKey snapshot (wo_now w 0)) answer))"

definition handleNodeRevoke :: "World \<Rightarrow> string \<Rightarrow> string + string \<Rightarrow> string \<Rightarrow> string http_handler" where
  "handleNodeRevoke w verb body rootKey =
     (if verb \<noteq> ''POST'' then http_text 405 ''method not allowed''
      else case body of Inl e \<Rightarrow> http_text 400 e
      | Inr ident \<Rightarrow> dispatched 200 (with_root_key w rootKey (revoke w ident)))"

text \<open>
  The peer of a request over HTTP is the zero value, whose user is root: the daemon's own test for
  wildcards does not refuse anything here.
\<close>

definition zero_peer :: peer where
  "zero_peer = \<lparr>pr_PID = 0, pr_UID = 0, pr_GID = 0, pr_Groups = []\<rparr>"

definition create_scope :: "World \<Rightarrow> string \<Rightarrow> Token \<Rightarrow> string \<Rightarrow> AllowArgs \<Rightarrow> Authorization http_handler" where
  "create_scope w secret token tokenHash args =
     (let mode = TrimSpace (al_Mode args) in
      if mode = ModeDocker then dispatched 201 (createDockerAuthorization w secret token tokenHash zero_peer (al_Container args) (al_RunName args))
      else if mode = ModeK8s then dispatched 201 (createK8sAuthorization w secret token tokenHash zero_peer (al_Namespace args) (al_RunName args))
      else if mode = ModeUser then dispatched 201 (createUserAuthorization w secret token tokenHash zero_peer (al_User args) (al_RunName args))
      else http_text 400 ''mode must be docker, k8s, or user'')"

text \<open>
  A managed key is used by its identifier; another one by its stored secret, which the dispatcher
  validates again.
\<close>

definition allow_with_secret :: "World \<Rightarrow> World \<Rightarrow> string \<Rightarrow> AllowArgs \<Rightarrow> Authorization http_handler" where
  "allow_with_secret v w secret args n =
     (if TrimSpace (al_Mode args) \<notin> {ModeDocker, ModeK8s, ModeUser} then http_text 400 ''mode must be docker, k8s, or user'' n
      else case ValidateToken (wo_env v 2) secret (wo_now v 2) (nd_store n) of
        (s, t, h, Some e) \<Rightarrow> (n\<lparr>nd_store := s\<rparr>, writeDispatchError (SE_store e))
      | (s, t, h, None) \<Rightarrow> create_scope w secret t h args (n\<lparr>nd_store := s\<rparr>))"

definition handleNodeAllow :: "World \<Rightarrow> World \<Rightarrow> string \<Rightarrow> string + AllowArgs \<Rightarrow> string \<Rightarrow> Authorization http_handler" where
  "handleNodeAllow v w verb body rootKey n =
     (if verb \<noteq> ''POST'' then http_text 405 ''method not allowed'' n
      else case body of Inl e \<Rightarrow> http_text 400 e n
      | Inr args \<Rightarrow>
        let tokenID = (if TrimSpace (al_UserKeyID args) = [] then TrimSpace (al_ID args) else TrimSpace (al_UserKeyID args)) in
        if tokenID = [] then http_text 400 ''id is required'' n
        else case ManagedTokenByID (wo_env v 0) tokenID (wo_now v 0) (nd_store n) of
          (s, Inr token) \<Rightarrow> create_scope w [] token (tk_Hash token) args (n\<lparr>nd_store := s\<rparr>)
        | (s, Inl _) \<Rightarrow>
          (case store_KeyStatus (wo_env v 1) rootKey (wo_now v 1) s of
             (s, Inl e) \<Rightarrow> (n\<lparr>nd_store := s\<rparr>, writeDispatchError (SE_store e))
           | (s, Inr status) \<Rightarrow>
             (case find (\<lambda>t. tv_ID t = tokenID) (ks_Tokens status) of
                None \<Rightarrow> http_text 404 ''key not found or secret is not stored'' (n\<lparr>nd_store := s\<rparr>)
              | Some t \<Rightarrow>
                if tv_Key t = [] then http_text 404 ''key not found or secret is not stored'' (n\<lparr>nd_store := s\<rparr>)
                else allow_with_secret v w (tv_Key t) args (n\<lparr>nd_store := s\<rparr>))))"

section \<open>Telemetry\<close>

datatype poll_reply = PollPage Page | PollGap CursorGap

text \<open>
  The loop of a long poll over the states in which the log is found: the first one, and one for each
  append that wakes it. At the end it timed out, which answers the last page, or the client left and
  there is no answer.
\<close>

fun telemetry_loop :: "OutboxEnv \<Rightarrow> string \<Rightarrow> int \<Rightarrow> bool \<Rightarrow> bool \<Rightarrow> Outbox list \<Rightarrow> poll_reply http_reply option" where
  "telemetry_loop env cursor limit waits timedOut [] = None"
| "telemetry_loop env cursor limit waits timedOut (b # bs) = (case read_page env cursor limit b of
     Inl (PageGap gap) \<Rightarrow> Some (HttpOk 410 (PollGap gap))
   | Inl ErrInvalidCursor \<Rightarrow> Some (HttpFail 400 (HE_text ''invalid telemetry cursor''))
   | Inr page \<Rightarrow> if pg_Events page \<noteq> [] \<or> \<not> waits then Some (HttpOk 200 (PollPage page))
       else if bs = [] then (if timedOut then Some (HttpOk 200 (PollPage page)) else None)
       else telemetry_loop env cursor limit waits timedOut bs)"

abbreviation (input) MaxPageWait :: duration where "MaxPageWait \<equiv> 10 * second"

definition handleNodeTelemetry ::
  "OutboxEnv \<Rightarrow> (string \<Rightarrow> duration option) \<Rightarrow> string \<Rightarrow> string \<Rightarrow> string \<Rightarrow> string \<Rightarrow> bool \<Rightarrow> Outbox list option \<Rightarrow> poll_reply http_reply option" where
  "handleNodeTelemetry env parseDuration verb limit_text wait_text cursor timedOut boxes =
     (if verb \<noteq> ''GET'' then Some (HttpFail 405 (HE_text ''method not allowed''))
      else case boxes of None \<Rightarrow> Some (HttpFail 503 (HE_text ''telemetry is unavailable''))
      | Some bs \<Rightarrow>
        let limit = (if TrimSpace limit_text = [] then Some DefaultPageLimit
              else case Atoi (TrimSpace limit_text) of None \<Rightarrow> None | Some v \<Rightarrow> if v < 1 \<or> v > MaxPageLimit then None else Some v);
            wait = (if TrimSpace wait_text = [] then Some 0
              else case parseDuration (TrimSpace wait_text) of None \<Rightarrow> None | Some v \<Rightarrow> if v < 0 \<or> v > MaxPageWait then None else Some v) in
        (case limit of None \<Rightarrow> Some (HttpFail 400 (HE_text ''limit must be between 1 and 256''))
         | Some l \<Rightarrow> (case wait of None \<Rightarrow> Some (HttpFail 400 (HE_text ''wait must be a duration between 0s and 10s''))
           | Some d \<Rightarrow> telemetry_loop env (TrimSpace cursor) l (d > 0) timedOut bs)))"

section \<open>Nothing without the root key\<close>

text \<open>
  C14: A handler runs only for the root key. Either the request is refused, with the data of the
  store, in memory and in its file, and the rest of the node as they were; or it is a bearer request
  whose token is, character for character, the key that the node's root key file holds (which the node
  makes when it has none), and the answer is that of the handler behind.
\<close>

theorem node_needs_root_key:
  assumes "nodeAuth env authorization next n = (n', r)"
  defines "s \<equiv> fst (ReadOrCreateRootKey env (nd_store n))" and "header \<equiv> TrimSpace authorization"
  shows "(same_data (nd_store n) (nd_store n') \<and> n' = n\<lparr>nd_store := nd_store n'\<rparr> \<and>
      (\<exists>status e. r = HttpFail status e \<and> status \<in> {401, 500})) \<or>
    (\<exists>key. prefix ''Bearer '' header \<and> key = TrimSpace (drop 7 header) \<and> root_key_on_file s key \<and>
      same_data (nd_store n) s \<and> next key (n\<lparr>nd_store := s\<rparr>) = (n', r))"
proof (cases "bearerToken authorization")
  case None
  with assms(1) show ?thesis by (auto simp: nodeAuth_def same_data_def)
next
  case (Some key)
  then have key: "prefix ''Bearer '' header" "key = TrimSpace (drop 7 header)"
    by (auto simp: bearerToken_def header_def Let_def split: if_splits)
  obtain t v where v: "ValidateRootKey env key (nd_store n) = (t, v)" by fastforce
  from same_data_ValidateRootKey [OF v] have d: "same_data (nd_store n) t" .
  show ?thesis
  proof (cases "v = Inr True")
    case True
    with ValidateRootKey_True [of env key "nd_store n" t] v
    have "s = t" "root_key_on_file s (TrimSpace key)" by (auto simp: s_def)
    moreover have "TrimSpace key = key" by (simp add: key(2) TrimSpace_idem)
    ultimately show ?thesis using assms(1) Some v d True key by (auto simp: nodeAuth_def)
  next
    case False
    with assms(1) Some v d show ?thesis by (cases v) (auto simp: nodeAuth_def)
  qed
qed

section \<open>Scopes granted through the gateway\<close>

lemma capacity_Inr:
  assumes "withAuthorizationCapacity w k h add n = (n', Inr au')" "\<And>k n m. add k n = (m, Inr au') \<Longrightarrow> P au'"
  shows "P au'"
  using assms by (auto simp: withAuthorizationCapacity_def split: prod.splits sum.splits if_splits bool.splits)

definition scope_of :: "Authorization \<Rightarrow> string \<times> string" where
  "scope_of au = (au_Namespace au, au_Username au)"

lemma persist_scope:
  assumes "persistAuthorization w k secret token au n = (n', Inr au')"
  shows "scope_of au' = scope_of au"
proof (cases "TrimSpace secret \<noteq> [] \<or> \<not> tk_Managed token")
  case True
  with assms have "withAuthorizationCapacity w k (au_TokenHash au) (addAuthorizationLocked w secret au) n = (n', Inr au')"
    by (simp add: persistAuthorization_def addAuthorization_def)
  then show ?thesis
    by (rule capacity_Inr) (auto simp: addAuthorizationLocked_def validateToken_def ensureTokenCanAuthorize_def Let_def handler_Inr scope_of_def
        split: if_splits prod.splits)
next
  case False
  with assms have "withAuthorizationCapacity w k (tk_Hash token) (persistManagedAuthorization w token au) n = (n', Inr au')"
    by (simp add: persistAuthorization_def)
  then show ?thesis
    by (rule capacity_Inr) (auto simp: persistManagedAuthorization_def Let_def handler_Inr scope_of_def)
qed

lemma ensure_Inr: "ensureTokenCanAuthorize env h token now k n = (n', Inr r) \<Longrightarrow> \<exists>n1. k n1 = (n', Inr r)"
  by (auto simp: ensureTokenCanAuthorize_def handler_Inr split: if_splits)

lemma create_scope_Inr:
  assumes "create_scope w secret token h args n = (n', HttpOk status au)"
  shows "status = 201 \<and> au_Namespace au \<in> {[], TrimSpace (al_Namespace args)} \<and> au_Username au \<in> {[], TrimSpace (al_User args)}"
proof -
  have new: "scope_of (new_authorization w t h tok r u g m) = ([], [])" for t h tok r u g m
    by (simp add: scope_of_def new_authorization_def zero_Authorization_def)
  have d: "dispatched 201 hd n = (n', HttpOk status au) \<Longrightarrow> status = 201 \<and> hd n = (n', Inr au)" for hd
    by (auto simp: dispatched_def writeDispatchError_def split: prod.splits sum.splits)
  from assms have "status = 201" "(\<exists>c r. createDockerAuthorization w secret token h zero_peer c r n = (n', Inr au)) \<or>
      (\<exists>r. createK8sAuthorization w secret token h zero_peer (al_Namespace args) r n = (n', Inr au)) \<or>
      (\<exists>r. createUserAuthorization w secret token h zero_peer (al_User args) r n = (n', Inr au))"
    by (auto simp: create_scope_def Let_def http_text_def dest!: d split: if_splits)
  moreover have "scope_of au = ([], [])" if "createDockerAuthorization w secret token h zero_peer c r n = (n', Inr au)" for c r
    using that new by (auto simp: createDockerAuthorization_def Let_def handler_Inr scope_of_def
        dest!: ensure_Inr persist_scope split: sum.splits prod.splits)
  moreover have "scope_of au = (TrimSpace (al_Namespace args), [])"
    if "createK8sAuthorization w secret token h zero_peer (al_Namespace args) r n = (n', Inr au)" for r
    using that new by (auto simp: createK8sAuthorization_def Let_def handler_Inr scope_of_def dest!: ensure_Inr persist_scope)
  moreover have "scope_of au = ([], TrimSpace (al_User args))"
    if "createUserAuthorization w secret token h zero_peer (al_User args) r n = (n', Inr au)" for r
    using that new by (auto simp: createUserAuthorization_def Let_def handler_Inr scope_of_def
        dest!: ensure_Inr persist_scope split: sum.splits)
  ultimately show ?thesis by (auto simp: scope_of_def)
qed

lemma handleNodeAllow_scope:
  assumes "handleNodeAllow v w verb (Inr args) rootKey n = (n', HttpOk status au)"
  shows "status = 201 \<and> au_Namespace au \<in> {[], TrimSpace (al_Namespace args)} \<and> au_Username au \<in> {[], TrimSpace (al_User args)}"
  using assms create_scope_Inr
  by (auto simp: handleNodeAllow_def allow_with_secret_def http_text_def writeDispatchError_def Let_def
      split: if_splits prod.splits sum.splits option.splits)

lemma trim_left_subset: "set (trim_left s) \<subseteq> set s"
proof (induction s rule: trim_left.induct)
  case (1 s)
  then show ?case by (subst trim_left.simps) (auto dest: in_set_dropD)
qed

lemma trim_right_subset: "set (trim_right s) \<subseteq> set s"
proof (induction s rule: trim_right.induct)
  case (1 s)
  then show ?case by (subst trim_right.simps) (auto dest: in_set_takeD)
qed

lemma TrimSpace_subset: "c \<in> set (TrimSpace s) \<Longrightarrow> c \<in> set s"
  using trim_left_subset trim_right_subset unfolding TrimSpace_def by blast

lemma Contains_char: "Contains s [c] \<longleftrightarrow> c \<in> set s"
  unfolding Contains_def by (induction s) auto

text \<open>
  C9: The gateway stands in for the daemon's test of the user: whatever node it talks to, an authorization
  that the node stores on a request of the gateway for a user who is no administrator has no wildcard
  for namespaces or for user names, although the node takes the gateway for root.
\<close>

theorem gateway_scopes_confined:
  assumes "handleServerAction env session req a = (a', reply)" "si_Role session \<noteq> RoleAdmin" "as_calls a = []"
    and "CallAllow m args \<in> set (as_calls a')"
    and "handleNodeAllow v w verb (Inr args) rootKey n = (n', HttpOk status au)"
  shows "\<not> hasWildcard (au_Namespace au) \<and> \<not> hasWildcard (au_Username au)"
proof -
  from handleServerAction_rights [OF assms(1,2)] assms(3,4) have "call_permitted env session (CallAllow m args)"
    by (auto simp: list_all_iff)
  then have "\<not> hasWildcard (al_Namespace args)" "\<not> hasWildcard (al_User args)"
    by (auto simp: call_permitted_def allowArgsHavePrivilegedWildcard_def Contains_char hasWildcard_def)
  with handleNodeAllow_scope [OF assms(5)] show ?thesis by (auto simp: hasWildcard_def dest: TrimSpace_subset)
qed

end
