(* ===== verification/Web_Fleet.thy ===== *)
theory Web_Fleet
  imports Web_Access
begin

text \<open>
  The fleet view of the gateway (\<open>internal/web/server.go\<close>): fetching the snapshots of all nodes within a
  budget, keeping the last good one of each node, and the cache with its single refresh in flight.
\<close>

section \<open>The budget\<close>

definition maxNodeSnapshotRecords :: nat where "maxNodeSnapshotRecords = 4096"
definition maxNodeSnapshotProcesses :: nat where "maxNodeSnapshotProcesses = 2048"
definition maxFleetSnapshotRecords :: nat where "maxFleetSnapshotRecords = 32768"
definition maxFleetSnapshotProcesses :: nat where "maxFleetSnapshotProcesses = 8192"
definition maxFleetSnapshotRetainedSize :: nat where "maxFleetSnapshotRetainedSize = 33554432"
definition maxFleetErrorBytes :: nat where "maxFleetErrorBytes = 1024"

definition snapshot_processes :: "NodeSnapshot \<Rightarrow> nat" where
  "snapshot_processes n = sum_list (map (\<lambda>g. length (gs_Processes g)) (ns_GPUs n))"

definition snapshot_records :: "NodeSnapshot \<Rightarrow> nat" where
  "snapshot_records n =
     length (ns_GPUs n) + length (ns_Tokens n) + length (ns_Reservations n) + length (ns_Authorizations n) +
     length (ns_SoftClaims n) + length (ns_Leases n) + length (ns_Bypasses n) + length (ns_PS n) +
     sum_list (map (\<lambda>a. length (av_Command a)) (ns_Authorizations n)) +
     sum_list (map (\<lambda>l. length (ls_Command l)) (ns_Leases n)) + snapshot_processes n"

definition sizes :: "string list \<Rightarrow> nat" where
  "sizes ss = sum_list (map length ss)"

definition snapshot_bytes :: "NodeSnapshot \<Rightarrow> nat" where
  "snapshot_bytes n = 1024 + snapshot_records n * 512 + sizes [ns_Hostname n] +
     sum_list (map (\<lambda>g. sizes (gs_State g # map gp_Name (gs_Processes g))) (ns_GPUs n)) +
     sum_list (map (\<lambda>t. sizes [tv_ID t, tv_Key t, tv_KeyStatus t, tv_Name t, tv_Mode t]) (ns_Tokens n)) +
     sum_list (map (\<lambda>r. sizes [rv_ID r, rv_GroupID r, rv_Holder r, rv_Purpose r]) (ns_Reservations n)) +
     sum_list (map (\<lambda>a. sizes ([av_ID a, av_TokenID a, av_Mode a, av_TokenMode a, av_Holder a, av_Username a, av_ContainerID a,
       av_ContainerPattern a, av_Namespace a] @ av_Command a)) (ns_Authorizations n)) +
     sum_list (map (\<lambda>c. sizes [cv_ID c, cv_AuthorizationID c, cv_Holder c]) (ns_SoftClaims n)) +
     sum_list (map (\<lambda>l. sizes ([ls_ID l, ls_Mode l, ls_TokenHash l, ls_Holder l, ls_CgroupPath l, ls_CgroupRel l, ls_ContainerID l,
       ls_Namespace l] @ ls_Command l)) (ns_Leases n)) +
     sum_list (map (\<lambda>b. sizes [br_ID b, br_Type b, br_Command b, br_Reason b]) (ns_Bypasses n)) +
     sum_list (map (\<lambda>p. sizes [pr_ID p, pr_GPU p, pr_User p, pr_Command p]) (ns_PS n))"

definition nodeSnapshotCost :: "NodeSnapshot \<Rightarrow> web_error + nat \<times> nat \<times> nat" where
  "nodeSnapshotCost n =
     (if snapshot_records n > maxNodeSnapshotRecords then Inl (WErr ''node snapshot exceeds 4096 records'')
      else if snapshot_processes n > maxNodeSnapshotProcesses then Inl (WErr ''node snapshot exceeds 2048 processes'')
      else if snapshot_bytes n > maxFleetSnapshotRetainedSize then Inl (WErr ''node snapshot retained size is too large'')
      else Inr (snapshot_records n, snapshot_processes n, snapshot_bytes n))"

record fleetSnapshotBudget =
  fb_records :: nat
  fb_processes :: nat
  fb_bytes :: nat

definition accept :: "NodeSnapshot \<Rightarrow> fleetSnapshotBudget \<Rightarrow> fleetSnapshotBudget \<times> web_error option" where
  "accept n b = (case nodeSnapshotCost n of Inl e \<Rightarrow> (b, Some e)
   | Inr (records, processes, bytes) \<Rightarrow>
     if fb_records b + records > maxFleetSnapshotRecords \<or> fb_processes b + processes > maxFleetSnapshotProcesses \<or>
        fb_bytes b + bytes > maxFleetSnapshotRetainedSize
     then (b, Some (WErr ''fleet snapshot budget exceeded''))
     else (\<lparr>fb_records = fb_records b + records, fb_processes = fb_processes b + processes, fb_bytes = fb_bytes b + bytes\<rparr>, None))"

definition boundedFleetError :: "web_error \<Rightarrow> string" where
  "boundedFleetError e = take maxFleetErrorBytes (web_error_text e)"

section \<open>The last good snapshot of a node\<close>

record lastNodeSnapshot =
  la_snapshot :: NodeSnapshot
  la_at :: time

definition fleetNodeStaleGrace :: duration where "fleetNodeStaleGrace = 30 * second"

definition rememberNodeSnapshot :: "time \<Rightarrow> string \<Rightarrow> NodeSnapshot \<Rightarrow> (string \<Rightarrow> lastNodeSnapshot option) \<Rightarrow> string \<Rightarrow> lastNodeSnapshot option" where
  "rememberNodeSnapshot now ident n kept = kept(ident \<mapsto> \<lparr>la_snapshot = n, la_at = now\<rparr>)"

definition recentNodeSnapshot :: "time \<Rightarrow> string \<Rightarrow> (string \<Rightarrow> lastNodeSnapshot option) \<Rightarrow> lastNodeSnapshot option" where
  "recentNodeSnapshot now ident kept = (case kept ident of None \<Rightarrow> None
     | Some l \<Rightarrow> if time_Sub now (la_at l) > fleetNodeStaleGrace then None else Some l)"

definition pruneNodeSnapshots :: "ServerRecord list \<Rightarrow> (string \<Rightarrow> lastNodeSnapshot option) \<Rightarrow> string \<Rightarrow> lastNodeSnapshot option" where
  "pruneNodeSnapshots records kept = (\<lambda>ident. if list_ex (\<lambda>r. sr_ID r = ident \<and> \<not> sr_Archived r) records then kept ident else None)"

section \<open>Fetching the fleet\<close>

text \<open>
  Up to sixteen workers fetch the nodes; each node is fetched once, in some order of completion, which
  is the list of positions here. Only the part of a fetch that holds the locks is a step: the answer
  of a node is a parameter, as is the clock when it arrives.
\<close>

record FleetEnv =
  fe_answer :: "nat \<Rightarrow> web_error + NodeSnapshot"
  fe_now :: "nat \<Rightarrow> time"
  fe_ctxErr :: "web_error option"

record FleetWork =
  fw_budget :: fleetSnapshotBudget
  fw_last :: "string \<Rightarrow> lastNodeSnapshot option"
  fw_items :: "(nat \<times> serverSnapshot) list"

definition plain_item :: "ServerRecord \<Rightarrow> string \<Rightarrow> serverSnapshot" where
  "plain_item rec err = \<lparr>sn_Server = publicServerRecord rec, sn_Online = False, sn_Error = err, sn_Snapshot = None, sn_Stale = False, sn_SnapshotAt = 0\<rparr>"

definition fetch_node :: "FleetEnv \<Rightarrow> ServerRecord list \<Rightarrow> nat \<Rightarrow> FleetWork \<Rightarrow> FleetWork" where
  "fetch_node env records i w =
     (let rec = records ! i; put = (\<lambda>item w. w\<lparr>fw_items := (i, item) # fw_items w\<rparr>) in
      case fe_answer env i of
        Inl e \<Rightarrow>
          let item = plain_item rec (boundedFleetError e) in
          (case recentNodeSnapshot (fe_now env i) (sr_ID rec) (fw_last w) of None \<Rightarrow> put item w
           | Some l \<Rightarrow> (case accept (la_snapshot l) (fw_budget w) of
               (b, None) \<Rightarrow> put (item\<lparr>sn_Online := True, sn_Stale := True, sn_SnapshotAt := la_at l, sn_Snapshot := Some (la_snapshot l)\<rparr>)
                 (w\<lparr>fw_budget := b\<rparr>)
             | (b, Some _) \<Rightarrow> put item (w\<lparr>fw_budget := b\<rparr>)))
      | Inr n \<Rightarrow> (case accept n (fw_budget w) of
          (b, Some e) \<Rightarrow> put (plain_item rec (web_error_text e)) (w\<lparr>fw_budget := b\<rparr>)
        | (b, None) \<Rightarrow> put ((plain_item rec [])\<lparr>sn_Online := True, sn_Snapshot := Some n\<rparr>)
            (w\<lparr>fw_budget := b, fw_last := rememberNodeSnapshot (fe_now env i) (sr_ID rec) n (fw_last w)\<rparr>)))"

text \<open>
  \<open>fetchFleetSnapshot\<close>: the dispatch stops when the context ends, after \<open>dispatched\<close> positions; the
  workers finish the nodes they were handed in the order \<open>order\<close>.
\<close>

definition fleet_item :: "FleetEnv \<Rightarrow> nat \<Rightarrow> FleetWork \<Rightarrow> nat \<Rightarrow> ServerRecord \<Rightarrow> serverSnapshot" where
  "fleet_item env dispatched w i rec =
     (if i < dispatched \<and> sr_Archived rec then plain_item rec []
      else case map_of (fw_items w) i of Some item \<Rightarrow> item
      | None \<Rightarrow> plain_item rec (case fe_ctxErr env of Some e \<Rightarrow> web_error_text e | None \<Rightarrow> ''snapshot unavailable''))"

definition empty_work :: "(string \<Rightarrow> lastNodeSnapshot option) \<Rightarrow> FleetWork" where
  "empty_work kept = \<lparr>fw_budget = \<lparr>fb_records = 0, fb_processes = 0, fb_bytes = 0\<rparr>, fw_last = kept, fw_items = []\<rparr>"

definition fetchFleetSnapshot :: "FleetEnv \<Rightarrow> nat \<Rightarrow> nat list \<Rightarrow> ServerRecord list \<Rightarrow> (string \<Rightarrow> lastNodeSnapshot option) \<Rightarrow>
    (string \<Rightarrow> lastNodeSnapshot option) \<times> serverSnapshot list" where
  "fetchFleetSnapshot env dispatched order records kept =
     (if records = [] then (kept, [])
      else let w = fold (fetch_node env records) order (empty_work kept) in
        (pruneNodeSnapshots records (fw_last w), map (\<lambda>i. fleet_item env dispatched w i (records ! i)) [0..<length records]))"

section \<open>The cache\<close>

text \<open>
  The cache of the fleet view; a snapshot is any value, and calls of the refresh have numbers. The
  answers of finished calls stay available to those who wait for them.
\<close>

record 'f FleetCache =
  fl_cache :: 'f
  fl_at :: time
  fl_ok :: bool
  fl_refresh :: "nat option"
  fl_next :: nat
  fl_done :: "(nat \<times> (web_error + 'f)) list"

definition fleetMaxStaleAge :: duration where "fleetMaxStaleAge = 30 * second"

datatype 'f fleet_read = Hit 'f | Wait nat "'f option"

text \<open>
  \<open>cachedFleetSnapshot\<close> up to the wait: a fresh entry is an answer; otherwise the reader joins the
  refresh in flight, or starts one, with the entry it may fall back to.
\<close>

definition cachedFleetSnapshot :: "time \<Rightarrow> duration \<Rightarrow> 'f FleetCache \<Rightarrow> 'f FleetCache \<times> 'f fleet_read" where
  "cachedFleetSnapshot now ttl st =
     (if fl_ok st \<and> time_Sub now (fl_at st) < ttl then (st, Hit (fl_cache st))
      else let stale = (if fl_ok st \<and> time_Sub now (fl_at st) < fleetMaxStaleAge then Some (fl_cache st) else None) in
        case fl_refresh st of Some c \<Rightarrow> (st, Wait c stale)
        | None \<Rightarrow> (st\<lparr>fl_refresh := Some (fl_next st), fl_next := Suc (fl_next st)\<rparr>, Wait (fl_next st) stale))"

datatype wake = RequestCanceled web_error | RefreshDone | StaleReady

text \<open>The wait: what ends it, and the answer of the call that was waited for.\<close>

definition fleet_answer :: "wake \<Rightarrow> web_error + 'f \<Rightarrow> 'f fleet_read \<Rightarrow> (web_error + 'f) option" where
  "fleet_answer woken result r = (case r of Hit f \<Rightarrow> Some (Inr f)
   | Wait c stale \<Rightarrow> (case woken of RequestCanceled e \<Rightarrow> Some (Inl e)
     | RefreshDone \<Rightarrow> (case (result, stale) of (Inl e, Some f) \<Rightarrow> Some (Inr f) | _ \<Rightarrow> Some result)
     | StaleReady \<Rightarrow> map_option Inr stale))"

definition refreshFleetSnapshot :: "time \<Rightarrow> web_error + 'f \<Rightarrow> 'f FleetCache \<Rightarrow> 'f FleetCache" where
  "refreshFleetSnapshot now result st =
     (case fl_refresh st of None \<Rightarrow> st
      | Some c \<Rightarrow> let st = (case result of Inr f \<Rightarrow> st\<lparr>fl_cache := f, fl_at := now, fl_ok := True\<rparr> | Inl _ \<Rightarrow> st) in
        st\<lparr>fl_refresh := None, fl_done := (c, result) # fl_done st\<rparr>)"

definition clearFleetCache :: "'f FleetCache \<Rightarrow> 'f FleetCache" where
  "clearFleetCache st = st\<lparr>fl_ok := False\<rparr>"

section \<open>The fleet stays within its budget\<close>

definition item_cost :: "(NodeSnapshot \<Rightarrow> nat) \<Rightarrow> serverSnapshot \<Rightarrow> nat" where
  "item_cost f item = (case sn_Snapshot item of None \<Rightarrow> 0 | Some n \<Rightarrow> f n)"

definition budget_ok :: "FleetWork \<Rightarrow> bool" where
  "budget_ok w \<longleftrightarrow>
     sum_list (map (item_cost snapshot_records \<circ> snd) (fw_items w)) \<le> fb_records (fw_budget w) \<and>
     sum_list (map (item_cost snapshot_processes \<circ> snd) (fw_items w)) \<le> fb_processes (fw_budget w) \<and>
     sum_list (map (item_cost snapshot_bytes \<circ> snd) (fw_items w)) \<le> fb_bytes (fw_budget w) \<and>
     fb_records (fw_budget w) \<le> maxFleetSnapshotRecords \<and> fb_processes (fw_budget w) \<le> maxFleetSnapshotProcesses \<and>
     fb_bytes (fw_budget w) \<le> maxFleetSnapshotRetainedSize"

lemma accept_None:
  assumes "accept n b = (b', None)"
  shows "fb_records b' = fb_records b + snapshot_records n \<and> fb_processes b' = fb_processes b + snapshot_processes n \<and>
    fb_bytes b' = fb_bytes b + snapshot_bytes n \<and> fb_records b' \<le> maxFleetSnapshotRecords \<and>
    fb_processes b' \<le> maxFleetSnapshotProcesses \<and> fb_bytes b' \<le> maxFleetSnapshotRetainedSize"
  using assms by (auto simp: accept_def nodeSnapshotCost_def split: if_splits)

lemma accept_Some: "accept n b = (b', Some e) \<Longrightarrow> b' = b"
  by (auto simp: accept_def split: sum.splits prod.splits if_splits)

lemma plain_item_cost [simp]: "item_cost f (plain_item rec err) = 0"
  by (simp add: item_cost_def plain_item_def)

lemma fetch_node_budget: "budget_ok w \<Longrightarrow> budget_ok (fetch_node env records i w)"
  by (auto simp: fetch_node_def budget_ok_def Let_def item_cost_def plain_item_def
      split: sum.splits option.splits prod.splits dest!: accept_None accept_Some)

lemma fetch_nodes_budget: "budget_ok w \<Longrightarrow> budget_ok (fold (fetch_node env records) order w)"
  by (induction order arbitrary: w) (auto intro: fetch_node_budget)

definition items_of :: "ServerRecord list \<Rightarrow> FleetWork \<Rightarrow> bool" where
  "items_of records w \<longleftrightarrow> (\<forall>p \<in> set (fw_items w). sn_Server (snd p) = publicServerRecord (records ! fst p))"

lemma fetch_node_server: "items_of records w \<Longrightarrow> items_of records (fetch_node env records i w)"
  by (auto simp: items_of_def fetch_node_def Let_def plain_item_def split: sum.splits option.splits prod.splits)

lemma fetch_nodes_server: "items_of records w \<Longrightarrow> items_of records (fold (fetch_node env records) order w)"
  by (induction order arbitrary: w) (simp_all add: fetch_node_server)

lemma fleet_item_server:
  assumes "items_of records w"
  shows "sn_Server (fleet_item env dispatched w i (records ! i)) = publicServerRecord (records ! i)"
proof -
  have "sn_Server item = publicServerRecord (records ! i)" if "map_of (fw_items w) i = Some item" for item
    using assms map_of_SomeD [OF that] by (fastforce simp: items_of_def)
  then show ?thesis by (simp add: fleet_item_def plain_item_def split: option.splits)
qed

lemma map_of_cost:
  "(\<Sum>i<n. case map_of items i of None \<Rightarrow> 0 | Some item \<Rightarrow> item_cost f item) \<le> sum_list (map (item_cost f \<circ> snd) items)" for n :: nat
proof (induction items)
  case (Cons p items)
  obtain j x where p: "p = (j, x)" by fastforce
  have "(\<Sum>i<n. case map_of (p # items) i of None \<Rightarrow> 0 | Some item \<Rightarrow> item_cost f item)
      \<le> (\<Sum>i<n. (if i = j then item_cost f x else 0) + (case map_of items i of None \<Rightarrow> 0 | Some item \<Rightarrow> item_cost f item))"
    by (rule sum_mono) (auto simp: p split: option.splits)
  also have "\<dots> \<le> item_cost f x + (\<Sum>i<n. case map_of items i of None \<Rightarrow> 0 | Some item \<Rightarrow> item_cost f item)"
    by (simp add: sum.distrib sum.delta')
  finally show ?case using Cons by (simp add: p)
qed simp

lemma fleet_cost:
  "sum_list (map (item_cost f) (map (\<lambda>i. fleet_item env dispatched w i (records ! i)) [0..<n])) \<le>
     sum_list (map (item_cost f \<circ> snd) (fw_items w))"
proof -
  have "sum_list (map (item_cost f) (map (\<lambda>i. fleet_item env dispatched w i (records ! i)) [0..<n])) =
      (\<Sum>i<n. item_cost f (fleet_item env dispatched w i (records ! i)))"
    by (simp add: interv_sum_list_conv_sum_set_nat lessThan_atLeast0 comp_def)
  also have "\<dots> \<le> (\<Sum>i<n. case map_of (fw_items w) i of None \<Rightarrow> 0 | Some item \<Rightarrow> item_cost f item)"
    by (rule sum_mono) (auto simp: fleet_item_def split: option.splits)
  also note map_of_cost
  finally show ?thesis .
qed

lemma fleet_costs:
  "let fleet = snd (fetchFleetSnapshot env dispatched order records kept) in
   sum_list (map (item_cost snapshot_records) fleet) \<le> maxFleetSnapshotRecords \<and>
   sum_list (map (item_cost snapshot_processes) fleet) \<le> maxFleetSnapshotProcesses \<and>
   sum_list (map (item_cost snapshot_bytes) fleet) \<le> maxFleetSnapshotRetainedSize \<and>
   map sn_Server fleet = map publicServerRecord records"
proof (cases "records = []")
  case True
  then show ?thesis by (simp add: fetchFleetSnapshot_def)
next
  case False
  let ?w = "fold (fetch_node env records) order (empty_work kept)"
  have b: "budget_ok ?w" by (rule fetch_nodes_budget) (simp add: budget_ok_def empty_work_def)
  note c = fleet_cost [of _ env dispatched ?w records "length records"]
  have "items_of records ?w" by (rule fetch_nodes_server) (simp add: items_of_def empty_work_def)
  then have "map sn_Server (map (\<lambda>i. fleet_item env dispatched ?w i (records ! i)) [0..<length records]) = map publicServerRecord records"
    by (intro nth_equalityI) (simp_all add: fleet_item_server)
  moreover have "fetchFleetSnapshot env dispatched order records kept = (pruneNodeSnapshots records (fw_last ?w),
      map (\<lambda>i. fleet_item env dispatched ?w i (records ! i)) [0..<length records])"
    using False by (simp add: fetchFleetSnapshot_def Let_def)
  ultimately show ?thesis using b c [of snapshot_records] c [of snapshot_processes] c [of snapshot_bytes]
    by (simp only: Let_def budget_ok_def snd_conv) (blast intro: order.trans)
qed

text \<open>
  What a snapshot holds, laid out row by row: the GPUs and the processes on them, the keys,
  reservations, authorizations, claims, leases and bypass rules, the rows of the process list, and
  each word of a command. \<open>row_text\<close> is the text of a row that the limit on the size is meant for; not in
  it are the vendor, model and UUID of a GPU, the reservation and claim shown with it, the session of
  a reservation, the run name of an authorization, the runtime of a claim and the boot of a bypass rule.
\<close>

datatype fleet_row = RowGPU GPUSnapshot | RowProcess GPUProcess | RowToken TokenView | RowReservation ReservationView
  | RowAuthorization AuthorizationView | RowClaim SoftClaimView | RowLease Lease | RowBypass BypassRule | RowPS PSRow | RowWord string

definition fleet_rows :: "NodeSnapshot \<Rightarrow> fleet_row list" where
  "fleet_rows n = map RowGPU (ns_GPUs n) @ map RowProcess (concat (map gs_Processes (ns_GPUs n))) @ map RowToken (ns_Tokens n) @
     map RowReservation (ns_Reservations n) @ map RowAuthorization (ns_Authorizations n) @ map RowClaim (ns_SoftClaims n) @
     map RowLease (ns_Leases n) @ map RowBypass (ns_Bypasses n) @ map RowPS (ns_PS n) @
     map RowWord (concat (map av_Command (ns_Authorizations n)) @ concat (map ls_Command (ns_Leases n)))"

fun row_text :: "fleet_row \<Rightarrow> string" where
  "row_text (RowGPU g) = gs_State g"
| "row_text (RowProcess p) = gp_Name p"
| "row_text (RowToken t) = tv_ID t @ tv_Key t @ tv_KeyStatus t @ tv_Name t @ tv_Mode t"
| "row_text (RowReservation r) = rv_ID r @ rv_GroupID r @ rv_Holder r @ rv_Purpose r"
| "row_text (RowAuthorization a) = av_ID a @ av_TokenID a @ av_Mode a @ av_TokenMode a @ av_Holder a @ av_Username a @
     av_ContainerID a @ av_ContainerPattern a @ av_Namespace a"
| "row_text (RowClaim c) = cv_ID c @ cv_AuthorizationID c @ cv_Holder c"
| "row_text (RowLease l) = ls_ID l @ ls_Mode l @ ls_TokenHash l @ ls_Holder l @ ls_CgroupPath l @ ls_CgroupRel l @
     ls_ContainerID l @ ls_Namespace l"
| "row_text (RowBypass b) = br_ID b @ br_Type b @ br_Command b @ br_Reason b"
| "row_text (RowPS p) = pr_ID p @ pr_GPU p @ pr_User p @ pr_Command p"
| "row_text (RowWord w) = w"

fun is_process_row :: "fleet_row \<Rightarrow> bool" where
  "is_process_row (RowProcess _) = True"
| "is_process_row _ = False"

definition retained :: "serverSnapshot list \<Rightarrow> NodeSnapshot list" where
  "retained fleet = List.map_filter sn_Snapshot fleet"

lemma snapshot_records_rows: "snapshot_records n = length (fleet_rows n)"
  by (simp add: snapshot_records_def snapshot_processes_def fleet_rows_def length_concat comp_def)

lemma filter_process_rows:
  "filter is_process_row (fleet_rows n) = map RowProcess (concat (map gs_Processes (ns_GPUs n)))"
  by (simp add: fleet_rows_def filter_map comp_def)

lemma snapshot_processes_rows: "snapshot_processes n = length (filter is_process_row (fleet_rows n))"
  by (simp add: filter_process_rows snapshot_processes_def length_concat comp_def)

lemma sum_list_concat_map: "sum_list (map (\<lambda>x. sum_list (map f (g x))) xs) = sum_list (map f (concat (map g xs)))"
  for f :: "'b \<Rightarrow> nat"
  by (induction xs) simp_all

lemma snapshot_bytes_rows:
  "snapshot_bytes n = 1024 + 512 * length (fleet_rows n) + length (ns_Hostname n) + length (concat (map row_text (fleet_rows n)))"
  unfolding snapshot_bytes_def snapshot_records_rows
  by (simp add: fleet_rows_def length_concat comp_def sizes_def sum_list_addf sum_list_concat_map [symmetric])

lemma item_cost_retained: "sum_list (map (item_cost f) fleet) = sum_list (map f (retained fleet))"
  by (induction fleet) (simp_all add: item_cost_def retained_def map_filter_simps split: option.split)

text \<open>
  The estimate does not see the text it leaves out: however long the UUID of a GPU, the cost is the same.
\<close>

lemma uncounted_gpu_text:
  "ns_GPUs n' = map (\<lambda>g. g\<lparr>gs_Vendor := v, gs_Model := m, gs_UUID := u\<rparr>) (ns_GPUs n) \<Longrightarrow>
     n' = n\<lparr>ns_GPUs := ns_GPUs n'\<rparr> \<Longrightarrow> nodeSnapshotCost n' = nodeSnapshotCost n"
proof -
  assume g: "ns_GPUs n' = map (\<lambda>g. g\<lparr>gs_Vendor := v, gs_Model := m, gs_UUID := u\<rparr>) (ns_GPUs n)"
    and n: "n' = n\<lparr>ns_GPUs := ns_GPUs n'\<rparr>"
  have "snapshot_records n' = snapshot_records n \<and> snapshot_processes n' = snapshot_processes n \<and> snapshot_bytes n' = snapshot_bytes n"
    by (subst (1 2 3) n) (simp add: snapshot_records_def snapshot_processes_def snapshot_bytes_def g comp_def)
  then show ?thesis by (simp add: nodeSnapshotCost_def)
qed

text \<open>
  C32: Whatever the nodes answer and in whatever order they do, a fetch of the fleet retains together
  at most 32768 rows and 8192 processes; 512 bytes for every row and 1024 for every node, with the names
  of the nodes and the counted text of the rows, make at most 32 MiB; and there is one entry for every node
  of the registry, with its identity.
\<close>

theorem fleet_within_budget:
  "let fleet = snd (fetchFleetSnapshot env dispatched order records kept);
       rows = concat (map fleet_rows (retained fleet)) in
   length rows \<le> 32768 \<and> length (filter is_process_row rows) \<le> 8192 \<and>
   1024 * length (retained fleet) + 512 * length rows + length (concat (map ns_Hostname (retained fleet))) +
     length (concat (map row_text rows)) \<le> 32 * 1024 * 1024 \<and>
   map sn_Server fleet = map publicServerRecord records"
proof -
  let ?fleet = "snd (fetchFleetSnapshot env dispatched order records kept)"
  let ?rows = "concat (map fleet_rows (retained ?fleet))"
  have "length ?rows = sum_list (map (item_cost snapshot_records) ?fleet)"
    by (simp add: item_cost_retained snapshot_records_rows [abs_def] length_concat comp_def)
  moreover have "length (filter is_process_row ?rows) = sum_list (map (item_cost snapshot_processes) ?fleet)"
    by (simp add: item_cost_retained snapshot_processes_rows [abs_def] filter_concat length_concat comp_def)
  moreover have "1024 * length (retained ?fleet) + 512 * length ?rows + length (concat (map ns_Hostname (retained ?fleet))) +
     length (concat (map row_text ?rows)) = sum_list (map (item_cost snapshot_bytes) ?fleet)"
    by (simp add: item_cost_retained snapshot_bytes_rows [abs_def] length_concat map_concat comp_def sum_list_addf
        sum_list_const_mult sum_list_triv sum_list_concat_map)
  ultimately show ?thesis
    using fleet_costs [of env dispatched order records kept]
    by (simp only: Let_def maxFleetSnapshotRecords_def maxFleetSnapshotProcesses_def maxFleetSnapshotRetainedSize_def)
      simp
qed

section \<open>Reads after a change\<close>

datatype 'f fleet_event = EvRead time duration | EvRefreshed time "web_error + 'f" | EvClear

definition fleet_step :: "'f fleet_event \<Rightarrow> 'f FleetCache \<Rightarrow> 'f FleetCache" where
  "fleet_step e st = (case e of EvRead now ttl \<Rightarrow> fst (cachedFleetSnapshot now ttl st)
     | EvRefreshed now result \<Rightarrow> refreshFleetSnapshot now result st
     | EvClear \<Rightarrow> clearFleetCache st)"

definition delivers :: "('f \<Rightarrow> bool) \<Rightarrow> 'f fleet_event \<Rightarrow> bool" where
  "delivers fresh e = (case e of EvRefreshed now (Inr f) \<Rightarrow> fresh f | _ \<Rightarrow> True)"

definition holds_fresh :: "('f \<Rightarrow> bool) \<Rightarrow> 'f FleetCache \<Rightarrow> bool" where
  "holds_fresh fresh st \<longleftrightarrow> (fl_ok st \<longrightarrow> fresh (fl_cache st))"

lemma fleet_step_fresh: "holds_fresh fresh st \<Longrightarrow> delivers fresh e \<Longrightarrow> holds_fresh fresh (fleet_step e st)"
  by (auto simp: holds_fresh_def fleet_step_def cachedFleetSnapshot_def refreshFleetSnapshot_def clearFleetCache_def delivers_def Let_def
      split: fleet_event.splits option.splits sum.splits)

lemma fleet_run_fresh: "holds_fresh fresh st \<Longrightarrow> list_all (delivers fresh) es \<Longrightarrow> holds_fresh fresh (fold fleet_step es st)"
  by (induction es arbitrary: st) (auto intro: fleet_step_fresh)

lemma read_fresh:
  assumes "holds_fresh fresh s" "cachedFleetSnapshot now ttl s = (s', r)" "fleet_answer woken result r = Some (Inr f)"
    "case result of Inr g \<Rightarrow> fresh g | Inl _ \<Rightarrow> True"
  shows "fresh f"
  using assms
  by (cases woken; cases result)
    (auto simp: holds_fresh_def cachedFleetSnapshot_def fleet_answer_def Let_def split: if_splits option.splits)

text \<open>
  After an invalidation, a read is answered only from what refreshes delivered since then, however
  reads, refreshes and further invalidations interleave: when those are fresh, so is the answer.
\<close>

theorem fleet_read_after_change:
  assumes "list_all (delivers fresh) es" "cachedFleetSnapshot now ttl (fold fleet_step es (clearFleetCache st)) = (st', r)"
    and "fleet_answer woken result r = Some (Inr f)" "case result of Inr g \<Rightarrow> fresh g | Inl _ \<Rightarrow> True"
  shows "fresh f"
proof -
  have "holds_fresh fresh (clearFleetCache st)" by (simp add: holds_fresh_def clearFleetCache_def)
  from read_fresh [OF fleet_run_fresh [OF this assms(1)] assms(2-4)] show ?thesis .
qed

theorem fleet_read_after_change_witness:
  "let st = \<lparr>fl_cache = 1 :: nat, fl_at = 0, fl_ok = True, fl_refresh = None, fl_next = 0, fl_done = []\<rparr>;
       st' = fold fleet_step [EvRead 5 second, EvRefreshed 6 (Inr 2)] (clearFleetCache st) in
   (\<exists>f. fleet_answer RefreshDone (Inl (WErr ''offline'')) (snd (cachedFleetSnapshot (second + 100) second st')) = Some (Inr f) \<and> f \<ge> 2)"
proof -
  let ?st = "\<lparr>fl_cache = 1 :: nat, fl_at = 0, fl_ok = True, fl_refresh = None, fl_next = 0, fl_done = []\<rparr>"
  let ?es = "[EvRead 5 second, EvRefreshed 6 (Inr (2 :: nat))]"
  have a: "fleet_answer RefreshDone (Inl (WErr ''offline'')) (snd (cachedFleetSnapshot (second + 100) second (fold fleet_step ?es (clearFleetCache ?st)))) =
      Some (Inr 2)" by code_simp
  have "list_all (delivers (\<lambda>v. v \<ge> 2)) ?es" by (simp add: delivers_def)
  from fleet_read_after_change [OF this prod.collapse [symmetric] a] have "(2 :: nat) \<ge> 2" by simp
  with a show ?thesis by (auto simp: Let_def)
qed

text \<open>
  The refresh in flight at the invalidation is among those: it fetched the nodes before the change, yet
  its outcome is stored as current, and every read of the next period is answered with it. The
  invalidation does not force the next read to query the nodes, as its comment says.
\<close>

theorem inflight_refresh_hides_change:
  assumes "fl_refresh st = Some c" "time_Sub now at < ttl"
  shows "\<exists>st'. cachedFleetSnapshot now ttl (refreshFleetSnapshot at (Inr before) (clearFleetCache st)) = (st', Hit before)"
  using assms by (simp add: clearFleetCache_def refreshFleetSnapshot_def cachedFleetSnapshot_def Let_def)

theorem inflight_refresh_hides_change_witness:
  "\<exists>st'. cachedFleetSnapshot (second + 5) second (refreshFleetSnapshot 10 (Inr ''before'') (clearFleetCache
      \<lparr>fl_cache = ''older'', fl_at = 0, fl_ok = True, fl_refresh = Some 0, fl_next = 1, fl_done = []\<rparr>)) = (st', Hit ''before'')"
proof (rule inflight_refresh_hides_change [of _ 0])
  show "time_Sub (second + 5) 10 < second" by code_simp
qed simp

end
