(* ===== verification/Web_Examples.thy ===== *)
theory Web_Examples
  imports Web_Actions Web_Fleet
begin

text \<open>Concrete requests at the gateway, on which the theorems about access control are applied.\<close>

definition ada_session :: sessionInfo where
  "ada_session = \<lparr>si_User = ''ada'', si_Role = RoleUser, si_AuthMethod = ''access_token'', si_TokenID = ''at_1'',
     si_Scopes = [''keys:rotate'', ''resources:revoke'']\<rparr>"

lemma ada_session_simps [simp]:
  "si_User ada_session = ''ada''" "si_Role ada_session = RoleUser" "si_AuthMethod ada_session = ''access_token''"
  "si_Scopes ada_session = [''keys:rotate'', ''resources:revoke'']"
  by (simp_all add: ada_session_def)

theorem keys_confined_witness:
  "\<exists>s' key. handleKeys (example_web_env 11) ada_session ''POST'' ''/Ada/regenerate'' keyed_users = (s', True, KeyShown key) \<and>
     fk_Owner key = ''ada'' \<and> ''keys:rotate'' \<in> set (si_Scopes ada_session)"
proof -
  from regenerate_ada obtain s1 key where r: "RegenerateFixedKey (example_web_env 11) ''Ada'' keyed_users = (s1, Inr key)" by blast
  have t: "trim_path ''/Ada/regenerate'' = ''Ada/regenerate''" "Split slash ''Ada/regenerate'' = [''Ada'', ''regenerate'']" by code_simp+
  have o: "sameOwner ''Ada'' ''ada''" by code_simp
  have h: "handleKeys (example_web_env 11) ada_session ''POST'' ''/Ada/regenerate'' keyed_users = (s1, True, KeyShown key)"
    by (simp add: handleKeys_def Let_def t r o requireAccessTokenScope_def del: Split.simps)
  have "normalizeUsername ''ada'' = Inr ''ada''" by code_simp
  with keys_confined [OF h] have "fk_Owner key = ''ada''" by simp
  moreover have "''keys:rotate'' \<in> set (si_Scopes ada_session)" by simp
  ultimately show ?thesis using h by blast
qed

section \<open>The fleet\<close>

definition example_token :: "string \<Rightarrow> string \<Rightarrow> TokenView" where
  "example_token ident name = \<lparr>tv_ID = ident, tv_Key = [], tv_KeyStatus = ''managed'', tv_Name = name, tv_Mode = ''user'', tv_Version = 1,
     tv_Managed = True, tv_CreatedAt = 1, tv_ExpiresAt = None, tv_Revoked = False\<rparr>"

definition example_snapshot :: NodeSnapshot where
  "example_snapshot = \<lparr>ns_Now = 1, ns_Hostname = ''n'', ns_DryRun = False, ns_GPUs = [],
     ns_Tokens = [example_token ''uk_1'' ''Ada'', example_token ''uk_2'' ''bob''],
     ns_Reservations = [], ns_Authorizations = [], ns_SoftClaims = [], ns_Leases = [], ns_Bypasses = [],
     ns_PS = [\<lparr>pr_ID = ''1'', pr_GPU = ''0'', pr_User = ''bob'', pr_Command = ''train''\<rparr>]\<rparr>"

definition example_fleet :: "serverSnapshot list" where
  "example_fleet = [(plain_item example_server [])\<lparr>sn_Online := True, sn_Snapshot := Some example_snapshot\<rparr>]"

theorem fleet_view_confined_witness:
  "\<exists>n. sn_Snapshot (filterFleetSnapshot example_fleet ada_session ! 0) = Some n \<and> ns_PS n = [] \<and>
     set (ns_Tokens n) = {example_token ''uk_1'' ''Ada''}"
proof -
  have "0 < length example_fleet" "sn_Snapshot (example_fleet ! 0) = Some example_snapshot" by (simp_all add: example_fleet_def)
  from fleet_view_confined [OF _ this, of ada_session] obtain n where n:
    "sn_Snapshot (filterFleetSnapshot example_fleet ada_session ! 0) = Some n" "ns_PS n = []"
    "set (ns_Tokens n) = {t \<in> set (ns_Tokens example_snapshot). sameOwner (tv_Name t) (si_User ada_session)}" by auto
  have "sameOwner ''Ada'' ''ada''" "\<not> sameOwner ''bob'' ''ada''" by code_simp+
  then have "{t \<in> set (ns_Tokens example_snapshot). sameOwner (tv_Name t) (si_User ada_session)} = {example_token ''uk_1'' ''Ada''}"
    by (auto simp: example_snapshot_def example_token_def)
  with n show ?thesis by auto
qed

section \<open>A revocation\<close>

definition example_actions :: "unit ActionEnv" where
  "example_actions = \<lparr>ac_sync = example_sync_env,
     ac_reg = \<lparr>re_web = example_web_env 12, re_ParseURL = example_node_url, re_Marshal = (\<lambda>_. Inr []), re_Unmarshal = (\<lambda>_. Inr [])\<rparr>,
     ac_history = False, ac_Health = (\<lambda>_. None), ac_Info = Inl (WErr ''offline''), ac_SyncKeys = (\<lambda>_ n. (n, Inl (WErr ''offline''))),
     ac_ShowKeys = (\<lambda>_. Inr \<lparr>ks_Now = 1, ks_Tokens = [example_token ''uk_1'' ''Ada'', example_token ''uk_2'' ''bob''], ks_Reservations = [],
       ks_Authorizations = [], ks_Bypasses = []\<rparr>),
     ac_Reserve = (\<lambda>_ n. (n, Inl (WErr ''offline''))), ac_Allow = (\<lambda>_ n. (n, Inl (WErr ''offline''))),
     ac_Revoke = (\<lambda>_ n. (n, Inr ''revoked'')), ac_Prepare = None, ac_session_hex = ''00''\<rparr>"

definition example_action_state :: "unit ActionState" where
  "example_action_state = \<lparr>as_users = example_users, as_registry = example_registry, as_cache = None, as_states = (\<lambda>_. None),
     as_node = (), as_calls = []\<rparr>"

definition revoke_request :: "string \<Rightarrow> action_request" where
  "revoke_request ident = \<lparr>rq_verb = ''POST'', rq_path = ''/api/servers/srv_1/revoke'', rq_archive = Inl ErrCanceled, rq_rename = Inl ErrCanceled,
     rq_register = Inl ErrCanceled, rq_id = Inr ident, rq_allow = Inl ErrCanceled, rq_add = Inl ErrCanceled\<rparr>"

theorem node_actions_confined_witness:
  "as_calls (fst (handleServerAction example_actions ada_session (revoke_request ''uk_1'') example_action_state)) =
     [CallRevoke () ''uk_1'', CallClearCache] \<and>
   call_permitted example_actions ada_session (CallRevoke () ''uk_1'') \<and>
   as_calls (fst (handleServerAction example_actions ada_session (revoke_request ''uk_2'') example_action_state)) = []"
proof -
  have a: "as_calls (fst (handleServerAction example_actions ada_session (revoke_request ''uk_1'') example_action_state)) =
     [CallRevoke () ''uk_1'', CallClearCache]" by code_simp
  have b: "as_calls (fst (handleServerAction example_actions ada_session (revoke_request ''uk_2'') example_action_state)) = []" by code_simp
  from node_actions_confined [OF prod.collapse [symmetric], of ada_session example_actions "revoke_request ''uk_1''" example_action_state] a
  have "call_permitted example_actions ada_session (CallRevoke () ''uk_1'')" by (auto simp: example_action_state_def)
  with a b show ?thesis by simp
qed

end
