(* ===== verification/Node_Examples.thy ===== *)
theory Node_Examples
  imports Node_HTTP Daemon_Examples Web_Examples
begin

text \<open>Concrete requests at a node, on which the theorems about its HTTP interface are applied.\<close>

theorem node_needs_root_key_witness:
  "root_key_on_file (fst (ReadOrCreateRootKey example_env example_store)) example_root_key \<and>
   (\<exists>n' status e. nodeAuth example_env ''Bearer guess'' (\<lambda>_ n. (n, HttpOk 200 ())) (example_node example_store) =
        (n', HttpFail status e) \<and> status \<in> {401, 500} \<and> same_data example_store (nd_store n'))"
proof
  let ?ok = "\<lambda>_ n. (n, HttpOk 200 ())"
  let ?auth = "''Bearer '' @ example_root_key"
  have "case snd (nodeAuth example_env ?auth ?ok (example_node example_store)) of HttpOk _ _ \<Rightarrow> True | HttpFail _ _ \<Rightarrow> False"
    by code_simp
  moreover obtain n' r where r: "nodeAuth example_env ?auth ?ok (example_node example_store) = (n', r)" by fastforce
  ultimately have ok: "\<not> (\<exists>status e. r = HttpFail status e \<and> status \<in> {401, 500})" by (auto split: http_reply.splits)
  have key: "TrimSpace (drop 7 (TrimSpace ?auth)) = example_root_key" by code_simp
  from node_needs_root_key [OF r] ok
  show "root_key_on_file (fst (ReadOrCreateRootKey example_env example_store)) example_root_key"
    unfolding key by auto
next
  let ?ok = "\<lambda>_ n. (n, HttpOk 200 ())"
  obtain n' r where r: "nodeAuth example_env ''Bearer guess'' ?ok (example_node example_store) = (n', r)" by fastforce
  have "case snd (nodeAuth example_env ''Bearer guess'' ?ok (example_node example_store)) of HttpOk _ _ \<Rightarrow> False | HttpFail _ _ \<Rightarrow> True"
    by code_simp
  with node_needs_root_key [OF r] r
  show "\<exists>n' status e. nodeAuth example_env ''Bearer guess'' ?ok (example_node example_store) =
        (n', HttpFail status e) \<and> status \<in> {401, 500} \<and> same_data example_store (nd_store n')"
    by auto
qed

section \<open>An authorization through the gateway\<close>

definition carol_key :: string where "carol_key = ''tok_0606060606060606''"

definition carol_session :: sessionInfo where
  "carol_session = \<lparr>si_User = ''carol'', si_Role = RoleUser, si_AuthMethod = ''browser'', si_TokenID = [], si_Scopes = []\<rparr>"

definition carol_state :: "unit ActionState" where
  "carol_state = example_action_state\<lparr>as_users := example_users\<lparr>us_users := [(example_user ''carol'' RoleUser)\<lparr>u_KeyID := carol_key\<rparr>]\<rparr>\<rparr>"

definition carol_actions :: "unit ActionEnv" where
  "carol_actions = example_actions\<lparr>ac_Info := Inr Web_Sync.example_info,
     ac_SyncKeys := (\<lambda>snapshot n. (n, Inr \<lparr>mr_SnapshotID = ms_SnapshotID snapshot, mr_Applied = 1, mr_Managed = True\<rparr>)),
     ac_ShowKeys := (\<lambda>_. Inr \<lparr>ks_Now = 1, ks_Tokens = [example_token carol_key ''Carol''], ks_Reservations = [], ks_Authorizations = [], ks_Bypasses = []\<rparr>),
     ac_Allow := (\<lambda>_ n. (n, Inr ''allowed''))\<rparr>"

definition carol_args :: AllowArgs where
  "carol_args = \<lparr>al_ID = carol_key, al_UserKeyID = carol_key, al_Mode = ''user'', al_Container = [], al_Namespace = [], al_User = ''carol'', al_RunName = []\<rparr>"

definition carol_request :: action_request where
  "carol_request = (revoke_request [])\<lparr>rq_path := ''/api/servers/srv_1/allow'', rq_allow := Inr (carol_args\<lparr>al_ID := [], al_UserKeyID := []\<rparr>)\<rparr>"

lemma carol_calls:
  "as_calls (fst (handleServerAction carol_actions carol_session carol_request carol_state)) = [CallAllow () carol_args, CallClearCache]"
  by code_simp

lemma carol_allowed:
  "case snd (handleNodeAllow (example_world 1500) (example_world 1500) ''POST'' (Inr carol_args) example_root_key example_claimed_node) of
     HttpOk status au \<Rightarrow> status = 201 \<and> au_Username au = ''carol'' | HttpFail _ _ \<Rightarrow> False"
  by code_simp

theorem gateway_scopes_confined_witness:
  "\<exists>n' au. handleNodeAllow (example_world 1500) (example_world 1500) ''POST'' (Inr carol_args) example_root_key example_claimed_node =
      (n', HttpOk 201 au) \<and> au_Username au = ''carol'' \<and> \<not> hasWildcard (au_Namespace au) \<and> \<not> hasWildcard (au_Username au)"
proof -
  obtain n' r where r: "handleNodeAllow (example_world 1500) (example_world 1500) ''POST'' (Inr carol_args) example_root_key example_claimed_node = (n', r)"
    by fastforce
  with carol_allowed obtain au where a: "r = HttpOk 201 au" "au_Username au = ''carol''" by (cases r) auto
  have c: "si_Role carol_session \<noteq> RoleAdmin" "as_calls carol_state = []"
    by (simp_all add: carol_session_def carol_state_def example_action_state_def)
  have "CallAllow () carol_args \<in> set (as_calls (fst (handleServerAction carol_actions carol_session carol_request carol_state)))"
    by (simp add: carol_calls)
  from gateway_scopes_confined [OF prod.collapse [symmetric] c this r [unfolded a(1)]]
  have "\<not> hasWildcard (au_Namespace au) \<and> \<not> hasWildcard (au_Username au)" .
  with r a show ?thesis by blast
qed

end
