(* ===== verification/Runtime_Lookup.thy ===== *)
theory Runtime_Lookup
  imports Proc_Reader
begin

text \<open>
  The container runtime (\<open>internal/runtime/runtime.go\<close>): the answers of \<open>docker\<close>, \<open>crictl\<close> and
  \<open>kubectl\<close> on a container. A command is given by what it writes and how it ends; the decoding of
  JSON is a parameter with the decoded value as a datatype. What the daemon does with a container
  that is absent is to treat its processes as not covered, so the theorem at the end says when a
  container counts as absent.
\<close>

section \<open>Errors\<close>

datatype exec_error = ExecMissing | ExecFailed string

datatype rt_error =
    RtNotFound string
  | RtCommand string exec_error string bool
  | RtMsg string
  | RtJoin "rt_error list"
  | RtContext

text \<open>\<open>errors.Is\<close> for the two sentinels, through joined errors.\<close>

fun is_absent :: "rt_error \<Rightarrow> bool" where
  "is_absent (RtNotFound _) = True"
| "is_absent (RtJoin es) = list_ex is_absent es"
| "is_absent _ = False"

fun is_missing :: "rt_error \<Rightarrow> bool" where
  "is_missing (RtCommand _ e _ _) \<longleftrightarrow> e = ExecMissing"
| "is_missing (RtJoin es) = list_ex is_missing es"
| "is_missing _ = False"

section \<open>Commands\<close>

record boundedOutput =
  bo_data :: string
  bo_limit :: int
  bo_exceeded :: bool

definition bounded_Write :: "string \<Rightarrow> boundedOutput \<Rightarrow> boundedOutput" where
  "bounded_Write data b =
     (let remaining = bo_limit b - int (length (bo_data b));
          b = (if remaining > 0 then b\<lparr>bo_data := bo_data b @ take (nat remaining) data\<rparr> else b) in
      if int (length data) > remaining then b\<lparr>bo_exceeded := True\<rparr> else b)"

definition maxRuntimeOutputBytes :: int where "maxRuntimeOutputBytes = 67108864"
definition maxRuntimeErrorBytes :: int where "maxRuntimeErrorBytes = 65536"

record CommandRun =
  run_stdout :: "string list"
  run_stderr :: "string list"
  run_err :: "exec_error option"

definition collect_output :: "int \<Rightarrow> string list \<Rightarrow> boundedOutput" where
  "collect_output limit chunks = fold bounded_Write chunks \<lparr>bo_data = [], bo_limit = limit, bo_exceeded = False\<rparr>"

definition limitedCommandOutput :: "string \<Rightarrow> CommandRun \<Rightarrow> rt_error + string" where
  "limitedCommandOutput name r =
     (let output = collect_output maxRuntimeOutputBytes (run_stdout r);
          errorOutput = collect_output maxRuntimeErrorBytes (run_stderr r) in
      case run_err r of
        Some e \<Rightarrow> Inl (RtCommand name e (bo_data errorOutput) (bo_exceeded errorOutput))
      | None \<Rightarrow> if bo_exceeded output then Inl (RtMsg (name @ '' output exceeds 67108864 bytes'')) else Inr (bo_data output))"

definition has_text :: "string \<Rightarrow> string \<Rightarrow> bool" where
  "has_text s sub \<longleftrightarrow> list_ex (prefix sub) (suffixes s)"

fun commandReportsNotFound :: "rt_error \<Rightarrow> bool" where
  "commandReportsNotFound (RtCommand name e stderr exceeded) \<longleftrightarrow> \<not> exceeded \<and>
     (let stderr = ToLower stderr in
      if name = ''docker'' then has_text stderr ''no such object'' \<or> has_text stderr ''no such container''
      else if name = ''crictl'' then has_text stderr ''code = notfound''
      else False)"
| "commandReportsNotFound _ = False"

section \<open>Docker\<close>

text \<open>The commands by their arguments, and the decoders of their output.\<close>

datatype json = JObject "(string \<times> json) list" | JString string | JOther

record KubeContainerStatus =
  ks_Name :: string
  ks_ContainerID :: string

record kubePod =
  kp_namespace :: string
  kp_name :: string
  kp_containerStatuses :: "KubeContainerStatus list"
  kp_initContainerStatuses :: "KubeContainerStatus list"

record CliEnv =
  cli_run :: "string list \<Rightarrow> CommandRun"
  cli_json :: "string \<Rightarrow> string + json"
  cli_pods :: "string \<Rightarrow> string + kubePod list"

definition command :: "CliEnv \<Rightarrow> string list \<Rightarrow> rt_error + string" where
  "command env argv = limitedCommandOutput (hd argv) (cli_run env argv)"

definition trim_slash :: "string \<Rightarrow> string" where
  "trim_slash s = (if prefix [slash] s then drop 1 s else s)"

definition docker_inspect :: "CliEnv \<Rightarrow> string \<Rightarrow> string \<Rightarrow> rt_error + string" where
  "docker_inspect env format name = (case command env [''docker'', ''inspect'', ''--format'', format, name] of
     Inl e \<Rightarrow> Inl (if commandReportsNotFound e then RtNotFound ''docker container'' else e)
   | Inr out \<Rightarrow> Inr (TrimSpace out))"

definition cli_ResolveDockerContainer :: "CliEnv \<Rightarrow> string \<Rightarrow> rt_error + string" where
  "cli_ResolveDockerContainer env nameOrID =
     (if TrimSpace nameOrID = [] then Inl (RtMsg ''container name/id is required'')
      else case docker_inspect env ''{{.Id}}'' (TrimSpace nameOrID) of Inl e \<Rightarrow> Inl e
      | Inr ident \<Rightarrow> if ident = [] then Inl (RtMsg ''docker inspect returned empty container id'') else Inr (ToLower ident))"

definition cli_DockerContainerName :: "CliEnv \<Rightarrow> string \<Rightarrow> rt_error + string" where
  "cli_DockerContainerName env containerID =
     (if TrimSpace containerID = [] then Inl (RtMsg ''container id is empty'')
      else case docker_inspect env ''{{.Name}}'' (TrimSpace containerID) of Inl e \<Rightarrow> Inl e
      | Inr out \<Rightarrow> let name = trim_slash out in
          if name = [] then Inl (RtMsg ''docker inspect returned empty container name'') else Inr name)"

definition tab_char :: char where "tab_char = char_of (9 :: nat)"

definition cut :: "char \<Rightarrow> string \<Rightarrow> string \<times> string" where
  "cut c s = (takeWhile (\<lambda>x. x \<noteq> c) s, drop 1 (dropWhile (\<lambda>x. x \<noteq> c) s))"

definition container_names :: "string \<Rightarrow> string list" where
  "container_names names = filter (\<lambda>n. n \<noteq> []) (map (\<lambda>n. trim_slash (TrimSpace n)) (Split (CHR '','') names))"

fun parse_container_lines :: "string list \<Rightarrow> rt_error + (string \<times> string list) list" where
  "parse_container_lines [] = Inr []"
| "parse_container_lines (line # rest) =
     (if TrimSpace line = [] then parse_container_lines rest
      else let (ident, names) = cut tab_char line; ident = ToLower (TrimSpace ident) in
        if ident = [] then Inl (RtMsg ''docker ps returned a container without an id'')
        else case parse_container_lines rest of Inl e \<Rightarrow> Inl e | Inr cs \<Rightarrow> Inr ((ident, container_names names) # cs))"

definition parseDockerContainers :: "string \<Rightarrow> rt_error + (string \<times> string list) list" where
  "parseDockerContainers out = parse_container_lines (Split newline_char out)"

definition cli_DockerContainers :: "CliEnv \<Rightarrow> rt_error + (string \<times> string list) list" where
  "cli_DockerContainers env =
     (case command env [''docker'', ''ps'', ''--all'', ''--no-trunc'', ''--format'', ''{{.ID}}'' @ [tab_char] @ ''{{.Names}}''] of
        Inl e \<Rightarrow> Inl e | Inr out \<Rightarrow> parseDockerContainers out)"

section \<open>Kubernetes\<close>

record KubernetesWorkload =
  kw_Namespace :: string
  kw_PodName :: string
  kw_ContainerName :: string

definition zero_workload :: KubernetesWorkload where
  "zero_workload = \<lparr>kw_Namespace = [], kw_PodName = [], kw_ContainerName = []\<rparr>"

definition trustedMetadataValue :: "(string \<times> json) list \<Rightarrow> string \<Rightarrow> string" where
  "trustedMetadataValue metadata key = (case map_of metadata key of Some (JString v) \<Rightarrow> TrimSpace v | _ \<Rightarrow> [])"

definition fill_workload :: "(string \<times> json) list \<Rightarrow> KubernetesWorkload \<Rightarrow> KubernetesWorkload" where
  "fill_workload m w =
     \<lparr>kw_Namespace = (if kw_Namespace w = [] then trustedMetadataValue m ''io.kubernetes.pod.namespace'' else kw_Namespace w),
      kw_PodName = (if kw_PodName w = [] then trustedMetadataValue m ''io.kubernetes.pod.name'' else kw_PodName w),
      kw_ContainerName = (if kw_ContainerName w = [] then trustedMetadataValue m ''io.kubernetes.container.name'' else kw_ContainerName w)\<rparr>"

definition findKubernetesWorkload :: "json \<Rightarrow> KubernetesWorkload" where
  "findKubernetesWorkload value = (case value of
     JObject root \<Rightarrow> (case map_of root ''status'' of
       Some (JObject status) \<Rightarrow>
         let w = fold (\<lambda>field w. case map_of status field of Some (JObject m) \<Rightarrow> fill_workload m w | _ \<Rightarrow> w)
               [''labels'', ''annotations''] zero_workload in
         if kw_ContainerName w = [] then
           (case map_of status ''metadata'' of
              Some (JObject m) \<Rightarrow> w\<lparr>kw_ContainerName := trustedMetadataValue m ''name''\<rparr> | _ \<Rightarrow> w)
         else w
     | _ \<Rightarrow> zero_workload)
   | _ \<Rightarrow> zero_workload)"

definition workloadFromCRICTL :: "CliEnv \<Rightarrow> string \<Rightarrow> rt_error + KubernetesWorkload" where
  "workloadFromCRICTL env containerID = (case command env [''crictl'', ''inspect'', containerID] of
     Inl e \<Rightarrow> Inl (if commandReportsNotFound e then RtNotFound ''CRI container'' else e)
   | Inr out \<Rightarrow> (case cli_json env out of Inl e \<Rightarrow> Inl (RtMsg e)
     | Inr raw \<Rightarrow> let w = findKubernetesWorkload raw in
         if kw_Namespace w = [] then Inl (RtMsg ''namespace not found in crictl inspect'') else Inr w))"

text \<open>The text after the last occurrence of a separator.\<close>

fun after_last :: "string \<Rightarrow> string \<Rightarrow> string option" where
  "after_last sep [] = None"
| "after_last sep (x # xs) = (case after_last sep xs of Some r \<Rightarrow> Some r
     | None \<Rightarrow> if prefix sep (x # xs) then Some (drop (length sep) (x # xs)) else None)"

definition extractID :: "string \<Rightarrow> string" where
  "extractID value = ToLower (TrimSpace (case after_last ''://'' value of Some r \<Rightarrow> r | None \<Rightarrow> value))"

definition shortID :: "string \<Rightarrow> string" where "shortID ident = take 12 ident"

definition status_matches :: "string \<Rightarrow> string \<Rightarrow> KubeContainerStatus \<Rightarrow> bool" where
  "status_matches full short status =
     (let ident = extractID (ks_ContainerID status) in ident \<noteq> [] \<and>
       (ident = full \<or> ident = short \<or> (12 \<le> length ident \<and> prefix ident full) \<or> (12 \<le> length short \<and> prefix short ident)))"

definition matchingContainerName :: "KubeContainerStatus list \<Rightarrow> string \<Rightarrow> string \<Rightarrow> string option" where
  "matchingContainerName statuses full short =
     map_option (\<lambda>status. TrimSpace (ks_Name status)) (find (status_matches full short) statuses)"

fun findPodWorkload :: "kubePod list \<Rightarrow> string \<Rightarrow> rt_error + KubernetesWorkload" where
  "findPodWorkload [] containerID = Inl (RtNotFound ''kubernetes container'')"
| "findPodWorkload (pod # pods) containerID =
     (case matchingContainerName (kp_containerStatuses pod) containerID (shortID containerID) of
        Some name \<Rightarrow> Inr \<lparr>kw_Namespace = kp_namespace pod, kw_PodName = kp_name pod, kw_ContainerName = name\<rparr>
      | None \<Rightarrow> (case matchingContainerName (kp_initContainerStatuses pod) containerID (shortID containerID) of
          Some name \<Rightarrow> Inr \<lparr>kw_Namespace = kp_namespace pod, kw_PodName = kp_name pod, kw_ContainerName = name\<rparr>
        | None \<Rightarrow> findPodWorkload pods containerID))"

definition listPods :: "CliEnv \<Rightarrow> rt_error + kubePod list" where
  "listPods env = (case command env [''kubectl'', ''get'', ''pod'', ''-A'', ''-o'', ''json''] of
     Inl e \<Rightarrow> Inl e | Inr out \<Rightarrow> (case cli_pods env out of Inl e \<Rightarrow> Inl (RtMsg e) | Inr pods \<Rightarrow> Inr pods))"

section \<open>The shared listing of pods\<close>

definition podListTTL :: duration where "podListTTL = 5 * second"
definition podListMissRefresh :: duration where "podListMissRefresh = second"

text \<open>
  A caller without a recent listing starts a fetch or joins the one in flight and waits: the fetch
  ends, with its result and the time of its end, or the context of the caller does, and then the fetch
  goes on without it.
\<close>

record podListCache =
  pl_pods :: "kubePod list option"
  pl_fetchedAt :: time

datatype pod_wait = Fetched "rt_error + kubePod list" time | Cancelled

definition fetch_done :: "rt_error + kubePod list \<Rightarrow> time \<Rightarrow> podListCache \<Rightarrow> podListCache" where
  "fetch_done result at c = (case result of Inl e \<Rightarrow> c | Inr pods \<Rightarrow> c\<lparr>pl_pods := Some pods, pl_fetchedAt := at\<rparr>)"

definition pods_get :: "time \<Rightarrow> duration \<Rightarrow> pod_wait \<Rightarrow> podListCache \<Rightarrow> podListCache \<times> (rt_error + kubePod list \<times> time)" where
  "pods_get now maxAge w c =
     (if pl_pods c \<noteq> None \<and> time_Sub now (pl_fetchedAt c) < maxAge then (c, Inr (the (pl_pods c), pl_fetchedAt c))
      else case w of Cancelled \<Rightarrow> (c, Inl RtContext)
      | Fetched result at \<Rightarrow> (fetch_done result at c, case result of Inl e \<Rightarrow> Inl e | Inr pods \<Rightarrow> Inr (pods, at)))"

text \<open>The clock and the waits of one lookup: at the first listing, at the check of its age, at the second.\<close>

record PodLookup =
  lu_first :: time
  lu_firstWait :: pod_wait
  lu_check :: time
  lu_second :: time
  lu_secondWait :: pod_wait

text \<open>Without a shared listing every lookup lists the pods itself.\<close>

definition workloadFromKubectl ::
  "CliEnv \<Rightarrow> PodLookup \<Rightarrow> string \<Rightarrow> podListCache option \<Rightarrow> podListCache option \<times> (rt_error + KubernetesWorkload)" where
  "workloadFromKubectl env lu containerID shared = (case shared of
     None \<Rightarrow> (None, case listPods env of Inl e \<Rightarrow> Inl e | Inr pods \<Rightarrow> findPodWorkload pods containerID)
   | Some c \<Rightarrow> (case pods_get (lu_first lu) podListTTL (lu_firstWait lu) c of
       (c, Inl e) \<Rightarrow> (Some c, Inl e)
     | (c, Inr (pods, fetchedAt)) \<Rightarrow>
         let workload = findPodWorkload pods containerID in
         if \<not> isl workload \<or> time_Sub (lu_check lu) fetchedAt < podListMissRefresh then (Some c, workload)
         else (case pods_get (lu_second lu) podListMissRefresh (lu_secondWait lu) c of
             (c, Inl e) \<Rightarrow> (Some c, Inl e)
           | (c, Inr (pods, _)) \<Rightarrow> (Some c, findPodWorkload pods containerID))))"

definition combineNamespaceErrors :: "rt_error option \<Rightarrow> rt_error option \<Rightarrow> rt_error" where
  "combineNamespaceErrors criErr kubectlErr =
     (let is = (\<lambda>p err. case err of None \<Rightarrow> False | Some e \<Rightarrow> p e);
          criAbsent = is is_absent criErr; kubectlAbsent = is is_absent kubectlErr;
          criUnavailable = is is_missing criErr; kubectlUnavailable = is is_missing kubectlErr;
          infrastructureErrors = filter (\<lambda>e. \<not> is_absent e)
            (concat (map (\<lambda>err. case err of None \<Rightarrow> [] | Some e \<Rightarrow> [e]) [criErr, kubectlErr])) in
      if (criAbsent \<or> criUnavailable) \<and> (kubectlAbsent \<or> kubectlUnavailable) \<and> (criAbsent \<or> kubectlAbsent)
      then RtNotFound ''kubernetes container''
      else if infrastructureErrors \<noteq> [] then RtJoin infrastructureErrors
      else RtMsg ''kubernetes namespace resolution was inconclusive'')"

definition namespace_by_kubectl ::
  "CliEnv \<Rightarrow> PodLookup \<Rightarrow> string \<Rightarrow> rt_error option \<Rightarrow> podListCache option \<Rightarrow> podListCache option \<times> (rt_error + KubernetesWorkload)" where
  "namespace_by_kubectl env lu containerID criErr shared =
     (case workloadFromKubectl env lu containerID shared of (shared, kubectl) \<Rightarrow>
        (shared, case kubectl of
           Inr workload \<Rightarrow> if kw_Namespace workload \<noteq> [] then Inr workload else Inl (combineNamespaceErrors criErr None)
         | Inl kubectlErr \<Rightarrow> Inl (combineNamespaceErrors criErr (Some kubectlErr))))"

definition complete_by_kubectl ::
  "CliEnv \<Rightarrow> PodLookup \<Rightarrow> string \<Rightarrow> KubernetesWorkload \<Rightarrow> podListCache option \<Rightarrow> podListCache option \<times> (rt_error + KubernetesWorkload)" where
  "complete_by_kubectl env lu containerID workload shared =
     (case workloadFromKubectl env lu containerID shared of
        (shared, Inl _) \<Rightarrow> (shared, Inr workload)
      | (shared, Inr fallback) \<Rightarrow> (shared, Inr (workload
          \<lparr>kw_PodName := (if kw_PodName workload = [] then kw_PodName fallback else kw_PodName workload),
           kw_ContainerName := (if kw_ContainerName workload = [] then kw_ContainerName fallback else kw_ContainerName workload)\<rparr>)))"

definition cli_KubernetesWorkloadForContainer ::
  "CliEnv \<Rightarrow> PodLookup \<Rightarrow> string \<Rightarrow> podListCache option \<Rightarrow> podListCache option \<times> (rt_error + KubernetesWorkload)" where
  "cli_KubernetesWorkloadForContainer env lu ident shared =
     (let containerID = TrimSpace ident in
      if containerID = [] then (shared, Inl (RtMsg ''container id is empty''))
      else case workloadFromCRICTL env containerID of
        Inr workload \<Rightarrow>
          if kw_Namespace workload = [] then namespace_by_kubectl env lu containerID None shared
          else if kw_PodName workload \<noteq> [] \<and> kw_ContainerName workload \<noteq> [] then (shared, Inr workload)
          else complete_by_kubectl env lu containerID workload shared
      | Inl criErr \<Rightarrow> namespace_by_kubectl env lu containerID (Some criErr) shared)"

definition cli_NamespaceForContainer ::
  "CliEnv \<Rightarrow> PodLookup \<Rightarrow> string \<Rightarrow> podListCache option \<Rightarrow> rt_error + string" where
  "cli_NamespaceForContainer env lu ident shared =
     map_sum id kw_Namespace (snd (cli_KubernetesWorkloadForContainer env lu ident shared))"

section \<open>Output is kept up to the limit\<close>

lemma bounded_Write_fold:
  assumes "0 \<le> bo_limit b" "int (length (bo_data b)) \<le> bo_limit b"
  shows "fold bounded_Write chunks b = b\<lparr>bo_data := take (nat (bo_limit b)) (bo_data b @ concat chunks),
     bo_exceeded := (bo_exceeded b \<or> bo_limit b < int (length (bo_data b @ concat chunks)))\<rparr>"
  using assms
proof (induction chunks arbitrary: b)
  case Nil
  then show ?case by (cases b) auto
next
  case (Cons x chunks)
  let ?l = "nat (bo_limit b)"
  have w: "bounded_Write x b = b\<lparr>bo_data := take ?l (bo_data b @ x), bo_exceeded := (bo_exceeded b \<or> bo_limit b < int (length (bo_data b @ x)))\<rparr>"
    using Cons.prems by (cases b) (auto simp: bounded_Write_def Let_def nat_diff_distrib)
  have t: "take ?l (take ?l (bo_data b @ x) @ concat chunks) = take ?l (bo_data b @ concat (x # chunks))"
    using Cons.prems by (auto simp: min_def)
  have e: "((bo_exceeded b \<or> bo_limit b < int (length (bo_data b @ x))) \<or>
        bo_limit b < int (length (take ?l (bo_data b @ x) @ concat chunks))) =
      (bo_exceeded b \<or> bo_limit b < int (length (bo_data b @ concat (x # chunks))))"
    using Cons.prems by (auto simp: min_def)
  let ?b = "b\<lparr>bo_data := take ?l (bo_data b @ x), bo_exceeded := (bo_exceeded b \<or> bo_limit b < int (length (bo_data b @ x)))\<rparr>"
  have "fold bounded_Write (x # chunks) b = fold bounded_Write chunks ?b" by (simp only: fold_simps w)
  also have "\<dots> = ?b\<lparr>bo_data := take ?l (take ?l (bo_data b @ x) @ concat chunks), bo_exceeded :=
      ((bo_exceeded b \<or> bo_limit b < int (length (bo_data b @ x))) \<or> bo_limit b < int (length (take ?l (bo_data b @ x) @ concat chunks)))\<rparr>"
    using Cons.IH [of ?b] Cons.prems by (simp del: take_append length_append append_assoc)
  finally show ?case unfolding t e by simp
qed

lemma collect_output_spec:
  "0 \<le> limit \<Longrightarrow> collect_output limit chunks =
     \<lparr>bo_data = take (nat limit) (concat chunks), bo_limit = limit, bo_exceeded = (limit < int (length (concat chunks)))\<rparr>"
  unfolding collect_output_def by (subst bounded_Write_fold) auto

section \<open>Absence is confirmed\<close>

text \<open>The tool ran, failed, and its complete error output says that there is no such container.\<close>

definition crictl_denies :: "CliEnv \<Rightarrow> string \<Rightarrow> bool" where
  "crictl_denies env ident \<longleftrightarrow> (let r = cli_run env [''crictl'', ''inspect'', ident]; text = concat (run_stderr r) in
     run_err r \<noteq> None \<and> int (length text) \<le> maxRuntimeErrorBytes \<and> has_text (ToLower text) ''code = notfound'')"

definition unlisted :: "kubePod list \<Rightarrow> string \<Rightarrow> bool" where
  "unlisted pods ident \<longleftrightarrow> (\<forall>pod \<in> set pods. \<forall>st \<in> set (kp_containerStatuses pod @ kp_initContainerStatuses pod).
     \<not> status_matches ident (shortID ident) st)"

text \<open>
  A listing without the container: the lookup's own or, when it is shared, one whose fetch ended less
  than a second before it was consulted or that the lookup waited for after a first listing missed.
\<close>

definition kubectl_denies :: "CliEnv \<Rightarrow> PodLookup \<Rightarrow> string \<Rightarrow> podListCache option \<Rightarrow> bool" where
  "kubectl_denies env lu ident shared \<longleftrightarrow> (case shared of
     None \<Rightarrow> \<exists>pods. listPods env = Inr pods \<and> unlisted pods ident
   | Some c \<Rightarrow> \<exists>pods at. unlisted pods ident \<and>
       ((pl_pods c = Some pods \<and> pl_fetchedAt c = at \<or> lu_firstWait lu = Fetched (Inr pods) at) \<and>
          (time_Sub (lu_check lu) at < podListMissRefresh \<or> time_Sub (lu_second lu) at < podListMissRefresh) \<or>
        lu_secondWait lu = Fetched (Inr pods) at))"

definition kubectl_missing :: "CliEnv \<Rightarrow> PodLookup \<Rightarrow> podListCache option \<Rightarrow> bool" where
  "kubectl_missing env lu shared \<longleftrightarrow> (case shared of
     None \<Rightarrow> \<exists>e. listPods env = Inl e \<and> is_missing e
   | Some c \<Rightarrow> \<exists>e at. is_missing e \<and> (lu_firstWait lu = Fetched (Inl e) at \<or> lu_secondWait lu = Fetched (Inl e) at))"

text \<open>How the enforcement reads the error: only \<open>ErrNotFound\<close> means that there is no such container.\<close>

definition enf_answer :: "rt_error + 'a \<Rightarrow> enf_error + 'a" where
  "enf_answer r = (case r of Inl e \<Rightarrow> Inl (if is_absent e then ErrRuntimeNotFound else ErrRuntime ''runtime'') | Inr v \<Rightarrow> Inr v)"

lemma command_not_absent: "command env argv = Inl e \<Longrightarrow> \<not> is_absent e"
  by (auto simp: command_def limitedCommandOutput_def Let_def split: option.splits if_splits)

lemma command_Inl_cases:
  assumes "command env argv = Inl e"
  shows "is_missing e \<longleftrightarrow> run_err (cli_run env argv) = Some ExecMissing"
    and "commandReportsNotFound e \<Longrightarrow> hd argv = ''crictl'' \<Longrightarrow> run_err (cli_run env argv) \<noteq> None \<and>
      int (length (concat (run_stderr (cli_run env argv)))) \<le> maxRuntimeErrorBytes \<and>
      has_text (ToLower (concat (run_stderr (cli_run env argv)))) ''code = notfound''"
proof -
  have l: "(0 :: int) \<le> maxRuntimeErrorBytes" by (simp add: maxRuntimeErrorBytes_def)
  from assms show "is_missing e \<longleftrightarrow> run_err (cli_run env argv) = Some ExecMissing"
    by (auto simp: command_def limitedCommandOutput_def Let_def split: option.splits if_splits)
  assume "commandReportsNotFound e" "hd argv = ''crictl''"
  with assms show "run_err (cli_run env argv) \<noteq> None \<and>
      int (length (concat (run_stderr (cli_run env argv)))) \<le> maxRuntimeErrorBytes \<and>
      has_text (ToLower (concat (run_stderr (cli_run env argv)))) ''code = notfound''"
    by (auto simp: command_def limitedCommandOutput_def Let_def collect_output_spec [OF l] not_less
        split: option.splits if_splits)
qed

lemma listPods_not_absent: "listPods env = Inl e \<Longrightarrow> \<not> is_absent e"
  by (auto simp: listPods_def dest: command_not_absent split: sum.splits)

lemma workloadFromCRICTL_Inl:
  assumes "workloadFromCRICTL env ident = Inl e"
  shows "is_absent e \<Longrightarrow> crictl_denies env ident"
    and "is_missing e \<Longrightarrow> run_err (cli_run env [''crictl'', ''inspect'', ident]) = Some ExecMissing"
  using assms command_Inl_cases [of env "[''crictl'', ''inspect'', ident]"] command_not_absent [of env "[''crictl'', ''inspect'', ident]"]
  by (auto simp: workloadFromCRICTL_def crictl_denies_def Let_def split: sum.splits if_splits)

lemma matchingContainerName_None:
  "matchingContainerName sts full short = None \<longleftrightarrow> (\<forall>st \<in> set sts. \<not> status_matches full short st)"
  by (auto simp: matchingContainerName_def find_None_iff)

lemma findPodWorkload_Inl: "findPodWorkload pods ident = Inl e \<Longrightarrow> unlisted pods ident"
  by (induction pods) (auto simp: unlisted_def matchingContainerName_None split: option.splits)

lemma findPodWorkload_error: "findPodWorkload pods ident = Inl e \<Longrightarrow> \<not> is_missing e"
  by (induction pods) (auto split: option.splits)

lemma pods_get_Inl: "pods_get now m w c = (c', Inl e) \<Longrightarrow> e = RtContext \<or> (\<exists>at. w = Fetched (Inl e) at)"
  by (auto simp: pods_get_def split: if_splits pod_wait.splits sum.splits)

lemma pods_get_Inr:
  "pods_get now m w c = (c', Inr (pods, at)) \<Longrightarrow>
     c' = c \<and> pl_pods c = Some pods \<and> pl_fetchedAt c = at \<and> time_Sub now at < m \<or>
     w = Fetched (Inr pods) at \<and> pl_pods c' = Some pods \<and> pl_fetchedAt c' = at"
  by (auto simp: pods_get_def fetch_done_def split: if_splits pod_wait.splits sum.splits)

text \<open>A wait ends with the outcome of a listing, of this lookup or of another one.\<close>

definition fetched_by :: "pod_wait \<Rightarrow> bool" where
  "fetched_by w \<longleftrightarrow> (\<forall>result at. w = Fetched result at \<longrightarrow> (\<exists>env. result = listPods env))"

lemma waited_not_absent: "pods_get now m w c = (c', Inl e) \<Longrightarrow> fetched_by w \<Longrightarrow> \<not> is_absent e"
  by (drule pods_get_Inl) (auto simp: fetched_by_def dest: listPods_not_absent [OF sym])

lemma waited_missing: "pods_get now m w c = (c', Inl e) \<Longrightarrow> is_missing e \<Longrightarrow> \<exists>at. w = Fetched (Inl e) at"
  by (drule pods_get_Inl) auto

lemma workloadFromKubectl_Inl:
  assumes "workloadFromKubectl env lu ident shared = (shared', Inl e)" "fetched_by (lu_firstWait lu)" "fetched_by (lu_secondWait lu)"
  shows "(is_absent e \<longrightarrow> kubectl_denies env lu ident shared) \<and> (is_missing e \<longrightarrow> kubectl_missing env lu shared)"
proof (cases shared)
  case None
  with assms(1) show ?thesis
    by (auto simp: workloadFromKubectl_def kubectl_denies_def kubectl_missing_def
        dest: listPods_not_absent findPodWorkload_Inl findPodWorkload_error split: sum.splits)
next
  case (Some c)
  obtain c1 r1 where g: "pods_get (lu_first lu) podListTTL (lu_firstWait lu) c = (c1, r1)" by fastforce
  show ?thesis
  proof (cases r1)
    case (Inl e1)
    with assms(1) Some g have "e = e1" by (simp add: workloadFromKubectl_def)
    with g Inl Some assms(2) show ?thesis
      using waited_not_absent waited_missing by (fastforce simp: kubectl_missing_def)
  next
    case (Inr pa)
    obtain pods at where pa: "pa = (pods, at)" by fastforce
    from pods_get_Inr [OF g [unfolded Inr pa]]
    have src: "pl_pods c = Some pods \<and> pl_fetchedAt c = at \<or> lu_firstWait lu = Fetched (Inr pods) at"
      and c1: "pl_pods c1 = Some pods" "pl_fetchedAt c1 = at" by auto
    show ?thesis
    proof (cases "\<not> isl (findPodWorkload pods ident) \<or> time_Sub (lu_check lu) at < podListMissRefresh")
      case True
      with assms(1) Some g Inr pa have "findPodWorkload pods ident = Inl e" "time_Sub (lu_check lu) at < podListMissRefresh"
        by (auto simp: workloadFromKubectl_def Let_def)
      with src Some show ?thesis
        by (auto simp: kubectl_denies_def dest: findPodWorkload_Inl findPodWorkload_error)
    next
      case False
      obtain c2 r2 where h: "pods_get (lu_second lu) podListMissRefresh (lu_secondWait lu) c1 = (c2, r2)" by fastforce
      show ?thesis
      proof (cases r2)
        case (Inl e2)
        with assms(1) Some g Inr pa False h have "e = e2" by (simp add: workloadFromKubectl_def Let_def)
        with h Inl Some assms(3) show ?thesis
          using waited_not_absent waited_missing by (fastforce simp: kubectl_missing_def)
      next
        case (Inr pb)
        obtain pods2 at2 where pb: "pb = (pods2, at2)" by fastforce
        have f: "findPodWorkload pods2 ident = Inl e"
          using assms(1) Some g \<open>r1 = Inr pa\<close> pa False h Inr pb by (simp add: workloadFromKubectl_def Let_def)
        from pods_get_Inr [OF h [unfolded Inr pb]] c1 src
        have "(pl_pods c = Some pods2 \<and> pl_fetchedAt c = at2 \<or> lu_firstWait lu = Fetched (Inr pods2) at2) \<and>
            time_Sub (lu_second lu) at2 < podListMissRefresh \<or> lu_secondWait lu = Fetched (Inr pods2) at2" by auto
        with f Some show ?thesis
          unfolding kubectl_denies_def using findPodWorkload_Inl findPodWorkload_error by fastforce
      qed
    qed
  qed
qed

lemma combine_absent:
  assumes "is_absent (combineNamespaceErrors criErr kubectlErr)"
  obtains e f where "criErr = Some e" "kubectlErr = Some f" "is_absent e \<or> is_missing e" "is_absent f \<or> is_missing f" "is_absent e \<or> is_absent f"
  using assms
  by (auto simp: combineNamespaceErrors_def Let_def list_ex_iff split: if_splits option.splits)

text \<open>
  C10: enforcement puts the process of a container outside a namespace only for a reason. When the
  answer of the runtime makes a scope check fail, the namespace of the container is known and is not
  an accepted one, or the container is confirmed to be absent: \<open>crictl\<close> or \<open>kubectl\<close> has denied
  it, by a complete error message or by a listing whose fetch ended less than a second before its use,
  and the other one has denied it as well or is not installed. Every other failure is an error.
\<close>

theorem scope_miss_confirmed:
  assumes "runtime_scope kind ident (enf_answer (cli_NamespaceForContainer env lu ident shared)) accept = Inr False"
    and "fetched_by (lu_firstWait lu)" "fetched_by (lu_secondWait lu)"
  shows "(\<exists>ns. cli_NamespaceForContainer env lu ident shared = Inr ns \<and> \<not> accept ns) \<or>
    (let c = TrimSpace ident; crictl = crictl_denies env c; kubectl = kubectl_denies env lu c shared in
      (crictl \<or> run_err (cli_run env [''crictl'', ''inspect'', c]) = Some ExecMissing) \<and>
      (kubectl \<or> kubectl_missing env lu shared) \<and> (crictl \<or> kubectl))"
proof (cases "cli_NamespaceForContainer env lu ident shared")
  case (Inr ns)
  with assms(1) show ?thesis by (simp add: runtime_scope_def enf_answer_def)
next
  case (Inl e)
  with assms(1) have a: "is_absent e" by (simp add: runtime_scope_def enf_answer_def split: if_splits)
  let ?c = "TrimSpace ident"
  from Inl obtain s' where w: "cli_KubernetesWorkloadForContainer env lu ident shared = (s', Inl e)"
    by (cases "cli_KubernetesWorkloadForContainer env lu ident shared"; cases "snd (cli_KubernetesWorkloadForContainer env lu ident shared)")
      (auto simp: cli_NamespaceForContainer_def)
  from w a obtain criErr where n: "namespace_by_kubectl env lu ?c criErr shared = (s', Inl e)"
    and cri: "\<And>x. criErr = Some x \<Longrightarrow> workloadFromCRICTL env ?c = Inl x"
    by (auto simp: cli_KubernetesWorkloadForContainer_def complete_by_kubectl_def Let_def split: if_splits sum.splits prod.splits)
  from n obtain k where k: "workloadFromKubectl env lu ?c shared = (s', k)"
    and e: "e = combineNamespaceErrors criErr (case k of Inl x \<Rightarrow> Some x | Inr _ \<Rightarrow> None)"
    by (auto simp: namespace_by_kubectl_def split: prod.splits sum.splits if_splits)
  from a [unfolded e] obtain x y where xy: "criErr = Some x" "(case k of Inl x \<Rightarrow> Some x | Inr _ \<Rightarrow> None) = Some y"
    "is_absent x \<or> is_missing x" "is_absent y \<or> is_missing y" "is_absent x \<or> is_absent y" by (rule combine_absent)
  from xy(2) have "k = Inl y" by (cases k) auto
  from workloadFromKubectl_Inl [OF k [unfolded this] assms(2,3)] workloadFromCRICTL_Inl [OF cri [OF xy(1)]] xy(3-5)
  show ?thesis unfolding Let_def by blast
qed

text \<open>A node without \<open>crictl\<close> whose shared listing is half a second old.\<close>

definition example_cli :: CliEnv where
  "example_cli = \<lparr>cli_run = (\<lambda>_. \<lparr>run_stdout = [], run_stderr = [], run_err = Some ExecMissing\<rparr>),
     cli_json = (\<lambda>_. Inl ''unexpected end of JSON input''), cli_pods = (\<lambda>_. Inl ''unexpected end of JSON input'')\<rparr>"

definition example_pods :: podListCache where
  "example_pods = \<lparr>pl_pods = Some [\<lparr>kp_namespace = ''prod'', kp_name = ''db-0'',
     kp_containerStatuses = [\<lparr>ks_Name = ''db'', ks_ContainerID = ''containerd://0123456789abcdef''\<rparr>],
     kp_initContainerStatuses = []\<rparr>], pl_fetchedAt = 1000\<rparr>"

definition example_pod_lookup :: PodLookup where
  "example_pod_lookup = \<lparr>lu_first = 1000 + 500000000, lu_firstWait = Cancelled, lu_check = 1000 + 500000000,
     lu_second = 1000 + 500000000, lu_secondWait = Cancelled\<rparr>"

theorem scope_miss_confirmed_witness:
  "cli_NamespaceForContainer example_cli example_pod_lookup ''0123456789abcdef'' (Some example_pods) = Inr ''prod'' \<and>
   kubectl_denies example_cli example_pod_lookup ''fedcba9876543210'' (Some example_pods)"
proof
  show "cli_NamespaceForContainer example_cli example_pod_lookup ''0123456789abcdef'' (Some example_pods) = Inr ''prod''" by code_simp
  have r: "runtime_scope ''k8s'' ''fedcba9876543210'' (enf_answer (cli_NamespaceForContainer example_cli example_pod_lookup
      ''fedcba9876543210'' (Some example_pods))) (\<lambda>ns. ns = ''prod'') = Inr False"
    and n: "isl (cli_NamespaceForContainer example_cli example_pod_lookup ''fedcba9876543210'' (Some example_pods))"
    and t: "TrimSpace ''fedcba9876543210'' = ''fedcba9876543210''" by code_simp+
  have f: "fetched_by (lu_firstWait example_pod_lookup)" "fetched_by (lu_secondWait example_pod_lookup)"
    by (simp_all add: fetched_by_def example_pod_lookup_def)
  have c: "\<not> crictl_denies example_cli ''fedcba9876543210''" by code_simp
  from scope_miss_confirmed [OF r f] n c show "kubectl_denies example_cli example_pod_lookup ''fedcba9876543210'' (Some example_pods)"
    unfolding Let_def t by auto
qed

end
