(* ===== verification/Runtime_Cache.thy ===== *)
theory Runtime_Cache
  imports Runtime_Lookup
begin

text \<open>
  The cache in front of the container runtime (\<open>CachedResolver\<close> of \<open>internal/runtime/runtime.go\<close>).
  A lookup has two sections under the lock: the first finds an answer, joins the call in flight for
  its key or starts one; the second, after the call has answered without the lock, stores the answer
  and closes the call. The two tables of the source that hold names and the one that holds
  workloads differ in the lifetime of an answer only, which is a parameter here.
\<close>

section \<open>State\<close>

definition maxResolverCacheEntries :: nat where "maxResolverCacheEntries = 1024"
definition defaultResolverTTL :: duration where "defaultResolverTTL = 5 * second"
definition defaultDockerNameTTL :: duration where "defaultDockerNameTTL = 30 * second"
definition defaultKubernetesTTL :: duration where "defaultKubernetesTTL = 24 * hour"

record 'v cacheEntry =
  ce_answer :: "rt_error + 'v"
  ce_expiresAt :: time

text \<open>A call is a number; \<open>lk_results\<close> has the answers of the closed ones.\<close>

record 'v Lookups =
  lk_cache :: "(string \<times> 'v cacheEntry) list"
  lk_calls :: "string \<Rightarrow> nat option"
  lk_results :: "nat \<Rightarrow> (rt_error + 'v) option"
  lk_next :: nat

definition NewCachedResolver :: "'v Lookups" where
  "NewCachedResolver = \<lparr>lk_cache = [], lk_calls = Map.empty, lk_results = Map.empty, lk_next = 0\<rparr>"

datatype 'v lookup_start = Hit "rt_error + 'v" | Join nat | Lead nat

section \<open>The two sections of a lookup\<close>

definition lookup_call :: "string \<Rightarrow> 'v Lookups \<Rightarrow> 'v Lookups \<times> 'v lookup_start" where
  "lookup_call key s = (case lk_calls s key of
     Some c \<Rightarrow> (s, Join c)
   | None \<Rightarrow> (s\<lparr>lk_calls := (lk_calls s)(key \<mapsto> lk_next s), lk_next := Suc (lk_next s)\<rparr>, Lead (lk_next s)))"

definition lookup_begin :: "time \<Rightarrow> string \<Rightarrow> 'v Lookups \<Rightarrow> 'v Lookups \<times> 'v lookup_start" where
  "lookup_begin now key s = (case map_of (lk_cache s) key of
     None \<Rightarrow> lookup_call key s
   | Some entry \<Rightarrow> if now < ce_expiresAt entry then (s, Hit (ce_answer entry))
       else lookup_call key (s\<lparr>lk_cache := filter (\<lambda>e. fst e \<noteq> key) (lk_cache s)\<rparr>))"

text \<open>Entries are deleted in the order in which the table happens to be walked.\<close>

fun evict_entries :: "string list \<Rightarrow> (string \<times> 'v cacheEntry) list \<Rightarrow> (string \<times> 'v cacheEntry) list" where
  "evict_entries [] cache = cache"
| "evict_entries (k # ks) cache = (if length cache \<ge> maxResolverCacheEntries
     then evict_entries ks (filter (\<lambda>e. fst e \<noteq> k) cache) else cache)"

definition make_room :: "time \<Rightarrow> string list \<Rightarrow> (string \<times> 'v cacheEntry) list \<Rightarrow> (string \<times> 'v cacheEntry) list" where
  "make_room completedAt order cache = (if length cache \<ge> maxResolverCacheEntries
     then evict_entries order (filter (\<lambda>e. completedAt < ce_expiresAt (snd e)) cache) else cache)"

definition lookup_finish ::
  "(rt_error + 'v \<Rightarrow> duration) \<Rightarrow> time \<Rightarrow> bool \<Rightarrow> string list \<Rightarrow> string \<Rightarrow> nat \<Rightarrow> rt_error + 'v \<Rightarrow> 'v Lookups \<Rightarrow> 'v Lookups" where
  "lookup_finish ttl completedAt cancelled order key c answer s =
     s\<lparr>lk_cache := (if cancelled then lk_cache s
         else (key, \<lparr>ce_answer = answer, ce_expiresAt = completedAt + ttl answer\<rparr>) #
           filter (\<lambda>e. fst e \<noteq> key) (make_room completedAt order (lk_cache s))),
       lk_results := (lk_results s)(c \<mapsto> answer), lk_calls := (lk_calls s)(key := None)\<rparr>"

text \<open>A caller that joined gets the answer of the call when it is closed, or takes the branch of its context.\<close>

definition lookup_wait :: "nat \<Rightarrow> bool \<Rightarrow> 'v Lookups \<Rightarrow> (rt_error + 'v) option" where
  "lookup_wait c cancelled s = (if cancelled then Some (Inl RtContext) else lk_results s c)"

section \<open>The lookups of the source\<close>

definition successTTL :: "duration \<Rightarrow> duration \<Rightarrow> duration" where
  "successTTL TTL def = (if TTL > 0 then TTL else def)"

definition resolve_ttl :: "duration \<Rightarrow> duration \<Rightarrow> rt_error + string \<Rightarrow> duration" where
  "resolve_ttl TTL success answer = (if isl answer then successTTL TTL defaultResolverTTL else successTTL TTL success)"

definition workload_ttl :: "duration \<Rightarrow> rt_error + KubernetesWorkload \<Rightarrow> duration" where
  "workload_ttl TTL answer = (case answer of Inl e \<Rightarrow> successTTL TTL defaultResolverTTL
   | Inr w \<Rightarrow> if kw_Namespace w \<noteq> [] \<and> kw_PodName w \<noteq> [] \<and> kw_ContainerName w \<noteq> [] then successTTL TTL defaultKubernetesTTL
       else successTTL TTL defaultDockerNameTTL)"

text \<open>The whole of a lookup when nothing comes between its sections; \<open>base\<close> is asked only by a leader.\<close>

definition lookup ::
  "(rt_error + 'v \<Rightarrow> duration) \<Rightarrow> time \<Rightarrow> time \<Rightarrow> bool \<Rightarrow> string list \<Rightarrow> string \<Rightarrow> rt_error + 'v \<Rightarrow> 'v Lookups \<Rightarrow>
     'v Lookups \<times> (rt_error + 'v) option" where
  "lookup ttl now completedAt cancelled order key base s = (case lookup_begin now key s of
     (s, Hit a) \<Rightarrow> (s, Some a)
   | (s, Join c) \<Rightarrow> (s, lookup_wait c cancelled s)
   | (s, Lead c) \<Rightarrow> (lookup_finish ttl completedAt cancelled order key c base s, Some base))"

definition cached_ResolveDockerContainer where
  "cached_ResolveDockerContainer TTL now completedAt cancelled order base nameOrID =
     lookup (resolve_ttl TTL defaultResolverTTL) now completedAt cancelled order (TrimSpace nameOrID) (base nameOrID)"

definition cached_DockerContainerName where
  "cached_DockerContainerName TTL now completedAt cancelled order base containerID =
     lookup (resolve_ttl TTL defaultDockerNameTTL) now completedAt cancelled order (ToLower (TrimSpace containerID)) (base containerID)"

definition cached_KubernetesWorkloadForContainer where
  "cached_KubernetesWorkloadForContainer TTL now completedAt cancelled order base containerID =
     lookup (workload_ttl TTL) now completedAt cancelled order (ToLower (TrimSpace containerID)) (base containerID)"

definition cached_answer :: "time \<Rightarrow> string \<Rightarrow> 'v Lookups \<Rightarrow> 'v option" where
  "cached_answer now containerID s = (case map_of (lk_cache s) (ToLower (TrimSpace containerID)) of
     None \<Rightarrow> None
   | Some entry \<Rightarrow> (case ce_answer entry of Inl _ \<Rightarrow> None | Inr v \<Rightarrow> if now < ce_expiresAt entry then Some v else None))"

definition CachedDockerContainerName :: "time \<Rightarrow> string \<Rightarrow> string Lookups \<Rightarrow> string option" where
  "CachedDockerContainerName = cached_answer"

definition CachedKubernetesWorkload :: "time \<Rightarrow> string \<Rightarrow> KubernetesWorkload Lookups \<Rightarrow> KubernetesWorkload option" where
  "CachedKubernetesWorkload = cached_answer"

section \<open>Any interleaving of lookups\<close>

text \<open>
  The log has each answer of the runtime with the call, the key and the time at which it was taken;
  \<open>joined\<close> has the callers that wait for a call. Clocks are read outside the lock, so nothing is said
  about their order.
\<close>

inductive lookups_reach ::
  "(rt_error + 'v \<Rightarrow> duration) \<Rightarrow> 'v Lookups \<Rightarrow> (nat \<times> string \<times> time \<times> (rt_error + 'v)) list \<Rightarrow> (nat \<times> string) list \<Rightarrow> bool"
  for ttl where
  fresh: "lookups_reach ttl NewCachedResolver [] []"
| enter: "lookups_reach ttl s log joined \<Longrightarrow> lookup_begin now key s = (s', r) \<Longrightarrow>
    lookups_reach ttl s' log (case r of Join c \<Rightarrow> (c, key) # joined | _ \<Rightarrow> joined)"
| leave: "lookups_reach ttl s log joined \<Longrightarrow> lk_calls s key = Some c \<Longrightarrow> fst ` set (lk_cache s) \<subseteq> set order \<Longrightarrow>
    lookups_reach ttl (lookup_finish ttl completedAt cancelled order key c answer s) ((c, key, completedAt, answer) # log) joined"

definition cache_ok :: "(rt_error + 'v \<Rightarrow> duration) \<Rightarrow> (nat \<times> string \<times> time \<times> (rt_error + 'v)) list \<Rightarrow> (string \<times> 'v cacheEntry) list \<Rightarrow> bool" where
  "cache_ok ttl log cache \<longleftrightarrow> distinct (map fst cache) \<and> length cache \<le> maxResolverCacheEntries \<and>
     (\<forall>(key, e) \<in> set cache. \<exists>c at. (c, key, at, ce_answer e) \<in> set log \<and> ce_expiresAt e = at + ttl (ce_answer e))"

definition calls_ok :: "(nat \<times> string \<times> time \<times> (rt_error + 'v)) list \<Rightarrow> (nat \<times> string) list \<Rightarrow> 'v Lookups \<Rightarrow> bool" where
  "calls_ok log joined s \<longleftrightarrow>
     (\<forall>key c. lk_calls s key = Some c \<longrightarrow> c < lk_next s \<and> lk_results s c = None) \<and>
     (\<forall>key key' c. lk_calls s key = Some c \<longrightarrow> lk_calls s key' = Some c \<longrightarrow> key = key') \<and>
     (\<forall>c. lk_results s c \<noteq> None \<longrightarrow> c < lk_next s) \<and>
     (\<forall>(c, key) \<in> set joined. lk_calls s key = Some c \<or> (\<exists>at a. lk_results s c = Some a \<and> (c, key, at, a) \<in> set log))"

lemma cache_ok_filter: "cache_ok ttl log cache \<Longrightarrow> cache_ok ttl log (filter p cache)"
  by (auto simp: cache_ok_def distinct_map_filter intro: order.trans [OF length_filter_le])

lemma cache_ok_log: "cache_ok ttl log cache \<Longrightarrow> cache_ok ttl (entry # log) cache"
  unfolding cache_ok_def by fastforce

lemma cache_ok_Cons:
  "cache_ok ttl log cache \<Longrightarrow> key \<notin> fst ` set cache \<Longrightarrow> length cache < maxResolverCacheEntries \<Longrightarrow> (c, key, at, a) \<in> set log \<Longrightarrow>
     cache_ok ttl log ((key, \<lparr>ce_answer = a, ce_expiresAt = at + ttl a\<rparr>) # cache)"
  unfolding cache_ok_def by auto

lemma evict_entries_ok: "cache_ok ttl log cache \<Longrightarrow> cache_ok ttl log (evict_entries ks cache)"
  by (induction ks cache rule: evict_entries.induct) (simp_all add: cache_ok_filter)

lemma evict_entries_bound:
  "fst ` set cache \<subseteq> set ks \<Longrightarrow> length (evict_entries ks cache) < maxResolverCacheEntries"
proof (induction ks arbitrary: cache)
  case (Cons k ks)
  have "fst ` set (filter (\<lambda>e. fst e \<noteq> k) cache) \<subseteq> set ks" using Cons.prems by auto
  from Cons.IH [OF this] show ?case by simp
qed (simp add: maxResolverCacheEntries_def)

lemma make_room_ok:
  assumes "cache_ok ttl log cache" "fst ` set cache \<subseteq> set order"
  shows "cache_ok ttl log (make_room at order cache)" "length (make_room at order cache) < maxResolverCacheEntries"
proof -
  have "fst ` set (filter (\<lambda>e. at < ce_expiresAt (snd e)) cache) \<subseteq> set order" using assms(2) by auto
  from evict_entries_bound [OF this] show "length (make_room at order cache) < maxResolverCacheEntries"
    by (simp add: make_room_def)
  from assms(1) show "cache_ok ttl log (make_room at order cache)"
    by (simp add: make_room_def evict_entries_ok cache_ok_filter)
qed

lemma lookup_call_cache: "lookup_call key s = (s', r) \<Longrightarrow> lk_cache s' = lk_cache s"
  by (auto simp: lookup_call_def split: option.splits)

lemma begin_cache: "lookup_begin now key s = (s', r) \<Longrightarrow> cache_ok ttl log (lk_cache s) \<Longrightarrow> cache_ok ttl log (lk_cache s')"
  by (auto simp: lookup_begin_def cache_ok_filter dest!: lookup_call_cache split: option.splits if_splits)

lemma finish_cache:
  assumes "cache_ok ttl log (lk_cache s)" "fst ` set (lk_cache s) \<subseteq> set order"
  shows "cache_ok ttl ((c, key, at, answer) # log) (lk_cache (lookup_finish ttl at cancelled order key c answer s))"
proof -
  let ?room = "filter (\<lambda>e. fst e \<noteq> key) (make_room at order (lk_cache s))"
  have "cache_ok ttl ((c, key, at, answer) # log) ?room" "length ?room < maxResolverCacheEntries" "key \<notin> fst ` set ?room"
    using make_room_ok [OF assms] by (auto intro: cache_ok_filter cache_ok_log le_less_trans [OF length_filter_le])
  with cache_ok_log [OF assms(1)] show ?thesis
    by (auto simp: lookup_finish_def intro!: cache_ok_Cons [of _ _ _ _ c])
qed

lemma calls_ok_cache [simp]: "calls_ok log joined (s\<lparr>lk_cache := x\<rparr>) = calls_ok log joined s"
  by (simp add: calls_ok_def)

lemma lookup_call_calls:
  assumes "calls_ok log joined s" "lookup_call key s = (s', r)"
  shows "calls_ok log (case r of Join c \<Rightarrow> (c, key) # joined | _ \<Rightarrow> joined) s'"
proof (cases "lk_calls s key")
  case None
  have new: "lk_results s (lk_next s) = None" "\<And>k. lk_calls s k \<noteq> Some (lk_next s)"
    using assms(1) unfolding calls_ok_def by blast+
  have s': "s' = s\<lparr>lk_calls := (lk_calls s)(key \<mapsto> lk_next s), lk_next := Suc (lk_next s)\<rparr>" "r = Lead (lk_next s)"
    using assms(2) None by (auto simp: lookup_call_def)
  have "lk_calls s' k = Some c \<longleftrightarrow> (if k = key then c = lk_next s else lk_calls s k = Some c)" for k c
    by (auto simp: s')
  then show ?thesis using assms(1) None new unfolding calls_ok_def s'(2) by (auto simp: s'(1) less_Suc_eq)
next
  case (Some c)
  with assms show ?thesis by (auto simp: lookup_call_def calls_ok_def)
qed

lemma begin_calls:
  assumes "lookup_begin now key s = (s', r)" "calls_ok log joined s"
  shows "calls_ok log (case r of Join c \<Rightarrow> (c, key) # joined | _ \<Rightarrow> joined) s'"
proof -
  from assms(1) consider a where "s' = s" "r = Hit a" | t where "lookup_call key t = (s', r)" "t = s \<or> (\<exists>x. t = s\<lparr>lk_cache := x\<rparr>)"
    by (auto simp: lookup_begin_def split: option.splits if_splits)
  then show ?thesis
  proof cases
    case 2
    then have "calls_ok log joined t" using assms(2) by auto
    from lookup_call_calls [OF this 2(1)] show ?thesis .
  qed (simp add: assms(2))
qed

lemma lookup_finish_select:
  "lk_calls (lookup_finish ttl at cancelled order key c answer s) = (lk_calls s)(key := None)"
  "lk_results (lookup_finish ttl at cancelled order key c answer s) = (lk_results s)(c \<mapsto> answer)"
  "lk_next (lookup_finish ttl at cancelled order key c answer s) = lk_next s"
  by (simp_all add: lookup_finish_def)

lemma finish_calls:
  assumes "calls_ok log joined s" "lk_calls s key = Some c"
  shows "calls_ok ((c, key, at, answer) # log) joined (lookup_finish ttl at cancelled order key c answer s)"
proof -
  have open_call: "\<And>k d. lk_calls s k = Some d \<Longrightarrow> d < lk_next s \<and> lk_results s d = None"
    and one: "\<And>k k' d. lk_calls s k = Some d \<Longrightarrow> lk_calls s k' = Some d \<Longrightarrow> k = k'"
    and closed: "\<And>d. lk_results s d \<noteq> None \<Longrightarrow> d < lk_next s"
    and wait: "\<And>d k. (d, k) \<in> set joined \<Longrightarrow> lk_calls s k = Some d \<or> (\<exists>at a. lk_results s d = Some a \<and> (d, k, at, a) \<in> set log)"
    using assms(1) unfolding calls_ok_def by blast+
  have "((lk_calls s)(key := None)) k = Some d \<or> (\<exists>t a. ((lk_results s)(c \<mapsto> answer)) d = Some a \<and> (d, k, t, a) \<in> set ((c, key, at, answer) # log))"
    if "(d, k) \<in> set joined" for d k
    using wait [OF that] open_call [OF assms(2)] assms(2) by (cases "k = key"; cases "d = c") auto
  moreover have "\<forall>k d. ((lk_calls s)(key := None)) k = Some d \<longrightarrow> d < lk_next s \<and> ((lk_results s)(c \<mapsto> answer)) d = None"
    using open_call one [OF assms(2)] by (auto split: if_splits)
  moreover have "\<forall>d. ((lk_results s)(c \<mapsto> answer)) d \<noteq> None \<longrightarrow> d < lk_next s"
    using closed open_call [OF assms(2)] by auto
  moreover have "\<forall>k k' d. ((lk_calls s)(key := None)) k = Some d \<longrightarrow> ((lk_calls s)(key := None)) k' = Some d \<longrightarrow> k = k'"
    using one by (auto split: if_splits)
  ultimately show ?thesis unfolding calls_ok_def lookup_finish_select by (intro conjI) blast+
qed

lemma lookups_reach_ok: "lookups_reach ttl s log joined \<Longrightarrow> cache_ok ttl log (lk_cache s) \<and> calls_ok log joined s"
proof (induction rule: lookups_reach.induct)
  case fresh
  then show ?case by (simp add: cache_ok_def calls_ok_def NewCachedResolver_def)
next
  case (enter s log joined now key s' r)
  then show ?case using begin_cache [OF enter.hyps(2)] begin_calls [OF enter.hyps(2)] by simp
next
  case (leave s log joined key c order at cancelled answer)
  then show ?case using finish_cache [of ttl log s order] finish_calls [of log joined s key c] by simp
qed

lemma lookup_begin_start:
  assumes "lookups_reach ttl s log joined"
  shows "case snd (lookup_begin now key s) of
      Hit a \<Rightarrow> \<exists>c at. (c, key, at, a) \<in> set log \<and> now < at + ttl a
    | Join c \<Rightarrow> lk_calls s key = Some c | Lead c \<Rightarrow> lk_calls s key = None"
proof (cases "map_of (lk_cache s) key")
  case None
  then show ?thesis by (auto simp: lookup_begin_def lookup_call_def split: option.splits)
next
  case (Some e)
  from map_of_SomeD [OF this] lookups_reach_ok [OF assms]
  obtain c at where "(c, key, at, ce_answer e) \<in> set log" "ce_expiresAt e = at + ttl (ce_answer e)"
    by (auto simp: cache_ok_def)
  then show ?thesis by (auto simp: lookup_begin_def lookup_call_def Some split: option.splits)
qed

text \<open>
  C31: the cache of container lookups gives out recent answers only. However lookups overlap, it has at
  most 1024 entries; an answer taken from it was given by the runtime for the same key, an error less
  than five seconds ago, a complete workload less than a day ago and an incomplete one less than
  thirty seconds ago; a lookup never starts a second call for a key, and a caller that joined a call
  waits for one that is in flight or gets the answer the runtime gave to it for the same key.
\<close>

theorem cached_answers_recent:
  assumes "lookups_reach (workload_ttl 0) s log joined"
  shows "length (lk_cache s) \<le> 1024 \<and>
    (case snd (lookup_begin now key s) of
       Hit a \<Rightarrow> \<exists>c at. (c, key, at, a) \<in> set log \<and> now < at + (case a of Inl _ \<Rightarrow> 5 * second
           | Inr w \<Rightarrow> if kw_Namespace w \<noteq> [] \<and> kw_PodName w \<noteq> [] \<and> kw_ContainerName w \<noteq> [] then 24 * hour else 30 * second)
     | Join c \<Rightarrow> lk_calls s key = Some c | Lead c \<Rightarrow> lk_calls s key = None) \<and>
    (\<forall>(c, k) \<in> set joined. lk_calls s k = Some c \<and> lookup_wait c False s = None \<or>
       (\<exists>at a. lookup_wait c False s = Some a \<and> (c, k, at, a) \<in> set log))"
proof (intro conjI)
  note ok = lookups_reach_ok [OF assms]
  then show "length (lk_cache s) \<le> 1024" by (simp add: cache_ok_def maxResolverCacheEntries_def)
  have ttl: "workload_ttl 0 a = (case a of Inl _ \<Rightarrow> 5 * second
      | Inr w \<Rightarrow> if kw_Namespace w \<noteq> [] \<and> kw_PodName w \<noteq> [] \<and> kw_ContainerName w \<noteq> [] then 24 * hour else 30 * second)" for a
    by (simp add: workload_ttl_def successTTL_def defaultResolverTTL_def defaultKubernetesTTL_def defaultDockerNameTTL_def split: sum.split)
  show "case snd (lookup_begin now key s) of
       Hit a \<Rightarrow> \<exists>c at. (c, key, at, a) \<in> set log \<and> now < at + (case a of Inl _ \<Rightarrow> 5 * second
           | Inr w \<Rightarrow> if kw_Namespace w \<noteq> [] \<and> kw_PodName w \<noteq> [] \<and> kw_ContainerName w \<noteq> [] then 24 * hour else 30 * second)
     | Join c \<Rightarrow> lk_calls s key = Some c | Lead c \<Rightarrow> lk_calls s key = None"
    using lookup_begin_start [OF assms, where now = now and key = key] unfolding ttl .
  show "\<forall>(c, k) \<in> set joined. lk_calls s k = Some c \<and> lookup_wait c False s = None \<or>
       (\<exists>at a. lookup_wait c False s = Some a \<and> (c, k, at, a) \<in> set log)"
    using ok by (fastforce simp: calls_ok_def lookup_wait_def)
qed

text \<open>A container is looked up, found to be absent, and a second caller had joined.\<close>

definition joined_lookup :: "KubernetesWorkload Lookups" where
  "joined_lookup = lookup_finish (workload_ttl 0) 2000 False [] ''0123'' 0 (Inl (RtNotFound ''kubernetes container''))
     (fst (lookup_begin 1500 ''0123'' (fst (lookup_begin 1000 ''0123'' NewCachedResolver))))"

theorem cached_answers_recent_witness:
  "snd (lookup_begin 3000 ''0123'' joined_lookup) = Hit (Inl (RtNotFound ''kubernetes container'')) \<and>
   lookup_wait 0 False joined_lookup = Some (Inl (RtNotFound ''kubernetes container'')) \<and> length (lk_cache joined_lookup) \<le> 1024"
proof -
  let ?s1 = "fst (lookup_begin 1000 ''0123'' (NewCachedResolver :: KubernetesWorkload Lookups))"
  have b: "lookup_begin 1000 ''0123'' (NewCachedResolver :: KubernetesWorkload Lookups) = (?s1, Lead 0)"
    and j: "lookup_begin 1500 ''0123'' ?s1 = (?s1, Join 0)"
    and c: "lk_calls ?s1 ''0123'' = Some 0" "lk_cache ?s1 = []"
    by (simp_all add: lookup_begin_def lookup_call_def NewCachedResolver_def)
  from lookups_reach.enter [OF lookups_reach.enter [OF lookups_reach.fresh b] j]
  have "lookups_reach (workload_ttl 0) ?s1 [] [(0, ''0123'')]" by simp
  from lookups_reach.leave [OF this c(1), of "[]" 2000 False "Inl (RtNotFound ''kubernetes container'')"] c(2) j
  have r: "lookups_reach (workload_ttl 0) joined_lookup [(0, ''0123'', 2000, Inl (RtNotFound ''kubernetes container''))] [(0, ''0123'')]"
    by (simp add: joined_lookup_def)
  have e: "map_of (lk_cache joined_lookup) ''0123'' = Some \<lparr>ce_answer = Inl (RtNotFound ''kubernetes container''), ce_expiresAt = 2000 + 5 * second\<rparr>"
    "lk_calls joined_lookup ''0123'' = None"
    by (simp_all add: joined_lookup_def lookup_finish_def workload_ttl_def successTTL_def defaultResolverTTL_def)
  from e(1) have "snd (lookup_begin 3000 ''0123'' joined_lookup) = Hit (Inl (RtNotFound ''kubernetes container''))"
    by (simp add: lookup_begin_def)
  with cached_answers_recent [OF r, where now = 3000 and key = "''0123''"] e(2) show ?thesis by auto
qed

end
