(* ===== verification/Gpu_Sampling.thy ===== *)
theory Gpu_Sampling
  imports Model
begin

text \<open>
  The shared samples of the GPU processes (\<open>ProcessFlight\<close> of \<open>internal/gpusmi/gpusmi.go\<close>): callers
  that arrive while a sample is being taken share it, unless it began before the time that they ask
  for. Entering, the end of a sample and waking up are separate steps, since the lock is free between
  them; the GPU tool itself is the result of a sample.
\<close>

section \<open>The steps of the source\<close>

record processCall =
  pc_started :: time
  pc_result :: "(string + GPUProcess list) option"

text \<open>A call is named by its position; \<open>pc_result\<close> is there when \<open>done\<close> is closed.\<close>

record ProcessFlight =
  pf_calls :: "processCall list"
  pf_call :: "nat option"

datatype flight_state = Entering | Outdated nat | Awaiting nat | Returned "string + GPUProcess list"

definition Do_enter :: "time \<Rightarrow> time \<Rightarrow> ProcessFlight \<Rightarrow> ProcessFlight \<times> flight_state" where
  "Do_enter now notBefore f = (case pf_call f of
     Some c \<Rightarrow> (f, if pc_started (pf_calls f ! c) < notBefore then Outdated c else Awaiting c)
   | None \<Rightarrow> let c = length (pf_calls f) in
       (f\<lparr>pf_calls := pf_calls f @ [\<lparr>pc_started = now, pc_result = None\<rparr>], pf_call := Some c\<rparr>, Awaiting c))"

definition sample_done :: "nat \<Rightarrow> string + GPUProcess list \<Rightarrow> ProcessFlight \<Rightarrow> ProcessFlight" where
  "sample_done c result f = f\<lparr>pf_calls := (pf_calls f)[c := (pf_calls f ! c)\<lparr>pc_result := Some result\<rparr>],
     pf_call := (if pf_call f = Some c then None else pf_call f)\<rparr>"

text \<open>
  What a waiting caller does next: \<open>None\<close> is that it keeps waiting. With \<open>cancelled\<close> it takes the branch of
  its context, which it may do when the sample is done as well.
\<close>

definition Do_wake :: "bool \<Rightarrow> ProcessFlight \<Rightarrow> flight_state \<Rightarrow> flight_state option" where
  "Do_wake cancelled f st = (case st of
     Outdated c \<Rightarrow> if cancelled then Some (Returned (Inl ''context''))
       else if pc_result (pf_calls f ! c) \<noteq> None then Some Entering else None
   | Awaiting c \<Rightarrow> if cancelled then Some (Returned (Inl ''context'')) else map_option Returned (pc_result (pf_calls f ! c))
   | _ \<Rightarrow> None)"

section \<open>Any interleaving of callers\<close>

record flight_caller =
  cl_notBefore :: time
  cl_waits :: nat
  cl_state :: flight_state

definition enters :: "flight_state \<Rightarrow> flight_caller \<Rightarrow> flight_caller" where
  "enters st cl = cl\<lparr>cl_state := st, cl_waits := (case st of Outdated _ \<Rightarrow> Suc (cl_waits cl) | _ \<Rightarrow> cl_waits cl)\<rparr>"

text \<open>A caller asks for a sample no newer than its own arrival; \<open>\<tau>\<close> is the monotonic clock.\<close>

inductive flight_reach :: "time \<Rightarrow> ProcessFlight \<Rightarrow> flight_caller list \<Rightarrow> bool" where
  idle: "flight_reach \<tau> \<lparr>pf_calls = [], pf_call = None\<rparr> []"
| later: "flight_reach \<tau> f cls \<Longrightarrow> \<tau> \<le> \<tau>' \<Longrightarrow> flight_reach \<tau>' f cls"
| arrive: "flight_reach \<tau> f cls \<Longrightarrow> notBefore \<le> \<tau> \<Longrightarrow>
    flight_reach \<tau> f (cls @ [\<lparr>cl_notBefore = notBefore, cl_waits = 0, cl_state = Entering\<rparr>])"
| enter: "flight_reach \<tau> f cls \<Longrightarrow> i < length cls \<Longrightarrow> cl_state (cls ! i) = Entering \<Longrightarrow>
    Do_enter \<tau> (cl_notBefore (cls ! i)) f = (f', st) \<Longrightarrow> flight_reach \<tau> f' (cls[i := enters st (cls ! i)])"
| sampled: "flight_reach \<tau> f cls \<Longrightarrow> c < length (pf_calls f) \<Longrightarrow> pc_result (pf_calls f ! c) = None \<Longrightarrow>
    flight_reach \<tau> (sample_done c result f) cls"
| wake: "flight_reach \<tau> f cls \<Longrightarrow> i < length cls \<Longrightarrow> Do_wake cancelled f (cl_state (cls ! i)) = Some st \<Longrightarrow>
    flight_reach \<tau> f (cls[i := (cls ! i)\<lparr>cl_state := st\<rparr>])"

section \<open>Invariant\<close>

definition running :: "ProcessFlight \<Rightarrow> nat \<Rightarrow> bool" where
  "running f c \<longleftrightarrow> c < length (pf_calls f) \<and> pc_result (pf_calls f ! c) = None"

definition flight_ok :: "ProcessFlight \<Rightarrow> bool" where
  "flight_ok f \<longleftrightarrow> (\<forall>c. running f c \<longleftrightarrow> pf_call f = Some c)"

text \<open>A caller that has waited for an outdated sample finds no other one that is too old for it.\<close>

definition caller_ok :: "time \<Rightarrow> ProcessFlight \<Rightarrow> flight_caller \<Rightarrow> bool" where
  "caller_ok \<tau> f cl \<longleftrightarrow> cl_notBefore cl \<le> \<tau> \<and> (case cl_state cl of
     Entering \<Rightarrow> cl_waits cl = 0 \<or> cl_waits cl = 1 \<and> (\<forall>c. running f c \<longrightarrow> cl_notBefore cl \<le> pc_started (pf_calls f ! c))
   | Outdated c \<Rightarrow> c < length (pf_calls f) \<and> cl_waits cl = 1 \<and> (\<forall>d. running f d \<longrightarrow> d \<noteq> c \<longrightarrow> cl_notBefore cl \<le> pc_started (pf_calls f ! d))
   | Awaiting c \<Rightarrow> c < length (pf_calls f) \<and> cl_waits cl \<le> 1 \<and> cl_notBefore cl \<le> pc_started (pf_calls f ! c)
   | Returned r \<Rightarrow> cl_waits cl \<le> 1 \<and> (\<forall>rows. r = Inr rows \<longrightarrow>
       (\<exists>c < length (pf_calls f). pc_result (pf_calls f ! c) = Some r \<and> cl_notBefore cl \<le> pc_started (pf_calls f ! c))))"

text \<open>The flight grows: calls stay, results stay, and a new call starts now.\<close>

definition grows :: "time \<Rightarrow> ProcessFlight \<Rightarrow> ProcessFlight \<Rightarrow> bool" where
  "grows \<tau> f g \<longleftrightarrow> length (pf_calls f) \<le> length (pf_calls g) \<and>
     (\<forall>c < length (pf_calls f). pc_started (pf_calls g ! c) = pc_started (pf_calls f ! c) \<and>
        (pc_result (pf_calls f ! c) \<noteq> None \<longrightarrow> pc_result (pf_calls g ! c) = pc_result (pf_calls f ! c))) \<and>
     (\<forall>c < length (pf_calls g). length (pf_calls f) \<le> c \<longrightarrow> \<tau> \<le> pc_started (pf_calls g ! c))"

lemma grows_running: "grows \<tau> f g \<Longrightarrow> running g c \<Longrightarrow> running f c \<and> pc_started (pf_calls g ! c) = pc_started (pf_calls f ! c) \<or> \<tau> \<le> pc_started (pf_calls g ! c)"
  unfolding grows_def running_def by (cases "c < length (pf_calls f)") auto

lemma caller_ok_grows:
  assumes "caller_ok \<tau> f cl" "grows \<tau> f g"
  shows "caller_ok \<tau> g cl"
proof -
  have old: "c < length (pf_calls f) \<Longrightarrow> c < length (pf_calls g) \<and> pc_started (pf_calls g ! c) = pc_started (pf_calls f ! c) \<and>
      (\<forall>r. pc_result (pf_calls f ! c) = Some r \<longrightarrow> pc_result (pf_calls g ! c) = Some r)" for c
    using assms(2) unfolding grows_def by auto
  have run: "running g c \<Longrightarrow> (running f c \<Longrightarrow> cl_notBefore cl \<le> pc_started (pf_calls f ! c)) \<Longrightarrow> cl_notBefore cl \<le> pc_started (pf_calls g ! c)" for c
    using grows_running [OF assms(2), of c] assms(1) unfolding caller_ok_def by auto
  show ?thesis
  proof (cases "cl_state cl")
    case (Outdated c)
    with assms(1) old [of c] run show ?thesis unfolding caller_ok_def by auto
  next
    case (Returned r)
    with assms(1) old show ?thesis unfolding caller_ok_def by fastforce
  qed (use assms(1) old run in \<open>auto simp: caller_ok_def\<close>)
qed

lemma grows_enter: "Do_enter \<tau> t f = (f', st) \<Longrightarrow> grows \<tau> f f'"
  by (auto simp: Do_enter_def grows_def nth_append Let_def split: option.splits)

lemma nth_update: "xs[i := v] ! j = (if i = j \<and> i < length xs then v else xs ! j)"
  by (cases "i < length xs") (auto simp: nth_list_update list_update_beyond)

lemma grows_done: "pc_result (pf_calls f ! c) = None \<Longrightarrow> grows \<tau> f (sample_done c r f)"
  by (auto simp: sample_done_def grows_def nth_update)

lemma running_done: "running (sample_done c r f) d \<longleftrightarrow> running f d \<and> d \<noteq> c"
  by (auto simp: running_def sample_done_def nth_update)

lemma running_start:
  "running (f\<lparr>pf_calls := pf_calls f @ [\<lparr>pc_started = t, pc_result = None\<rparr>], pf_call := x\<rparr>) c \<longleftrightarrow> running f c \<or> c = length (pf_calls f)"
  by (auto simp: running_def nth_append less_Suc_eq)

lemma flight_ok_enter: "flight_ok f \<Longrightarrow> Do_enter \<tau> t f = (f', st) \<Longrightarrow> flight_ok f'"
  by (auto simp: Do_enter_def flight_ok_def running_start Let_def split: option.splits)

lemma flight_ok_done: "flight_ok f \<Longrightarrow> running f c \<Longrightarrow> flight_ok (sample_done c r f)"
  unfolding flight_ok_def running_done by (auto simp: sample_done_def)

lemma caller_enters:
  assumes "caller_ok \<tau> f cl" "flight_ok f" "cl_state cl = Entering" "Do_enter \<tau> (cl_notBefore cl) f = (f', st)"
  shows "caller_ok \<tau> f' (enters st cl)"
proof (cases "pf_call f")
  case None
  with assms(1,3,4) show ?thesis by (auto simp: Do_enter_def caller_ok_def enters_def Let_def)
next
  case (Some c)
  then have c: "running f c" and only: "\<And>d. running f d \<Longrightarrow> d = c" using assms(2) unfolding flight_ok_def by auto
  from assms(1,3) c have w: "cl_waits cl \<le> 1" "cl_notBefore cl \<le> \<tau>"
    "pc_started (pf_calls f ! c) < cl_notBefore cl \<Longrightarrow> cl_waits cl = 0" by (auto simp: caller_ok_def)
  from assms(4) Some have e: "f' = f" "st = (if pc_started (pf_calls f ! c) < cl_notBefore cl then Outdated c else Awaiting c)"
    by (auto simp: Do_enter_def)
  have len: "c < length (pf_calls f)" using c by (simp add: running_def)
  show ?thesis using len only w unfolding e by (auto simp: caller_ok_def enters_def)
qed

lemma caller_wakes:
  assumes "caller_ok \<tau> f cl" "Do_wake cancelled f (cl_state cl) = Some st"
  shows "caller_ok \<tau> f (cl\<lparr>cl_state := st\<rparr>)"
proof (cases "cl_state cl")
  case (Outdated c)
  have "d \<noteq> c" if "running f d" "pc_result (pf_calls f ! c) \<noteq> None" for d using that by (auto simp: running_def)
  with Outdated assms show ?thesis unfolding caller_ok_def Do_wake_def by (fastforce split: if_splits)
next
  case (Awaiting c)
  with assms show ?thesis by (fastforce simp: caller_ok_def Do_wake_def split: if_splits option.splits)
qed (use assms in \<open>auto simp: Do_wake_def\<close>)

lemma flight_reach_ok: "flight_reach \<tau> f cls \<Longrightarrow> flight_ok f \<and> (\<forall>cl \<in> set cls. caller_ok \<tau> f cl)"
proof (induction rule: flight_reach.induct)
  case (idle \<tau>)
  then show ?case by (simp add: flight_ok_def running_def)
next
  case (later \<tau> f cls \<tau>')
  have "caller_ok \<tau> f cl \<Longrightarrow> caller_ok \<tau>' f cl" for cl using later.hyps(2) by (auto simp: caller_ok_def)
  with later.IH show ?case by (auto simp: flight_ok_def)
next
  case (arrive \<tau> f cls t)
  then show ?case by (auto simp: caller_ok_def)
next
  case (enter \<tau> f cls i f' st)
  have "caller_ok \<tau> f' (enters st (cls ! i))" using caller_enters [OF _ _ enter.hyps(3,4)] enter.IH enter.hyps(2) by simp
  with enter.IH show ?case
    using flight_ok_enter [OF _ enter.hyps(4)] caller_ok_grows [OF _ grows_enter [OF enter.hyps(4)]]
    by (auto dest!: set_update_subset_insert [THEN subsetD])
next
  case (sampled \<tau> f cls c r)
  then show ?case using flight_ok_done [of f c] caller_ok_grows [OF _ grows_done] by (auto simp: running_def)
next
  case (wake \<tau> f cls i cancelled st)
  have "caller_ok \<tau> f ((cls ! i)\<lparr>cl_state := st\<rparr>)" using caller_wakes [OF _ wake.hyps(3)] wake.IH wake.hyps(2) by simp
  with wake.IH show ?case by (auto dest!: set_update_subset_insert [THEN subsetD])
qed

text \<open>
  C27: samples are shared and never stale. However callers overlap, at most one sample is being taken; a
  caller is given the rows of a sample that began no earlier than the time it asked for, so a
  process that was using a GPU before the request is not missed through sharing; it waits for at most
  one older sample, and every call that a caller waits for is being taken or is done.
\<close>

theorem shared_samples_fresh:
  assumes "flight_reach \<tau> f cls" "cl \<in> set cls"
  shows "(\<forall>c d. running f c \<and> running f d \<longrightarrow> c = d) \<and> cl_waits cl \<le> 1 \<and>
    (case cl_state cl of
       Returned (Inr rows) \<Rightarrow> \<exists>c < length (pf_calls f). pc_result (pf_calls f ! c) = Some (Inr rows) \<and>
         cl_notBefore cl \<le> pc_started (pf_calls f ! c)
     | Awaiting c \<Rightarrow> pf_call f = Some c \<or> (\<exists>r. Do_wake False f (cl_state cl) = Some (Returned r))
     | Outdated c \<Rightarrow> pf_call f = Some c \<or> Do_wake False f (cl_state cl) = Some Entering
     | _ \<Rightarrow> True)" (is "_ \<and> _ \<and> ?st")
proof -
  have ok: "flight_ok f" "caller_ok \<tau> f cl" using flight_reach_ok [OF assms(1)] assms(2) by auto
  then have one: "\<forall>c d. running f c \<and> running f d \<longrightarrow> c = d" unfolding flight_ok_def by (metis option.inject)
  have w: "cl_waits cl \<le> 1" using ok(2) by (auto simp: caller_ok_def split: flight_state.splits)
  have run: "c < length (pf_calls f) \<Longrightarrow> pf_call f = Some c \<or> pc_result (pf_calls f ! c) \<noteq> None" for c
    using spec [OF ok(1) [unfolded flight_ok_def], of c] by (auto simp: running_def)
  have ?st
  proof (cases "cl_state cl")
    case (Outdated c)
    then have "pf_call f = Some c \<or> Do_wake False f (cl_state cl) = Some Entering"
      using ok(2) run [of c] by (auto simp: caller_ok_def Do_wake_def)
    with Outdated show ?thesis by simp
  next
    case (Awaiting c)
    then have "pf_call f = Some c \<or> (\<exists>r. Do_wake False f (cl_state cl) = Some (Returned r))"
      using ok(2) run [of c] by (auto simp: caller_ok_def Do_wake_def)
    with Awaiting show ?thesis by simp
  next
    case (Returned r)
    with ok(2) show ?thesis by (cases r) (simp_all add: caller_ok_def)
  next
    case Entering
    then show ?thesis by simp
  qed
  with one w show ?thesis by blast
qed

text \<open>A caller that finds an older sample waits for it and then takes its own.\<close>

definition example_row :: GPUProcess where
  "example_row = zero_GPUProcess\<lparr>gp_PID := 4242\<rparr>"

definition two_samples :: ProcessFlight where
  "two_samples = \<lparr>pf_calls = [\<lparr>pc_started = 10, pc_result = Some (Inr [])\<rparr>, \<lparr>pc_started = 20, pc_result = Some (Inr [example_row])\<rparr>],
     pf_call = None\<rparr>"

lemma two_samples_reach:
  "flight_reach 20 two_samples [\<lparr>cl_notBefore = 0, cl_waits = 0, cl_state = Awaiting 0\<rparr>,
     \<lparr>cl_notBefore = 20, cl_waits = 1, cl_state = Returned (Inr [example_row])\<rparr>]"
proof -
  let ?a = "\<lparr>cl_notBefore = 0 :: time, cl_waits = 0, cl_state = Awaiting 0\<rparr>"
  let ?b = "\<lambda>w st. \<lparr>cl_notBefore = 20 :: time, cl_waits = w, cl_state = st\<rparr>"
  note steps = Do_enter_def enters_def sample_done_def Do_wake_def two_samples_def Let_def
  let ?one = "\<lambda>r. \<lparr>pf_calls = [\<lparr>pc_started = 10, pc_result = r\<rparr>], pf_call = if r = None then Some 0 else None\<rparr>"
  let ?two = "\<lparr>pf_calls = [\<lparr>pc_started = 10, pc_result = Some (Inr [])\<rparr>, \<lparr>pc_started = 20, pc_result = None\<rparr>], pf_call = Some 1\<rparr>"
  have "flight_reach 10 (?one None) [?a]"
    using flight_reach.enter [OF flight_reach.arrive [OF flight_reach.idle, of 0 10], of 0 "?one None" "Awaiting 0"] by (simp add: steps)
  from flight_reach.enter [OF flight_reach.arrive [OF flight_reach.later [OF this, of 20], of 20], of 1 "?one None" "Outdated 0"]
  have "flight_reach 20 (?one None) [?a, ?b 1 (Outdated 0)]" by (simp add: steps)
  from flight_reach.sampled [OF this, of 0 "Inr []"] have "flight_reach 20 (?one (Some (Inr []))) [?a, ?b 1 (Outdated 0)]" by (simp add: steps)
  from flight_reach.wake [OF this, of 1 False Entering] have "flight_reach 20 (?one (Some (Inr []))) [?a, ?b 1 Entering]" by (simp add: steps)
  from flight_reach.enter [OF this, of 1 ?two "Awaiting 1"] have "flight_reach 20 ?two [?a, ?b 1 (Awaiting 1)]" by (simp add: steps)
  from flight_reach.sampled [OF this, of 1 "Inr [example_row]"] have "flight_reach 20 two_samples [?a, ?b 1 (Awaiting 1)]" by (simp add: steps)
  from flight_reach.wake [OF this, of 1 False "Returned (Inr [example_row])"] show ?thesis by (simp add: steps)
qed

theorem shared_samples_fresh_witness:
  "\<exists>c < length (pf_calls two_samples). pc_result (pf_calls two_samples ! c) = Some (Inr [example_row]) \<and>
     20 \<le> pc_started (pf_calls two_samples ! c)"
  using shared_samples_fresh [OF two_samples_reach, of "\<lparr>cl_notBefore = 20, cl_waits = 1, cl_state = Returned (Inr [example_row])\<rparr>"]
  by simp

end
