(* ===== verification/Nvidia_Sampling.thy ===== *)
theory Nvidia_Sampling
  imports Gpu_Sampling Go_Text
begin

text \<open>
  The sample of the processes on NVIDIA GPUs (\<open>internal/nvidiasmi/nvidiasmi.go\<close>): the list of the tool
  names GPUs by UUID, and a second query, whose answer is kept for two minutes, gives the index of each.
  The output of the tool, the CSV reader and the reading of floating point numbers are parameters.
\<close>

section \<open>Rows\<close>

definition maxSMIOutputBytes :: nat where "maxSMIOutputBytes = 16777216"
definition maxIndex :: nat where "maxIndex = 1023"
definition maxProcessRows :: nat where "maxProcessRows = 32768"
definition gpuMapTTL :: duration where "gpuMapTTL = 120 * second"

text \<open>The answers of the reader one after the other, up to the end of the input.\<close>

fun read_rows :: "nat \<Rightarrow> nat \<Rightarrow> (string + string list) list \<Rightarrow> string + string list list" where
  "read_rows maxRows n [] = Inr []"
| "read_rows maxRows n (Inl e # rest) = Inl (''parse nvidia-smi csv: '' @ e)"
| "read_rows maxRows n (Inr row # rest) = (if n \<ge> maxRows then Inl ''nvidia-smi response exceeds rows''
     else case read_rows maxRows (Suc n) rest of Inl e \<Rightarrow> Inl e | Inr rows \<Rightarrow> Inr (map TrimSpace row # rows))"

definition parseCSVRows :: "(string \<Rightarrow> (string + string list) list) \<Rightarrow> string \<Rightarrow> nat \<Rightarrow> string + string list list" where
  "parseCSVRows csv data maxRows =
     (if data = [] then Inr []
      else if length data > maxSMIOutputBytes then Inl ''nvidia-smi output exceeds bytes''
      else read_rows maxRows 0 (csv data))"

definition parseGPUIndex :: "string \<Rightarrow> int option" where
  "parseGPUIndex value = (let value = TrimSpace value in
     if value = [] \<or> value = ''N/A'' then None
     else case Atoi value of None \<Rightarrow> None | Some gpu \<Rightarrow> if gpu < 0 \<or> gpu > int maxIndex then None else Some gpu)"

definition parsePID :: "string \<Rightarrow> int option" where
  "parsePID value = (let value = TrimSpace value in
     if value = [] \<or> value = ''N/A'' then None else Atoi value)"

fun index_rows :: "string list list \<Rightarrow> (string \<times> int) list \<Rightarrow> (string \<times> int) list" where
  "index_rows [] out = out"
| "index_rows (row # rows) out = index_rows rows
     (if length row < 2 then out
      else case parseGPUIndex (row ! 0) of None \<Rightarrow> out
      | Some gpu \<Rightarrow> let uuid = TrimSpace (row ! 1) in
          if uuid = [] \<or> uuid = ''N/A'' then out else (uuid, gpu) # filter (\<lambda>e. fst e \<noteq> uuid) out)"

definition ParseGPUIndexUUIDCSV :: "(string \<Rightarrow> (string + string list) list) \<Rightarrow> string \<Rightarrow> string + (string \<times> int) list" where
  "ParseGPUIndexUUIDCSV csv data = (case parseCSVRows csv data (maxIndex + 1) of Inl e \<Rightarrow> Inl e | Inr rows \<Rightarrow> Inr (index_rows rows []))"

definition used_memory :: "(string \<Rightarrow> uint64 option) \<Rightarrow> string list \<Rightarrow> uint64 option" where
  "used_memory mib row = (if length row \<ge> 3 then
     let text = TrimSpace (row ! 2) in if text \<noteq> [] \<and> text \<noteq> ''N/A'' then mib text else None else None)"

definition app_process :: "(string \<Rightarrow> uint64 option) \<Rightarrow> (string \<times> int) list \<Rightarrow> string list \<Rightarrow> GPUProcess option" where
  "app_process mib uuidToIndex row = (case map_of uuidToIndex (TrimSpace (row ! 0)) of None \<Rightarrow> None
   | Some gpu \<Rightarrow> (case parsePID (row ! 1) of None \<Rightarrow> None
     | Some pid \<Rightarrow> if pid \<le> 0 then None
         else Some (zero_GPUProcess\<lparr>gp_GPU := gpu, gp_PID := pid,
           gp_MemBytes := (case used_memory mib row of None \<Rightarrow> 0 | Some m \<Rightarrow> m), gp_MemBytesUnknown := (used_memory mib row = None)\<rparr>)))"

fun app_rows :: "(string \<Rightarrow> uint64 option) \<Rightarrow> (string \<times> int) list \<Rightarrow> GPUProcess list \<Rightarrow> string list list \<Rightarrow> string + GPUProcess list" where
  "app_rows mib uuidToIndex processes [] = Inr processes"
| "app_rows mib uuidToIndex processes (row # rows) =
     (if length row < 2 then app_rows mib uuidToIndex processes rows
      else if length processes \<ge> maxProcessRows then Inl ''compute-apps response exceeds rows''
      else app_rows mib uuidToIndex
        (case app_process mib uuidToIndex row of None \<Rightarrow> processes | Some p \<Rightarrow> processes @ [p]) rows)"

definition ParseComputeAppsCSV where
  "ParseComputeAppsCSV csv mib data uuidToIndex =
     (case parseCSVRows csv data maxProcessRows of Inl e \<Rightarrow> Inl e | Inr rows \<Rightarrow> app_rows mib uuidToIndex [] rows)"

definition names_process :: "string list \<Rightarrow> bool" where
  "names_process row \<longleftrightarrow> length row \<ge> 2 \<and> TrimSpace (row ! 0) \<notin> {[], ''N/A''} \<and>
     (case parsePID (row ! 1) of None \<Rightarrow> False | Some pid \<Rightarrow> pid > 0)"

definition unknownComputeAppUUIDs :: "(string \<Rightarrow> (string + string list) list) \<Rightarrow> string \<Rightarrow> (string \<times> int) list \<Rightarrow> string + string list" where
  "unknownComputeAppUUIDs csv data uuidToIndex = (case parseCSVRows csv data maxProcessRows of Inl e \<Rightarrow> Inl e
   | Inr rows \<Rightarrow> Inr (fold (\<lambda>row unknown. let uuid = TrimSpace (row ! 0) in
       if names_process row \<and> uuid \<notin> set unknown \<and> map_of uuidToIndex uuid = None then unknown @ [uuid] else unknown) rows []))"

section \<open>The cache of indices\<close>

record cliCache =
  nc_uuidToIndex :: "(string \<times> int) list option"
  nc_at :: time
  nc_unresolved :: "string list"

definition cachedMap :: "time \<Rightarrow> cliCache option \<Rightarrow> (string \<times> int) list option" where
  "cachedMap now c = (case c of None \<Rightarrow> None
   | Some c \<Rightarrow> if nc_uuidToIndex c = None \<or> time_Sub now (nc_at c) \<ge> gpuMapTTL then None else nc_uuidToIndex c)"

definition storeMap :: "time \<Rightarrow> (string \<times> int) list \<Rightarrow> cliCache option \<Rightarrow> cliCache option" where
  "storeMap now m = map_option (\<lambda>c. if m = [] then c\<lparr>nc_uuidToIndex := None, nc_unresolved := []\<rparr>
     else c\<lparr>nc_uuidToIndex := Some m, nc_at := now, nc_unresolved := []\<rparr>)"

definition invalidate :: "cliCache option \<Rightarrow> cliCache option" where
  "invalidate = map_option (\<lambda>c. c\<lparr>nc_uuidToIndex := None, nc_unresolved := []\<rparr>)"

definition needsRefresh :: "cliCache \<Rightarrow> string list \<Rightarrow> bool" where
  "needsRefresh c unknown = list_ex (\<lambda>uuid. uuid \<notin> set (nc_unresolved c)) unknown"

definition setUnresolved :: "string list \<Rightarrow> cliCache \<Rightarrow> cliCache" where
  "setUnresolved unknown c = c\<lparr>nc_unresolved := unknown\<rparr>"

section \<open>A sample\<close>

text \<open>The answers of the tool: the processes, and the indices when they are asked for and asked again.\<close>

record SmiEnv =
  sm_apps :: "string + string"
  sm_gpus :: "string + string"
  sm_gpus_again :: "string + string"
  sm_now :: "nat \<Rightarrow> time"
  sm_csv :: "string \<Rightarrow> (string + string list) list"
  sm_mib :: "string \<Rightarrow> uint64 option"

definition smi_output :: "string + string \<Rightarrow> string + string" where
  "smi_output r = (case r of Inl e \<Rightarrow> Inl e
   | Inr out \<Rightarrow> if length out > maxSMIOutputBytes then Inl ''nvidia-smi output exceeds bytes'' else Inr out)"

definition gpuIndexMap ::
  "SmiEnv \<Rightarrow> nat \<Rightarrow> string + string \<Rightarrow> bool \<Rightarrow> cliCache option \<Rightarrow> cliCache option \<times> (string + (string \<times> int) list \<times> bool)" where
  "gpuIndexMap env k answer force c = (case if force then None else cachedMap (sm_now env k) c of
     Some m \<Rightarrow> (c, Inr (m, False))
   | None \<Rightarrow> (case smi_output answer of Inl e \<Rightarrow> (invalidate c, Inl e)
     | Inr out \<Rightarrow> (case ParseGPUIndexUUIDCSV (sm_csv env) out of Inl e \<Rightarrow> (invalidate c, Inl e)
       | Inr m \<Rightarrow> (storeMap (sm_now env (k + 1)) m c, Inr (m, True)))))"

definition checked_map ::
  "SmiEnv \<Rightarrow> string \<Rightarrow> (string \<times> int) list \<Rightarrow> bool \<Rightarrow> cliCache \<Rightarrow> cliCache option \<times> (string + (string \<times> int) list)" where
  "checked_map env apps m fresh c = (case unknownComputeAppUUIDs (sm_csv env) apps m of Inl e \<Rightarrow> (Some c, Inl e)
   | Inr unknown \<Rightarrow>
     if \<not> fresh \<and> needsRefresh c unknown then
       (case gpuIndexMap env 2 (sm_gpus_again env) True (Some c) of (c, Inl e) \<Rightarrow> (c, Inl e)
        | (c, Inr (m, _)) \<Rightarrow> (case unknownComputeAppUUIDs (sm_csv env) apps m of Inl e \<Rightarrow> (c, Inl e)
          | Inr unknown \<Rightarrow> (map_option (setUnresolved unknown) c, Inr m)))
     else (Some (setUnresolved unknown c), Inr m))"

definition sampleProcesses :: "SmiEnv \<Rightarrow> cliCache option \<Rightarrow> cliCache option \<times> (string + GPUProcess list)" where
  "sampleProcesses env c = (case gpuIndexMap env 0 (sm_gpus env) False c of (c, Inl e) \<Rightarrow> (c, Inl e)
   | (c, Inr (m, fresh)) \<Rightarrow>
     if m = [] then (c, Inr [])
     else (case smi_output (sm_apps env) of Inl e \<Rightarrow> (invalidate c, Inl e)
     | Inr apps \<Rightarrow> (case (case c of None \<Rightarrow> (None, Inr m) | Some c \<Rightarrow> checked_map env apps m fresh c) of
         (c, Inl e) \<Rightarrow> (c, Inl e)
       | (c, Inr m) \<Rightarrow> (c, ParseComputeAppsCSV (sm_csv env) (sm_mib env) apps m))))"

definition nvidia_ProcessesForGPUs :: "SmiEnv \<Rightarrow> int list \<Rightarrow> cliCache option \<Rightarrow> cliCache option \<times> (string + GPUProcess list)" where
  "nvidia_ProcessesForGPUs env gpus c = (case sampleProcesses env c of (c, Inl e) \<Rightarrow> (c, Inl e)
   | (c, Inr rows) \<Rightarrow> (c, Inr (filter (\<lambda>row. gp_GPU row \<in> set gpus) rows)))"

section \<open>No process is lost on a stale map\<close>

lemma app_rows_mem:
  "app_rows mib m acc rows = Inr ps \<Longrightarrow> row \<in> set rows \<Longrightarrow> 2 \<le> length row \<Longrightarrow> app_process mib m row = Some p \<Longrightarrow> p \<in> set ps"
  and app_rows_acc: "app_rows mib m acc rows = Inr ps \<Longrightarrow> set acc \<subseteq> set ps"
proof -
  show acc: "set acc \<subseteq> set ps" if "app_rows mib m acc rows = Inr ps" for acc rows
    using that by (induction rows arbitrary: acc) (fastforce split: if_splits option.splits)+
  show "p \<in> set ps" if "app_rows mib m acc rows = Inr ps" "row \<in> set rows" "2 \<le> length row" "app_process mib m row = Some p"
    using that by (induction rows arbitrary: acc) (auto dest: acc split: if_splits option.splits)
qed

lemma unknown_fold:
  "set (fold (\<lambda>row unknown. let uuid = TrimSpace (row ! 0) in
       if names_process row \<and> uuid \<notin> set unknown \<and> map_of m uuid = None then unknown @ [uuid] else unknown) rows acc) =
     set acc \<union> {u. map_of m u = None \<and> (\<exists>row \<in> set rows. names_process row \<and> TrimSpace (row ! 0) = u)}"
  by (induction rows arbitrary: acc) (auto simp: Let_def)

lemma unknown_spec:
  "unknownComputeAppUUIDs csv data m = Inr unknown \<Longrightarrow> parseCSVRows csv data maxProcessRows = Inr rows \<Longrightarrow>
     set unknown = {u. map_of m u = None \<and> (\<exists>row \<in> set rows. names_process row \<and> TrimSpace (row ! 0) = u)}"
  by (auto simp: unknownComputeAppUUIDs_def unknown_fold)

lemma app_process_seen:
  assumes "names_process row" "map_of m (TrimSpace (row ! 0)) = Some gpu"
  shows "\<exists>p. app_process mib m row = Some p \<and> gp_GPU p = gpu \<and> parsePID (row ! 1) = Some (gp_PID p)"
  using assms by (auto simp: names_process_def app_process_def split: option.splits)

text \<open>What the tool said in a sample: the rows of processes and the answers to the query of indices.\<close>

definition app_table :: "SmiEnv \<Rightarrow> string list list" where
  "app_table env = (case smi_output (sm_apps env) of Inl _ \<Rightarrow> [] | Inr apps \<Rightarrow>
     (case parseCSVRows (sm_csv env) apps maxProcessRows of Inl _ \<Rightarrow> [] | Inr rows \<Rightarrow> rows))"

definition listed :: "SmiEnv \<Rightarrow> string \<Rightarrow> bool" where
  "listed env uuid \<longleftrightarrow> (\<exists>row \<in> set (app_table env). names_process row \<and> TrimSpace (row ! 0) = uuid)"

definition queried :: "SmiEnv \<Rightarrow> (string \<times> int) list \<Rightarrow> bool" where
  "queried env m \<longleftrightarrow> (\<exists>answer \<in> {sm_gpus env, sm_gpus_again env}. \<exists>out.
     smi_output answer = Inr out \<and> ParseGPUIndexUUIDCSV (sm_csv env) out = Inr m)"

text \<open>The provider after a sequence of samples, failed ones included.\<close>

inductive nv_reach :: "cliCache option \<Rightarrow> SmiEnv list \<Rightarrow> bool" where
  created: "nv_reach (Some \<lparr>nc_uuidToIndex = None, nc_at = t, nc_unresolved = []\<rparr>) []"
| uncached: "nv_reach None []"
| sample: "nv_reach c envs \<Longrightarrow> sampleProcesses env c = (c', r) \<Longrightarrow> nv_reach c' (env # envs)"

definition nv_ok :: "cliCache option \<Rightarrow> SmiEnv set \<Rightarrow> bool" where
  "nv_ok c envs \<longleftrightarrow> (\<forall>d. c = Some d \<longrightarrow>
     (\<forall>m. nc_uuidToIndex d = Some m \<longrightarrow> m \<noteq> [] \<and> (\<exists>e \<in> envs. queried e m)) \<and>
     (\<forall>u \<in> set (nc_unresolved d). \<exists>e \<in> envs. \<exists>m. queried e m \<and> map_of m u = None \<and> listed e u))"

lemma nv_ok_mono: "nv_ok c envs \<Longrightarrow> envs \<subseteq> envs' \<Longrightarrow> nv_ok c envs'"
  unfolding nv_ok_def by blast

lemma nv_ok_invalidate: "nv_ok (invalidate c) envs"
  by (auto simp: nv_ok_def invalidate_def)

lemma gpuIndexMap_ok:
  assumes "gpuIndexMap env k answer force c = (c', r)" "nv_ok c envs" "env \<in> envs" "answer \<in> {sm_gpus env, sm_gpus_again env}"
  shows "nv_ok c' envs"
    and "r = Inr (m, fresh) \<Longrightarrow> (if fresh then queried env m else \<not> force \<and> c' = c \<and> (\<exists>d. c = Some d \<and> nc_uuidToIndex d = Some m))"
proof -
  have q: "queried env m" if "smi_output answer = Inr out" "ParseGPUIndexUUIDCSV (sm_csv env) out = Inr m" for out m
    using that assms(4) unfolding queried_def by blast
  have s: "nv_ok (storeMap t m c) envs" if "queried env m" for t m
    using that assms(2,3) by (auto simp: nv_ok_def storeMap_def)
  show "nv_ok c' envs"
    using assms(1,2) q s nv_ok_invalidate by (auto simp: gpuIndexMap_def split: option.splits sum.splits if_splits)
  show "r = Inr (m, fresh) \<Longrightarrow> (if fresh then queried env m else \<not> force \<and> c' = c \<and> (\<exists>d. c = Some d \<and> nc_uuidToIndex d = Some m))"
    using assms(1) q by (auto simp: gpuIndexMap_def cachedMap_def split: option.splits sum.splits if_splits)
qed

lemma unknown_listed:
  assumes "unknownComputeAppUUIDs (sm_csv env) apps m = Inr unknown" "smi_output (sm_apps env) = Inr apps"
  shows "set unknown = {u. map_of m u = None \<and> listed env u}"
proof -
  from assms(1) obtain rows where "parseCSVRows (sm_csv env) apps maxProcessRows = Inr rows"
    by (auto simp: unknownComputeAppUUIDs_def split: sum.splits)
  with unknown_spec [OF assms(1) this] assms(2) show ?thesis by (auto simp: listed_def app_table_def)
qed

lemma setUnresolved_ok:
  "nv_ok c envs \<Longrightarrow> (\<And>u. u \<in> set unknown \<Longrightarrow> \<exists>e \<in> envs. \<exists>m. queried e m \<and> map_of m u = None \<and> listed e u) \<Longrightarrow>
     nv_ok (map_option (setUnresolved unknown) c) envs"
  by (auto simp: nv_ok_def setUnresolved_def)

text \<open>After the check, what the map lacks was missing in an answer to a query made in the sample that listed it.\<close>

lemma checked_map_ok:
  assumes "checked_map env apps m fresh d = (c', r)" "smi_output (sm_apps env) = Inr apps" "nv_ok (Some d) envs" "env \<in> envs"
    and "fresh \<Longrightarrow> queried env m" "\<exists>e \<in> envs. queried e m"
  shows "nv_ok c' envs \<and> (\<forall>m'. r = Inr m' \<longrightarrow> (\<exists>e \<in> envs. queried e m') \<and>
    (\<forall>u. listed env u \<and> map_of m' u = None \<longrightarrow> (\<exists>e \<in> envs. \<exists>m. queried e m \<and> map_of m u = None \<and> listed e u)))"
proof (cases "unknownComputeAppUUIDs (sm_csv env) apps m")
  case (Inl e)
  with assms show ?thesis by (auto simp: checked_map_def)
next
  case (Inr unknown)
  note u = unknown_listed [OF Inr assms(2)]
  show ?thesis
  proof (cases "\<not> fresh \<and> needsRefresh d unknown")
    case False
    then have "\<exists>e \<in> envs. \<exists>m. queried e m \<and> map_of m x = None \<and> listed e x" if "x \<in> set unknown" for x
      using that assms(3-5) u by (auto simp: needsRefresh_def list_ex_iff nv_ok_def)
    moreover from this have "nv_ok (Some (setUnresolved unknown d)) envs" using setUnresolved_ok [OF assms(3)] by simp
    moreover have "c' = Some (setUnresolved unknown d)" "r = Inr m" using assms(1) Inr False by (auto simp: checked_map_def split: if_splits)
    ultimately show ?thesis using u assms(6) by auto
  next
    case True
    obtain c1 r1 where g: "gpuIndexMap env 2 (sm_gpus_again env) True (Some d) = (c1, r1)" by fastforce
    note ok = gpuIndexMap_ok [OF g assms(3,4)]
    show ?thesis
    proof (cases r1)
      case (Inl e)
      with assms(1) \<open>unknownComputeAppUUIDs (sm_csv env) apps m = Inr unknown\<close> True g ok(1) show ?thesis by (auto simp: checked_map_def)
    next
      case r1: (Inr mf)
      obtain m1 f where mf: "mf = (m1, f)" by fastforce
      from ok(2) [OF _ r1 [unfolded mf]] have q: "queried env m1" by (auto split: if_splits)
      show ?thesis
      proof (cases "unknownComputeAppUUIDs (sm_csv env) apps m1")
        case (Inl e)
        with assms(1) Inr True g r1 mf ok(1) show ?thesis by (auto simp: checked_map_def)
      next
        case r2: (Inr unknown')
        note u' = unknown_listed [OF r2 assms(2)]
        have "c' = map_option (setUnresolved unknown') c1" "r = Inr m1" using assms(1) Inr True g r1 mf r2 by (auto simp: checked_map_def)
        moreover have "nv_ok (map_option (setUnresolved unknown') c1) envs" using setUnresolved_ok [OF ok(1)] q u' assms(4) by blast
        ultimately show ?thesis using q assms(4) by blast
      qed
    qed
  qed
qed

text \<open>
  What a sample says with the map \<open>m\<close>: the processes on the GPUs of the map are reported with their
  index, and a GPU that is not in it was missing in an answer given in a sample that listed it.
\<close>

definition covers :: "SmiEnv \<Rightarrow> SmiEnv set \<Rightarrow> (string \<times> int) list \<Rightarrow> GPUProcess list \<Rightarrow> bool" where
  "covers env envs m ps \<longleftrightarrow> (\<exists>e \<in> envs. queried e m) \<and>
     (\<forall>row \<in> set (app_table env). \<forall>gpu. names_process row \<longrightarrow> map_of m (TrimSpace (row ! 0)) = Some gpu \<longrightarrow>
        (\<exists>p \<in> set ps. parsePID (row ! 1) = Some (gp_PID p) \<and> gp_GPU p = gpu)) \<and>
     (\<forall>u. listed env u \<longrightarrow> map_of m u = None \<longrightarrow> (\<exists>e \<in> envs. \<exists>m. queried e m \<and> map_of m u = None \<and> listed e u))"

lemma parsed_rows:
  assumes "ParseComputeAppsCSV (sm_csv env) mib apps m = Inr ps" "smi_output (sm_apps env) = Inr apps"
    and "row \<in> set (app_table env)" "names_process row" "map_of m (TrimSpace (row ! 0)) = Some gpu"
  shows "\<exists>p \<in> set ps. parsePID (row ! 1) = Some (gp_PID p) \<and> gp_GPU p = gpu"
proof -
  from assms(1) obtain rows where r: "parseCSVRows (sm_csv env) apps maxProcessRows = Inr rows" "app_rows mib m [] rows = Inr ps"
    by (auto simp: ParseComputeAppsCSV_def split: sum.splits)
  with assms(2,3) have "row \<in> set rows" by (simp add: app_table_def)
  moreover obtain p where "app_process mib m row = Some p" "gp_GPU p = gpu" "parsePID (row ! 1) = Some (gp_PID p)"
    using app_process_seen [OF assms(4,5)] by blast
  ultimately show ?thesis using app_rows_mem [OF r(2)] assms(4) by (auto simp: names_process_def)
qed

lemma covers_parsed:
  assumes "ParseComputeAppsCSV (sm_csv env) mib apps m = Inr ps" "smi_output (sm_apps env) = Inr apps" "\<exists>e \<in> envs. queried e m"
    and "\<forall>u. listed env u \<and> map_of m u = None \<longrightarrow> (\<exists>e \<in> envs. \<exists>m. queried e m \<and> map_of m u = None \<and> listed e u)"
  shows "covers env envs m ps"
  unfolding covers_def
proof (intro conjI ballI allI impI)
  fix row gpu
  assume "row \<in> set (app_table env)" "names_process row" "map_of m (TrimSpace (row ! 0)) = Some gpu"
  from parsed_rows [OF assms(1,2) this] show "\<exists>p \<in> set ps. parsePID (row ! 1) = Some (gp_PID p) \<and> gp_GPU p = gpu" .
qed (use assms(3,4) in blast)+

lemma covers_fresh: "queried env m \<Longrightarrow> env \<in> envs \<Longrightarrow> m = [] \<or> smi_output (sm_apps env) = Inr apps \<and>
    ParseComputeAppsCSV (sm_csv env) mib apps m = Inr ps \<Longrightarrow> covers env envs m ps"
  unfolding covers_def using parsed_rows by fastforce

lemma gpuIndexMap_None: "gpuIndexMap env k answer force c = (None, r) \<Longrightarrow> c = None"
  by (auto simp: gpuIndexMap_def storeMap_def invalidate_def split: option.splits sum.splits)

lemma sample_ok:
  assumes "sampleProcesses env c = (c', r)" "nv_ok c envs" "env \<in> envs"
  shows "nv_ok c' envs \<and> (\<forall>ps. r = Inr ps \<longrightarrow> (\<exists>m. covers env envs m ps))"
proof -
  obtain c1 r1 where g: "gpuIndexMap env 0 (sm_gpus env) False c = (c1, r1)" by fastforce
  note ok = gpuIndexMap_ok [OF g assms(2,3)]
  show ?thesis
  proof (cases r1)
    case (Inl e)
    with assms(1) g ok(1) show ?thesis by (auto simp: sampleProcesses_def)
  next
    case (Inr mf)
    obtain m fresh where mf: "mf = (m, fresh)" by fastforce
    have "if fresh then queried env m else c1 = c \<and> (\<exists>d. c = Some d \<and> nc_uuidToIndex d = Some m)"
      using ok(2) [OF _ Inr [unfolded mf]] by (simp split: if_splits)
    then have src: "\<exists>e \<in> envs. queried e m" "fresh \<Longrightarrow> queried env m" "\<not> fresh \<Longrightarrow> m \<noteq> [] \<and> c \<noteq> None"
      using assms(2,3) by (auto simp: nv_ok_def split: if_splits)
    consider "m = []" | e where "m \<noteq> []" "smi_output (sm_apps env) = Inl e" | apps where "m \<noteq> []" "smi_output (sm_apps env) = Inr apps"
      by (cases "smi_output (sm_apps env)") auto
    then show ?thesis
    proof cases
      case 1
      then have "c' = c1" "r = Inr []" "queried env m" using assms(1) g Inr mf src by (auto simp: sampleProcesses_def)
      moreover from covers_fresh [OF this(3) assms(3)] 1 have "covers env envs m []" by blast
      ultimately show ?thesis using ok(1) by auto
    next
      case 2
      with assms(1) g Inr mf show ?thesis by (auto simp: sampleProcesses_def nv_ok_invalidate)
    next
      case (3 apps)
      show ?thesis
      proof (cases c1)
        case None
        with gpuIndexMap_None g have "fresh" using src(3) by auto
        with 3 None assms(1) g Inr mf covers_fresh [OF src(2) assms(3)] ok(1) show ?thesis by (auto simp: sampleProcesses_def)
      next
        case (Some d)
        obtain c2 r2 where k: "checked_map env apps m fresh d = (c2, r2)" by fastforce
        note ck = checked_map_ok [OF k 3(2) ok(1) [unfolded Some] assms(3) src(2,1)]
        show ?thesis
        proof (cases r2)
          case (Inl e)
          with 3 Some assms(1) g \<open>r1 = Inr mf\<close> mf k ck show ?thesis by (auto simp: sampleProcesses_def)
        next
          case r2: (Inr m')
          have eq: "c' = c2" "r = ParseComputeAppsCSV (sm_csv env) (sm_mib env) apps m'"
            using 3 Some assms(1) g Inr mf k r2 by (auto simp: sampleProcesses_def)
          from ck r2 have m': "nv_ok c2 envs" "\<exists>e \<in> envs. queried e m'"
            "\<forall>u. listed env u \<and> map_of m' u = None \<longrightarrow> (\<exists>e \<in> envs. \<exists>m. queried e m \<and> map_of m u = None \<and> listed e u)" by auto
          from covers_parsed [OF _ 3(2) m'(2,3)] eq m'(1) show ?thesis by auto
        qed
      qed
    qed
  qed
qed

lemma nv_reach_ok: "nv_reach c envs \<Longrightarrow> nv_ok c (set envs)"
proof (induction rule: nv_reach.induct)
  case (sample c envs env c' r)
  have "nv_ok c (set (env # envs))" using nv_ok_mono [OF sample.IH] by auto
  from sample_ok [OF sample.hyps(2) this] show ?case by simp
qed (auto simp: nv_ok_def)

text \<open>
  C26: a sample of the NVIDIA GPUs leaves no process out because of a stale map. After any sequence of
  samples, failed ones included, a process that the tool lists and that has a number and a GPU is
  reported under the index that a query gave for this GPU, or there was a sample, this one or an
  earlier one, in which the tool listed the GPU and the query of indices did not know it.
\<close>

theorem listed_processes_reported:
  assumes "nv_reach c envs" "sampleProcesses env c = (c', Inr ps)" "row \<in> set (app_table env)" "names_process row"
  shows "(\<exists>p \<in> set ps. \<exists>e \<in> set (env # envs). \<exists>m. parsePID (row ! 1) = Some (gp_PID p) \<and> queried e m \<and>
      map_of m (TrimSpace (row ! 0)) = Some (gp_GPU p)) \<or>
    (\<exists>e \<in> set (env # envs). \<exists>m. queried e m \<and> map_of m (TrimSpace (row ! 0)) = None \<and> listed e (TrimSpace (row ! 0)))"
proof -
  have "nv_ok c (set (env # envs))" using nv_ok_mono [OF nv_reach_ok [OF assms(1)]] by auto
  from sample_ok [OF assms(2) this] obtain m where m: "covers env (set (env # envs)) m ps" by auto
  have l: "listed env (TrimSpace (row ! 0))" using assms(3,4) by (auto simp: listed_def)
  show ?thesis
  proof (cases "map_of m (TrimSpace (row ! 0))")
    case None
    with m l show ?thesis unfolding covers_def by blast
  next
    case (Some gpu)
    with m assms(3,4) show ?thesis unfolding covers_def by blast
  qed
qed

definition example_smi :: SmiEnv where
  "example_smi = \<lparr>sm_apps = Inr ''GPU-a, 4242, N/A'', sm_gpus = Inr ''0, GPU-a'', sm_gpus_again = Inr ''0, GPU-a'', sm_now = (\<lambda>_. 1000),
     sm_csv = (\<lambda>data. if data = ''0, GPU-a'' then [Inr [''0'', '' GPU-a'']] else [Inr [''GPU-a'', '' 4242'', '' N/A'']]),
     sm_mib = (\<lambda>_. None)\<rparr>"

definition example_nv :: "cliCache option" where
  "example_nv = Some \<lparr>nc_uuidToIndex = None, nc_at = 0, nc_unresolved = []\<rparr>"

theorem listed_processes_reported_witness:
  "\<exists>ps p. snd (sampleProcesses example_smi example_nv) = Inr ps \<and> p \<in> set ps \<and> gp_PID p = 4242 \<and> gp_GPU p = 0"
proof -
  have r: "nv_reach example_nv []" unfolding example_nv_def by (rule nv_reach.created)
  have "\<not> isl (snd (sampleProcesses example_smi example_nv))" by code_simp
  then obtain c' ps where s: "sampleProcesses example_smi example_nv = (c', Inr ps)"
    by (cases "sampleProcesses example_smi example_nv"; cases "snd (sampleProcesses example_smi example_nv)") auto
  have t: "app_table example_smi = [[''GPU-a'', ''4242'', ''N/A'']]" "names_process [''GPU-a'', ''4242'', ''N/A'']"
    "TrimSpace ''GPU-a'' = ''GPU-a''" "parsePID ''4242'' = Some 4242" by code_simp+
  have o: "smi_output (sm_gpus example_smi) = Inr ''0, GPU-a''" "smi_output (sm_gpus_again example_smi) = Inr ''0, GPU-a''"
    "ParseGPUIndexUUIDCSV (sm_csv example_smi) ''0, GPU-a'' = Inr [(''GPU-a'', 0)]" by code_simp+
  have q: "m = [(''GPU-a'', 0)]" if "queried example_smi m" for m using that o by (auto simp: queried_def)
  from listed_processes_reported [OF r s, of "[''GPU-a'', ''4242'', ''N/A'']"] t
  have "\<exists>p \<in> set ps. gp_PID p = 4242 \<and> gp_GPU p = 0" by (auto dest!: q)
  with s show ?thesis by auto
qed

end
