(* ===== verification/Spec2Isabelle.thy ===== *)
theory Spec2Isabelle
  imports Store_Lifecycle Store_Hygiene Store_Cutover Evict_Theorems Admission Memo System_Examples
    Collector_Examples Proc_Reader Throttle_Theorems Web_Storage Node_Examples
    Runtime_Cache Nvidia_Sampling
begin

text \<open>
  The verification library of GPUardian, a daemon that books the GPUs of a machine for its users and
  stops processes that use a GPU without being entitled to it, with a web gateway over a fleet of such
  machines. The library is a shallow embedding: one function for each operation of the Go sources under
  \<open>internal/\<close>, with the source's names, explicit state, errors as values and the outside (kernel, disk,
  clock, random source, JSON, other programs) as parameters.

  \<^bold>\<open>The parts and how they interact.\<close> The node store keeps keys, reservations, authorizations, claims and
  bypass rules in one file. The daemon answers requests over it, runs commands in control groups and,
  in a monitor pass, samples the GPUs, plans terminations with the enforcement planner, evicts
  processes of ended entitlements and cleans up. Jobs and reservations are reported as events of a
  telemetry log, which the gateway collects into a history. The gateway has accounts, sessions and
  access tokens, a registry and a layout of nodes, gives every account a fixed key which it pushes to
  the nodes, and passes requests on to nodes in the name of the user.

  \<^bold>\<open>Prelude and model.\<close> \<open>Prelude\<close> has the types of the program (\<open>time\<close> and \<open>duration\<close> in nanoseconds as
  \<open>int\<close>, 64-bit words), Go's string functions on bytes and the lemmas on lists shared below; \<open>Model\<close> has
  the records of \<open>model/model.go\<close>; \<open>Go_Text\<close>, \<open>Utf8\<close> and \<open>Base64\<close> are the parts of the standard library
  the sources use.

  \<^bold>\<open>Node store\<close> (\<open>store/store.go\<close>). \<open>Store_Base\<close>: loading, saving through a temporary file with rollback,
  bounds; \<open>Store_Register\<close>, \<open>Store_Ops\<close>, \<open>Store_Prune\<close>, \<open>Store_Sync\<close>, \<open>Store_Views\<close>: the operations.
  \<open>Store_Invariants\<close> and \<open>Store_Contract\<close> state the invariant and, as a locale, what every operation
  promises; \<open>Store_Machine\<close> is the machine of all operations, failures and restarts, once with any and
  once with one JSON codec (\<open>store_run\<close>); \<open>Store_Theorems\<close>,
  \<open>Store_Keys\<close>, \<open>Store_Lifecycle\<close>, \<open>Store_Hygiene\<close> and \<open>Store_Cutover\<close> have no double booking, limits,
  atomic saves, recovery, the life of keys and the cut-over to managed keys.

  \<^bold>\<open>Enforcement\<close> (\<open>enforce/enforce.go\<close>, \<open>enforce/terminations.go\<close>). \<open>Match\<close> and \<open>Authorize\<close>: which process an
  authorization covers; \<open>Enforce\<close>, \<open>Enforce_Plan\<close>: the plan of a pass; \<open>Evict\<close>: ended entitlements;
  \<open>Terminations\<close>: verified signals and escalation. \<open>Enforce_Theorems\<close>, \<open>Evict_Theorems\<close>: who is terminated
  and how often.

  \<^bold>\<open>Daemon\<close> (\<open>daemon/server.go\<close>, \<open>authorization_reclaim.go\<close>, \<open>telemetry.go\<close>, \<open>request_args.go\<close>,
  \<open>netlimit/listener.go\<close>, \<open>proc/proc.go\<close>, \<open>proc/memo.go\<close>). \<open>Daemon_Base\<close>, \<open>Daemon_Register\<close>, \<open>Daemon_Allow\<close>,
  \<open>Daemon_Run\<close>, \<open>Daemon_Monitor\<close> with \<open>Cgroup\<close> and \<open>Jobs\<close>; \<open>Daemon_System\<close> is the machine of all requests and
  monitor steps, in the sections between which the code gives up its lock; \<open>Admission\<close> the connection
  limits, \<open>Memo\<close> and \<open>Proc_Reader\<close> the reading of \<open>/proc\<close>; \<open>Node_HTTP\<close> the gateway's way in (\<open>daemon/http.go\<close>):
  the root key, the slots and what each route passes on to the daemon. The theories named \<open>_Theorems\<close> and \<open>_Examples\<close>
  have the properties and concrete runs.

  \<^bold>\<open>What the daemon asks of the machine.\<close> \<open>Runtime_Lookup\<close> and \<open>Runtime_Cache\<close> (\<open>runtime/runtime.go\<close>): the lookups
  of containers, when one counts as absent, and the cache in front of them; \<open>Gpu_Sampling\<close>
  (\<open>gpusmi/gpusmi.go\<close>): shared samples; \<open>Nvidia_Sampling\<close> (\<open>nvidiasmi/nvidiasmi.go\<close>): the list of processes
  with its cache of indices. The enforcement takes their answers as parameters, with the same types.

  \<^bold>\<open>Telemetry and history\<close> (\<open>telemetry/telemetry.go\<close>, \<open>web/history_collector.go\<close>, \<open>history/ingest.go\<close>).
  \<open>Outbox\<close>: the segmented log with pages and cursors; \<open>Collector\<close>: ingest and collection; the theorems say
  that from the first collection on events arrive exactly once and in order or a gap is marked; what a
  node dropped before is not missed. A collection asks for at most 32
  pages, as in the code; the theorem holds for any number of collections.

  \<^bold>\<open>Gateway\<close> (\<open>web/\<close>). \<open>Web_Base\<close>: private files and key files (\<open>users.go\<close>, \<open>secret.go\<close>); \<open>Web_Users\<close>,
  \<open>Web_Tokens\<close>: accounts, passwords, access tokens and fixed keys (\<open>users.go\<close>, \<open>access_tokens.go\<close>,
  \<open>user_keys.go\<close>), with their contract as a locale in \<open>Web_Machine\<close>; \<open>Web_Throttle\<close>, \<open>Web_Session\<close>:
  \<open>session.go\<close>; \<open>Web_Sync\<close>: \<open>managed_key_sync.go\<close>, composed with the node store; \<open>Web_Layout\<close>,
  \<open>Web_Registry\<close>: \<open>node_layout.go\<close>, \<open>registry.go\<close>; \<open>Web_Access\<close>, \<open>Web_Actions\<close>, \<open>Web_Fleet\<close>: the handlers of
  \<open>server.go\<close>, who may do what, and the fleet view. Hashes, authentication codes and the cipher are
  parameters; what is relied on of them is a hypothesis where it is used.

  \<^bold>\<open>Interleaving.\<close> An operation that holds a lock is one step. Where the code gives the lock up in between,
  as login, change of password, runs, the monitor and the refresh of the fleet do, the sections are
  separate definitions and the theorems allow anything of the machine between them.

  \<^bold>\<open>Numbers.\<close> Sequence numbers and start times are bounded by 64 bits where they can wrap; counters that
  the code bounds are \<open>nat\<close> or \<open>int\<close> with the bound proved. Times are \<open>int\<close>; a difference of times is
  saturated as Go does it.

  \<^bold>\<open>Not modelled.\<close> Sockets, HTTP routing and headers, JSON, TLS and compression are the standard library's.
  The SQL of the history (\<open>history/query.go\<close>, \<open>search.go\<close>, \<open>store.go\<close>, migrations, retention, summaries)
  is text for SQLite. \<open>amdsmi\<close> walks the JSON of AMD's tools, and its answer is a
  parameter of the enforcement. The read-only views of the node, configuration, server-sent events, the command
  line, the Python client and the browser interface have no state the properties depend on.
\<close>

section \<open>The daemon never books a GPU twice\<close>

text \<open>
  C1: the daemon as a whole keeps its bookings apart. After any sequence of register, allow, run,
  bypass, revoke and gateway requests and monitor passes, whatever the clocks, the kernel, the GPU
  tool and the container runtimes answer, two different reservations of one GPU are never active at
  the same instant, the state in memory is the committed one and it is within the persisted bounds.
\<close>

theorem daemon_no_double_booking:
  assumes "daemon_reach \<tau> n" "i < j" "j < length (Reservations (sto_state (nd_store n)))"
    and "rs_GPU (Reservations (sto_state (nd_store n)) ! i) = rs_GPU (Reservations (sto_state (nd_store n)) ! j)"
  shows "\<not> (ReservationActiveAt (Reservations (sto_state (nd_store n)) ! i) t \<and>
             ReservationActiveAt (Reservations (sto_state (nd_store n)) ! j) t) \<and>
    sto_state (nd_store n) = sto_committed (nd_store n) \<and> validateStateBounds (sto_state (nd_store n)) = None"
proof -
  have s: "in_order (store_inv \<tau>) (nd_store n)" using daemon_reach_sound [OF assms(1)] by (simp add: sound_def)
  then have "sorted_wrt apart (Reservations (sto_state (nd_store n)))"
    by (simp add: in_order_def store_inv_def no_double_booking_def)
  with assms(2,3) have "apart (Reservations (sto_state (nd_store n)) ! i) (Reservations (sto_state (nd_store n)) ! j)"
    by (auto simp: sorted_wrt_iff_nth_less)
  with assms(4) s show ?thesis by (auto simp: windows_conflict_iff in_order_def store_inv_def coherent_def)
qed

text \<open>A daemon that was asked twice for the same GPUs, for a later window.\<close>

definition second_register :: RegisterArgs where
  "second_register = example_register\<lparr>ra_Name := ''eve'', ra_ExternalSessionID := ''session-3'',
     ra_StartsAt := Some (1000 + 7200 * second), ra_ExpiresAt := Some (1000 + 9000 * second)\<rparr>"

abbreviation twice_booked :: Node where
  "twice_booked \<equiv> fst (dispatch_register (example_world 1000) second_register
     (fst (dispatch_register (example_world 1000) example_register (example_node example_booked))))"

theorem daemon_no_double_booking_witness:
  "map rs_GPU (Reservations (sto_state (nd_store twice_booked))) = [0, 1, 2, 3, 2, 3] \<and>
   \<not> (ReservationActiveAt (Reservations (sto_state (nd_store twice_booked)) ! 2) 2000 \<and>
      ReservationActiveAt (Reservations (sto_state (nd_store twice_booked)) ! 4) 2000)"
proof
  show gpus: "map rs_GPU (Reservations (sto_state (nd_store twice_booked))) = [0, 1, 2, 3, 2, 3]" by code_simp
  have "env_clock example_env = 1000" by code_simp
  then have "clocks 1000 1000 (example_world 1000)" using example_clocks [of 0] by simp
  from daemon_reach.register [OF example_daemon this] have r: "daemon_reach 1000 twice_booked" .
  from arg_cong [OF gpus, of length] have len: "4 < length (Reservations (sto_state (nd_store twice_booked)))" by simp
  from arg_cong [OF gpus, of "\<lambda>xs. xs ! 2"] arg_cong [OF gpus, of "\<lambda>xs. xs ! 4"] len
  have eq: "rs_GPU (Reservations (sto_state (nd_store twice_booked)) ! 2) =
        rs_GPU (Reservations (sto_state (nd_store twice_booked)) ! 4)" by (simp add: nth_map del: map_eq_Cons_conv)
  have "(2 :: nat) < 4" by simp
  from daemon_no_double_booking [OF r this len eq, of 2000]
  show "\<not> (ReservationActiveAt (Reservations (sto_state (nd_store twice_booked)) ! 2) 2000 \<and>
      ReservationActiveAt (Reservations (sto_state (nd_store twice_booked)) ! 4) 2000)" by blast
qed

end
